(* ===== verification/Gateway_Prelude.thy ===== *)
theory Gateway_Prelude
  imports Complex_Main "HOL-Library.Multiset" "HOL-Library.Word" "HOL-Library.Sublist"
begin

text \<open>
  Shared vocabulary of the development: the Go values the services pass around
  (strings as byte lists, decoded JSON, errors with their wrapping chain, times as
  nanosecond counts), the parts of the Go standard library the sources call on them
  (\<^verbatim>\<open>strings\<close>, \<^verbatim>\<open>errors\<close>, \<^verbatim>\<open>time\<close>), and the generic facts on first-match searches,
  splitting at separators and option-valued lookups that several components use.
  Strings are lists of bytes, as in Go; case mapping is the ASCII part of
  \<^verbatim>\<open>strings.ToLower\<close> and \<^verbatim>\<open>strings.ToUpper\<close>, which is what they compute on the ASCII
  identifiers (tool names, action verbs, scopes, pattern names) they are applied to.
\<close>

named_theorems go_string \<open>characterisations of the modelled string functions\<close>
named_theorems frame \<open>operations that leave a part of the state alone\<close>

section \<open>Go values\<close>

text \<open>A decoded JSON value (\<^verbatim>\<open>any\<close> after \<^verbatim>\<open>json.Unmarshal\<close>); a number is the rational its
  float64 denotes. An object is an association list, a nil map is None.\<close>

datatype json =
    JNull
  | JBool bool
  | JNum rat
  | JStr string
  | JArr "json list"
  | JObj "(string \<times> json) list"

type_synonym params = "(string \<times> json) list option"

text \<open>Nanoseconds since the epoch, and nanoseconds.\<close>

type_synonym time = int
type_synonym duration = int

definition second :: duration where
  "second = 1000000000"

text \<open>Go errors: the sentinels the code compares against with \<^verbatim>\<open>errors.Is\<close>, the typed
  denial it looks for with \<^verbatim>\<open>errors.As\<close>, plain texts, and \<^verbatim>\<open>fmt.Errorf("...%w", err)\<close>.\<close>

datatype sentinel =
    ErrNoRows
  | ErrNotLive
  | ErrAgentNotLive
  | ErrNotFound
  | ErrAgentNotFound
  | ErrAgentSuspended
  | ErrInvalidAPIKey
  | ErrOrgMismatch
  | ErrDanglingStep
  | ErrWorkflowNotFound
  | ErrConnectorNotFound
  | ErrAdminAuditWrite
  | ErrAdminAuditInvalid
  | ErrAPIKeyNotFound
  | ErrCanceled
  | ErrDeadlineExceeded

datatype go_error =
    Sentinel sentinel
  | PolicyDenied string string \<comment> \<open>reason, policy id\<close>
  | ErrText string
  | Wrapped string go_error

fun errors_is :: "sentinel \<Rightarrow> go_error \<Rightarrow> bool" where
  "errors_is t (Sentinel s) = (s = t)"
| "errors_is t (Wrapped _ e) = errors_is t e"
| "errors_is t (PolicyDenied _ _) = False"
| "errors_is t (ErrText _) = False"

fun as_policy_denied :: "go_error \<Rightarrow> (string \<times> string) option" where
  "as_policy_denied (PolicyDenied r p) = Some (r, p)"
| "as_policy_denied (Wrapped _ e) = as_policy_denied e"
| "as_policy_denied (Sentinel _) = None"
| "as_policy_denied (ErrText _) = None"

type_synonym 'a result = "go_error + 'a"

section \<open>The strings package\<close>

text \<open>A string is the list of the bytes of its UTF-8 form. Changing case and trimming are those of
  the package on ASCII, where all texts that the code compares against lie: a letter or a space
  outside ASCII stays as it is, so two spellings that differ in such a letter count as
  different here, though not always to \<^verbatim>\<open>strings.ToLower\<close>.\<close>

text \<open>A string is the list of the bytes of its UTF-8 form. Changing case and trimming are those of
  the package on ASCII, where all texts that the code compares against lie: a letter or a space
  outside ASCII stays as it is, so two spellings that differ in such a letter count as
  different here, though not always to \<^verbatim>\<open>strings.ToLower\<close>.\<close>

definition lower_char :: "char \<Rightarrow> char" where
  "lower_char c = (if 65 \<le> (of_char c :: nat) \<and> (of_char c :: nat) \<le> 90
                   then char_of ((of_char c :: nat) + 32) else c)"

definition upper_char :: "char \<Rightarrow> char" where
  "upper_char c = (if 97 \<le> (of_char c :: nat) \<and> (of_char c :: nat) \<le> 122
                   then char_of ((of_char c :: nat) - 32) else c)"

definition to_lower :: "string \<Rightarrow> string" where
  "to_lower s = map lower_char s"

definition to_upper :: "string \<Rightarrow> string" where
  "to_upper s = map upper_char s"

fun has_prefix :: "string \<Rightarrow> string \<Rightarrow> bool" where
  "has_prefix s [] = True"
| "has_prefix [] (p # ps) = False"
| "has_prefix (c # s) (p # ps) = (c = p \<and> has_prefix s ps)"

fun contains_str :: "string \<Rightarrow> string \<Rightarrow> bool" where
  "contains_str [] t = (t = [])"
| "contains_str (c # s) t = (has_prefix (c # s) t \<or> contains_str s t)"

definition trim_prefix :: "string \<Rightarrow> string \<Rightarrow> string" where
  "trim_prefix s p = (if has_prefix s p then drop (length p) s else s)"

text \<open>\<^verbatim>\<open>strings.IndexByte\<close>: the position of the first occurrence, if any.\<close>

fun index_byte :: "string \<Rightarrow> char \<Rightarrow> nat option" where
  "index_byte [] c = None"
| "index_byte (x # xs) c = (if x = c then Some 0 else map_option Suc (index_byte xs c))"

definition is_space :: "char \<Rightarrow> bool" where
  "is_space c = (c = CHR '' '' \<or> (9 \<le> (of_char c :: nat) \<and> (of_char c :: nat) \<le> 13))"

definition trim_space :: "string \<Rightarrow> string" where
  "trim_space s = rev (dropWhile is_space (rev (dropWhile is_space s)))"

text \<open>\<^verbatim>\<open>strings.ReplaceAll\<close> for a one-byte pattern.\<close>

definition replace_all :: "string \<Rightarrow> char \<Rightarrow> string \<Rightarrow> string" where
  "replace_all s c r = concat (map (\<lambda>x. if x = c then r else [x]) s)"

text \<open>\<^verbatim>\<open>strings.Split\<close> at a one-byte separator: always at least one piece.\<close>

fun split_on :: "char \<Rightarrow> string \<Rightarrow> string list" where
  "split_on c [] = [[]]"
| "split_on c (x # xs) =
     (if x = c then [] # split_on c xs
      else (case split_on c xs of [] \<Rightarrow> [[x]] | p # ps \<Rightarrow> (x # p) # ps))"

lemma to_lower_eq_Nil [simp]: "to_lower s = [] \<longleftrightarrow> s = []"
  by (simp add: to_lower_def)

lemma has_prefix_iff [go_string]: "has_prefix s p \<longleftrightarrow> prefix p s"
  by (induction s p rule: has_prefix.induct) (auto simp: prefix_Cons)

lemma contains_str_iff [go_string]: "contains_str s t \<longleftrightarrow> sublist t s"
  by (induction s) (auto simp: has_prefix_iff sublist_Cons_right)

lemma trim_prefix_append [simp]: "trim_prefix (p @ s) p = s"
  by (simp add: trim_prefix_def has_prefix_iff)

lemma index_byte_None [go_string]: "index_byte s c = None \<longleftrightarrow> c \<notin> set s"
  by (induction s) auto

lemma index_byte_Some [go_string]:
  "index_byte s c = Some i \<Longrightarrow> i < length s \<and> s ! i = c \<and> c \<notin> set (take i s)"
  by (induction s arbitrary: i) (auto split: if_splits)

lemma index_byte_append [simp]:
  "c \<notin> set a \<Longrightarrow> index_byte (a @ c # b) c = Some (length a)"
  by (induction a) auto

lemma split_on_neq_Nil [simp]: "split_on c s \<noteq> []"
  by (induction s) (auto split: list.splits)

lemma split_on_no_sep [simp]: "c \<notin> set s \<Longrightarrow> split_on c s = [s]"
  by (induction s) auto

lemma split_on_append [simp]:
  "c \<notin> set a \<Longrightarrow> split_on c (a @ c # b) = a # split_on c b"
  by (induction a) auto

lemma split_on_sep: "split_on c (a @ c # b) = split_on c a @ split_on c b"
proof (induction a)
  case (Cons x a)
  then show ?case by (cases "split_on c a") auto
qed simp

lemma trim_space_id: "(\<And>c. c \<in> set s \<Longrightarrow> \<not> is_space c) \<Longrightarrow> trim_space s = s"
proof -
  assume ns: "\<And>c. c \<in> set s \<Longrightarrow> \<not> is_space c"
  then have 1: "dropWhile is_space s = s"
    by (cases s) auto
  from ns have "dropWhile is_space (rev s) = rev s"
    by (metis dropWhile_eq_self_iff hd_in_set set_rev)
  with 1 show ?thesis by (simp add: trim_space_def)
qed

section \<open>Printing\<close>

text \<open>Decimal numerals (\<^verbatim>\<open>%d\<close>, \<^verbatim>\<open>strconv.Itoa\<close>), zero-padded fields and the quoted strings
  of \<^verbatim>\<open>%q\<close> (bytes from 128 on are copied, which is what the quoting does with the
  printable characters they encode).\<close>

definition digit_char :: "nat \<Rightarrow> char" where
  "digit_char n = char_of (48 + n mod 10)"

fun show_nat :: "nat \<Rightarrow> string" where
  "show_nat n = (if n < 10 then [digit_char n] else show_nat (n div 10) @ [digit_char (n mod 10)])"

declare show_nat.simps [simp del]

definition show_int :: "int \<Rightarrow> string" where
  "show_int i = (if i < 0 then CHR ''-'' # show_nat (nat (- i)) else show_nat (nat i))"

definition pad_zero :: "nat \<Rightarrow> string \<Rightarrow> string" where
  "pad_zero w s = replicate (w - length s) (CHR ''0'') @ s"

definition hex_digit :: "nat \<Rightarrow> char" where
  "hex_digit n = (if n < 10 then char_of (48 + n) else char_of (87 + n))"

definition quote_char :: "char \<Rightarrow> string" where
  "quote_char c =
     (let n = (of_char c :: nat); bs = char_of (92::nat) in
      if n = 34 \<or> n = 92 then [bs, c]
      else if n = 7 then [bs, CHR ''a''] else if n = 8 then [bs, CHR ''b'']
      else if n = 9 then [bs, CHR ''t''] else if n = 10 then [bs, CHR ''n'']
      else if n = 11 then [bs, CHR ''v''] else if n = 12 then [bs, CHR ''f'']
      else if n = 13 then [bs, CHR ''r'']
      else if n < 32 \<or> n = 127 then [bs, CHR ''x'', hex_digit (n div 16), hex_digit (n mod 16)]
      else [c])"

definition go_quote :: "string \<Rightarrow> string" where
  "go_quote s = [char_of (34::nat)] @ concat (map quote_char s) @ [char_of (34::nat)]"

text \<open>\<^verbatim>\<open>hex.EncodeToString\<close>.\<close>

definition hex_encode :: "string \<Rightarrow> string" where
  "hex_encode bs = concat (map (\<lambda>b. [hex_digit ((of_char b :: nat) div 16), hex_digit ((of_char b :: nat) mod 16)]) bs)"

lemma length_hex_encode [simp]: "length (hex_encode bs) = 2 * length bs"
  by (induction bs) (auto simp: hex_encode_def)

lemma of_char_lt: "(of_char c :: nat) < 256"
  by (metis of_char_mod_256 mod_less_divisor zero_less_numeral)

lemma hex_digit_inject:
  assumes "hex_digit i = hex_digit j" "i < 16" "j < 16"
  shows "i = j"
proof -
  from assms(1) have "of_char (hex_digit i) = (of_char (hex_digit j) :: nat)" by simp
  with assms(2,3) show ?thesis by (simp add: hex_digit_def split: if_splits)
qed

lemma hex_encode_inject: "hex_encode a = hex_encode b \<longleftrightarrow> a = b"
proof
  show "hex_encode a = hex_encode b \<Longrightarrow> a = b"
  proof (induction a arbitrary: b)
    case Nil
    then show ?case by (cases b) (auto simp: hex_encode_def)
  next
    case (Cons x a)
    then obtain y b' where b: "b = y # b'" by (cases b) (auto simp: hex_encode_def)
    have h: "hex_digit (of_char x div 16) = hex_digit (of_char y div 16)"
      "hex_digit (of_char x mod 16) = hex_digit (of_char y mod 16)" "hex_encode a = hex_encode b'"
      using Cons.prems by (simp_all add: b hex_encode_def)
    have lt: "of_char z div 16 < (16::nat)" for z :: char
      using of_char_lt [of z] by (simp add: less_mult_imp_div_less)
    have "(of_char x :: nat) div 16 = of_char y div 16" "(of_char x :: nat) mod 16 = of_char y mod 16"
      using hex_digit_inject [OF h(1) lt lt] hex_digit_inject [OF h(2)] by simp_all
    then have "(of_char x :: nat) = of_char y" by (metis div_mult_mod_eq)
    with Cons.IH [OF h(3)] b show ?case by simp
  qed
qed simp

section \<open>Times\<close>

text \<open>\<^verbatim>\<open>time.Time{}\<close> (January 1 of the year 1), and \<^verbatim>\<open>Format(time.RFC3339)\<close> of a UTC time
  of the years 0 to 9999: the civil date of the day count, then the time of day.\<close>

definition zero_time :: time where
  "zero_time = - 62135596800 * second"

definition civil_of_days :: "int \<Rightarrow> int \<times> int \<times> int" where
  "civil_of_days days =
     (let z = days + 719468; era = z div 146097; doe = z mod 146097;
          yoe = (doe - doe div 1460 + doe div 36524 - doe div 146096) div 365;
          doy = doe - (365 * yoe + yoe div 4 - yoe div 100);
          mp = (5 * doy + 2) div 153;
          d = doy - (153 * mp + 2) div 5 + 1;
          m = (if mp < 10 then mp + 3 else mp - 9)
      in (yoe + era * 400 + (if m \<le> 2 then 1 else 0), m, d))"

definition pad_int :: "nat \<Rightarrow> int \<Rightarrow> string" where
  "pad_int w i = pad_zero w (show_nat (nat i))"

definition format_rfc3339 :: "time \<Rightarrow> string" where
  "format_rfc3339 t =
     (let secs = t div second; days = secs div 86400; sod = secs mod 86400
      in case civil_of_days days of (y, m, d) \<Rightarrow>
        pad_int 4 y @ ''-'' @ pad_int 2 m @ ''-'' @ pad_int 2 d @ ''T''
        @ pad_int 2 (sod div 3600) @ '':'' @ pad_int 2 (sod div 60 mod 60) @ '':'' @ pad_int 2 (sod mod 60) @ ''Z'')"

lemma format_rfc3339_cong: "t div second = u div second \<Longrightarrow> format_rfc3339 t = format_rfc3339 u"
  by (simp add: format_rfc3339_def)

text \<open>Postgres keeps microseconds; pgx truncates.\<close>

definition pg_timestamp :: "time \<Rightarrow> time" where
  "pg_timestamp t = t div 1000 * 1000"

lemma pg_timestamp_second: "pg_timestamp t div second = t div second"
proof -
  have "pg_timestamp t div second = t div 1000 * 1000 div 1000 div 1000000"
    by (simp add: pg_timestamp_def second_def zdiv_zmult2_eq [symmetric])
  also have "\<dots> = t div second"
    by (simp add: second_def zdiv_zmult2_eq [symmetric])
  finally show ?thesis .
qed

lemma format_pg_timestamp [simp]: "format_rfc3339 (pg_timestamp t) = format_rfc3339 t"
  by (rule format_rfc3339_cong) (rule pg_timestamp_second)

text \<open>UUIDs in their canonical text form.\<close>

type_synonym uuid = string

definition nil_uuid :: uuid where
  "nil_uuid = ''00000000-0000-0000-0000-000000000000''"

section \<open>64-bit integers\<close>

text \<open>Go's \<^verbatim>\<open>int64\<close>: values as integers in the signed 64-bit range, every arithmetic
  result reduced by \<open>wrap64\<close>; division truncates towards zero.\<close>

definition wrap64 :: "int \<Rightarrow> int" where
  "wrap64 x = sint (word_of_int x :: 64 word)"

definition int64 :: "int \<Rightarrow> bool" where
  "int64 x = (- (2 ^ 63) \<le> x \<and> x < 2 ^ 63)"

definition go_div :: "int \<Rightarrow> int \<Rightarrow> int" where
  "go_div a b = sgn a * sgn b * (\<bar>a\<bar> div \<bar>b\<bar>)"

definition go_rem :: "int \<Rightarrow> int \<Rightarrow> int" where
  "go_rem a b = a - go_div a b * b"

lemma wrap64_eq: "wrap64 x = (x + 2 ^ 63) mod 2 ^ 64 - 2 ^ 63"
proof -
  have "wrap64 x = signed_take_bit 63 x"
    by (simp add: wrap64_def sint_sbintrunc')
  then show ?thesis
    by (simp add: signed_take_bit_eq_take_bit_shift take_bit_eq_mod)
qed

lemma wrap64_int64 [simp]: "int64 (wrap64 x)"
  by (simp add: int64_def wrap64_eq)

lemma wrap64_id [simp]: "int64 x \<Longrightarrow> wrap64 x = x"
  by (simp add: int64_def wrap64_eq)

lemma go_div_pos: "0 \<le> a \<Longrightarrow> 0 < b \<Longrightarrow> go_div a b = a div b"
  by (cases "a = 0") (simp_all add: go_div_def)

lemma go_div_neg: "a < 0 \<Longrightarrow> 0 < b \<Longrightarrow> go_div a b \<le> 0"
  by (simp add: go_div_def pos_imp_zdiv_nonneg_iff)

section \<open>First matches\<close>

lemma find_Some_split:
  "List.find P xs = Some x \<Longrightarrow> \<exists>ys zs. xs = ys @ x # zs \<and> P x \<and> (\<forall>y\<in>set ys. \<not> P y)"
proof (induction xs)
  case (Cons a xs)
  show ?case
  proof (cases "P a")
    case True
    with Cons.prems have "a # xs = [] @ x # xs \<and> P x" by simp
    then show ?thesis by fastforce
  next
    case False
    with Cons obtain ys zs where "xs = ys @ x # zs" "P x" "\<forall>y\<in>set ys. \<not> P y"
      by auto
    with False have "a # xs = (a # ys) @ x # zs \<and> P x \<and> (\<forall>y\<in>set (a # ys). \<not> P y)"
      by simp
    then show ?thesis by blast
  qed
qed simp

lemma find_Some_set: "List.find P xs = Some x \<Longrightarrow> x \<in> set xs \<and> P x"
  by (auto dest: find_Some_split)

lemma find_None_set: "List.find P xs = None \<longleftrightarrow> (\<forall>x\<in>set xs. \<not> P x)"
  by (auto simp: find_None_iff)

lemma distinct_key: "distinct (map f xs) \<Longrightarrow> x \<in> set xs \<Longrightarrow> y \<in> set xs \<Longrightarrow> f x = f y \<Longrightarrow> x = y"
  by (simp add: distinct_map inj_on_def)

lemma sum_list_map_less:
  fixes g :: "'a \<Rightarrow> nat"
  assumes "\<And>x. x \<in> set xs \<Longrightarrow> g (f x) \<le> g x" "y \<in> set xs" "g (f y) < g y"
  shows "sum_list (map g (map f xs)) < sum_list (map g xs)"
  using assms
proof (induction xs)
  case (Cons a xs)
  have le: "sum_list (map g (map f xs)) \<le> sum_list (map g xs)"
    using Cons.prems(1) by (simp add: sum_list_mono)
  show ?case
  proof (cases "y = a")
    case True
    then show ?thesis using Cons.prems(3) le by simp
  next
    case False
    then have "sum_list (map g (map f xs)) < sum_list (map g xs)" using Cons by simp
    moreover have "g (f a) \<le> g a" using Cons.prems(1) by simp
    ultimately show ?thesis by simp
  qed
qed simp

lemma sum_list_filter_less:
  fixes g :: "'a \<Rightarrow> nat"
  assumes "y \<in> set xs" "\<not> P y" "0 < g y"
  shows "sum_list (map g (filter P xs)) < sum_list (map g xs)"
  using assms
proof (induction xs)
  case (Cons a xs)
  have le: "sum_list (map g (filter P ys)) \<le> sum_list (map g ys)" for ys
    by (induction ys) auto
  show ?case
  proof (cases "y = a")
    case True
    then show ?thesis using Cons.prems(2,3) le [of xs] by simp
  next
    case False
    then have "sum_list (map g (filter P xs)) < sum_list (map g xs)" using Cons by simp
    then show ?thesis by simp
  qed
qed simp

lemma length_filter_mono: "(\<And>x. Q x \<Longrightarrow> P x) \<Longrightarrow> length (filter Q xs) \<le> length (filter P xs)"
  by (induction xs) auto

text \<open>In a sorted list the first match is minimal among all matches.\<close>

lemma find_sorted_wrt_least:
  assumes "sorted_wrt R xs" "List.find P xs = Some x" "y \<in> set xs" "P y"
  shows "y = x \<or> R x y"
proof -
  from find_Some_split [OF assms(2)] obtain ys zs
    where xs: "xs = ys @ x # zs" and no: "\<forall>y\<in>set ys. \<not> P y" by blast
  with assms(3,4) have "y = x \<or> y \<in> set zs" by auto
  with assms(1) xs show ?thesis by (auto simp: sorted_wrt_append)
qed

section \<open>Splitting at separators\<close>

lemma append_sep_inject:
  assumes "x \<notin> set a" "x \<notin> set b" "a @ x # as = b @ x # bs"
  shows "a = b \<and> as = bs"
  using assms
proof (induction a arbitrary: b)
  case Nil
  then show ?case by (cases b) auto
next
  case (Cons y a)
  then show ?case by (cases b) auto
qed

lemma append_sep_inject_last:
  assumes "x \<notin> set as" "x \<notin> set bs" "a @ x # as = b @ x # bs"
  shows "a = b \<and> as = bs"
proof -
  have "rev as @ x # rev a = rev bs @ x # rev b"
    using arg_cong [OF assms(3), of rev] by simp
  with append_sep_inject [of x "rev as" "rev bs" "rev a" "rev b"] assms(1,2)
  show ?thesis by simp
qed

lemma append_eq_same_length:
  "length a = length b \<Longrightarrow> a @ x = b @ y \<longleftrightarrow> a = b \<and> x = y"
  by simp

end
