(* ===== verification/Path_Match.thy ===== *)
theory Path_Match
  imports Gateway_Prelude
begin

text \<open>
  \<^verbatim>\<open>path.Match\<close> of the Go standard library, which the policy engine calls on a rule's
  AgentNamePattern: the chunk scanner, character classes, escapes and the search over
  the positions a star can skip to, with the syntax check of the remaining pattern
  that runs before a plain mismatch is reported.
\<close>

section \<open>Glob matching (package path, used for AgentNamePattern)\<close>

text \<open>\<^verbatim>\<open>path.Match\<close> with its helpers \<^verbatim>\<open>scanChunk\<close>, \<^verbatim>\<open>getEsc\<close> and \<^verbatim>\<open>matchChunk\<close>, on
  one-byte characters; None is \<^verbatim>\<open>ErrBadPattern\<close>.\<close>

abbreviation (input) backslash :: char where "backslash \<equiv> CHR 0x5C"

fun scan_rest :: "bool \<Rightarrow> string \<Rightarrow> string \<times> string" where
  "scan_rest inr [] = ([], [])"
| "scan_rest inr (c # cs) =
     (if c = backslash then
        (case cs of [] \<Rightarrow> ([c], [])
         | d # ds \<Rightarrow> (let r = scan_rest inr ds in (c # d # fst r, snd r)))
      else if c = CHR ''*'' \<and> \<not> inr then ([], c # cs)
      else (let inr' = (if c = CHR ''['' then True else if c = CHR '']'' then False else inr);
                r = scan_rest inr' cs in (c # fst r, snd r)))"

definition scan_chunk :: "string \<Rightarrow> bool \<times> string \<times> string" where
  "scan_chunk pat =
     (let p = dropWhile (\<lambda>c. c = CHR ''*'') pat in
      (length p < length pat, scan_rest False p))"

fun get_esc :: "string \<Rightarrow> (char \<times> string) option" where
  "get_esc [] = None"
| "get_esc (c # cs) =
     (if c = CHR ''-'' \<or> c = CHR '']'' then None
      else if c = backslash then
        (case cs of [] \<Rightarrow> None | d # ds \<Rightarrow> if ds = [] then None else Some (d, ds))
      else if cs = [] then None else Some (c, cs))"

lemma get_esc_length: "get_esc s = Some (c, t) \<Longrightarrow> length t < length s"
  by (cases s) (auto split: if_splits list.splits)

declare get_esc.simps [simp del]

text \<open>The ranges of a character class, up to its closing bracket: whether the
  character is in one of them, and the chunk behind the class.\<close>

function class_ranges :: "char \<Rightarrow> bool \<Rightarrow> bool \<Rightarrow> string \<Rightarrow> (bool \<times> string) option" where
  "class_ranges r m some chunk =
     (case chunk of
        [] \<Rightarrow> None
      | c # cs \<Rightarrow>
        if c = CHR '']'' \<and> some then Some (m, cs)
        else (case get_esc chunk of
           None \<Rightarrow> None
         | Some (lo, ch1) \<Rightarrow>
             (case ch1 of
                [] \<Rightarrow> None
              | d # ds \<Rightarrow>
                if d = CHR ''-'' then
                  (case get_esc ds of
                     None \<Rightarrow> None
                   | Some (hi, ch2) \<Rightarrow>
                       class_ranges r (m \<or> ((of_char lo :: nat) \<le> of_char r \<and> (of_char r :: nat) \<le> of_char hi)) True ch2)
                else class_ranges r (m \<or> lo = r) True ch1)))"
  by pat_completeness auto
termination
  by (relation "measure (\<lambda>(r, m, some, chunk). length chunk)")
    (auto dest!: get_esc_length)

declare class_ranges.simps [simp del]

lemma class_ranges_length: "class_ranges r m some chunk = Some (b, t) \<Longrightarrow> length t < length chunk"
proof (induction r m some chunk rule: class_ranges.induct)
  case (1 r m some chunk)
  show ?case
    using "1.prems" "1.IH"
    by (subst (asm) class_ranges.simps)
      (fastforce split: list.splits if_splits option.splits prod.splits dest: get_esc_length)
qed

text \<open>\<^verbatim>\<open>matchChunk\<close>: None for a bad pattern, otherwise the rest of the name, or None
  inside when the chunk does not match; \<open>failed\<close> keeps the syntax check going.\<close>

function match_chunk :: "bool \<Rightarrow> string \<Rightarrow> string \<Rightarrow> string option option" where
  "match_chunk failed chunk s =
     (case chunk of
        [] \<Rightarrow> Some (if failed then None else Some s)
      | c # cs \<Rightarrow>
        let failed0 = (failed \<or> s = []) in
        if c = CHR ''['' then
          (let r = (if failed0 then CHR 0x00 else hd s);
               s' = (if failed0 then s else tl s);
               neg = (cs \<noteq> [] \<and> hd cs = CHR ''^'');
               body = (if neg then tl cs else cs)
           in case class_ranges r False False body of
                None \<Rightarrow> None
              | Some (m, rest) \<Rightarrow> match_chunk (failed0 \<or> m = neg) rest s')
        else if c = CHR ''?'' then
          match_chunk (failed0 \<or> hd s = CHR ''/'') cs (if failed0 then s else tl s)
        else if c = backslash then
          (case cs of
             [] \<Rightarrow> None
           | d # ds \<Rightarrow> match_chunk (failed0 \<or> d \<noteq> hd s) ds (if failed0 then s else tl s))
        else match_chunk (failed0 \<or> c \<noteq> hd s) cs (if failed0 then s else tl s))"
  by pat_completeness auto
termination
proof (relation "measure (\<lambda>(f, chunk, s). length chunk)", goal_cases)
  case (2 failed chunk s c cs failed0 r s' neg body p m rest)
  then have "length rest < length body" by (auto dest!: class_ranges_length)
  also have "length body \<le> length cs" using 2 by (auto split: if_splits)
  finally show ?case using 2 by simp
qed auto

declare match_chunk.simps [simp del]

lemma scan_rest_length: "length (fst (scan_rest inr p)) + length (snd (scan_rest inr p)) = length p"
  by (induction inr p rule: scan_rest.induct) (auto simp: Let_def split: list.split)

lemma scan_rest_progress: "c \<noteq> CHR ''*'' \<Longrightarrow> fst (scan_rest False (c # cs)) \<noteq> []"
  by (cases cs) (simp_all add: Let_def)

lemma dropWhile_shorter: "xs \<noteq> [] \<Longrightarrow> P (hd xs) \<Longrightarrow> length (dropWhile P xs) < length xs"
  by (cases xs) (auto simp: less_Suc_eq_le length_dropWhile_le)

lemma scan_chunk_length: "pat \<noteq> [] \<Longrightarrow> length (snd (snd (scan_chunk pat))) < length pat"
proof (cases pat)
  case (Cons c cs)
  show ?thesis
  proof (cases "c = CHR ''*''")
    case True
    let ?p = "dropWhile (\<lambda>c. c = CHR ''*'') pat"
    have "length ?p < length pat"
      using Cons True by (intro dropWhile_shorter) auto
    with scan_rest_length [of False ?p] show ?thesis
      by (simp add: scan_chunk_def Let_def)
  next
    case False
    then have dw: "dropWhile (\<lambda>c. c = CHR ''*'') pat = pat" using Cons by simp
    have "0 < length (fst (scan_rest False pat))"
      using scan_rest_progress [OF False, of cs] Cons by simp
    with scan_rest_length [of False pat] have "length (snd (scan_rest False pat)) < length pat"
      by linarith
    then show ?thesis unfolding scan_chunk_def Let_def dw by simp
  qed
qed simp

text \<open>Trying a chunk behind each byte the star may skip: the outcome of the first
  successful try, None for a bad pattern.\<close>

fun star_search :: "string \<Rightarrow> bool \<Rightarrow> string \<Rightarrow> string option option" where
  "star_search chunk fin [] = Some None"
| "star_search chunk fin (c # cs) =
     (if c = CHR ''/'' then Some None
      else (case match_chunk False chunk cs of
              None \<Rightarrow> None
            | Some (Some t) \<Rightarrow> if fin \<and> t \<noteq> [] then star_search chunk fin cs else Some (Some t)
            | Some None \<Rightarrow> star_search chunk fin cs))"

function syntax_ok :: "string \<Rightarrow> bool" where
  "syntax_ok pat =
     (if pat = [] then True
      else (case scan_chunk pat of (_, chunk, rest) \<Rightarrow>
              match_chunk False chunk [] \<noteq> None \<and> syntax_ok rest))"
  by pat_completeness auto
termination
  by (relation "measure length") (auto dest!: scan_chunk_length [simplified] simp: prod_eq_iff)

declare syntax_ok.simps [simp del]

text \<open>None is an error; \<open>Some b\<close> says whether the whole name matches.\<close>

function path_match :: "string \<Rightarrow> string \<Rightarrow> bool option" where
  "path_match pat name =
     (if pat = [] then Some (name = [])
      else (case scan_chunk pat of (star, chunk, rest) \<Rightarrow>
        if star \<and> chunk = [] then Some (CHR ''/'' \<notin> set name)
        else (case match_chunk False chunk name of
           None \<Rightarrow> None
         | Some r \<Rightarrow>
           (case (case r of Some t \<Rightarrow> if t = [] \<or> rest \<noteq> [] then Some t else None | None \<Rightarrow> None) of
              Some t \<Rightarrow> path_match rest t
            | None \<Rightarrow>
              (case (if star then star_search chunk (rest = []) name else Some None) of
                 None \<Rightarrow> None
               | Some (Some t) \<Rightarrow> path_match rest t
               | Some None \<Rightarrow> if syntax_ok rest then Some False else None)))))"
  by pat_completeness auto
termination
  by (relation "measure (\<lambda>(pat, name). length pat)")
    (auto dest!: scan_chunk_length [simplified] simp: prod_eq_iff)

declare path_match.simps [simp del]

text \<open>A pattern without metacharacters matches exactly itself.\<close>

definition literal :: "string \<Rightarrow> bool" where
  "literal p = (set p \<inter> {CHR ''*'', CHR ''?'', CHR ''['', backslash} = {})"

lemma scan_rest_literal: "literal p \<Longrightarrow> scan_rest inr p = (p, [])"
  by (induction inr p rule: scan_rest.induct) (auto simp: literal_def Let_def)

lemma match_chunk_literal:
  "literal p \<Longrightarrow> match_chunk failed p s =
     Some (if failed \<or> \<not> prefix p s then None else Some (drop (length p) s))"
proof (induction p arbitrary: failed s)
  case Nil
  show ?case by (subst match_chunk.simps) simp
next
  case (Cons c p)
  then have "literal p" and c: "c \<noteq> CHR ''?''" "c \<noteq> CHR ''[''" "c \<noteq> backslash"
    by (auto simp: literal_def)
  with Cons.IH show ?case
    by (cases s) (auto simp: match_chunk.simps [of _ "c # p"] Let_def)
qed

lemma path_match_literal: "literal p \<Longrightarrow> path_match p name = Some (name = p)"
proof (cases "p = []")
  case False
  assume lit: "literal p"
  then have "dropWhile (\<lambda>c. c = CHR ''*'') p = p"
    by (cases p) (auto simp: literal_def)
  then have sc: "scan_chunk p = (False, p, [])"
    using scan_rest_literal [OF lit] by (simp add: scan_chunk_def Let_def)
  show ?thesis
    using False sc match_chunk_literal [OF lit, of False name]
    by (subst path_match.simps)
      (auto simp: path_match.simps [of "[]"] syntax_ok.simps [of "[]"] prefix_def)
qed (simp add: path_match.simps)

lemma path_match_star: "path_match ''*'' name = Some (CHR ''/'' \<notin> set name)"
  by (subst path_match.simps) (simp add: scan_chunk_def)

end
