(* ===== verification/Policy_Engine.thy ===== *)
theory Policy_Engine
  imports Path_Match
begin

text \<open>
  The policy library (\<^verbatim>\<open>eami-policy\<close>): rules, their structural conditions, the
  scope-drift heuristic and the first-match evaluator. Two sources of
  nondeterminism of the Go code are explicit parameters: the iteration order of the
  map \<^verbatim>\<open>toolCategories\<close> (a pair of lists, one for each of the two loops of
  \<^verbatim>\<open>toolCategory\<close>), and \<^verbatim>\<open>sort.Slice\<close>, which is not stable and is therefore any
  function that meets the contract \<open>sort_slice\<close>.
\<close>

section \<open>Types (types.go)\<close>

definition ActionAllow :: string where "ActionAllow = ''allow''"
definition ActionDeny :: string where "ActionDeny = ''deny''"
definition ActionEscalate :: string where "ActionEscalate = ''escalate''"

lemmas action_defs = ActionAllow_def ActionDeny_def ActionEscalate_def

record policy_context =
  pcOrgID :: string
  pcWorkspaceID :: string
  pcAgentID :: string
  pcAgentName :: string
  pcScope :: string
  pcAgentScope :: string
  pcModel :: string
  pcOwner :: string
  pcRiskTier :: string
  pcToolName :: string
  pcActionType :: string
  pcActionVerb :: string
  pcToolServerID :: string
  pcParameters :: params
  pcEnvironment :: string
  pcEstimatedRecordCount :: int
  pcSessionActions :: "string list"
  pcTimestamp :: time

record Decision =
  dAction :: string
  dPolicyID :: "string option"
  dPolicyName :: "string option"
  dReason :: string
  dEvalTimeMS :: int

record Conditions =
  AgentNamePattern :: string
  ToolNames :: "string list"
  ToolServerIDs :: "string list"
  ActionTypes :: "string list"
  Environments :: "string list"
  RecordCountGT :: "int option"
  SemanticRule :: string
  ScopeDrift :: bool

record Rule =
  rID :: string
  rOrgID :: string
  rWorkspaceID :: string
  rName :: string
  rPriority :: int
  rConditions :: Conditions
  rAction :: string
  rAlert :: bool

section \<open>Structural conditions (structural.go)\<close>

text \<open>The map \<^verbatim>\<open>toolCategories\<close>; a map iteration visits its entries in any order.\<close>

definition toolCategories :: "(string \<times> string list) list" where
  "toolCategories =
    [(''file'', [''read_file'', ''write_file'', ''delete_file'', ''list_files'', ''create_file'']),
     (''code'', [''run_code'', ''execute_code'', ''bash'', ''shell'', ''python'', ''javascript'']),
     (''web'', [''fetch_url'', ''browse'', ''search_web'', ''http_get'', ''http_post'']),
     (''email'', [''send_email'', ''read_email'', ''draft_email'', ''reply_email'']),
     (''calendar'', [''create_event'', ''delete_event'', ''list_events'', ''update_event'']),
     (''database'', [''query_db'', ''insert_db'', ''delete_records'', ''update_records'', ''sql'']),
     (''slack'', [''send_message'', ''read_channel'', ''create_channel'']),
     (''github'', [''create_pr'', ''merge_pr'', ''push_commit'', ''create_issue''])]"

type_synonym map_order = "(string \<times> string list) list \<times> (string \<times> string list) list"

definition valid_order :: "map_order \<Rightarrow> bool" where
  "valid_order io = (mset (fst io) = mset toolCategories \<and> mset (snd io) = mset toolCategories)"

text \<open>The set of implied categories, as the list of its members.\<close>

definition scopeImpliesCategories :: "string \<Rightarrow> string list" where
  "scopeImpliesCategories scope =
     (let scopeLower = to_lower scope in
      filter (contains_str scopeLower) (map fst toolCategories)
      @ (if contains_str scopeLower ''coding'' \<or> contains_str scopeLower ''developer''
         then [''code'', ''github''] else [])
      @ (if contains_str scopeLower ''communication'' \<or> contains_str scopeLower ''messaging''
         then [''email'', ''slack''] else [])
      @ (if contains_str scopeLower ''data'' \<or> contains_str scopeLower ''analyst''
         then [''database''] else []))"

definition toolCategory :: "map_order \<Rightarrow> string \<Rightarrow> string" where
  "toolCategory io toolName =
     (let toolLower = to_lower toolName in
      case List.find (\<lambda>(cat, tools). \<exists>t\<in>set tools. toolLower = t \<or> contains_str toolLower t) (fst io) of
        Some (cat, _) \<Rightarrow> cat
      | None \<Rightarrow>
        (case List.find (\<lambda>(cat, tools). has_prefix toolLower cat) (snd io) of
           Some (cat, _) \<Rightarrow> cat
         | None \<Rightarrow> []))"

definition verbScopeDrift :: "string \<Rightarrow> string \<Rightarrow> bool" where
  "verbScopeDrift scopeVerb actionType =
     (let action = to_lower actionType in
      if scopeVerb = ''read'' then action \<noteq> ''read''
      else if scopeVerb = ''write'' then action \<noteq> ''read'' \<and> action \<noteq> ''write'' \<and> action \<noteq> ''create''
      else False)"

definition detectScopeDrift :: "map_order \<Rightarrow> policy_context \<Rightarrow> bool" where
  "detectScopeDrift io ac =
     (let scope = (if pcScope ac = [] then pcAgentScope ac else pcScope ac) in
      if scope = [] then False
      else case index_byte scope (CHR '':'') of
        Some (Suc k) \<Rightarrow> verbScopeDrift (to_lower (take (Suc k) scope)) (pcActionType ac)
      | _ \<Rightarrow>
        (let cat = toolCategory io (pcToolName ac); implied = scopeImpliesCategories scope in
         if cat = [] then False
         else if implied = [] then False
         else cat \<notin> set implied))"

definition stringInSlice :: "string \<Rightarrow> string list \<Rightarrow> bool" where
  "stringInSlice s items = (\<exists>item\<in>set items. to_lower item = to_lower s)"

definition matchesRule :: "map_order \<Rightarrow> policy_context \<Rightarrow> Rule \<Rightarrow> bool" where
  "matchesRule io ac r =
     (if rOrgID r \<noteq> [] \<and> rOrgID r \<noteq> pcOrgID ac then False
      else if rWorkspaceID r \<noteq> [] \<and> rWorkspaceID r \<noteq> pcWorkspaceID ac then False
      else let c = rConditions r in
      if AgentNamePattern c \<noteq> [] \<and> path_match (AgentNamePattern c) (pcAgentName ac) \<noteq> Some True then False
      else if ToolNames c \<noteq> [] \<and> \<not> stringInSlice (pcToolName ac) (ToolNames c) then False
      else if ToolServerIDs c \<noteq> [] \<and> \<not> stringInSlice (pcToolServerID ac) (ToolServerIDs c) then False
      else if ActionTypes c \<noteq> [] \<and> \<not> stringInSlice (pcActionType ac) (ActionTypes c) then False
      else if Environments c \<noteq> [] \<and> \<not> stringInSlice (pcEnvironment ac) (Environments c) then False
      else if (case RecordCountGT c of Some n \<Rightarrow> pcEstimatedRecordCount ac \<le> n | None \<Rightarrow> False) then False
      else if ScopeDrift c \<and> \<not> detectScopeDrift io ac then False
      else True)"

section \<open>Evaluation (semantic.go, evaluator.go)\<close>

record evaluatorConfig =
  defaultAction :: string
  semanticEndpoint :: string
  semanticAPIKey :: string
  semanticTimeout :: duration

text \<open>The stub: the language-model call is not implemented in this release.\<close>

definition evaluateSemantic :: "policy_context \<Rightarrow> string \<Rightarrow> evaluatorConfig \<Rightarrow> bool \<times> go_error option" where
  "evaluateSemantic ac rule cfg = (False, None)"

type_synonym evaluator_option = "evaluatorConfig \<Rightarrow> evaluatorConfig"

definition WithDefaultDecision :: "string \<Rightarrow> evaluator_option" where
  "WithDefaultDecision action cfg = cfg\<lparr>defaultAction := action\<rparr>"

definition WithSemanticLLM :: "string \<Rightarrow> string \<Rightarrow> duration \<Rightarrow> evaluator_option" where
  "WithSemanticLLM endpoint apiKey timeout cfg =
     cfg\<lparr>semanticEndpoint := endpoint, semanticAPIKey := apiKey, semanticTimeout := timeout\<rparr>"

record evaluator =
  ev_rules :: "Rule list"
  ev_cfg :: evaluatorConfig

definition global_rule :: "Rule \<Rightarrow> bool" where
  "global_rule r = (rWorkspaceID r = [])"

definition rule_less :: "Rule \<Rightarrow> Rule \<Rightarrow> bool" where
  "rule_less a b = (if global_rule a \<noteq> global_rule b then global_rule a else rPriority a < rPriority b)"

text \<open>\<open>srt\<close> is \<^verbatim>\<open>sort.Slice\<close> with the comparator \<open>rule_less\<close>.\<close>

definition NewEvaluator :: "(Rule list \<Rightarrow> Rule list) \<Rightarrow> Rule list \<Rightarrow> evaluator_option list \<Rightarrow> evaluator" where
  "NewEvaluator srt rules opts =
     \<lparr>ev_rules = srt rules,
      ev_cfg = fold (\<lambda>o' cfg. o' cfg) opts
        \<lparr>defaultAction = ActionAllow, semanticEndpoint = [], semanticAPIKey = [], semanticTimeout = 2 * second\<rparr>\<rparr>"

definition matched_decision :: "Rule \<Rightarrow> int \<Rightarrow> Decision" where
  "matched_decision r elapsed =
     \<lparr>dAction = rAction r, dPolicyID = Some (rID r), dPolicyName = Some (rName r),
      dReason = ''matched rule '' @ go_quote (rName r) @ '' (priority '' @ show_int (rPriority r) @ '')'',
      dEvalTimeMS = elapsed\<rparr>"

definition default_decision :: "evaluatorConfig \<Rightarrow> int \<Rightarrow> Decision" where
  "default_decision cfg elapsed =
     \<lparr>dAction = defaultAction cfg, dPolicyID = None, dPolicyName = None,
      dReason = ''no matching rule; default action applied'', dEvalTimeMS = elapsed\<rparr>"

fun evaluate_rules :: "map_order \<Rightarrow> policy_context \<Rightarrow> evaluatorConfig \<Rightarrow> int \<Rightarrow> Rule list \<Rightarrow> Decision" where
  "evaluate_rules io ac cfg elapsed [] = default_decision cfg elapsed"
| "evaluate_rules io ac cfg elapsed (rule # rules) =
     (if \<not> matchesRule io ac rule then evaluate_rules io ac cfg elapsed rules
      else if SemanticRule (rConditions rule) \<noteq> [] then
        (case evaluateSemantic ac (SemanticRule (rConditions rule)) cfg of
           (matched, err) \<Rightarrow>
             if err \<noteq> None \<or> \<not> matched then evaluate_rules io ac cfg elapsed rules
             else matched_decision rule elapsed)
      else matched_decision rule elapsed)"

text \<open>\<open>elapsed\<close> is the measured time in milliseconds.\<close>

definition Evaluate :: "map_order \<Rightarrow> int \<Rightarrow> evaluator \<Rightarrow> policy_context \<Rightarrow> Decision \<times> go_error option" where
  "Evaluate io elapsed e ac = (evaluate_rules io ac (ev_cfg e) elapsed (ev_rules e), None)"

section \<open>The sorting contract\<close>

text \<open>What \<^verbatim>\<open>sort.Slice\<close> promises for a comparator: a permutation in which no element
  is strictly less than one before it; elements that compare equal may come in any
  order.\<close>

locale sort_slice =
  fixes srt :: "'a list \<Rightarrow> 'a list" and less :: "'a \<Rightarrow> 'a \<Rightarrow> bool"
  assumes srt_mset: "mset (srt xs) = mset xs"
    and srt_sorted: "sorted_wrt (\<lambda>a b. \<not> less b a) (srt xs)"
begin

lemma set_srt [simp]: "set (srt xs) = set xs"
  by (metis srt_mset set_mset_mset)

lemma first_match_minimal:
  assumes "List.find P (srt xs) = Some x" "y \<in> set xs" "P y"
  shows "y = x \<or> \<not> less y x"
  using find_sorted_wrt_least [OF srt_sorted assms(1)] assms(2,3) by auto

lemma find_srt_None: "List.find P (srt xs) = None \<longleftrightarrow> (\<forall>x\<in>set xs. \<not> P x)"
  by (simp add: find_None_set)

lemma find_srt_exists:
  assumes "y \<in> set xs" "P y"
  obtains x where "List.find P (srt xs) = Some x" "x \<in> set xs" "P x"
  using assms find_srt_None [of P xs] find_Some_set [of P "srt xs"]
  by (metis not_None_eq set_srt)

end

text \<open>The insertion sort that the library's algorithm runs on short slices.\<close>

fun insert_rule :: "Rule \<Rightarrow> Rule list \<Rightarrow> Rule list" where
  "insert_rule x [] = [x]"
| "insert_rule x (y # ys) = (if rule_less x y then x # y # ys else y # insert_rule x ys)"

definition sort_rules :: "Rule list \<Rightarrow> Rule list" where
  "sort_rules xs = fold insert_rule xs []"

lemma not_rule_less_trans: "\<not> rule_less b a \<Longrightarrow> \<not> rule_less c b \<Longrightarrow> \<not> rule_less c a"
  by (auto simp: rule_less_def split: if_splits)

lemma rule_less_asym: "rule_less a b \<Longrightarrow> \<not> rule_less b a"
  by (auto simp: rule_less_def split: if_splits)

lemma mset_insert_rule [simp]: "mset (insert_rule x ys) = add_mset x (mset ys)"
  by (induction ys) auto

lemma set_insert_rule [simp]: "set (insert_rule x ys) = insert x (set ys)"
  by (induction ys) auto

lemma sorted_insert_rule:
  "sorted_wrt (\<lambda>a b. \<not> rule_less b a) ys \<Longrightarrow> sorted_wrt (\<lambda>a b. \<not> rule_less b a) (insert_rule x ys)"
  by (induction ys) (auto dest: rule_less_asym, metis not_rule_less_trans rule_less_asym)

lemma mset_fold_insert_rule: "mset (fold insert_rule xs acc) = mset xs + mset acc"
  by (induction xs arbitrary: acc) auto

lemma sorted_fold_insert_rule:
  "sorted_wrt (\<lambda>a b. \<not> rule_less b a) acc \<Longrightarrow> sorted_wrt (\<lambda>a b. \<not> rule_less b a) (fold insert_rule xs acc)"
  by (induction xs arbitrary: acc) (auto simp: sorted_insert_rule)

interpretation rules: sort_slice sort_rules rule_less
  by unfold_locales (simp_all add: sort_rules_def mset_fold_insert_rule sorted_fold_insert_rule)

section \<open>First-match evaluation\<close>

definition applies :: "map_order \<Rightarrow> policy_context \<Rightarrow> Rule \<Rightarrow> bool" where
  "applies io ac r = (matchesRule io ac r \<and> SemanticRule (rConditions r) = [])"

lemma evaluate_rules_find:
  "evaluate_rules io ac cfg elapsed rules =
     (case List.find (applies io ac) rules of
        Some r \<Rightarrow> matched_decision r elapsed
      | None \<Rightarrow> default_decision cfg elapsed)"
  by (induction rules) (auto simp: applies_def evaluateSemantic_def)

lemma Evaluate_find:
  "fst (Evaluate io elapsed e ac) =
     (case List.find (applies io ac) (ev_rules e) of
        Some r \<Rightarrow> matched_decision r elapsed
      | None \<Rightarrow> default_decision (ev_cfg e) elapsed)"
  by (simp add: Evaluate_def evaluate_rules_find)

lemma matched_decision_sel [simp]:
  "dAction (matched_decision r t) = rAction r"
  "dPolicyID (matched_decision r t) = Some (rID r)"
  by (simp_all add: matched_decision_def)

lemma default_decision_sel [simp]:
  "dAction (default_decision cfg t) = defaultAction cfg"
  "dPolicyID (default_decision cfg t) = None"
  by (simp_all add: default_decision_def)

lemma NewEvaluator_sel [simp]:
  "ev_rules (NewEvaluator srt rules opts) = srt rules"
  "ev_cfg (NewEvaluator srt rules []) =
     \<lparr>defaultAction = ActionAllow, semanticEndpoint = [], semanticAPIKey = [], semanticTimeout = 2 * second\<rparr>"
  by (simp_all add: NewEvaluator_def)

lemma global_not_less: "global_rule g \<Longrightarrow> \<not> rule_less g r \<Longrightarrow> global_rule r \<and> rPriority r \<le> rPriority g"
  by (auto simp: rule_less_def split: if_splits)

definition rule_in_scope :: "policy_context \<Rightarrow> Rule \<Rightarrow> bool" where
  "rule_in_scope ac r =
     ((rOrgID r = [] \<or> rOrgID r = pcOrgID ac) \<and> (rWorkspaceID r = [] \<or> rWorkspaceID r = pcWorkspaceID ac))"

lemma matchesRule_in_scope: "matchesRule io ac r \<Longrightarrow> rule_in_scope ac r"
  by (auto simp: matchesRule_def rule_in_scope_def split: if_splits)

lemma find_filter_implied: "(\<And>x. P x \<Longrightarrow> Q x) \<Longrightarrow> List.find P (filter Q xs) = List.find P xs"
  by (induction xs) auto

text \<open>How strict an action is, the way the dispatch switch reads it: anything but deny
  and escalate is an allow.\<close>

definition strictness :: "string \<Rightarrow> nat" where
  "strictness a = (if a = ActionDeny then 2 else if a = ActionEscalate then 1 else 0)"

lemma global_match_decides:
  assumes "sort_slice srt rule_less" "g \<in> set rules" "global_rule g" "applies io ac g"
  obtains r where "List.find (applies io ac) (srt rules) = Some r" "r \<in> set rules" "global_rule r"
    "applies io ac r" "\<And>h. h \<in> set rules \<Longrightarrow> global_rule h \<Longrightarrow> applies io ac h \<Longrightarrow> rPriority r \<le> rPriority h"
proof -
  from sort_slice.find_srt_exists [OF assms(1,2), of "applies io ac"] assms(4) obtain r
    where r: "List.find (applies io ac) (srt rules) = Some r" "r \<in> set rules" "applies io ac r" by blast
  have "h = r \<or> \<not> rule_less h r" if "h \<in> set rules" "applies io ac h" for h
    using sort_slice.first_match_minimal [OF assms(1) r(1) that] .
  then have "h = r \<or> global_rule r \<and> rPriority r \<le> rPriority h"
    if "h \<in> set rules" "applies io ac h" "global_rule h" for h
    using that global_not_less by blast
  with assms(2-4) r that show thesis by (metis order_refl)
qed

text \<open>C2: the organisation floor decides. Whatever rules the workspaces add and however
  ties are sorted, when some global rule applies to a call, the decision is that of an
  applying global rule with the smallest priority number among the applying global
  rules.\<close>

theorem org_floor_decides:
  assumes "sort_slice srt rule_less" "g \<in> set rules" "global_rule g" "applies io ac g"
  shows "\<exists>r\<in>set rules. global_rule r \<and> applies io ac r
     \<and> (\<forall>h\<in>set rules. global_rule h \<and> applies io ac h \<longrightarrow> rPriority r \<le> rPriority h)
     \<and> fst (Evaluate io elapsed (NewEvaluator srt rules opts) ac) = matched_decision r elapsed"
proof -
  obtain r where "List.find (applies io ac) (srt rules) = Some r" "r \<in> set rules" "global_rule r"
    "applies io ac r" "\<And>h. h \<in> set rules \<Longrightarrow> global_rule h \<Longrightarrow> applies io ac h \<Longrightarrow> rPriority r \<le> rPriority h"
    by (rule global_match_decides [OF assms]) blast
  then show ?thesis by (intro bexI [of _ r]) (auto simp: Evaluate_find)
qed

text \<open>A workspace can only add restrictions. Provided applying global rules of equal
  priority agree on their action, the decision over all rules is at least as strict as
  the decision over the global rules alone, whatever the two sorts do with ties (the
  default action is allow, as for every evaluator the loader builds).\<close>

lemma workspace_cannot_loosen:
  assumes "sort_slice srt rule_less" "sort_slice srt' rule_less"
    and ties: "\<forall>g\<in>set rules. \<forall>h\<in>set rules. global_rule g \<and> global_rule h \<and> applies io ac g
       \<and> applies io ac h \<and> rPriority g = rPriority h \<longrightarrow> rAction g = rAction h"
  shows "strictness (dAction (fst (Evaluate io t' (NewEvaluator srt' (filter global_rule rules) []) ac)))
     \<le> strictness (dAction (fst (Evaluate io t (NewEvaluator srt rules []) ac)))"
proof (cases "\<exists>g\<in>set rules. global_rule g \<and> applies io ac g")
  case True
  then obtain g where g: "g \<in> set rules" "global_rule g" "applies io ac g" by blast
  obtain r where r: "List.find (applies io ac) (srt rules) = Some r" "r \<in> set rules" "global_rule r"
    "applies io ac r" "\<And>h. h \<in> set rules \<Longrightarrow> global_rule h \<Longrightarrow> applies io ac h \<Longrightarrow> rPriority r \<le> rPriority h"
    by (rule global_match_decides [OF assms(1) g]) blast
  have g': "g \<in> set (filter global_rule rules)" using g by simp
  obtain r' where r': "List.find (applies io ac) (srt' (filter global_rule rules)) = Some r'"
    "r' \<in> set (filter global_rule rules)" "applies io ac r'"
    "\<And>h. h \<in> set (filter global_rule rules) \<Longrightarrow> global_rule h \<Longrightarrow> applies io ac h \<Longrightarrow> rPriority r' \<le> rPriority h"
    by (rule global_match_decides [OF assms(2) g' g(2,3)]) blast
  from r'(2) have m: "r' \<in> set rules" "global_rule r'" by simp_all
  have "rPriority r \<le> rPriority r'" by (rule r(5)) (use m r' in auto)
  moreover have "rPriority r' \<le> rPriority r" by (rule r'(4)) (use r in auto)
  ultimately have "rPriority r' = rPriority r" by simp
  then have "rAction r' = rAction r"
    using ties [THEN bspec, OF m(1), THEN bspec, OF r(2)] m(2) r(3,4) r'(3) by blast
  with r(1) r'(1) show ?thesis by (simp add: Evaluate_find)
next
  case False
  then have "List.find (applies io ac) (srt' (filter global_rule rules)) = None"
    using sort_slice.find_srt_None [OF assms(2)] by auto
  then show ?thesis
    by (simp add: Evaluate_find strictness_def action_defs)
qed

text \<open>tenant and workspace isolation. Evaluation gives the same decision when every
  rule of another organisation or of another workspace is removed from the rule set.\<close>

theorem evaluation_ignores_other_scopes:
  "Evaluate io t e ac = Evaluate io t (e\<lparr>ev_rules := filter (rule_in_scope ac) (ev_rules e)\<rparr>) ac"
proof -
  have "applies io ac r \<Longrightarrow> rule_in_scope ac r" for r
    by (auto simp: applies_def intro: matchesRule_in_scope)
  then show ?thesis
    by (simp add: Evaluate_def evaluate_rules_find find_filter_implied)
qed

section \<open>Scope drift and the order of map iteration\<close>

definition name_categories :: "string \<Rightarrow> string list" where
  "name_categories toolName =
     map fst (filter (\<lambda>(cat, tools). \<exists>t\<in>set tools. to_lower toolName = t \<or> contains_str (to_lower toolName) t)
       toolCategories)"

definition prefix_categories :: "string \<Rightarrow> string list" where
  "prefix_categories toolName = map fst (filter (\<lambda>(cat, tools). has_prefix (to_lower toolName) cat) toolCategories)"

text \<open>A tool name whose category does not depend on the iteration order: one category
  knows it, or none does and at most one category name is a prefix of it.\<close>

definition unambiguous_tool :: "string \<Rightarrow> bool" where
  "unambiguous_tool toolName =
     (length (name_categories toolName) = 1
      \<or> name_categories toolName = [] \<and> length (prefix_categories toolName) \<le> 1)"

lemma find_unique_perm:
  assumes "mset xs = mset ys" "length (filter P ys) \<le> 1"
  shows "List.find P xs = List.find P ys"
proof -
  have "mset (filter P xs) = mset (filter P ys)"
    using assms(1) by (metis mset_filter)
  moreover have "filter P ys = [] \<or> (\<exists>a. filter P ys = [a])"
    using assms(2) by (cases "filter P ys") auto
  ultimately have "filter P xs = filter P ys"
    by (metis mset.simps(1) mset_single_iff mset_zero_iff mset_single_iff_right)
  moreover have "List.find P zs = (case filter P zs of [] \<Rightarrow> None | z # _ \<Rightarrow> Some z)" for zs
    by (induction zs) auto
  ultimately show ?thesis by simp
qed

lemma toolCategory_order_independent:
  assumes "unambiguous_tool n" "valid_order io" "valid_order io'"
  shows "toolCategory io n = toolCategory io' n"
proof -
  let ?P = "\<lambda>(cat, tools). \<exists>t\<in>set tools. to_lower n = t \<or> contains_str (to_lower n) t"
  let ?Q = "\<lambda>(cat, tools :: string list). has_prefix (to_lower n) cat"
  have "List.find ?P (fst j) = List.find ?P toolCategories" if "valid_order j" for j
    using that assms(1)
    by (intro find_unique_perm) (auto simp: valid_order_def unambiguous_tool_def name_categories_def)
  moreover have "List.find ?Q (snd j) = List.find ?Q toolCategories"
    if "valid_order j" "List.find ?P toolCategories = None" for j
  proof (intro find_unique_perm)
    from that(2) have "name_categories n = []"
      by (auto simp: name_categories_def find_None_iff filter_empty_conv)
    then show "length (filter ?Q toolCategories) \<le> 1"
      using assms(1) by (auto simp: unambiguous_tool_def prefix_categories_def)
  qed (use that in \<open>simp add: valid_order_def\<close>)
  ultimately show ?thesis
    using assms(2,3) by (cases "List.find ?P toolCategories") (simp_all add: toolCategory_def Let_def)
qed

lemma matchesRule_cong: "detectScopeDrift io ac = detectScopeDrift io' ac \<Longrightarrow> matchesRule io ac = matchesRule io' ac"
  by (auto simp: fun_eq_iff matchesRule_def Let_def)

text \<open>Determinism for unambiguous tools. For a tool name that at most one category
  claims, the decision does not depend on the iteration order of the category map.\<close>

theorem evaluation_order_independent:
  assumes "unambiguous_tool (pcToolName ac)" "valid_order io" "valid_order io'"
  shows "Evaluate io t e ac = Evaluate io' t e ac"
proof -
  have "detectScopeDrift io ac = detectScopeDrift io' ac"
    unfolding detectScopeDrift_def toolCategory_order_independent [OF assms] ..
  then have "matchesRule io ac = matchesRule io' ac" by (rule matchesRule_cong)
  then have "applies io ac = applies io' ac"
    unfolding fun_eq_iff applies_def by simp
  then show ?thesis by (simp add: Evaluate_def evaluate_rules_find)
qed

definition no_conditions :: Conditions where
  "no_conditions = \<lparr>AgentNamePattern = [], ToolNames = [], ToolServerIDs = [], ActionTypes = [],
     Environments = [], RecordCountGT = None, SemanticRule = [], ScopeDrift = False\<rparr>"

definition sample_context :: "string \<Rightarrow> string \<Rightarrow> string \<Rightarrow> policy_context" where
  "sample_context org tool scope = \<lparr>pcOrgID = org, pcWorkspaceID = [], pcAgentID = [], pcAgentName = ''agent'',
     pcScope = scope, pcAgentScope = [], pcModel = [], pcOwner = [], pcRiskTier = [], pcToolName = tool,
     pcActionType = ''read'', pcActionVerb = [], pcToolServerID = [], pcParameters = None,
     pcEnvironment = ''unknown'', pcEstimatedRecordCount = 0, pcSessionActions = [], pcTimestamp = 0\<rparr>"

definition sample_rule :: "string \<Rightarrow> string \<Rightarrow> int \<Rightarrow> Conditions \<Rightarrow> string \<Rightarrow> Rule" where
  "sample_rule rid ws prio c act = \<lparr>rID = rid, rOrgID = ''o1'', rWorkspaceID = ws, rName = rid,
     rPriority = prio, rConditions = c, rAction = act, rAlert = False\<rparr>"

lemma sample_applies [simp]:
  "applies io (sample_context ''o1'' tool scope) (sample_rule rid [] prio no_conditions act)"
  by (simp add: applies_def matchesRule_def sample_context_def sample_rule_def no_conditions_def Let_def)

text \<open>the drift heuristic is not a function of the call. With one scope-drift deny
  rule loaded, the same call of the tool bash_sql_runner by an agent with a coding scope
  is allowed or denied depending on which category the map iteration visits first.\<close>

theorem scope_drift_order_dependent:
  "\<exists>io io' ac. valid_order io \<and> valid_order io'
     \<and> dAction (fst (Evaluate io 0 (NewEvaluator sort_rules
          [sample_rule ''p1'' [] 1 (no_conditions\<lparr>ScopeDrift := True\<rparr>) ActionDeny] []) ac)) = ActionDeny
     \<and> dAction (fst (Evaluate io' 0 (NewEvaluator sort_rules
          [sample_rule ''p1'' [] 1 (no_conditions\<lparr>ScopeDrift := True\<rparr>) ActionDeny] []) ac)) = ActionAllow"
proof -
  let ?ac = "sample_context ''o1'' ''bash_sql_runner'' ''coding''"
  let ?r = "sample_rule ''p1'' [] 1 (no_conditions\<lparr>ScopeDrift := True\<rparr>) ActionDeny"
  have imp: "scopeImpliesCategories ''coding'' = [''code'', ''github'']"
    by code_simp
  have drift: "detectScopeDrift io ?ac = (toolCategory io ''bash_sql_runner'' \<notin> {[], ''code'', ''github''})" for io
    by (auto simp: detectScopeDrift_def sample_context_def imp)
  have "toolCategory (rev toolCategories, toolCategories) ''bash_sql_runner'' = ''database''"
    by code_simp
  then have 1: "applies (rev toolCategories, toolCategories) ?ac ?r"
    by (simp add: applies_def matchesRule_def sample_rule_def no_conditions_def Let_def drift)
      (simp add: sample_context_def)
  have "toolCategory (toolCategories, toolCategories) ''bash_sql_runner'' = ''code''"
    by code_simp
  then have 2: "\<not> applies (toolCategories, toolCategories) ?ac ?r"
    by (simp add: applies_def matchesRule_def sample_rule_def no_conditions_def Let_def drift)
  have "sort_rules [?r] = [?r]" by (simp add: sort_rules_def)
  with 1 2 show ?thesis
    by (intro exI [of _ "(rev toolCategories, toolCategories)"] exI [of _ "(toolCategories, toolCategories)"]
        exI [of _ ?ac]) (simp add: Evaluate_find valid_order_def, simp add: sample_rule_def)
qed

text \<open>Witnesses.\<close>

theorem org_floor_decides_witness:
  "\<exists>r\<in>set [sample_rule ''w'' ''ws'' 1 no_conditions ActionAllow, sample_rule ''g'' [] 5 no_conditions ActionDeny].
     global_rule r \<and> fst (Evaluate (toolCategories, toolCategories) 0 (NewEvaluator sort_rules
       [sample_rule ''w'' ''ws'' 1 no_conditions ActionAllow, sample_rule ''g'' [] 5 no_conditions ActionDeny] [])
       (sample_context ''o1'' ''t'' [])) = matched_decision r 0"
proof -
  let ?rs = "[sample_rule ''w'' ''ws'' 1 no_conditions ActionAllow, sample_rule ''g'' [] 5 no_conditions ActionDeny]"
  have "global_rule (sample_rule ''g'' [] 5 no_conditions ActionDeny)"
    by (simp add: global_rule_def sample_rule_def)
  with org_floor_decides [OF rules.sort_slice_axioms, of "sample_rule ''g'' [] 5 no_conditions ActionDeny" ?rs
      "(toolCategories, toolCategories)" "sample_context ''o1'' ''t'' []" 0 "[]"]
  show ?thesis by auto
qed

theorem evaluation_order_independent_witness:
  "Evaluate (toolCategories, toolCategories) 0 (NewEvaluator sort_rules [] []) (sample_context ''o1'' ''read_file'' ''file assistant'')
   = Evaluate (rev toolCategories, rev toolCategories) 0 (NewEvaluator sort_rules [] []) (sample_context ''o1'' ''read_file'' ''file assistant'')"
proof (rule evaluation_order_independent)
  have "unambiguous_tool ''read_file''" by code_simp
  then show "unambiguous_tool (pcToolName (sample_context ''o1'' ''read_file'' ''file assistant''))"
    by (simp add: sample_context_def)
qed (simp_all add: valid_order_def)

end
