(* ===== verification/Audit_Chain.thy ===== *)
theory Audit_Chain
  imports Policy_Engine
begin

text \<open>
  The hash-chained audit log: the gateway's writer
  (\<^verbatim>\<open>eami-gateway/internal/audit/writer.go\<close>), its Postgres adapter, and the verifier of
  the API service (\<^verbatim>\<open>eami-api/internal/store/verify.go\<close>). The parameter \<open>H\<close> stands for
  the hexadecimal SHA-256 digest of a byte string; nothing is assumed of it except
  where a theorem says so. The step relation at the end interleaves any number of
  gateway processes that share one table, with failing queries and restarts.
\<close>

section \<open>The writer (writer.go)\<close>

record Entry =
  eID :: uuid
  eOrgID :: uuid
  eAgentID :: uuid
  eAgentName :: string
  eToolName :: string
  eAction :: string
  eParameters :: params
  eDecision :: string
  ePolicyID :: string
  eApprovalID :: string
  eApprovedBy :: string
  eLatencyMS :: int
  eTokenIn :: int
  eTokenOut :: int
  eTimestamp :: time
  eDataHandling :: string
  eWorkflowRunID :: uuid
  eStepIndex :: "int option"
  eRedactedCount :: "int option"
  ePrevHash :: string
  eHash :: string

definition empty_entry :: Entry where
  "empty_entry = \<lparr>eID = nil_uuid, eOrgID = nil_uuid, eAgentID = nil_uuid, eAgentName = [], eToolName = [],
     eAction = [], eParameters = None, eDecision = [], ePolicyID = [], eApprovalID = [], eApprovedBy = [],
     eLatencyMS = 0, eTokenIn = 0, eTokenOut = 0, eTimestamp = zero_time, eDataHandling = [],
     eWorkflowRunID = nil_uuid, eStepIndex = None, eRedactedCount = None, ePrevHash = [], eHash = []\<rparr>"

record audit_writer =
  lastHash :: string
  initialized :: bool

definition NewWithDB :: audit_writer where
  "NewWithDB = \<lparr>lastHash = [], initialized = False\<rparr>"

definition genesis_hash :: "(string \<Rightarrow> string) \<Rightarrow> string" where
  "genesis_hash H = H ''eami-genesis-2026''"

text \<open>The first write of a process loads the last hash; an error other than an empty
  table leaves the writer uninitialised.\<close>

definition write_init ::
  "(string \<Rightarrow> string) \<Rightarrow> ('db \<Rightarrow> string result) \<Rightarrow> 'db \<Rightarrow> audit_writer \<Rightarrow> go_error option \<times> audit_writer" where
  "write_init H GetLastHash db w =
     (if initialized w then (None, w)
      else case GetLastHash db of
        Inl err \<Rightarrow>
          if errors_is ErrNoRows err then (None, \<lparr>lastHash = genesis_hash H, initialized = True\<rparr>)
          else (Some (Wrapped ''audit: failed to load last hash'' err), w)
      | Inr hash \<Rightarrow> (None, \<lparr>lastHash = hash, initialized = True\<rparr>))"

definition entry_content :: "string \<Rightarrow> Entry \<Rightarrow> string" where
  "entry_content prev e =
     prev @ eID e @ eOrgID e @ eAgentName e @ eToolName e @ eAction e @ eDecision e
     @ format_rfc3339 (eTimestamp e)"

definition write_append ::
  "(string \<Rightarrow> string) \<Rightarrow> ('db \<Rightarrow> Entry \<Rightarrow> go_error option \<times> 'db) \<Rightarrow> uuid \<Rightarrow> Entry \<Rightarrow> 'db \<Rightarrow> audit_writer
     \<Rightarrow> go_error option \<times> audit_writer \<times> 'db" where
  "write_append H InsertEntry newID e db w =
     (let e1 = (if eID e = nil_uuid then e\<lparr>eID := newID\<rparr> else e);
          rowHash = H (entry_content (lastHash w) e1);
          e2 = e1\<lparr>ePrevHash := lastHash w, eHash := rowHash\<rparr>
      in case InsertEntry db e2 of
           (Some err, db') \<Rightarrow> (Some (Wrapped ''audit: insert failed'' err), w, db')
         | (None, db') \<Rightarrow> (None, w\<lparr>lastHash := rowHash\<rparr>, db'))"

text \<open>\<^verbatim>\<open>Writer.Write\<close>; \<open>now\<close> and \<open>newID\<close> are what \<^verbatim>\<open>time.Now().UTC()\<close> and \<^verbatim>\<open>uuid.New()\<close>
  return, and the mutex makes the whole body one step of its process.\<close>

definition Write ::
  "(string \<Rightarrow> string) \<Rightarrow> ('db \<Rightarrow> string result) \<Rightarrow> ('db \<Rightarrow> Entry \<Rightarrow> go_error option \<times> 'db) \<Rightarrow> time \<Rightarrow> uuid
     \<Rightarrow> Entry \<Rightarrow> 'db \<Rightarrow> audit_writer \<Rightarrow> go_error option \<times> audit_writer \<times> 'db" where
  "Write H GetLastHash InsertEntry now newID e db w =
     (let e0 = (if eTimestamp e = zero_time then e\<lparr>eTimestamp := now\<rparr> else e)
      in case write_init H GetLastHash db w of
           (Some err, w') \<Rightarrow> (Some err, w', db)
         | (None, w') \<Rightarrow> write_append H InsertEntry newID e0 db w')"

section \<open>The audit_log table and its adapter\<close>

record audit_row =
  cID :: uuid
  cOrgID :: uuid
  cAgentID :: "uuid option"
  cAgentName :: string
  cToolName :: string
  cAction :: string
  cParameters :: json
  cDecision :: string
  cPolicyID :: "string option"
  cApprovalID :: "string option"
  cApprovedBy :: string
  cLatencyMS :: int
  cTokenIn :: int
  cTokenOut :: int
  cTimestamp :: time
  cPrevHash :: string
  cHash :: string
  cDataHandling :: "string option"
  cWorkflowRunID :: "uuid option"
  cStepIndex :: "int option"
  cRedactedCount :: "int option"

definition non_empty :: "string \<Rightarrow> string option" where
  "non_empty s = (if s = [] then None else Some s)"

definition non_nil :: "uuid \<Rightarrow> uuid option" where
  "non_nil u = (if u = nil_uuid then None else Some u)"

definition row_of_entry :: "Entry \<Rightarrow> audit_row" where
  "row_of_entry e =
     \<lparr>cID = eID e, cOrgID = eOrgID e, cAgentID = non_nil (eAgentID e), cAgentName = eAgentName e,
      cToolName = eToolName e, cAction = eAction e,
      cParameters = (case eParameters e of None \<Rightarrow> JNull | Some kvs \<Rightarrow> JObj kvs),
      cDecision = eDecision e, cPolicyID = non_empty (ePolicyID e), cApprovalID = non_empty (eApprovalID e),
      cApprovedBy = eApprovedBy e, cLatencyMS = eLatencyMS e, cTokenIn = eTokenIn e, cTokenOut = eTokenOut e,
      cTimestamp = pg_timestamp (eTimestamp e), cPrevHash = ePrevHash e, cHash = eHash e,
      cDataHandling = non_empty (eDataHandling e), cWorkflowRunID = non_nil (eWorkflowRunID e),
      cStepIndex = eStepIndex e, cRedactedCount = eRedactedCount e\<rparr>"

text \<open>How the connection behaves for one operation: a read may fail; an insert may fail,
  with the row committed or not; among rows with the greatest timestamp the query
  returns any one (\<open>pg_pick\<close> selects it).\<close>

record pg_env =
  pg_read_error :: "string option"
  pg_pick :: nat
  pg_insert_error :: "(string \<times> bool) option"

definition pg_ok :: pg_env where
  "pg_ok = \<lparr>pg_read_error = None, pg_pick = 0, pg_insert_error = None\<rparr>"

definition latest_rows :: "audit_row list \<Rightarrow> audit_row list" where
  "latest_rows rows = filter (\<lambda>r. \<forall>s\<in>set rows. cTimestamp s \<le> cTimestamp r) rows"

definition pg_GetLastHash :: "pg_env \<Rightarrow> audit_row list \<Rightarrow> string result" where
  "pg_GetLastHash env rows =
     (case pg_read_error env of
        Some m \<Rightarrow> Inl (ErrText m)
      | None \<Rightarrow>
        if rows = [] then Inl (Sentinel ErrNoRows)
        else Inr (cHash (latest_rows rows ! (pg_pick env mod length (latest_rows rows)))))"

definition pg_InsertEntry :: "pg_env \<Rightarrow> audit_row list \<Rightarrow> Entry \<Rightarrow> go_error option \<times> audit_row list" where
  "pg_InsertEntry env rows e =
     (if eDecision e \<notin> {''allowed'', ''denied'', ''escalated''}
      then (Some (ErrText ''violates check constraint''), rows)
      else case pg_insert_error env of
        Some (m, committed) \<Rightarrow> (Some (ErrText m), if committed then rows @ [row_of_entry e] else rows)
      | None \<Rightarrow> (None, rows @ [row_of_entry e]))"

section \<open>The verifier (verify.go)\<close>

record AuditVerifyParams =
  vpOrgID :: uuid
  vpFrom :: "time option"
  vpTo :: "time option"

record AuditVerifyResult =
  Valid :: bool
  TotalRows :: nat
  FirstBrokenAt :: "uuid option"
  Message :: string
  CheckedFrom :: "string option"
  CheckedTo :: "string option"

definition row_content :: "audit_row \<Rightarrow> string" where
  "row_content r =
     cPrevHash r @ cID r @ cOrgID r @ cAgentName r @ cToolName r @ cAction r @ cDecision r
     @ format_rfc3339 (cTimestamp r)"

definition row_good :: "(string \<Rightarrow> string) \<Rightarrow> string set \<Rightarrow> audit_row \<Rightarrow> bool" where
  "row_good H existing r =
     (cHash r = H (row_content r) \<and> (cPrevHash r \<in> existing \<or> cPrevHash r = genesis_hash H))"

fun verify_rows ::
  "(string \<Rightarrow> string) \<Rightarrow> string set \<Rightarrow> audit_row list \<Rightarrow> nat \<times> uuid option \<times> time option \<times> time option
     \<Rightarrow> nat \<times> uuid option \<times> time option \<times> time option" where
  "verify_rows H existing [] st = st"
| "verify_rows H existing (r # rs) (totalRows, firstBroken, firstTS, lastTS) =
     verify_rows H existing rs
       (Suc totalRows,
        (if firstBroken \<noteq> None then firstBroken
         else if row_good H existing r then None else Some (cID r)),
        (if firstTS = None then Some (cTimestamp r) else firstTS),
        Some (cTimestamp r))"

definition row_selected :: "AuditVerifyParams \<Rightarrow> audit_row \<Rightarrow> bool" where
  "row_selected p r =
     (cOrgID r = vpOrgID p
      \<and> (case vpFrom p of None \<Rightarrow> True | Some t \<Rightarrow> t \<le> cTimestamp r)
      \<and> (case vpTo p of None \<Rightarrow> True | Some t \<Rightarrow> cTimestamp r \<le> t))"

text \<open>\<open>srt\<close> is the query's \<^verbatim>\<open>ORDER BY timestamp ASC\<close>, \<open>dbErr\<close> a failure of either query.\<close>

definition VerifyAuditChain ::
  "(string \<Rightarrow> string) \<Rightarrow> (audit_row list \<Rightarrow> audit_row list) \<Rightarrow> go_error option \<Rightarrow> audit_row list \<Rightarrow> AuditVerifyParams
     \<Rightarrow> AuditVerifyResult result" where
  "VerifyAuditChain H srt dbErr table p =
     (case dbErr of Some err \<Rightarrow> Inl err | None \<Rightarrow>
      let existingHashes = cHash ` set table;
          rows = srt (filter (row_selected p) table)
      in case verify_rows H existingHashes rows (0, None, None, None) of
           (totalRows, firstBroken, firstTS, lastTS) \<Rightarrow>
             Inr \<lparr>Valid = (firstBroken = None), TotalRows = totalRows, FirstBrokenAt = firstBroken,
                  Message = (if totalRows = 0 then ''no audit rows found in the specified range''
                             else case firstBroken of
                               None \<Rightarrow> ''chain intact ('' @ show_nat totalRows @ '' rows verified)''
                             | Some b \<Rightarrow> ''chain broken at row '' @ b),
                  CheckedFrom = map_option format_rfc3339 firstTS,
                  CheckedTo = map_option format_rfc3339 lastTS\<rparr>)"

section \<open>What the writer relies on\<close>

definition chain_ok :: "(string \<Rightarrow> string) \<Rightarrow> audit_row list \<Rightarrow> bool" where
  "chain_ok H rows = (\<forall>r\<in>set rows. row_good H (cHash ` set rows) r)"

definition writer_ok :: "(string \<Rightarrow> string) \<Rightarrow> audit_row list \<Rightarrow> audit_writer \<Rightarrow> bool" where
  "writer_ok H rows w = (initialized w \<longrightarrow> lastHash w = genesis_hash H \<or> lastHash w \<in> cHash ` set rows)"

definition row_after :: "(string \<Rightarrow> string) \<Rightarrow> string \<Rightarrow> audit_row \<Rightarrow> bool" where
  "row_after H prev r = (cPrevHash r = prev \<and> cHash r = H (row_content r))"

lemma row_after_entry:
  "row_after H prev (row_of_entry (e\<lparr>ePrevHash := prev, eHash := H (entry_content prev e)\<rparr>))"
  by (simp add: row_after_def row_of_entry_def row_content_def entry_content_def)

lemma row_good_mono: "row_good H ex r \<Longrightarrow> ex \<subseteq> ex' \<Longrightarrow> row_good H ex' r"
  by (auto simp: row_good_def)

lemma chain_ok_append:
  assumes "chain_ok H rows" "prev = genesis_hash H \<or> prev \<in> cHash ` set rows" "row_after H prev r"
  shows "chain_ok H (rows @ [r])"
proof -
  let ?ex = "cHash ` set (rows @ [r])"
  have "row_good H ?ex x" if "x \<in> set rows" for x
    by (rule row_good_mono [of H "cHash ` set rows"]) (use assms(1) that in \<open>auto simp: chain_ok_def\<close>)
  moreover have "row_good H ?ex r"
    by (rule row_good_mono [of H "cHash ` set rows"])
      (use assms(2,3) in \<open>auto simp: row_good_def row_after_def\<close>)
  ultimately show ?thesis by (simp add: chain_ok_def)
qed

lemma writer_ok_mono: "writer_ok H rows w \<Longrightarrow> writer_ok H (rows @ rs) w"
  by (auto simp: writer_ok_def)

text \<open>The contract of \<^verbatim>\<open>WriterDB\<close>: the last hash is the hash of some stored row, an empty
  table is the only reason for \<^verbatim>\<open>ErrNoRows\<close>, and an insert appends the row, or, when it
  reports an error, appends it or leaves the table alone.\<close>

locale writer_db =
  fixes GetLastHash :: "'db \<Rightarrow> string result"
    and InsertEntry :: "'db \<Rightarrow> Entry \<Rightarrow> go_error option \<times> 'db"
    and rows :: "'db \<Rightarrow> audit_row list"
  assumes get_hash: "GetLastHash db = Inr h \<Longrightarrow> h \<in> cHash ` set (rows db)"
    and get_no_rows: "GetLastHash db = Inl err \<Longrightarrow> errors_is ErrNoRows err \<Longrightarrow> rows db = []"
    and insert_ok: "InsertEntry db e = (None, db') \<Longrightarrow> rows db' = rows db @ [row_of_entry e]"
    and insert_err: "InsertEntry db e = (Some x, db') \<Longrightarrow>
       rows db' = rows db \<or> rows db' = rows db @ [row_of_entry e]"
begin

lemma write_init_ok:
  "write_init H GetLastHash db w = (r, w') \<Longrightarrow> writer_ok H (rows db) w \<Longrightarrow>
     writer_ok H (rows db) w' \<and> (r = None \<longrightarrow> initialized w')"
  by (auto simp: write_init_def writer_ok_def split: if_splits sum.splits dest: get_hash)

lemma write_append_rows:
  assumes "write_append H InsertEntry newID e db w = (r, w', db')"
  obtains row where "row_after H (lastHash w) row"
    "rows db' = rows db \<and> w' = w \<and> r \<noteq> None
     \<or> rows db' = rows db @ [row] \<and> w' = w \<and> r \<noteq> None
     \<or> rows db' = rows db @ [row] \<and> w' = w\<lparr>lastHash := cHash row\<rparr> \<and> r = None"
proof -
  define e1 where "e1 = (if eID e = nil_uuid then e\<lparr>eID := newID\<rparr> else e)"
  define e2 where "e2 = e1\<lparr>ePrevHash := lastHash w, eHash := H (entry_content (lastHash w) e1)\<rparr>"
  obtain x db1 where ins: "InsertEntry db e2 = (x, db1)" by (cases "InsertEntry db e2")
  have ra: "row_after H (lastHash w) (row_of_entry e2)"
    unfolding e2_def by (rule row_after_entry)
  have ch: "cHash (row_of_entry e2) = H (entry_content (lastHash w) e1)"
    by (simp add: e2_def row_of_entry_def)
  have res: "(r, w', db') = (case x of
      Some err \<Rightarrow> (Some (Wrapped ''audit: insert failed'' err), w, db1)
    | None \<Rightarrow> (None, w\<lparr>lastHash := H (entry_content (lastHash w) e1)\<rparr>, db1))"
    using assms ins unfolding write_append_def Let_def e1_def [symmetric] e2_def [symmetric]
    by (simp split: option.splits)
  show thesis
    by (rule that [OF ra]) (use res ch ins insert_ok insert_err in \<open>cases x; fastforce\<close>)
qed

lemma write_append_chain:
  assumes "write_append H InsertEntry newID e db w = (r, w', db')" "initialized w"
    "chain_ok H (rows db)" "writer_ok H (rows db) w"
  shows "chain_ok H (rows db')" "writer_ok H (rows db') w'" "\<exists>rs. rows db' = rows db @ rs"
proof -
  obtain row where ra: "row_after H (lastHash w) row" and cases: "rows db' = rows db \<and> w' = w \<and> r \<noteq> None
     \<or> rows db' = rows db @ [row] \<and> w' = w \<and> r \<noteq> None
     \<or> rows db' = rows db @ [row] \<and> w' = w\<lparr>lastHash := cHash row\<rparr> \<and> r = None"
    by (rule write_append_rows [OF assms(1)]) blast
  have prev: "lastHash w = genesis_hash H \<or> lastHash w \<in> cHash ` set (rows db)"
    using assms(2,4) by (simp add: writer_ok_def)
  show "chain_ok H (rows db')"
    using cases chain_ok_append [OF assms(3) prev ra] assms(3) by auto
  show "writer_ok H (rows db') w'"
    using cases assms(4) prev by (auto simp: writer_ok_def)
  show "\<exists>rs. rows db' = rows db @ rs" using cases by auto
qed

end

lemma latest_rows_subset: "set (latest_rows rows) \<subseteq> set rows"
  by (auto simp: latest_rows_def)

lemma latest_rows_neq_Nil: "rows \<noteq> [] \<Longrightarrow> latest_rows rows \<noteq> []"
proof -
  assume "rows \<noteq> []"
  then have ne: "finite (cTimestamp ` set rows)" "cTimestamp ` set rows \<noteq> {}" by auto
  from Max_in [OF ne] obtain r where r: "r \<in> set rows" "cTimestamp r = Max (cTimestamp ` set rows)" by auto
  with ne have "\<forall>s\<in>set rows. cTimestamp s \<le> cTimestamp r" by simp
  with r(1) have "r \<in> set (latest_rows rows)" by (simp add: latest_rows_def)
  then show ?thesis by auto
qed

lemma pg_GetLastHash_in:
  assumes "pg_GetLastHash env rs = Inr h"
  shows "h \<in> cHash ` set rs"
proof -
  let ?l = "latest_rows rs"
  have ne: "rs \<noteq> []" and h: "h = cHash (?l ! (pg_pick env mod length ?l))"
    using assms by (auto simp: pg_GetLastHash_def split: option.splits if_splits)
  have "?l ! (pg_pick env mod length ?l) \<in> set ?l"
    by (rule nth_mem) (simp add: latest_rows_neq_Nil [OF ne])
  with h latest_rows_subset show ?thesis by blast
qed

interpretation pg: writer_db "pg_GetLastHash env" "pg_InsertEntry env" "\<lambda>rs. rs" for env
proof unfold_locales
  show "pg_GetLastHash env db = Inr h \<Longrightarrow> h \<in> cHash ` set db" for db h
    by (rule pg_GetLastHash_in)
  show "pg_GetLastHash env db = Inl err \<Longrightarrow> errors_is ErrNoRows err \<Longrightarrow> db = []" for db err
    by (auto simp: pg_GetLastHash_def split: option.splits if_splits)
  show "pg_InsertEntry env db e = (None, db') \<Longrightarrow> db' = db @ [row_of_entry e]" for db e db'
    by (auto simp: pg_InsertEntry_def split: option.splits if_splits)
  show "pg_InsertEntry env db e = (Some x, db') \<Longrightarrow> db' = db \<or> db' = db @ [row_of_entry e]" for db e x db'
    by (auto simp: pg_InsertEntry_def split: option.splits if_splits)
qed

section \<open>Any number of gateway processes\<close>

text \<open>One shared table and a writer per process. Loading the last hash and inserting are
  separate database operations, so other processes may run in between; a process may
  restart at any time.\<close>

record audit_system =
  sys_table :: "audit_row list"
  sys_writers :: "nat \<Rightarrow> audit_writer"

inductive audit_step :: "(string \<Rightarrow> string) \<Rightarrow> audit_system \<Rightarrow> audit_system \<Rightarrow> bool" for H where
  load: "write_init H (pg_GetLastHash env) (sys_table s) (sys_writers s i) = (r, w') \<Longrightarrow>
     audit_step H s (s\<lparr>sys_writers := (sys_writers s)(i := w')\<rparr>)"
| append: "initialized (sys_writers s i) \<Longrightarrow>
     write_append H (pg_InsertEntry env) newID e (sys_table s) (sys_writers s i) = (r, w', rows') \<Longrightarrow>
     audit_step H s (s\<lparr>sys_table := rows', sys_writers := (sys_writers s)(i := w')\<rparr>)"
| restart: "audit_step H s (s\<lparr>sys_writers := (sys_writers s)(i := NewWithDB)\<rparr>)"

inductive audit_reachable :: "(string \<Rightarrow> string) \<Rightarrow> audit_system \<Rightarrow> bool" for H where
  start: "audit_reachable H \<lparr>sys_table = [], sys_writers = (\<lambda>_. NewWithDB)\<rparr>"
| step: "audit_reachable H s \<Longrightarrow> audit_step H s t \<Longrightarrow> audit_reachable H t"

inductive_cases audit_stepE: "audit_step H s t"

definition audit_inv :: "(string \<Rightarrow> string) \<Rightarrow> audit_system \<Rightarrow> bool" where
  "audit_inv H s = (chain_ok H (sys_table s) \<and> (\<forall>i. writer_ok H (sys_table s) (sys_writers s i)))"

lemma audit_step_inv: "audit_step H s t \<Longrightarrow> audit_inv H s \<Longrightarrow> audit_inv H t"
proof (induction rule: audit_step.induct)
  case (load env s i r w')
  with pg.write_init_ok [OF load(1)] show ?case by (auto simp: audit_inv_def)
next
  case (append s i env newID e r w' rows')
  note facts = pg.write_append_chain [OF append(2,1)]
  from append(3) have "chain_ok H (sys_table s)" "writer_ok H (sys_table s) (sys_writers s i)"
    by (auto simp: audit_inv_def)
  from facts [OF this] obtain rs where rs: "rows' = sys_table s @ rs" and ok: "chain_ok H rows'" "writer_ok H rows' w'"
    by blast
  have "writer_ok H rows' (sys_writers s j)" for j
    unfolding rs by (rule writer_ok_mono) (use append(3) in \<open>simp add: audit_inv_def\<close>)
  with ok show ?case by (simp add: audit_inv_def)
next
  case (restart s i)
  then show ?case by (auto simp: audit_inv_def writer_ok_def NewWithDB_def)
qed

lemma audit_reachable_inv: "audit_reachable H s \<Longrightarrow> audit_inv H s"
proof (induction rule: audit_reachable.induct)
  case start
  show ?case by (simp add: audit_inv_def chain_ok_def writer_ok_def NewWithDB_def)
next
  case (step s t)
  then show ?case by (blast intro: audit_step_inv)
qed

section \<open>What the verifier decides\<close>

lemma verify_rows_result:
  "verify_rows H ex rs (n, b, f, l) =
     (n + length rs,
      (if b \<noteq> None then b else map_option cID (List.find (\<lambda>r. \<not> row_good H ex r) rs)),
      (if f = None then (if rs = [] then None else Some (cTimestamp (hd rs))) else f),
      (if rs = [] then l else Some (cTimestamp (last rs))))"
  by (induction rs arbitrary: n b f l) auto

definition selected :: "AuditVerifyParams \<Rightarrow> audit_row list \<Rightarrow> audit_row list" where
  "selected p table = filter (row_selected p) table"

lemma VerifyAuditChain_result:
  obtains res where "VerifyAuditChain H srt None table p = Inr res"
    "TotalRows res = length (srt (selected p table))"
    "FirstBrokenAt res = map_option cID (List.find (\<lambda>r. \<not> row_good H (cHash ` set table) r) (srt (selected p table)))"
    "Valid res \<longleftrightarrow> List.find (\<lambda>r. \<not> row_good H (cHash ` set table) r) (srt (selected p table)) = None"
proof -
  show thesis
    by (rule that, simp add: VerifyAuditChain_def selected_def [symmetric] Let_def verify_rows_result)
      simp_all
qed

definition by_timestamp :: "audit_row \<Rightarrow> audit_row \<Rightarrow> bool" where
  "by_timestamp a b = (cTimestamp a < cTimestamp b)"

lemma verify_valid_iff:
  assumes "sort_slice srt by_timestamp" "VerifyAuditChain H srt None table p = Inr res"
  shows "Valid res \<longleftrightarrow> (\<forall>r\<in>set (selected p table). row_good H (cHash ` set table) r)"
proof -
  have "Valid res \<longleftrightarrow> List.find (\<lambda>r. \<not> row_good H (cHash ` set table) r) (srt (selected p table)) = None"
    by (rule VerifyAuditChain_result [of H srt table p]) (use assms(2) in simp)
  then show ?thesis
    by (simp add: sort_slice.find_srt_None [OF assms(1)])
qed

text \<open>C4: written logs verify. However many gateway processes share the table, however
  their writes interleave, fail or restart, the verifier finds the chain intact for
  every organisation and every time range.\<close>

theorem written_log_verifies:
  assumes "audit_reachable H s" "sort_slice srt by_timestamp"
  shows "\<exists>res. VerifyAuditChain H srt None (sys_table s) p = Inr res \<and> Valid res
     \<and> TotalRows res = length (selected p (sys_table s))"
proof -
  have "chain_ok H (sys_table s)"
    using audit_reachable_inv [OF assms(1)] by (simp add: audit_inv_def)
  then have "\<forall>r\<in>set (selected p (sys_table s)). row_good H (cHash ` set (sys_table s)) r"
    by (simp add: chain_ok_def selected_def)
  moreover have "length (srt xs) = length xs" for xs
    using sort_slice.srt_mset [OF assms(2)] by (rule mset_eq_length)
  moreover obtain res where res: "VerifyAuditChain H srt None (sys_table s) p = Inr res"
    "TotalRows res = length (srt (selected p (sys_table s)))"
    by (rule VerifyAuditChain_result)
  ultimately show ?thesis
    using verify_valid_iff [OF assms(2) res(1)] by simp
qed

text \<open>an altered row is found. When some selected row's stored hash is not the digest of
  its own columns (a hashed column was edited to a value with another digest), the
  verification fails and names the first broken row in timestamp order, which belongs to
  the requested organisation.\<close>

theorem altered_row_detected:
  assumes "sort_slice srt by_timestamp" "r \<in> set (selected p rows)" "cHash r \<noteq> H (row_content r)"
  shows "\<exists>res b. VerifyAuditChain H srt None rows p = Inr res \<and> \<not> Valid res \<and> FirstBrokenAt res = Some (cID b)
     \<and> b \<in> set rows \<and> cOrgID b = vpOrgID p \<and> \<not> row_good H (cHash ` set rows) b
     \<and> cTimestamp b \<le> cTimestamp r"
proof -
  let ?bad = "\<lambda>r. \<not> row_good H (cHash ` set rows) r"
  have bad: "?bad r" using assms(3) by (simp add: row_good_def)
  obtain b where b: "List.find ?bad (srt (selected p rows)) = Some b" "b \<in> set (selected p rows)" "?bad b"
    by (rule sort_slice.find_srt_exists [where P = ?bad, OF assms(1,2) bad])
  have "r = b \<or> \<not> by_timestamp r b"
    by (rule sort_slice.first_match_minimal [where P = ?bad, OF assms(1) b(1) assms(2) bad])
  then have le: "cTimestamp b \<le> cTimestamp r" by (auto simp: by_timestamp_def)
  from b(2) have mem: "b \<in> set rows" "cOrgID b = vpOrgID p" by (auto simp: selected_def row_selected_def)
  obtain res where "VerifyAuditChain H srt None rows p = Inr res"
    "FirstBrokenAt res = Some (cID b)" "\<not> Valid res"
    by (rule VerifyAuditChain_result [of H srt rows p]) (simp add: b(1))
  with le mem b(3) show ?thesis by blast
qed

text \<open>A deleted predecessor is found. When a selected row's predecessor hash is neither
  the genesis hash nor the hash of any row left in the table, verification fails.\<close>

theorem deleted_predecessor_detected:
  assumes "sort_slice srt by_timestamp" "r \<in> set (selected p rows)"
    "cPrevHash r \<noteq> genesis_hash H" "\<forall>q\<in>set rows. cHash q \<noteq> cPrevHash r"
  shows "\<exists>res. VerifyAuditChain H srt None rows p = Inr res \<and> \<not> Valid res"
proof -
  have "\<not> row_good H (cHash ` set rows) r"
    using assms(3,4) by (auto simp: row_good_def)
  then have "\<not> (\<forall>r\<in>set (selected p rows). row_good H (cHash ` set rows) r)"
    using assms(2) by blast
  moreover obtain res where "VerifyAuditChain H srt None rows p = Inr res"
    by (rule VerifyAuditChain_result)
  ultimately show ?thesis using verify_valid_iff [OF assms(1)] by blast
qed

interpretation by_ts: sort_slice "sort_key cTimestamp" by_timestamp
proof unfold_locales
  fix xs :: "audit_row list"
  show "mset (sort_key cTimestamp xs) = mset xs" by simp
  have "sorted (map cTimestamp (sort_key cTimestamp xs))" by simp
  then show "sorted_wrt (\<lambda>a b. \<not> by_timestamp b a) (sort_key cTimestamp xs)"
    by (simp add: sorted_map by_timestamp_def not_less)
qed

section \<open>One process: a linear chain, until it restarts\<close>

fun linear :: "(string \<Rightarrow> string) \<Rightarrow> string \<Rightarrow> audit_row list \<Rightarrow> bool" where
  "linear H prev [] = True"
| "linear H prev (r # rs) = (row_after H prev r \<and> linear H (cHash r) rs)"

definition last_hash :: "string \<Rightarrow> audit_row list \<Rightarrow> string" where
  "last_hash prev rs = (if rs = [] then prev else cHash (last rs))"

lemma linear_append: "linear H prev (rs @ [r]) \<longleftrightarrow> linear H prev rs \<and> row_after H (last_hash prev rs) r"
  by (induction rs arbitrary: prev) (auto simp: last_hash_def)

type_synonym write_call = "pg_env \<times> time \<times> uuid \<times> Entry"

fun write_all :: "(string \<Rightarrow> string) \<Rightarrow> write_call list \<Rightarrow> audit_writer \<times> audit_row list \<Rightarrow> audit_writer \<times> audit_row list" where
  "write_all H [] st = st"
| "write_all H ((env, now, newID, e) # cs) (w, rs) =
     write_all H cs (snd (Write H (pg_GetLastHash env) (pg_InsertEntry env) now newID e rs w))"

definition no_lost_reply :: "write_call \<Rightarrow> bool" where
  "no_lost_reply c = (\<forall>m. pg_insert_error (fst c) \<noteq> Some (m, True))"

definition single_inv :: "(string \<Rightarrow> string) \<Rightarrow> audit_writer \<times> audit_row list \<Rightarrow> bool" where
  "single_inv H st = (case st of (w, rs) \<Rightarrow> linear H (genesis_hash H) rs
     \<and> (if initialized w then lastHash w = last_hash (genesis_hash H) rs else rs = []))"

lemma Write_single_inv:
  assumes "no_lost_reply (env, now, newID, e)" "single_inv H (w, rs)"
  shows "single_inv H (snd (Write H (pg_GetLastHash env) (pg_InsertEntry env) now newID e rs w))"
proof -
  let ?e = "if eTimestamp e = zero_time then e\<lparr>eTimestamp := now\<rparr> else e"
  obtain r w1 where i: "write_init H (pg_GetLastHash env) rs w = (r, w1)"
    by (cases "write_init H (pg_GetLastHash env) rs w")
  from i assms(2) have inv1: "single_inv H (w1, rs)" and ini: "r = None \<Longrightarrow> initialized w1"
    by (auto simp: single_inv_def write_init_def pg_GetLastHash_def last_hash_def
        split: if_splits option.splits)
  show ?thesis
  proof (cases r)
    case (Some err)
    with i inv1 show ?thesis by (simp add: Write_def Let_def)
  next
    case None
    obtain r2 w2 rs2 where ap: "write_append H (pg_InsertEntry env) newID ?e rs w1 = (r2, w2, rs2)"
      by (cases "write_append H (pg_InsertEntry env) newID ?e rs w1")
    have W: "snd (Write H (pg_GetLastHash env) (pg_InsertEntry env) now newID e rs w) = (w2, rs2)"
      using i ap None by (simp add: Write_def Let_def)
    obtain row where ra: "row_after H (lastHash w1) row"
      and c: "rs2 = rs \<and> w2 = w1 \<and> r2 \<noteq> None \<or> rs2 = rs @ [row] \<and> w2 = w1 \<and> r2 \<noteq> None
         \<or> rs2 = rs @ [row] \<and> w2 = w1\<lparr>lastHash := cHash row\<rparr> \<and> r2 = None"
      by (rule pg.write_append_rows [OF ap]) blast
    have "\<not> (rs2 = rs @ [row] \<and> r2 \<noteq> None)"
      using ap assms(1)
      by (auto simp: write_append_def pg_InsertEntry_def no_lost_reply_def Let_def split: if_splits option.splits)
    with c inv1 ra ini [OF None] show ?thesis
      unfolding W by (auto simp: single_inv_def linear_append last_hash_def)
  qed
qed

text \<open>While a single process runs, the log is one chain. From an empty table, every
  sequence of writes (failing reads and inserts included, as long as no insert is
  committed although it reported an error) yields rows in which the first follows the
  genesis hash and every other carries the hash of the row inserted just before it.\<close>

theorem single_process_linear_chain:
  assumes "\<forall>c\<in>set calls. no_lost_reply c"
  shows "linear H (genesis_hash H) (snd (write_all H calls (NewWithDB, [])))"
proof -
  have "single_inv H st \<Longrightarrow> \<forall>c\<in>set calls. no_lost_reply c \<Longrightarrow> single_inv H (write_all H calls st)" for st
  proof (induction H calls st rule: write_all.induct)
    case (2 H env now newID e cs w rs)
    then show ?case using Write_single_inv by auto
  qed simp
  with assms have "single_inv H (write_all H calls (NewWithDB, []))"
    by (auto simp: single_inv_def NewWithDB_def)
  then show ?thesis by (auto simp: single_inv_def)
qed

definition sample_entry :: "string \<Rightarrow> time \<Rightarrow> Entry" where
  "sample_entry i t = empty_entry\<lparr>eID := i, eAgentName := ''agent'', eDecision := ''allowed'', eTimestamp := t\<rparr>"

text \<open>a restart can fork the chain. The last hash is looked up by timestamp, but a row's
  timestamp is the time its call was received, not the time it was written. When a call
  received first is written second and the process then restarts, the next row gets
  the same predecessor as the second row, so the second row is no longer followed by
  any row.\<close>

theorem restart_forks_chain:
  "let (w, rs) = write_all H [(pg_ok, 0, ''x'', sample_entry ''b'' (20 * second)), (pg_ok, 0, ''y'', sample_entry ''a'' (10 * second))]
                   (NewWithDB, []);
       (w', rs') = write_all H [(pg_ok, 0, ''z'', sample_entry ''c'' (30 * second))] (NewWithDB, rs)
   in length rs' = 3 \<and> map cID rs' = [''b'', ''a'', ''c''] \<and> cPrevHash (rs' ! 2) = cPrevHash (rs' ! 1)
      \<and> cPrevHash (rs' ! 2) = cHash (rs' ! 0)"
  by (simp add: Write_def write_init_def write_append_def pg_GetLastHash_def pg_InsertEntry_def pg_ok_def
      NewWithDB_def sample_entry_def empty_entry_def zero_time_def second_def nil_uuid_def latest_rows_def
      row_of_entry_def pg_timestamp_def Let_def)

text \<open>the digest does not separate its fields. Moving a suffix of a row's agent name to
  the front of its tool name leaves the digest unchanged, so the verifier gives the same
  verdict on the edited table, whatever the hash function is.\<close>

theorem boundary_shift_undetected:
  assumes "sort_slice srt by_timestamp" "cAgentName r = a @ b"
  shows "\<exists>res res'. VerifyAuditChain H srt None (xs @ r # ys) p = Inr res
     \<and> VerifyAuditChain H srt None (xs @ r\<lparr>cAgentName := a, cToolName := b @ cToolName r\<rparr> # ys) p = Inr res'
     \<and> Valid res' = Valid res"
proof -
  let ?r = "r\<lparr>cAgentName := a, cToolName := b @ cToolName r\<rparr>"
  let ?t = "xs @ r # ys" and ?t' = "xs @ ?r # ys"
  obtain res where res: "VerifyAuditChain H srt None ?t p = Inr res" by (rule VerifyAuditChain_result)
  obtain res' where res': "VerifyAuditChain H srt None ?t' p = Inr res'" by (rule VerifyAuditChain_result)
  have ex: "cHash ` set ?t' = cHash ` set ?t" by simp
  have good: "row_good H ex ?r = row_good H ex r" for ex
    using assms(2) by (simp add: row_good_def row_content_def)
  have "row_selected p ?r = row_selected p r"
    by (simp add: row_selected_def split: option.split)
  then have "(\<forall>q\<in>set (selected p ?t'). row_good H ex q) = (\<forall>q\<in>set (selected p ?t). row_good H ex q)" for ex
    using good [of ex] by (auto simp: selected_def)
  then have "Valid res' = Valid res"
    unfolding verify_valid_iff [OF assms(1) res] verify_valid_iff [OF assms(1) res'] ex .
  with res res' show ?thesis by blast
qed

text \<open>Witnesses, on the table one write produces.\<close>

definition sample_table :: "audit_row list" where
  "sample_table = snd (write_all (\<lambda>x. x) [(pg_ok, 0, ''x'', sample_entry ''b'' second)] (NewWithDB, []))"

definition all_rows :: AuditVerifyParams where
  "all_rows = \<lparr>vpOrgID = nil_uuid, vpFrom = None, vpTo = None\<rparr>"

lemmas sample_table_defs = sample_table_def Write_def write_init_def write_append_def pg_GetLastHash_def
  pg_InsertEntry_def pg_ok_def NewWithDB_def sample_entry_def empty_entry_def zero_time_def second_def
  nil_uuid_def row_of_entry_def pg_timestamp_def Let_def

lemma sample_table_row: "\<exists>r. sample_table = [r] \<and> cOrgID r = nil_uuid \<and> cAgentName r = ''agent''
    \<and> cPrevHash r = genesis_hash (\<lambda>x. x) \<and> cHash r = row_content r \<and> row_content r \<noteq> []"
  by (simp add: sample_table_defs row_content_def entry_content_def genesis_hash_def)

theorem written_log_verifies_witness:
  "\<exists>s res. audit_reachable (\<lambda>x. x) s \<and> sys_table s \<noteq> []
     \<and> VerifyAuditChain (\<lambda>x. x) (sort_key cTimestamp) None (sys_table s) all_rows = Inr res \<and> Valid res"
proof -
  let ?s0 = "\<lparr>sys_table = [], sys_writers = (\<lambda>_. NewWithDB)\<rparr>"
  let ?w = "\<lparr>lastHash = genesis_hash (\<lambda>x. x), initialized = True\<rparr>"
  let ?s1 = "?s0\<lparr>sys_writers := (sys_writers ?s0)(0 := ?w)\<rparr>"
  obtain r w' rows' where ap: "write_append (\<lambda>x. x) (pg_InsertEntry pg_ok) ''x'' (sample_entry ''b'' second)
      (sys_table ?s1) (sys_writers ?s1 0) = (r, w', rows')"
    by (metis prod_cases3)
  have "write_init (\<lambda>x. x) (pg_GetLastHash pg_ok) (sys_table ?s0) (sys_writers ?s0 0) = (None, ?w)"
    by (simp add: write_init_def pg_GetLastHash_def pg_ok_def NewWithDB_def)
  from audit_step.load [OF this] have r1: "audit_reachable (\<lambda>x. x) ?s1"
    by (rule audit_reachable.step [OF audit_reachable.start])
  have "initialized (sys_writers ?s1 0)" by simp
  from audit_step.append [OF this ap] have
    r2: "audit_reachable (\<lambda>x. x) (?s1\<lparr>sys_table := rows', sys_writers := (sys_writers ?s1)(0 := w')\<rparr>)"
    by (rule audit_reachable.step [OF r1])
  have "rows' \<noteq> []"
    using ap by (auto simp: write_append_def pg_InsertEntry_def pg_ok_def sample_entry_def empty_entry_def
        nil_uuid_def Let_def)
  with r2 written_log_verifies [OF r2 by_ts.sort_slice_axioms, of all_rows] show ?thesis
    by (metis audit_system.select_convs(1) audit_system.surjective audit_system.update_convs(1,2))
qed

theorem altered_row_detected_witness:
  "\<exists>rows res. VerifyAuditChain (\<lambda>x. x) (sort_key cTimestamp) None rows all_rows = Inr res \<and> \<not> Valid res"
proof -
  obtain r where r: "cOrgID r = nil_uuid" "cHash r = row_content r" "row_content r \<noteq> []"
    using sample_table_row by blast
  let ?r = "r\<lparr>cHash := []\<rparr>"
  have "?r \<in> set (selected all_rows [?r])"
    using r(1) by (simp add: selected_def row_selected_def all_rows_def)
  moreover have "cHash ?r \<noteq> (\<lambda>x. x) (row_content ?r)"
    using r(3) by (simp add: row_content_def)
  ultimately show ?thesis
    using altered_row_detected [OF by_ts.sort_slice_axioms, of ?r all_rows "[?r]" "\<lambda>x. x"] by blast
qed

theorem deleted_predecessor_detected_witness:
  "\<exists>rows res. VerifyAuditChain (\<lambda>x. x) (sort_key cTimestamp) None rows all_rows = Inr res \<and> \<not> Valid res"
proof -
  obtain r where r: "cOrgID r = nil_uuid" "cHash r = row_content r" "row_content r \<noteq> []"
    using sample_table_row by blast
  let ?r = "r\<lparr>cPrevHash := []\<rparr>"
  have "?r \<in> set (selected all_rows [?r])"
    using r(1) by (simp add: selected_def row_selected_def all_rows_def)
  moreover have "cPrevHash ?r \<noteq> genesis_hash (\<lambda>x. x)" by (simp add: genesis_hash_def)
  moreover have "\<forall>q\<in>set [?r]. cHash q \<noteq> cPrevHash ?r" using r by simp
  ultimately show ?thesis
    using deleted_predecessor_detected [OF by_ts.sort_slice_axioms, of ?r all_rows "[?r]" "\<lambda>x. x"] by blast
qed

theorem single_process_linear_chain_witness:
  "linear (\<lambda>x. x) (genesis_hash (\<lambda>x. x))
     (snd (write_all (\<lambda>x. x) [(pg_ok, 0, ''x'', sample_entry ''b'' second)] (NewWithDB, [])))"
  by (rule single_process_linear_chain) (simp add: no_lost_reply_def pg_ok_def)

theorem boundary_shift_undetected_witness:
  "\<exists>(r :: audit_row) res res'. cAgentName r = ''agent''
     \<and> VerifyAuditChain (\<lambda>x. x) (sort_key cTimestamp) None [r] all_rows = Inr res
     \<and> VerifyAuditChain (\<lambda>x. x) (sort_key cTimestamp) None [r\<lparr>cAgentName := ''a'', cToolName := ''gent'' @ cToolName r\<rparr>] all_rows = Inr res'
     \<and> Valid res' = Valid res"
proof -
  obtain r :: audit_row where "cAgentName r = ''agent''" using sample_table_row by blast
  then have r: "cAgentName r = ''a'' @ ''gent''" by simp
  from boundary_shift_undetected [OF by_ts.sort_slice_axioms r, of "\<lambda>x. x" "[]" "[]" all_rows] r
  show ?thesis by auto
qed

end
