(* ===== verification/Redaction.thy ===== *)
theory Redaction
  imports Gateway_Prelude
begin

text \<open>
  Pattern-based redaction of what is sent to an AI provider
  (\<^verbatim>\<open>eami-gateway/internal/redaction\<close>). The part of \<^verbatim>\<open>regexp\<close> the package uses is
  modelled: matching with the leftmost-first priorities of Go on the syntax trees of the
  built-in patterns, and \<^verbatim>\<open>ReplaceAllStringFunc\<close>. The built-in patterns match ASCII
  classes only, so bytes stand for runes. The parameter \<open>compile\<close> is \<^verbatim>\<open>regexp.Compile\<close> on
  the text of a custom pattern and \<open>unmarshal\<close> is \<^verbatim>\<open>json.Unmarshal\<close> into the raw
  configuration.
\<close>

section \<open>Regular expressions\<close>

datatype regex =
    REps
  | RBound \<comment> \<open>an ASCII word boundary\<close>
  | RSet "char \<Rightarrow> bool"
  | RSeq regex regex
  | RAlt regex regex
  | RRep regex nat "nat option" \<comment> \<open>greedy, at least and at most\<close>

definition in_range :: "char \<Rightarrow> char \<Rightarrow> char \<Rightarrow> bool" where
  "in_range lo hi c = ((of_char lo :: nat) \<le> of_char c \<and> (of_char c :: nat) \<le> of_char hi)"

definition is_digit :: "char \<Rightarrow> bool" where
  "is_digit c = in_range (CHR ''0'') (CHR ''9'') c"

definition is_upper :: "char \<Rightarrow> bool" where
  "is_upper c = in_range (CHR ''A'') (CHR ''Z'') c"

definition is_alpha :: "char \<Rightarrow> bool" where
  "is_alpha c = (is_upper c \<or> in_range (CHR ''a'') (CHR ''z'') c)"

definition is_word :: "char \<Rightarrow> bool" where
  "is_word c = (is_alpha c \<or> is_digit c \<or> c = CHR ''_'')"

definition word_at :: "string \<Rightarrow> nat \<Rightarrow> bool" where
  "word_at s i = (i < length s \<and> is_word (s ! i))"

definition at_boundary :: "string \<Rightarrow> nat \<Rightarrow> bool" where
  "at_boundary s i = ((0 < i \<and> word_at s (i - 1)) \<noteq> word_at s i)"

text \<open>The positions where a match that starts at a position may end, in order of priority.\<close>

fun rep_ends :: "(nat \<Rightarrow> nat list) \<Rightarrow> nat \<Rightarrow> nat \<Rightarrow> nat \<Rightarrow> nat list" where
  "rep_ends f (Suc m) k i = concat (map (rep_ends f m k) (f i))"
| "rep_ends f 0 0 i = [i]"
| "rep_ends f 0 (Suc k) i = concat (map (rep_ends f 0 k) (filter (\<lambda>j. i < j) (f i))) @ [i]"

fun match_ends :: "regex \<Rightarrow> string \<Rightarrow> nat \<Rightarrow> nat list" where
  "match_ends REps s i = [i]"
| "match_ends RBound s i = (if at_boundary s i then [i] else [])"
| "match_ends (RSet p) s i = (if i < length s \<and> p (s ! i) then [Suc i] else [])"
| "match_ends (RSeq a b) s i = concat (map (match_ends b s) (match_ends a s i))"
| "match_ends (RAlt a b) s i = match_ends a s i @ match_ends b s i"
| "match_ends (RRep a m n) s i =
     rep_ends (match_ends a s) m (case n of None \<Rightarrow> length s - i | Some n \<Rightarrow> n - m) i"

text \<open>The leftmost match from a position on.\<close>

fun first_match :: "regex \<Rightarrow> string \<Rightarrow> nat \<Rightarrow> nat list \<Rightarrow> (nat \<times> nat) option" where
  "first_match r s pos [] = None"
| "first_match r s pos (i # is) =
     (case match_ends r s i of [] \<Rightarrow> first_match r s pos is | e # _ \<Rightarrow> Some (i, e))"

definition find_from :: "regex \<Rightarrow> string \<Rightarrow> nat \<Rightarrow> (nat \<times> nat) option" where
  "find_from r s pos = first_match r s pos [pos..<Suc (length s)]"

definition match_string :: "regex \<Rightarrow> string \<Rightarrow> bool" where
  "match_string r s = (find_from r s 0 \<noteq> None)"

text \<open>\<^verbatim>\<open>ReplaceAllStringFunc\<close> with a function that also counts: \<open>last_end\<close> is the end of the
  last match, \<open>pos\<close> where the search goes on.\<close>

function replace_loop :: "regex \<Rightarrow> (string \<Rightarrow> string \<times> nat) \<Rightarrow> string \<Rightarrow> nat \<Rightarrow> nat \<Rightarrow> string \<times> nat" where
  "replace_loop r f s last_end pos =
     (if length s < pos then (drop last_end s, 0)
      else case find_from r s pos of
        None \<Rightarrow> (drop last_end s, 0)
      | Some (a, b) \<Rightarrow>
        let lit = take (a - last_end) (drop last_end s);
            rep = (if last_end < b \<or> a = 0 then f (take (b - a) (drop a s)) else ([], 0));
            rest = replace_loop r f s b (if b < pos + 1 then pos + 1 else b)
        in (lit @ fst rep @ fst rest, snd rep + snd rest))"
  by pat_completeness auto
termination
  by (relation "measure (\<lambda>(r, f, s, e, pos). Suc (length s) - pos)") auto

declare replace_loop.simps [simp del]

definition ReplaceAllStringFunc :: "regex \<Rightarrow> (string \<Rightarrow> string \<times> nat) \<Rightarrow> string \<Rightarrow> string \<times> nat" where
  "ReplaceAllStringFunc r f s = replace_loop r f s 0 0"

section \<open>The built-in patterns (patterns.go)\<close>

fun rseq :: "regex list \<Rightarrow> regex" where
  "rseq [] = REps"
| "rseq [r] = r"
| "rseq (r # rs) = RSeq r (rseq rs)"

definition rlit :: "string \<Rightarrow> regex" where
  "rlit t = rseq (map (\<lambda>c. RSet (\<lambda>x. x = c)) t)"

definition emailRe :: regex where
  "emailRe = rseq [RBound, RRep (RSet (\<lambda>c. is_alpha c \<or> is_digit c \<or> c \<in> set ''._%+-'')) 1 None, rlit ''@'',
     RRep (RSet (\<lambda>c. is_alpha c \<or> is_digit c \<or> c \<in> set ''.-'')) 1 None, rlit ''.'', RRep (RSet is_alpha) 2 None, RBound]"

definition ssnRe :: regex where
  "ssnRe = rseq [RBound, RRep (RSet is_digit) 3 (Some 3), rlit ''-'', RRep (RSet is_digit) 2 (Some 2), rlit ''-'',
     RRep (RSet is_digit) 4 (Some 4), RBound]"

definition creditCardRe :: regex where
  "creditCardRe = rseq [RBound, RRep (RSeq (RSet is_digit) (RRep (RSet (\<lambda>c. c \<in> set '' -'')) 0 (Some 1))) 12 (Some 18),
     RSet is_digit, RBound]"

definition apiKeyRe :: regex where
  "apiKeyRe = rseq [RBound,
     RAlt (rseq [rlit ''sk-'', RRep (RSet (\<lambda>c. is_alpha c \<or> is_digit c \<or> c \<in> set ''_-'')) 20 None])
       (RAlt (rseq [rlit ''AKIA'', RRep (RSet (\<lambda>c. is_digit c \<or> is_upper c)) 16 (Some 16)])
         (rseq [rlit ''gh'', RSet (\<lambda>c. c \<in> set ''pousr''), rlit ''_'', RRep (RSet (\<lambda>c. is_alpha c \<or> is_digit c)) 20 None])),
     RBound]"

text \<open>\<^verbatim>\<open>luhnValid\<close>: the digits without spaces and dashes, None for any other byte; then the
  checksum, doubling every second digit from the right.\<close>

fun luhn_digits :: "string \<Rightarrow> nat list option" where
  "luhn_digits [] = Some []"
| "luhn_digits (r # s) =
     (if r = CHR '' '' \<or> r = CHR ''-'' then luhn_digits s
      else if is_digit r then map_option ((#) (of_char r - 48)) (luhn_digits s)
      else None)"

fun luhn_sum :: "bool \<Rightarrow> nat list \<Rightarrow> nat" where
  "luhn_sum double [] = 0"
| "luhn_sum double (d # ds) =
     (let d' = (if double then (if 9 < d * 2 then d * 2 - 9 else d * 2) else d)
      in d' + luhn_sum (\<not> double) ds)"

definition luhnValid :: "string \<Rightarrow> bool" where
  "luhnValid s =
     (case luhn_digits s of
        None \<Rightarrow> False
      | Some digits \<Rightarrow>
        if length digits < 13 \<or> 19 < length digits then False
        else luhn_sum False (rev digits) mod 10 = 0)"

record builtin =
  biName :: string
  biRe :: regex
  biValidate :: "(string \<Rightarrow> bool) option"

definition builtins :: "builtin list" where
  "builtins =
     [\<lparr>biName = ''email'', biRe = emailRe, biValidate = None\<rparr>,
      \<lparr>biName = ''ssn'', biRe = ssnRe, biValidate = None\<rparr>,
      \<lparr>biName = ''credit_card'', biRe = creditCardRe, biValidate = Some luhnValid\<rparr>,
      \<lparr>biName = ''api_key'', biRe = apiKeyRe, biValidate = None\<rparr>]"

section \<open>Configuration (redaction.go)\<close>

record CustomPattern =
  cpName :: string
  cpPattern :: string

record redaction_config =
  rcEnabled :: bool
  rcDisabledPatterns :: "string list"
  rcCustomPatterns :: "CustomPattern list"

record rawConfig =
  rwEnabled :: "bool option"
  rwDisabledPatterns :: "string list"
  rwCustomPatterns :: "CustomPattern list"

definition DefaultConfig :: redaction_config where
  "DefaultConfig = \<lparr>rcEnabled = True, rcDisabledPatterns = [], rcCustomPatterns = []\<rparr>"

definition MaxCustomPatterns :: nat where
  "MaxCustomPatterns = 50"

fun check_custom :: "(string \<Rightarrow> regex result) \<Rightarrow> CustomPattern list \<Rightarrow> go_error option" where
  "check_custom compile [] = None"
| "check_custom compile (cp # cps) =
     (if trim_space (cpName cp) = [] then Some (ErrText ''redaction: custom_patterns entry has an empty name'')
      else case compile (cpPattern cp) of
        Inl err \<Rightarrow> Some (Wrapped (''redaction: custom pattern '' @ go_quote (cpName cp) @ '' does not compile'') err)
      | Inr re \<Rightarrow>
        if match_string re []
        then Some (ErrText (''redaction: custom pattern '' @ go_quote (cpName cp)
               @ '' matches the empty string -- refine it to match a real value, not every position''))
        else check_custom compile cps)"

definition ParseConfig :: "(string \<Rightarrow> rawConfig result) \<Rightarrow> (string \<Rightarrow> regex result) \<Rightarrow> string \<Rightarrow> redaction_config result" where
  "ParseConfig unmarshal compile raw =
     (if raw = [] \<or> trim_space raw = ''null'' then Inr DefaultConfig
      else case unmarshal raw of
        Inl err \<Rightarrow> Inl (Wrapped ''redaction: invalid redaction_rules'' err)
      | Inr rc \<Rightarrow>
        (let cfg = \<lparr>rcEnabled = (rwEnabled rc = None \<or> rwEnabled rc = Some True),
                    rcDisabledPatterns = rwDisabledPatterns rc, rcCustomPatterns = rwCustomPatterns rc\<rparr>
         in if MaxCustomPatterns < length (rcCustomPatterns cfg)
            then Inl (ErrText (''redaction: at most '' @ show_nat MaxCustomPatterns @ '' custom_patterns are allowed, got ''
                   @ show_nat (length (rcCustomPatterns cfg))))
            else case check_custom compile (rcCustomPatterns cfg) of
              Some err \<Rightarrow> Inl err
            | None \<Rightarrow> Inr cfg))"

section \<open>Masking (redact.go)\<close>

definition maskToken :: "string \<Rightarrow> string" where
  "maskToken name = ''[REDACTED:'' @ to_upper name @ '']''"

type_synonym compiledCustom = "string \<times> regex"

definition redact_builtin :: "string set \<Rightarrow> builtin \<Rightarrow> string \<times> nat \<Rightarrow> string \<times> nat" where
  "redact_builtin disabled b sn =
     (if biName b \<in> disabled then sn
      else let r = ReplaceAllStringFunc (biRe b)
                     (\<lambda>m. if (case biValidate b of None \<Rightarrow> False | Some v \<Rightarrow> \<not> v m) then (m, 0)
                          else (maskToken (biName b), 1)) (fst sn)
           in (fst r, snd sn + snd r))"

definition redact_custom :: "compiledCustom \<Rightarrow> string \<times> nat \<Rightarrow> string \<times> nat" where
  "redact_custom c sn =
     (let r = ReplaceAllStringFunc (snd c) (\<lambda>m. (maskToken (fst c), 1)) (fst sn)
      in (fst r, snd sn + snd r))"

definition redactString :: "string set \<Rightarrow> compiledCustom list \<Rightarrow> string \<Rightarrow> nat \<Rightarrow> string \<times> nat" where
  "redactString disabled custom s n =
     fold redact_custom custom (fold (redact_builtin disabled) builtins (s, n))"

text \<open>The walk over the tree, threading the count through arrays and objects.\<close>

fun redactValue :: "string set \<Rightarrow> compiledCustom list \<Rightarrow> json \<Rightarrow> nat \<Rightarrow> json \<times> nat"
  and redact_list :: "string set \<Rightarrow> compiledCustom list \<Rightarrow> json list \<Rightarrow> nat \<Rightarrow> json list \<times> nat"
  and redact_fields :: "string set \<Rightarrow> compiledCustom list \<Rightarrow> (string \<times> json) list \<Rightarrow> nat \<Rightarrow> (string \<times> json) list \<times> nat" where
  "redactValue disabled custom (JObj kvs) n = map_prod JObj id (redact_fields disabled custom kvs n)"
| "redactValue disabled custom (JArr vs) n = map_prod JArr id (redact_list disabled custom vs n)"
| "redactValue disabled custom (JStr s) n = map_prod JStr id (redactString disabled custom s n)"
| "redactValue disabled custom JNull n = (JNull, n)"
| "redactValue disabled custom (JBool b) n = (JBool b, n)"
| "redactValue disabled custom (JNum q) n = (JNum q, n)"
| "redact_list disabled custom [] n = ([], n)"
| "redact_list disabled custom (v # vs) n =
     (let r = redactValue disabled custom v n; rs = redact_list disabled custom vs (snd r) in (fst r # fst rs, snd rs))"
| "redact_fields disabled custom [] n = ([], n)"
| "redact_fields disabled custom ((k, v) # kvs) n =
     (let r = redactValue disabled custom v n; rs = redact_fields disabled custom kvs (snd r) in ((k, fst r) # fst rs, snd rs))"

fun compile_custom :: "(string \<Rightarrow> regex result) \<Rightarrow> CustomPattern list \<Rightarrow> compiledCustom list result" where
  "compile_custom compile [] = Inr []"
| "compile_custom compile (cp # cps) =
     (case compile (cpPattern cp) of
        Inl err \<Rightarrow> Inl (Wrapped (''redaction: custom pattern '' @ go_quote (cpName cp) @ '' does not compile'') err)
      | Inr re \<Rightarrow>
        (case compile_custom compile cps of Inl err \<Rightarrow> Inl err | Inr cs \<Rightarrow> Inr ((cpName cp, re) # cs)))"

definition Redact :: "(string \<Rightarrow> regex result) \<Rightarrow> params \<Rightarrow> redaction_config \<Rightarrow> (params \<times> nat) result" where
  "Redact compile params cfg =
     (case params of
        None \<Rightarrow> Inr (None, 0)
      | Some kvs \<Rightarrow>
        if \<not> rcEnabled cfg then Inr (params, 0)
        else case compile_custom compile (rcCustomPatterns cfg) of
          Inl err \<Rightarrow> Inl err
        | Inr custom \<Rightarrow>
          (case redactValue (set (rcDisabledPatterns cfg)) custom (JObj kvs) 0 of
             (JObj out, n) \<Rightarrow> Inr (Some out, n)
           | _ \<Rightarrow> Inl (ErrText ''redaction: internal error -- redacted root was not a map'')))"

section \<open>Matches and replacement\<close>

lemma rep_ends_bounds:
  assumes "\<forall>i\<le>n. \<forall>j\<in>set (f i). i \<le> j \<and> j \<le> n" "i \<le> n" "j \<in> set (rep_ends f m k i)"
  shows "i \<le> j \<and> j \<le> n"
  using assms
proof (induction f m k i rule: rep_ends.induct)
  case (1 f m k i)
  obtain l where l: "l \<in> set (f i)" "j \<in> set (rep_ends f m k l)" using 1(4) by auto
  have il: "i \<le> l" "l \<le> n" using 1(2,3) l(1) by blast+
  have "l \<le> j \<and> j \<le> n" by (rule 1(1) [OF l(1) 1(2) il(2) l(2)])
  with il(1) show ?case by linarith
next
  case (2 f i)
  show ?case using 2(2,3) by simp
next
  case (3 f k i)
  show ?case
  proof (cases "j = i")
    case True
    with 3(3) show ?thesis by simp
  next
    case False
    with 3(4) obtain l where l: "l \<in> set (filter (\<lambda>j. i < j) (f i))" "j \<in> set (rep_ends f 0 k l)" by auto
    then have "l \<in> set (f i)" by simp
    then have il: "i \<le> l" "l \<le> n" using 3(2,3) by blast+
    have "l \<le> j \<and> j \<le> n" by (rule 3(1) [OF l(1) 3(2) il(2) l(2)])
    with il(1) show ?thesis by linarith
  qed
qed

lemma match_ends_bounds:
  "\<forall>i\<le>length s. \<forall>j\<in>set (match_ends r s i). i \<le> j \<and> j \<le> length s"
proof (induction r)
  case (RSeq a b)
  show ?case
  proof (intro allI impI ballI)
    fix i j
    assume i: "i \<le> length s" and "j \<in> set (match_ends (RSeq a b) s i)"
    then obtain l where l: "l \<in> set (match_ends a s i)" "j \<in> set (match_ends b s l)" by auto
    have "i \<le> l" "l \<le> length s" using RSeq(1) i l(1) by blast+
    moreover from this(2) have "l \<le> j" "j \<le> length s" using RSeq(2) l(2) by blast+
    ultimately show "i \<le> j \<and> j \<le> length s" by linarith
  qed
next
  case (RAlt a b)
  show ?case unfolding match_ends.simps set_append using RAlt by blast
next
  case (RRep a m n)
  show ?case
  proof (intro allI impI ballI)
    fix i j
    assume i: "i \<le> length s" and j: "j \<in> set (match_ends (RRep a m n) s i)"
    show "i \<le> j \<and> j \<le> length s"
      by (rule rep_ends_bounds [OF RRep i j [unfolded match_ends.simps]])
  qed
qed (auto split: if_splits)

lemma first_match_Some: "first_match r s pos is = Some (a, b) \<Longrightarrow> a \<in> set is \<and> b \<in> set (match_ends r s a)"
  by (induction "is") (auto split: list.splits)

lemma find_from_bounds:
  assumes "find_from r s pos = Some (a, b)"
  shows "pos \<le> a \<and> a \<le> b \<and> b \<le> length s"
proof -
  from first_match_Some [OF assms [unfolded find_from_def]]
  have "pos \<le> a" "a \<le> length s" "b \<in> set (match_ends r s a)" by auto
  with match_ends_bounds [of s r] show ?thesis by blast
qed

text \<open>A replacement function that counts every change makes an honest count.\<close>

definition honest :: "(string \<Rightarrow> string \<times> nat) \<Rightarrow> bool" where
  "honest f = (\<forall>m. snd (f m) = 0 \<longrightarrow> fst (f m) = m)"

lemma drop_split: "e \<le> a \<Longrightarrow> a \<le> b \<Longrightarrow>
    take (a - e) (drop e s) @ take (b - a) (drop a s) @ drop b s = drop e s"
  by (metis append_take_drop_id drop_drop le_add_diff_inverse2)

lemma replace_loop_zero:
  "last_end \<le> pos \<Longrightarrow> honest f \<Longrightarrow> snd (replace_loop r f s last_end pos) = 0 \<Longrightarrow>
     fst (replace_loop r f s last_end pos) = drop last_end s"
proof (induction r f s last_end pos rule: replace_loop.induct)
  case (1 r f s last_end pos)
  show ?case
  proof (cases "length s < pos")
    case True
    then show ?thesis by (simp add: replace_loop.simps)
  next
    case pos: False
    show ?thesis
    proof (cases "find_from r s pos")
      case None
      then show ?thesis using pos by (subst replace_loop.simps) simp
    next
      case (Some ab)
      then obtain a b where ab: "find_from r s pos = Some (a, b)" by (cases ab) simp
      note bd = find_from_bounds [OF ab]
      let ?pos = "if b < pos + 1 then pos + 1 else b"
      let ?rep = "if last_end < b \<or> a = 0 then f (take (b - a) (drop a s)) else ([], 0)"
      have eq: "replace_loop r f s last_end pos =
          (take (a - last_end) (drop last_end s) @ fst ?rep @ fst (replace_loop r f s b ?pos),
           snd ?rep + snd (replace_loop r f s b ?pos))"
        using pos ab by (subst replace_loop.simps) (simp add: Let_def)
      have z: "snd ?rep = 0" "snd (replace_loop r f s b ?pos) = 0"
        using 1(4) eq by simp_all
      have "fst (replace_loop r f s b ?pos) = drop b s"
        by (rule 1(1) [OF pos ab refl refl refl]) (use z(2) bd 1(3) in auto)
      moreover have "fst ?rep = take (b - a) (drop a s)"
        using z(1) 1(3) bd 1(2) by (auto simp: honest_def)
      ultimately show ?thesis
        using eq drop_split [of last_end a b s] bd 1(2) by simp
    qed
  qed
qed

text \<open>A step of the scan never lowers the count, and changes nothing without raising it.\<close>

definition counts :: "(string \<times> nat \<Rightarrow> string \<times> nat) \<Rightarrow> bool" where
  "counts g = (\<forall>s n. n \<le> snd (g (s, n)) \<and> (snd (g (s, n)) = n \<longrightarrow> fst (g (s, n)) = s))"

lemma ReplaceAllStringFunc_zero: "honest f \<Longrightarrow> snd (ReplaceAllStringFunc r f s) = 0 \<Longrightarrow> fst (ReplaceAllStringFunc r f s) = s"
  using replace_loop_zero [of 0 0 f r s] by (simp add: ReplaceAllStringFunc_def)

lemma counts_builtin: "counts (redact_builtin disabled b)"
proof -
  let ?f = "\<lambda>m. if (case biValidate b of None \<Rightarrow> False | Some v \<Rightarrow> \<not> v m) then (m, 0) else (maskToken (biName b), 1)"
  have "honest ?f" by (auto simp: honest_def)
  then show ?thesis
    using ReplaceAllStringFunc_zero [of ?f "biRe b"] by (auto simp: counts_def redact_builtin_def Let_def)
qed

lemma counts_custom: "counts (redact_custom c)"
proof -
  have "honest (\<lambda>m. (maskToken (fst c), 1))" by (auto simp: honest_def)
  then show ?thesis
    using ReplaceAllStringFunc_zero [of "\<lambda>m. (maskToken (fst c), 1)" "snd c"] by (auto simp: counts_def redact_custom_def Let_def)
qed

lemma counts_comp:
  assumes "counts g" "counts h"
  shows "counts (\<lambda>x. h (g x))"
  unfolding counts_def
proof (intro allI conjI impI)
  fix s n
  have g: "n \<le> snd (g (s, n))" "snd (g (s, n)) = n \<Longrightarrow> fst (g (s, n)) = s"
    using assms(1) by (simp_all add: counts_def)
  have h: "snd (g (s, n)) \<le> snd (h (g (s, n)))" "snd (h (g (s, n))) = snd (g (s, n)) \<Longrightarrow> fst (h (g (s, n))) = fst (g (s, n))"
    using assms(2) by (metis counts_def prod.collapse)+
  show "n \<le> snd (h (g (s, n)))" using g h by linarith
  assume "snd (h (g (s, n))) = n"
  with g h have "snd (h (g (s, n))) = snd (g (s, n))" "snd (g (s, n)) = n" by linarith+
  with g h show "fst (h (g (s, n))) = s" by simp
qed

lemma counts_fold: "(\<And>x. x \<in> set xs \<Longrightarrow> counts (g x)) \<Longrightarrow> counts (fold g xs)"
proof (induction xs)
  case Nil
  then show ?case by (simp add: counts_def)
next
  case (Cons x xs)
  have "counts (\<lambda>sn. fold g xs (g x sn))" by (rule counts_comp) (use Cons in auto)
  then show ?case by (simp add: comp_def)
qed

lemma redactString_counts:
  "n \<le> snd (redactString disabled custom s n) \<and> (snd (redactString disabled custom s n) = n \<longrightarrow> fst (redactString disabled custom s n) = s)"
proof -
  have "counts (\<lambda>sn. fold redact_custom custom (fold (redact_builtin disabled) builtins sn))"
    by (rule counts_comp [of "fold (redact_builtin disabled) builtins" "fold redact_custom custom",
          OF counts_fold [OF counts_builtin] counts_fold [OF counts_custom]])
  then show ?thesis unfolding counts_def redactString_def by blast
qed

lemma counts_pair:
  fixes n m l :: nat
  assumes "n \<le> m" "m = n \<Longrightarrow> P" "m \<le> l" "l = m \<Longrightarrow> Q" "c = l" "P \<Longrightarrow> Q \<Longrightarrow> R"
  shows "n \<le> c \<and> (c = n \<longrightarrow> R)"
  using assms by auto

lemma redactValue_counts:
  "n \<le> snd (redactValue disabled custom v n) \<and> (snd (redactValue disabled custom v n) = n \<longrightarrow> fst (redactValue disabled custom v n) = v)"
  "n \<le> snd (redact_list disabled custom vs n) \<and> (snd (redact_list disabled custom vs n) = n \<longrightarrow> fst (redact_list disabled custom vs n) = vs)"
  "n \<le> snd (redact_fields disabled custom kvs n) \<and> (snd (redact_fields disabled custom kvs n) = n \<longrightarrow> fst (redact_fields disabled custom kvs n) = kvs)"
proof (induction disabled custom v n and disabled custom vs n and disabled custom kvs n
    rule: redactValue_redact_list_redact_fields.induct)
  case (3 disabled custom s n)
  then show ?case using redactString_counts [of n disabled custom s] by simp
next
  case (8 disabled custom v vs n)
  let ?r = "redactValue disabled custom v n"
  have r: "n \<le> snd ?r" "snd ?r = n \<Longrightarrow> fst ?r = v" using 8(1) by blast+
  have rs: "snd ?r \<le> snd (redact_list disabled custom vs (snd ?r))"
    "snd (redact_list disabled custom vs (snd ?r)) = snd ?r \<Longrightarrow> fst (redact_list disabled custom vs (snd ?r)) = vs"
    using 8(2) [OF refl] by blast+
  show ?case by (rule counts_pair [OF r rs]) (simp_all add: Let_def)
next
  case (10 disabled custom k v kvs n)
  let ?r = "redactValue disabled custom v n"
  have r: "n \<le> snd ?r" "snd ?r = n \<Longrightarrow> fst ?r = v" using 10(1) by blast+
  have rs: "snd ?r \<le> snd (redact_fields disabled custom kvs (snd ?r))"
    "snd (redact_fields disabled custom kvs (snd ?r)) = snd ?r \<Longrightarrow> fst (redact_fields disabled custom kvs (snd ?r)) = kvs"
    using 10(2) [OF refl] by blast+
  show ?case by (rule counts_pair [OF r rs]) (simp_all add: Let_def)
qed auto

lemma redact_fields_keys: "map fst (fst (redact_fields disabled custom kvs n)) = map fst kvs"
  by (induction kvs arbitrary: n) (auto simp: Let_def)

section \<open>Properties\<close>

text \<open>The redaction count is honest. Redaction keeps every key of the request, and when
  it reports zero redacted items the request that goes out is the one that came in; the
  count that is written to the audit log therefore never hides a change.\<close>

theorem redaction_count_honest:
  assumes "Redact compile params cfg = Inr (out, n)"
  shows "(n = 0 \<longrightarrow> out = params) \<and> map_option (map fst) out = map_option (map fst) params"
proof (cases params)
  case None
  with assms show ?thesis by (simp add: Redact_def)
next
  case (Some kvs)
  show ?thesis
  proof (cases "rcEnabled cfg")
    case False
    with assms Some show ?thesis by (auto simp: Redact_def)
  next
    case True
    with assms Some obtain custom where
      m: "redactValue (set (rcDisabledPatterns cfg)) custom (JObj kvs) 0 = (JObj (the out), n)" "out \<noteq> None"
      by (auto simp: Redact_def simp del: redactValue.simps split: sum.splits prod.splits json.splits)
    then have
      r: "out = Some (fst (redact_fields (set (rcDisabledPatterns cfg)) custom kvs 0))"
        "n = snd (redact_fields (set (rcDisabledPatterns cfg)) custom kvs 0)"
      by (auto simp: prod_eq_iff)
    with Some redactValue_counts(3) [of 0 "set (rcDisabledPatterns cfg)" custom kvs]
    show ?thesis by (simp add: redact_fields_keys)
  qed
qed

theorem redaction_count_honest_witness:
  "(\<exists>out n. Redact (\<lambda>_. Inl (ErrText [])) (Some [(''prompt'', JStr ''hi'')]) DefaultConfig = Inr (out, n)
      \<and> map_option (map fst) out = Some [''prompt''])"
proof -
  obtain out n where r: "Redact (\<lambda>_. Inl (ErrText [])) (Some [(''prompt'', JStr ''hi'')]) DefaultConfig = Inr (out, n)"
    by (auto simp: Redact_def DefaultConfig_def Let_def split: prod.splits)
  from redaction_count_honest [OF this] r show ?thesis by auto
qed

lemma luhn_digits_append:
  "luhn_digits (a @ b) = (case luhn_digits a of None \<Rightarrow> None | Some x \<Rightarrow> map_option ((@) x) (luhn_digits b))"
proof (induction a)
  case Nil
  then show ?case by (cases "luhn_digits b") simp_all
next
  case (Cons c a)
  then show ?case by (cases "luhn_digits b"; cases "luhn_digits a") simp_all
qed

lemma luhn_sum_append:
  "luhn_sum dbl (a @ b) = luhn_sum dbl a + luhn_sum (dbl \<noteq> odd (length a)) b"
proof (induction a arbitrary: dbl)
  case (Cons d a)
  have "((\<not> dbl) \<noteq> odd (length a)) = (dbl \<noteq> odd (length (d # a)))" by simp
  then show ?case by (simp only: append_Cons luhn_sum.simps Let_def Cons.IH)
qed simp

definition luhn_step :: "bool \<Rightarrow> nat \<Rightarrow> nat" where
  "luhn_step dbl d = (if dbl then (if 9 < d * 2 then d * 2 - 9 else d * 2) else d)"

lemma luhn_step_bound: "d \<le> 9 \<Longrightarrow> luhn_step dbl d \<le> 9"
  by (auto simp: luhn_step_def)

lemma luhn_step_inj: "d \<le> 9 \<Longrightarrow> d' \<le> 9 \<Longrightarrow> luhn_step dbl d = luhn_step dbl d' \<Longrightarrow> d = d'"
  by (auto simp: luhn_step_def split: if_splits) presburger+

lemma mod10_cancel:
  fixes p q z :: nat
  assumes "(z + p) mod 10 = 0" "(z + q) mod 10 = 0" "p \<le> 9" "q \<le> 9"
  shows "p = q"
proof -
  have "10 dvd z + p" "10 dvd z + q" using assms(1,2) by auto
  then have "10 dvd (z + p) - (z + q)" "10 dvd (z + q) - (z + p)"
    by (blast intro: dvd_diff_nat)+
  then have "10 dvd p - q" "10 dvd q - p" by simp_all
  moreover have "p - q < 10" "q - p < 10" using assms(3,4) by linarith+
  ultimately have "p - q = 0" "q - p = 0" using nat_dvd_not_less by blast+
  then show ?thesis by simp
qed

lemma digit_value: "is_digit c \<Longrightarrow> (of_char c :: nat) - 48 \<le> 9 \<and> c \<noteq> CHR '' '' \<and> c \<noteq> CHR ''-''"
  by (auto simp: is_digit_def in_range_def)

lemma digit_value_inj: "is_digit c \<Longrightarrow> is_digit c' \<Longrightarrow> (of_char c :: nat) - 48 = of_char c' - 48 \<Longrightarrow> c = c'"
  by (auto simp: is_digit_def in_range_def) (metis char_of_char eq_diff_iff le_antisym nat_le_linear)

text \<open>The card checksum detects every single-digit error. A card-shaped text that passes
  the check fails it after any one digit is replaced by a different digit, with whatever
  spaces and dashes around it.\<close>

theorem luhn_detects_digit_error:
  assumes "luhnValid (a @ c # b)" "is_digit c" "is_digit c'" "c \<noteq> c'"
  shows "\<not> luhnValid (a @ c' # b)"
proof
  assume v': "luhnValid (a @ c' # b)"
  from assms(1) obtain x y where xy: "luhn_digits a = Some x" "luhn_digits b = Some y"
    using digit_value [OF assms(2)] assms(2)
    by (auto simp: luhnValid_def luhn_digits_append split: option.splits)
  let ?d = "of_char c - 48 :: nat" and ?d' = "of_char c' - 48 :: nat"
  have digits: "luhn_digits (a @ c # b) = Some (x @ ?d # y)" "luhn_digits (a @ c' # b) = Some (x @ ?d' # y)"
    using xy digit_value [OF assms(2)] digit_value [OF assms(3)] assms(2,3) by (simp_all add: luhn_digits_append)
  let ?dbl = "False \<noteq> odd (length (rev y))"
  let ?z = "luhn_sum False (rev y) + luhn_sum (\<not> ?dbl) (rev x)"
  have sum: "luhn_sum False (rev (x @ e # y)) = ?z + luhn_step ?dbl e" for e
    by (simp add: luhn_sum_append luhn_step_def Let_def)
  have z: "(?z + luhn_step ?dbl ?d) mod 10 = 0" "(?z + luhn_step ?dbl ?d') mod 10 = 0"
    using assms(1) v' by (auto simp only: luhnValid_def digits option.case sum split: if_splits)
  have "luhn_step ?dbl ?d = luhn_step ?dbl ?d'"
    by (rule mod10_cancel [OF z]) (use luhn_step_bound digit_value assms(2,3) in blast)+
  then have "?d = ?d'"
    using luhn_step_inj digit_value assms(2,3) by blast
  with digit_value_inj assms show False by blast
qed

theorem luhn_detects_digit_error_witness:
  "\<not> luhnValid (''4111 1111 1111 11'' @ CHR ''2'' # ''1'')"
  by (rule luhn_detects_digit_error [of _ "CHR ''1''"])
    (simp_all add: luhnValid_def is_digit_def in_range_def Let_def)

text \<open>The values of a request are scanned, its keys are not.\<close>

lemma keys_are_sent_unredacted:
  "Redact compile (Some [(''123-45-6789'', JBool True)]) DefaultConfig = Inr (Some [(''123-45-6789'', JBool True)], 0)"
  by (simp add: Redact_def DefaultConfig_def Let_def)

text \<open>The order of the built-in patterns matters where their matches overlap.\<close>

lemma builtin_order_email_first:
  "fst (fold (redact_builtin {''credit_card'', ''api_key''}) builtins (''123-45-6789@x.co'', 0)) = ''[REDACTED:EMAIL]''"
  by code_simp

lemma builtin_order_ssn_first:
  "fst (fold (redact_builtin {''credit_card'', ''api_key''}) (rev builtins) (''123-45-6789@x.co'', 0)) = ''[REDACTED:SSN]@x.co''"
  by code_simp

end
