(* ===== verification/Http_Client.thy ===== *)
theory Http_Client
  imports Gateway_Prelude
begin

text \<open>
  The part of Go's \<^verbatim>\<open>net/http.Client\<close> that the program relies on wherever it sets neither
  \<^verbatim>\<open>CheckRedirect\<close> nor a cookie jar: \<^verbatim>\<open>Do\<close> sends the request, and as long as the answer is a
  redirect it sends another one to the place the answer names, ten requests at most. What a
  server answers is a parameter, and so are the operations of \<^verbatim>\<open>net/url\<close>; a body can be sent
  again, since the program makes all of them from byte slices. The type of a body is left open.
\<close>

section \<open>Requests and answers\<close>

record 'b http_request =
  hcMethod :: string
  hcURL :: string
  hcHeaders :: "(string \<times> string) list"
  hcBody :: "'b option"

text \<open>The answer to one request: status, \<^verbatim>\<open>Location\<close> header (empty when there is none) and the
  outcome of reading the body.\<close>

datatype http_answer =
    NoAnswer go_error
  | Answer int string "string result"

text \<open>\<open>cvSend\<close> answers the n-th request of a use of the client. Of \<^verbatim>\<open>net/url\<close>: \<open>cvResolve\<close> parses
  a location relative to a URL, \<open>cvHost\<close> and \<open>cvHostname\<close> read the host with its port and the
  name in ASCII, \<open>cvReferer\<close> the \<^verbatim>\<open>Referer\<close> header for a move. \<open>cvLegacy\<close> are the releases
  before 1.25, which send a body again after a hop that dropped it and keep the headers that
  describe it.\<close>

record 'b http_client =
  cvSend :: "nat \<Rightarrow> 'b http_request \<Rightarrow> http_answer"
  cvResolve :: "string \<Rightarrow> string \<Rightarrow> string option"
  cvHost :: "string \<Rightarrow> string"
  cvHostname :: "string \<Rightarrow> string"
  cvReferer :: "string \<Rightarrow> string \<Rightarrow> string"
  cvLegacy :: bool

section \<open>Redirects\<close>

text \<open>The method of the next request, whether there is one, and whether it keeps the body.\<close>

definition redirectBehavior :: "string \<Rightarrow> int \<Rightarrow> string \<times> bool \<times> bool" where
  "redirectBehavior meth status =
     (if status \<in> {301, 302, 303} then (if meth \<noteq> ''GET'' \<and> meth \<noteq> ''HEAD'' then ''GET'' else meth, True, False)
      else if status \<in> {307, 308} then (meth, True, True)
      else ([], False, False))"

definition isDomainOrSubdomain :: "string \<Rightarrow> string \<Rightarrow> bool" where
  "isDomainOrSubdomain sub parent =
     (sub = parent
      \<or> (CHR '':'' \<notin> set sub \<and> CHR ''%'' \<notin> set sub \<and> length parent < length sub \<and> drop (length sub - length parent) sub = parent
         \<and> sub ! (length sub - length parent - 1) = CHR ''.''))"

text \<open>Whether the headers with credentials may go along from the first URL to another.\<close>

definition same_site :: "'b http_client \<Rightarrow> string \<Rightarrow> string \<Rightarrow> bool" where
  "same_site cv initial dest =
     (cvHost cv initial = cvHost cv dest \<or> isDomainOrSubdomain (cvHostname cv dest) (cvHostname cv initial))"

definition sensitive_header :: "string \<Rightarrow> bool" where
  "sensitive_header k = (to_lower k \<in> set [''authorization'', ''www-authenticate'', ''cookie'', ''cookie2'',
     ''proxy-authorization'', ''proxy-authenticate''])"

definition body_header :: "string \<Rightarrow> bool" where
  "body_header k = (to_lower k \<in> set [''content-encoding'', ''content-language'', ''content-location'', ''content-type''])"

definition copy_headers :: "bool \<Rightarrow> bool \<Rightarrow> (string \<times> string) list \<Rightarrow> (string \<times> string) list" where
  "copy_headers strip drop_body hs =
     filter (\<lambda>(k, _). \<not> (strip \<and> sensitive_header k) \<and> \<not> (drop_body \<and> body_header k)) hs"

definition with_referer :: "string \<Rightarrow> (string \<times> string) list \<Rightarrow> (string \<times> string) list" where
  "with_referer ref hs = (if ref = [] then hs else filter (\<lambda>(k, _). to_lower k \<noteq> ''referer'') hs @ [(''Referer'', ref)])"

text \<open>The request after a redirect of \<open>prev\<close> to \<open>u\<close>, made from the first one.\<close>

definition next_request :: "'b http_client \<Rightarrow> 'b http_request \<Rightarrow> 'b http_request \<Rightarrow> string \<Rightarrow> string \<Rightarrow> bool \<Rightarrow> bool \<Rightarrow> 'b http_request" where
  "next_request cv first prev meth u strip keep =
     \<lparr>hcMethod = meth, hcURL = u,
      hcHeaders = with_referer (cvReferer cv (hcURL prev) u) (copy_headers strip (\<not> keep \<and> \<not> cvLegacy cv) (hcHeaders first)),
      hcBody = (if keep then hcBody first else None)\<rparr>"

text \<open>The loop: \<open>room\<close> requests may still be sent, \<open>strip\<close> and \<open>keep\<close> are what earlier hops
  decided on credentials and body. The result is the status and the body of the last answer,
  with the requests that were sent.\<close>

fun follow ::
  "'b http_client \<Rightarrow> 'b http_request \<Rightarrow> nat \<Rightarrow> nat \<Rightarrow> 'b http_request \<Rightarrow> bool \<Rightarrow> bool
     \<Rightarrow> (go_error + int \<times> string result) \<times> 'b http_request list" where
  "follow cv first n 0 req strip keep = (Inl (ErrText ''stopped after 10 redirects''), [])"
| "follow cv first n (Suc room) req strip keep =
     (case cvSend cv n req of
        NoAnswer err \<Rightarrow> (Inl err, [req])
      | Answer status loc body \<Rightarrow>
        (case redirectBehavior (hcMethod req) status of (meth, redirect, keepHop) \<Rightarrow>
           if \<not> redirect \<or> loc = [] then (Inr (status, body), [req])
           else case cvResolve cv (hcURL req) loc of
             None \<Rightarrow> (Inl (ErrText (''failed to parse Location header '' @ go_quote loc)), [req])
           | Some u \<Rightarrow>
             let keep' = (keepHop \<and> (keep \<or> cvLegacy cv));
                 strip' = (strip \<or> \<not> same_site cv (hcURL first) u)
             in case follow cv first (Suc n) room (next_request cv first req meth u strip' keep') strip' keep' of
                  (res, sent) \<Rightarrow> (res, req # sent)))"

definition client_Do :: "'b http_client \<Rightarrow> 'b http_request \<Rightarrow> (go_error + int \<times> string result) \<times> 'b http_request list" where
  "client_Do cv req = follow cv req 0 10 req False True"

section \<open>What is sent\<close>

text \<open>A request that an answer to the one before asked for.\<close>

definition redirected_to :: "'b http_client \<Rightarrow> nat \<Rightarrow> 'b http_request \<Rightarrow> string \<Rightarrow> bool" where
  "redirected_to cv n req u = (\<exists>status loc body. cvSend cv n req = Answer status loc body \<and> status \<in> {301, 302, 303, 307, 308}
     \<and> loc \<noteq> [] \<and> cvResolve cv (hcURL req) loc = Some u)"

definition chain_of :: "'b http_client \<Rightarrow> nat \<Rightarrow> 'b http_request list \<Rightarrow> bool" where
  "chain_of cv n sent = (\<forall>i. Suc i < length sent \<longrightarrow> redirected_to cv (n + i) (sent ! i) (hcURL (sent ! Suc i)))"

lemma chain_of_Cons: "chain_of cv n (req # sent) \<longleftrightarrow> chain_of cv (Suc n) sent \<and> (sent \<noteq> [] \<longrightarrow> redirected_to cv n req (hcURL (hd sent)))"
  (is "?L \<longleftrightarrow> ?R")
proof
  assume l: ?L
  have "redirected_to cv n req (hcURL (hd sent))" if "sent \<noteq> []"
    using spec [OF l [unfolded chain_of_def], of 0] that by (simp add: hd_conv_nth)
  moreover have "chain_of cv (Suc n) sent"
    using spec [OF l [unfolded chain_of_def], of "Suc _"] by (simp add: chain_of_def)
  ultimately show ?R by blast
next
  assume r: ?R
  have "redirected_to cv (n + i) ((req # sent) ! i) (hcURL ((req # sent) ! Suc i))" if "Suc i < length (req # sent)" for i
  proof (cases i)
    case 0
    then show ?thesis using r that by (cases sent) (auto simp: hd_conv_nth)
  next
    case (Suc j)
    then show ?thesis using r that by (simp add: chain_of_def)
  qed
  then show ?L by (simp add: chain_of_def)
qed

lemma redirectBehavior_status: "redirectBehavior meth status = (m, True, k) \<Longrightarrow> status \<in> {301, 302, 303, 307, 308}"
  by (auto simp: redirectBehavior_def split: if_splits)

lemma follow_head: "follow cv first n (Suc room) req strip keep = (res, sent) \<Longrightarrow> sent \<noteq> [] \<and> hd sent = req"
  by (auto simp: Let_def split: http_answer.splits prod.splits if_splits option.splits)

lemma follow_Nil: "follow cv first n room req strip keep = (res, sent) \<Longrightarrow> sent \<noteq> [] \<Longrightarrow> hd sent = req"
  by (cases room; simp only: follow.simps(1) prod.inject; use follow_head in \<open>blast\<close>)

text \<open>The cases of a turn.\<close>

lemma follow_cases:
  assumes "follow cv first n (Suc room) req strip keep = (res, sent)"
  obtains (last) "sent = [req]" "\<And>st b. res = Inr (st, b) \<Longrightarrow> \<exists>loc. cvSend cv n req = Answer st loc b"
  | (hop) u meth strip' keep' sent' where "redirected_to cv n req u" "strip' \<longleftrightarrow> strip \<or> \<not> same_site cv (hcURL first) u"
      "follow cv first (Suc n) room (next_request cv first req meth u strip' keep') strip' keep' = (res, sent')" "sent = req # sent'"
proof (cases "cvSend cv n req")
  case (NoAnswer err)
  then show thesis by (intro last) (use assms in auto)
next
  case (Answer status loc body)
  obtain meth redirect keepHop where r: "redirectBehavior (hcMethod req) status = (meth, redirect, keepHop)" by (metis prod.exhaust)
  show thesis
  proof (cases "redirect \<and> loc \<noteq> []")
    case False
    then show thesis by (intro last) (use assms Answer r in auto)
  next
    case True
    show thesis
    proof (cases "cvResolve cv (hcURL req) loc")
      case None
      then show thesis by (intro last) (use assms Answer r True in auto)
    next
      case (Some u)
      let ?keep = "keepHop \<and> (keep \<or> cvLegacy cv)" and ?strip = "strip \<or> \<not> same_site cv (hcURL first) u"
      obtain res' sent' where f: "follow cv first (Suc n) room (next_request cv first req meth u ?strip ?keep) ?strip ?keep = (res', sent')"
        by (metis prod.exhaust)
      have "redirected_to cv n req u"
        using Answer True Some redirectBehavior_status [of "hcMethod req" status meth keepHop] r by (auto simp: redirected_to_def)
      moreover have "res' = res" "sent = req # sent'" using assms Answer r True Some f by (simp_all add: Let_def)
      ultimately show thesis using hop [of u ?strip meth ?keep sent'] f by simp
    qed
  qed
qed

lemma follow_length: "follow cv first n room req strip keep = (res, sent) \<Longrightarrow> length sent \<le> room"
proof (induction room arbitrary: n req strip keep sent)
  case (Suc room)
  from Suc.prems show ?case by (cases rule: follow_cases) (auto dest: Suc.IH)
qed simp

lemma follow_chain: "follow cv first n room req strip keep = (res, sent) \<Longrightarrow> chain_of cv n sent"
proof (induction room arbitrary: n req strip keep sent)
  case (Suc room)
  from Suc.prems show ?case
  proof (cases rule: follow_cases)
    case last
    then show ?thesis by (simp add: chain_of_def)
  next
    case (hop u meth strip' keep' sent')
    then show ?thesis using Suc.IH [OF hop(3)] follow_Nil [OF hop(3)] by (auto simp: chain_of_Cons next_request_def)
  qed
qed (simp add: chain_of_def)

text \<open>No body other than the first one is ever sent.\<close>

lemma follow_body:
  "follow cv first n room req strip keep = (res, sent) \<Longrightarrow> hcBody req \<in> {None, hcBody first} \<Longrightarrow> w \<in> set sent \<Longrightarrow> hcBody w \<in> {None, hcBody first}"
proof (induction room arbitrary: n req strip keep sent)
  case (Suc room)
  from Suc.prems(1) show ?case
  proof (cases rule: follow_cases)
    case last
    then show ?thesis using Suc.prems(2,3) by simp
  next
    case (hop u meth strip' keep' sent')
    have "hcBody (next_request cv first req meth u strip' keep') \<in> {None, hcBody first}" by (simp add: next_request_def)
    then show ?thesis using Suc.IH [OF hop(3)] Suc.prems(2,3) hop(4) by auto
  qed
qed simp

text \<open>A header with credentials only goes to the site of the first request, and has the value it
  had there.\<close>

lemma follow_sensitive:
  "follow cv first n room req strip keep = (res, sent)
    \<Longrightarrow> (\<forall>(k, v)\<in>set (hcHeaders req). sensitive_header k \<longrightarrow> (k, v) \<in> set (hcHeaders first) \<and> \<not> strip \<and> same_site cv (hcURL first) (hcURL req))
    \<Longrightarrow> w \<in> set sent \<Longrightarrow> (k, v) \<in> set (hcHeaders w) \<Longrightarrow> sensitive_header k
    \<Longrightarrow> (k, v) \<in> set (hcHeaders first) \<and> same_site cv (hcURL first) (hcURL w)"
proof (induction room arbitrary: n req strip keep sent)
  case (Suc room)
  from Suc.prems(1) show ?case
  proof (cases rule: follow_cases)
    case last
    then show ?thesis using Suc.prems(2-) by auto
  next
    case (hop u meth strip' keep' sent')
    let ?next = "next_request cv first req meth u strip' keep'"
    have ref: "\<not> sensitive_header ''Referer''" by (simp add: sensitive_header_def to_lower_def lower_char_def)
    have "\<forall>(k, v)\<in>set (hcHeaders ?next). sensitive_header k \<longrightarrow> (k, v) \<in> set (hcHeaders first) \<and> \<not> strip' \<and> same_site cv (hcURL first) (hcURL ?next)"
      using hop(2) ref by (auto simp: next_request_def with_referer_def copy_headers_def split: if_splits)
    then show ?thesis using Suc.IH [OF hop(3)] Suc.prems(2-) hop(4) by auto
  qed
qed simp

text \<open>The status that is returned is the answer to the last request.\<close>

lemma follow_result:
  "follow cv first n room req strip keep = (Inr (status, body), sent) \<Longrightarrow>
     sent \<noteq> [] \<and> (\<exists>loc. cvSend cv (n + length sent - 1) (last sent) = Answer status loc body)"
proof (induction room arbitrary: n req strip keep sent)
  case (Suc room)
  from Suc.prems show ?case
  proof (cases rule: follow_cases)
    case last
    then show ?thesis by auto
  next
    case (hop u meth strip' keep' sent')
    then show ?thesis using Suc.IH [OF hop(3)] by auto
  qed
qed simp

text \<open>What a use of the client sends: a request to the URL given, then at most nine more, each to
  the place that the answer to the one before named.\<close>

lemma client_Do_sent:
  assumes "client_Do cv req = (res, sent)"
  shows "sent \<noteq> []" "hd sent = req" "length sent \<le> 10" "chain_of cv 0 sent" "\<forall>w\<in>set sent. hcBody w = None \<or> hcBody w = hcBody req"
    "\<forall>w\<in>set sent. \<forall>(k, v)\<in>set (hcHeaders w). sensitive_header k \<longrightarrow> (k, v) \<in> set (hcHeaders req) \<and> same_site cv (hcURL req) (hcURL w)"
proof -
  have f: "follow cv req 0 (Suc 9) req False True = (res, sent)" using assms by (simp add: client_Do_def eval_nat_numeral)
  show "sent \<noteq> []" "hd sent = req" using follow_head [OF f] by blast+
  show "length sent \<le> 10" using follow_length [OF f] by simp
  show "chain_of cv 0 sent" by (rule follow_chain [OF f])
  show "\<forall>w\<in>set sent. hcBody w = None \<or> hcBody w = hcBody req" using follow_body [OF f] by auto
  have "\<forall>(k, v)\<in>set (hcHeaders req). sensitive_header k \<longrightarrow> (k, v) \<in> set (hcHeaders req) \<and> \<not> False \<and> same_site cv (hcURL req) (hcURL req)"
    by (auto simp: same_site_def)
  from follow_sensitive [OF f this]
  show "\<forall>w\<in>set sent. \<forall>(k, v)\<in>set (hcHeaders w). sensitive_header k \<longrightarrow> (k, v) \<in> set (hcHeaders req) \<and> same_site cv (hcURL req) (hcURL w)"
    by blast
qed

lemma client_Do_status:
  assumes "client_Do cv req = (Inr (status, body), sent)"
  shows "\<exists>n loc. cvSend cv n (last sent) = Answer status loc body"
  using follow_result [of cv req 0 10 req False True status body sent] assms unfolding client_Do_def by blast

text \<open>When the answer is no redirect, the request given is the only one.\<close>

lemma client_Do_plain:
  assumes "cvSend cv 0 req = Answer status loc body" "status \<notin> {301, 302, 303, 307, 308}"
  shows "client_Do cv req = (Inr (status, body), [req])"
  using assms by (simp add: client_Do_def eval_nat_numeral redirectBehavior_def)

end
