(* ===== verification/Tool_Routing.thy ===== *)
theory Tool_Routing
  imports Redaction Http_Client
begin

text \<open>
  Where an allowed call goes: connector lookup and dispatch
  (\<^verbatim>\<open>eami-gateway/internal/toolrouter\<close>, \<^verbatim>\<open>internal/aiprovider\<close>, \<^verbatim>\<open>internal/proxy\<close>) and the
  resolution helpers of \<^verbatim>\<open>cmd/gateway/main.go\<close>. Every operation that talks to the network
  returns its calls of the HTTP client, the requests it hands to \<^verbatim>\<open>client.Do\<close>; what the client
  sends for each of them, redirects included, is \<open>wire_calls\<close>. The record \<open>http_env\<close> holds what
  the outside answers: whether a request can be built, the client and the servers behind it, the
  AEAD of the cipher and the JSON decoders of stored credentials and mappings. Encoding a decoded JSON value cannot fail,
  so a request body is the value itself.
\<close>

section \<open>The network\<close>

type_synonym http_call = "json http_request"

record Credentials =
  crAPIKey :: string
  crOAuthClientID :: string
  crOAuthClientSecret :: string
  crConnectionString :: string

record ActionPathEntry =
  apPath :: string
  apMethod :: string
  apInputSchema :: "(string \<times> json) list option"

record http_env =
  heNewRequest :: "string \<Rightarrow> string \<Rightarrow> go_error option" \<comment> \<open>http.NewRequest on method and URL\<close>
  heClient :: "json http_client"
  heBase64 :: "string \<Rightarrow> string"
  heOpen :: "string \<Rightarrow> string \<Rightarrow> string result" \<comment> \<open>aead.Open on nonce and ciphertext\<close>
  heNonceSize :: nat
  heCreds :: "string \<Rightarrow> Credentials option"
  heProviderKey :: "string \<Rightarrow> string option" \<comment> \<open>the api_key of stored provider credentials\<close>
  hePaths :: "string \<Rightarrow> (string \<times> ActionPathEntry) list result"
  heRules :: "string \<Rightarrow> rawConfig result"
  heCompile :: "string \<Rightarrow> regex result"

definition maxResponseSize :: nat where
  "maxResponseSize = 10 * 1024 * 1024"

record ToolRequest =
  trToolName :: string
  trAction :: string
  trParams :: params
  trSessionID :: string

record ToolResponse =
  tsStatus :: int
  tsBody :: string

text \<open>The JSON envelope, with \<^verbatim>\<open>omitempty\<close> on parameters and session.\<close>

definition downstreamRequest :: "ToolRequest \<Rightarrow> json" where
  "downstreamRequest req = JObj
     ([(''tool'', JStr (trToolName req)), (''action'', JStr (trAction req))]
      @ (case trParams req of None \<Rightarrow> [] | Some kvs \<Rightarrow> if kvs = [] then [] else [(''params'', JObj kvs)])
      @ (if trSessionID req = [] then [] else [(''session_id'', JStr (trSessionID req))]))"

text \<open>The common tail of every dispatch: send, read at most the cap, refuse statuses of 400 and above.\<close>

definition send_call :: "http_env \<Rightarrow> string \<Rightarrow> string \<Rightarrow> string \<Rightarrow> (int \<Rightarrow> string) \<Rightarrow> http_call \<Rightarrow> (int \<times> string) result" where
  "send_call env doMsg readMsg ctxt downMsg c =
     (case fst (client_Do (heClient env) c) of
        Inl err \<Rightarrow> Inl (Wrapped (doMsg @ ctxt) err)
      | Inr (status, Inl err) \<Rightarrow> Inl (Wrapped readMsg err)
      | Inr (status, Inr body) \<Rightarrow>
        (let raw = take maxResponseSize body in
         if 400 \<le> status then Inl (ErrText (downMsg status @ ctxt @ '': '' @ raw)) else Inr (status, raw)))"

text \<open>The requests that leave for the calls of an operation.\<close>

definition wire_calls :: "http_env \<Rightarrow> http_call list \<Rightarrow> http_call list" where
  "wire_calls env calls = concat (map (\<lambda>c. snd (client_Do (heClient env) c)) calls)"

definition call_context :: "ToolRequest \<Rightarrow> string" where
  "call_context req = '' (tool='' @ trToolName req @ '' action='' @ trAction req @ '')''"

section \<open>The static proxy (proxy.go)\<close>

definition proxy_Forward :: "http_env \<Rightarrow> string \<Rightarrow> ToolRequest \<Rightarrow> ToolResponse result \<times> http_call list" where
  "proxy_Forward env downstreamURL req =
     (let url = downstreamURL @ ''/v1/mcp/tool_call'' in
      case heNewRequest env ''POST'' url of
        Some err \<Rightarrow> (Inl (Wrapped ''proxy: create request'' err), [])
      | None \<Rightarrow>
        (let c = \<lparr>hcMethod = ''POST'', hcURL = url, hcHeaders = [(''Content-Type'', ''application/json'')],
                  hcBody = Some (downstreamRequest req)\<rparr>
         in (case send_call env ''proxy: downstream request failed'' ''proxy: read downstream response'' (call_context req)
                 (\<lambda>st. ''proxy: downstream error '' @ show_int st) c of
               Inl err \<Rightarrow> Inl err
             | Inr (st, raw) \<Rightarrow> Inr \<lparr>tsStatus = st, tsBody = raw\<rparr>, [c])))"

section \<open>Connector rows and credentials\<close>

record gateway_tool_row =
  gtID :: uuid
  gtOrgID :: uuid
  gtName :: string
  gtType :: string
  gtAuthType :: string
  gtBaseURL :: "string option"
  gtCredentialsEncrypted :: string
  gtActionPaths :: string
  gtProvider :: "string option"
  gtAuditMode :: string
  gtDataHandling :: string
  gtRedactionRules :: string

record ToolRow =
  twID :: uuid
  twType :: string
  twAuthType :: string
  twBaseURL :: "string option"
  twCredentialsEncrypted :: string
  twActionPaths :: "(string \<times> ActionPathEntry) list"

definition Decrypt :: "http_env \<Rightarrow> string \<Rightarrow> string result" where
  "Decrypt env blob =
     (if length blob < heNonceSize env then Inl (ErrText ''toolrouter: ciphertext shorter than nonce'')
      else case heOpen env (take (heNonceSize env) blob) (drop (heNonceSize env) blob) of
        Inl err \<Rightarrow> Inl (Wrapped ''toolrouter: decrypt'' err)
      | Inr plaintext \<Rightarrow> Inr plaintext)"

definition no_credentials :: Credentials where
  "no_credentials = \<lparr>crAPIKey = [], crOAuthClientID = [], crOAuthClientSecret = [], crConnectionString = []\<rparr>"

text \<open>The credentials of a row; \<open>who\<close> names it in errors, \<open>cipher\<close> says whether a key is configured.\<close>

definition row_credentials :: "http_env \<Rightarrow> bool \<Rightarrow> string \<Rightarrow> string \<Rightarrow> Credentials result" where
  "row_credentials env cipher who blob =
     (if blob = [] then Inr no_credentials
      else if \<not> cipher then Inl (ErrText (who @ '' has stored credentials but no decryption key is configured''))
      else case Decrypt env blob of
        Inl err \<Rightarrow> Inl (Wrapped (who @ '' credentials could not be decrypted'') err)
      | Inr plaintext \<Rightarrow>
        (case heCreds env plaintext of
           None \<Rightarrow> Inl (ErrText (who @ '' stored credentials are not in the expected shape''))
         | Some creds \<Rightarrow> Inr creds))"

section \<open>REST connectors (toolrouter/router.go)\<close>

definition tool_Resolve :: "http_env \<Rightarrow> go_error option \<Rightarrow> gateway_tool_row list \<Rightarrow> uuid \<Rightarrow> string \<Rightarrow> ToolRow result" where
  "tool_Resolve env dbErr tools orgID name =
     (case dbErr of
        Some err \<Rightarrow> Inl (Wrapped (''toolrouter: query tool '' @ go_quote name) err)
      | None \<Rightarrow>
        (case List.find (\<lambda>g. gtOrgID g = orgID \<and> gtName g = name) tools of
           None \<Rightarrow> Inl (Sentinel ErrNotFound)
         | Some g \<Rightarrow>
           (let t = \<lparr>twID = gtID g, twType = gtType g, twAuthType = gtAuthType g, twBaseURL = gtBaseURL g,
                     twCredentialsEncrypted = gtCredentialsEncrypted g, twActionPaths = []\<rparr>
            in if gtActionPaths g = [] then Inr t
               else case hePaths env (gtActionPaths g) of
                 Inl err \<Rightarrow> Inl (Wrapped (''toolrouter: tool '' @ go_quote name @ '' has malformed action_paths'') err)
               | Inr paths \<Rightarrow> Inr (t\<lparr>twActionPaths := paths\<rparr>))))"

definition trim_right_slash :: "string \<Rightarrow> string" where
  "trim_right_slash s = rev (dropWhile (\<lambda>c. c = CHR ''/'') (rev s))"

definition joinURLPath :: "string \<Rightarrow> string \<Rightarrow> string" where
  "joinURLPath base path = trim_right_slash base @ ''/'' @ dropWhile (\<lambda>c. c = CHR ''/'') path"

text \<open>The method and URL of an action: the mapped ones, or a flat POST when nothing is mapped.\<close>

definition action_target :: "ToolRow \<Rightarrow> string \<Rightarrow> string \<Rightarrow> (string \<times> string) result" where
  "action_target row base action =
     (if twActionPaths row = [] then Inr (''POST'', base)
      else case map_of (twActionPaths row) action of
        None \<Rightarrow> Inl (ErrText (''toolrouter: tool '' @ twID row @ '' has action mappings defined but none for action ''
                 @ go_quote action @ '' -- refusing to fall back to base_url for an unmapped action''))
      | Some entry \<Rightarrow>
        Inr (if apMethod entry \<noteq> [] then to_upper (apMethod entry) else ''POST'', joinURLPath base (apPath entry)))"

definition auth_headers :: "http_env \<Rightarrow> Credentials \<Rightarrow> (string \<times> string) list" where
  "auth_headers env creds =
     (if crAPIKey creds \<noteq> [] then [(''Authorization'', ''Bearer '' @ crAPIKey creds)]
      else if crOAuthClientID creds \<noteq> [] \<and> crOAuthClientSecret creds \<noteq> []
      then [(''Authorization'', ''Basic '' @ heBase64 env (crOAuthClientID creds @ '':'' @ crOAuthClientSecret creds))]
      else [])"

definition tool_Forward :: "http_env \<Rightarrow> bool \<Rightarrow> ToolRow option \<Rightarrow> ToolRequest \<Rightarrow> ToolResponse result \<times> http_call list" where
  "tool_Forward env cipher rowp req =
     (case rowp of
        None \<Rightarrow> (Inl (ErrText ''toolrouter: Forward called with a nil row''), [])
      | Some row \<Rightarrow>
        if twType row \<noteq> ''rest_api'' then
          (Inl (ErrText (''toolrouter: Forward called for non-rest_api tool type '' @ go_quote (twType row)
             @ '' (id='' @ twID row @ '')'')), [])
        else case twBaseURL row of
          None \<Rightarrow> (Inl (ErrText (''toolrouter: tool '' @ twID row @ '' has no base_url configured'')), [])
        | Some base \<Rightarrow>
          if base = [] then (Inl (ErrText (''toolrouter: tool '' @ twID row @ '' has no base_url configured'')), [])
          else case row_credentials env cipher (''toolrouter: tool '' @ twID row) (twCredentialsEncrypted row) of
            Inl err \<Rightarrow> (Inl err, [])
          | Inr creds \<Rightarrow>
            (case action_target row base (trAction req) of
               Inl err \<Rightarrow> (Inl err, [])
             | Inr (method, targetURL) \<Rightarrow>
               (case heNewRequest env method targetURL of
                  Some err \<Rightarrow> (Inl (Wrapped ''toolrouter: create request'' err), [])
                | None \<Rightarrow>
                  (let c = \<lparr>hcMethod = method, hcURL = targetURL,
                            hcHeaders = (''Content-Type'', ''application/json'') # auth_headers env creds,
                            hcBody = Some (downstreamRequest req)\<rparr>
                   in (case send_call env ''toolrouter: request failed'' ''toolrouter: read response'' (call_context req)
                           (\<lambda>st. ''toolrouter: downstream error '' @ show_int st) c of
                         Inl err \<Rightarrow> Inl err
                       | Inr (st, raw) \<Rightarrow> Inr \<lparr>tsStatus = st, tsBody = raw\<rparr>, [c])))))"

section \<open>AI provider connectors (aiprovider)\<close>

record ai_row =
  aiID :: uuid
  aiProvider :: string
  aiAuthType :: string
  aiCredentialsEncrypted :: string
  aiAuditMode :: string
  aiDataHandling :: string
  aiRedactionRules :: string

record provider_request =
  prAction :: string
  prParams :: params

type_synonym adapter = "http_env \<Rightarrow> string \<Rightarrow> provider_request \<Rightarrow> ToolResponse result \<times> http_call list"

definition claudeAPIVersion :: string where
  "claudeAPIVersion = ''2023-06-01''"

definition claudeMessagesURL :: string where
  "claudeMessagesURL = ''https://api.anthropic.com/v1/messages''"

definition params_json :: "params \<Rightarrow> json" where
  "params_json p = (case p of None \<Rightarrow> JNull | Some kvs \<Rightarrow> JObj kvs)"

definition claude_Dispatch :: adapter where
  "claude_Dispatch env apiKey req =
     (if prAction req \<noteq> ''messages'' then
        (Inl (ErrText (''aiprovider/claude: unsupported action '' @ go_quote (prAction req)
           @ '' (only '' @ go_quote ''messages'' @ '' is implemented)'')), [])
      else if apiKey = [] then (Inl (ErrText ''aiprovider/claude: no api_key configured for this connector''), [])
      else case heNewRequest env ''POST'' claudeMessagesURL of
        Some err \<Rightarrow> (Inl (Wrapped ''aiprovider/claude: create request'' err), [])
      | None \<Rightarrow>
        (let c = \<lparr>hcMethod = ''POST'', hcURL = claudeMessagesURL,
                  hcHeaders = [(''Content-Type'', ''application/json''), (''x-api-key'', apiKey),
                               (''anthropic-version'', claudeAPIVersion)],
                  hcBody = Some (params_json (prParams req))\<rparr>
         in (case send_call env ''aiprovider/claude: request failed'' ''aiprovider/claude: read response'' []
                 (\<lambda>st. ''aiprovider/claude: downstream error '' @ show_int st) c of
               Inl err \<Rightarrow> Inl err
             | Inr (st, raw) \<Rightarrow> Inr \<lparr>tsStatus = st, tsBody = raw\<rparr>, [c])))"

definition claude_registry :: "string \<rightharpoonup> adapter" where
  "claude_registry = [''claude'' \<mapsto> claude_Dispatch]"

definition ai_Resolve :: "go_error option \<Rightarrow> gateway_tool_row list \<Rightarrow> uuid \<Rightarrow> string \<Rightarrow> ai_row result" where
  "ai_Resolve dbErr tools orgID name =
     (case dbErr of
        Some err \<Rightarrow> Inl (Wrapped (''aiprovider: query connector '' @ go_quote name) err)
      | None \<Rightarrow>
        (case List.find (\<lambda>g. gtOrgID g = orgID \<and> gtName g = name \<and> gtType g = ''ai_provider'') tools of
           None \<Rightarrow> Inl (Sentinel ErrNotFound)
         | Some g \<Rightarrow> Inr \<lparr>aiID = gtID g, aiProvider = (case gtProvider g of None \<Rightarrow> [] | Some p \<Rightarrow> p),
                         aiAuthType = gtAuthType g, aiCredentialsEncrypted = gtCredentialsEncrypted g,
                         aiAuditMode = gtAuditMode g, aiDataHandling = gtDataHandling g,
                         aiRedactionRules = gtRedactionRules g\<rparr>))"

definition provider_key :: "http_env \<Rightarrow> bool \<Rightarrow> string \<Rightarrow> string \<Rightarrow> string result" where
  "provider_key env cipher who blob =
     (if blob = [] then Inr []
      else if \<not> cipher then Inl (ErrText (who @ '' has stored credentials but no decryption key is configured''))
      else case Decrypt env blob of
        Inl err \<Rightarrow> Inl (Wrapped (who @ '' credentials could not be decrypted'') err)
      | Inr plaintext \<Rightarrow>
        (case heProviderKey env plaintext of
           None \<Rightarrow> Inl (ErrText (who @ '' stored credentials are not in the expected shape''))
         | Some key \<Rightarrow> Inr key))"

definition ai_Dispatch ::
  "http_env \<Rightarrow> bool \<Rightarrow> (string \<rightharpoonup> adapter) \<Rightarrow> ai_row option \<Rightarrow> string \<Rightarrow> params
     \<Rightarrow> (ToolResponse result \<times> nat) \<times> http_call list" where
  "ai_Dispatch env cipher registry rowp action params =
     (case rowp of
        None \<Rightarrow> ((Inl (ErrText ''aiprovider: Dispatch called with a nil row''), 0), [])
      | Some row \<Rightarrow>
        if aiProvider row = [] then
          ((Inl (ErrText (''aiprovider: connector '' @ aiID row @ '' has no provider configured'')), 0), [])
        else case registry (aiProvider row) of
          None \<Rightarrow> ((Inl (ErrText (''aiprovider: connector '' @ aiID row @ '' has provider '' @ go_quote (aiProvider row)
                     @ '', which is not a registered adapter'')), 0), [])
        | Some ad \<Rightarrow>
          (case provider_key env cipher (''aiprovider: connector '' @ aiID row) (aiCredentialsEncrypted row) of
             Inl err \<Rightarrow> ((Inl err, 0), [])
           | Inr key \<Rightarrow>
             (case ParseConfig (heRules env) (heCompile env) (aiRedactionRules row) of
                Inl err \<Rightarrow> ((Inl (Wrapped (''aiprovider: connector '' @ aiID row) err), 0), [])
              | Inr cfg \<Rightarrow>
                (case Redact (heCompile env) params cfg of
                   Inl err \<Rightarrow> ((Inl (Wrapped (''aiprovider: connector '' @ aiID row @ '': redaction failed'') err), 0), [])
                 | Inr (redactedParams, redactedCount) \<Rightarrow>
                   (case ad env key \<lparr>prAction = action, prParams = redactedParams\<rparr> of
                      (resp, calls) \<Rightarrow> ((resp, redactedCount), calls))))))"

section \<open>Resolution for a call (main.go)\<close>

definition resolveDynamicTool :: "http_env \<Rightarrow> go_error option \<Rightarrow> gateway_tool_row list \<Rightarrow> uuid \<Rightarrow> string \<Rightarrow> ToolRow option" where
  "resolveDynamicTool env dbErr tools orgID tool =
     (if orgID = [] \<or> tool = [] then None
      else case tool_Resolve env dbErr tools orgID tool of
        Inl _ \<Rightarrow> None
      | Inr row \<Rightarrow> if twType row \<noteq> ''rest_api'' then None else Some row)"

definition resolveAIProviderTool :: "go_error option \<Rightarrow> gateway_tool_row list \<Rightarrow> uuid \<Rightarrow> string \<Rightarrow> ai_row option result" where
  "resolveAIProviderTool dbErr tools orgID tool =
     (if orgID = [] \<or> tool = [] then Inr None
      else case ai_Resolve dbErr tools orgID tool of
        Inl err \<Rightarrow> if errors_is ErrNotFound err then Inr None else Inl err
      | Inr row \<Rightarrow> Inr (Some row))"

record ToolDefinition =
  tdName :: string
  tdDescription :: string
  tdInputSchema :: "(string \<times> json) list"

definition action_definition :: "string \<Rightarrow> string \<times> ActionPathEntry \<Rightarrow> ToolDefinition" where
  "action_definition name ae =
     \<lparr>tdName = name @ ''/'' @ fst ae,
      tdDescription = apMethod (snd ae) @ '' '' @ apPath (snd ae) @ '' on connector '' @ go_quote name,
      tdInputSchema = (case apInputSchema (snd ae) of None \<Rightarrow> [(''type'', JStr ''object'')] | Some sch \<Rightarrow> sch)\<rparr>"

text \<open>\<open>dbErr\<close> is a failure of the query or while reading its rows; \<open>order\<close> is the iteration
  order of the action map.\<close>

definition tool_definitions ::
  "http_env \<Rightarrow> ((string \<times> ActionPathEntry) list \<Rightarrow> (string \<times> ActionPathEntry) list) \<Rightarrow> gateway_tool_row \<Rightarrow> ToolDefinition list" where
  "tool_definitions env order g =
     (if gtActionPaths g = [] then []
      else case hePaths env (gtActionPaths g) of
        Inl _ \<Rightarrow> []
      | Inr paths \<Rightarrow> map (action_definition (gtName g)) (order paths))"

definition listGatewayTools ::
  "http_env \<Rightarrow> ((string \<times> ActionPathEntry) list \<Rightarrow> (string \<times> ActionPathEntry) list) \<Rightarrow> go_error option
     \<Rightarrow> gateway_tool_row list \<Rightarrow> uuid \<Rightarrow> ToolDefinition list result" where
  "listGatewayTools env order dbErr tools orgID =
     (if orgID = [] then Inr []
      else case dbErr of
        Some err \<Rightarrow> Inl (Wrapped ''listGatewayTools: query'' err)
      | None \<Rightarrow> Inr (concat (map (tool_definitions env order)
                  (filter (\<lambda>g. gtOrgID g = orgID \<and> gtType g = ''rest_api'') tools))))"

section \<open>Token usage (main.go)\<close>

record usage_body =
  ubModel :: string
  ubInputTokens :: int
  ubOutputTokens :: int
  ubCacheCreationInputTokens :: int
  ubCacheReadInputTokens :: int
  ubEphemeral5m :: int
  ubEphemeral1h :: int

record tokenUsagePayload =
  tpOrgID :: string
  tpAgentID :: string
  tpAgentName :: string
  tpModel :: string
  tpToolName :: string
  tpInputTokens :: int
  tpOutputTokens :: int
  tpCacheCreation5mTokens :: int
  tpCacheCreation1hTokens :: int
  tpCacheReadTokens :: int
  tpRecordedAt :: string

text \<open>\<open>decode\<close> is \<^verbatim>\<open>json.Unmarshal\<close> into the response shape, absent fields being zero. The
  caller's organisation, agent id, agent name and tool are passed in.\<close>

definition extractTokenUsage ::
  "(string \<Rightarrow> usage_body option) \<Rightarrow> time \<Rightarrow> string \<Rightarrow> string \<times> string \<times> string \<times> string \<Rightarrow> tokenUsagePayload" where
  "extractTokenUsage decode now result who =
     (case who of (orgID, agentUUID, agentName, tool) \<Rightarrow>
      let p = \<lparr>tpOrgID = orgID, tpAgentID = agentUUID, tpAgentName = agentName, tpModel = [], tpToolName = tool,
               tpInputTokens = 0, tpOutputTokens = 0, tpCacheCreation5mTokens = 0, tpCacheCreation1hTokens = 0,
               tpCacheReadTokens = 0, tpRecordedAt = format_rfc3339 now\<rparr>
      in if result = [] then p
         else case decode result of
           None \<Rightarrow> p
         | Some u \<Rightarrow>
           (let q = p\<lparr>tpModel := ubModel u, tpInputTokens := ubInputTokens u, tpOutputTokens := ubOutputTokens u,
                      tpCacheReadTokens := ubCacheReadInputTokens u\<rparr>
            in if 0 < ubEphemeral5m u \<or> 0 < ubEphemeral1h u
               then q\<lparr>tpCacheCreation5mTokens := ubEphemeral5m u, tpCacheCreation1hTokens := ubEphemeral1h u\<rparr>
               else if 0 < ubCacheCreationInputTokens u
               then q\<lparr>tpCacheCreation5mTokens := ubCacheCreationInputTokens u\<rparr>
               else q))"

section \<open>Properties\<close>

text \<open>As texts: the base itself, or the base up to its closing slashes, a slash and a path.\<close>

definition below_base :: "string \<Rightarrow> string \<Rightarrow> bool" where
  "below_base base u = (u = base \<or> prefix (trim_right_slash base @ ''/'') u)"

lemma joinURLPath_below: "below_base base (joinURLPath base path)"
  by (simp add: joinURLPath_def below_base_def)

text \<open>What leaves for one call of the client.\<close>

definition confined_wire :: "http_env \<Rightarrow> http_call \<Rightarrow> http_call list \<Rightarrow> bool" where
  "confined_wire env c sent =
     (sent \<noteq> [] \<and> hd sent = c \<and> length sent \<le> 10 \<and> chain_of (heClient env) 0 sent
      \<and> (\<forall>w\<in>set sent. (hcBody w = None \<or> hcBody w = hcBody c)
           \<and> (\<forall>(k, v)\<in>set (hcHeaders w). sensitive_header k \<longrightarrow> same_site (heClient env) (hcURL c) (hcURL w))))"

lemma wire_single: "confined_wire env c (wire_calls env [c])"
proof -
  obtain res sent where d: "client_Do (heClient env) c = (res, sent)" by (metis prod.exhaust)
  show ?thesis
    using client_Do_sent(1-5) [OF d] client_Do_sent(6) [OF d] by (simp add: confined_wire_def wire_calls_def d) blast
qed

lemma tool_Forward_calls:
  assumes "tool_Forward env cipher (Some row) req = (res, calls)" "c \<in> set calls"
  obtains base where "calls = [c]" "twType row = ''rest_api''" "twBaseURL row = Some base"
    "below_base base (hcURL c)" "hcBody c = Some (downstreamRequest req)"
    "twActionPaths row = [] \<or> trAction req \<in> fst ` set (twActionPaths row)"
proof -
  from assms obtain base creds m u where b: "twType row = ''rest_api''" "twBaseURL row = Some base"
    and t: "action_target row base (trAction req) = Inr (m, u)"
    and c: "calls = [\<lparr>hcMethod = m, hcURL = u, hcHeaders = (''Content-Type'', ''application/json'') # auth_headers env creds,
              hcBody = Some (downstreamRequest req)\<rparr>]"
    by (auto simp: tool_Forward_def Let_def split: if_splits option.splits sum.splits prod.splits)
  have "below_base base u \<and> (twActionPaths row = [] \<or> trAction req \<in> fst ` set (twActionPaths row))"
  proof (cases "twActionPaths row = []")
    case True
    with t show ?thesis by (simp add: action_target_def below_base_def)
  next
    case False
    with t obtain e where "map_of (twActionPaths row) (trAction req) = Some e" "u = joinURLPath base (apPath e)"
      by (auto simp: action_target_def split: option.splits)
    then show ?thesis
      using map_of_SomeD [of "twActionPaths row"] joinURLPath_below [of base "apPath e"]
      by force
  qed
  with b c assms(2) show thesis by (intro that [of base]) auto
qed

lemma tool_Resolve_row:
  assumes "tool_Resolve env dbErr tools orgID name = Inr row"
  obtains g where "g \<in> set tools" "gtOrgID g = orgID" "gtName g = name" "twID row = gtID g"
    "twType row = gtType g" "twBaseURL row = gtBaseURL g"
proof -
  from assms obtain g where g: "List.find (\<lambda>g. gtOrgID g = orgID \<and> gtName g = name) tools = Some g"
    and r: "twID row = gtID g" "twType row = gtType g" "twBaseURL row = gtBaseURL g"
    by (auto simp: tool_Resolve_def Let_def split: option.splits if_splits sum.splits)
  from find_Some_set [OF g] r show thesis by (intro that [of g]) auto
qed


definition sample_client :: "json http_client" where
  "sample_client = \<lparr>cvSend = (\<lambda>_ _. Answer 200 [] (Inr ''ok'')), cvResolve = (\<lambda>_ loc. Some loc), cvHost = id, cvHostname = id,
     cvReferer = (\<lambda>_ _. []), cvLegacy = False\<rparr>"

lemma sample_client_Do: "client_Do sample_client c = (Inr (200, Inr ''ok''), [c])"
  using client_Do_plain [of sample_client c 200 "[]" "Inr ''ok''"] by (simp add: sample_client_def)

definition sample_env :: http_env where
  "sample_env = \<lparr>heNewRequest = (\<lambda>_ _. None), heClient = sample_client, heBase64 = id, heOpen = (\<lambda>_ t. Inr t),
     heNonceSize = 12, heCreds = (\<lambda>_. None), heProviderKey = (\<lambda>t. Some t), hePaths = (\<lambda>_. Inl (ErrText [])),
     heRules = (\<lambda>_. Inl (ErrText [])), heCompile = (\<lambda>_. Inl (ErrText []))\<rparr>"

definition sample_tool :: "string \<Rightarrow> gateway_tool_row" where
  "sample_tool ty = \<lparr>gtID = ''t1'', gtOrgID = ''o1'', gtName = ''crm'', gtType = ty, gtAuthType = ''api_key'',
     gtBaseURL = Some ''https://crm.example/'', gtCredentialsEncrypted = [], gtActionPaths = [], gtProvider = Some ''claude'',
     gtAuditMode = ''full'', gtDataHandling = ''unknown'', gtRedactionRules = []\<rparr>"

text \<open>A server that sends every request for the first connector on to another host.\<close>

definition moving_client :: "json http_client" where
  "moving_client = sample_client\<lparr>cvSend := (\<lambda>n _. if n = 0 then Answer 307 ''https://other.example/'' (Inr []) else Answer 200 [] (Inr ''ok''))\<rparr>"

lemma moving_client_Do:
  "client_Do moving_client c = (Inr (200, Inr ''ok''), [c, next_request moving_client c c (hcMethod c) ''https://other.example/''
     (\<not> same_site moving_client (hcURL c) ''https://other.example/'') True])"
  by (simp add: client_Do_def eval_nat_numeral moving_client_def sample_client_def redirectBehavior_def Let_def)


lemma claude_Dispatch_calls:
  "claude_Dispatch env key req = (res, calls) \<Longrightarrow> calls = [] \<or>
     (\<exists>c. calls = [c] \<and> hcURL c = claudeMessagesURL \<and> hcBody c = Some (params_json (prParams req)) \<and> key \<noteq> [])"
  by (auto simp: claude_Dispatch_def Let_def split: if_splits option.splits)



text \<open>The key of the provider is in a header of its own, which the client does not hold back: a
  redirect to another host takes the key and the redacted content there.\<close>

lemma redirect_takes_key_along:
  "\<exists>w\<in>set (wire_calls (sample_env\<lparr>heClient := moving_client\<rparr>)
      (snd (claude_Dispatch (sample_env\<lparr>heClient := moving_client\<rparr>) ''secret'' \<lparr>prAction = ''messages'', prParams = Some p\<rparr>))).
     hcURL w = ''https://other.example/'' \<and> (''x-api-key'', ''secret'') \<in> set (hcHeaders w) \<and> hcBody w = Some (JObj p)"
proof -
  let ?env = "sample_env\<lparr>heClient := moving_client\<rparr>"
  let ?c = "\<lparr>hcMethod = ''POST'', hcURL = claudeMessagesURL, hcHeaders = [(''Content-Type'', ''application/json''), (''x-api-key'', ''secret''),
      (''anthropic-version'', claudeAPIVersion)], hcBody = Some (JObj p)\<rparr>"
  have calls: "snd (claude_Dispatch ?env ''secret'' \<lparr>prAction = ''messages'', prParams = Some p\<rparr>) = [?c]"
    by (simp add: claude_Dispatch_def sample_env_def params_json_def Let_def)
  have r: "cvReferer moving_client = (\<lambda>_ _. [])" by (simp add: moving_client_def sample_client_def)
  have h: "\<not> sensitive_header ''x-api-key''" "\<not> body_header ''x-api-key''"
    by (simp_all add: sensitive_header_def body_header_def to_lower_def lower_char_def)
  show ?thesis
    unfolding calls by (simp add: wire_calls_def moving_client_Do next_request_def r with_referer_def copy_headers_def h)
qed

end
