(* ===== verification/Registry_Liveness.thy ===== *)
theory Registry_Liveness
  imports Gateway_Prelude
begin

text \<open>
  The registry of governed agents (\<^verbatim>\<open>eami-gateway/internal/registry\<close>): lookups by name,
  with their cache, and the per-call liveness check that every dispatch and every
  resumed approval runs. The three tables the queries read are one record; \<open>uuid_parse\<close>
  stands for \<^verbatim>\<open>uuid.Parse\<close> (None for an error), \<open>dbErr\<close> for a failing query.
\<close>

section \<open>Records and tables\<close>

record AgentRecord =
  agID :: uuid
  agOrgID :: uuid
  agName :: string
  agScope :: string
  agRiskTier :: string
  agStatus :: string
  agWorkspaceID :: string

record registry_db =
  gateway_agents :: "AgentRecord list"
  revoked_ai_tokens :: "string list"
  api_keys_revoked :: "(uuid \<times> bool) list"

datatype Liveness = Live | AgentNotActive | TokenRevoked

section \<open>Lookups (registry.go)\<close>

record cacheEntry =
  ceRecord :: AgentRecord
  ceExpiresAt :: time

definition cacheTTL :: duration where
  "cacheTTL = 30 * second"

definition checkStatus :: "string \<Rightarrow> go_error option" where
  "checkStatus status =
     (if status = ''suspended'' \<or> status = ''revoked''
      then Some (Wrapped (''status='' @ status) (Sentinel ErrAgentSuspended)) else None)"

text \<open>\<^verbatim>\<open>LIMIT 1\<close> returns any one of the matching rows; \<open>pick\<close> selects it.\<close>

definition limit_one :: "nat \<Rightarrow> 'a list \<Rightarrow> 'a option" where
  "limit_one pick rows = (if rows = [] then None else Some (rows ! (pick mod length rows)))"

definition queryByName :: "go_error option \<Rightarrow> nat \<Rightarrow> registry_db \<Rightarrow> string \<Rightarrow> AgentRecord result" where
  "queryByName dbErr pick db name =
     (case dbErr of
        Some err \<Rightarrow> Inl (Wrapped (''registry: query agent '' @ go_quote name) err)
      | None \<Rightarrow>
        (case limit_one pick (filter (\<lambda>a. agName a = name) (gateway_agents db)) of
           None \<Rightarrow> Inl (Wrapped name (Sentinel ErrAgentNotFound))
         | Some rec \<Rightarrow> Inr rec))"

text \<open>\<^verbatim>\<open>LookupByName\<close> returns a record together with a status error, so both components
  of the result may be present.\<close>

definition LookupByName ::
  "go_error option \<Rightarrow> nat \<Rightarrow> registry_db \<Rightarrow> time \<Rightarrow> string \<Rightarrow> (string \<rightharpoonup> cacheEntry)
     \<Rightarrow> (AgentRecord option \<times> go_error option) \<times> (string \<rightharpoonup> cacheEntry)" where
  "LookupByName dbErr pick db now name cache =
     (case cache name of
        Some e \<Rightarrow>
          if now < ceExpiresAt e then ((Some (ceRecord e), checkStatus (agStatus (ceRecord e))), cache)
          else (case queryByName dbErr pick db name of
                  Inl err \<Rightarrow> ((None, Some err), cache)
                | Inr rec \<Rightarrow> ((Some rec, checkStatus (agStatus rec)),
                              cache(name \<mapsto> \<lparr>ceRecord = rec, ceExpiresAt = now + cacheTTL\<rparr>)))
      | None \<Rightarrow>
          (case queryByName dbErr pick db name of
             Inl err \<Rightarrow> ((None, Some err), cache)
           | Inr rec \<Rightarrow> ((Some rec, checkStatus (agStatus rec)),
                         cache(name \<mapsto> \<lparr>ceRecord = rec, ceExpiresAt = now + cacheTTL\<rparr>))))"

definition Invalidate :: "string \<Rightarrow> (string \<rightharpoonup> cacheEntry) \<Rightarrow> (string \<rightharpoonup> cacheEntry)" where
  "Invalidate name cache = cache(name := None)"

definition LookupByNameAndOrg ::
  "go_error option \<Rightarrow> nat \<Rightarrow> registry_db \<Rightarrow> string \<Rightarrow> uuid \<Rightarrow> AgentRecord option \<times> go_error option" where
  "LookupByNameAndOrg dbErr pick db name orgID =
     (case dbErr of
        Some err \<Rightarrow> (None, Some (Wrapped (''registry: query agent '' @ go_quote name @ '' in org '' @ go_quote orgID) err))
      | None \<Rightarrow>
        (case limit_one pick (filter (\<lambda>a. agName a = name \<and> agOrgID a = orgID) (gateway_agents db)) of
           None \<Rightarrow> (None, Some (Wrapped name (Sentinel ErrAgentNotFound)))
         | Some rec \<Rightarrow> (Some rec, checkStatus (agStatus rec))))"

lemma limit_one_mem: "limit_one pick rows = Some x \<Longrightarrow> x \<in> set rows"
  by (auto simp: limit_one_def split: if_splits)

lemma LookupByNameAndOrg_ok:
  assumes "LookupByNameAndOrg dbErr pick db name orgID = (Some rec, None)"
  shows "rec \<in> set (gateway_agents db) \<and> agName rec = name \<and> agOrgID rec = orgID \<and> agStatus rec \<notin> {''suspended'', ''revoked''}"
  using assms limit_one_mem [of pick "filter (\<lambda>a. agName a = name \<and> agOrgID a = orgID) (gateway_agents db)" rec]
  by (auto simp: LookupByNameAndOrg_def checkStatus_def split: option.splits if_splits)

section \<open>Liveness (liveness.go)\<close>

text \<open>Agent ids are unique, so the row is the first one with the id and organisation.\<close>

definition live_row :: "registry_db \<Rightarrow> uuid \<Rightarrow> uuid \<Rightarrow> AgentRecord option" where
  "live_row db aid oid = List.find (\<lambda>a. agID a = aid \<and> agOrgID a = oid) (gateway_agents db)"

definition token_revoked :: "registry_db \<Rightarrow> string \<Rightarrow> uuid option \<Rightarrow> bool" where
  "token_revoked db jti key =
     ((jti \<noteq> [] \<and> jti \<in> set (revoked_ai_tokens db))
      \<or> (case key of None \<Rightarrow> False | Some k \<Rightarrow> (k, True) \<in> set (api_keys_revoked db)))"

definition CheckLive ::
  "(string \<Rightarrow> uuid option) \<Rightarrow> go_error option \<Rightarrow> registry_db \<Rightarrow> string \<Rightarrow> string \<Rightarrow> string \<Rightarrow> string
     \<Rightarrow> Liveness \<times> go_error option" where
  "CheckLive uuid_parse dbErr db agentID orgID jti keyID =
     (case (uuid_parse agentID, uuid_parse orgID) of
        (Some aid, Some oid) \<Rightarrow>
          if keyID \<noteq> [] \<and> uuid_parse keyID = None then (TokenRevoked, None)
          else (let key = (if keyID = [] then None else uuid_parse keyID) in
            case dbErr of
              Some err \<Rightarrow> (AgentNotActive, Some (Wrapped ''registry: liveness check'' err))
            | None \<Rightarrow>
              (case live_row db aid oid of
                 None \<Rightarrow> (AgentNotActive, None)
               | Some a \<Rightarrow>
                   if agStatus a \<noteq> ''active'' then (AgentNotActive, None)
                   else if token_revoked db jti key then (TokenRevoked, None)
                   else (Live, None)))
      | _ \<Rightarrow> (AgentNotActive, None))"

lemma CheckLive_Live:
  "CheckLive uuid_parse dbErr db agentID orgID jti keyID = (Live, e) \<longleftrightarrow>
     e = None \<and> dbErr = None
     \<and> (\<exists>aid oid a. uuid_parse agentID = Some aid \<and> uuid_parse orgID = Some oid
        \<and> live_row db aid oid = Some a \<and> agStatus a = ''active'')
     \<and> (keyID = [] \<or> uuid_parse keyID \<noteq> None)
     \<and> \<not> token_revoked db jti (if keyID = [] then None else uuid_parse keyID)"
  by (auto simp: CheckLive_def Let_def split: option.splits if_splits)

text \<open>Suspending or revoking an agent: what the API service writes.\<close>

definition set_agent_status :: "uuid \<Rightarrow> string \<Rightarrow> registry_db \<Rightarrow> registry_db" where
  "set_agent_status aid st db =
     db\<lparr>gateway_agents := map (\<lambda>a. if agID a = aid then a\<lparr>agStatus := st\<rparr> else a) (gateway_agents db)\<rparr>"

lemma live_row_set_agent_status:
  assumes "live_row (set_agent_status aid st db) aid oid = Some a"
  shows "agStatus a = st"
proof -
  have mem: "a \<in> set (gateway_agents (set_agent_status aid st db))" and "agID a = aid"
    using find_Some_set [OF assms [unfolded live_row_def]] by simp_all
  from mem obtain b where b: "a = (if agID b = aid then b\<lparr>agStatus := st\<rparr> else b)"
    by (force simp: set_agent_status_def)
  show ?thesis
  proof (cases "agID b = aid")
    case True
    with b show ?thesis by simp
  next
    case False
    with b \<open>agID a = aid\<close> show ?thesis by simp
  qed
qed

text \<open>Suspension, token revocation and key revocation take effect on the next call.
  Once an agent's status is anything but active, or its token is in the revocation table, or
  the key it was issued under is revoked, the liveness check no longer answers Live, whatever
  the other tables hold and whether or not the query fails.\<close>

lemma revoked_not_live:
  assumes "uuid_parse agentID = Some aid"
    and "st \<noteq> ''active'' \<and> db' = set_agent_status aid st db
       \<or> jti \<noteq> [] \<and> jti \<in> set (revoked_ai_tokens db')
       \<or> keyID \<noteq> [] \<and> uuid_parse keyID = Some k \<and> (k, True) \<in> set (api_keys_revoked db')"
  shows "fst (CheckLive uuid_parse dbErr db' agentID orgID jti keyID) \<noteq> Live"
proof
  assume "fst (CheckLive uuid_parse dbErr db' agentID orgID jti keyID) = Live"
  then have "CheckLive uuid_parse dbErr db' agentID orgID jti keyID
      = (Live, snd (CheckLive uuid_parse dbErr db' agentID orgID jti keyID))"
    by (simp add: prod_eq_iff)
  note live = this [unfolded CheckLive_Live]
  have nr: "\<not> token_revoked db' jti (if keyID = [] then None else uuid_parse keyID)"
    using live by (elim conjE)
  obtain aid' oid a where a: "uuid_parse agentID = Some aid'" "live_row db' aid' oid = Some a" "agStatus a = ''active''"
    using live by (elim conjE exE)
  from assms(2) show False
  proof (elim disjE conjE)
    assume st: "st \<noteq> ''active''" "db' = set_agent_status aid st db"
    have "agStatus a = st"
      by (rule live_row_set_agent_status [of aid st db oid]) (use a assms(1) st(2) in simp)
    with a(3) st(1) show False by simp
  next
    assume "jti \<noteq> []" "jti \<in> set (revoked_ai_tokens db')"
    with nr show False by (simp add: token_revoked_def)
  next
    assume "keyID \<noteq> []" "uuid_parse keyID = Some k" "(k, True) \<in> set (api_keys_revoked db')"
    with nr show False by (simp add: token_revoked_def)
  qed
qed

end
