(* ===== verification/License_Gate.thy ===== *)
theory License_Gate
  imports Gateway_Prelude
begin

text \<open>
  Licensing (\<^verbatim>\<open>eami-gateway/internal/license\<close>): verification of a signed license, the
  module check, the monthly usage limit and the near-limit reservation that serialises
  concurrent calls of an organisation close to its cap. The parameter \<open>jwt_parse\<close> stands
  for \<^verbatim>\<open>jwt.ParseWithClaims\<close> with the options of \<^verbatim>\<open>Verify\<close>: it returns the claims of a
  token that carries a valid RS256 signature of the vendor key, the right issuer and
  audience and an expiry in the future, and an error otherwise. A fault says which database
  operation of the reservation transaction fails.
\<close>

section \<open>Licenses (license.go)\<close>

record Claims =
  clSubject :: string
  clModules :: "string list"
  clMaxTokensPerMonth :: "int option" \<comment> \<open>None when usage_limits or its field is absent\<close>

definition Verify :: "(string \<Rightarrow> Claims result) \<Rightarrow> string \<Rightarrow> Claims result" where
  "Verify jwt_parse rawLicense =
     (if rawLicense = [] then Inl (ErrText ''license: empty license'')
      else case jwt_parse rawLicense of
        Inl err \<Rightarrow> Inl (Wrapped ''license: invalid license'' err)
      | Inr claims \<Rightarrow>
        if clSubject claims = [] then Inl (ErrText ''license: license has no org_id (subject)'')
        else Inr claims)"

definition HasModule :: "Claims \<Rightarrow> string \<Rightarrow> bool" where
  "HasModule c modname = (modname \<in> set (clModules c))"

section \<open>The store (store.go)\<close>

record license_row =
  licOrgID :: uuid
  licRaw :: string
  licCreatedAt :: time
  licID :: nat

record usage_row =
  tuOrgID :: uuid
  tuTokensIn :: int
  tuTokensOut :: int
  tuRecordedAt :: time

record inflight_row =
  ifID :: uuid
  ifOrgID :: uuid
  ifExpiresAt :: time

record license_db =
  licenses :: "license_row list"
  token_usage :: "usage_row list"
  usage_dispatch_inflight :: "inflight_row list"

definition newer :: "license_row \<Rightarrow> license_row \<Rightarrow> bool" where
  "newer a b = (licCreatedAt b < licCreatedAt a \<or> licCreatedAt a = licCreatedAt b \<and> licID b < licID a)"

text \<open>\<^verbatim>\<open>ORDER BY created_at DESC, id DESC LIMIT 1\<close> within an organisation.\<close>

fun newest :: "license_row list \<Rightarrow> license_row option" where
  "newest [] = None"
| "newest (a # as) = (case newest as of None \<Rightarrow> Some a | Some b \<Rightarrow> Some (if newer b a then b else a))"

definition currentClaims :: "(string \<Rightarrow> Claims result) \<Rightarrow> go_error option \<Rightarrow> license_db \<Rightarrow> uuid \<Rightarrow> Claims result" where
  "currentClaims jwt_parse dbErr db orgID =
     (case dbErr of Some err \<Rightarrow> Inl err | None \<Rightarrow>
      case newest (filter (\<lambda>l. licOrgID l = orgID) (licenses db)) of
        None \<Rightarrow> Inl (Sentinel ErrNoRows)
      | Some l \<Rightarrow>
        (case Verify jwt_parse (licRaw l) of
           Inl err \<Rightarrow> Inl err
         | Inr claims \<Rightarrow> if clSubject claims \<noteq> orgID then Inl (Sentinel ErrOrgMismatch) else Inr claims))"

definition ModuleLicensed :: "(string \<Rightarrow> Claims result) \<Rightarrow> go_error option \<Rightarrow> license_db \<Rightarrow> uuid \<Rightarrow> string \<Rightarrow> bool" where
  "ModuleLicensed jwt_parse dbErr db orgID modname =
     (case currentClaims jwt_parse dbErr db orgID of Inl _ \<Rightarrow> False | Inr claims \<Rightarrow> HasModule claims modname)"

text \<open>The sum over the current calendar month, which starts at \<open>month\<close>.\<close>

definition used_tokens :: "license_db \<Rightarrow> time \<Rightarrow> uuid \<Rightarrow> int" where
  "used_tokens db month orgID =
     sum_list (map (\<lambda>u. tuTokensIn u + tuTokensOut u)
       (filter (\<lambda>u. tuOrgID u = orgID \<and> month \<le> tuRecordedAt u) (token_usage db)))"

definition WithinUsageLimit ::
  "(string \<Rightarrow> Claims result) \<Rightarrow> go_error option \<Rightarrow> go_error option \<Rightarrow> time \<Rightarrow> license_db \<Rightarrow> uuid \<Rightarrow> bool \<times> go_error option" where
  "WithinUsageLimit jwt_parse claimsErr sumErr month db orgID =
     (case currentClaims jwt_parse claimsErr db orgID of
        Inl err \<Rightarrow> (False, Some err)
      | Inr claims \<Rightarrow>
        (case clMaxTokensPerMonth claims of
           None \<Rightarrow> (True, None)
         | Some limit \<Rightarrow>
           (case sumErr of
              Some err \<Rightarrow> (False, Some (Wrapped ''license: usage limit query failed'' err))
            | None \<Rightarrow> (used_tokens db month orgID < limit, None))))"

text \<open>The usage from which calls are serialised: the limit less the safety margin, with
  the 64-bit product and the two clamps of the code.\<close>

definition near_threshold :: "int \<Rightarrow> int \<Rightarrow> int" where
  "near_threshold limit pct =
     (let margin0 = go_div (wrap64 (limit * pct)) 100;
          margin = (if margin0 < 0 then 0 else margin0);
          threshold0 = wrap64 (limit - margin)
      in if threshold0 < 0 then 0 else threshold0)"

datatype reserve_fault =
    NoFault
  | FailClaims go_error
  | FailBegin go_error
  | FailLock go_error
  | FailSum go_error
  | FailCount go_error
  | FailInsert go_error
  | FailCommit go_error bool \<comment> \<open>whether the transaction was committed all the same\<close>

definition reserve_error :: "string \<Rightarrow> go_error \<Rightarrow> license_db \<Rightarrow> (uuid option \<times> bool \<times> go_error option) \<times> license_db" where
  "reserve_error msg err db = ((None, False, Some (Wrapped msg err)), db)"

definition org_inflight :: "license_db \<Rightarrow> time \<Rightarrow> uuid \<Rightarrow> inflight_row list" where
  "org_inflight db now orgID = filter (\<lambda>r. ifOrgID r = orgID \<and> now < ifExpiresAt r) (usage_dispatch_inflight db)"

text \<open>\<^verbatim>\<open>ReserveIfNearLimit\<close>: the released function is represented by the id of the
  reservation it deletes (None for the no-op), \<open>now\<close> is the transaction's start time and
  the advisory lock makes the transaction one step for its organisation.\<close>

definition ReserveIfNearLimit ::
  "(string \<Rightarrow> Claims result) \<Rightarrow> int \<Rightarrow> int \<Rightarrow> reserve_fault \<Rightarrow> time \<Rightarrow> time \<Rightarrow> uuid \<Rightarrow> license_db \<Rightarrow> uuid
     \<Rightarrow> (uuid option \<times> bool \<times> go_error option) \<times> license_db" where
  "ReserveIfNearLimit jwt_parse marginPct ttlSeconds fault month now newID db orgID =
     (case currentClaims jwt_parse (case fault of FailClaims err \<Rightarrow> Some err | _ \<Rightarrow> None) db orgID of
        Inl err \<Rightarrow> ((None, False, Some err), db)
      | Inr claims \<Rightarrow>
        (case clMaxTokensPerMonth claims of
           None \<Rightarrow> ((None, True, None), db)
         | Some limit \<Rightarrow>
           (case fault of
              FailBegin err \<Rightarrow> reserve_error ''license: begin usage reservation tx'' err db
            | FailLock err \<Rightarrow> reserve_error ''license: acquire usage reservation lock'' err db
            | FailSum err \<Rightarrow> reserve_error ''license: usage reservation SUM query failed'' err db
            | _ \<Rightarrow>
              if used_tokens db month orgID < near_threshold limit marginPct then
                (case fault of
                   FailCommit err _ \<Rightarrow> reserve_error ''license: commit usage reservation check'' err db
                 | _ \<Rightarrow> ((None, True, None), db))
              else
                (case fault of
                   FailCount err \<Rightarrow> reserve_error ''license: usage in-flight count query failed'' err db
                 | _ \<Rightarrow>
                   if org_inflight db now orgID \<noteq> [] then
                     (case fault of
                        FailCommit err _ \<Rightarrow> reserve_error ''license: commit usage reservation contention check'' err db
                      | _ \<Rightarrow> ((None, False, None), db))
                   else
                     (let db' = db\<lparr>usage_dispatch_inflight := usage_dispatch_inflight db
                                 @ [\<lparr>ifID = newID, ifOrgID = orgID, ifExpiresAt = now + ttlSeconds * second\<rparr>]\<rparr>
                      in case fault of
                           FailInsert err \<Rightarrow> reserve_error ''license: insert usage reservation failed'' err db
                         | FailCommit err lost \<Rightarrow>
                             reserve_error ''license: commit usage reservation'' err (if lost then db' else db)
                         | _ \<Rightarrow> ((Some newID, True, None), db'))))))"

text \<open>The release function; its DELETE may fail, which is logged and otherwise ignored.\<close>

definition release_reservation :: "bool \<Rightarrow> uuid option \<Rightarrow> license_db \<Rightarrow> license_db" where
  "release_reservation fails r db =
     (case r of
        None \<Rightarrow> db
      | Some i \<Rightarrow> if fails then db
                 else db\<lparr>usage_dispatch_inflight := filter (\<lambda>x. ifID x \<noteq> i) (usage_dispatch_inflight db)\<rparr>)"

section \<open>Properties\<close>

lemma newest_mem: "newest ls = Some l \<Longrightarrow> l \<in> set ls"
  by (induction ls arbitrary: l) (auto split: option.splits if_splits)

lemma currentClaims_org: "currentClaims jwt_parse dbErr db orgID = Inr c \<Longrightarrow> clSubject c = orgID"
  by (auto simp: currentClaims_def split: option.splits sum.splits if_splits)

lemma currentClaims_signed:
  assumes "currentClaims jwt_parse dbErr db orgID = Inr c"
  shows "\<exists>l\<in>set (licenses db). licOrgID l = orgID \<and> jwt_parse (licRaw l) = Inr c"
proof -
  from assms obtain l where l: "newest (filter (\<lambda>l. licOrgID l = orgID) (licenses db)) = Some l"
    and v: "Verify jwt_parse (licRaw l) = Inr c"
    by (auto simp: currentClaims_def split: option.splits sum.splits if_splits)
  from newest_mem [OF l] have "l \<in> set (licenses db)" "licOrgID l = orgID" by auto
  moreover from v have "jwt_parse (licRaw l) = Inr c"
    by (auto simp: Verify_def split: if_splits sum.splits)
  ultimately show ?thesis by blast
qed

text \<open>The module gate fails closed. A call passes only when the organisation's newest
  license row verifies, was issued to that very organisation and lists the module.\<close>

theorem module_gate_fails_closed:
  "ModuleLicensed jwt_parse dbErr db orgID modname \<longleftrightarrow>
     dbErr = None \<and> (\<exists>l c. newest (filter (\<lambda>l. licOrgID l = orgID) (licenses db)) = Some l
       \<and> licRaw l \<noteq> [] \<and> jwt_parse (licRaw l) = Inr c \<and> clSubject c = orgID \<and> orgID \<noteq> [] \<and> modname \<in> set (clModules c))"
  by (auto simp: ModuleLicensed_def currentClaims_def Verify_def HasModule_def
      split: option.splits sum.splits if_splits)

text \<open>The serialisation threshold lies between zero and the limit for every 64-bit limit
  and every margin of 0 to 100 percent, even where the product of the two overflows; without
  overflow it is the limit less the rounded-down margin.\<close>

theorem near_threshold_bounds:
  assumes "int64 limit" "0 \<le> limit" "0 \<le> pct" "pct \<le> 100"
  shows "0 \<le> near_threshold limit pct \<and> near_threshold limit pct \<le> limit
     \<and> (limit * pct < 2 ^ 63 \<longrightarrow> near_threshold limit pct = limit - limit * pct div 100)"
proof -
  let ?p = "wrap64 (limit * pct)"
  let ?m = "if go_div ?p 100 < 0 then 0 else go_div ?p 100"
  have pos: "0 \<le> limit * pct" using assms by simp
  have "?m \<le> limit"
  proof (cases "0 \<le> ?p")
    case True
    then have m: "go_div ?p 100 = ?p div 100" by (simp add: go_div_pos)
    have "?p \<le> limit * pct"
    proof -
      have "(limit * pct + 2 ^ 63) mod 2 ^ 64 \<le> limit * pct + 2 ^ 63"
        using pos by (intro zmod_le_nonneg_dividend) simp
      then show ?thesis by (simp add: wrap64_eq)
    qed
    also have "limit * pct \<le> limit * 100" using assms by (intro mult_left_mono) auto
    finally have "?p div 100 \<le> limit" by linarith
    with m assms(2) show ?thesis by simp
  next
    case False
    then have "go_div ?p 100 \<le> 0" by (intro go_div_neg) auto
    with assms(2) show ?thesis by auto
  qed
  moreover have "0 \<le> ?m" by simp
  ultimately have "int64 (limit - ?m)"
    using assms(1,2) by (auto simp: int64_def)
  then have eq: "near_threshold limit pct = limit - ?m"
    using \<open>?m \<le> limit\<close> by (simp add: near_threshold_def Let_def)
  have "limit * pct < 2 ^ 63 \<Longrightarrow> ?m = limit * pct div 100"
    using pos by (simp add: int64_def go_div_pos pos_imp_zdiv_neg_iff)
  with eq \<open>?m \<le> limit\<close> \<open>0 \<le> ?m\<close> show ?thesis by simp
qed

theorem near_threshold_bounds_witness:
  "near_threshold 1000 10 = 900"
  using near_threshold_bounds [of 1000 10] by (simp add: int64_def)

section \<open>Concurrent reservations\<close>

text \<open>Any number of processes reserve and release; licenses and recorded usage change under
  them; the clock is the latest transaction start or tick.\<close>

record reserve_system =
  rsDB :: license_db
  rsClock :: time

inductive reserve_step :: "(string \<Rightarrow> Claims result) \<Rightarrow> int \<Rightarrow> int \<Rightarrow> reserve_system \<Rightarrow> reserve_system \<Rightarrow> bool"
  for jwt_parse pct ttl where
  reserve: "ReserveIfNearLimit jwt_parse pct ttl fault month now newID (rsDB s) orgID = (res, db') \<Longrightarrow>
     reserve_step jwt_parse pct ttl s \<lparr>rsDB = db', rsClock = max (rsClock s) now\<rparr>"
| release: "reserve_step jwt_parse pct ttl s (s\<lparr>rsDB := release_reservation fails r (rsDB s)\<rparr>)"
| tick: "rsClock s \<le> t \<Longrightarrow> reserve_step jwt_parse pct ttl s (s\<lparr>rsClock := t\<rparr>)"
| others: "reserve_step jwt_parse pct ttl s (s\<lparr>rsDB := (rsDB s)\<lparr>licenses := ls, token_usage := us\<rparr>\<rparr>)"

inductive reserve_reachable :: "(string \<Rightarrow> Claims result) \<Rightarrow> int \<Rightarrow> int \<Rightarrow> reserve_system \<Rightarrow> bool"
  for jwt_parse pct ttl where
  start: "usage_dispatch_inflight db = [] \<Longrightarrow> reserve_reachable jwt_parse pct ttl \<lparr>rsDB = db, rsClock = t\<rparr>"
| step: "reserve_reachable jwt_parse pct ttl s \<Longrightarrow> reserve_step jwt_parse pct ttl s s' \<Longrightarrow>
     reserve_reachable jwt_parse pct ttl s'"

inductive_cases reserve_stepE: "reserve_step jwt_parse pct ttl s s'"

definition one_inflight :: "reserve_system \<Rightarrow> bool" where
  "one_inflight s = (\<forall>orgID. length (org_inflight (rsDB s) (rsClock s) orgID) \<le> 1)"

lemma reserve_inflight:
  assumes "ReserveIfNearLimit jwt_parse pct ttl fault month now newID db orgID = (res, db')"
  shows "usage_dispatch_inflight db' = usage_dispatch_inflight db
     \<or> org_inflight db now orgID = [] \<and> usage_dispatch_inflight db' = usage_dispatch_inflight db
         @ [\<lparr>ifID = newID, ifOrgID = orgID, ifExpiresAt = now + ttl * second\<rparr>]"
  using assms
  by (auto simp: ReserveIfNearLimit_def reserve_error_def Let_def
      split: sum.splits option.splits reserve_fault.splits if_splits)

lemma org_inflight_later: "t \<le> t' \<Longrightarrow> length (org_inflight db t' orgID) \<le> length (org_inflight db t orgID)"
  unfolding org_inflight_def by (rule length_filter_mono) auto

lemma reserve_step_one_inflight:
  "reserve_step jwt_parse pct ttl s s' \<Longrightarrow> one_inflight s \<Longrightarrow> one_inflight s'"
proof (induction rule: reserve_step.induct)
  case (reserve fault month now newID s orgID res db')
  let ?c = "max (rsClock s) now"
  have old: "length (org_inflight (rsDB s) ?c o') \<le> 1" for o'
    using reserve(2) org_inflight_later [of "rsClock s" ?c "rsDB s" o']
    by (meson le_trans max.cobounded1 one_inflight_def)
  from reserve_inflight [OF reserve(1)] show ?case
  proof (elim disjE conjE)
    assume "usage_dispatch_inflight db' = usage_dispatch_inflight (rsDB s)"
    with old show ?thesis by (simp add: one_inflight_def org_inflight_def)
  next
    let ?r = "\<lparr>ifID = newID, ifOrgID = orgID, ifExpiresAt = now + ttl * second\<rparr>"
    assume none: "org_inflight (rsDB s) now orgID = []"
      and db': "usage_dispatch_inflight db' = usage_dispatch_inflight (rsDB s) @ [?r]"
    have none': "org_inflight (rsDB s) ?c orgID = []"
      using org_inflight_later [of now ?c "rsDB s" orgID] none by simp
    have "length (org_inflight db' ?c o') \<le> 1" for o'
      using old [of o'] none' db' by (cases "o' = orgID") (auto simp: org_inflight_def)
    then show ?thesis by (simp add: one_inflight_def)
  qed
next
  case (release s fails r)
  have "length (org_inflight (release_reservation fails r (rsDB s)) t o') \<le> length (org_inflight (rsDB s) t o')" for t o'
    by (auto simp: release_reservation_def org_inflight_def split: option.split intro: length_filter_mono)
  with release show ?case by (auto simp: one_inflight_def intro: order_trans)
next
  case (tick s t)
  then show ?case
    by (auto simp: one_inflight_def intro: order_trans [OF org_inflight_later])
next
  case (others s ls us)
  then show ?case by (simp add: one_inflight_def org_inflight_def)
qed

text \<open>C5: at most one call per organisation is in flight near the cap. In every state that
  concurrent reservations, releases (failing ones too), lost commits and changing usage lead
  to, an organisation holds at most one reservation that has not expired.\<close>

theorem at_most_one_reservation:
  assumes "reserve_reachable jwt_parse pct ttl s"
  shows "length (org_inflight (rsDB s) (rsClock s) orgID) \<le> 1"
proof -
  from assms have "one_inflight s"
  proof (induction rule: reserve_reachable.induct)
    case (start db t)
    then show ?case by (simp add: one_inflight_def org_inflight_def)
  next
    case (step s s')
    then show ?case by (blast intro: reserve_step_one_inflight)
  qed
  then show ?thesis by (simp add: one_inflight_def)
qed

theorem at_most_one_reservation_witness:
  "length (org_inflight \<lparr>licenses = [], token_usage = [], usage_dispatch_inflight = []\<rparr> 0 ''o1'') \<le> 1"
proof -
  have "reserve_reachable (\<lambda>_. Inl (ErrText [])) 10 60
      \<lparr>rsDB = \<lparr>licenses = [], token_usage = [], usage_dispatch_inflight = []\<rparr>, rsClock = 0\<rparr>"
    by (rule reserve_reachable.start) simp
  from at_most_one_reservation [OF this, of "''o1''"] show ?thesis by simp
qed

text \<open>An admitted call near the cap holds a reservation. When the license has a limit
  and the recorded usage has reached the threshold, the call is admitted only with a fresh
  reservation in the table, and only if the organisation had none.\<close>

theorem near_cap_admission_reserves:
  assumes "ReserveIfNearLimit jwt_parse pct ttl fault month now newID db orgID = ((rel, True, err), db')"
    "currentClaims jwt_parse None db orgID = Inr claims" "clMaxTokensPerMonth claims = Some limit"
    "near_threshold limit pct \<le> used_tokens db month orgID"
  shows "rel = Some newID \<and> err = None \<and> org_inflight db now orgID = []
     \<and> \<lparr>ifID = newID, ifOrgID = orgID, ifExpiresAt = now + ttl * second\<rparr> \<in> set (usage_dispatch_inflight db')"
proof -
  have "\<And>e. currentClaims jwt_parse (Some e) db orgID = Inl e" by (simp add: currentClaims_def)
  with assms show ?thesis
    by (auto simp: ReserveIfNearLimit_def reserve_error_def Let_def
        split: sum.splits option.splits reserve_fault.splits if_splits)
qed

definition sample_license_db :: "int \<Rightarrow> license_db" where
  "sample_license_db used = \<lparr>licenses = [\<lparr>licOrgID = ''o1'', licRaw = ''lic'', licCreatedAt = 0, licID = 1\<rparr>],
     token_usage = [\<lparr>tuOrgID = ''o1'', tuTokensIn = used, tuTokensOut = 0, tuRecordedAt = 5\<rparr>],
     usage_dispatch_inflight = []\<rparr>"

definition sample_jwt :: "string \<Rightarrow> Claims result" where
  "sample_jwt raw = (if raw = ''lic'' then Inr \<lparr>clSubject = ''o1'', clModules = [''gateway''], clMaxTokensPerMonth = Some 1000\<rparr>
     else Inl (ErrText ''bad signature''))"

lemma sample_claims [simp]:
  "currentClaims sample_jwt None (sample_license_db u) ''o1'' =
     Inr \<lparr>clSubject = ''o1'', clModules = [''gateway''], clMaxTokensPerMonth = Some 1000\<rparr>"
  by (simp add: currentClaims_def sample_license_db_def Verify_def sample_jwt_def)

lemma sample_threshold [simp]: "near_threshold 1000 10 = 900"
  by (simp add: near_threshold_def go_div_def int64_def Let_def)

lemma sample_used [simp]: "used_tokens (sample_license_db u) 0 ''o1'' = u"
  by (simp add: used_tokens_def sample_license_db_def)

lemma sample_inflight [simp]: "org_inflight (sample_license_db u) now ''o1'' = []"
  by (simp add: org_inflight_def sample_license_db_def)

theorem near_cap_admission_reserves_witness:
  "fst (fst (ReserveIfNearLimit sample_jwt 10 60 NoFault 0 7 ''r1'' (sample_license_db 950) ''o1'')) = Some ''r1''"
proof -
  obtain rel ok err db' where r: "ReserveIfNearLimit sample_jwt 10 60 NoFault 0 7 ''r1'' (sample_license_db 950) ''o1''
      = ((rel, ok, err), db')"
    by (metis prod_cases3 surj_pair)
  moreover from r have "ok"
    by (simp add: ReserveIfNearLimit_def Let_def)
  ultimately show ?thesis
    using near_cap_admission_reserves [of sample_jwt 10 60 NoFault 0 7 "''r1''" "sample_license_db 950" "''o1''" rel err db'] by simp
qed

end
