(* ===== verification/Approval_Flow.thy ===== *)
theory Approval_Flow
  imports Tool_Routing Registry_Liveness License_Gate
begin

text \<open>
  Escalated calls (\<^verbatim>\<open>eami-gateway/internal/approval/router.go\<close>): submission, the hold with
  its decision channel, the resumption of an approved call and its re-checks. The
  functions return the events they cause, in order. The hold and the notification listener
  are two goroutines over one pending entry, the decision row and a \<^verbatim>\<open>sync.Once\<close>; they are
  a step relation whose steps are the accesses to shared state.
\<close>

section \<open>Requests and fingerprints\<close>

record approval_request =
  aqOrgID :: string
  aqAgentID :: string
  aqTokenID :: string
  aqAPIKeyID :: string
  aqAgentName :: string
  aqTool :: string
  aqAction :: string
  aqParameters :: params
  aqSessionID :: string
  aqResolvedToolID :: string
  aqResolvedConfigHash :: string

abbreviation NUL :: char where "NUL \<equiv> CHR 0x00"

definition config_preimage :: "string \<Rightarrow> string \<Rightarrow> string \<Rightarrow> string \<Rightarrow> string \<Rightarrow> string" where
  "config_preimage toolType baseURLOrProvider credentialsEncrypted actionPathsJSON redactionRulesJSON =
     toolType @ [NUL] @ baseURLOrProvider @ [NUL] @ credentialsEncrypted @ [NUL] @ actionPathsJSON @ [NUL] @ redactionRulesJSON"

definition ComputeConfigHash :: "(string \<Rightarrow> string) \<Rightarrow> string \<Rightarrow> string \<Rightarrow> string \<Rightarrow> string \<Rightarrow> string \<Rightarrow> string" where
  "ComputeConfigHash sha256 toolType baseURLOrProvider credentialsEncrypted actionPathsJSON redactionRulesJSON =
     hex_encode (sha256 (config_preimage toolType baseURLOrProvider credentialsEncrypted actionPathsJSON redactionRulesJSON))"

section \<open>Outcomes\<close>

record HoldOutcome =
  hoResult :: string
  hoErr :: "go_error option"
  hoResolved :: bool
  hoStatus :: string
  hoApprovedBy :: string
  hoDecisionReason :: string
  hoRedactedCount :: "nat option"

definition unresolved :: "go_error \<Rightarrow> HoldOutcome" where
  "unresolved err = \<lparr>hoResult = [], hoErr = Some err, hoResolved = False, hoStatus = [], hoApprovedBy = [],
     hoDecisionReason = [], hoRedactedCount = None\<rparr>"

text \<open>\<^verbatim>\<open>outcomeFromStatus\<close>: \<open>resumed\<close> is what \<^verbatim>\<open>dispatchApproved\<close> answers if it is called; the
  second component says whether it is.\<close>

definition outcomeFromStatus ::
  "ToolResponse result \<times> nat option \<Rightarrow> string \<Rightarrow> string \<Rightarrow> string \<Rightarrow> string \<Rightarrow> HoldOutcome \<times> bool" where
  "outcomeFromStatus resumed approvalID status decisionReason approvedBy =
     (if status = ''approved'' then
        (\<lparr>hoResult = (case fst resumed of Inl _ \<Rightarrow> [] | Inr tr \<Rightarrow> tsBody tr),
          hoErr = (case fst resumed of Inl err \<Rightarrow> Some err | Inr _ \<Rightarrow> None),
          hoResolved = True, hoStatus = status, hoApprovedBy = approvedBy, hoDecisionReason = decisionReason,
          hoRedactedCount = snd resumed\<rparr>, True)
      else if status = ''pending'' then
        (unresolved (ErrText (''approval: status still pending for '' @ approvalID)), False)
      else
        (\<lparr>hoResult = [],
          hoErr = Some (ErrText (''approval '' @ status @ (if decisionReason \<noteq> [] then '': '' @ decisionReason else []))),
          hoResolved = (status = ''denied'' \<or> status = ''expired''), hoStatus = status, hoApprovedBy = approvedBy,
          hoDecisionReason = decisionReason, hoRedactedCount = None\<rparr>, False))"

section \<open>Submission\<close>

record approval_row =
  arID :: uuid
  arOrgID :: uuid
  arAgentID :: uuid
  arAgentName :: string
  arToolName :: string
  arAction :: string
  arParameters :: params
  arJustification :: string
  arRiskLevel :: string
  arExpiresAt :: time
  arSessionID :: string
  arNodeAddress :: string
  arResolvedToolID :: "uuid option"
  arResolvedConfigHash :: "string option"
  arStatus :: string
  arDecisionReason :: string
  arApprovedBy :: string
  arResumeOutcome :: string

definition defaultRiskLevel :: string where
  "defaultRiskLevel = ''medium''"

text \<open>\<^verbatim>\<open>newUUID\<close> from sixteen random bytes: version and variant bits, then lower-case hex.\<close>

definition uuid_bytes :: "8 word list \<Rightarrow> 8 word list" where
  "uuid_bytes b = b[6 := or (and (b ! 6) 0x0f) 0x40, 8 := or (and (b ! 8) 0x3f) 0x80]"

definition hex_bytes :: "8 word list \<Rightarrow> string" where
  "hex_bytes b = hex_encode (map (\<lambda>w. char_of (unat w)) b)"

definition newUUID :: "8 word list result \<Rightarrow> string result" where
  "newUUID random =
     (case random of
        Inl err \<Rightarrow> Inl err
      | Inr b0 \<Rightarrow>
        (let b = uuid_bytes b0 in
         Inr (hex_bytes (take 4 b) @ ''-'' @ hex_bytes (take 2 (drop 4 b)) @ ''-'' @ hex_bytes (take 2 (drop 6 b))
              @ ''-'' @ hex_bytes (take 2 (drop 8 b)) @ ''-'' @ hex_bytes (take 6 (drop 10 b)))))"

definition escapeSlackText :: "string \<Rightarrow> string" where
  "escapeSlackText s =
     replace_all (replace_all (replace_all s (CHR ''&'') ''&amp;'') (CHR ''<'') ''&lt;'') (CHR ''>'') ''&gt;''"

text \<open>The text of the notification; None when no webhook is configured. The two symbols in
  front of the link labels are left out of the model's byte strings.\<close>

definition notifySlack :: "string \<Rightarrow> string \<Rightarrow> string \<Rightarrow> approval_request \<Rightarrow> string option" where
  "notifySlack slackWebhook uiBaseURL approvalID req =
     (if slackWebhook = [] then None
      else
        let approveURL = uiBaseURL @ ''/approvals/'' @ approvalID;
            denyURL = uiBaseURL @ ''/approvals/'' @ approvalID @ ''?action=deny''
        in Some (''*EAMI Gateway - Approval Required*'' @ [CHR 0x0A] @ ''*Agent:* '' @ escapeSlackText (aqAgentName req)
             @ [CHR 0x0A] @ ''*Tool:* '' @ escapeSlackText (aqTool req)
             @ [CHR 0x0A] @ ''*Action:* '' @ escapeSlackText (aqAction req)
             @ [CHR 0x0A] @ ''*Session:* '' @ escapeSlackText (aqSessionID req)
             @ [CHR 0x0A] @ ''<'' @ approveURL @ ''| Approve> | <'' @ denyURL @ ''| Deny>''))"

record router_config =
  rtHoldTimeout :: duration
  rtSlackWebhook :: string
  rtUIBaseURL :: string

text \<open>\<open>hostname\<close> is \<^verbatim>\<open>os.Hostname\<close> (None for an error); the row and the notification text are
  returned beside the id. A new row is pending, by the default of the column.\<close>

definition Submit ::
  "router_config \<Rightarrow> 8 word list result \<Rightarrow> string option \<Rightarrow> go_error option \<Rightarrow> time \<Rightarrow> approval_request
     \<Rightarrow> approval_row list \<Rightarrow> (string result \<times> string option) \<times> approval_row list" where
  "Submit r random hostname dbErr now req rows =
     (if aqOrgID req = [] \<or> aqAgentID req = [] then
        ((Inl (ErrText ''approval: org_id and agent_id are required''), None), rows)
      else case newUUID random of
        Inl err \<Rightarrow> ((Inl (Wrapped ''approval: generate id'' err), None), rows)
      | Inr approvalID \<Rightarrow>
        (let nodeAddress = (case hostname of None \<Rightarrow> ''unknown'' | Some h \<Rightarrow> if h = [] then ''unknown'' else h) in
         case dbErr of
           Some err \<Rightarrow> ((Inl (Wrapped ''approval: insert request'' err), None), rows)
         | None \<Rightarrow>
           ((Inr approvalID, notifySlack (rtSlackWebhook r) (rtUIBaseURL r) approvalID req),
            rows @ [\<lparr>arID = approvalID, arOrgID = aqOrgID req, arAgentID = aqAgentID req, arAgentName = aqAgentName req,
              arToolName = aqTool req, arAction = aqAction req, arParameters = aqParameters req,
              arJustification = ''Escalated by policy: '' @ aqTool req @ ''.'' @ aqAction req,
              arRiskLevel = defaultRiskLevel, arExpiresAt = now + rtHoldTimeout r, arSessionID = aqSessionID req,
              arNodeAddress = nodeAddress,
              arResolvedToolID = (if aqResolvedToolID req = [] then None else Some (aqResolvedToolID req)),
              arResolvedConfigHash = (if aqResolvedToolID req = [] then None else Some (aqResolvedConfigHash req)),
              arStatus = ''pending'', arDecisionReason = [], arApprovedBy = [], arResumeOutcome = []\<rparr>])))"

section \<open>Resuming an approved call\<close>

text \<open>The interfaces the router is given. Of the license checker only the module check is
  mandatory; the usage check and the reservation are found by type assertions.\<close>

record license_checker =
  lcModuleLicensed :: "uuid \<Rightarrow> string \<Rightarrow> bool"
  lcWithinUsageLimit :: "(uuid \<Rightarrow> bool \<times> go_error option) option"
  lcReserveIfNearLimit :: "(uuid \<Rightarrow> uuid option \<times> bool \<times> go_error option) option"

type_synonym live_checker = "string \<Rightarrow> string \<Rightarrow> string \<Rightarrow> string \<Rightarrow> Liveness \<times> go_error option"

datatype event =
    HttpCall http_call
  | Reserved "uuid option"
  | Released "uuid option"
  | ResumeOutcome string

record resume_env =
  reLive :: "live_checker option"
  reLicense :: "license_checker option"
  reHttp :: http_env
  reCipher :: bool
  reDownstreamURL :: string
  reToolRouter :: bool
  reAIRouter :: "(string \<rightharpoonup> adapter) option"
  reTools :: "gateway_tool_row list"
  reToolErr :: "go_error option"
  reSha256 :: "string \<Rightarrow> string"
  reMarshalPaths :: "(string \<times> ActionPathEntry) list \<Rightarrow> string"

record resolvedConnectorConfig =
  rccToolType :: string
  rccAuthType :: string
  rccBaseURLOrProvider :: string
  rccCredentialsEncrypted :: string
  rccActionPaths :: "(string \<times> ActionPathEntry) list"
  rccRedactionRules :: string

definition connector_target :: "gateway_tool_row \<Rightarrow> string" where
  "connector_target g =
     (if gtType g = ''rest_api'' then (case gtBaseURL g of None \<Rightarrow> [] | Some u \<Rightarrow> u)
      else if gtType g = ''ai_provider'' then (case gtProvider g of None \<Rightarrow> [] | Some p \<Rightarrow> p)
      else [])"

definition fetchResolvedConnector :: "resume_env \<Rightarrow> uuid \<Rightarrow> uuid \<Rightarrow> resolvedConnectorConfig option result" where
  "fetchResolvedConnector env orgID toolID =
     (case reToolErr env of
        Some err \<Rightarrow> Inl err
      | None \<Rightarrow>
        (case List.find (\<lambda>g. gtID g = toolID \<and> gtOrgID g = orgID) (reTools env) of
           None \<Rightarrow> Inr None
         | Some g \<Rightarrow>
           Inr (Some \<lparr>rccToolType = gtType g, rccAuthType = gtAuthType g, rccBaseURLOrProvider = connector_target g,
             rccCredentialsEncrypted = gtCredentialsEncrypted g,
             rccActionPaths = (if gtActionPaths g = [] then [] else case hePaths (reHttp env) (gtActionPaths g) of Inl _ \<Rightarrow> [] | Inr p \<Rightarrow> p),
             rccRedactionRules = gtRedactionRules g\<rparr>)))"

definition paths_json :: "resume_env \<Rightarrow> (string \<times> ActionPathEntry) list \<Rightarrow> string" where
  "paths_json env paths = (if paths = [] then [] else reMarshalPaths env paths)"

definition config_hash :: "resume_env \<Rightarrow> resolvedConnectorConfig \<Rightarrow> string" where
  "config_hash env cfg = ComputeConfigHash (reSha256 env) (rccToolType cfg) (rccBaseURLOrProvider cfg)
     (rccCredentialsEncrypted cfg) (paths_json env (rccActionPaths cfg)) (rccRedactionRules cfg)"

definition refuse :: "string \<Rightarrow> go_error \<Rightarrow> (ToolResponse result \<times> nat option) \<times> event list" where
  "refuse outcome err = ((Inl err, None), [ResumeOutcome outcome])"

definition tool_request :: "approval_request \<Rightarrow> ToolRequest" where
  "tool_request req = \<lparr>trToolName = aqTool req, trAction = aqAction req, trParams = aqParameters req, trSessionID = aqSessionID req\<rparr>"

text \<open>The dispatch behind the checks: the static proxy, or the connector pinned at
  escalation, re-read by id and compared with the fingerprint.\<close>

definition resume_dispatch :: "resume_env \<Rightarrow> approval_request \<Rightarrow> (ToolResponse result \<times> nat option) \<times> event list" where
  "resume_dispatch env req =
     (if aqResolvedToolID req = [] then
        (case proxy_Forward (reHttp env) (reDownstreamURL env) (tool_request req) of
           (tr, calls) \<Rightarrow> ((tr, None), ResumeOutcome ''static_fallback'' # map HttpCall calls))
      else case fetchResolvedConnector env (aqOrgID req) (aqResolvedToolID req) of
        Inl err \<Rightarrow> ((Inl (Wrapped (''approval: verify resolved connector '' @ aqResolvedToolID req) err), None), [])
      | Inr None \<Rightarrow>
          refuse ''connector_deleted'' (ErrText (''approval: resolved connector '' @ aqResolvedToolID req
            @ '' no longer exists -- refusing to resume against an unknown destination''))
      | Inr (Some cfg) \<Rightarrow>
        if config_hash env cfg \<noteq> aqResolvedConfigHash req then
          refuse ''config_changed'' (ErrText (''approval: resolved connector '' @ aqResolvedToolID req
            @ '' configuration changed since this request was approved -- refusing to resume against a different destination than the approver reviewed''))
        else if rccToolType cfg = ''ai_provider'' then
          (case reAIRouter env of
             None \<Rightarrow> ((Inl (ErrText (''approval: resolved connector '' @ aqResolvedToolID req
                        @ '' is an ai_provider connector but no aiProviderRouter is configured'')), None), [])
           | Some adapters \<Rightarrow>
             (case ai_Dispatch (reHttp env) (reCipher env) adapters
                 (Some \<lparr>aiID = aqResolvedToolID req, aiProvider = rccBaseURLOrProvider cfg, aiAuthType = rccAuthType cfg,
                        aiCredentialsEncrypted = rccCredentialsEncrypted cfg, aiAuditMode = [], aiDataHandling = [],
                        aiRedactionRules = rccRedactionRules cfg\<rparr>) (aqAction req) (aqParameters req) of
                ((tr, n), calls) \<Rightarrow> ((tr, Some n), map HttpCall calls @ [ResumeOutcome ''dispatched''])))
        else if rccToolType cfg = ''rest_api'' then
          (if \<not> reToolRouter env then
             ((Inl (ErrText (''approval: resolved connector '' @ aqResolvedToolID req
                 @ '' is a rest_api tool but no toolRouter is configured'')), None), [])
           else case tool_Forward (reHttp env) (reCipher env)
               (Some \<lparr>twID = aqResolvedToolID req, twType = ''rest_api'', twAuthType = rccAuthType cfg,
                      twBaseURL = Some (rccBaseURLOrProvider cfg), twCredentialsEncrypted = rccCredentialsEncrypted cfg,
                      twActionPaths = rccActionPaths cfg\<rparr>) (tool_request req) of
              (tr, calls) \<Rightarrow> ((tr, None), map HttpCall calls @ [ResumeOutcome ''dispatched'']))
        else
          refuse ''config_changed'' (ErrText (''approval: resolved connector '' @ aqResolvedToolID req
            @ '' is no longer a dynamically-dispatchable type ('' @ go_quote (rccToolType cfg) @ '')'')))"

definition resume_live :: "resume_env \<Rightarrow> approval_request \<Rightarrow> bool" where
  "resume_live env req =
     (case reLive env of
        None \<Rightarrow> False
      | Some check \<Rightarrow> check (aqAgentID req) (aqOrgID req) (aqTokenID req) (aqAPIKeyID req) = (Live, None))"

definition licensed :: "license_checker option \<Rightarrow> uuid \<Rightarrow> bool" where
  "licensed lic orgID = (case lic of None \<Rightarrow> True | Some l \<Rightarrow> lcModuleLicensed l orgID ''gateway'')"

definition usage_answer :: "license_checker option \<Rightarrow> uuid \<Rightarrow> bool \<times> go_error option" where
  "usage_answer lic orgID =
     (case lic of None \<Rightarrow> (True, None) | Some l \<Rightarrow>
        (case lcWithinUsageLimit l of None \<Rightarrow> (True, None) | Some f \<Rightarrow> f orgID))"

text \<open>None when the checker has no reservation, else what it answers.\<close>

definition reserve_answer :: "license_checker option \<Rightarrow> uuid \<Rightarrow> (uuid option \<times> bool \<times> go_error option) option" where
  "reserve_answer lic orgID =
     (case lic of None \<Rightarrow> None | Some l \<Rightarrow> map_option (\<lambda>f. f orgID) (lcReserveIfNearLimit l))"

definition dispatchApproved :: "resume_env \<Rightarrow> approval_request \<Rightarrow> (ToolResponse result \<times> nat option) \<times> event list" where
  "dispatchApproved env req =
     (if \<not> resume_live env req then refuse ''agent_not_active'' (Sentinel ErrAgentNotLive)
      else if \<not> licensed (reLicense env) (aqOrgID req) then
        refuse ''license_revoked'' (ErrText ''approval: your organization is no longer licensed for the Gateway module -- refusing to resume this approved call'')
      else if usage_answer (reLicense env) (aqOrgID req) \<noteq> (True, None) then
        refuse ''usage_limit_exceeded'' (ErrText ''approval: your organization has exceeded its licensed usage limit for this period -- refusing to resume this approved call'')
      else case reserve_answer (reLicense env) (aqOrgID req) of
        None \<Rightarrow> resume_dispatch env req
      | Some (rid, ok, err) \<Rightarrow>
        if err \<noteq> None \<or> \<not> ok then
          refuse ''usage_limit_contention'' (ErrText ''approval: your organization is near its licensed usage limit and another call is currently in flight -- please retry shortly'')
        else case resume_dispatch env req of
          (res, evs) \<Rightarrow> (res, Reserved rid # evs @ [Released rid]))"

section \<open>Hold, listener and decision\<close>

text \<open>The state one held call shares with the listener: the decision columns of its row, the
  \<^verbatim>\<open>sync.Once\<close> with its result, the channel of capacity one, the program points of the two
  goroutines, and the number of times \<^verbatim>\<open>dispatchApproved\<close> was entered.\<close>

datatype once = NotRun | Running | Done HoldOutcome

datatype hold_pc =
    HWait
  | HTimeout bool \<comment> \<open>past the select; whether the parent context was cancelled\<close>
  | HExpire
  | HFetch
  | HOnce string string string
  | HRunning HoldOutcome
  | HReturned HoldOutcome

datatype notify_pc =
    NIdle
  | NLoaded
  | NOnce string string string
  | NRunning HoldOutcome
  | NSend HoldOutcome

record hold_state =
  hsStatus :: string
  hsReason :: string
  hsBy :: string
  hsOnce :: once
  hsChan :: "HoldOutcome list"
  hsHold :: hold_pc
  hsNotify :: notify_pc
  hsDispatches :: nat

definition hold_start :: hold_state where
  "hold_start = \<lparr>hsStatus = ''pending'', hsReason = [], hsBy = [], hsOnce = NotRun, hsChan = [], hsHold = HWait,
     hsNotify = NIdle, hsDispatches = 0\<rparr>"

definition run_outcome :: "ToolResponse result \<times> nat option \<Rightarrow> string \<Rightarrow> string \<Rightarrow> string \<Rightarrow> string \<Rightarrow> hold_state \<Rightarrow> HoldOutcome \<times> hold_state" where
  "run_outcome resumed approvalID st re who s =
     (case outcomeFromStatus resumed approvalID st re who of
        (o', d) \<Rightarrow> (o', s\<lparr>hsOnce := Running, hsDispatches := hsDispatches s + (if d then 1 else 0)\<rparr>))"

text \<open>\<^verbatim>\<open>Hold\<close>: the select between the channel and the deadline or cancellation.\<close>

inductive hold_step :: "hold_state \<Rightarrow> hold_state \<Rightarrow> bool" where
  receive: "hsHold s = HWait \<Longrightarrow> hsChan s = [o'] \<Longrightarrow> hold_step s (s\<lparr>hsHold := HReturned o', hsChan := []\<rparr>)"
| ctx_done: "hsHold s = HWait \<Longrightarrow> hold_step s (s\<lparr>hsHold := HTimeout cancelled\<rparr>)"

text \<open>\<^verbatim>\<open>resolveHoldTimeout\<close>: the last look at the channel, the conditional update to expired
  (which may fail, even after it was committed), the fetch of a decision that came first,
  and the guarded outcome.\<close>

inductive timeout_step :: "duration \<Rightarrow> string \<Rightarrow> hold_state \<Rightarrow> hold_state \<Rightarrow> bool" for holdTimeout approvalID where
  last_look: "hsHold s = HTimeout c \<Longrightarrow> hsChan s = [o'] \<Longrightarrow>
     timeout_step holdTimeout approvalID s (s\<lparr>hsHold := HReturned o', hsChan := []\<rparr>)"
| cancelled: "hsHold s = HTimeout True \<Longrightarrow> hsChan s = [] \<Longrightarrow>
     timeout_step holdTimeout approvalID s (s\<lparr>hsHold := HReturned (unresolved (Sentinel ErrCanceled))\<rparr>)"
| deadline: "hsHold s = HTimeout False \<Longrightarrow> hsChan s = [] \<Longrightarrow> timeout_step holdTimeout approvalID s (s\<lparr>hsHold := HExpire\<rparr>)"
| expire: "hsHold s = HExpire \<Longrightarrow> hsStatus s = ''pending'' \<Longrightarrow>
     timeout_step holdTimeout approvalID s (s\<lparr>hsStatus := ''expired'', hsReason := ''timed out'',
       hsHold := HReturned (fst (outcomeFromStatus resumed approvalID ''expired'' ''timed out'' []))\<rparr>)"
| not_pending: "hsHold s = HExpire \<Longrightarrow> hsStatus s \<noteq> ''pending'' \<Longrightarrow> timeout_step holdTimeout approvalID s (s\<lparr>hsHold := HFetch\<rparr>)"
| update_fails: "hsHold s = HExpire \<Longrightarrow> timeout_step holdTimeout approvalID s
     (s\<lparr>hsHold := HReturned (unresolved (ErrText (''approval timed out after '' @ show_int holdTimeout)))\<rparr>)"
| update_lost: "hsHold s = HExpire \<Longrightarrow> hsStatus s = ''pending'' \<Longrightarrow> timeout_step holdTimeout approvalID s
     (s\<lparr>hsStatus := ''expired'', hsReason := ''timed out'',
        hsHold := HReturned (unresolved (ErrText (''approval timed out after '' @ show_int holdTimeout)))\<rparr>)"
| fetch: "hsHold s = HFetch \<Longrightarrow> timeout_step holdTimeout approvalID s (s\<lparr>hsHold := HOnce (hsStatus s) (hsReason s) (hsBy s)\<rparr>)"
| fetch_fails: "hsHold s = HFetch \<Longrightarrow> timeout_step holdTimeout approvalID s
     (s\<lparr>hsHold := HReturned (unresolved (ErrText (''approval timed out after '' @ show_int holdTimeout)))\<rparr>)"
| once_first: "hsHold s = HOnce st re who \<Longrightarrow> hsOnce s = NotRun \<Longrightarrow> run_outcome resumed approvalID st re who s = (o', s') \<Longrightarrow>
     timeout_step holdTimeout approvalID s (s'\<lparr>hsHold := HRunning o'\<rparr>)"
| once_finish: "hsHold s = HRunning o' \<Longrightarrow> timeout_step holdTimeout approvalID s (s\<lparr>hsOnce := Done o', hsHold := HReturned o'\<rparr>)"
| once_second: "hsHold s = HOnce st re who \<Longrightarrow> hsOnce s = Done o' \<Longrightarrow> timeout_step holdTimeout approvalID s (s\<lparr>hsHold := HReturned o'\<rparr>)"

text \<open>\<^verbatim>\<open>resolve\<close>, run by the one listener goroutine for each notification: it acts only while
  the hold has its entry in the pending map, and blocks while the channel is full.\<close>

inductive resolve_step :: "string \<Rightarrow> hold_state \<Rightarrow> hold_state \<Rightarrow> bool" for approvalID where
  load: "hsNotify s = NIdle \<Longrightarrow> \<nexists>o'. hsHold s = HReturned o' \<Longrightarrow> resolve_step approvalID s (s\<lparr>hsNotify := NLoaded\<rparr>)"
| fetch: "hsNotify s = NLoaded \<Longrightarrow> resolve_step approvalID s (s\<lparr>hsNotify := NOnce (hsStatus s) (hsReason s) (hsBy s)\<rparr>)"
| fetch_fails: "hsNotify s = NLoaded \<Longrightarrow>
     resolve_step approvalID s (s\<lparr>hsNotify := NSend (unresolved (Wrapped ''approval: fetch decision'' err))\<rparr>)"
| once_first: "hsNotify s = NOnce st re who \<Longrightarrow> hsOnce s = NotRun \<Longrightarrow> run_outcome resumed approvalID st re who s = (o', s') \<Longrightarrow>
     resolve_step approvalID s (s'\<lparr>hsNotify := NRunning o'\<rparr>)"
| once_finish: "hsNotify s = NRunning o' \<Longrightarrow> resolve_step approvalID s (s\<lparr>hsOnce := Done o', hsNotify := NSend o'\<rparr>)"
| once_second: "hsNotify s = NOnce st re who \<Longrightarrow> hsOnce s = Done o' \<Longrightarrow> resolve_step approvalID s (s\<lparr>hsNotify := NSend o'\<rparr>)"
| send: "hsNotify s = NSend o' \<Longrightarrow> hsChan s = [] \<Longrightarrow> resolve_step approvalID s (s\<lparr>hsChan := [o'], hsNotify := NIdle\<rparr>)"

text \<open>The decision: an update of the row that matches only while it is pending.\<close>

inductive decide_step :: "hold_state \<Rightarrow> hold_state \<Rightarrow> bool" where
  decide: "hsStatus s = ''pending'' \<Longrightarrow> st \<in> {''approved'', ''denied''} \<Longrightarrow>
     decide_step s (s\<lparr>hsStatus := st, hsReason := re, hsBy := who\<rparr>)"

definition hold_system :: "duration \<Rightarrow> string \<Rightarrow> hold_state \<Rightarrow> hold_state \<Rightarrow> bool" where
  "hold_system holdTimeout approvalID s s' =
     (hold_step s s' \<or> timeout_step holdTimeout approvalID s s' \<or> resolve_step approvalID s s' \<or> decide_step s s')"

subsection \<open>Invariant\<close>

fun once_out :: "once \<Rightarrow> HoldOutcome set" where
  "once_out (Done o') = {o'}"
| "once_out _ = {}"

fun hold_out :: "hold_pc \<Rightarrow> HoldOutcome set" where
  "hold_out (HRunning o') = {o'}"
| "hold_out (HReturned o') = {o'}"
| "hold_out _ = {}"

fun notify_out :: "notify_pc \<Rightarrow> HoldOutcome set" where
  "notify_out (NRunning o') = {o'}"
| "notify_out (NSend o') = {o'}"
| "notify_out _ = {}"

fun hold_seen :: "hold_pc \<Rightarrow> (string \<times> string) set" where
  "hold_seen (HOnce st re who) = {(st, who)}"
| "hold_seen _ = {}"

fun notify_seen :: "notify_pc \<Rightarrow> (string \<times> string) set" where
  "notify_seen (NOnce st re who) = {(st, who)}"
| "notify_seen _ = {}"

text \<open>All outcomes and all decision columns the goroutines hold.\<close>

definition outcomes :: "hold_state \<Rightarrow> HoldOutcome set" where
  "outcomes s = once_out (hsOnce s) \<union> set (hsChan s) \<union> hold_out (hsHold s) \<union> notify_out (hsNotify s)"

definition fetched :: "hold_state \<Rightarrow> (string \<times> string) set" where
  "fetched s = hold_seen (hsHold s) \<union> notify_seen (hsNotify s)"

text \<open>A resolved outcome reports the final columns of the row, and an approved one goes with
  the one dispatch.\<close>

definition truthful :: "string \<Rightarrow> string \<Rightarrow> nat \<Rightarrow> HoldOutcome \<Rightarrow> bool" where
  "truthful st who n o' = (hoResolved o' \<longrightarrow> st \<noteq> ''pending'' \<and> hoStatus o' = st \<and> hoApprovedBy o' = who
     \<and> (st = ''approved'' \<longrightarrow> n = 1))"

definition hold_inv :: "hold_state \<Rightarrow> bool" where
  "hold_inv s =
     ((hsStatus s = ''pending'' \<longrightarrow> hsBy s = []) \<and> (hsOnce s = NotRun \<longrightarrow> hsDispatches s = 0) \<and> hsDispatches s \<le> 1
      \<and> (0 < hsDispatches s \<longrightarrow> hsStatus s = ''approved'')
      \<and> (\<forall>o'\<in>outcomes s. truthful (hsStatus s) (hsBy s) (hsDispatches s) o')
      \<and> (\<forall>p\<in>fetched s. fst p \<noteq> ''pending'' \<longrightarrow> p = (hsStatus s, hsBy s)))"

lemma truthful_unresolved [simp]: "truthful st who n (unresolved e)"
  by (simp add: truthful_def unresolved_def)

lemma hold_inv_start: "hold_inv hold_start"
  by (simp add: hold_inv_def hold_start_def outcomes_def fetched_def)

text \<open>Steps that leave the row and the count alone and only pass values on.\<close>

lemma hold_inv_quiet:
  assumes "hold_inv s" "hsStatus s' = hsStatus s" "hsBy s' = hsBy s" "hsDispatches s' = hsDispatches s"
    "hsOnce s' = NotRun \<Longrightarrow> hsOnce s = NotRun" "outcomes s' \<subseteq> outcomes s \<union> range unresolved"
    "fetched s' \<subseteq> insert (hsStatus s, hsBy s) (fetched s)"
  shows "hold_inv s'"
proof -
  have "\<forall>o'\<in>outcomes s'. truthful (hsStatus s) (hsBy s) (hsDispatches s) o'"
    using assms(1,6) by (auto simp: hold_inv_def)
  moreover have "\<forall>p\<in>fetched s'. fst p \<noteq> ''pending'' \<longrightarrow> p = (hsStatus s, hsBy s)"
    using assms(1,7) by (auto simp: hold_inv_def)
  ultimately show ?thesis using assms(1-5) by (simp add: hold_inv_def)
qed

text \<open>Steps that decide a pending row.\<close>

lemma hold_inv_decided:
  assumes "hold_inv s" "hsStatus s = ''pending''" "hsStatus s' \<noteq> ''pending''" "hsDispatches s' = hsDispatches s"
    "hsOnce s' = hsOnce s" "fetched s' \<subseteq> fetched s"
    "\<And>o'. o' \<in> outcomes s' \<Longrightarrow> o' \<in> outcomes s \<or> truthful (hsStatus s') (hsBy s') 0 o'"
  shows "hold_inv s'"
proof -
  have z: "hsDispatches s = 0" using assms(1,2) by (auto simp: hold_inv_def)
  have "truthful (hsStatus s') (hsBy s') 0 o'" if o: "o' \<in> outcomes s'" for o'
    using assms(7) [OF o] assms(1,2) z by (auto simp: hold_inv_def truthful_def)
  moreover have "fst p = ''pending''" if "p \<in> fetched s'" for p
    using that assms(1,2,6) by (auto simp: hold_inv_def)
  ultimately show ?thesis using assms(1-5) z by (simp add: hold_inv_def)
qed

text \<open>Entering the once-guarded function.\<close>

lemma run_outcome_inv:
  assumes "hold_inv s" "hsOnce s = NotRun" "(st, who) \<in> fetched s" "run_outcome resumed aid st re who s = (o', s')"
    and "hsStatus s'' = hsStatus s'" "hsBy s'' = hsBy s'" "hsDispatches s'' = hsDispatches s'" "hsOnce s'' = hsOnce s'"
      "outcomes s'' \<subseteq> insert o' (outcomes s)" "fetched s'' \<subseteq> fetched s"
  shows "hold_inv s''"
proof -
  let ?d = "if st = ''approved'' then 1 else 0 :: nat"
  have r: "o' = fst (outcomeFromStatus resumed aid st re who)" "hsStatus s' = hsStatus s" "hsBy s' = hsBy s"
    "hsDispatches s' = hsDispatches s + ?d" "hsOnce s' = Running"
    using assms(4) by (auto simp: run_outcome_def outcomeFromStatus_def split: if_splits)
  have z: "hsDispatches s = 0" using assms(1,2) by (simp add: hold_inv_def)
  have f: "st \<noteq> ''pending'' \<Longrightarrow> hsStatus s = st \<and> hsBy s = who"
    using assms(1,3) by (force simp: hold_inv_def)
  have "truthful (hsStatus s) (hsBy s) ?d o'"
    using f by (auto simp: r(1) truthful_def outcomeFromStatus_def unresolved_def)
  moreover have "truthful (hsStatus s) (hsBy s) ?d x" if "x \<in> outcomes s" for x
    using assms(1) that z f by (force simp: hold_inv_def truthful_def)
  ultimately have "\<forall>x\<in>outcomes s''. truthful (hsStatus s) (hsBy s) ?d x"
    using assms(9) by auto
  moreover have "\<forall>p\<in>fetched s''. fst p \<noteq> ''pending'' \<longrightarrow> p = (hsStatus s, hsBy s)"
    using assms(1,10) by (auto simp: hold_inv_def)
  ultimately show ?thesis
    using assms(1,5-8) r z f by (simp add: hold_inv_def)
qed

lemmas carried = outcomes_def fetched_def

lemma hold_inv_hold_step: "hold_step s s' \<Longrightarrow> hold_inv s \<Longrightarrow> hold_inv s'"
proof (induction rule: hold_step.induct)
  case (receive s o')
  then show ?case by - (rule hold_inv_quiet [of s], auto simp: carried)
next
  case (ctx_done s c)
  then show ?case by - (rule hold_inv_quiet [of s], auto simp: carried)
qed

lemma hold_inv_decide_step: "decide_step s s' \<Longrightarrow> hold_inv s \<Longrightarrow> hold_inv s'"
proof (induction rule: decide_step.induct)
  case (decide s st re who)
  then show ?case by - (rule hold_inv_decided [of s], auto simp: carried)
qed

lemma hold_inv_timeout_step: "timeout_step T aid s s' \<Longrightarrow> hold_inv s \<Longrightarrow> hold_inv s'"
proof (induction rule: timeout_step.induct)
  case (expire s resumed)
  then have "hsBy s = []" by (simp add: hold_inv_def)
  with expire show ?case
    by - (rule hold_inv_decided [of s], auto simp: carried truthful_def outcomeFromStatus_def)
next
  case (update_lost s)
  then show ?case by - (rule hold_inv_decided [of s], auto simp: carried)
next
  case (once_first s st re who resumed o' s')
  moreover from once_first(3) have "hsHold s' = hsHold s" "hsNotify s' = hsNotify s" "hsChan s' = hsChan s" "hsOnce s' = Running"
    by (auto simp: run_outcome_def split: prod.splits)
  ultimately show ?case
    by - (rule run_outcome_inv [where s = s and s' = s' and st = st and who = who and o' = o'], auto simp: carried)
qed (erule hold_inv_quiet; auto simp: carried)+

lemma hold_inv_resolve_step: "resolve_step aid s s' \<Longrightarrow> hold_inv s \<Longrightarrow> hold_inv s'"
proof (induction rule: resolve_step.induct)
  case (once_first s st re who resumed o' s')
  moreover from once_first(3) have "hsHold s' = hsHold s" "hsNotify s' = hsNotify s" "hsChan s' = hsChan s" "hsOnce s' = Running"
    by (auto simp: run_outcome_def split: prod.splits)
  ultimately show ?case
    by - (rule run_outcome_inv [where s = s and s' = s' and st = st and who = who and o' = o'], auto simp: carried)
qed (erule hold_inv_quiet; auto simp: carried)+

lemma hold_system_inv:
  assumes "(hold_system T aid)\<^sup>*\<^sup>* hold_start s"
  shows "hold_inv s"
  using assms
proof (induction rule: rtranclp_induct)
  case base
  show ?case by (rule hold_inv_start)
next
  case (step s s')
  then show ?case
    unfolding hold_system_def
    using hold_inv_hold_step hold_inv_timeout_step hold_inv_resolve_step hold_inv_decide_step by blast
qed

section \<open>Properties\<close>

text \<open>C3: an escalated call is resumed at most once, and only after an approval. However the
  hold, its deadline, the listener's notifications (repeated ones too) and the decision
  interleave, and whichever database operations fail, the call is dispatched at most once,
  only if the row says approved, and every resolved outcome the hold returns carries the
  status and the decider of the row; in particular a call reported as expired or denied was
  never dispatched.\<close>

theorem approved_call_runs_at_most_once:
  assumes "(hold_system holdTimeout approvalID)\<^sup>*\<^sup>* hold_start s"
  shows "hsDispatches s \<le> 1 \<and> (0 < hsDispatches s \<longrightarrow> hsStatus s = ''approved'')
     \<and> (\<forall>o'. hsHold s = HReturned o' \<and> hoResolved o' \<longrightarrow>
          hoStatus o' = hsStatus s \<and> hoApprovedBy o' = hsBy s \<and> (hsDispatches s = 1) = (hoStatus o' = ''approved''))"
proof -
  have inv: "hold_inv s" by (rule hold_system_inv [OF assms])
  then have d: "hsDispatches s \<le> 1" "0 < hsDispatches s \<longrightarrow> hsStatus s = ''approved''" by (simp_all add: hold_inv_def)
  show ?thesis
  proof (intro conjI allI impI)
    fix o' assume o: "hsHold s = HReturned o' \<and> hoResolved o'"
    then have "o' \<in> outcomes s" by (simp add: outcomes_def)
    with inv o have t: "hoStatus o' = hsStatus s \<and> hoApprovedBy o' = hsBy s \<and> (hsStatus s = ''approved'' \<longrightarrow> hsDispatches s = 1)"
      by (auto simp: hold_inv_def truthful_def)
    then show "hoStatus o' = hsStatus s" "hoApprovedBy o' = hsBy s" by simp_all
    from t d show "(hsDispatches s = 1) = (hoStatus o' = ''approved'')" by auto
  qed (use d in auto)
qed

theorem approved_call_runs_at_most_once_witness:
  "hsDispatches (hold_start\<lparr>hsStatus := ''denied'', hsReason := ''no'', hsBy := ''u1''\<rparr>) \<le> 1"
proof -
  have "decide_step hold_start (hold_start\<lparr>hsStatus := ''denied'', hsReason := ''no'', hsBy := ''u1''\<rparr>)"
    by (rule decide_step.decide) (simp_all add: hold_start_def)
  then have "(hold_system second ''a1'')\<^sup>*\<^sup>* hold_start (hold_start\<lparr>hsStatus := ''denied'', hsReason := ''no'', hsBy := ''u1''\<rparr>)"
    by (simp add: hold_system_def r_into_rtranclp)
  from approved_call_runs_at_most_once [OF this] show ?thesis by blast
qed

subsection \<open>Termination\<close>

text \<open>The transitions Hold has left.\<close>

fun hold_rank :: "hold_pc \<Rightarrow> nat" where
  "hold_rank HWait = 6"
| "hold_rank (HTimeout _) = 5"
| "hold_rank HExpire = 4"
| "hold_rank HFetch = 3"
| "hold_rank (HOnce _ _ _) = 2"
| "hold_rank (HRunning _) = 1"
| "hold_rank (HReturned _) = 0"

definition hold_shape :: "hold_state \<Rightarrow> bool" where
  "hold_shape s = (length (hsChan s) \<le> 1 \<and> (hsOnce s = Running \<longrightarrow> (\<exists>o'. hsHold s = HRunning o') \<or> (\<exists>o'. hsNotify s = NRunning o')))"

lemma run_outcome_frame:
  "run_outcome resumed aid st re who s = (o', s') \<Longrightarrow>
   hsHold s' = hsHold s \<and> hsNotify s' = hsNotify s \<and> hsChan s' = hsChan s"
  by (auto simp: run_outcome_def split: prod.splits)

lemma hold_shape_step: "hold_system T aid s s' \<Longrightarrow> hold_shape s \<Longrightarrow> hold_shape s'"
  unfolding hold_system_def
  by (elim disjE hold_step.cases timeout_step.cases resolve_step.cases decide_step.cases)
    (auto simp: hold_shape_def dest: run_outcome_frame)

lemma hold_shape_reachable: "(hold_system T aid)\<^sup>*\<^sup>* hold_start s \<Longrightarrow> hold_shape s"
proof (induction rule: rtranclp_induct)
  case base
  show ?case by (simp add: hold_shape_def hold_start_def)
next
  case (step s s')
  then show ?case using hold_shape_step by blast
qed

lemma hold_rank_step:
  "hold_system T aid s s' \<Longrightarrow> hsHold s' = hsHold s \<or> hold_rank (hsHold s') < hold_rank (hsHold s)"
  unfolding hold_system_def
  by (elim disjE hold_step.cases timeout_step.cases resolve_step.cases decide_step.cases)
    (auto dest: run_outcome_frame)

lemma hold_progress:
  assumes "hold_shape s"
  shows "(\<exists>o'. hsHold s = HReturned o') \<or> (\<exists>s'. hold_step s s' \<or> timeout_step T aid s s')
     \<or> (\<exists>st re who o'. hsHold s = HOnce st re who \<and> hsNotify s = NRunning o')"
proof (cases "hsHold s")
  case HWait
  then show ?thesis by (meson hold_step.ctx_done)
next
  case (HTimeout c)
  then show ?thesis
    using assms by (cases c; cases "hsChan s") (auto simp: hold_shape_def intro: timeout_step.intros)
next
  case HExpire
  then show ?thesis by (meson timeout_step.update_fails)
next
  case HFetch
  then show ?thesis by (meson timeout_step.fetch_fails)
next
  case (HOnce st re who)
  show ?thesis
  proof (cases "hsOnce s")
    case NotRun
    obtain o' s' where "run_outcome (Inl (ErrText []), None) aid st re who s = (o', s')"
      by (cases "run_outcome (Inl (ErrText []), None) aid st re who s")
    with HOnce NotRun show ?thesis by (meson timeout_step.once_first)
  next
    case Running
    with assms HOnce show ?thesis by (auto simp: hold_shape_def)
  next
    case (Done o')
    with HOnce show ?thesis by (meson timeout_step.once_second)
  qed
next
  case (HRunning o')
  then show ?thesis by (meson timeout_step.once_finish)
qed simp

text \<open>C28: A hold ends. In every reachable state a hold that has not returned can take its next
  step, except while the listener runs the shared outcome function, and then the listener can
  finish it; every step of the system leaves the hold where it is or brings it closer to its
  return, which is at most six transitions away.\<close>

theorem hold_terminates:
  assumes "(hold_system holdTimeout approvalID)\<^sup>*\<^sup>* hold_start s"
  shows "((\<exists>o'. hsHold s = HReturned o') \<or> (\<exists>s'. hold_step s s' \<or> timeout_step holdTimeout approvalID s s')
      \<or> (\<exists>st re who o'. hsHold s = HOnce st re who \<and> hsNotify s = NRunning o' \<and> (\<exists>s'. resolve_step approvalID s s')))
    \<and> (\<forall>s'. hold_system holdTimeout approvalID s s' \<longrightarrow> hsHold s' = hsHold s \<or> hold_rank (hsHold s') < hold_rank (hsHold s))
    \<and> hold_rank (hsHold s) \<le> 6"
proof -
  have "hold_shape s" by (rule hold_shape_reachable [OF assms])
  from hold_progress [OF this, of holdTimeout approvalID]
  have "(\<exists>o'. hsHold s = HReturned o') \<or> (\<exists>s'. hold_step s s' \<or> timeout_step holdTimeout approvalID s s')
      \<or> (\<exists>st re who o'. hsHold s = HOnce st re who \<and> hsNotify s = NRunning o' \<and> (\<exists>s'. resolve_step approvalID s s'))"
    by (meson resolve_step.once_finish)
  moreover have "hold_rank (hsHold s) \<le> 6" by (cases "hsHold s") simp_all
  ultimately show ?thesis using hold_rank_step by blast
qed

theorem hold_terminates_witness:
  "(\<exists>s'. hold_step hold_start s' \<or> timeout_step second ''a1'' hold_start s') \<and> hold_rank (hsHold hold_start) \<le> 6"
  using hold_terminates [OF rtranclp.rtrancl_refl, of second "''a1''"] by (simp add: hold_start_def)

subsection \<open>The resumed call\<close>

definition http_calls :: "event list \<Rightarrow> event list" where
  "http_calls evs = filter (\<lambda>e. case e of HttpCall _ \<Rightarrow> True | _ \<Rightarrow> False) evs"

lemma http_calls_simps [simp]:
  "http_calls [] = []" "http_calls (HttpCall c # evs) = HttpCall c # http_calls evs"
  "http_calls (Reserved r # evs) = http_calls evs" "http_calls (Released r # evs) = http_calls evs"
  "http_calls (ResumeOutcome t # evs) = http_calls evs" "http_calls (a @ b) = http_calls a @ http_calls b"
  by (simp_all add: http_calls_def)

lemma http_calls_map [simp]: "http_calls (map HttpCall cs) = map HttpCall cs"
  by (induction cs) simp_all

lemma proxy_Forward_calls: "length (snd (proxy_Forward env url req)) \<le> 1"
  by (simp add: proxy_Forward_def Let_def split: option.split)

lemma tool_Forward_one: "length (snd (tool_Forward env cipher rowp req)) \<le> 1"
  by (simp add: tool_Forward_def Let_def split: option.split sum.split prod.split)

definition one_call :: "(string \<rightharpoonup> adapter) \<Rightarrow> bool" where
  "one_call adapters = (\<forall>p ad env key req. adapters p = Some ad \<longrightarrow> length (snd (ad env key req)) \<le> 1)"

lemma one_call_claude: "one_call claude_registry"
  unfolding one_call_def
proof (intro allI impI)
  fix p ad env key req
  assume "claude_registry p = Some ad"
  then have ad: "ad = claude_Dispatch" by (auto simp: claude_registry_def split: if_splits)
  show "length (snd (ad env key req)) \<le> 1"
    using claude_Dispatch_calls [of env key req] unfolding ad
    by (cases "claude_Dispatch env key req") fastforce
qed

lemma ai_Dispatch_one: "one_call adapters \<Longrightarrow> length (snd (ai_Dispatch env cipher adapters rowp a p)) \<le> 1"
  by (auto simp: ai_Dispatch_def one_call_def split: option.split sum.split prod.split dest: spec)
    (metis snd_conv)+

lemma resume_dispatch_calls:
  assumes "\<And>adapters. reAIRouter env = Some adapters \<Longrightarrow> one_call adapters"
  shows "length (http_calls (snd (resume_dispatch env req))) \<le> 1"
proof -
  note one = proxy_Forward_calls tool_Forward_one
  have ai: "reAIRouter env = Some adapters \<Longrightarrow> length (snd (ai_Dispatch e c adapters rowp a p)) \<le> 1" for adapters e c rowp a p
    using assms ai_Dispatch_one by blast
  show ?thesis
    by (simp only: resume_dispatch_def refuse_def case_prod_unfold split: if_split option.split sum.split)
      (simp add: one [simplified] ai [simplified])
qed

lemma resume_dispatch_pinned:
  assumes "resume_dispatch env req = (res, evs)" "HttpCall c \<in> set evs" "aqResolvedToolID req \<noteq> []"
  obtains cfg where "fetchResolvedConnector env (aqOrgID req) (aqResolvedToolID req) = Inr (Some cfg)"
    "config_hash env cfg = aqResolvedConfigHash req"
  using assms
  by (auto simp: resume_dispatch_def refuse_def split: if_splits option.splits sum.splits)

text \<open>C20: an approved call runs only with current authority. When the resumption makes an HTTP
  call, at that moment the agent and its token are live, the organisation is licensed and
  within its limit, a near-limit reservation is held around the call and released after
  it, and a call that was resolved to a connector still finds that very row, with the
  fingerprint taken when the approver's request was made. At most one call is made.\<close>

theorem resume_requires_current_authority:
  assumes "dispatchApproved env req = (res, evs)" "HttpCall c \<in> set evs"
    and "\<And>adapters. reAIRouter env = Some adapters \<Longrightarrow> one_call adapters"
  shows "http_calls evs = [HttpCall c] \<and> resume_live env req \<and> licensed (reLicense env) (aqOrgID req)
     \<and> usage_answer (reLicense env) (aqOrgID req) = (True, None)
     \<and> (\<forall>rid ok err. reserve_answer (reLicense env) (aqOrgID req) = Some (rid, ok, err) \<longrightarrow>
          ok \<and> err = None \<and> hd evs = Reserved rid \<and> last evs = Released rid)
     \<and> (aqResolvedToolID req \<noteq> [] \<longrightarrow> (\<exists>cfg. fetchResolvedConnector env (aqOrgID req) (aqResolvedToolID req) = Inr (Some cfg)
          \<and> config_hash env cfg = aqResolvedConfigHash req))"
proof -
  have gates: "resume_live env req" "licensed (reLicense env) (aqOrgID req)" "usage_answer (reLicense env) (aqOrgID req) = (True, None)"
    using assms(1,2) by (auto simp: dispatchApproved_def refuse_def split: if_splits)
  obtain res' evs' where r: "resume_dispatch env req = (res', evs')" by (cases "resume_dispatch env req")
  have shape: "evs = (case reserve_answer (reLicense env) (aqOrgID req) of None \<Rightarrow> evs' | Some (rid, _, _) \<Rightarrow> Reserved rid # evs' @ [Released rid])"
    and ok: "\<forall>rid ok err. reserve_answer (reLicense env) (aqOrgID req) = Some (rid, ok, err) \<longrightarrow> ok \<and> err = None"
    using assms(1,2) gates r by (auto simp: dispatchApproved_def refuse_def split: if_splits option.splits prod.splits)
  have c: "HttpCall c \<in> set evs'" using shape assms(2) by (auto split: option.splits prod.splits)
  have "length (http_calls evs') \<le> 1" using resume_dispatch_calls [of env req] assms(3) r by simp
  moreover have "HttpCall c \<in> set (http_calls evs')" using c by (simp add: http_calls_def)
  ultimately have "http_calls evs' = [HttpCall c]" by (cases "http_calls evs'") auto
  then have "http_calls evs = [HttpCall c]" using shape by (auto split: option.splits prod.splits)
  moreover have "aqResolvedToolID req \<noteq> [] \<Longrightarrow> \<exists>cfg. fetchResolvedConnector env (aqOrgID req) (aqResolvedToolID req) = Inr (Some cfg)
      \<and> config_hash env cfg = aqResolvedConfigHash req"
    by (rule resume_dispatch_pinned [OF r c]) auto
  moreover have "\<forall>rid ok err. reserve_answer (reLicense env) (aqOrgID req) = Some (rid, ok, err) \<longrightarrow>
      ok \<and> err = None \<and> hd evs = Reserved rid \<and> last evs = Released rid"
    using ok shape by auto
  ultimately show ?thesis using gates by blast
qed

definition sample_resume_env :: resume_env where
  "sample_resume_env = \<lparr>reLive = Some (\<lambda>_ _ _ _. (Live, None)), reLicense = None, reHttp = sample_env, reCipher = False,
     reDownstreamURL = ''http://mcp'', reToolRouter = True, reAIRouter = Some claude_registry, reTools = [], reToolErr = None,
     reSha256 = id, reMarshalPaths = (\<lambda>_. [])\<rparr>"

definition sample_approval :: approval_request where
  "sample_approval = \<lparr>aqOrgID = ''o1'', aqAgentID = ''a1'', aqTokenID = ''j1'', aqAPIKeyID = [], aqAgentName = ''bot'',
     aqTool = ''crm'', aqAction = ''get'', aqParameters = None, aqSessionID = ''s1'', aqResolvedToolID = [], aqResolvedConfigHash = []\<rparr>"

theorem resume_requires_current_authority_witness:
  "\<exists>c. http_calls (snd (dispatchApproved sample_resume_env sample_approval)) = [HttpCall c] \<and> hcURL c = ''http://mcp/v1/mcp/tool_call''"
proof -
  obtain res evs where d: "dispatchApproved sample_resume_env sample_approval = (res, evs)"
    by (cases "dispatchApproved sample_resume_env sample_approval")
  let ?c = "\<lparr>hcMethod = ''POST'', hcURL = ''http://mcp/v1/mcp/tool_call'', hcHeaders = [(''Content-Type'', ''application/json'')],
     hcBody = Some (downstreamRequest (tool_request sample_approval))\<rparr>"
  have "HttpCall ?c \<in> set evs"
    using d by (auto simp: dispatchApproved_def sample_resume_env_def resume_live_def licensed_def usage_answer_def reserve_answer_def
        resume_dispatch_def sample_approval_def proxy_Forward_def sample_env_def Let_def)
  moreover have "\<And>adapters. reAIRouter sample_resume_env = Some adapters \<Longrightarrow> one_call adapters"
    using one_call_claude by (simp add: sample_resume_env_def)
  ultimately have "http_calls evs = [HttpCall ?c]"
    using resume_requires_current_authority [OF d] by blast
  then show ?thesis by (simp add: d)
qed

text \<open>the fingerprint pins the whole connector configuration. For a hash function without
  a collision on the two inputs, equal fingerprints mean equal type, target, encrypted
  credentials, action mappings and redaction rules; the text fields hold no NUL byte, which
  the database does not store in them, while the credentials may be any bytes.\<close>

theorem config_hash_pins_connector:
  assumes "ComputeConfigHash sha256 t b cr ap rr = ComputeConfigHash sha256 t' b' cr' ap' rr'"
    and nul: "NUL \<notin> set (t @ b @ ap @ rr)" "NUL \<notin> set (t' @ b' @ ap' @ rr')"
    and coll: "sha256 (config_preimage t b cr ap rr) = sha256 (config_preimage t' b' cr' ap' rr')
       \<Longrightarrow> config_preimage t b cr ap rr = config_preimage t' b' cr' ap' rr'"
  shows "t = t' \<and> b = b' \<and> cr = cr' \<and> ap = ap' \<and> rr = rr'"
proof -
  have eq: "t @ NUL # (b @ NUL # (cr @ NUL # ap @ NUL # rr)) = t' @ NUL # (b' @ NUL # (cr' @ NUL # ap' @ NUL # rr'))"
    using coll assms(1) by (simp add: ComputeConfigHash_def hex_encode_inject config_preimage_def)
  have 1: "t = t'" "b @ NUL # (cr @ NUL # ap @ NUL # rr) = b' @ NUL # (cr' @ NUL # ap' @ NUL # rr')"
    using append_sep_inject [OF _ _ eq] nul by auto
  have 2: "b = b'" "cr @ NUL # ap @ NUL # rr = cr' @ NUL # ap' @ NUL # rr'"
    using append_sep_inject [OF _ _ 1(2)] nul by auto
  have 3: "(cr @ NUL # ap) @ NUL # rr = (cr' @ NUL # ap') @ NUL # rr'" using 2(2) by simp
  have 4: "rr = rr'" "cr @ NUL # ap = cr' @ NUL # ap'"
    using append_sep_inject_last [OF _ _ 3] nul by auto
  have "ap = ap'" "cr = cr'"
    using append_sep_inject_last [OF _ _ 4(2)] nul by auto
  with 1 2 4 show ?thesis by simp
qed

theorem config_hash_pins_connector_witness:
  "ComputeConfigHash id ''rest_api'' ''u'' [NUL] [] [] = ComputeConfigHash id (''rest'' @ ''_api'') ''u'' [NUL] [] []
   \<and> ''rest_api'' = ''rest'' @ ''_api''
   \<and> ComputeConfigHash id ''rest_api'' ''u'' [NUL] [] [] \<noteq> ComputeConfigHash id ''rest_api'' ''v'' [NUL] [] []"
proof -
  have h: "ComputeConfigHash id ''rest_api'' ''u'' [NUL] [] [] = ComputeConfigHash id (''rest'' @ ''_api'') ''u'' [NUL] [] []" by simp
  have "''rest_api'' = ''rest'' @ ''_api'' \<and> ''u'' = ''u'' \<and> [NUL] = [NUL] \<and> ([] :: string) = [] \<and> ([] :: string) = []"
    by (rule config_hash_pins_connector [OF h]) simp_all
  moreover have "ComputeConfigHash id ''rest_api'' ''u'' [NUL] [] [] \<noteq> ComputeConfigHash id ''rest_api'' ''v'' [NUL] [] []"
  proof
    assume "ComputeConfigHash id ''rest_api'' ''u'' [NUL] [] [] = ComputeConfigHash id ''rest_api'' ''v'' [NUL] [] []"
    from config_hash_pins_connector [OF this] show False by simp
  qed
  ultimately show ?thesis using h by blast
qed

subsection \<open>A blocked listener\<close>

definition blocked :: "hold_state \<Rightarrow> bool" where
  "blocked s = ((\<exists>o'. hsNotify s = NSend o') \<and> hsChan s \<noteq> [] \<and> (\<exists>o'. hsHold s = HReturned o'))"

lemma blocked_step: "hold_system T aid s s' \<Longrightarrow> blocked s \<Longrightarrow> blocked s'"
  unfolding hold_system_def blocked_def
  by (auto elim!: hold_step.cases timeout_step.cases resolve_step.cases decide_step.cases)

lemma blocked_forever: "(hold_system T aid)\<^sup>*\<^sup>* s s' \<Longrightarrow> blocked s \<Longrightarrow> blocked s'"
  by (induction rule: rtranclp_induct) (auto intro: blocked_step)

text \<open>A state of the scenario below: the row is approved, the hold is past its last look.\<close>

definition late :: "once \<Rightarrow> HoldOutcome list \<Rightarrow> hold_pc \<Rightarrow> notify_pc \<Rightarrow> nat \<Rightarrow> hold_state" where
  "late once ch h n d = \<lparr>hsStatus = ''approved'', hsReason = [], hsBy = ''u1'', hsOnce = once, hsChan = ch,
     hsHold = h, hsNotify = n, hsDispatches = d\<rparr>"

lemma late_reach:
  assumes "o1 = fst (outcomeFromStatus resumed aid ''approved'' [] ''u1'')"
  shows "(hold_system T aid)\<^sup>*\<^sup>* hold_start (late (Done o1) [o1] HExpire NIdle 1)"
proof -
  let ?R = "hold_system T aid"
  have 1: "?R hold_start (hold_start\<lparr>hsHold := HTimeout False\<rparr>)"
    unfolding hold_system_def by (rule disjI1, rule hold_step.ctx_done) (simp add: hold_start_def)
  have 2: "?R (hold_start\<lparr>hsHold := HTimeout False\<rparr>) (hold_start\<lparr>hsHold := HExpire\<rparr>)"
    unfolding hold_system_def
    using timeout_step.deadline [of "hold_start\<lparr>hsHold := HTimeout False\<rparr>" T aid] by (simp add: hold_start_def)
  have 3: "?R (hold_start\<lparr>hsHold := HExpire\<rparr>) (late NotRun [] HExpire NIdle 0)"
    unfolding hold_system_def
    using decide_step.decide [where s = "hold_start\<lparr>hsHold := HExpire\<rparr>" and st = "''approved''" and re = "[]" and who = "''u1''"]
    by (simp add: hold_start_def late_def)
  have 4: "?R (late NotRun [] HExpire NIdle 0) (late NotRun [] HExpire NLoaded 0)"
    unfolding hold_system_def using resolve_step.load [of "late NotRun [] HExpire NIdle 0" aid] by (simp add: late_def)
  have 5: "?R (late NotRun [] HExpire NLoaded 0) (late NotRun [] HExpire (NOnce ''approved'' [] ''u1'') 0)"
    unfolding hold_system_def using resolve_step.fetch [of "late NotRun [] HExpire NLoaded 0" aid] by (simp add: late_def)
  have 6: "?R (late NotRun [] HExpire (NOnce ''approved'' [] ''u1'') 0) (late Running [] HExpire (NRunning o1) 1)"
    unfolding hold_system_def
    using resolve_step.once_first [of "late NotRun [] HExpire (NOnce ''approved'' [] ''u1'') 0" "''approved''" "[]" "''u1''" resumed aid]
    by (simp add: late_def run_outcome_def assms outcomeFromStatus_def)
  have 7: "?R (late Running [] HExpire (NRunning o1) 1) (late (Done o1) [] HExpire (NSend o1) 1)"
    unfolding hold_system_def
    using resolve_step.once_finish [of "late Running [] HExpire (NRunning o1) 1" o1 aid] by (simp add: late_def)
  have 8: "?R (late (Done o1) [] HExpire (NSend o1) 1) (late (Done o1) [o1] HExpire NIdle 1)"
    unfolding hold_system_def
    using resolve_step.send [of "late (Done o1) [] HExpire (NSend o1) 1" o1 aid] by (simp add: late_def)
  show ?thesis
    by (rule converse_rtranclp_into_rtranclp [of ?R, OF 1], rule converse_rtranclp_into_rtranclp [of ?R, OF 2],
        rule converse_rtranclp_into_rtranclp [of ?R, OF 3], rule converse_rtranclp_into_rtranclp [of ?R, OF 4],
        rule converse_rtranclp_into_rtranclp [of ?R, OF 5], rule converse_rtranclp_into_rtranclp [of ?R, OF 6],
        rule converse_rtranclp_into_rtranclp [of ?R, OF 7], rule r_into_rtranclp [of ?R, OF 8])
qed

lemma late_blocks: "(hold_system T aid)\<^sup>*\<^sup>* (late (Done o1) [o1] HExpire NIdle 1) (late (Done o1) [o1] (HReturned o1) (NSend o1) 1)"
proof -
  let ?R = "hold_system T aid"
  have 1: "?R (late (Done o1) [o1] HExpire NIdle 1) (late (Done o1) [o1] HExpire NLoaded 1)"
    unfolding hold_system_def using resolve_step.load [of "late (Done o1) [o1] HExpire NIdle 1" aid] by (simp add: late_def)
  have 2: "?R (late (Done o1) [o1] HExpire NLoaded 1) (late (Done o1) [o1] HExpire (NOnce ''approved'' [] ''u1'') 1)"
    unfolding hold_system_def using resolve_step.fetch [of "late (Done o1) [o1] HExpire NLoaded 1" aid] by (simp add: late_def)
  have 3: "?R (late (Done o1) [o1] HExpire (NOnce ''approved'' [] ''u1'') 1) (late (Done o1) [o1] HExpire (NSend o1) 1)"
    unfolding hold_system_def
    using resolve_step.once_second [of "late (Done o1) [o1] HExpire (NOnce ''approved'' [] ''u1'') 1" _ _ _ o1 aid] by (simp add: late_def)
  have 4: "?R (late (Done o1) [o1] HExpire (NSend o1) 1) (late (Done o1) [o1] HFetch (NSend o1) 1)"
    unfolding hold_system_def
    using timeout_step.not_pending [of "late (Done o1) [o1] HExpire (NSend o1) 1" T aid] by (simp add: late_def)
  have 5: "?R (late (Done o1) [o1] HFetch (NSend o1) 1) (late (Done o1) [o1] (HOnce ''approved'' [] ''u1'') (NSend o1) 1)"
    unfolding hold_system_def
    using timeout_step.fetch [of "late (Done o1) [o1] HFetch (NSend o1) 1" T aid] by (simp add: late_def)
  have 6: "?R (late (Done o1) [o1] (HOnce ''approved'' [] ''u1'') (NSend o1) 1) (late (Done o1) [o1] (HReturned o1) (NSend o1) 1)"
    unfolding hold_system_def
    using timeout_step.once_second [of "late (Done o1) [o1] (HOnce ''approved'' [] ''u1'') (NSend o1) 1" _ _ _ o1 T aid]
    by (simp add: late_def)
  show ?thesis
    by (rule converse_rtranclp_into_rtranclp [of ?R, OF 1], rule converse_rtranclp_into_rtranclp [of ?R, OF 2],
        rule converse_rtranclp_into_rtranclp [of ?R, OF 3], rule converse_rtranclp_into_rtranclp [of ?R, OF 4],
        rule converse_rtranclp_into_rtranclp [of ?R, OF 5], rule r_into_rtranclp [of ?R, OF 6])
qed

text \<open>The decision channel can block the listener for good. With two notifications for
  one approval while the hold is on its timeout path, a state is reached in which the hold
  has returned, the channel's one slot is taken and the listener waits to send; from there
  on it waits in every later state.\<close>

theorem listener_can_block:
  "\<exists>s. (hold_system T aid)\<^sup>*\<^sup>* hold_start s \<and> (\<forall>s'. (hold_system T aid)\<^sup>*\<^sup>* s s' \<longrightarrow>
     (\<exists>o'. hsNotify s' = NSend o') \<and> hsChan s' \<noteq> [] \<and> (\<exists>o'. hsHold s' = HReturned o'))"
proof -
  let ?o = "fst (outcomeFromStatus (Inl (ErrText []), None) aid ''approved'' [] ''u1'')"
  let ?s = "late (Done ?o) [?o] (HReturned ?o) (NSend ?o) 1"
  have "(hold_system T aid)\<^sup>*\<^sup>* hold_start ?s"
    by (rule rtranclp_trans [OF late_reach [OF refl] late_blocks])
  moreover have "blocked ?s" by (simp add: blocked_def late_def)
  then have "\<forall>s'. (hold_system T aid)\<^sup>*\<^sup>* ?s s' \<longrightarrow> blocked s'"
    using blocked_forever by blast
  ultimately show ?thesis unfolding blocked_def by blast
qed

theorem listener_can_block_witness:
  "\<exists>s. (hold_system second ''a1'')\<^sup>*\<^sup>* hold_start s \<and> hsChan s \<noteq> []"
  using listener_can_block [of second "''a1''"] by blast

end
