(* ===== verification/Dispatcher.thy ===== *)
theory Dispatcher
  imports Policy_Engine Audit_Chain Approval_Flow
begin

text \<open>
  The one path of every governed call (\<^verbatim>\<open>eami-gateway/cmd/gateway/dispatcher.go\<close>): the gates,
  connector resolution, policy decision, the three branches with their audit writes, and
  the hooks. \<open>dispatch_env\<close> holds what the dispatcher's collaborators answer during a call
  (they are interfaces or pointers in the code) and the clock readings; the result is what
  the caller gets, with the effects in order. A hold answers with its outcome and the
  events of the resumed call.
\<close>

section \<open>Calls (mcp/handler.go)\<close>

record ActionContext =
  acAgentID :: string
  acTokenID :: string
  acAPIKeyID :: string
  acAgentUUID :: string
  acAgentName :: string
  acOrgID :: string
  acWorkspaceID :: string
  acAgentScope :: string
  acTool :: string
  acAction :: string
  acParameters :: params
  acEnvironment :: string
  acSessionID :: string
  acWorkflowRunID :: string
  acStepIndex :: "int option"
  acReceivedAt :: time

text \<open>The fields \<^verbatim>\<open>ToPolicyContext\<close> does not set keep Go's zero values.\<close>

definition ToPolicyContext :: "ActionContext \<Rightarrow> policy_context" where
  "ToPolicyContext a = \<lparr>pcOrgID = acOrgID a, pcWorkspaceID = acWorkspaceID a, pcAgentID = [], pcAgentName = acAgentName a,
     pcScope = acAgentScope a, pcAgentScope = [], pcModel = [], pcOwner = [], pcRiskTier = [], pcToolName = acTool a,
     pcActionType = acAction a, pcActionVerb = [], pcToolServerID = [], pcParameters = acParameters a,
     pcEnvironment = acEnvironment a, pcEstimatedRecordCount = 0, pcSessionActions = [], pcTimestamp = zero_time\<rparr>"

section \<open>Collaborators and effects\<close>

record episode_step =
  esToolName :: string
  esAction :: string
  esParams :: params
  esResult :: string
  esDecision :: string
  esTimestamp :: time

datatype effect =
    Down http_call
  | Reserve uuid
  | Unreserve uuid
  | Audit Entry "go_error option"
  | Submitted approval_request
  | HoldResumed "event list"
  | AuditFailureLogged string
  | TokenUsage tokenUsagePayload
  | Episode string string string "episode_step list" string

record dispatch_env =
  deLive :: "live_checker option"
  deLicense :: license_checker
  deHttp :: http_env
  deCipher :: bool
  deAdapters :: "string \<rightharpoonup> adapter"
  deDownstreamURL :: string
  deTools :: "gateway_tool_row list"
  deToolErr :: "go_error option"
  deProviderErr :: "go_error option"
  deEvaluate :: "policy_context \<Rightarrow> Decision \<times> go_error option"
  deWrite :: "Entry \<Rightarrow> go_error option"
  deSubmit :: "approval_request \<Rightarrow> string result"
  deHold :: "string \<Rightarrow> approval_request \<Rightarrow> HoldOutcome \<times> event list"
  deParseUUID :: "string \<Rightarrow> uuid" \<comment> \<open>uuid.Parse with its error dropped: the nil id then\<close>
  deSha256 :: "string \<Rightarrow> string"
  deMarshalPaths :: "(string \<times> ActionPathEntry) list \<Rightarrow> string"
  deDecodeUsage :: "string \<Rightarrow> usage_body option"
  deLatencyMS :: int
  deHoldMS :: int
  deNow :: time

record DispatchOutcome =
  doDecision :: string
  doResult :: string
  doErr :: "go_error option"
  doDispatched :: bool
  doEpisodeSteps :: "episode_step list"
  doEpisodeOutcome :: string
  doAuditWriteErr :: "go_error option"
  doAuditDecision :: string
  doResolutionAuditEntry :: "Entry option"

type_synonym dispatch_result = "(string \<times> go_error option) \<times> effect list"

section \<open>Hooks\<close>

definition newEpisodeStep :: "ActionContext \<Rightarrow> string \<Rightarrow> string \<Rightarrow> episode_step" where
  "newEpisodeStep ac decision result = \<lparr>esToolName = acTool ac, esAction = acAction ac, esParams = acParameters ac,
     esResult = result, esDecision = decision, esTimestamp = acReceivedAt ac\<rparr>"

definition logAuditWriteFailureHook :: "DispatchOutcome \<Rightarrow> effect list" where
  "logAuditWriteFailureHook o' = (if doAuditWriteErr o' = None then [] else [AuditFailureLogged (doAuditDecision o')])"

definition recordEscalationResolutionAuditHook :: "dispatch_env \<Rightarrow> DispatchOutcome \<Rightarrow> effect list" where
  "recordEscalationResolutionAuditHook env o' =
     (case doResolutionAuditEntry o' of None \<Rightarrow> [] | Some e \<Rightarrow> [Audit e (deWrite env e)])"

definition recordTokenUsageHook :: "dispatch_env \<Rightarrow> ActionContext \<Rightarrow> DispatchOutcome \<Rightarrow> effect list" where
  "recordTokenUsageHook env ac o' =
     (if \<not> doDispatched o' then []
      else [TokenUsage (extractTokenUsage (deDecodeUsage env) (deNow env) (doResult o')
              (acOrgID ac, acAgentUUID ac, acAgentName ac, acTool ac))])"

definition recordEpisodeHook :: "ActionContext \<Rightarrow> DispatchOutcome \<Rightarrow> effect list" where
  "recordEpisodeHook ac o' =
     (if doEpisodeSteps o' = [] then []
      else [Episode (acOrgID ac) (acAgentUUID ac) (acAgentName ac) (doEpisodeSteps o') (doEpisodeOutcome o')])"

text \<open>The single exit: whether the call was dispatched is derived from the error, then every
  hook of \<^verbatim>\<open>NewDispatcher\<close> runs in its order.\<close>

definition finish :: "dispatch_env \<Rightarrow> ActionContext \<Rightarrow> DispatchOutcome \<Rightarrow> dispatch_result" where
  "finish env ac o0 =
     (let o' = o0\<lparr>doDispatched := (doErr o0 = None)\<rparr>
      in ((doResult o', doErr o'),
          logAuditWriteFailureHook o' @ recordEscalationResolutionAuditHook env o' @ recordTokenUsageHook env ac o'
          @ recordEpisodeHook ac o'))"

definition base_entry :: "dispatch_env \<Rightarrow> ActionContext \<Rightarrow> Entry" where
  "base_entry env ac = empty_entry\<lparr>eOrgID := deParseUUID env (acOrgID ac), eAgentID := deParseUUID env (acAgentUUID ac),
     eAgentName := acAgentName ac, eToolName := acTool ac, eAction := acAction ac, eLatencyMS := deLatencyMS env,
     eTimestamp := acReceivedAt ac, eWorkflowRunID := deParseUUID env (acWorkflowRunID ac), eStepIndex := acStepIndex ac\<rparr>"

section \<open>Refusals\<close>

text \<open>The shape shared by the five refusals: a denied row without parameters, then the exit.\<close>

definition reject_closed :: "dispatch_env \<Rightarrow> ActionContext \<Rightarrow> go_error \<Rightarrow> dispatch_result" where
  "reject_closed env ac err =
     (let e = (base_entry env ac)\<lparr>eParameters := None, eDecision := ''denied''\<rparr>;
          w = deWrite env e
      in apsnd ((#) (Audit e w)) (finish env ac
           \<lparr>doDecision = ''denied'', doResult = [], doErr = Some err, doDispatched = False,
            doEpisodeSteps = [newEpisodeStep ac ''blocked'' []], doEpisodeOutcome = ''blocked'',
            doAuditWriteErr = w, doAuditDecision = ''denied'', doResolutionAuditEntry = None\<rparr>))"

definition rejectOnProviderResolveError :: "dispatch_env \<Rightarrow> ActionContext \<Rightarrow> go_error \<Rightarrow> dispatch_result" where
  "rejectOnProviderResolveError env ac resolveErr =
     reject_closed env ac (Wrapped ''dispatch: ai_provider connector resolution failed'' resolveErr)"

definition rejectOnNotLive :: "dispatch_env \<Rightarrow> ActionContext \<Rightarrow> dispatch_result" where
  "rejectOnNotLive env ac = reject_closed env ac (Sentinel ErrNotLive)"

definition rejectOnMissingLicense :: "dispatch_env \<Rightarrow> ActionContext \<Rightarrow> dispatch_result" where
  "rejectOnMissingLicense env ac =
     reject_closed env ac (ErrText ''dispatch: your organization is not licensed for the Gateway module'')"

definition rejectOnUsageLimitExceeded :: "dispatch_env \<Rightarrow> ActionContext \<Rightarrow> dispatch_result" where
  "rejectOnUsageLimitExceeded env ac =
     reject_closed env ac (ErrText ''dispatch: your organization has exceeded its licensed usage limit for this period'')"

definition rejectOnUsageLimitContention :: "dispatch_env \<Rightarrow> ActionContext \<Rightarrow> dispatch_result" where
  "rejectOnUsageLimitContention env ac =
     reject_closed env ac (ErrText ''dispatch: your organization is near its licensed usage limit and another call is currently in flight -- please retry shortly'')"

definition notLiveReason :: "dispatch_env \<Rightarrow> ActionContext \<Rightarrow> string" where
  "notLiveReason env ac =
     (case deLive env of
        None \<Rightarrow> ''liveness_unavailable''
      | Some check \<Rightarrow>
        (case check (acAgentUUID ac) (acOrgID ac) (acTokenID ac) (acAPIKeyID ac) of
           (_, Some _) \<Rightarrow> ''liveness_unavailable''
         | (Live, None) \<Rightarrow> []
         | (TokenRevoked, None) \<Rightarrow> ''token_revoked''
         | (AgentNotActive, None) \<Rightarrow> ''agent_not_active''))"

definition notLiveOr :: "go_error option \<Rightarrow> go_error option" where
  "notLiveOr err =
     (case err of
        Some e \<Rightarrow> if errors_is ErrAgentNotLive e then Some (Sentinel ErrNotLive) else Some e
      | None \<Rightarrow> None)"

section \<open>The branches\<close>

definition deny_branch :: "dispatch_env \<Rightarrow> ActionContext \<Rightarrow> Entry \<Rightarrow> Decision \<Rightarrow> string \<Rightarrow> dispatch_result" where
  "deny_branch env ac e0 dec policyID =
     (let e = e0\<lparr>eDecision := ''denied''\<rparr>; w = deWrite env e
      in apsnd ((#) (Audit e w)) (finish env ac
           \<lparr>doDecision = ''denied'', doResult = [], doErr = Some (PolicyDenied (dReason dec) policyID), doDispatched = False,
            doEpisodeSteps = [newEpisodeStep ac ''blocked'' []], doEpisodeOutcome = ''blocked'',
            doAuditWriteErr = w, doAuditDecision = ''denied'', doResolutionAuditEntry = None\<rparr>))"

text \<open>The connector an approver's review is based on, pinned by id and fingerprint.\<close>

definition pin_connector :: "dispatch_env \<Rightarrow> ai_row option \<Rightarrow> ToolRow option \<Rightarrow> approval_request \<Rightarrow> approval_request" where
  "pin_connector env provider tool req =
     (case provider of
        Some p \<Rightarrow> req\<lparr>aqResolvedToolID := aiID p,
          aqResolvedConfigHash := ComputeConfigHash (deSha256 env) ''ai_provider'' (aiProvider p) (aiCredentialsEncrypted p) [] (aiRedactionRules p)\<rparr>
      | None \<Rightarrow>
        (case tool of
           Some t \<Rightarrow> req\<lparr>aqResolvedToolID := twID t,
             aqResolvedConfigHash := ComputeConfigHash (deSha256 env) ''rest_api'' (case twBaseURL t of None \<Rightarrow> [] | Some u \<Rightarrow> u)
               (twCredentialsEncrypted t) (if twActionPaths t = [] then [] else deMarshalPaths env (twActionPaths t)) []\<rparr>
         | None \<Rightarrow> req))"

definition escalation_request :: "ActionContext \<Rightarrow> approval_request" where
  "escalation_request ac = \<lparr>aqOrgID = acOrgID ac, aqAgentID = acAgentUUID ac, aqTokenID = acTokenID ac, aqAPIKeyID = acAPIKeyID ac,
     aqAgentName = acAgentName ac, aqTool = acTool ac, aqAction = acAction ac, aqParameters = acParameters ac,
     aqSessionID = acSessionID ac, aqResolvedToolID = [], aqResolvedConfigHash = []\<rparr>"

definition int32_of :: "nat \<Rightarrow> int" where
  "int32_of n = sint (of_nat n :: 32 word)"

text \<open>The second audit row of a resolved escalation.\<close>

definition resolution_entry :: "dispatch_env \<Rightarrow> Entry \<Rightarrow> string \<Rightarrow> HoldOutcome \<Rightarrow> Entry option" where
  "resolution_entry env e approvalID ho =
     (if \<not> hoResolved ho then None
      else
        let decision = (if hoStatus ho = ''approved'' \<and> hoErr ho = None then ''allowed'' else ''denied'')
        in Some (e\<lparr>eDecision := decision, eApprovalID := approvalID,
             eRedactedCount := (case hoRedactedCount ho of None \<Rightarrow> eRedactedCount e | Some n \<Rightarrow> Some (int32_of n)),
             eApprovedBy := (if decision = ''allowed'' \<or> hoStatus ho \<noteq> ''approved'' then hoApprovedBy ho else eApprovedBy e),
             eTimestamp := deNow env, eLatencyMS := deHoldMS env\<rparr>))"

text \<open>\<open>unreserve\<close> is the release of the near-limit reservation, before the wait.\<close>

definition escalate_branch ::
  "dispatch_env \<Rightarrow> effect list \<Rightarrow> ActionContext \<Rightarrow> Entry \<Rightarrow> ai_row option \<Rightarrow> ToolRow option \<Rightarrow> dispatch_result" where
  "escalate_branch env unreserve ac e0 provider tool =
     (let e = e0\<lparr>eDecision := ''escalated''\<rparr>; w = deWrite env e;
          req = pin_connector env provider tool (escalation_request ac)
      in case deSubmit env req of
           Inl submitErr \<Rightarrow>
             apsnd ((@) [Audit e w]) (finish env ac
               \<lparr>doDecision = ''escalated'', doResult = [], doErr = Some (Wrapped ''approval submit'' submitErr), doDispatched = False,
                doEpisodeSteps = [], doEpisodeOutcome = [], doAuditWriteErr = w, doAuditDecision = ''escalated'',
                doResolutionAuditEntry = None\<rparr>)
         | Inr approvalID \<Rightarrow>
             (case deHold env approvalID req of
                (ho, evs) \<Rightarrow>
                  apsnd ((@) ([Audit e w, Submitted req] @ unreserve @ [HoldResumed evs])) (finish env ac
                    \<lparr>doDecision = ''escalated'', doResult = hoResult ho, doErr = notLiveOr (hoErr ho), doDispatched = False,
                     doEpisodeSteps = [newEpisodeStep ac ''escalated'' (hoResult ho)],
                     doEpisodeOutcome = (if hoErr ho = None then ''success'' else ''failed''),
                     doAuditWriteErr = w, doAuditDecision = ''escalated'',
                     doResolutionAuditEntry = resolution_entry env e approvalID ho\<rparr>)))"

definition call_request :: "ActionContext \<Rightarrow> ToolRequest" where
  "call_request ac = \<lparr>trToolName = acTool ac, trAction = acAction ac, trParams = acParameters ac, trSessionID = acSessionID ac\<rparr>"

text \<open>The downstream call of an allowed action, with the redaction count of a provider call.\<close>

definition downstream ::
  "dispatch_env \<Rightarrow> ActionContext \<Rightarrow> ai_row option \<Rightarrow> ToolRow option \<Rightarrow> (ToolResponse result \<times> nat option) \<times> http_call list" where
  "downstream env ac provider tool =
     (case provider of
        Some p \<Rightarrow>
          (case ai_Dispatch (deHttp env) (deCipher env) (deAdapters env) (Some p) (acAction ac) (acParameters ac) of
             ((tr, n), calls) \<Rightarrow> ((tr, Some n), calls))
      | None \<Rightarrow>
        (case tool of
           Some t \<Rightarrow> (case tool_Forward (deHttp env) (deCipher env) (Some t) (call_request ac) of (tr, calls) \<Rightarrow> ((tr, None), calls))
         | None \<Rightarrow> (case proxy_Forward (deHttp env) (deDownstreamURL env) (call_request ac) of (tr, calls) \<Rightarrow> ((tr, None), calls))))"

definition allow_branch :: "dispatch_env \<Rightarrow> ActionContext \<Rightarrow> Entry \<Rightarrow> ai_row option \<Rightarrow> ToolRow option \<Rightarrow> dispatch_result" where
  "allow_branch env ac e0 provider tool =
     (case downstream env ac provider tool of
        ((tr, n), calls) \<Rightarrow>
          let e1 = (case n of None \<Rightarrow> e0 | Some n \<Rightarrow> e0\<lparr>eRedactedCount := Some (int32_of n)\<rparr>)
          in apsnd ((@) (map Down calls))
            (case tr of
               Inl proxyErr \<Rightarrow>
                 (let e = e1\<lparr>eDecision := ''denied''\<rparr>; w = deWrite env e
                  in apsnd ((#) (Audit e w)) (finish env ac
                    \<lparr>doDecision = ''allowed'', doResult = [], doErr = Some (Wrapped ''proxy error'' proxyErr), doDispatched = False,
                     doEpisodeSteps = [newEpisodeStep ac ''allowed'' []], doEpisodeOutcome = ''failed'',
                     doAuditWriteErr = w, doAuditDecision = ''denied'', doResolutionAuditEntry = None\<rparr>))
             | Inr t \<Rightarrow>
                 (let e = e1\<lparr>eDecision := ''allowed''\<rparr>; w = deWrite env e
                  in apsnd ((#) (Audit e w)) (finish env ac
                    \<lparr>doDecision = ''allowed'', doResult = tsBody t, doErr = None, doDispatched = False,
                     doEpisodeSteps = [newEpisodeStep ac ''allowed'' (tsBody t)], doEpisodeOutcome = ''success'',
                     doAuditWriteErr = w, doAuditDecision = ''allowed'', doResolutionAuditEntry = None\<rparr>))))"

section \<open>Dispatch\<close>

definition audit_entry :: "dispatch_env \<Rightarrow> ActionContext \<Rightarrow> string \<Rightarrow> ai_row option \<Rightarrow> Entry" where
  "audit_entry env ac policyID provider =
     (let e = (base_entry env ac)\<lparr>eParameters := acParameters ac, ePolicyID := policyID\<rparr> in
      case provider of
        None \<Rightarrow> e
      | Some p \<Rightarrow> e\<lparr>eParameters := (if aiAuditMode p \<noteq> ''full'' then None else eParameters e), eDataHandling := aiDataHandling p\<rparr>)"

text \<open>From the resolved connector on: policy, then the branch of its decision. An evaluation
  error makes the action allow.\<close>

definition decide_and_run ::
  "dispatch_env \<Rightarrow> effect list \<Rightarrow> ActionContext \<Rightarrow> ai_row option \<Rightarrow> ToolRow option \<Rightarrow> dispatch_result" where
  "decide_and_run env unreserve ac provider tool =
     (let pc = (ToPolicyContext ac)\<lparr>pcToolServerID := (case tool of Some t \<Rightarrow> twID t
                 | None \<Rightarrow> (case provider of Some p \<Rightarrow> aiID p | None \<Rightarrow> []))\<rparr>
      in case deEvaluate env pc of
        (dec0, evalErr) \<Rightarrow>
          let dec = (if evalErr = None then dec0 else dec0\<lparr>dAction := ActionAllow\<rparr>);
              policyID = (case dPolicyID dec of None \<Rightarrow> [] | Some i \<Rightarrow> i);
              e = audit_entry env ac policyID provider
          in if dAction dec = ActionDeny then deny_branch env ac e dec policyID
             else if dAction dec = ActionEscalate then escalate_branch env unreserve ac e provider tool
             else allow_branch env ac e provider tool)"

definition resolve_and_run :: "dispatch_env \<Rightarrow> effect list \<Rightarrow> ActionContext \<Rightarrow> dispatch_result" where
  "resolve_and_run env unreserve ac =
     (case resolveDynamicTool (deHttp env) (deToolErr env) (deTools env) (acOrgID ac) (acTool ac) of
        Some tool \<Rightarrow> decide_and_run env unreserve ac None (Some tool)
      | None \<Rightarrow>
        (case resolveAIProviderTool (deProviderErr env) (deTools env) (acOrgID ac) (acTool ac) of
           Inl resolveErr \<Rightarrow> rejectOnProviderResolveError env ac resolveErr
         | Inr provider \<Rightarrow> decide_and_run env unreserve ac provider None))"

definition Dispatch :: "dispatch_env \<Rightarrow> ActionContext \<Rightarrow> dispatch_result" where
  "Dispatch env ac =
     (if notLiveReason env ac \<noteq> [] then rejectOnNotLive env ac
      else if \<not> lcModuleLicensed (deLicense env) (acOrgID ac) ''gateway'' then rejectOnMissingLicense env ac
      else if usage_answer (Some (deLicense env)) (acOrgID ac) \<noteq> (True, None) then rejectOnUsageLimitExceeded env ac
      else case reserve_answer (Some (deLicense env)) (acOrgID ac) of
        None \<Rightarrow> resolve_and_run env [] ac
      | Some (rid, ok, err) \<Rightarrow>
        if err \<noteq> None \<or> \<not> ok then rejectOnUsageLimitContention env ac
        else
          let release = (case rid of None \<Rightarrow> [] | Some i \<Rightarrow> [Unreserve i])
          in apsnd (\<lambda>effs. (case rid of None \<Rightarrow> [] | Some i \<Rightarrow> [Reserve i]) @ effs @ release)
               (resolve_and_run env release ac))"

section \<open>Effects of the parts\<close>

named_theorems dispatch_effects \<open>which effects a part of a dispatch can have\<close>

lemma finish_fst [simp]: "fst (finish env ac o0) = (doResult o0, doErr o0)"
  by (simp add: finish_def Let_def)

lemma finish_no_call [dispatch_effects]:
  "Down c \<notin> set (snd (finish env ac o0))" "HoldResumed evs \<notin> set (snd (finish env ac o0))"
  "Submitted req \<notin> set (snd (finish env ac o0))" "Reserve i \<notin> set (snd (finish env ac o0))" "Unreserve i \<notin> set (snd (finish env ac o0))"
  by (auto simp: finish_def Let_def logAuditWriteFailureHook_def recordEscalationResolutionAuditHook_def
      recordTokenUsageHook_def recordEpisodeHook_def split: if_splits option.splits)

lemma finish_audit [dispatch_effects]:
  "Audit e w \<in> set (snd (finish env ac o0)) \<longleftrightarrow> doResolutionAuditEntry o0 = Some e \<and> w = deWrite env e"
  by (auto simp: finish_def Let_def logAuditWriteFailureHook_def recordEscalationResolutionAuditHook_def
      recordTokenUsageHook_def recordEpisodeHook_def split: if_splits option.splits)

lemma finish_usage [dispatch_effects]:
  "TokenUsage p \<in> set (snd (finish env ac o0)) \<longleftrightarrow> doErr o0 = None
     \<and> p = extractTokenUsage (deDecodeUsage env) (deNow env) (doResult o0) (acOrgID ac, acAgentUUID ac, acAgentName ac, acTool ac)"
  by (auto simp: finish_def Let_def logAuditWriteFailureHook_def recordEscalationResolutionAuditHook_def
      recordTokenUsageHook_def recordEpisodeHook_def split: if_splits option.splits)

lemma reject_closed_effects [dispatch_effects]:
  "Down c \<notin> set (snd (reject_closed env ac err))" "HoldResumed evs \<notin> set (snd (reject_closed env ac err))"
  "TokenUsage p \<notin> set (snd (reject_closed env ac err))"
  "Audit e w \<in> set (snd (reject_closed env ac err)) \<longleftrightarrow>
     e = (base_entry env ac)\<lparr>eParameters := None, eDecision := ''denied''\<rparr> \<and> w = deWrite env e"
  by (auto simp: reject_closed_def Let_def dispatch_effects)

lemma reject_closed_fst [simp]: "fst (reject_closed env ac err) = ([], Some err)"
  by (simp add: reject_closed_def Let_def)

lemmas rejections = rejectOnProviderResolveError_def rejectOnNotLive_def rejectOnMissingLicense_def
  rejectOnUsageLimitExceeded_def rejectOnUsageLimitContention_def

lemma downstream_one:
  assumes "one_call (deAdapters env)"
  shows "length (snd (downstream env ac provider tool)) \<le> 1"
  using ai_Dispatch_one [OF assms] tool_Forward_one proxy_Forward_calls
  by (simp add: downstream_def case_prod_unfold split: option.split)

lemma deny_branch_effects [dispatch_effects]:
  "Down c \<notin> set (snd (deny_branch env ac e0 dec pid))" "HoldResumed evs \<notin> set (snd (deny_branch env ac e0 dec pid))"
  "TokenUsage p \<notin> set (snd (deny_branch env ac e0 dec pid))"
  "Audit e w \<in> set (snd (deny_branch env ac e0 dec pid)) \<longleftrightarrow> e = e0\<lparr>eDecision := ''denied''\<rparr> \<and> w = deWrite env e"
  by (auto simp: deny_branch_def Let_def dispatch_effects)

lemma deny_branch_fst [simp]: "fst (deny_branch env ac e0 dec pid) = ([], Some (PolicyDenied (dReason dec) pid))"
  by (simp add: deny_branch_def Let_def)

lemma escalate_branch_effects [dispatch_effects]:
  assumes "\<forall>x\<in>set un. \<exists>i. x = Unreserve i"
  shows "Down c \<notin> set (snd (escalate_branch env un ac e0 provider tool))"
    "Audit e w \<in> set (snd (escalate_branch env un ac e0 provider tool)) \<longleftrightarrow> w = deWrite env e \<and> (e = e0\<lparr>eDecision := ''escalated''\<rparr>
       \<or> (\<exists>aid. deSubmit env (pin_connector env provider tool (escalation_request ac)) = Inr aid
            \<and> resolution_entry env (e0\<lparr>eDecision := ''escalated''\<rparr>) aid
                (fst (deHold env aid (pin_connector env provider tool (escalation_request ac)))) = Some e))"
    "(\<exists>p. TokenUsage p \<in> set (snd (escalate_branch env un ac e0 provider tool))) \<longleftrightarrow>
       snd (fst (escalate_branch env un ac e0 provider tool)) = None"
  using assms
  by (auto simp: escalate_branch_def Let_def dispatch_effects case_prod_unfold split: sum.splits)

lemma resolution_entry_fields:
  "resolution_entry env e aid ho = Some e' \<Longrightarrow> hoResolved ho \<and> eApprovalID e' = aid \<and> eParameters e' = eParameters e
     \<and> (eDecision e' = ''allowed'' \<longleftrightarrow> hoStatus ho = ''approved'' \<and> hoErr ho = None)
     \<and> eApprovedBy e' = (if hoStatus ho = ''approved'' \<and> hoErr ho \<noteq> None then eApprovedBy e else hoApprovedBy ho)"
  by (auto simp: resolution_entry_def Let_def split: if_splits)

lemma allow_branch_effects [dispatch_effects]:
  "HoldResumed evs \<notin> set (snd (allow_branch env ac e0 provider tool))"
  "(\<exists>p. TokenUsage p \<in> set (snd (allow_branch env ac e0 provider tool))) \<longleftrightarrow>
     snd (fst (allow_branch env ac e0 provider tool)) = None"
  "Down c \<in> set (snd (allow_branch env ac e0 provider tool)) \<longleftrightarrow> c \<in> set (snd (downstream env ac provider tool))"
  by (auto simp: allow_branch_def Let_def dispatch_effects case_prod_unfold split: sum.splits)

lemma allow_branch_audit:
  "\<exists>e w. Audit e w \<in> set (snd (allow_branch env ac e0 provider tool))"
  "Audit e w \<in> set (snd (allow_branch env ac e0 provider tool)) \<Longrightarrow> w = deWrite env e \<and> eDecision e \<in> {''allowed'', ''denied''}
     \<and> (\<exists>n. e\<lparr>eDecision := eDecision e0\<rparr> = e0\<lparr>eRedactedCount := n\<rparr>)
     \<and> (eDecision e = ''allowed'' \<longleftrightarrow> snd (fst (allow_branch env ac e0 provider tool)) = None)"
proof -
  show "\<exists>e w. Audit e w \<in> set (snd (allow_branch env ac e0 provider tool))"
    by (auto simp: allow_branch_def Let_def case_prod_unfold split: sum.splits)
next
  assume a: "Audit e w \<in> set (snd (allow_branch env ac e0 provider tool))"
  obtain tr n calls where d: "downstream env ac provider tool = ((tr, n), calls)" by (metis prod.exhaust)
  let ?e1 = "case n of None \<Rightarrow> e0 | Some n \<Rightarrow> e0\<lparr>eRedactedCount := Some (int32_of n)\<rparr>"
  have "\<exists>m. ?e1 = e0\<lparr>eRedactedCount := m\<rparr>" by (cases n) (auto intro: exI [of _ "eRedactedCount e0"])
  then show "w = deWrite env e \<and> eDecision e \<in> {''allowed'', ''denied''}
     \<and> (\<exists>n. e\<lparr>eDecision := eDecision e0\<rparr> = e0\<lparr>eRedactedCount := n\<rparr>)
     \<and> (eDecision e = ''allowed'' \<longleftrightarrow> snd (fst (allow_branch env ac e0 provider tool)) = None)"
    using a d by (cases tr) (auto simp: allow_branch_def Let_def dispatch_effects)
qed

section \<open>The cases of a dispatch\<close>

definition gates_pass :: "dispatch_env \<Rightarrow> ActionContext \<Rightarrow> bool" where
  "gates_pass env ac = (notLiveReason env ac = [] \<and> lcModuleLicensed (deLicense env) (acOrgID ac) ''gateway''
     \<and> usage_answer (Some (deLicense env)) (acOrgID ac) = (True, None)
     \<and> (case reserve_answer (Some (deLicense env)) (acOrgID ac) of None \<Rightarrow> True | Some (rid, ok, err) \<Rightarrow> ok \<and> err = None))"

definition resolved :: "dispatch_env \<Rightarrow> ActionContext \<Rightarrow> ai_row option \<Rightarrow> ToolRow option \<Rightarrow> bool" where
  "resolved env ac provider tool =
     (tool = resolveDynamicTool (deHttp env) (deToolErr env) (deTools env) (acOrgID ac) (acTool ac)
      \<and> (case tool of Some _ \<Rightarrow> provider = None
         | None \<Rightarrow> resolveAIProviderTool (deProviderErr env) (deTools env) (acOrgID ac) (acTool ac) = Inr provider))"

text \<open>The decision that is acted on.\<close>

definition call_context_of :: "ActionContext \<Rightarrow> ai_row option \<Rightarrow> ToolRow option \<Rightarrow> policy_context" where
  "call_context_of ac provider tool = (ToPolicyContext ac)\<lparr>pcToolServerID := (case tool of Some t \<Rightarrow> twID t
     | None \<Rightarrow> (case provider of Some p \<Rightarrow> aiID p | None \<Rightarrow> []))\<rparr>"

definition effective_decision :: "dispatch_env \<Rightarrow> ActionContext \<Rightarrow> ai_row option \<Rightarrow> ToolRow option \<Rightarrow> Decision" where
  "effective_decision env ac provider tool =
     (case deEvaluate env (call_context_of ac provider tool) of
        (dec, None) \<Rightarrow> dec | (dec, Some _) \<Rightarrow> dec\<lparr>dAction := ActionAllow\<rparr>)"

definition decision_entry :: "dispatch_env \<Rightarrow> ActionContext \<Rightarrow> ai_row option \<Rightarrow> ToolRow option \<Rightarrow> Entry" where
  "decision_entry env ac provider tool =
     audit_entry env ac (case dPolicyID (effective_decision env ac provider tool) of None \<Rightarrow> [] | Some i \<Rightarrow> i) provider"

lemma decide_and_run_eq:
  "decide_and_run env un ac provider tool =
     (let dec = effective_decision env ac provider tool; e = decision_entry env ac provider tool in
      if dAction dec = ActionDeny then deny_branch env ac e dec (case dPolicyID dec of None \<Rightarrow> [] | Some i \<Rightarrow> i)
      else if dAction dec = ActionEscalate then escalate_branch env un ac e provider tool
      else allow_branch env ac e provider tool)"
  by (auto simp: decide_and_run_def effective_decision_def decision_entry_def call_context_of_def Let_def split: prod.splits option.splits)

definition reservation_effects :: "effect list \<Rightarrow> effect list \<Rightarrow> bool" where
  "reservation_effects pre un = (pre = [] \<and> un = [] \<or> (\<exists>i. pre = [Reserve i] \<and> un = [Unreserve i]))"

lemma reservation_effects_un: "reservation_effects pre un \<Longrightarrow> \<forall>x\<in>set un. \<exists>i. x = Unreserve i"
  by (auto simp: reservation_effects_def)

lemma Dispatch_cases:
  obtains (rejected) pre un err where "reservation_effects pre un"
      "Dispatch env ac = apsnd (\<lambda>effs. pre @ effs @ un) (reject_closed env ac err)"
    | (run) pre un provider tool where "reservation_effects pre un" "gates_pass env ac" "resolved env ac provider tool"
      "Dispatch env ac = apsnd (\<lambda>effs. pre @ effs @ un) (decide_and_run env un ac provider tool)"
proof (cases "gates_pass env ac")
  case False
  have id: "apsnd (\<lambda>effs. [] @ effs @ []) x = (x :: dispatch_result)" for x by (cases x) simp
  have "\<exists>err. Dispatch env ac = reject_closed env ac err"
    using False by (auto simp: gates_pass_def Dispatch_def rejections split: option.splits prod.splits if_splits)
  then obtain err where "Dispatch env ac = apsnd (\<lambda>effs. [] @ effs @ []) (reject_closed env ac err)"
    by (simp only: id) blast
  then show ?thesis by (rule rejected [rotated]) (simp add: reservation_effects_def)
next
  case True
  obtain pre un where pu: "reservation_effects pre un"
    and D: "Dispatch env ac = apsnd (\<lambda>effs. pre @ effs @ un) (resolve_and_run env un ac)"
  proof (cases "reserve_answer (Some (deLicense env)) (acOrgID ac)")
    case None
    have "Dispatch env ac = apsnd (\<lambda>effs. [] @ effs @ []) (resolve_and_run env [] ac)"
      using True None by (cases "resolve_and_run env [] ac") (simp add: gates_pass_def Dispatch_def)
    then show ?thesis by (rule that [rotated]) (simp add: reservation_effects_def)
  next
    case (Some a)
    then obtain rid ok err where r: "reserve_answer (Some (deLicense env)) (acOrgID ac) = Some (rid, ok, err)" by (cases a) auto
    have "Dispatch env ac = apsnd (\<lambda>effs. (case rid of None \<Rightarrow> [] | Some i \<Rightarrow> [Reserve i]) @ effs @ (case rid of None \<Rightarrow> [] | Some i \<Rightarrow> [Unreserve i]))
        (resolve_and_run env (case rid of None \<Rightarrow> [] | Some i \<Rightarrow> [Unreserve i]) ac)"
      using True r by (simp add: gates_pass_def Dispatch_def Let_def)
    then show ?thesis by (rule that [rotated]) (simp add: reservation_effects_def split: option.split)
  qed
  show ?thesis
  proof (cases "resolveDynamicTool (deHttp env) (deToolErr env) (deTools env) (acOrgID ac) (acTool ac)")
    case (Some t)
    then show ?thesis using D by (intro run [OF pu True, of None "Some t"]) (simp_all add: resolved_def resolve_and_run_def)
  next
    case None
    show ?thesis
    proof (cases "resolveAIProviderTool (deProviderErr env) (deTools env) (acOrgID ac) (acTool ac)")
      case (Inl err)
      then show ?thesis using None D
        by (intro rejected [OF pu]) (simp add: resolve_and_run_def rejectOnProviderResolveError_def)
    next
      case (Inr provider)
      then show ?thesis using None D by (intro run [OF pu True, of provider None]) (simp_all add: resolved_def resolve_and_run_def)
    qed
  qed
qed

lemma apsnd_result: "x = apsnd f y \<Longrightarrow> x = ((a, b), c) \<Longrightarrow> a = fst (fst y) \<and> b = snd (fst y) \<and> c = f (snd y)"
  by (cases y) auto

lemma reservation_mem:
  "reservation_effects pre un \<Longrightarrow> x \<in> set pre \<union> set un \<Longrightarrow> \<exists>i. x = Reserve i \<or> x = Unreserve i"
  by (auto simp: reservation_effects_def)

text \<open>An audit entry names the call it belongs to.\<close>

definition names_call :: "dispatch_env \<Rightarrow> ActionContext \<Rightarrow> Entry \<Rightarrow> bool" where
  "names_call env ac e = (eOrgID e = deParseUUID env (acOrgID ac) \<and> eAgentName e = acAgentName ac
     \<and> eToolName e = acTool ac \<and> eAction e = acAction ac)"

lemma names_call_update [simp]:
  "names_call env ac (e\<lparr>eDecision := d\<rparr>) = names_call env ac e"
  "names_call env ac (e\<lparr>eRedactedCount := n\<rparr>) = names_call env ac e"
  by (simp_all add: names_call_def)

lemma names_call_decision_entry: "names_call env ac (decision_entry env ac provider tool)"
  by (simp add: names_call_def decision_entry_def audit_entry_def base_entry_def Let_def split: option.split)

lemma decide_and_run_audited:
  assumes "\<forall>x\<in>set un. \<exists>i. x = Unreserve i"
  shows "\<exists>e w. Audit e w \<in> set (snd (decide_and_run env un ac provider tool)) \<and> names_call env ac e
    \<and> (eDecision e = ''allowed'' \<longrightarrow> snd (fst (decide_and_run env un ac provider tool)) = None)
    \<and> (snd (fst (decide_and_run env un ac provider tool)) = None \<longrightarrow> eDecision e \<in> {''allowed'', ''escalated''})"
proof -
  let ?d = "effective_decision env ac provider tool" and ?e = "decision_entry env ac provider tool"
  consider (deny) "dAction ?d = ActionDeny" | (escalate) "dAction ?d \<noteq> ActionDeny" "dAction ?d = ActionEscalate"
    | (allow) "dAction ?d \<noteq> ActionDeny" "dAction ?d \<noteq> ActionEscalate" by blast
  then show ?thesis
  proof cases
    case deny
    then have "decide_and_run env un ac provider tool = deny_branch env ac ?e ?d (case dPolicyID ?d of None \<Rightarrow> [] | Some i \<Rightarrow> i)"
      by (simp only: decide_and_run_eq Let_def if_True simp_thms)
    then show ?thesis
      by (intro exI [of _ "?e\<lparr>eDecision := ''denied''\<rparr>"] exI [of _ "deWrite env (?e\<lparr>eDecision := ''denied''\<rparr>)"])
        (simp add: deny_branch_effects(4) names_call_decision_entry)
  next
    case escalate
    then have "decide_and_run env un ac provider tool = escalate_branch env un ac ?e provider tool"
      by (simp only: decide_and_run_eq Let_def if_True if_False simp_thms)
    then show ?thesis
      by (intro exI [of _ "?e\<lparr>eDecision := ''escalated''\<rparr>"] exI [of _ "deWrite env (?e\<lparr>eDecision := ''escalated''\<rparr>)"])
        (simp add: escalate_branch_effects(2) [OF assms] names_call_decision_entry)
  next
    case allow
    then have run: "decide_and_run env un ac provider tool = allow_branch env ac ?e provider tool"
      by (simp only: decide_and_run_eq Let_def if_False simp_thms)
    obtain e w where a: "Audit e w \<in> set (snd (allow_branch env ac ?e provider tool))" using allow_branch_audit(1) by blast
    from allow_branch_audit(2) [OF a] obtain n where n: "e\<lparr>eDecision := eDecision ?e\<rparr> = ?e\<lparr>eRedactedCount := n\<rparr>"
      and dec: "eDecision e = ''allowed'' \<longleftrightarrow> snd (fst (allow_branch env ac ?e provider tool)) = None"
      by (elim conjE exE) (rule that)
    have "names_call env ac e" using arg_cong [OF n, of "names_call env ac"] by (simp add: names_call_decision_entry)
    with a dec show ?thesis unfolding run by (intro exI [of _ e] exI [of _ w]) simp
  qed
qed

section \<open>Properties\<close>

lemma downstream_gated:
  assumes "Dispatch env ac = (res, effs)" "Down c \<in> set effs \<or> HoldResumed evs \<in> set effs"
  shows "gates_pass env ac \<and> (\<exists>provider tool. resolved env ac provider tool
     \<and> (Down c \<in> set effs \<longrightarrow> dAction (effective_decision env ac provider tool) \<notin> {ActionDeny, ActionEscalate})
     \<and> (HoldResumed evs \<in> set effs \<longrightarrow> dAction (effective_decision env ac provider tool) = ActionEscalate))"
proof (cases rule: Dispatch_cases [of env ac])
  case (rejected pre un err)
  then have "effs = pre @ snd (reject_closed env ac err) @ un" using assms(1) by (metis apsnd_conv prod.collapse snd_conv)
  with assms(2) reservation_mem [OF rejected(1)] show ?thesis by (auto simp: dispatch_effects)
next
  case (run pre un provider tool)
  have effs: "effs = pre @ snd (decide_and_run env un ac provider tool) @ un"
    using run(4) assms(1) by (metis apsnd_conv prod.collapse snd_conv)
  have not_res: "x \<in> set effs \<Longrightarrow> \<forall>i. x \<noteq> Reserve i \<and> x \<noteq> Unreserve i \<Longrightarrow> x \<in> set (snd (decide_and_run env un ac provider tool))" for x
    using effs reservation_mem [OF run(1)] by auto
  have "Down c \<in> set effs \<Longrightarrow> dAction (effective_decision env ac provider tool) \<notin> {ActionDeny, ActionEscalate}"
    using not_res [of "Down c"] reservation_effects_un [OF run(1)]
    by (auto simp: decide_and_run_eq Let_def dispatch_effects split: if_splits)
  moreover have "HoldResumed evs \<in> set effs \<Longrightarrow> dAction (effective_decision env ac provider tool) = ActionEscalate"
    using not_res [of "HoldResumed evs"]
    by (auto simp: decide_and_run_eq Let_def dispatch_effects split: if_splits)
  ultimately show ?thesis using run(2,3) by blast
qed

text \<open>C1: nothing leaves the gateway without every check. If a dispatch makes a downstream call
  or resumes a held one, then the agent and token were live, the organisation was licensed,
  within its limit and, near it, held the reservation; a direct downstream call is made only
  when the policy decision for the resolved connector is neither deny nor escalate, a held
  call only when it is escalate.\<close>

theorem downstream_call_gated:
  assumes "Dispatch env ac = (res, effs)" "Down c \<in> set effs \<or> HoldResumed evs \<in> set effs"
  shows "gates_pass env ac \<and> (\<exists>provider tool. resolved env ac provider tool
     \<and> (Down c \<in> set effs \<longrightarrow> dAction (effective_decision env ac provider tool) \<notin> {ActionDeny, ActionEscalate})
     \<and> (HoldResumed evs \<in> set effs \<longrightarrow> dAction (effective_decision env ac provider tool) = ActionEscalate))"
  using downstream_gated [OF assms] .

definition sample_call :: ActionContext where
  "sample_call = \<lparr>acAgentID = ''agent:bot'', acTokenID = ''j1'', acAPIKeyID = [], acAgentUUID = ''a1'', acAgentName = ''bot'',
     acOrgID = ''o1'', acWorkspaceID = [], acAgentScope = [], acTool = ''crm'', acAction = ''get'', acParameters = None,
     acEnvironment = ''production'', acSessionID = ''s1'', acWorkflowRunID = [], acStepIndex = None, acReceivedAt = 0\<rparr>"

definition sample_decision :: "string \<Rightarrow> Decision" where
  "sample_decision a = \<lparr>dAction = a, dPolicyID = Some ''p1'', dPolicyName = None, dReason = ''because'', dEvalTimeMS = 0\<rparr>"

definition sample_dispatch_env :: "string \<Rightarrow> dispatch_env" where
  "sample_dispatch_env a = \<lparr>deLive = Some (\<lambda>_ _ _ _. (Live, None)),
     deLicense = \<lparr>lcModuleLicensed = (\<lambda>_ _. True), lcWithinUsageLimit = None, lcReserveIfNearLimit = None\<rparr>,
     deHttp = sample_env, deCipher = True, deAdapters = claude_registry, deDownstreamURL = ''http://mcp'',
     deTools = [sample_tool ''rest_api''], deToolErr = None, deProviderErr = None,
     deEvaluate = (\<lambda>_. (sample_decision a, None)), deWrite = (\<lambda>_. None), deSubmit = (\<lambda>_. Inr ''ap1''),
     deHold = (\<lambda>aid req. (fst (outcomeFromStatus (Inr \<lparr>tsStatus = 200, tsBody = ''ok''\<rparr>, None) aid ''approved'' [] ''u1''), [])),
     deParseUUID = id, deSha256 = id, deMarshalPaths = (\<lambda>_. []), deDecodeUsage = (\<lambda>_. None), deLatencyMS = 1, deHoldMS = 2,
     deNow = 5\<rparr>"

lemma sample_resolved:
  "resolveDynamicTool sample_env None [sample_tool ''rest_api''] ''o1'' ''crm'' =
     Some \<lparr>twID = ''t1'', twType = ''rest_api'', twAuthType = ''api_key'', twBaseURL = Some ''https://crm.example/'',
           twCredentialsEncrypted = [], twActionPaths = []\<rparr>"
  by (simp add: resolveDynamicTool_def tool_Resolve_def sample_tool_def Let_def)

lemmas sample_run = Dispatch_def notLiveReason_def usage_answer_def reserve_answer_def resolve_and_run_def decide_and_run_eq
  effective_decision_def decision_entry_def audit_entry_def sample_decision_def sample_dispatch_env_def sample_call_def

theorem downstream_call_gated_witness:
  "gates_pass (sample_dispatch_env ''allow'') sample_call"
proof -
  obtain res effs where d: "Dispatch (sample_dispatch_env ''allow'') sample_call = (res, effs)"
    by (cases "Dispatch (sample_dispatch_env ''allow'') sample_call")
  then have effs: "effs = snd (Dispatch (sample_dispatch_env ''allow'') sample_call)" by simp
  have "\<exists>c. Down c \<in> set effs"
    by (simp add: effs sample_run sample_resolved allow_branch_effects(3) action_defs downstream_def tool_Forward_def
        row_credentials_def action_target_def Let_def case_prod_unfold) (simp add: sample_env_def Let_def)
  then obtain c where "Down c \<in> set effs" by blast
  from downstream_call_gated [OF d disjI1 [OF this]] show ?thesis by simp
qed

text \<open>C10: every call leaves an audit row. Whichever way a dispatch ends, it attempts an audit
  entry that names the organisation, agent, tool and action of the call; a denied action is
  recorded as denied, an escalated one as escalated before the wait, an allowed one as
  allowed exactly when the downstream call succeeded.\<close>

theorem every_call_audited:
  assumes "Dispatch env ac = ((result, err), effs)"
  shows "\<exists>e w. Audit e w \<in> set effs \<and> names_call env ac e
     \<and> (eDecision e = ''allowed'' \<longrightarrow> err = None) \<and> (err = None \<longrightarrow> eDecision e \<in> {''allowed'', ''escalated''})"
proof (cases rule: Dispatch_cases [of env ac])
  case (rejected pre un e)
  let ?r = "(base_entry env ac)\<lparr>eParameters := None, eDecision := ''denied''\<rparr>"
  have effs: "effs = pre @ snd (reject_closed env ac e) @ un" and err: "err = Some e"
    using apsnd_result [OF rejected(2) assms] by simp_all
  have "Audit ?r (deWrite env ?r) \<in> set (snd (reject_closed env ac e))" by (simp only: reject_closed_effects(4) simp_thms)
  then have "Audit ?r (deWrite env ?r) \<in> set effs" by (simp only: effs set_append Un_iff simp_thms)
  moreover have "names_call env ac ?r" by (simp add: names_call_def base_entry_def)
  moreover have "eDecision ?r = ''denied''" by simp
  ultimately show ?thesis unfolding err by (intro exI [of _ ?r] exI [of _ "deWrite env ?r"]) simp
next
  case (run pre un provider tool)
  have effs: "effs = pre @ snd (decide_and_run env un ac provider tool) @ un" and err: "err = snd (fst (decide_and_run env un ac provider tool))"
    using apsnd_result [OF run(4) assms] by simp_all
  from decide_and_run_audited [OF reservation_effects_un [OF run(1)], of env ac provider tool, folded err]
  obtain e w where "Audit e w \<in> set (snd (decide_and_run env un ac provider tool))" "names_call env ac e"
    "eDecision e = ''allowed'' \<longrightarrow> err = None" "err = None \<longrightarrow> eDecision e \<in> {''allowed'', ''escalated''}"
    by (elim exE conjE) (rule that)
  then show ?thesis unfolding effs by (intro exI [of _ e] exI [of _ w]) simp
qed

theorem every_call_audited_witness:
  "\<exists>e w. Audit e w \<in> set (snd (Dispatch (sample_dispatch_env ''deny'') sample_call)) \<and> eToolName e = ''crm''"
proof -
  obtain result err effs where d: "Dispatch (sample_dispatch_env ''deny'') sample_call = ((result, err), effs)" by (metis prod.exhaust)
  from every_call_audited [OF d] obtain e w where "Audit e w \<in> set effs" "names_call (sample_dispatch_env ''deny'') sample_call e"
    by (elim exE conjE) (rule that)
  then show ?thesis unfolding d snd_conv
    by (intro exI [of _ e] exI [of _ w]) (simp add: names_call_def sample_call_def)
qed

text \<open>prompts stay out of the audit log. When a call resolves to an AI provider connector
  that is not in full audit mode, no audit entry of its dispatch carries the parameters, on
  any branch, including the resolution row of an escalation; nor does any entry of a call
  that is refused before its connector is known.\<close>

theorem provider_audit_masked:
  assumes "Dispatch env ac = ((result, err), effs)" "Audit e w \<in> set effs" "eParameters e \<noteq> None"
  shows "\<exists>provider tool. resolved env ac provider tool \<and> (\<forall>p. provider = Some p \<longrightarrow> aiAuditMode p = ''full'')"
proof (cases rule: Dispatch_cases [of env ac])
  case (rejected pre un e')
  have "effs = pre @ snd (reject_closed env ac e') @ un" using apsnd_result [OF rejected(2) assms(1)] by simp
  with assms(2,3) reservation_mem [OF rejected(1)] show ?thesis by (auto simp: dispatch_effects)
next
  case (run pre un provider tool)
  let ?e = "decision_entry env ac provider tool"
  have effs: "effs = pre @ snd (decide_and_run env un ac provider tool) @ un"
    using apsnd_result [OF run(4) assms(1)] by simp
  have a: "Audit e w \<in> set (snd (decide_and_run env un ac provider tool))"
    using effs assms(2) reservation_mem [OF run(1)] by auto
  have res: "resolution_entry env (?e\<lparr>eDecision := d\<rparr>) aid ho = Some e \<Longrightarrow> eParameters e = eParameters ?e" for d aid ho
    by (auto simp: resolution_entry_def Let_def split: if_splits)
  have al: "Audit e w \<in> set (snd (allow_branch env ac ?e provider tool)) \<Longrightarrow> eParameters e = eParameters ?e"
  proof -
    assume "Audit e w \<in> set (snd (allow_branch env ac ?e provider tool))"
    from allow_branch_audit(2) [OF this] obtain n where n: "e\<lparr>eDecision := eDecision ?e\<rparr> = ?e\<lparr>eRedactedCount := n\<rparr>" by blast
    show ?thesis using arg_cong [OF n, of eParameters] by simp
  qed
  have "eParameters e = eParameters ?e"
    using a res al reservation_effects_un [OF run(1)]
    by (auto simp: decide_and_run_eq Let_def dispatch_effects split: if_splits)
  with assms(3) have "\<forall>p. provider = Some p \<longrightarrow> aiAuditMode p = ''full''"
    by (auto simp: decision_entry_def audit_entry_def Let_def split: if_splits)
  with run(3) show ?thesis by blast
qed

theorem provider_audit_masked_witness:
  "\<exists>provider tool. resolved (sample_dispatch_env ''deny'') (sample_call\<lparr>acParameters := Some []\<rparr>) provider tool
     \<and> (\<forall>p. provider = Some p \<longrightarrow> aiAuditMode p = ''full'')"
proof -
  let ?ac = "sample_call\<lparr>acParameters := Some []\<rparr>"
  obtain result err effs where d: "Dispatch (sample_dispatch_env ''deny'') ?ac = ((result, err), effs)" by (metis prod.exhaust)
  then have effs: "effs = snd (Dispatch (sample_dispatch_env ''deny'') ?ac)" by simp
  obtain e w where a: "Audit e w \<in> set effs" "eParameters e \<noteq> None"
    by (rule that [of "(decision_entry (sample_dispatch_env ''deny'') ?ac None (resolveDynamicTool sample_env None [sample_tool ''rest_api''] ''o1'' ''crm''))\<lparr>eDecision := ''denied''\<rparr>" None])
      (simp_all add: effs sample_run sample_resolved deny_branch_effects action_defs Let_def)
  from provider_audit_masked [OF d a] show ?thesis .
qed

text \<open>Usage is billed exactly for the calls that ran. A dispatch records token usage if and
  only if it returns without error, and then for the organisation, agent and tool of the
  call.\<close>

theorem usage_recorded_iff_success:
  assumes "Dispatch env ac = ((result, err), effs)"
  shows "(\<exists>p. TokenUsage p \<in> set effs) \<longleftrightarrow> err = None"
proof (cases rule: Dispatch_cases [of env ac])
  case (rejected pre un e')
  have "effs = pre @ snd (reject_closed env ac e') @ un" "err = Some e'" using apsnd_result [OF rejected(2) assms] by simp_all
  with reservation_mem [OF rejected(1)] show ?thesis by (auto simp: dispatch_effects)
next
  case (run pre un provider tool)
  have effs: "effs = pre @ snd (decide_and_run env un ac provider tool) @ un" "err = snd (fst (decide_and_run env un ac provider tool))"
    using apsnd_result [OF run(4) assms] by simp_all
  have "(\<exists>p. TokenUsage p \<in> set effs) \<longleftrightarrow> (\<exists>p. TokenUsage p \<in> set (snd (decide_and_run env un ac provider tool)))"
    using effs(1) reservation_mem [OF run(1)] by auto
  also have "\<dots> \<longleftrightarrow> err = None"
    using escalate_branch_effects(3) [OF reservation_effects_un [OF run(1)]]
    by (auto simp: effs(2) decide_and_run_eq Let_def deny_branch_effects allow_branch_effects(2))
  finally show ?thesis .
qed

theorem usage_recorded_iff_success_witness:
  "\<not> (\<exists>p. TokenUsage p \<in> set (snd (Dispatch (sample_dispatch_env ''deny'') sample_call)))"
proof -
  obtain result err effs where d: "Dispatch (sample_dispatch_env ''deny'') sample_call = ((result, err), effs)" by (metis prod.exhaust)
  then have "err = snd (fst (Dispatch (sample_dispatch_env ''deny'') sample_call))" by simp
  then have "err \<noteq> None" by (simp add: sample_run sample_resolved action_defs Let_def)
  with usage_recorded_iff_success [OF d] d show ?thesis by simp
qed

text \<open>the audit log never puts a decision in the wrong mouth. An audit entry of a dispatch
  that carries an approval id belongs to an escalation that was resolved; it says allowed
  only if the request was approved and the resumed call succeeded, and it names a decider
  only with that decider's own verdict: an approver next to allowed, or whoever denied.\<close>

theorem resolution_attribution:
  assumes "Dispatch env ac = ((result, err), effs)" "Audit e w \<in> set effs" "eApprovalID e \<noteq> []"
  shows "\<exists>req. deSubmit env req = Inr (eApprovalID e) \<and> (let ho = fst (deHold env (eApprovalID e) req) in
     hoResolved ho \<and> (eDecision e = ''allowed'' \<longleftrightarrow> hoStatus ho = ''approved'' \<and> hoErr ho = None)
     \<and> (eApprovedBy e \<noteq> [] \<longrightarrow> eApprovedBy e = hoApprovedBy ho \<and> (hoStatus ho = ''approved'' \<longrightarrow> eDecision e = ''allowed'')))"
proof (cases rule: Dispatch_cases [of env ac])
  case (rejected pre un e')
  have "effs = pre @ snd (reject_closed env ac e') @ un" using apsnd_result [OF rejected(2) assms(1)] by simp
  with assms(2,3) reservation_mem [OF rejected(1)] show ?thesis by (auto simp: dispatch_effects base_entry_def empty_entry_def)
next
  case (run pre un provider tool)
  let ?e = "decision_entry env ac provider tool"
  have blank: "eApprovalID ?e = []" "eApprovedBy ?e = []"
    by (simp_all add: decision_entry_def audit_entry_def base_entry_def empty_entry_def Let_def split: option.split)
  have effs: "effs = pre @ snd (decide_and_run env un ac provider tool) @ un"
    using apsnd_result [OF run(4) assms(1)] by simp
  have a: "Audit e w \<in> set (snd (decide_and_run env un ac provider tool))"
    using effs assms(2) reservation_mem [OF run(1)] by auto
  have al: "Audit e w \<notin> set (snd (allow_branch env ac ?e provider tool))"
  proof
    assume "Audit e w \<in> set (snd (allow_branch env ac ?e provider tool))"
    from allow_branch_audit(2) [OF this] obtain n where n: "e\<lparr>eDecision := eDecision ?e\<rparr> = ?e\<lparr>eRedactedCount := n\<rparr>" by blast
    show False using arg_cong [OF n, of eApprovalID] blank assms(3) by simp
  qed
  let ?req = "pin_connector env provider tool (escalation_request ac)"
  obtain aid where aid: "deSubmit env ?req = Inr aid"
    "resolution_entry env (?e\<lparr>eDecision := ''escalated''\<rparr>) aid (fst (deHold env aid ?req)) = Some e"
    using a al blank assms(3) reservation_effects_un [OF run(1)]
    by (auto simp: decide_and_run_eq Let_def dispatch_effects split: if_splits)
  note f = resolution_entry_fields [OF aid(2)]
  then have "eApprovalID e = aid" by blast
  with aid(1) f blank show ?thesis
    by (intro exI [of _ ?req]) (simp add: Let_def)
qed

theorem resolution_attribution_witness:
  "\<exists>req. deSubmit (sample_dispatch_env ''escalate'') req = Inr ''ap1''
     \<and> hoResolved (fst (deHold (sample_dispatch_env ''escalate'') ''ap1'' req))"
proof -
  let ?env = "sample_dispatch_env ''escalate''"
  obtain result err effs where d: "Dispatch ?env sample_call = ((result, err), effs)" by (metis prod.exhaust)
  then have effs: "effs = snd (Dispatch ?env sample_call)" by simp
  let ?E = "(decision_entry ?env sample_call None (resolveDynamicTool sample_env None [sample_tool ''rest_api''] ''o1'' ''crm''))
      \<lparr>eDecision := ''allowed'', eApprovalID := ''ap1'', eApprovedBy := ''u1'', eTimestamp := 5, eLatencyMS := 2\<rparr>"
  have "Audit ?E None \<in> set effs \<and> eApprovalID ?E = ''ap1''"
    by (simp add: effs sample_run sample_resolved escalate_branch_effects action_defs Let_def resolution_entry_def
        outcomeFromStatus_def base_entry_def empty_entry_def)
  then have "\<exists>e w. Audit e w \<in> set effs \<and> eApprovalID e = ''ap1''" by blast
  then obtain e w where a: "Audit e w \<in> set effs" "eApprovalID e = ''ap1''" by blast
  from resolution_attribution [OF d a(1)] a(2) show ?thesis by (auto simp: Let_def)
qed

subsection \<open>The connector of an escalated call\<close>

text \<open>The process that resumes reads the same table, with the same digest and encoding.\<close>

definition same_connectors :: "dispatch_env \<Rightarrow> resume_env \<Rightarrow> bool" where
  "same_connectors env renv = (reTools renv = deTools env \<and> reToolErr renv = None \<and> reHttp renv = deHttp env
     \<and> reSha256 renv = deSha256 env \<and> reMarshalPaths renv = deMarshalPaths env)"

text \<open>Rows as the keys of the table and the admin interface intend them: ids are unique, a REST
  connector has no redaction rules and a provider connector no action mappings.\<close>

definition plain_connector :: "gateway_tool_row \<Rightarrow> bool" where
  "plain_connector g = ((gtType g = ''rest_api'' \<longrightarrow> gtRedactionRules g = []) \<and> (gtType g = ''ai_provider'' \<longrightarrow> gtActionPaths g = []))"

lemma find_by_id:
  assumes "distinct (map gtID tools)" "g \<in> set tools"
  shows "List.find (\<lambda>h. gtID h = gtID g \<and> gtOrgID h = gtOrgID g) tools = Some g"
  using assms by (induction tools) auto

definition pinned_unchanged :: "resume_env \<Rightarrow> approval_request \<Rightarrow> bool" where
  "pinned_unchanged renv req = (\<exists>cfg. fetchResolvedConnector renv (aqOrgID req) (aqResolvedToolID req) = Inr (Some cfg)
     \<and> config_hash renv cfg = aqResolvedConfigHash req)"

lemma pinned_rest:
  assumes "resolveDynamicTool (deHttp env) (deToolErr env) (deTools env) (acOrgID ac) (acTool ac) = Some t"
    and "same_connectors env renv" "distinct (map gtID (deTools env))" "\<forall>g\<in>set (deTools env). plain_connector g"
  shows "pinned_unchanged renv (pin_connector env None (Some t) (escalation_request ac))"
proof -
  from assms(1) obtain g where g: "g \<in> set (deTools env)" "gtOrgID g = acOrgID ac" "gtType g = ''rest_api''"
    and t: "twID t = gtID g" "twBaseURL t = gtBaseURL g" "twCredentialsEncrypted t = gtCredentialsEncrypted g"
      "twActionPaths t = (if gtActionPaths g = [] then [] else case hePaths (deHttp env) (gtActionPaths g) of Inl _ \<Rightarrow> [] | Inr p \<Rightarrow> p)"
    by (auto simp: resolveDynamicTool_def tool_Resolve_def Let_def split: if_splits option.splits sum.splits dest!: find_Some_set)
  have "gtRedactionRules g = []" using assms(4) g by (auto simp: plain_connector_def)
  moreover have "List.find (\<lambda>h. gtID h = gtID g \<and> gtOrgID h = acOrgID ac) (deTools env) = Some g"
    using find_by_id [OF assms(3) g(1)] g(2) by simp
  ultimately show ?thesis
    using assms(2) g t by (simp add: pinned_unchanged_def pin_connector_def escalation_request_def fetchResolvedConnector_def
        same_connectors_def config_hash_def paths_json_def connector_target_def)
qed

lemma pinned_provider:
  assumes "resolveAIProviderTool (deProviderErr env) (deTools env) (acOrgID ac) (acTool ac) = Inr (Some p)"
    and "same_connectors env renv" "distinct (map gtID (deTools env))" "\<forall>g\<in>set (deTools env). plain_connector g"
  shows "pinned_unchanged renv (pin_connector env (Some p) tool (escalation_request ac))"
proof -
  from assms(1) obtain g where g: "g \<in> set (deTools env)" "gtOrgID g = acOrgID ac" "gtType g = ''ai_provider''"
    and t: "aiID p = gtID g" "aiProvider p = (case gtProvider g of None \<Rightarrow> [] | Some q \<Rightarrow> q)"
      "aiCredentialsEncrypted p = gtCredentialsEncrypted g" "aiRedactionRules p = gtRedactionRules g"
    by (auto simp: resolveAIProviderTool_def ai_Resolve_def split: if_splits option.splits sum.splits dest!: find_Some_set)
  have "gtActionPaths g = []" using assms(4) g by (auto simp: plain_connector_def)
  moreover have "List.find (\<lambda>h. gtID h = gtID g \<and> gtOrgID h = acOrgID ac) (deTools env) = Some g"
    using find_by_id [OF assms(3) g(1)] g(2) by simp
  ultimately show ?thesis
    using assms(2) g t by (simp add: pinned_unchanged_def pin_connector_def escalation_request_def fetchResolvedConnector_def
        same_connectors_def config_hash_def paths_json_def connector_target_def)
qed

text \<open>an unchanged connector is recognised. The fingerprint that a dispatch pins when it
  escalates a call is the fingerprint that the resumption computes from the same row, for
  REST and provider connectors alike; so an approved call is not refused because of its
  connector when nobody has touched it.\<close>

theorem unchanged_connector_resumes:
  assumes "resolved env ac provider tool" "provider \<noteq> None \<or> tool \<noteq> None" "same_connectors env renv"
    and "distinct (map gtID (deTools env))" "\<forall>g\<in>set (deTools env). plain_connector g"
  shows "pinned_unchanged renv (pin_connector env provider tool (escalation_request ac))"
  using assms pinned_rest [OF _ assms(3-5)] pinned_provider [OF _ assms(3-5)]
  by (cases tool; cases provider) (auto simp: resolved_def)

definition sample_renv :: "dispatch_env \<Rightarrow> resume_env" where
  "sample_renv env = sample_resume_env\<lparr>reTools := deTools env, reToolErr := None, reHttp := deHttp env, reSha256 := deSha256 env,
     reMarshalPaths := deMarshalPaths env\<rparr>"

theorem unchanged_connector_resumes_witness:
  "\<exists>tool. resolved (sample_dispatch_env ''escalate'') sample_call None (Some tool)
     \<and> pinned_unchanged (sample_renv (sample_dispatch_env ''escalate'')) (pin_connector (sample_dispatch_env ''escalate'') None (Some tool) (escalation_request sample_call))"
proof -
  let ?env = "sample_dispatch_env ''escalate''"
  obtain tool where r: "resolved ?env sample_call None (Some tool)"
    using sample_resolved by (auto simp: resolved_def sample_dispatch_env_def sample_call_def)
  have "same_connectors ?env (sample_renv ?env)" "distinct (map gtID (deTools ?env))" "\<forall>g\<in>set (deTools ?env). plain_connector g"
    by (simp_all add: same_connectors_def sample_renv_def sample_dispatch_env_def plain_connector_def sample_tool_def)
  from unchanged_connector_resumes [OF r _ this] r show ?thesis by blast
qed

text \<open>A provider connector with action mappings is never recognised. The pinned fingerprint
  leaves the mappings out, the recomputed one has them in; unless the digest collides on the
  two inputs, every approved call of such a connector is refused as changed although nobody
  touched it. Nothing in the admin interface prevents such a connector.\<close>

theorem mapped_provider_never_resumes:
  assumes "resolveAIProviderTool (deProviderErr env) (deTools env) (acOrgID ac) (acTool ac) = Inr (Some p)"
    and "same_connectors env renv" "distinct (map gtID (deTools env))"
    and "g \<in> set (deTools env)" "gtID g = aiID p" "gtActionPaths g \<noteq> []" "hePaths (deHttp env) (gtActionPaths g) = Inr paths" "paths \<noteq> []"
    and "deMarshalPaths env paths \<noteq> []"
    and coll: "deSha256 env (config_preimage ''ai_provider'' (aiProvider p) (aiCredentialsEncrypted p) (deMarshalPaths env paths) (aiRedactionRules p))
      \<noteq> deSha256 env (config_preimage ''ai_provider'' (aiProvider p) (aiCredentialsEncrypted p) [] (aiRedactionRules p))"
  shows "\<not> pinned_unchanged renv (pin_connector env (Some p) None (escalation_request ac))"
proof
  assume pu: "pinned_unchanged renv (pin_connector env (Some p) None (escalation_request ac))"
  from assms(1) obtain h where h: "h \<in> set (deTools env)" "gtOrgID h = acOrgID ac" "gtType h = ''ai_provider''"
    and t: "aiID p = gtID h" "aiProvider p = (case gtProvider h of None \<Rightarrow> [] | Some q \<Rightarrow> q)"
      "aiCredentialsEncrypted p = gtCredentialsEncrypted h" "aiRedactionRules p = gtRedactionRules h"
    by (auto simp: resolveAIProviderTool_def ai_Resolve_def split: if_splits option.splits sum.splits dest!: find_Some_set)
  have "h = g" using assms(3-5) h(1) t(1) by (auto simp: distinct_map dest: inj_onD)
  have "List.find (\<lambda>x. gtID x = gtID g \<and> gtOrgID x = acOrgID ac) (deTools env) = Some g"
    using find_by_id [OF assms(3,4)] h(2) \<open>h = g\<close> by simp
  then have "ComputeConfigHash (deSha256 env) ''ai_provider'' (aiProvider p) (aiCredentialsEncrypted p) (deMarshalPaths env paths) (aiRedactionRules p)
      = ComputeConfigHash (deSha256 env) ''ai_provider'' (aiProvider p) (aiCredentialsEncrypted p) [] (aiRedactionRules p)"
    using pu assms(2,6,7,8) h t \<open>h = g\<close> by (simp add: pinned_unchanged_def pin_connector_def escalation_request_def fetchResolvedConnector_def
        same_connectors_def config_hash_def paths_json_def connector_target_def)
  with coll show False by (simp add: ComputeConfigHash_def hex_encode_inject)
qed

definition mapped_provider_env :: dispatch_env where
  "mapped_provider_env = (sample_dispatch_env ''escalate'')\<lparr>deTools := [(sample_tool ''ai_provider'')\<lparr>gtActionPaths := ''{..}''\<rparr>],
     deHttp := sample_env\<lparr>hePaths := (\<lambda>_. Inr [(''get'', \<lparr>apPath = ''/items'', apMethod = ''GET'', apInputSchema = None\<rparr>)])\<rparr>,
     deMarshalPaths := (\<lambda>_. ''{..}'')\<rparr>"

theorem mapped_provider_never_resumes_witness:
  "\<exists>p. resolveAIProviderTool (deProviderErr mapped_provider_env) (deTools mapped_provider_env) ''o1'' ''crm'' = Inr (Some p)
     \<and> \<not> pinned_unchanged (sample_renv mapped_provider_env) (pin_connector mapped_provider_env (Some p) None (escalation_request sample_call))"
proof -
  let ?g = "(sample_tool ''ai_provider'')\<lparr>gtActionPaths := ''{..}''\<rparr>"
  obtain p where p: "resolveAIProviderTool (deProviderErr mapped_provider_env) (deTools mapped_provider_env) (acOrgID sample_call) (acTool sample_call) = Inr (Some p)"
    and i: "aiID p = gtID ?g"
    by (simp add: resolveAIProviderTool_def ai_Resolve_def mapped_provider_env_def sample_dispatch_env_def sample_tool_def sample_call_def)
  have c: "same_connectors mapped_provider_env (sample_renv mapped_provider_env)" "distinct (map gtID (deTools mapped_provider_env))" "?g \<in> set (deTools mapped_provider_env)"
    by (simp_all add: same_connectors_def sample_renv_def mapped_provider_env_def)
  have "\<not> pinned_unchanged (sample_renv mapped_provider_env) (pin_connector mapped_provider_env (Some p) None (escalation_request sample_call))"
    by (rule mapped_provider_never_resumes [OF p c, where paths = "[(''get'', \<lparr>apPath = ''/items'', apMethod = ''GET'', apInputSchema = None\<rparr>)]"])
      (simp_all add: i mapped_provider_env_def sample_dispatch_env_def config_preimage_def)
  with p show ?thesis by (auto simp: sample_call_def)
qed

end
