(* ===== verification/Rate_Limit.thy ===== *)
theory Rate_Limit
  imports Gateway_Prelude
begin

text \<open>
  The in-memory request limiters of the gateway. Token issuance
  (\<^verbatim>\<open>eami-gateway/internal/identity/issue_http.go\<close>) and workflow runs
  (\<^verbatim>\<open>eami-gateway/internal/workflow/ratelimit.go\<close>) each carry their own copy of the
  limiter; both are modelled, the contract of a limiter is the locale
  \<open>window_limiter\<close>, and both copies are interpreted in it. The state is the map from keys
  to the recorded attempts (a missing key is the empty list), \<open>now\<close> the clock reading of
  the call. The concurrency gate in front of API-key validation is here too.
\<close>

section \<open>The limiters\<close>

type_synonym attempts = "string \<Rightarrow> time list"

record rateLimiter =
  rlAttempts :: attempts
  rlLimit :: int
  rlWindow :: duration

definition newRateLimiter :: "int \<Rightarrow> duration \<Rightarrow> rateLimiter" where
  "newRateLimiter limit window = \<lparr>rlAttempts = (\<lambda>_. []), rlLimit = limit, rlWindow = window\<rparr>"

text \<open>The loop that keeps the attempts after the cutoff.\<close>

fun keep_after :: "time \<Rightarrow> time list \<Rightarrow> time list" where
  "keep_after cutoff [] = []"
| "keep_after cutoff (t # ts) = (if cutoff < t then t # keep_after cutoff ts else keep_after cutoff ts)"

definition issue_Allow :: "time \<Rightarrow> string \<Rightarrow> rateLimiter \<Rightarrow> (bool \<times> duration) \<times> rateLimiter" where
  "issue_Allow now key rl =
     (if rlLimit rl \<le> 0 then ((False, rlWindow rl), rl)
      else
        let cutoff = now - rlWindow rl;
            kept = keep_after cutoff (rlAttempts rl key)
        in if rlLimit rl \<le> int (length kept) then
             (let oldest = hd kept;
                  retryAfter = oldest + rlWindow rl - now
              in ((False, if retryAfter < second then second else retryAfter),
                  rl\<lparr>rlAttempts := (rlAttempts rl)(key := kept)\<rparr>))
           else ((True, 0), rl\<lparr>rlAttempts := (rlAttempts rl)(key := kept @ [now])\<rparr>))"

definition run_Allow :: "time \<Rightarrow> string \<Rightarrow> rateLimiter \<Rightarrow> (bool \<times> duration) \<times> rateLimiter" where
  "run_Allow now key rl =
     (if rlLimit rl \<le> 0 then ((False, rlWindow rl), rl)
      else
        let cutoff = now - rlWindow rl;
            kept = keep_after cutoff (rlAttempts rl key)
        in if rlLimit rl \<le> int (length kept) then
             (let oldest = hd kept;
                  retryAfter = oldest + rlWindow rl - now
              in ((False, if retryAfter < second then second else retryAfter),
                  rl\<lparr>rlAttempts := (rlAttempts rl)(key := kept)\<rparr>))
           else ((True, 0), rl\<lparr>rlAttempts := (rlAttempts rl)(key := kept @ [now])\<rparr>))"

text \<open>The \<^verbatim>\<open>Retry-After\<close> header: whole seconds, rounded up, at least one.\<close>

definition retry_after_secs :: "duration \<Rightarrow> int" where
  "retry_after_secs d =
     (let secs = go_div d second;
          secs = (if go_rem d second \<noteq> 0 then secs + 1 else secs)
      in if secs < 1 then 1 else secs)"

definition setRetryAfter :: "duration \<Rightarrow> string \<times> string" where
  "setRetryAfter d = (''Retry-After'', show_int (retry_after_secs d))"

lemma keep_after_filter: "keep_after c ts = filter (\<lambda>t. c < t) ts"
  by (induction ts) auto

lemma retry_after_secs_ge: "d \<le> retry_after_secs d * second"
proof (cases "0 \<le> d")
  case True
  then have "go_div d second = d div second" by (simp add: go_div_pos second_def)
  then show ?thesis
    using True by (auto simp: retry_after_secs_def go_rem_def Let_def second_def)
next
  case False
  have "1 \<le> retry_after_secs d" by (simp add: retry_after_secs_def Let_def)
  with False show ?thesis by (simp add: second_def)
qed

section \<open>The contract of a limiter\<close>

text \<open>The attempts granted over a sequence of calls.\<close>

fun granted :: "(time \<Rightarrow> string \<Rightarrow> rateLimiter \<Rightarrow> (bool \<times> duration) \<times> rateLimiter) \<Rightarrow> (time \<times> string) list \<Rightarrow> rateLimiter \<Rightarrow> (time \<times> string) list" where
  "granted allow [] rl = []"
| "granted allow ((now, key) # es) rl =
     (if fst (fst (allow now key rl)) then [(now, key)] else []) @ granted allow es (snd (allow now key rl))"

definition key_times :: "string \<Rightarrow> (time \<times> string) list \<Rightarrow> time list" where
  "key_times key h = map fst (filter (\<lambda>e. snd e = key) h)"

lemma key_times_append [simp]: "key_times key (h @ h') = key_times key h @ key_times key h'"
  by (simp add: key_times_def)

lemma key_times_single [simp]: "key_times key [(t, k)] = (if k = key then [t] else [])" "key_times key [] = []"
  by (simp_all add: key_times_def)

text \<open>A sliding window: an attempt is granted exactly when fewer than the limit of granted
  attempts lie in the window that ends now, and only granted attempts are recorded.\<close>

locale window_limiter =
  fixes allow :: "time \<Rightarrow> string \<Rightarrow> rateLimiter \<Rightarrow> (bool \<times> duration) \<times> rateLimiter"
  assumes allow_config: "rlLimit (snd (allow now key rl)) = rlLimit rl \<and> rlWindow (snd (allow now key rl)) = rlWindow rl"
    and allow_closed: "rlLimit rl \<le> 0 \<Longrightarrow> \<not> fst (fst (allow now key rl)) \<and> rlAttempts (snd (allow now key rl)) = rlAttempts rl"
    and allow_iff: "0 < rlLimit rl \<Longrightarrow> fst (fst (allow now key rl)) \<longleftrightarrow>
       int (length (filter (\<lambda>t. now - rlWindow rl < t) (rlAttempts rl key))) < rlLimit rl"
    and allow_attempts: "0 < rlLimit rl \<Longrightarrow> rlAttempts (snd (allow now key rl)) =
       (rlAttempts rl)(key := filter (\<lambda>t. now - rlWindow rl < t) (rlAttempts rl key)
          @ (if fst (fst (allow now key rl)) then [now] else []))"
    and allow_retry: "0 < rlLimit rl \<Longrightarrow> \<not> fst (fst (allow now key rl)) \<Longrightarrow>
       hd (filter (\<lambda>t. now - rlWindow rl < t) (rlAttempts rl key)) + rlWindow rl \<le> now + snd (fst (allow now key rl))"
begin

text \<open>What the attempts map says of the history of granted attempts.\<close>

definition tracks :: "rateLimiter \<Rightarrow> (time \<times> string) list \<Rightarrow> time \<Rightarrow> bool" where
  "tracks rl h now = (\<forall>key. filter (\<lambda>t. now - rlWindow rl < t) (rlAttempts rl key)
     = filter (\<lambda>t. now - rlWindow rl < t) (key_times key h))"

definition bounded :: "rateLimiter \<Rightarrow> (time \<times> string) list \<Rightarrow> bool" where
  "bounded rl h = (\<forall>T key. int (length (filter (\<lambda>t. T - rlWindow rl < t \<and> t \<le> T) (key_times key h))) \<le> max 0 (rlLimit rl))"

lemma tracks_later:
  assumes "tracks rl h now" "now \<le> now'"
  shows "tracks rl h now'"
  unfolding tracks_def
proof
  fix key
  have eq: "filter (\<lambda>t. now' - rlWindow rl < t) ts
      = filter (\<lambda>t. now' - rlWindow rl < t) (filter (\<lambda>t. now - rlWindow rl < t) ts)" for ts
    using assms(2) by (induction ts) auto
  show "filter (\<lambda>t. now' - rlWindow rl < t) (rlAttempts rl key) = filter (\<lambda>t. now' - rlWindow rl < t) (key_times key h)"
    using assms(1) by (subst (1 2) eq) (simp add: tracks_def)
qed

lemma allow_tracks:
  assumes "tracks rl h now"
  shows "tracks (snd (allow now key rl)) (h @ (if fst (fst (allow now key rl)) then [(now, key)] else [])) now"
proof (cases "0 < rlLimit rl")
  case False
  then show ?thesis
    using assms allow_closed [of rl now key] allow_config [of now key rl] by (simp add: tracks_def)
next
  case True
  show ?thesis
    using assms allow_config [of now key rl] allow_attempts [OF True, of now key]
    by (auto simp: tracks_def)
qed

lemma allow_bounded:
  assumes "tracks rl h now" "bounded rl h" "\<forall>e\<in>set h. fst e \<le> now"
  shows "bounded (snd (allow now key rl)) (h @ (if fst (fst (allow now key rl)) then [(now, key)] else []))"
proof (cases "fst (fst (allow now key rl))")
  case False
  then show ?thesis using assms(2) allow_config [of now key rl] by (simp add: bounded_def)
next
  case True
  then have pos: "0 < rlLimit rl" using allow_closed by (meson not_le)
  have few: "int (length (filter (\<lambda>t. now - rlWindow rl < t) (key_times key h))) < rlLimit rl"
    using True allow_iff [OF pos, of now key] assms(1) by (simp add: tracks_def)
  have "int (length (filter (\<lambda>t. T - rlWindow rl < t \<and> t \<le> T) (key_times k (h @ [(now, key)])))) \<le> rlLimit rl" for T k
  proof (cases "k = key \<and> now \<le> T")
    case True
    have "length (filter (\<lambda>t. T - rlWindow rl < t \<and> t \<le> T) (key_times key h))
        \<le> length (filter (\<lambda>t. now - rlWindow rl < t) (key_times key h))"
      using True by (intro length_filter_mono) auto
    with few True show ?thesis by auto
  next
    case False
    then have "filter (\<lambda>t. T - rlWindow rl < t \<and> t \<le> T) (key_times k (h @ [(now, key)]))
        = filter (\<lambda>t. T - rlWindow rl < t \<and> t \<le> T) (key_times k h)" by auto
    with assms(2) pos show ?thesis by (auto simp: bounded_def dest: spec)
  qed
  with True pos allow_config [of now key rl] show ?thesis by (simp add: bounded_def)
qed

lemma granted_bounded:
  assumes "tracks rl h now" "bounded rl h" "\<forall>e\<in>set h. fst e \<le> now"
    "sorted (now # map fst es)"
  shows "bounded rl (h @ granted allow es rl)"
  using assms
proof (induction es arbitrary: rl h now)
  case Nil
  then show ?case by simp
next
  case (Cons e es)
  obtain now' key where e: "e = (now', key)" by (cases e)
  let ?rl = "snd (allow now' key rl)"
  let ?h = "h @ (if fst (fst (allow now' key rl)) then [(now', key)] else [])"
  have le: "now \<le> now'" using Cons(5) e by simp
  have h: "tracks rl h now'" "\<forall>e\<in>set h. fst e \<le> now'"
    using tracks_later [OF Cons(2) le] Cons(4) le by auto
  have "bounded ?rl (?h @ granted allow es ?rl)"
  proof (rule Cons(1))
    show "tracks ?rl ?h now'" by (rule allow_tracks [OF h(1)])
    show "bounded ?rl ?h" by (rule allow_bounded [OF h(1) Cons(3) h(2)])
    show "\<forall>e\<in>set ?h. fst e \<le> now'" using h(2) by auto
    show "sorted (now' # map fst es)" using Cons(5) e by simp
  qed
  then show ?case
    using allow_config [of now' key rl] by (simp add: bounded_def e)
qed

lemma window_bound:
  assumes "sorted (map fst es)" "0 \<le> limit"
  shows "int (length (filter (\<lambda>t. T - window < t \<and> t \<le> T) (key_times key (granted allow es (newRateLimiter limit window))))) \<le> limit"
proof (cases es)
  case Nil
  with assms(2) show ?thesis by simp
next
  case (Cons e es')
  have "bounded (newRateLimiter limit window) ([] @ granted allow es (newRateLimiter limit window))"
    by (rule granted_bounded [of _ _ "fst e"])
      (use assms Cons in \<open>auto simp: tracks_def bounded_def newRateLimiter_def\<close>)
  with assms(2) show ?thesis by (auto simp: bounded_def newRateLimiter_def dest: spec)
qed

text \<open>A refused caller that waits as long as it is told is let in.\<close>

lemma retry_admitted:
  assumes "0 < rlLimit rl" "\<not> fst (fst (allow now key rl))"
    "int (length (rlAttempts rl key)) \<le> rlLimit rl" "now + snd (fst (allow now key rl)) \<le> now'" "now \<le> now'"
  shows "fst (fst (allow now' key (snd (allow now key rl))))"
proof -
  let ?kept = "filter (\<lambda>t. now - rlWindow rl < t) (rlAttempts rl key)"
  let ?rl = "snd (allow now key rl)"
  have att: "rlAttempts ?rl key = ?kept"
    using allow_attempts [OF assms(1), of now key] assms(2) by simp
  have cfg: "rlLimit ?rl = rlLimit rl" "rlWindow ?rl = rlWindow rl"
    using allow_config [of now key rl] by simp_all
  have full: "rlLimit rl \<le> int (length ?kept)"
    using assms(1,2) allow_iff [OF assms(1), of now key] by simp
  then obtain t ts where k: "?kept = t # ts" using assms(1) by (cases ?kept) auto
  have len: "int (length ?kept) \<le> rlLimit rl"
    using assms(3) length_filter_le [of "\<lambda>t. now - rlWindow rl < t" "rlAttempts rl key"] by linarith
  have "\<not> now' - rlWindow rl < t"
    using allow_retry [OF assms(1,2)] assms(4) k by simp
  then have "filter (\<lambda>t. now' - rlWindow rl < t) ?kept = filter (\<lambda>t. now' - rlWindow rl < t) ts"
    by (simp only: k) simp
  moreover have "length (filter (\<lambda>t. now' - rlWindow rl < t) ts) < length ?kept"
    by (simp only: k) (simp add: le_imp_less_Suc)
  ultimately have "length (filter (\<lambda>t. now' - rlWindow rl < t) ?kept) < length ?kept"
    by (simp only:)
  with len have "int (length (filter (\<lambda>t. now' - rlWindow rl < t) ?kept)) < rlLimit rl"
    by linarith
  then show ?thesis
    using allow_iff [of ?rl now' key] assms(1) att cfg by simp
qed

end

interpretation issue_lim: window_limiter issue_Allow
  by unfold_locales (auto simp: issue_Allow_def keep_after_filter Let_def)

interpretation run_lim: window_limiter run_Allow
  by unfold_locales (auto simp: run_Allow_def keep_after_filter Let_def)


section \<open>The gate before API-key validation\<close>

text \<open>\<^verbatim>\<open>preAuthGate\<close>: a buffered channel of unit values used as a semaphore.\<close>

record preAuthGate =
  semCap :: int
  semLen :: int

definition newPreAuthGate :: "int \<Rightarrow> preAuthGate" where
  "newPreAuthGate maxConcurrent = \<lparr>semCap = (if maxConcurrent < 0 then 0 else maxConcurrent), semLen = 0\<rparr>"

definition TryAcquire :: "preAuthGate \<Rightarrow> bool \<times> preAuthGate" where
  "TryAcquire g = (if semLen g < semCap g then (True, g\<lparr>semLen := semLen g + 1\<rparr>) else (False, g))"

text \<open>A receive from an empty channel blocks: None.\<close>

definition Release :: "preAuthGate \<Rightarrow> preAuthGate option" where
  "Release g = (if 0 < semLen g then Some (g\<lparr>semLen := semLen g - 1\<rparr>) else None)"

text \<open>The handlers around the gate: a request enters if it can acquire a slot, does its
  database call, and releases the slot.\<close>

inductive gate_run :: "int \<Rightarrow> preAuthGate \<Rightarrow> int \<Rightarrow> bool" for maxConcurrent where
  start: "gate_run maxConcurrent (newPreAuthGate maxConcurrent) 0"
| enter: "gate_run maxConcurrent g n \<Longrightarrow> TryAcquire g = (True, g') \<Longrightarrow> gate_run maxConcurrent g' (n + 1)"
| reject: "gate_run maxConcurrent g n \<Longrightarrow> TryAcquire g = (False, g') \<Longrightarrow> gate_run maxConcurrent g' n"
| leave: "gate_run maxConcurrent g n \<Longrightarrow> 0 < n \<Longrightarrow> Release g = Some g' \<Longrightarrow> gate_run maxConcurrent g' (n - 1)"

lemma gate_run_inv:
  "gate_run c g n \<Longrightarrow> semLen g = n \<and> 0 \<le> n \<and> n \<le> semCap g \<and> semCap g = max 0 c"
  by (induction rule: gate_run.induct)
    (auto simp: newPreAuthGate_def TryAcquire_def Release_def split: if_splits)

section \<open>Properties\<close>

text \<open>the per-agent limit on token issuance is a true sliding window. Over any sequence of
  requests with a monotone clock, no interval of the window's length contains more than
  \<open>limit\<close> granted requests of one agent, wherever the interval lies.\<close>

theorem issue_window_bound:
  assumes "sorted (map fst es)" "0 \<le> limit"
  shows "int (length (filter (\<lambda>t. T - window < t \<and> t \<le> T)
     (key_times key (granted issue_Allow es (newRateLimiter limit window))))) \<le> limit"
  using assms by (rule issue_lim.window_bound)

theorem issue_window_bound_witness:
  "int (length (filter (\<lambda>t. 12 - 10 < t \<and> t \<le> (12::int))
     (key_times ''a'' (granted issue_Allow [(1, ''a''), (5, ''a''), (7, ''b''), (12, ''a'')] (newRateLimiter 1 10))))) \<le> 1"
  by (rule issue_window_bound) simp_all

text \<open>the advertised wait is enough. A workflow run that the limiter refuses, and that is
  retried once the number of seconds in its \<^verbatim>\<open>Retry-After\<close> header has passed, is admitted
  unless other runs of the same agent were admitted in the meantime.\<close>

theorem retry_after_suffices:
  assumes "run_Allow now key rl = ((False, retryAfter), rl')"
    and "0 < rlLimit rl" "int (length (rlAttempts rl key)) \<le> rlLimit rl"
    and "now + retry_after_secs retryAfter * second \<le> now'"
  shows "fst (fst (run_Allow now' key rl'))"
proof -
  have "1 \<le> retry_after_secs retryAfter" by (simp add: retry_after_secs_def Let_def)
  then have "now \<le> now'" using assms(4) by (simp add: second_def)
  moreover have "now + retryAfter \<le> now'"
    using assms(4) retry_after_secs_ge [of retryAfter] by linarith
  ultimately show ?thesis
    using run_lim.retry_admitted [of rl now key now'] assms(1-3) by simp
qed

theorem retry_after_suffices_witness:
  "fst (fst (run_Allow (5 * second) ''a'' (snd (run_Allow (2 * second) ''a''
     \<lparr>rlAttempts = (\<lambda>_. [second]), rlLimit = 1, rlWindow = 3 * second\<rparr>))))"
proof -
  let ?rl = "\<lparr>rlAttempts = (\<lambda>_. [second]), rlLimit = 1, rlWindow = 3 * second\<rparr>"
  have r: "run_Allow (2 * second) ''a'' ?rl = ((False, 2 * second), snd (run_Allow (2 * second) ''a'' ?rl))"
    by (simp add: run_Allow_def second_def Let_def)
  show ?thesis
    by (rule retry_after_suffices [OF r])
      (simp_all add: second_def retry_after_secs_def go_div_def go_rem_def Let_def)
qed

text \<open>At most \<open>maxConcurrent\<close> unauthenticated validations run at once, a release never
  blocks, and a non-positive configuration admits none.\<close>

theorem preauth_gate_bounds_concurrency:
  assumes "gate_run maxConcurrent g n"
  shows "n \<le> max 0 maxConcurrent \<and> (0 < n \<longrightarrow> Release g \<noteq> None) \<and> (maxConcurrent \<le> 0 \<longrightarrow> fst (TryAcquire g) = False)"
  using gate_run_inv [OF assms] by (auto simp: Release_def TryAcquire_def)

theorem preauth_gate_bounds_concurrency_witness:
  "Release \<lparr>semCap = 2, semLen = 1\<rparr> \<noteq> None"
proof -
  have "gate_run 2 (\<lparr>semCap = 2, semLen = 0\<rparr>\<lparr>semLen := 1\<rparr>) (0 + 1)"
    by (rule gate_run.enter [OF gate_run.start]) (simp add: TryAcquire_def newPreAuthGate_def)
  from preauth_gate_bounds_concurrency [OF this] show ?thesis by simp
qed

end
