(* ===== verification/Identity_Tokens.thy ===== *)
theory Identity_Tokens
  imports Registry_Liveness Rate_Limit
begin

text \<open>
  Token issuance and revocation (\<^verbatim>\<open>eami-gateway/internal/identity\<close>): the token manager with
  its two revocation stores, API-key validation and the HTTP handlers that issue and revoke
  tokens. Parameters stand for code outside the repository: \<open>sha256\<close>, \<open>jwt_sign\<close> and
  \<open>jwt_parse\<close> (signing and parsing with the manager's key; parsing is given the issuer and
  the time of the call), \<open>numericDate\<close> (the rounding of \<^verbatim>\<open>jwt.NewNumericDate\<close>) and
  \<open>uuid_parse\<close>. The interface \<^verbatim>\<open>revocationStore\<close> is the locale \<open>revocation_store\<close>,
  interpreted by the file store and by the database store.
\<close>

section \<open>Claims and requests (tokens.go)\<close>

definition maxTTL :: int where "maxTTL = 14400"
definition minTTL :: int where "minTTL = 60"

record token_claims =
  tcSubject :: string
  tcIssuer :: string
  tcAudience :: "string list"
  tcIssuedAt :: time
  tcExpiresAt :: time
  tcID :: string
  tcOrgID :: string
  tcAgentUUID :: string
  tcAPIKeyID :: string
  tcScope :: string
  tcTask :: string
  tcModel :: string
  tcOwner :: string
  tcRiskTier :: string

record IssueRequest =
  irAgentID :: string
  irOrgID :: string
  irAgentUUID :: string
  irAPIKeyID :: string
  irScope :: string
  irTask :: string
  irModel :: string
  irOwner :: string
  irRiskTier :: string
  irTTLSeconds :: int

record IssueResponse =
  rsToken :: string
  rsExpiresAt :: time
  rsJTI :: string

section \<open>Revocation stores\<close>

text \<open>The file store: the content of the file, None when it does not exist. A write that
  fails may have written some bytes.\<close>

datatype file_fault = FileOK | OpenFails go_error | WriteFails go_error nat | ReadFails go_error

abbreviation newline :: char where "newline \<equiv> CHR 0x0A"

definition file_save :: "file_fault \<Rightarrow> string \<Rightarrow> string \<Rightarrow> string option \<Rightarrow> go_error option \<times> string option" where
  "file_save fault jti agentID file =
     (let old = (case file of None \<Rightarrow> [] | Some c \<Rightarrow> c) in
      case fault of
        OpenFails err \<Rightarrow> (Some (Wrapped ''revocation file open'' err), file)
      | WriteFails err n \<Rightarrow> (Some err, Some (old @ take n (jti @ [newline])))
      | _ \<Rightarrow> (None, Some (old @ jti @ [newline])))"

definition file_lines :: "string \<Rightarrow> string list" where
  "file_lines data = filter (\<lambda>t. t \<noteq> []) (map trim_space (split_on newline data))"

definition file_loadAll :: "file_fault \<Rightarrow> string option \<Rightarrow> string list result" where
  "file_loadAll fault file =
     (case file of
        None \<Rightarrow> Inr []
      | Some data \<Rightarrow>
        (case fault of
           ReadFails err \<Rightarrow> Inl (Wrapped ''revocation file read'' err)
         | _ \<Rightarrow> Inr (file_lines data)))"

text \<open>The database store: the rows of \<^verbatim>\<open>revoked_ai_tokens\<close>, each a token id and an agent,
  the notifications sent on \<^verbatim>\<open>token_revoked\<close>, and the agents that exist: a row of a missing
  agent is refused, and the rows of an agent go away with it (\<^verbatim>\<open>ON DELETE CASCADE\<close>). A fault is
  the error that the statement answers and whether it took effect all the same, as when the
  connection is lost after the commit.\<close>

record revoked_table =
  rvRows :: "(string \<times> string) list"
  rvNotified :: "string list"
  rvAgents :: "string list"

type_synonym db_fault = "(go_error \<times> bool) option"

definition insert_row :: "string \<Rightarrow> string \<Rightarrow> revoked_table \<Rightarrow> revoked_table option" where
  "insert_row jti agentID tab =
     (if jti \<in> fst ` set (rvRows tab) then Some tab
      else if agentID \<in> set (rvAgents tab) then Some (tab\<lparr>rvRows := rvRows tab @ [(jti, agentID)]\<rparr>)
      else None)"

definition db_save :: "db_fault \<Rightarrow> string \<Rightarrow> string \<Rightarrow> revoked_table \<Rightarrow> go_error option \<times> revoked_table" where
  "db_save fault jti agentID tab =
     (case insert_row jti agentID tab of
        None \<Rightarrow> (Some (Wrapped ''revocation db insert'' (case fault of Some (err, _) \<Rightarrow> err | None \<Rightarrow> ErrText ''violates foreign key constraint'')), tab)
      | Some tab' \<Rightarrow>
        let stored = tab'\<lparr>rvNotified := rvNotified tab' @ [jti]\<rparr> in
        case fault of
          Some (err, took_effect) \<Rightarrow> (Some (Wrapped ''revocation db insert'' err), if took_effect then stored else tab)
        | None \<Rightarrow> (None, stored))"

definition db_loadAll :: "go_error option \<Rightarrow> revoked_table \<Rightarrow> string list result" where
  "db_loadAll fault tab =
     (case fault of
        Some err \<Rightarrow> Inl (Wrapped ''revocation db query'' err)
      | None \<Rightarrow> Inr (map fst (rvRows tab)))"

section \<open>The manager\<close>

record Manager =
  mgIssuer :: string
  mgDefaultTTL :: duration
  mgRevoked :: "string set"

definition newManager :: "int \<Rightarrow> string \<Rightarrow> string list result \<Rightarrow> Manager result" where
  "newManager defaultTTLSeconds issuer loaded =
     (case loaded of
        Inl err \<Rightarrow> Inl (Wrapped ''identity: failed to load revocation list on startup'' err)
      | Inr jtis \<Rightarrow> Inr \<lparr>mgIssuer = issuer, mgDefaultTTL = wrap64 (defaultTTLSeconds * second), mgRevoked = set jtis\<rparr>)"

definition issue_ttl :: "duration \<Rightarrow> int \<Rightarrow> duration" where
  "issue_ttl defaultTTL ttlSeconds =
     (let ttl = (if 0 < ttlSeconds then wrap64 (ttlSeconds * second) else defaultTTL);
          ttl = (if ttl < minTTL * second then minTTL * second else ttl)
      in if maxTTL * second < ttl then maxTTL * second else ttl)"

definition issue_jti :: "(string \<Rightarrow> string) \<Rightarrow> string \<Rightarrow> time \<Rightarrow> string" where
  "issue_jti sha256 agentID now = hex_encode (take 8 (sha256 (agentID @ '':'' @ show_int now)))"

definition issue_claims :: "(string \<Rightarrow> string) \<Rightarrow> (time \<Rightarrow> time) \<Rightarrow> Manager \<Rightarrow> time \<Rightarrow> IssueRequest \<Rightarrow> token_claims" where
  "issue_claims sha256 numericDate m now req =
     \<lparr>tcSubject = irAgentID req, tcIssuer = mgIssuer m, tcAudience = [''eami-gateway''],
      tcIssuedAt = numericDate now, tcExpiresAt = numericDate (now + issue_ttl (mgDefaultTTL m) (irTTLSeconds req)),
      tcID = issue_jti sha256 (irAgentID req) now,
      tcOrgID = irOrgID req, tcAgentUUID = irAgentUUID req, tcAPIKeyID = irAPIKeyID req, tcScope = irScope req,
      tcTask = irTask req, tcModel = irModel req, tcOwner = irOwner req, tcRiskTier = irRiskTier req\<rparr>"

definition Issue ::
  "(string \<Rightarrow> string) \<Rightarrow> (time \<Rightarrow> time) \<Rightarrow> (token_claims \<Rightarrow> string result) \<Rightarrow> Manager \<Rightarrow> time \<Rightarrow> IssueRequest \<Rightarrow> IssueResponse result" where
  "Issue sha256 numericDate jwt_sign m now req =
     (if irAgentID req = [] then Inl (ErrText ''identity: agent_id is required'')
      else case jwt_sign (issue_claims sha256 numericDate m now req) of
        Inl err \<Rightarrow> Inl (Wrapped ''identity: sign token'' err)
      | Inr tok \<Rightarrow> Inr \<lparr>rsToken = tok, rsExpiresAt = now + issue_ttl (mgDefaultTTL m) (irTTLSeconds req),
                          rsJTI = issue_jti sha256 (irAgentID req) now\<rparr>)"

definition Validate ::
  "(string \<Rightarrow> time \<Rightarrow> string \<Rightarrow> token_claims result) \<Rightarrow> Manager \<Rightarrow> time \<Rightarrow> string \<Rightarrow> token_claims result" where
  "Validate jwt_parse m now tokenStr =
     (case jwt_parse (mgIssuer m) now tokenStr of
        Inl err \<Rightarrow> Inl (Wrapped ''identity: invalid token'' err)
      | Inr claims \<Rightarrow>
        if tcID claims \<in> mgRevoked m then Inl (ErrText (''identity: token '' @ tcID claims @ '' has been revoked''))
        else Inr claims)"

text \<open>\<open>save\<close> is the store's method, \<open>loaded\<close> the answer of its \<^verbatim>\<open>loadAll\<close>.\<close>

definition Revoke ::
  "(string \<Rightarrow> string \<Rightarrow> 's \<Rightarrow> go_error option \<times> 's) \<Rightarrow> string \<Rightarrow> string \<Rightarrow> Manager \<times> 's \<Rightarrow> go_error option \<times> (Manager \<times> 's)" where
  "Revoke save jti agentID st =
     (case st of (m, s) \<Rightarrow>
        let m' = m\<lparr>mgRevoked := insert jti (mgRevoked m)\<rparr> in
        case save jti agentID s of
          (Some err, s') \<Rightarrow> (Some (Wrapped ''identity: persist revocation'' err), (m', s'))
        | (None, s') \<Rightarrow> (None, (m', s')))"

definition BoundTo :: "token_claims option \<Rightarrow> string \<Rightarrow> bool" where
  "BoundTo c agentUUID = (case c of None \<Rightarrow> False | Some c \<Rightarrow> tcAgentUUID c \<noteq> [] \<and> tcAgentUUID c = agentUUID)"

definition IsRevoked :: "Manager \<Rightarrow> string \<Rightarrow> bool" where
  "IsRevoked m jti = (if jti = [] then False else jti \<in> mgRevoked m)"

definition MarkRevoked :: "string \<Rightarrow> Manager \<Rightarrow> Manager" where
  "MarkRevoked jti m = (if jti = [] then m else m\<lparr>mgRevoked := insert jti (mgRevoked m)\<rparr>)"

definition ReloadRevoked :: "string list result \<Rightarrow> Manager \<Rightarrow> go_error option \<times> Manager" where
  "ReloadRevoked loaded m =
     (case loaded of
        Inl err \<Rightarrow> (Some err, m)
      | Inr jtis \<Rightarrow> (None, m\<lparr>mgRevoked := mgRevoked m \<union> set jtis\<rparr>))"

text \<open>\<^verbatim>\<open>Middleware\<close>: the claims handed to the next handler, or the fixed 401.\<close>

definition MsgUnauthorized :: string where
  "MsgUnauthorized = ''unauthorized: invalid or expired token''"

definition MsgForbidden :: string where
  "MsgForbidden = ''forbidden: agent not authorized''"

definition Middleware ::
  "(string \<Rightarrow> time \<Rightarrow> string \<Rightarrow> token_claims result) \<Rightarrow> Manager \<Rightarrow> time \<Rightarrow> string \<Rightarrow> (int \<times> string) + token_claims" where
  "Middleware jwt_parse m now auth =
     (if length auth < 8 \<or> take 7 auth \<noteq> ''Bearer '' then Inl (401, MsgUnauthorized)
      else case Validate jwt_parse m now (drop 7 auth) of
        Inl _ \<Rightarrow> Inl (401, MsgUnauthorized)
      | Inr claims \<Rightarrow> Inr claims)"

text \<open>What the handlers of the MCP and workflow endpoints are given: the token manager and the
  parsing of a token at the time of the request, and the registry as the lookup finds it.\<close>

record auth_env =
  auParse :: "string \<Rightarrow> time \<Rightarrow> string \<Rightarrow> token_claims result"
  auManager :: Manager
  auNow :: time
  auRegistryErr :: "go_error option"
  auPick :: nat
  auRegistry :: registry_db

section \<open>API keys (apikey.go)\<close>

record APIKeyRecord =
  krID :: string
  krOrgID :: string
  krAgentID :: string

record ResolvedAgent =
  raID :: string
  raName :: string
  raStatus :: string
  raScope :: string
  raModel :: string
  raOwner :: string
  raRiskTier :: string
  raTokenTTLSeconds :: int

record api_key_row =
  akID :: uuid
  akOrgID :: uuid
  akAgentID :: "uuid option"
  akKeyHash :: string
  akRevoked :: bool
  akExpiresAt :: "time option"

record key_db =
  kdKeys :: "api_key_row list"
  kdAgents :: "(uuid \<times> ResolvedAgent) list" \<comment> \<open>with their organisation\<close>

definition hashAPIKey :: "(string \<Rightarrow> string) \<Rightarrow> string \<Rightarrow> string" where
  "hashAPIKey sha256 rawKey = hex_encode (sha256 rawKey)"

definition key_usable :: "(string \<Rightarrow> string) \<Rightarrow> time \<Rightarrow> string \<Rightarrow> api_key_row \<Rightarrow> bool" where
  "key_usable sha256 now rawKey k =
     (akKeyHash k = hashAPIKey sha256 rawKey \<and> \<not> akRevoked k
      \<and> (case akExpiresAt k of None \<Rightarrow> True | Some t \<Rightarrow> now < t))"

text \<open>The left join of a key with the agents of its organisation that have the name.\<close>

definition join_agents :: "key_db \<Rightarrow> string \<Rightarrow> api_key_row \<Rightarrow> (api_key_row \<times> ResolvedAgent option) list" where
  "join_agents db agentName k =
     (let as = filter (\<lambda>(org, a). org = akOrgID k \<and> raName a = agentName) (kdAgents db)
      in if as = [] then [(k, None)] else map (\<lambda>(_, a). (k, Some a)) as)"

definition key_record :: "api_key_row \<Rightarrow> APIKeyRecord" where
  "key_record k = \<lparr>krID = akID k, krOrgID = akOrgID k, krAgentID = (case akAgentID k of None \<Rightarrow> [] | Some a \<Rightarrow> a)\<rparr>"

definition ValidateAndResolveAgent ::
  "(string \<Rightarrow> string) \<Rightarrow> go_error option \<Rightarrow> nat \<Rightarrow> key_db \<Rightarrow> time \<Rightarrow> string \<Rightarrow> string
     \<Rightarrow> (APIKeyRecord \<times> ResolvedAgent option) result" where
  "ValidateAndResolveAgent sha256 dbErr pick db now rawKey agentName =
     (if rawKey = [] then Inl (Sentinel ErrInvalidAPIKey)
      else case dbErr of
        Some err \<Rightarrow> Inl (Wrapped ''identity: validate api key and resolve agent'' err)
      | None \<Rightarrow>
        (case limit_one pick (concat (map (join_agents db agentName) (filter (key_usable sha256 now rawKey) (kdKeys db)))) of
           None \<Rightarrow> Inl (Sentinel ErrInvalidAPIKey)
         | Some (k, a) \<Rightarrow> Inr (key_record k, a)))"

section \<open>Issuing over HTTP (issue_http.go)\<close>

text \<open>A request: its method, the \<^verbatim>\<open>X-API-Key\<close> header and the outcome of decoding the body,
  of which only the client's own fields (agent id, scope, task, model, owner, risk tier,
  ttl) can be set. A response: status, headers and body. The write of the issuance event is
  a detached goroutine: the events started are returned.\<close>

record issue_http_request =
  ihMethod :: string
  ihAPIKey :: string
  ihBody :: "IssueRequest result"

datatype http_body = TextBody string | TokenBody IssueResponse | NoBody

record http_response =
  hrStatus :: int
  hrHeaders :: "(string \<times> string) list"
  hrBody :: http_body

record token_event =
  teOrgID :: string
  teAgentID :: string
  teAgentName :: string
  teAPIKeyID :: string
  teJTI :: string
  teType :: string

record IssueHandler =
  hiManager :: Manager
  hiLimiter :: rateLimiter
  hiGate :: preAuthGate

definition http_error :: "int \<Rightarrow> string \<Rightarrow> http_response" where
  "http_error code msg = \<lparr>hrStatus = code, hrHeaders = [], hrBody = TextBody msg\<rparr>"

definition too_many :: "duration \<Rightarrow> string \<Rightarrow> http_response" where
  "too_many d msg = \<lparr>hrStatus = 429, hrHeaders = [setRetryAfter d], hrBody = TextBody msg\<rparr>"

definition scopeErr :: string where
  "scopeErr = ''forbidden: agent not registered or not authorized for this API key''"

definition server_request :: "IssueRequest \<Rightarrow> APIKeyRecord \<Rightarrow> ResolvedAgent \<Rightarrow> IssueRequest" where
  "server_request req key rec = req\<lparr>irOrgID := krOrgID key, irAgentID := ''agent:'' @ raName rec, irAgentUUID := raID rec,
     irAPIKeyID := krID key, irScope := raScope rec, irModel := raModel rec, irOwner := raOwner rec,
     irRiskTier := raRiskTier rec, irTTLSeconds := raTokenTTLSeconds rec\<rparr>"

definition release_slot :: "preAuthGate \<Rightarrow> preAuthGate" where
  "release_slot g = (case Release g of None \<Rightarrow> g | Some g' \<Rightarrow> g')"

text \<open>After validation: the scope checks, the limiter and the issuance.\<close>

definition issue_resolved ::
  "(string \<Rightarrow> string) \<Rightarrow> (time \<Rightarrow> time) \<Rightarrow> (token_claims \<Rightarrow> string result) \<Rightarrow> time
     \<Rightarrow> IssueRequest \<Rightarrow> APIKeyRecord \<Rightarrow> ResolvedAgent option \<Rightarrow> IssueHandler
     \<Rightarrow> http_response \<times> token_event list \<times> IssueHandler" where
  "issue_resolved sha256 numericDate jwt_sign now req key rec h =
     (if krAgentID key = [] then (http_error 403 ''forbidden: API key is not scoped to an agent'', [], h)
      else case rec of
        None \<Rightarrow> (http_error 403 scopeErr, [], h)
      | Some rec \<Rightarrow>
        if raStatus rec = ''suspended'' \<or> raStatus rec = ''revoked'' then (http_error 403 scopeErr, [], h)
        else if raID rec \<noteq> krAgentID key then (http_error 403 scopeErr, [], h)
        else case issue_Allow now (raID rec) (hiLimiter h) of
          ((False, retryAfter), rl) \<Rightarrow>
            (too_many retryAfter ''too many token issuance requests for this agent -- try again later'', [], h\<lparr>hiLimiter := rl\<rparr>)
        | ((True, _), rl) \<Rightarrow>
          (case Issue sha256 numericDate jwt_sign (hiManager h) now (server_request req key rec) of
             Inl _ \<Rightarrow> (http_error 500 ''internal error'', [], h\<lparr>hiLimiter := rl\<rparr>)
           | Inr resp \<Rightarrow>
             (\<lparr>hrStatus = 200, hrHeaders = [(''Content-Type'', ''application/json'')], hrBody = TokenBody resp\<rparr>,
              [\<lparr>teOrgID = krOrgID key, teAgentID = raID rec, teAgentName = raName rec, teAPIKeyID = krID key,
                teJTI = rsJTI resp, teType = ''issued''\<rparr>],
              h\<lparr>hiLimiter := rl\<rparr>)))"

text \<open>\<open>errText\<close> is \<^verbatim>\<open>err.Error()\<close>.\<close>

definition HandleIssue ::
  "(go_error \<Rightarrow> string) \<Rightarrow> (string \<Rightarrow> string) \<Rightarrow> (time \<Rightarrow> time) \<Rightarrow> (token_claims \<Rightarrow> string result)
     \<Rightarrow> go_error option \<Rightarrow> nat \<Rightarrow> key_db \<Rightarrow> time \<Rightarrow> issue_http_request \<Rightarrow> IssueHandler
     \<Rightarrow> http_response \<times> token_event list \<times> IssueHandler" where
  "HandleIssue errText sha256 numericDate jwt_sign dbErr pick db now r h =
     (if ihMethod r \<noteq> ''POST'' then (http_error 405 ''method not allowed'', [], h)
      else case ihBody r of
        Inl err \<Rightarrow> (http_error 400 (''bad request: '' @ errText err), [], h)
      | Inr req \<Rightarrow>
        if irAgentID req = [] then (http_error 400 ''bad request: agent_id is required'', [], h)
        else
          let agentName = trim_prefix (irAgentID req) ''agent:'' in
          case TryAcquire (hiGate h) of
            (False, _) \<Rightarrow>
              (too_many second ''gateway is busy validating other requests -- try again shortly'', [], h)
          | (True, g) \<Rightarrow>
            (let h = h\<lparr>hiGate := release_slot g\<rparr> in
             case ValidateAndResolveAgent sha256 dbErr pick db now (ihAPIKey r) agentName of
               Inl err \<Rightarrow>
                 if errors_is ErrInvalidAPIKey err
                 then (http_error 401 ''unauthorized: invalid, missing, revoked, or expired X-API-Key'', [], h)
                 else (http_error 500 ''internal error'', [], h)
             | Inr (key, rec) \<Rightarrow> issue_resolved sha256 numericDate jwt_sign now req key rec h))"

section \<open>Revoking over HTTP (revoke_http.go)\<close>

record revokeRequest =
  rrAgentName :: string
  rrOrgID :: string

record revoke_http_request =
  rhMethod :: string
  rhServiceKey :: string
  rhJTI :: string
  rhBody :: "revokeRequest result"

definition HandleRevoke ::
  "(go_error \<Rightarrow> string) \<Rightarrow> (string \<Rightarrow> uuid option) \<Rightarrow> (string \<Rightarrow> string \<Rightarrow> 's \<Rightarrow> go_error option \<times> 's)
     \<Rightarrow> go_error option \<Rightarrow> nat \<Rightarrow> registry_db \<Rightarrow> string \<Rightarrow> go_error option \<Rightarrow> revoke_http_request
     \<Rightarrow> Manager \<times> 's \<Rightarrow> http_response \<times> token_event list \<times> (Manager \<times> 's)" where
  "HandleRevoke errText uuid_parse save dbErr pick db serviceKey eventErr r st =
     (if rhMethod r \<noteq> ''POST'' then (http_error 405 ''method not allowed'', [], st)
      else if rhServiceKey r = [] \<or> rhServiceKey r \<noteq> serviceKey
      then (http_error 401 ''unauthorized: invalid or missing X-Service-Key'', [], st)
      else if rhJTI r = [] then (http_error 400 ''bad request: jti path segment is required'', [], st)
      else case rhBody r of
        Inl err \<Rightarrow> (http_error 400 (''bad request: '' @ errText err), [], st)
      | Inr req \<Rightarrow>
        if rrAgentName req = [] then (http_error 400 ''bad request: agent_name is required'', [], st)
        else if uuid_parse (rrOrgID req) = None then (http_error 400 ''bad request: org_id must be a valid UUID'', [], st)
        else case LookupByNameAndOrg dbErr pick db (rrAgentName req) (rrOrgID req) of
          (rec, lookupErr) \<Rightarrow>
            if (case lookupErr of None \<Rightarrow> False | Some err \<Rightarrow> \<not> errors_is ErrAgentSuspended err)
            then (http_error 403 ''forbidden: agent not registered'', [], st)
            else case rec of
              None \<Rightarrow> (http_error 403 ''forbidden: agent not registered'', [], st)
            | Some rec \<Rightarrow>
              (case Revoke save (rhJTI r) (agID rec) st of
                 (Some _, st') \<Rightarrow> (http_error 500 ''internal error: revocation could not be persisted'', [], st')
               | (None, st') \<Rightarrow>
                 (\<lparr>hrStatus = 204, hrHeaders = [], hrBody = NoBody\<rparr>,
                  (case eventErr of
                     Some _ \<Rightarrow> []
                   | None \<Rightarrow> [\<lparr>teOrgID = rrOrgID req, teAgentID = agID rec, teAgentName = rrAgentName req, teAPIKeyID = [],
                               teJTI = rhJTI r, teType = ''revoked''\<rparr>]), st')))"

section \<open>The contract of a revocation store\<close>

text \<open>A store answers with every token id saved in it. \<open>legal\<close> are the ids it can hold,
  \<open>whole\<close> the faults that lose nothing it held.\<close>

fun save_all :: "('f \<Rightarrow> string \<Rightarrow> string \<Rightarrow> 's \<Rightarrow> go_error option \<times> 's) \<Rightarrow> ('f \<times> string \<times> string) list \<Rightarrow> 's \<Rightarrow> 's" where
  "save_all save [] s = s"
| "save_all save ((f, jti, agentID) # xs) s = save_all save xs (snd (save f jti agentID s))"

locale revocation_store =
  fixes save :: "'f \<Rightarrow> string \<Rightarrow> string \<Rightarrow> 's \<Rightarrow> go_error option \<times> 's"
    and loadAll :: "'g \<Rightarrow> 's \<Rightarrow> string list result"
    and inv :: "'s \<Rightarrow> bool" and held :: "'s \<Rightarrow> string set"
    and legal :: "string \<Rightarrow> bool" and whole :: "'f \<Rightarrow> bool"
  assumes load_held: "loadAll g s = Inr js \<Longrightarrow> set js = held s"
    and save_ok: "inv s \<Longrightarrow> legal jti \<Longrightarrow> save f jti agentID s = (None, s') \<Longrightarrow> inv s' \<and> held s' = insert jti (held s)"
    and save_any: "inv s \<Longrightarrow> legal jti \<Longrightarrow> whole f \<Longrightarrow> inv (snd (save f jti agentID s)) \<and> held s \<subseteq> held (snd (save f jti agentID s))"
begin

lemma save_all_keeps:
  assumes "inv s" "\<forall>(f, j, a)\<in>set xs. legal j \<and> whole f"
  shows "inv (save_all save xs s) \<and> held s \<subseteq> held (save_all save xs s)"
  using assms
proof (induction xs arbitrary: s)
  case (Cons x xs)
  obtain f j a where x: "x = (f, j, a)" by (cases x)
  have "inv (snd (save f j a s)) \<and> held s \<subseteq> held (snd (save f j a s))"
    by (rule save_any) (use Cons.prems x in auto)
  moreover from this have "inv (save_all save xs (snd (save f j a s)))
      \<and> held (snd (save f j a s)) \<subseteq> held (save_all save xs (snd (save f j a s)))"
    by (intro Cons.IH) (use Cons.prems in auto)
  ultimately show ?case by (auto simp: x)
qed simp

lemma revoked_after_restart:
  assumes "inv s" "legal jti" "Revoke (save f) jti agentID (m, s) = (None, (m', s'))"
    and later: "\<forall>(f, j, a)\<in>set later. legal j \<and> whole f"
    and restart: "newManager ttl iss (loadAll g (save_all save later s')) = Inr m2"
  shows "jti \<in> mgRevoked m2"
proof -
  from assms(3) have "save f jti agentID s = (None, s')"
    by (auto simp: Revoke_def Let_def split: prod.splits option.splits)
  from save_ok [OF assms(1,2) this] have s': "inv s'" "jti \<in> held s'" by simp_all
  from restart obtain js where "loadAll g (save_all save later s') = Inr js" "mgRevoked m2 = set js"
    by (auto simp: newManager_def split: sum.splits)
  with load_held save_all_keeps [OF s'(1) later] s'(2) show ?thesis by auto
qed

end

definition jti_ok :: "string \<Rightarrow> bool" where
  "jti_ok jti = (jti \<noteq> [] \<and> (\<forall>c\<in>set jti. \<not> is_space c))"

definition file_clean :: "string option \<Rightarrow> bool" where
  "file_clean file = (case file of None \<Rightarrow> True | Some data \<Rightarrow> data = [] \<or> last data = newline)"

definition file_held :: "string option \<Rightarrow> string set" where
  "file_held file = (case file of None \<Rightarrow> {} | Some data \<Rightarrow> set (file_lines data))"

definition file_whole :: "file_fault \<Rightarrow> bool" where
  "file_whole fault = (case fault of WriteFails _ _ \<Rightarrow> False | _ \<Rightarrow> True)"

lemma newline_space: "is_space newline"
  by (simp add: is_space_def)

lemma file_lines_append:
  assumes "jti_ok jti" "data = [] \<or> last data = newline"
  shows "file_lines (data @ jti @ [newline]) = file_lines data @ [jti]"
proof -
  have nl: "newline \<notin> set jti" using assms(1) newline_space by (auto simp: jti_ok_def)
  have t: "trim_space jti = jti" "trim_space [] = []" "jti \<noteq> []"
    using assms(1) trim_space_id [of jti] by (auto simp: jti_ok_def intro: trim_space_id)
  show ?thesis
  proof (cases "data = []")
    case True
    then show ?thesis using nl t by (simp add: file_lines_def)
  next
    case False
    then obtain d where d: "data = d @ [newline]" using assms(2) by (metis append_butlast_last_id)
    have "split_on newline (d @ newline # (jti @ [newline])) = split_on newline d @ [jti, []]"
      using nl by (simp add: split_on_sep [where b = "jti @ [newline]"])
    moreover have "split_on newline data = split_on newline d @ [[]]"
      using split_on_sep [of newline d "[]"] by (simp add: d)
    ultimately show ?thesis using t by (simp add: file_lines_def d)
  qed
qed

interpretation file_rs: revocation_store file_save file_loadAll file_clean file_held jti_ok file_whole
proof
  fix f :: file_fault and s js
  show "file_loadAll f s = Inr js \<Longrightarrow> set js = file_held s"
    by (auto simp: file_loadAll_def file_held_def split: option.splits file_fault.splits)
next
  fix s s' :: "string option" and jti agentID f
  assume "file_clean s" "jti_ok jti" "file_save f jti agentID s = (None, s')"
  moreover define old where "old = (case s of None \<Rightarrow> [] | Some c \<Rightarrow> c)"
  ultimately have "s' = Some (old @ jti @ [newline])" "old = [] \<or> last old = newline" "jti_ok jti"
    by (auto simp: file_save_def file_clean_def Let_def split: option.splits file_fault.splits)
  moreover have "file_held s = set (file_lines old)"
    by (simp add: file_held_def old_def file_lines_def trim_space_def split: option.split)
  ultimately show "file_clean s' \<and> file_held s' = insert jti (file_held s)"
    using file_lines_append [of jti old] by (simp add: file_clean_def file_held_def)
next
  fix s :: "string option" and jti agentID f
  assume a: "file_clean s" "jti_ok jti" "file_whole f"
  define old where "old = (case s of None \<Rightarrow> [] | Some c \<Rightarrow> c)"
  have old: "old = [] \<or> last old = newline" "file_held s = set (file_lines old)"
    using a(1) by (auto simp: old_def file_clean_def file_held_def file_lines_def trim_space_def split: option.splits)
  have "snd (file_save f jti agentID s) = s \<or> snd (file_save f jti agentID s) = Some (old @ jti @ [newline])"
    using a(3) by (auto simp: file_save_def file_whole_def old_def Let_def split: file_fault.splits)
  then show "file_clean (snd (file_save f jti agentID s)) \<and> file_held s \<subseteq> file_held (snd (file_save f jti agentID s))"
    using a(1) old file_lines_append [OF a(2) old(1)] by (auto simp: file_clean_def file_held_def)
qed

interpretation db_rs: revocation_store db_save db_loadAll "\<lambda>_. True" "\<lambda>t. fst ` set (rvRows t)" "\<lambda>_. True" "\<lambda>_. True"
proof
  fix f s js
  show "db_loadAll f s = Inr js \<Longrightarrow> set js = fst ` set (rvRows s)"
    by (force simp: db_loadAll_def split: option.splits)
next
  fix s s' :: revoked_table and jti agentID f
  assume "db_save f jti agentID s = (None, s')"
  then show "True \<and> fst ` set (rvRows s') = insert jti (fst ` set (rvRows s))"
    by (auto simp: db_save_def insert_row_def Let_def split: option.splits if_splits prod.splits)
next
  fix s :: revoked_table and jti agentID f
  show "True \<and> fst ` set (rvRows s) \<subseteq> fst ` set (rvRows (snd (db_save f jti agentID s)))"
    by (auto simp: db_save_def insert_row_def Let_def split: option.splits prod.splits)
qed

text \<open>What happens to the table afterwards: revocations by this gateway or another, with or
  without faults, rows that the admin API inserts, and agents that come and go.\<close>

datatype table_event =
    TokenSaved db_fault string string
  | RowInserted string string
  | AgentAdded string
  | AgentRemoved string

fun table_step :: "table_event \<Rightarrow> revoked_table \<Rightarrow> revoked_table" where
  "table_step (TokenSaved f jti agentID) tab = snd (db_save f jti agentID tab)"
| "table_step (RowInserted jti agentID) tab = (case insert_row jti agentID tab of Some tab' \<Rightarrow> tab' | None \<Rightarrow> tab)"
| "table_step (AgentAdded agentID) tab = tab\<lparr>rvAgents := rvAgents tab @ [agentID]\<rparr>"
| "table_step (AgentRemoved agentID) tab =
     tab\<lparr>rvAgents := removeAll agentID (rvAgents tab), rvRows := filter (\<lambda>(_, a). a \<noteq> agentID) (rvRows tab)\<rparr>"

lemma table_step_keeps:
  assumes "(jti, a) \<in> set (rvRows tab)" "e \<noteq> AgentRemoved a"
  shows "(jti, a) \<in> set (rvRows (table_step e tab))"
  using assms by (cases e) (auto simp: db_save_def insert_row_def Let_def split: option.splits prod.splits)

lemma table_steps_keep:
  assumes "(jti, a) \<in> set (rvRows tab)" "AgentRemoved a \<notin> set later"
  shows "(jti, a) \<in> set (rvRows (fold table_step later tab))"
  using assms table_step_keeps by (induction later arbitrary: tab) auto

text \<open>With its agent the revocation goes, and a manager started afterwards accepts the token;
  that the agent is gone is what refuses it then (\<open>CheckLive\<close>).\<close>

lemma removed_agent_forgets_revocation:
  "rvRows (table_step (AgentRemoved ''u1'') (snd (db_save None ''j1'' ''u1'' \<lparr>rvRows = [], rvNotified = [], rvAgents = [''u1'']\<rparr>))) = []"
  by (simp add: db_save_def insert_row_def)

lemma Validate_revoked:
  "jwt_parse (mgIssuer m) now tok = Inr c \<Longrightarrow> tcID c \<in> mgRevoked m \<Longrightarrow> \<exists>e. Validate jwt_parse m now tok = Inl e"
  by (simp add: Validate_def)

lemma file_revocation_survives_restart:
  assumes "file_clean file" "jti_ok (tcID c)" "Revoke (file_save f) (tcID c) agentID (m, file) = (None, (m', file'))"
    "\<forall>(f, j, a)\<in>set later. jti_ok j \<and> file_whole f"
    "newManager ttl iss (file_loadAll g (save_all file_save later file')) = Inr m2"
    "jwt_parse (mgIssuer m2) now tok = Inr c"
  shows "\<exists>e. Validate jwt_parse m2 now tok = Inl e"
  using file_rs.revoked_after_restart [OF assms(1-5)] assms(6) by (rule Validate_revoked [rotated])

text \<open>After a write that failed half-way the next id is appended to the torn line: its
  revocation is reported as persisted and is lost at the next start.\<close>

lemma torn_write_loses_next_revocation:
  "let torn = snd (file_save (WriteFails (ErrText ''disk full'') 4) ''abcd1234'' ''a'' None) in
   file_save FileOK ''beef'' ''a'' torn = (None, Some ''abcdbeef\<newline>'')
   \<and> file_loadAll FileOK (Some ''abcdbeef\<newline>'') = Inr [''abcdbeef'']"
  by (simp add: file_save_def file_loadAll_def file_lines_def trim_space_def is_space_def Let_def)

section \<open>Properties\<close>

lemma issue_ttl_bounds: "minTTL * second \<le> issue_ttl d n \<and> issue_ttl d n \<le> maxTTL * second"
  by (simp add: issue_ttl_def minTTL_def maxTTL_def second_def Let_def)

lemma join_agents_mem:
  "(k', Some a) \<in> set (join_agents db n k) \<Longrightarrow> k' = k \<and> (akOrgID k, a) \<in> set (kdAgents db) \<and> raName a = n"
  by (auto simp: join_agents_def Let_def split: if_splits)

lemma ValidateAndResolveAgent_Some:
  assumes "ValidateAndResolveAgent sha256 dbErr pick db now raw n = Inr (key, Some a)"
  obtains k where "k \<in> set (kdKeys db)" "key_usable sha256 now raw k" "key = key_record k"
    "(akOrgID k, a) \<in> set (kdAgents db)" "raName a = n"
proof -
  from assms obtain k where
    l: "limit_one pick (concat (map (join_agents db n) (filter (key_usable sha256 now raw) (kdKeys db)))) = Some (k, Some a)"
    and k: "key = key_record k"
    by (auto simp: ValidateAndResolveAgent_def split: if_splits option.splits prod.splits)
  from limit_one_mem [OF l] obtain k' where k': "k' \<in> set (kdKeys db)" "key_usable sha256 now raw k'"
    "(k, Some a) \<in> set (join_agents db n k')" by auto
  from join_agents_mem [OF k'(3)] have "k = k'" "(akOrgID k', a) \<in> set (kdAgents db)" "raName a = n" by auto
  with k k' show thesis by (intro that [of k']) auto
qed

lemma issue_resolved_token:
  assumes "issue_resolved sha256 numericDate jwt_sign now req key rec h = (resp, evs, h')" "hrBody resp = TokenBody t"
  obtains a where "rec = Some a" "raStatus a \<noteq> ''suspended''" "raStatus a \<noteq> ''revoked''" "raID a = krAgentID key" "krAgentID key \<noteq> []"
    "Issue sha256 numericDate jwt_sign (hiManager h) now (server_request req key a) = Inr t"
  using assms
  by (auto simp: issue_resolved_def http_error_def too_many_def
      split: if_splits option.splits prod.splits bool.splits sum.splits)

lemma HandleIssue_token:
  assumes "HandleIssue errText sha256 numericDate jwt_sign dbErr pick db now r h = (resp, evs, h')" "hrBody resp = TokenBody t"
  obtains req key rec g where "ihBody r = Inr req"
    "ValidateAndResolveAgent sha256 dbErr pick db now (ihAPIKey r) (trim_prefix (irAgentID req) ''agent:'') = Inr (key, rec)"
    "issue_resolved sha256 numericDate jwt_sign now req key rec (h\<lparr>hiGate := g\<rparr>) = (resp, evs, h')"
  using assms
  by (auto simp: HandleIssue_def http_error_def too_many_def Let_def
      split: if_splits prod.splits bool.splits sum.splits)

text \<open>C23: a token is issued only to the agent its API key is bound to. When the handler
  answers with a token, the caller presented a stored key that is neither revoked nor
  expired, the key is scoped to an agent of its own organisation with the requested name
  whose status is neither suspended nor revoked, and organisation, agent row, key, scope,
  risk tier and subject of the signed claims come from those rows, not from the request.\<close>

theorem issue_scoped_to_key:
  assumes "HandleIssue errText sha256 numericDate jwt_sign dbErr pick db now r h = (resp, evs, h')" "hrBody resp = TokenBody t"
  shows "\<exists>k\<in>set (kdKeys db). \<exists>a c. key_usable sha256 now (ihAPIKey r) k \<and> akAgentID k = Some (raID a)
     \<and> (akOrgID k, a) \<in> set (kdAgents db) \<and> raStatus a \<notin> {''suspended'', ''revoked''}
     \<and> jwt_sign c = Inr (rsToken t) \<and> tcID c = rsJTI t \<and> tcOrgID c = akOrgID k \<and> tcAgentUUID c = raID a \<and> tcAPIKeyID c = akID k
     \<and> tcScope c = raScope a \<and> tcRiskTier c = raRiskTier a \<and> tcSubject c = ''agent:'' @ raName a"
proof -
  obtain req key rec g where
    v: "ValidateAndResolveAgent sha256 dbErr pick db now (ihAPIKey r) (trim_prefix (irAgentID req) ''agent:'') = Inr (key, rec)"
    and i: "issue_resolved sha256 numericDate jwt_sign now req key rec (h\<lparr>hiGate := g\<rparr>) = (resp, evs, h')"
    by (rule HandleIssue_token [OF assms])
  obtain a where a: "rec = Some a" "raStatus a \<noteq> ''suspended''" "raStatus a \<noteq> ''revoked''" "raID a = krAgentID key" "krAgentID key \<noteq> []"
    and iss: "Issue sha256 numericDate jwt_sign (hiManager h) now (server_request req key a) = Inr t"
    by (rule issue_resolved_token [OF i assms(2)]) simp
  obtain k where k: "k \<in> set (kdKeys db)" "key_usable sha256 now (ihAPIKey r) k" "key = key_record k"
    "(akOrgID k, a) \<in> set (kdAgents db)"
    by (rule ValidateAndResolveAgent_Some [OF v [unfolded a(1)]])
  have "akAgentID k = Some (raID a)"
    using a(4,5) k(3) by (auto simp: key_record_def split: option.splits)
  moreover have "jwt_sign (issue_claims sha256 numericDate (hiManager h) now (server_request req key a)) = Inr (rsToken t)"
    "rsJTI t = issue_jti sha256 (''agent:'' @ raName a) now"
    using iss by (auto simp: Issue_def server_request_def split: if_splits sum.splits)
  ultimately show ?thesis
    using a k by (intro bexI [of _ k] exI [of _ a]
        exI [of _ "issue_claims sha256 numericDate (hiManager h) now (server_request req key a)"])
      (simp_all add: issue_claims_def server_request_def key_record_def)
qed

definition sample_agent :: ResolvedAgent where
  "sample_agent = \<lparr>raID = ''u1'', raName = ''bot'', raStatus = ''active'', raScope = ''read'', raModel = ''m'', raOwner = ''o'',
     raRiskTier = ''low'', raTokenTTLSeconds = 600\<rparr>"

definition sample_keys :: "(string \<Rightarrow> string) \<Rightarrow> key_db" where
  "sample_keys sha256 = \<lparr>kdKeys = [\<lparr>akID = ''k1'', akOrgID = ''o1'', akAgentID = Some ''u1'',
     akKeyHash = hashAPIKey sha256 ''secret'', akRevoked = False, akExpiresAt = None\<rparr>], kdAgents = [(''o1'', sample_agent)]\<rparr>"

definition sample_issue_request :: issue_http_request where
  "sample_issue_request = \<lparr>ihMethod = ''POST'', ihAPIKey = ''secret'', ihBody = Inr \<lparr>irAgentID = ''agent:bot'', irOrgID = [],
     irAgentUUID = [], irAPIKeyID = [], irScope = ''admin'', irTask = ''t'', irModel = [], irOwner = [], irRiskTier = [],
     irTTLSeconds = 999999\<rparr>\<rparr>"

definition sample_issuer :: IssueHandler where
  "sample_issuer = \<lparr>hiManager = \<lparr>mgIssuer = ''gw'', mgDefaultTTL = 900 * second, mgRevoked = {}\<rparr>,
     hiLimiter = newRateLimiter 5 second, hiGate = newPreAuthGate 4\<rparr>"

lemma sample_issue:
  "hrBody (fst (HandleIssue (\<lambda>_. []) sha256 id (\<lambda>c. Inr (tcOrgID c)) None 0 (sample_keys sha256) 0 sample_issue_request sample_issuer))
     = TokenBody \<lparr>rsToken = ''o1'', rsExpiresAt = 600 * second, rsJTI = issue_jti sha256 ''agent:bot'' 0\<rparr>"
  by (simp add: HandleIssue_def sample_issue_request_def sample_issuer_def TryAcquire_def newPreAuthGate_def release_slot_def
      Release_def ValidateAndResolveAgent_def limit_one_def sample_keys_def key_usable_def join_agents_def sample_agent_def
      trim_prefix_def issue_resolved_def key_record_def issue_Allow_def newRateLimiter_def Issue_def server_request_def
      issue_claims_def issue_ttl_def minTTL_def maxTTL_def second_def int64_def Let_def)

theorem issue_scoped_to_key_witness:
  "\<exists>k\<in>set (kdKeys (sample_keys id)). akAgentID k = Some ''u1'' \<and> akOrgID k = ''o1''"
proof -
  let ?r = "HandleIssue (\<lambda>_. []) id id (\<lambda>c. Inr (tcOrgID c)) None 0 (sample_keys id) 0 sample_issue_request sample_issuer"
  obtain resp evs h' where r: "?r = (resp, evs, h')" by (metis prod_cases3)
  have "hrBody resp = TokenBody \<lparr>rsToken = ''o1'', rsExpiresAt = 600 * second, rsJTI = issue_jti id ''agent:bot'' 0\<rparr>"
    using sample_issue [of id] r by simp
  from issue_scoped_to_key [OF r this] show ?thesis
    by (auto simp: sample_keys_def sample_agent_def)
qed

text \<open>every token lives between one minute and four hours. Whatever lifetime the agent
  row asks for, even one whose nanosecond count overflows 64 bits, and whatever the
  configured default, the expiry of an issued token is between 60 and 14400 seconds away; a
  lifetime inside that range is honoured exactly.\<close>

theorem issued_lifetime_bounds:
  assumes "Issue sha256 numericDate jwt_sign m now req = Inr resp"
  shows "now + 60 * second \<le> rsExpiresAt resp \<and> rsExpiresAt resp \<le> now + 14400 * second
     \<and> (60 \<le> irTTLSeconds req \<and> irTTLSeconds req \<le> 14400 \<longrightarrow> rsExpiresAt resp = now + irTTLSeconds req * second)"
proof -
  have exp: "rsExpiresAt resp = now + issue_ttl (mgDefaultTTL m) (irTTLSeconds req)"
    using assms by (auto simp: Issue_def split: if_splits sum.splits)
  have "60 \<le> n \<Longrightarrow> n \<le> 14400 \<Longrightarrow> issue_ttl d n = n * second" for d n
    by (simp add: issue_ttl_def minTTL_def maxTTL_def second_def int64_def Let_def)
  with exp issue_ttl_bounds [of "mgDefaultTTL m" "irTTLSeconds req"] show ?thesis
    by (simp add: minTTL_def maxTTL_def)
qed

theorem issued_lifetime_bounds_witness:
  "rsExpiresAt (projr (Issue id id (\<lambda>c. Inr ''tok'') \<lparr>mgIssuer = [], mgDefaultTTL = 0, mgRevoked = {}\<rparr> 5
     (server_request \<lparr>irAgentID = [], irOrgID = [], irAgentUUID = [], irAPIKeyID = [], irScope = [], irTask = [], irModel = [],
        irOwner = [], irRiskTier = [], irTTLSeconds = 0\<rparr> \<lparr>krID = [], krOrgID = [], krAgentID = []\<rparr> sample_agent)))
   = 5 + 600 * second"
proof -
  let ?req = "server_request \<lparr>irAgentID = [], irOrgID = [], irAgentUUID = [], irAPIKeyID = [], irScope = [], irTask = [], irModel = [],
        irOwner = [], irRiskTier = [], irTTLSeconds = 0\<rparr> \<lparr>krID = [], krOrgID = [], krAgentID = []\<rparr> sample_agent"
  let ?m = "\<lparr>mgIssuer = [], mgDefaultTTL = 0, mgRevoked = {}\<rparr> :: Manager"
  have "Issue id id (\<lambda>c. Inr ''tok'') ?m 5 ?req = Inr (projr (Issue id id (\<lambda>c. Inr ''tok'') ?m 5 ?req))"
    by (simp add: Issue_def server_request_def)
  from issued_lifetime_bounds [OF this] show ?thesis
    by (simp add: server_request_def sample_agent_def)
qed

text \<open>C24: a persisted revocation survives restarts. Once \<^verbatim>\<open>Revoke\<close> reports success with the
  database store there is a row for the token id, of the agent given unless an earlier row has
  the id already. Until that agent is deleted, whatever happens to the table (further
  revocations here or elsewhere, failing ones that took effect or not, agents that come and
  go), every manager started from the store refuses every token with that id, and so does the
  manager that revoked it.\<close>

theorem revocation_survives_restart:
  assumes "Revoke (db_save f) (tcID c) agentID (m, tab) = (None, (m', tab'))"
    and "\<forall>a. (tcID c, a) \<in> set (rvRows tab') \<longrightarrow> AgentRemoved a \<notin> set later"
    and "newManager ttl iss (db_loadAll g (fold table_step later tab')) = Inr m2"
    and "jwt_parse (mgIssuer m2) now tok = Inr c" "jwt_parse (mgIssuer m') now tok = Inr c"
  shows "(\<exists>e. Validate jwt_parse m2 now tok = Inl e) \<and> (\<exists>e. Validate jwt_parse m' now tok = Inl e)
    \<and> tcID c \<in> fst ` set (rvRows tab')
    \<and> (tcID c \<notin> fst ` set (rvRows tab) \<longrightarrow> (\<forall>a. (tcID c, a) \<in> set (rvRows tab') \<longrightarrow> a = agentID))"
proof -
  have s: "db_save f (tcID c) agentID tab = (None, tab')" and m': "tcID c \<in> mgRevoked m'"
    using assms(1) by (auto simp: Revoke_def Let_def split: prod.splits option.splits)
  have rows: "tcID c \<in> fst ` set (rvRows tab')"
    "tcID c \<notin> fst ` set (rvRows tab) \<longrightarrow> (\<forall>a. (tcID c, a) \<in> set (rvRows tab') \<longrightarrow> a = agentID)"
    using s by (auto simp: db_save_def insert_row_def Let_def rev_image_eqI split: option.splits if_splits prod.splits)
  then obtain a where a: "(tcID c, a) \<in> set (rvRows tab')" by force
  have "(tcID c, a) \<in> set (rvRows (fold table_step later tab'))" by (rule table_steps_keep) (use a assms(2) in auto)
  then have "tcID c \<in> mgRevoked m2"
    using assms(3) by (force simp: newManager_def db_loadAll_def split: option.splits)
  then have "\<exists>e. Validate jwt_parse m2 now tok = Inl e" using assms(4) by (simp add: Validate_def)
  moreover have "\<exists>e. Validate jwt_parse m' now tok = Inl e" using assms(5) m' by (simp add: Validate_def)
  ultimately show ?thesis using rows by blast
qed

theorem revocation_survives_restart_witness:
  "\<exists>e. Validate (\<lambda>_ _ _. Inr (issue_claims id id \<lparr>mgIssuer = [], mgDefaultTTL = 0, mgRevoked = {}\<rparr> 0
      (projr (ihBody sample_issue_request))))
     \<lparr>mgIssuer = ''gw'', mgDefaultTTL = 60 * second, mgRevoked = {issue_jti id ''agent:bot'' 0, ''x''}\<rparr> 0 ''tok'' = Inl e"
proof -
  define c where "c = issue_claims id id \<lparr>mgIssuer = [], mgDefaultTTL = 0, mgRevoked = {}\<rparr> 0 (projr (ihBody sample_issue_request))"
  let ?m = "\<lparr>mgIssuer = ''gw'', mgDefaultTTL = 60 * second, mgRevoked = {issue_jti id ''agent:bot'' 0, ''x''}\<rparr> :: Manager"
  let ?later = "[TokenSaved (Some (ErrText ''connection lost'', True)) ''x'' ''u2'', AgentAdded ''u3'', AgentRemoved ''u3'']"
  let ?tab = "\<lparr>rvRows = [], rvNotified = [], rvAgents = [''u1'', ''u2'']\<rparr>"
  obtain m' tab' where r: "Revoke (db_save None) (tcID c) ''u1'' (\<lparr>mgIssuer = [], mgDefaultTTL = 0, mgRevoked = {}\<rparr>, ?tab) = (None, (m', tab'))"
    and tab': "tab' = \<lparr>rvRows = [(tcID c, ''u1'')], rvNotified = [tcID c], rvAgents = [''u1'', ''u2'']\<rparr>"
    by (simp add: Revoke_def db_save_def insert_row_def)
  have jti: "tcID c = issue_jti id ''agent:bot'' 0" "tcID c \<noteq> ''x''"
    by (simp_all add: c_def issue_claims_def sample_issue_request_def issue_jti_def hex_encode_def)
  have n: "newManager 60 ''gw'' (db_loadAll None (fold table_step ?later tab')) = Inr ?m"
    using jti(2) unfolding jti(1) [symmetric] by (simp add: newManager_def db_loadAll_def db_save_def insert_row_def tab' second_def int64_def)
  show ?thesis
    using revocation_survives_restart [OF r _ n, of "\<lambda>_ _ _. Inr c"] unfolding c_def [symmetric] by (simp add: tab')
qed

end
