(* ===== verification/Workflow_Exec.thy ===== *)
theory Workflow_Exec
  imports Dispatcher Identity_Tokens "HOL-Library.AList"
begin

text \<open>
  Workflow runs (\<^verbatim>\<open>eami-gateway/internal/workflow\<close>): loading a definition, resolving the
  parameters of a step from the results of earlier ones, running the steps through
  \<open>Dispatch\<close>, the rows written about them, and the HTTP handler with its rate limiter.
  Parameters stand for code outside the repository: \<open>gjson\<close> (None when the path does not
  exist), the decoding of JSON columns, and \<open>errText\<close> for \<^verbatim>\<open>err.Error()\<close>. What the outside
  world answers while step number \<open>i\<close> runs is the \<open>i\<close>-th \<open>step_world\<close>: the connector table
  may change between the steps, and between the read of a connector and the dispatch.
\<close>

section \<open>Definitions and results (types.go)\<close>

record ExtractionRef =
  exFromStep :: uuid
  exPath :: string

record Step =
  stWorkflowStepID :: uuid
  stStepOrder :: int
  stGatewayToolID :: uuid
  stAction :: string
  stParams :: params
  stInputMapping :: "(string \<times> ExtractionRef) list"

record Definition =
  dfWorkflowID :: uuid
  dfOrgID :: uuid
  dfName :: string
  dfSteps :: "Step list"

record StepResult =
  srStepOrder :: int
  srWorkflowStepID :: uuid
  srResolvedToolID :: uuid
  srResolvedConfigHash :: string
  srProjectedDecision :: string
  srOutcome :: string
  srResult :: string
  srErrorDetail :: string
  srStartedAt :: time
  srFinishedAt :: time

record RunResult =
  rnRunID :: uuid
  rnStatus :: string
  rnSteps :: "StepResult list"

section \<open>Loading a definition (resolve.go)\<close>

record workflow_row =
  wfID :: uuid
  wfOrgID :: uuid
  wfName :: string
  wfStatus :: string

record workflow_step_row =
  wsID :: uuid
  wsWorkflowID :: uuid
  wsStepOrder :: int
  wsGatewayToolID :: "uuid option"
  wsAction :: string
  wsInputMapping :: string

record workflow_tables =
  wtWorkflows :: "workflow_row list"
  wtSteps :: "workflow_step_row list"
  wtParams :: "(uuid \<times> string) list"

record resolve_env =
  wvWorkflowErr :: "go_error option"
  wvStepsErr :: "go_error option"
  wvRowsErr :: "go_error option"
  wvParams :: "string \<Rightarrow> params result"
  wvMapping :: "string \<Rightarrow> (string \<times> ExtractionRef) list result"

definition step_params_raw :: "workflow_tables \<Rightarrow> uuid \<Rightarrow> string" where
  "step_params_raw db i = (case map_of (wtParams db) i of None \<Rightarrow> ''{}'' | Some p \<Rightarrow> p)"

definition scan_step :: "resolve_env \<Rightarrow> workflow_tables \<Rightarrow> workflow_step_row \<Rightarrow> Step result" where
  "scan_step env db r =
     (case wsGatewayToolID r of
        None \<Rightarrow> Inl (Wrapped (''(step_order='' @ show_int (wsStepOrder r) @ '')'') (Sentinel ErrDanglingStep))
      | Some tool \<Rightarrow>
        (case (if step_params_raw db (wsID r) = [] then Inr None else wvParams env (step_params_raw db (wsID r))) of
           Inl err \<Rightarrow> Inl (Wrapped (''workflow: unmarshal step '' @ show_int (wsStepOrder r) @ '' params'') err)
         | Inr ps \<Rightarrow>
           (case (if wsInputMapping r = [] then Inr [] else wvMapping env (wsInputMapping r)) of
              Inl err \<Rightarrow> Inl (Wrapped (''workflow: unmarshal step '' @ show_int (wsStepOrder r) @ '' input_mapping'') err)
            | Inr im \<Rightarrow> Inr \<lparr>stWorkflowStepID = wsID r, stStepOrder = wsStepOrder r, stGatewayToolID = tool,
                               stAction = wsAction r, stParams = ps, stInputMapping = im\<rparr>)))"

fun scan_steps :: "resolve_env \<Rightarrow> workflow_tables \<Rightarrow> workflow_step_row list \<Rightarrow> Step list result" where
  "scan_steps env db [] = (case wvRowsErr env of Some err \<Rightarrow> Inl (Wrapped ''workflow: iterate steps'' err) | None \<Rightarrow> Inr [])"
| "scan_steps env db (r # rs) =
     (case scan_step env db r of
        Inl err \<Rightarrow> Inl err
      | Inr st \<Rightarrow> (case scan_steps env db rs of Inl err \<Rightarrow> Inl err | Inr sts \<Rightarrow> Inr (st # sts)))"

text \<open>The row's \<^verbatim>\<open>status\<close> is not read.\<close>

definition Resolve :: "resolve_env \<Rightarrow> workflow_tables \<Rightarrow> uuid \<Rightarrow> uuid \<Rightarrow> Definition result" where
  "Resolve env db orgID workflowID =
     (case wvWorkflowErr env of
        Some err \<Rightarrow> Inl (Wrapped ''workflow: resolve workflow'' err)
      | None \<Rightarrow>
        (case List.find (\<lambda>w. wfID w = workflowID \<and> wfOrgID w = orgID) (wtWorkflows db) of
           None \<Rightarrow> Inl (Sentinel ErrWorkflowNotFound)
         | Some w \<Rightarrow>
           (case wvStepsErr env of
              Some err \<Rightarrow> Inl (Wrapped ''workflow: resolve steps'' err)
            | None \<Rightarrow>
              (case scan_steps env db (sort_key wsStepOrder (filter (\<lambda>r. wsWorkflowID r = workflowID) (wtSteps db))) of
                 Inl err \<Rightarrow> Inl err
               | Inr sts \<Rightarrow>
                 if sts = [] then Inl (ErrText (''workflow: '' @ go_quote (wfName w) @ '' has no steps''))
                 else Inr \<lparr>dfWorkflowID = workflowID, dfOrgID = orgID, dfName = wfName w, dfSteps = sts\<rparr>))))"

section \<open>Parameters (params.go)\<close>

fun extract_all ::
  "(string \<Rightarrow> string \<Rightarrow> json option) \<Rightarrow> (uuid \<rightharpoonup> StepResult) \<Rightarrow> (string \<times> ExtractionRef) list
     \<Rightarrow> (string \<times> json) list \<Rightarrow> (string \<times> json) list result" where
  "extract_all gjson prior [] merged = Inr merged"
| "extract_all gjson prior ((key, ref) # refs) merged =
     (case prior (exFromStep ref) of
        None \<Rightarrow> Inl (ErrText (''extraction for param '' @ go_quote key @ '': referenced step '' @ exFromStep ref
                 @ '' has not executed in this run (wrong workflow, wrong run, or a not-yet-executed step)''))
      | Some p \<Rightarrow>
        if srOutcome p \<noteq> ''allowed'' \<or> srResult p = [] then
          Inl (ErrText (''extraction for param '' @ go_quote key @ '': referenced step '' @ exFromStep ref
                 @ '' did not produce a usable result (outcome='' @ go_quote (srOutcome p) @ '')''))
        else case gjson (srResult p) (exPath ref) of
          None \<Rightarrow> Inl (ErrText (''extraction for param '' @ go_quote key @ '': path '' @ go_quote (exPath ref)
                   @ '' not found in step '' @ exFromStep ref @ [CHR 0x27] @ ''s result''))
        | Some v \<Rightarrow> extract_all gjson prior refs (AList.update key v merged))"

definition static_params :: "params \<Rightarrow> (string \<times> json) list" where
  "static_params p = (case p of None \<Rightarrow> [] | Some kvs \<Rightarrow> kvs)"

definition resolveParams ::
  "(string \<Rightarrow> string \<Rightarrow> json option) \<Rightarrow> Step \<Rightarrow> (uuid \<rightharpoonup> StepResult) \<Rightarrow> params result" where
  "resolveParams gjson step prior =
     (case extract_all gjson prior (stInputMapping step) (static_params (stParams step)) of
        Inl err \<Rightarrow> Inl err | Inr merged \<Rightarrow> Inr (Some merged))"

section \<open>Connectors (connector.go)\<close>

record connectorRow =
  cnName :: string
  cnToolType :: string
  cnAuthType :: string
  cnBaseURLOrProvider :: string
  cnCredentialsEncrypted :: string
  cnActionPaths :: "(string \<times> ActionPathEntry) list"
  cnRedactionRules :: string

definition resolveConnectorByID ::
  "http_env \<Rightarrow> go_error option \<Rightarrow> gateway_tool_row list \<Rightarrow> uuid \<Rightarrow> uuid \<Rightarrow> connectorRow result" where
  "resolveConnectorByID env dbErr tools orgID toolID =
     (case dbErr of
        Some err \<Rightarrow> Inl (Wrapped (''workflow: resolve connector '' @ toolID) err)
      | None \<Rightarrow>
        (case List.find (\<lambda>g. gtID g = toolID \<and> gtOrgID g = orgID) tools of
           None \<Rightarrow> Inl (Sentinel ErrConnectorNotFound)
         | Some g \<Rightarrow>
           Inr \<lparr>cnName = gtName g, cnToolType = gtType g, cnAuthType = gtAuthType g, cnBaseURLOrProvider = connector_target g,
             cnCredentialsEncrypted = gtCredentialsEncrypted g,
             cnActionPaths = (if gtActionPaths g = [] then [] else case hePaths env (gtActionPaths g) of Inl _ \<Rightarrow> [] | Inr p \<Rightarrow> p),
             cnRedactionRules = gtRedactionRules g\<rparr>))"

definition configHashJSON :: "((string \<times> ActionPathEntry) list \<Rightarrow> string) \<Rightarrow> connectorRow \<Rightarrow> string" where
  "configHashJSON marshal c = (if cnActionPaths c = [] then [] else marshal (cnActionPaths c))"

section \<open>The executor (executor.go)\<close>

record run_row =
  wrID :: uuid
  wrOrgID :: uuid
  wrWorkflowID :: uuid
  wrAgentID :: uuid
  wrStatus :: string
  wrFinishedAt :: "time option"

record run_step_row =
  rtID :: uuid
  rtRunID :: uuid
  rtStepOrder :: int
  rtWorkflowStepID :: uuid
  rtToolID :: "uuid option"
  rtConfigHash :: "string option"
  rtProjected :: "string option"
  rtStartedAt :: time
  rtOutcome :: "string option"
  rtResult :: "string option"
  rtErrorDetail :: "string option"
  rtFinishedAt :: "time option"

record run_store =
  workflow_runs :: "run_row list"
  workflow_run_steps :: "run_step_row list"

record step_world =
  swTools :: "gateway_tool_row list"
  swConnErr :: "go_error option"
  swPreview :: "policy_context \<Rightarrow> Decision \<times> go_error option"
  swEnv :: dispatch_env
  swRowID :: uuid
  swInsertErr :: bool
  swUpdateErr :: bool
  swStarted :: time
  swReceived :: time
  swFinished :: time

definition insertRunStep :: "bool \<Rightarrow> uuid \<Rightarrow> uuid \<Rightarrow> StepResult \<Rightarrow> run_store \<Rightarrow> run_store" where
  "insertRunStep fails rowID runID sr s =
     (if fails then s
      else s\<lparr>workflow_run_steps := workflow_run_steps s @ [\<lparr>rtID = rowID, rtRunID = runID, rtStepOrder = srStepOrder sr,
        rtWorkflowStepID = srWorkflowStepID sr,
        rtToolID = (if srResolvedToolID sr = nil_uuid then None else Some (srResolvedToolID sr)),
        rtConfigHash = non_empty (srResolvedConfigHash sr), rtProjected = non_empty (srProjectedDecision sr),
        rtStartedAt = srStartedAt sr, rtOutcome = None, rtResult = None, rtErrorDetail = None, rtFinishedAt = None\<rparr>]\<rparr>)"

definition updateRunStep :: "bool \<Rightarrow> uuid \<Rightarrow> StepResult \<Rightarrow> run_store \<Rightarrow> run_store" where
  "updateRunStep fails rowID sr s =
     (if fails then s
      else s\<lparr>workflow_run_steps := map (\<lambda>r. if rtID r = rowID
        then r\<lparr>rtOutcome := Some (srOutcome sr), rtResult := non_empty (srResult sr),
               rtErrorDetail := non_empty (srErrorDetail sr), rtFinishedAt := Some (srFinishedAt sr)\<rparr>
        else r) (workflow_run_steps s)\<rparr>)"

text \<open>A dispatched call: its action context and the effects of its dispatch.\<close>

type_synonym call = "ActionContext \<times> effect list"

definition step_start :: "step_world \<Rightarrow> Step \<Rightarrow> StepResult" where
  "step_start w step = \<lparr>srStepOrder = stStepOrder step, srWorkflowStepID = stWorkflowStepID step, srResolvedToolID = nil_uuid,
     srResolvedConfigHash = [], srProjectedDecision = [], srOutcome = [], srResult = [], srErrorDetail = [],
     srStartedAt = swStarted w, srFinishedAt = zero_time\<rparr>"

text \<open>A step that fails before its dispatch: both rows are written, nothing is dispatched.\<close>

definition block_step :: "(go_error \<Rightarrow> string) \<Rightarrow> step_world \<Rightarrow> uuid \<Rightarrow> StepResult \<Rightarrow> go_error \<Rightarrow> run_store
    \<Rightarrow> (StepResult \<times> call list) \<times> run_store" where
  "block_step errText w runID sr err s =
     (let sr = sr\<lparr>srOutcome := ''blocked'', srErrorDetail := errText err, srFinishedAt := swFinished w\<rparr>
      in ((sr, []), updateRunStep (swUpdateErr w) (swRowID w) sr (insertRunStep (swInsertErr w) (swRowID w) runID sr s)))"

definition preview_context :: "ActionContext \<Rightarrow> connectorRow \<Rightarrow> Step \<Rightarrow> params \<Rightarrow> policy_context" where
  "preview_context t conn step ps = \<lparr>pcOrgID = acOrgID t, pcWorkspaceID = acWorkspaceID t, pcAgentID = [],
     pcAgentName = acAgentName t, pcScope = acAgentScope t, pcAgentScope = [], pcModel = [], pcOwner = [], pcRiskTier = [],
     pcToolName = cnName conn, pcActionType = stAction step, pcActionVerb = [], pcToolServerID = [], pcParameters = ps,
     pcEnvironment = acEnvironment t, pcEstimatedRecordCount = 0, pcSessionActions = [], pcTimestamp = zero_time\<rparr>"

definition step_context :: "step_world \<Rightarrow> ActionContext \<Rightarrow> uuid \<Rightarrow> connectorRow \<Rightarrow> Step \<Rightarrow> params \<Rightarrow> ActionContext" where
  "step_context w t runID conn step ps = t\<lparr>acTool := cnName conn, acAction := stAction step, acParameters := ps,
     acReceivedAt := swReceived w, acWorkflowRunID := runID, acStepIndex := Some (stStepOrder step)\<rparr>"

definition step_done :: "(go_error \<Rightarrow> string) \<Rightarrow> step_world \<Rightarrow> StepResult \<Rightarrow> string \<Rightarrow> go_error option \<Rightarrow> StepResult" where
  "step_done errText w sr body dispatchErr =
     (let sr = sr\<lparr>srFinishedAt := swFinished w\<rparr> in
      case dispatchErr of
        Some err \<Rightarrow> sr\<lparr>srOutcome := (if as_policy_denied err \<noteq> None then ''denied'' else ''blocked''), srErrorDetail := errText err\<rparr>
      | None \<Rightarrow> sr\<lparr>srOutcome := ''allowed'', srResult := body\<rparr>)"

definition runStep ::
  "(string \<Rightarrow> string \<Rightarrow> json option) \<Rightarrow> (go_error \<Rightarrow> string) \<Rightarrow> step_world \<Rightarrow> ActionContext \<Rightarrow> uuid \<Rightarrow> uuid \<Rightarrow> Step
     \<Rightarrow> (uuid \<rightharpoonup> StepResult) \<Rightarrow> run_store \<Rightarrow> (StepResult \<times> call list) \<times> run_store" where
  "runStep gjson errText w t orgID runID step prior s =
     (let sr = step_start w step in
      case resolveConnectorByID (deHttp (swEnv w)) (swConnErr w) (swTools w) orgID (stGatewayToolID step) of
        Inl err \<Rightarrow> block_step errText w runID sr err s
      | Inr conn \<Rightarrow>
        let sr = sr\<lparr>srResolvedToolID := stGatewayToolID step,
                    srResolvedConfigHash := ComputeConfigHash (deSha256 (swEnv w)) (cnToolType conn) (cnBaseURLOrProvider conn)
                      (cnCredentialsEncrypted conn) (configHashJSON (deMarshalPaths (swEnv w)) conn) (cnRedactionRules conn)\<rparr>
        in case resolveParams gjson step prior of
             Inl err \<Rightarrow> block_step errText w runID sr err s
           | Inr ps \<Rightarrow>
             let sr = (case swPreview w (preview_context t conn step ps) of
                         (dec, None) \<Rightarrow> sr\<lparr>srProjectedDecision := dAction dec\<rparr> | (_, Some _) \<Rightarrow> sr);
                 s = insertRunStep (swInsertErr w) (swRowID w) runID sr s;
                 ac = step_context w t runID conn step ps
             in case Dispatch (swEnv w) ac of
                  ((body, dispatchErr), effs) \<Rightarrow>
                    let sr = step_done errText w sr body dispatchErr
                    in ((sr, [(ac, effs)]), updateRunStep (swUpdateErr w) (swRowID w) sr s))"

text \<open>The loop over the steps, number \<open>i\<close> being the next one.\<close>

fun run_loop ::
  "(string \<Rightarrow> string \<Rightarrow> json option) \<Rightarrow> (go_error \<Rightarrow> string) \<Rightarrow> (nat \<Rightarrow> step_world) \<Rightarrow> ActionContext \<Rightarrow> uuid \<Rightarrow> uuid
     \<Rightarrow> nat \<Rightarrow> Step list \<Rightarrow> (uuid \<rightharpoonup> StepResult) \<Rightarrow> run_store \<Rightarrow> (StepResult list \<times> string \<times> call list) \<times> run_store" where
  "run_loop gjson errText w t orgID runID i [] prior s = (([], ''completed'', []), s)"
| "run_loop gjson errText w t orgID runID i (step # steps) prior s =
     (case runStep gjson errText (w i) t orgID runID step prior s of
        ((sr, calls), s) \<Rightarrow>
          if srOutcome sr \<noteq> ''allowed''
          then (([sr], if srOutcome sr = ''denied'' then ''denied'' else ''failed'', calls), s)
          else (case run_loop gjson errText w t orgID runID (Suc i) steps (prior(stWorkflowStepID step \<mapsto> sr)) s of
                  ((srs, status, calls'), s) \<Rightarrow> ((sr # srs, status, calls @ calls'), s)))"

record run_env =
  ruResolve :: resolve_env
  ruTables :: workflow_tables
  ruParseUUID :: "string \<Rightarrow> uuid result"
  ruGJSON :: "string \<Rightarrow> string \<Rightarrow> json option"
  ruErrText :: "go_error \<Rightarrow> string"
  ruRunID :: uuid
  ruCreateErr :: "go_error option"
  ruFinishErr :: bool
  ruFinishedAt :: time
  ruWorld :: "nat \<Rightarrow> step_world"

definition with_session :: "uuid \<Rightarrow> ActionContext \<Rightarrow> ActionContext" where
  "with_session runID t = (if acSessionID t = [] then t\<lparr>acSessionID := ''workflow-run-'' @ runID\<rparr> else t)"

definition create_run :: "uuid \<Rightarrow> uuid \<Rightarrow> uuid \<Rightarrow> Definition \<Rightarrow> run_store \<Rightarrow> run_store" where
  "create_run runID orgID agentID def s = s\<lparr>workflow_runs := workflow_runs s @ [\<lparr>wrID = runID, wrOrgID = orgID,
     wrWorkflowID = dfWorkflowID def, wrAgentID = agentID, wrStatus = ''running'', wrFinishedAt = None\<rparr>]\<rparr>"

definition finish_run :: "uuid \<Rightarrow> string \<Rightarrow> time \<Rightarrow> run_store \<Rightarrow> run_store" where
  "finish_run runID status now s =
     s\<lparr>workflow_runs := map (\<lambda>r. if wrID r = runID then r\<lparr>wrStatus := status, wrFinishedAt := Some now\<rparr> else r) (workflow_runs s)\<rparr>"

definition Run :: "run_env \<Rightarrow> ActionContext \<Rightarrow> uuid \<Rightarrow> run_store \<Rightarrow> (RunResult result \<times> call list) \<times> run_store" where
  "Run env t workflowID s =
     (case ruParseUUID env (acOrgID t) of
        Inl err \<Rightarrow> ((Inl (Wrapped ''workflow: invalid org id in template'' err), []), s)
      | Inr orgID \<Rightarrow>
        (case ruParseUUID env (acAgentUUID t) of
           Inl err \<Rightarrow> ((Inl (Wrapped ''workflow: invalid agent id in template'' err), []), s)
         | Inr agentID \<Rightarrow>
           (case Resolve (ruResolve env) (ruTables env) orgID workflowID of
              Inl err \<Rightarrow> ((Inl err, []), s)
            | Inr def \<Rightarrow>
              (case ruCreateErr env of
                 Some err \<Rightarrow> ((Inl (Wrapped ''workflow: create run'' err), []), s)
               | None \<Rightarrow>
                 let runID = ruRunID env;
                     s = create_run runID orgID agentID def s;
                     t = with_session runID t
                 in case run_loop (ruGJSON env) (ruErrText env) (ruWorld env) t orgID runID 0 (dfSteps def) Map.empty s of
                      ((srs, status, calls), s) \<Rightarrow>
                        ((Inr \<lparr>rnRunID = runID, rnStatus = status, rnSteps = srs\<rparr>, calls),
                         if ruFinishErr env then s else finish_run runID status (ruFinishedAt env) s)))))"

section \<open>Over HTTP (http.go, ratelimit.go)\<close>

record stepResultDTO =
  sdStepOrder :: int
  sdResolvedToolID :: string
  sdResolvedConfigHash :: string
  sdProjectedDecision :: string
  sdOutcome :: string
  sdResult :: string
  sdErrorDetail :: string
  sdStartedAt :: time
  sdFinishedAt :: time

definition stepResultsToDTO :: "StepResult list \<Rightarrow> stepResultDTO list" where
  "stepResultsToDTO srs = map (\<lambda>r. \<lparr>sdStepOrder = srStepOrder r,
     sdResolvedToolID = (if srResolvedToolID r \<noteq> nil_uuid then srResolvedToolID r else []),
     sdResolvedConfigHash = srResolvedConfigHash r, sdProjectedDecision = srProjectedDecision r, sdOutcome = srOutcome r,
     sdResult = srResult r, sdErrorDetail = srErrorDetail r, sdStartedAt = srStartedAt r, sdFinishedAt = srFinishedAt r\<rparr>) srs"

datatype run_body =
    RunText string
  | RunJSON string string "stepResultDTO list"

record run_request =
  rqAuthorization :: string
  rqWorkflowID :: string
  rqEnvironment :: string

definition run_template :: "time \<Rightarrow> token_claims \<Rightarrow> AgentRecord \<Rightarrow> string \<Rightarrow> ActionContext" where
  "run_template now c rec e = \<lparr>acAgentID = tcSubject c, acTokenID = tcID c, acAPIKeyID = tcAPIKeyID c, acAgentUUID = agID rec,
     acAgentName = trim_prefix (tcSubject c) ''agent:'', acOrgID = agOrgID rec, acWorkspaceID = agWorkspaceID rec,
     acAgentScope = agScope rec, acTool = [], acAction = [], acParameters = None, acEnvironment = (if e = [] then ''unknown'' else e),
     acSessionID = [], acWorkflowRunID = [], acStepIndex = None, acReceivedAt = now\<rparr>"

definition run_status :: "go_error \<Rightarrow> int" where
  "run_status err = (if errors_is ErrWorkflowNotFound err then 404 else if errors_is ErrDanglingStep err then 409 else 500)"

definition HandleRun ::
  "auth_env \<Rightarrow> run_env \<Rightarrow> run_request \<Rightarrow> run_store \<Rightarrow> ((int \<times> run_body) \<times> call list) \<times> run_store" where
  "HandleRun au env r s =
     (if \<not> has_prefix (rqAuthorization r) ''Bearer '' then (((401, RunText MsgUnauthorized), []), s)
      else case Validate (auParse au) (auManager au) (auNow au) (drop 7 (rqAuthorization r)) of
        Inl _ \<Rightarrow> (((401, RunText MsgUnauthorized), []), s)
      | Inr claims \<Rightarrow>
        if tcOrgID claims = [] then (((401, RunText MsgUnauthorized), []), s)
        else case LookupByNameAndOrg (auRegistryErr au) (auPick au) (auRegistry au)
                (trim_prefix (tcSubject claims) ''agent:'') (tcOrgID claims) of
          (Some rec, None) \<Rightarrow>
            if \<not> BoundTo (Some claims) (agID rec) then (((403, RunText MsgForbidden), []), s)
            else (case ruParseUUID env (rqWorkflowID r) of
              Inl _ \<Rightarrow> (((400, RunText ''invalid workflowId''), []), s)
            | Inr workflowID \<Rightarrow>
              (case Run env (run_template (auNow au) claims rec (rqEnvironment r)) workflowID s of
                 ((Inl err, calls), s) \<Rightarrow> (((run_status err, RunText (ruErrText env err)), calls), s)
               | ((Inr res, calls), s) \<Rightarrow>
                   (((200, RunJSON (rnRunID res) (rnStatus res) (stepResultsToDTO (rnSteps res))), calls), s)))
        | _ \<Rightarrow> (((403, RunText MsgForbidden), []), s))"

text \<open>The answer of the middleware itself, if it does not call the next handler.\<close>

definition RateLimitRunMiddleware ::
  "auth_env \<Rightarrow> run_request \<Rightarrow> rateLimiter \<Rightarrow> http_response option \<times> rateLimiter" where
  "RateLimitRunMiddleware au r rl =
     (if \<not> has_prefix (rqAuthorization r) ''Bearer '' then (None, rl)
      else case Validate (auParse au) (auManager au) (auNow au) (drop 7 (rqAuthorization r)) of
        Inl _ \<Rightarrow> (None, rl)
      | Inr claims \<Rightarrow>
        if tcOrgID claims = [] then (None, rl)
        else case LookupByNameAndOrg (auRegistryErr au) (auPick au) (auRegistry au)
                (trim_prefix (tcSubject claims) ''agent:'') (tcOrgID claims) of
          (Some rec, None) \<Rightarrow>
            if \<not> BoundTo (Some claims) (agID rec) then (None, rl)
            else (case run_Allow (auNow au) (agID rec) rl of
                ((True, _), rl) \<Rightarrow> (None, rl)
              | ((False, retryAfter), rl) \<Rightarrow>
                  (Some (too_many retryAfter ''too many workflow-run requests for this agent -- try again later''), rl))
        | _ \<Rightarrow> (None, rl))"

section \<open>One step\<close>

definition names_step :: "Step \<Rightarrow> StepResult \<Rightarrow> bool" where
  "names_step step sr = (srStepOrder sr = stStepOrder step \<and> srWorkflowStepID sr = stWorkflowStepID step)"

lemma names_step_update [simp]:
  "names_step step (sr\<lparr>srOutcome := o', srErrorDetail := d, srFinishedAt := f\<rparr>) = names_step step sr"
  by (simp add: names_step_def)

lemma runStep_cases:
  obtains (stopped) sr err where "runStep gjson errText w t orgID runID step prior s = block_step errText w runID sr err s"
      "names_step step sr" "srResult sr = []"
    | (ran) conn ps sr body err effs where
      "resolveConnectorByID (deHttp (swEnv w)) (swConnErr w) (swTools w) orgID (stGatewayToolID step) = Inr conn"
      "resolveParams gjson step prior = Inr ps"
      "Dispatch (swEnv w) (step_context w t runID conn step ps) = ((body, err), effs)"
      "names_step step sr" "srResult sr = []" "srErrorDetail sr = []"
      "runStep gjson errText w t orgID runID step prior s =
         ((step_done errText w sr body err, [(step_context w t runID conn step ps, effs)]),
          updateRunStep (swUpdateErr w) (swRowID w) (step_done errText w sr body err)
            (insertRunStep (swInsertErr w) (swRowID w) runID sr s))"
proof (cases "resolveConnectorByID (deHttp (swEnv w)) (swConnErr w) (swTools w) orgID (stGatewayToolID step)")
  case (Inl err)
  then show ?thesis by (intro stopped [of "step_start w step" err]) (simp_all add: runStep_def Let_def step_start_def names_step_def)
next
  case (Inr conn)
  let ?sr = "(step_start w step)\<lparr>srResolvedToolID := stGatewayToolID step,
    srResolvedConfigHash := ComputeConfigHash (deSha256 (swEnv w)) (cnToolType conn) (cnBaseURLOrProvider conn)
      (cnCredentialsEncrypted conn) (configHashJSON (deMarshalPaths (swEnv w)) conn) (cnRedactionRules conn)\<rparr>"
  show ?thesis
  proof (cases "resolveParams gjson step prior")
    case (Inl err)
    with Inr show ?thesis
      by (intro stopped [of ?sr err]) (simp_all add: runStep_def Let_def step_start_def names_step_def)
  next
    case (Inr ps)
    obtain body err effs where d: "Dispatch (swEnv w) (step_context w t runID conn step ps) = ((body, err), effs)"
      by (metis prod.exhaust)
    let ?sr' = "case swPreview w (preview_context t conn step ps) of (dec, None) \<Rightarrow> ?sr\<lparr>srProjectedDecision := dAction dec\<rparr> | (_, Some _) \<Rightarrow> ?sr"
    have f: "names_step step ?sr'" "srResult ?sr' = []" "srErrorDetail ?sr' = []"
      by (simp_all add: step_start_def names_step_def split: prod.split option.split)
    show ?thesis
      using \<open>resolveConnectorByID _ _ _ _ _ = Inr conn\<close> Inr d f
      by (intro ran [of conn ps body err effs ?sr']) (simp_all only: runStep_def Let_def sum.case prod.case)
  qed
qed

lemma step_done_fields [simp]:
  "names_step step (step_done errText w sr body err) = names_step step sr"
  "srOutcome (step_done errText w sr body err) =
     (case err of None \<Rightarrow> ''allowed'' | Some e \<Rightarrow> if as_policy_denied e \<noteq> None then ''denied'' else ''blocked'')"
  by (auto simp: step_done_def names_step_def Let_def split: option.split)

lemma runStep_result:
  assumes "runStep gjson errText w t orgID runID step prior s = ((sr, calls), s')"
  shows "names_step step sr" "length calls \<le> 1" "srOutcome sr \<in> {''allowed'', ''denied'', ''blocked''}"
    "(ac, effs) \<in> set calls \<Longrightarrow> \<exists>conn ps. resolveConnectorByID (deHttp (swEnv w)) (swConnErr w) (swTools w) orgID (stGatewayToolID step) = Inr conn
       \<and> resolveParams gjson step prior = Inr ps \<and> ac = step_context w t runID conn step ps \<and> effs = snd (Dispatch (swEnv w) ac)"
  using assms
  by (atomize (full), cases rule: runStep_cases [of gjson errText w t orgID runID step prior s])
    (auto simp: block_step_def Let_def split: option.splits)

section \<open>The loop\<close>

lemma run_loop_result:
  assumes "run_loop gjson errText w t orgID runID i steps prior s = ((srs, status, calls), s')" "steps \<noteq> []"
  shows "srs \<noteq> [] \<and> list_all2 names_step (take (length srs) steps) srs \<and> length srs \<le> length steps \<and> length calls \<le> length srs
    \<and> (\<forall>r\<in>set (butlast srs). srOutcome r = ''allowed'') \<and> (length srs < length steps \<longrightarrow> srOutcome (last srs) \<noteq> ''allowed'')
    \<and> status = (if srOutcome (last srs) = ''allowed'' then ''completed'' else if srOutcome (last srs) = ''denied'' then ''denied'' else ''failed'')"
  using assms
proof (induction steps arbitrary: i prior s srs status calls s')
  case (Cons step steps)
  obtain sr cs s1 where r: "runStep gjson errText (w i) t orgID runID step prior s = ((sr, cs), s1)" by (metis prod.exhaust)
  note f = runStep_result(1,2) [OF r]
  show ?case
  proof (cases "srOutcome sr = ''allowed'' \<and> steps \<noteq> []")
    case True
    obtain srs' st cs' s2 where l: "run_loop gjson errText w t orgID runID (Suc i) steps (prior(stWorkflowStepID step \<mapsto> sr)) s1 = ((srs', st, cs'), s2)"
      by (metis prod.exhaust)
    have "srs = sr # srs'" "status = st" "calls = cs @ cs'" using Cons.prems(1) True by (simp_all add: r l)
    then show ?thesis using Cons.IH [OF l] True f by auto
  next
    case False
    then have "srs = [sr]" "calls = cs"
      "status = (if srOutcome sr = ''allowed'' then ''completed'' else if srOutcome sr = ''denied'' then ''denied'' else ''failed'')"
      using Cons.prems(1) by (auto simp: r split: if_splits)
    then show ?thesis using f False by auto
  qed
qed simp

lemma run_loop_outcomes:
  assumes "run_loop gjson errText w t orgID runID i steps prior s = ((srs, status, calls), s')"
  shows "\<forall>sr\<in>set srs. srOutcome sr \<in> {''allowed'', ''denied'', ''blocked''}"
  using assms
proof (induction steps arbitrary: i prior s srs status calls s')
  case (Cons step steps)
  obtain sr cs s1 where r: "runStep gjson errText (w i) t orgID runID step prior s = ((sr, cs), s1)" by (metis prod.exhaust)
  obtain srs' st cs' s2 where l: "run_loop gjson errText w t orgID runID (Suc i) steps (prior(stWorkflowStepID step \<mapsto> sr)) s1 = ((srs', st, cs'), s2)"
    by (metis prod.exhaust)
  have "srs = [sr] \<or> srs = sr # srs'" using Cons.prems by (simp add: r l split: if_splits)
  then show ?case using runStep_result(3) [OF r] Cons.IH [OF l] by auto
qed simp

text \<open>The results a step of the loop may read: those given at the start, and the allowed ones
  of the loop so far.\<close>

definition prior_of :: "(uuid \<rightharpoonup> StepResult) \<Rightarrow> StepResult list \<Rightarrow> (uuid \<rightharpoonup> StepResult) \<Rightarrow> bool" where
  "prior_of prior srs p = (\<forall>i r. p i = Some r \<longrightarrow> prior i = Some r \<or> r \<in> set srs \<and> srWorkflowStepID r = i \<and> srOutcome r = ''allowed'')"

lemma run_loop_calls:
  assumes "run_loop gjson errText w t orgID runID i steps prior s = ((srs, status, calls), s')" "(ac, effs) \<in> set calls"
  shows "\<exists>k step conn ps p. k < i + length steps \<and> step \<in> set steps \<and> prior_of prior srs p
    \<and> resolveConnectorByID (deHttp (swEnv (w k))) (swConnErr (w k)) (swTools (w k)) orgID (stGatewayToolID step) = Inr conn
    \<and> resolveParams gjson step p = Inr ps \<and> ac = step_context (w k) t runID conn step ps \<and> effs = snd (Dispatch (swEnv (w k)) ac)"
  using assms
proof (induction steps arbitrary: i prior s srs status calls s')
  case (Cons step steps)
  obtain sr cs s1 where r: "runStep gjson errText (w i) t orgID runID step prior s = ((sr, cs), s1)" by (metis prod.exhaust)
  obtain srs' st cs' s2 where l: "run_loop gjson errText w t orgID runID (Suc i) steps (prior(stWorkflowStepID step \<mapsto> sr)) s1 = ((srs', st, cs'), s2)"
    by (metis prod.exhaust)
  consider (here) "(ac, effs) \<in> set cs" | (later) "(ac, effs) \<in> set cs'" "srs = sr # srs'" "srOutcome sr = ''allowed''"
    using Cons.prems by (auto simp: r l split: if_splits)
  then show ?case
  proof cases
    case here
    from runStep_result(4) [OF r here] show ?thesis
      by (intro exI [of _ i] exI [of _ step]) (force simp: prior_of_def)
  next
    case later
    from Cons.IH [OF l later(1)] obtain k step' conn ps p where
      h: "k < Suc i + length steps" "step' \<in> set steps" "prior_of (prior(stWorkflowStepID step \<mapsto> sr)) srs' p"
      "resolveConnectorByID (deHttp (swEnv (w k))) (swConnErr (w k)) (swTools (w k)) orgID (stGatewayToolID step') = Inr conn"
      "resolveParams gjson step' p = Inr ps" "ac = step_context (w k) t runID conn step' ps" "effs = snd (Dispatch (swEnv (w k)) ac)"
      by blast
    have "prior_of prior srs p"
      using h(3) runStep_result(1) [OF r] later by (auto simp: prior_of_def names_step_def split: if_splits)
    with h show ?thesis by (intro exI [of _ k] exI [of _ step'] exI [of _ conn] exI [of _ ps] exI [of _ p]) simp
  qed
qed simp

text \<open>What accounts for the result of a step: either its connector or its parameters could not
  be prepared, nothing was dispatched and the step is blocked; or the one call of the step
  was dispatched and the outcome is the one of the dispatcher's answer.\<close>

definition step_accounted ::
  "(string \<Rightarrow> string \<Rightarrow> json option) \<Rightarrow> step_world \<Rightarrow> ActionContext \<Rightarrow> uuid \<Rightarrow> uuid \<Rightarrow> Step \<Rightarrow> (uuid \<rightharpoonup> StepResult) \<Rightarrow> StepResult \<Rightarrow> call list \<Rightarrow> bool" where
  "step_accounted gjson w t orgID runID step p sr cs =
     (case resolveConnectorByID (deHttp (swEnv w)) (swConnErr w) (swTools w) orgID (stGatewayToolID step) of
        Inl _ \<Rightarrow> cs = [] \<and> srOutcome sr = ''blocked''
      | Inr conn \<Rightarrow> (case resolveParams gjson step p of
          Inl _ \<Rightarrow> cs = [] \<and> srOutcome sr = ''blocked''
        | Inr ps \<Rightarrow> (case Dispatch (swEnv w) (step_context w t runID conn step ps) of
            ((body, err), effs) \<Rightarrow> cs = [(step_context w t runID conn step ps, effs)]
              \<and> (case err of None \<Rightarrow> srOutcome sr = ''allowed'' \<and> srResult sr = body
                  | Some e \<Rightarrow> srOutcome sr = (if as_policy_denied e \<noteq> None then ''denied'' else ''blocked'')))))"

lemma step_done_result [simp]: "srResult (step_done errText w sr body None) = body"
  by (simp add: step_done_def Let_def)

lemma runStep_accounted:
  assumes "runStep gjson errText w t orgID runID step prior s = ((sr, calls), s')"
  shows "step_accounted gjson w t orgID runID step prior sr calls"
  using assms
  by (auto simp: runStep_def Let_def step_accounted_def block_step_def split: sum.splits prod.splits option.splits)

lemma prior_of_cons:
  assumes "prior_of (prior(stWorkflowStepID step \<mapsto> sr)) srs p" "names_step step sr" "srOutcome sr = ''allowed''"
  shows "prior_of prior (sr # srs) p"
  using assms by (auto simp: prior_of_def names_step_def split: if_splits)

lemma run_loop_accounted:
  assumes "run_loop gjson errText w t orgID runID i steps prior s = ((srs, status, calls), s')"
  shows "\<exists>css. length css = length srs \<and> calls = concat css
    \<and> (\<forall>k<length srs. \<exists>p. prior_of prior srs p \<and> step_accounted gjson (w (i + k)) t orgID runID (steps ! k) p (srs ! k) (css ! k))"
  using assms
proof (induction steps arbitrary: i prior s srs status calls s')
  case (Cons step steps)
  obtain sr cs s1 where r: "runStep gjson errText (w i) t orgID runID step prior s = ((sr, cs), s1)" by (metis prod.exhaust)
  have here: "step_accounted gjson (w i) t orgID runID step prior sr cs" using runStep_accounted [OF r] .
  have self: "prior_of prior xs prior" for xs by (simp add: prior_of_def)
  show ?case
  proof (cases "srOutcome sr = ''allowed''")
    case False
    then have "srs = [sr]" "calls = cs" using Cons.prems by (simp_all add: r)
    then show ?thesis using here self by (intro exI [of _ "[cs]"]) auto
  next
    case True
    obtain srs' st cs' s2 where l: "run_loop gjson errText w t orgID runID (Suc i) steps (prior(stWorkflowStepID step \<mapsto> sr)) s1 = ((srs', st, cs'), s2)"
      by (metis prod.exhaust)
    have o: "srs = sr # srs'" "calls = cs @ cs'" using Cons.prems True by (simp_all add: r l)
    obtain css where css: "length css = length srs'" "cs' = concat css"
      "\<forall>k<length srs'. \<exists>p. prior_of (prior(stWorkflowStepID step \<mapsto> sr)) srs' p
         \<and> step_accounted gjson (w (Suc i + k)) t orgID runID (steps ! k) p (srs' ! k) (css ! k)"
      using Cons.IH [OF l] by blast
    have "\<exists>p. prior_of prior srs p \<and> step_accounted gjson (w (i + k)) t orgID runID ((step # steps) ! k) p (srs ! k) ((cs # css) ! k)"
      if "k < length srs" for k
    proof (cases k)
      case 0
      then show ?thesis using here self by (auto simp: o)
    next
      case (Suc j)
      then show ?thesis using css(3) that prior_of_cons [OF _ runStep_result(1) [OF r] True] by (fastforce simp: o)
    qed
    then show ?thesis using css by (intro exI [of _ "cs # css"]) (simp add: o)
  qed
qed simp

section \<open>The rows\<close>

text \<open>The row that describes a finished step.\<close>

definition result_row :: "uuid \<Rightarrow> uuid \<Rightarrow> StepResult \<Rightarrow> run_step_row" where
  "result_row rowID runID sr = \<lparr>rtID = rowID, rtRunID = runID, rtStepOrder = srStepOrder sr, rtWorkflowStepID = srWorkflowStepID sr,
     rtToolID = (if srResolvedToolID sr = nil_uuid then None else Some (srResolvedToolID sr)),
     rtConfigHash = non_empty (srResolvedConfigHash sr), rtProjected = non_empty (srProjectedDecision sr),
     rtStartedAt = srStartedAt sr, rtOutcome = Some (srOutcome sr), rtResult = non_empty (srResult sr),
     rtErrorDetail = non_empty (srErrorDetail sr), rtFinishedAt = Some (srFinishedAt sr)\<rparr>"

lemma write_rows:
  assumes "rowID \<notin> rtID ` set (workflow_run_steps s)"
    and "srStepOrder sr' = srStepOrder sr" "srWorkflowStepID sr' = srWorkflowStepID sr" "srResolvedToolID sr' = srResolvedToolID sr"
      "srResolvedConfigHash sr' = srResolvedConfigHash sr" "srProjectedDecision sr' = srProjectedDecision sr" "srStartedAt sr' = srStartedAt sr"
  shows "updateRunStep False rowID sr' (insertRunStep False rowID runID sr s) =
    s\<lparr>workflow_run_steps := workflow_run_steps s @ [result_row rowID runID sr']\<rparr>"
proof -
  have "map (\<lambda>r. if rtID r = rowID then f r else r) (workflow_run_steps s) = workflow_run_steps s" for f
    by (rule map_idI) (use assms(1) in auto)
  then show ?thesis using assms(2-) by (simp add: updateRunStep_def insertRunStep_def result_row_def)
qed

lemma step_done_frame:
  "srStepOrder (step_done errText w sr body err) = srStepOrder sr"
  "srWorkflowStepID (step_done errText w sr body err) = srWorkflowStepID sr"
  "srResolvedToolID (step_done errText w sr body err) = srResolvedToolID sr"
  "srResolvedConfigHash (step_done errText w sr body err) = srResolvedConfigHash sr"
  "srProjectedDecision (step_done errText w sr body err) = srProjectedDecision sr"
  "srStartedAt (step_done errText w sr body err) = srStartedAt sr"
  by (simp_all add: step_done_def Let_def split: option.split)

lemma runStep_rows:
  assumes "runStep gjson errText w t orgID runID step prior s = ((sr, calls), s')"
    and "\<not> swInsertErr w" "\<not> swUpdateErr w" "swRowID w \<notin> rtID ` set (workflow_run_steps s)"
  shows "s' = s\<lparr>workflow_run_steps := workflow_run_steps s @ [result_row (swRowID w) runID sr]\<rparr>"
proof (cases rule: runStep_cases [of gjson errText w t orgID runID step prior s])
  case (stopped sr0 err)
  then show ?thesis using assms by (auto simp: block_step_def Let_def write_rows)
next
  case (ran conn ps sr0 body err effs)
  then show ?thesis using assms by (auto simp: write_rows step_done_frame)
qed

definition faultless :: "(nat \<Rightarrow> step_world) \<Rightarrow> bool" where
  "faultless w = (\<forall>k. \<not> swInsertErr (w k) \<and> \<not> swUpdateErr (w k))"

lemma run_loop_rows:
  assumes "run_loop gjson errText w t orgID runID i steps prior s = ((srs, status, calls), s')"
    and "faultless w" "inj (\<lambda>k. swRowID (w k))" "\<forall>k\<ge>i. swRowID (w k) \<notin> rtID ` set (workflow_run_steps s)"
  shows "s' = s\<lparr>workflow_run_steps := workflow_run_steps s @ map (\<lambda>(k, sr). result_row (swRowID (w k)) runID sr) (enumerate i srs)\<rparr>"
  using assms
proof (induction steps arbitrary: i prior s srs status calls s')
  case (Cons step steps)
  obtain sr cs s1 where r: "runStep gjson errText (w i) t orgID runID step prior s = ((sr, cs), s1)" by (metis prod.exhaust)
  have ok: "\<not> swInsertErr (w i)" "\<not> swUpdateErr (w i)" using Cons.prems(2) by (simp_all add: faultless_def)
  have s1: "s1 = s\<lparr>workflow_run_steps := workflow_run_steps s @ [result_row (swRowID (w i)) runID sr]\<rparr>"
    using runStep_rows [OF r ok] Cons.prems(4) by blast
  show ?case
  proof (cases "srOutcome sr = ''allowed''")
    case True
    obtain srs' st cs' s2 where l: "run_loop gjson errText w t orgID runID (Suc i) steps (prior(stWorkflowStepID step \<mapsto> sr)) s1 = ((srs', st, cs'), s2)"
      by (metis prod.exhaust)
    have "swRowID (w k) \<notin> rtID ` set (workflow_run_steps s1)" if "Suc i \<le> k" for k
    proof -
      have "swRowID (w k) \<noteq> swRowID (w i)" using that injD [OF Cons.prems(3), of k i] by auto
      then show ?thesis using that Cons.prems(4) by (auto simp: s1 result_row_def)
    qed
    then have "s2 = s1\<lparr>workflow_run_steps := workflow_run_steps s1 @ map (\<lambda>(k, sr). result_row (swRowID (w k)) runID sr) (enumerate (Suc i) srs')\<rparr>"
      using Cons.IH [OF l Cons.prems(2,3)] by blast
    moreover have "srs = sr # srs'" "s' = s2" using Cons.prems(1) True by (simp_all add: r l)
    ultimately show ?thesis by (simp add: s1)
  next
    case False
    then have "srs = [sr]" "s' = s1" using Cons.prems(1) by (simp_all add: r)
    then show ?thesis by (simp add: s1)
  qed
qed simp

lemma Run_success:
  assumes "Run env t workflowID s = ((Inr res, calls), s')"
  obtains orgID agentID def s1 where "ruParseUUID env (acOrgID t) = Inr orgID" "ruParseUUID env (acAgentUUID t) = Inr agentID"
    "Resolve (ruResolve env) (ruTables env) orgID workflowID = Inr def" "rnRunID res = ruRunID env"
    "run_loop (ruGJSON env) (ruErrText env) (ruWorld env) (with_session (ruRunID env) t) orgID (ruRunID env) 0 (dfSteps def) Map.empty
       (create_run (ruRunID env) orgID agentID def s)
       = ((rnSteps res, rnStatus res, calls), s1)"
    "s' = (if ruFinishErr env then s1 else finish_run (ruRunID env) (rnStatus res) (ruFinishedAt env) s1)"
  using assms by (auto simp: Run_def Let_def split: sum.splits option.splits prod.splits)

lemma Run_failure: "Run env t workflowID s = ((Inl err, calls), s') \<Longrightarrow> calls = [] \<and> s' = s"
  by (auto simp: Run_def Let_def split: sum.splits option.splits prod.splits)

lemma Resolve_steps: "Resolve renv db orgID workflowID = Inr def \<Longrightarrow> dfSteps def \<noteq> []"
  by (auto simp: Resolve_def split: option.splits sum.splits if_splits)

text \<open>A draft or disabled workflow runs like an active one.\<close>

lemma run_ignores_status:
  "Resolve renv (db\<lparr>wtWorkflows := map (\<lambda>w. w\<lparr>wfStatus := st\<rparr>) (wtWorkflows db)\<rparr>) orgID workflowID = Resolve renv db orgID workflowID"
proof -
  have f: "List.find (\<lambda>w. wfID w = workflowID \<and> wfOrgID w = orgID) (map (\<lambda>w. w\<lparr>wfStatus := st\<rparr>) ws)
      = map_option (\<lambda>w. w\<lparr>wfStatus := st\<rparr>) (List.find (\<lambda>w. wfID w = workflowID \<and> wfOrgID w = orgID) ws)" for ws
    by (induction ws) auto
  have raw: "step_params_raw (db\<lparr>wtWorkflows := x\<rparr>) i = step_params_raw db i" for x i
    by (simp add: step_params_raw_def)
  have one: "scan_step renv (db\<lparr>wtWorkflows := x\<rparr>) = scan_step renv db" for x
    by (rule ext) (simp only: scan_step_def raw)
  have s: "scan_steps renv (db\<lparr>wtWorkflows := x\<rparr>) rs = scan_steps renv db rs" for rs x
    by (induction rs) (simp_all only: scan_steps.simps one)
  show ?thesis by (simp add: Resolve_def f s option.case_distrib split: option.split sum.split)
qed

section \<open>Properties\<close>

subsection \<open>A sample run\<close>

text \<open>One step that calls the connector \<^verbatim>\<open>crm\<close>, in a world where policy answers \<open>a\<close>.\<close>

definition sample_world :: "string \<Rightarrow> nat \<Rightarrow> step_world" where
  "sample_world a k = \<lparr>swTools = [sample_tool ''rest_api''], swConnErr = None, swPreview = (\<lambda>_. (sample_decision a, None)),
     swEnv = sample_dispatch_env a, swRowID = replicate k CHR ''r'', swInsertErr = False, swUpdateErr = False,
     swStarted = 1, swReceived = 2, swFinished = 3\<rparr>"

definition sample_run_env :: "string \<Rightarrow> run_env" where
  "sample_run_env a = \<lparr>ruResolve = \<lparr>wvWorkflowErr = None, wvStepsErr = None, wvRowsErr = None, wvParams = (\<lambda>_. Inr (Some [])), wvMapping = (\<lambda>_. Inr [])\<rparr>,
     ruTables = \<lparr>wtWorkflows = [\<lparr>wfID = ''w1'', wfOrgID = ''o1'', wfName = ''sync'', wfStatus = ''active''\<rparr>],
       wtSteps = [\<lparr>wsID = ''s1'', wsWorkflowID = ''w1'', wsStepOrder = 0, wsGatewayToolID = Some ''t1'', wsAction = ''get'', wsInputMapping = []\<rparr>],
       wtParams = []\<rparr>,
     ruParseUUID = Inr, ruGJSON = (\<lambda>_ _. None), ruErrText = (\<lambda>_. ''error''), ruRunID = ''run1'', ruCreateErr = None, ruFinishErr = False, ruFinishedAt = 9,
     ruWorld = sample_world a\<rparr>"

abbreviation empty_store :: run_store where
  "empty_store \<equiv> \<lparr>workflow_runs = [], workflow_run_steps = []\<rparr>"

definition sample_step :: Step where
  "sample_step = \<lparr>stWorkflowStepID = ''s1'', stStepOrder = 0, stGatewayToolID = ''t1'', stAction = ''get'', stParams = Some [], stInputMapping = []\<rparr>"

lemma sample_resolves:
  "Resolve (ruResolve (sample_run_env a)) (ruTables (sample_run_env a)) ''o1'' ''w1''
     = Inr \<lparr>dfWorkflowID = ''w1'', dfOrgID = ''o1'', dfName = ''sync'', dfSteps = [sample_step]\<rparr>"
  by (simp add: Resolve_def sample_run_env_def scan_step_def step_params_raw_def sample_step_def)

lemma sample_run_env_simps [simp]:
  "ruParseUUID (sample_run_env a) = Inr" "ruRunID (sample_run_env a) = ''run1''" "ruCreateErr (sample_run_env a) = None"
  "ruFinishErr (sample_run_env a) = False" "ruWorld (sample_run_env a) = sample_world a"
  by (simp_all add: sample_run_env_def)

lemma sample_call_org [simp]: "acOrgID sample_call = ''o1''"
  by (simp add: sample_call_def)

lemma sample_step_calls:
  "\<exists>sr ac effs s'. runStep g e (sample_world a k) t ''o1'' runID sample_step prior s = ((sr, [(ac, effs)]), s')"
proof (cases rule: runStep_cases [of g e "sample_world a k" t "''o1''" runID sample_step prior s])
  case (stopped sr err)
  then show ?thesis
    by (auto simp: runStep_def sample_world_def resolveConnectorByID_def sample_tool_def sample_step_def resolveParams_def
        block_step_def Let_def split: prod.splits)
qed auto

lemma sample_run_succeeds:
  assumes "acOrgID t = ''o1''"
  shows "\<exists>res calls s'. Run (sample_run_env a) t ''w1'' s = ((Inr res, calls), s') \<and> calls \<noteq> []"
proof -
  let ?s = "create_run ''run1'' ''o1'' (acAgentUUID t) \<lparr>dfWorkflowID = ''w1'', dfOrgID = ''o1'', dfName = ''sync'', dfSteps = [sample_step]\<rparr> s"
  obtain sr ac effs s1 where "runStep (ruGJSON (sample_run_env a)) (ruErrText (sample_run_env a)) (sample_world a 0) (with_session ''run1'' t) ''o1'' ''run1''
      sample_step Map.empty ?s = ((sr, [(ac, effs)]), s1)" using sample_step_calls by blast
  then show ?thesis using assms by (auto simp: Run_def sample_resolves Let_def)
qed

text \<open>C19: a workflow stops at its first step that is not allowed. A run that is attempted
  reports results for a non-empty initial part of the steps of the definition, in order, all
  but the last of them allowed. Its status is \<^verbatim>\<open>completed\<close> when every step ran and was
  allowed, \<^verbatim>\<open>denied\<close> when policy denied the last one reported and \<^verbatim>\<open>failed\<close> when that one was
  blocked. Each result is the one of its step: allowed with the answer of the dispatcher when
  the step's one call was dispatched without an error, denied when the dispatcher answered a
  denial by policy, blocked when it answered another error, or when connector or parameters
  could not be prepared and nothing was dispatched. No other call is dispatched. The
  parameters use allowed results of this run only.\<close>

theorem workflow_stops_at_first_failure:
  assumes "Run env t workflowID s = ((Inr res, calls), s')"
  shows "\<exists>orgID def css. ruParseUUID env (acOrgID t) = Inr orgID \<and> Resolve (ruResolve env) (ruTables env) orgID workflowID = Inr def
     \<and> rnSteps res \<noteq> [] \<and> length (rnSteps res) \<le> length (dfSteps def) \<and> length calls \<le> length (rnSteps res)
     \<and> list_all2 names_step (take (length (rnSteps res)) (dfSteps def)) (rnSteps res)
     \<and> (\<forall>r\<in>set (butlast (rnSteps res)). srOutcome r = ''allowed'')
     \<and> (rnStatus res = ''completed'' \<longleftrightarrow> length (rnSteps res) = length (dfSteps def) \<and> srOutcome (last (rnSteps res)) = ''allowed'')
     \<and> (rnStatus res = ''denied'' \<longleftrightarrow> srOutcome (last (rnSteps res)) = ''denied'')
     \<and> (rnStatus res = ''failed'' \<longleftrightarrow> srOutcome (last (rnSteps res)) = ''blocked'')
     \<and> rnStatus res \<in> {''completed'', ''denied'', ''failed''}
     \<and> length css = length (rnSteps res) \<and> calls = concat css
     \<and> (\<forall>k<length (rnSteps res). \<exists>p. prior_of Map.empty (rnSteps res) p
          \<and> step_accounted (ruGJSON env) (ruWorld env k) (with_session (ruRunID env) t) orgID (ruRunID env) (dfSteps def ! k) p (rnSteps res ! k) (css ! k))"
proof -
  from assms obtain orgID agentID def s1 where r: "ruParseUUID env (acOrgID t) = Inr orgID"
    "Resolve (ruResolve env) (ruTables env) orgID workflowID = Inr def"
    and l: "run_loop (ruGJSON env) (ruErrText env) (ruWorld env) (with_session (ruRunID env) t) orgID (ruRunID env) 0 (dfSteps def) Map.empty
       (create_run (ruRunID env) orgID agentID def s)
       = ((rnSteps res, rnStatus res, calls), s1)" by (elim Run_success) (rule that)
  obtain css where css: "length css = length (rnSteps res)" "calls = concat css"
    "\<forall>k<length (rnSteps res). \<exists>p. prior_of Map.empty (rnSteps res) p
       \<and> step_accounted (ruGJSON env) (ruWorld env k) (with_session (ruRunID env) t) orgID (ruRunID env) (dfSteps def ! k) p (rnSteps res ! k) (css ! k)"
    using run_loop_accounted [OF l] by auto
  note res = run_loop_result [OF l Resolve_steps [OF r(2)]]
  have o: "srOutcome (last (rnSteps res)) \<in> {''allowed'', ''denied'', ''blocked''}"
    using run_loop_outcomes [OF l] res by (meson last_in_set)
  show ?thesis
    by (rule exI [of _ orgID], rule exI [of _ def], rule exI [of _ css]) (use res r o css in \<open>auto split: if_splits\<close>)
qed

theorem workflow_stops_at_first_failure_witness:
  "\<exists>res calls s'. Run (sample_run_env ''allow'') sample_call ''w1'' empty_store = ((Inr res, calls), s')
     \<and> length (rnSteps res) = 1 \<and> (rnStatus res = ''completed'' \<longleftrightarrow> srOutcome (last (rnSteps res)) = ''allowed'')"
proof -
  obtain res calls s' where r: "Run (sample_run_env ''allow'') sample_call ''w1'' empty_store = ((Inr res, calls), s')"
    using sample_run_succeeds [OF sample_call_org] by blast
  have p: "ruParseUUID (sample_run_env ''allow'') (acOrgID sample_call) = Inr ''o1''"
    by simp
  from workflow_stops_at_first_failure [OF r] have "rnSteps res \<noteq> []" "length (rnSteps res) \<le> 1"
    "rnStatus res = ''completed'' \<longleftrightarrow> length (rnSteps res) = 1 \<and> srOutcome (last (rnSteps res)) = ''allowed''"
    by (auto simp: p sample_resolves)
  moreover from this have "length (rnSteps res) = 1" by (cases "rnSteps res") auto
  ultimately show ?thesis using r by blast
qed

text \<open>a workflow acts only for the agent of the token that started it. Every call that a
  run request dispatches carries the agent, organisation, token and key of a valid token
  that is bound to a registered agent of its organisation that is not suspended, and
  targets the name of a connector of that organisation; its parameters are the static ones
  of a step of the workflow, completed from allowed results of the same run, and it goes
  through the dispatcher like any other call.\<close>

theorem workflow_calls_act_for_token_agent:
  assumes "HandleRun au env r s = ((resp, calls), s')" "(ac, effs) \<in> set calls"
  shows "\<exists>claims rec (w :: step_world) g orgID step p. Validate (auParse au) (auManager au) (auNow au) (drop 7 (rqAuthorization r)) = Inr claims
     \<and> rec \<in> set (gateway_agents (auRegistry au)) \<and> agOrgID rec = tcOrgID claims \<and> tcAgentUUID claims = agID rec
     \<and> agStatus rec \<notin> {''suspended'', ''revoked''}
     \<and> acAgentUUID ac = agID rec \<and> acOrgID ac = agOrgID rec \<and> acTokenID ac = tcID claims \<and> acAPIKeyID ac = tcAPIKeyID claims
     \<and> ruParseUUID env (agOrgID rec) = Inr orgID \<and> g \<in> set (swTools w) \<and> gtOrgID g = orgID \<and> gtName g = acTool ac
     \<and> resolveParams (ruGJSON env) step p = Inr (acParameters ac) \<and> (\<forall>i q. p i = Some q \<longrightarrow> srWorkflowStepID q = i \<and> srOutcome q = ''allowed'')
     \<and> effs = snd (Dispatch (swEnv w) ac)"
proof -
  obtain claims where c: "Validate (auParse au) (auManager au) (auNow au) (drop 7 (rqAuthorization r)) = Inr claims"
    using assms by (auto simp: HandleRun_def split: if_splits sum.splits)
  obtain rec where rec: "LookupByNameAndOrg (auRegistryErr au) (auPick au) (auRegistry au) (trim_prefix (tcSubject claims) ''agent:'') (tcOrgID claims) = (Some rec, None)"
    and b: "BoundTo (Some claims) (agID rec)"
    using assms c by (auto simp: HandleRun_def split: if_splits sum.splits prod.splits option.splits)
  let ?t = "run_template (auNow au) claims rec (rqEnvironment r)"
  obtain workflowID run s1 where run: "Run env ?t workflowID s = ((run, calls), s1)"
    using assms c rec b by (auto simp: HandleRun_def split: if_splits sum.splits prod.splits)
  obtain res where res: "run = Inr res" using run assms(2) Run_failure by (cases run) fastforce+
  obtain orgID agentID def s2 where o: "ruParseUUID env (acOrgID ?t) = Inr orgID"
    and l: "run_loop (ruGJSON env) (ruErrText env) (ruWorld env) (with_session (ruRunID env) ?t) orgID (ruRunID env) 0 (dfSteps def) Map.empty
       (create_run (ruRunID env) orgID agentID def s)
       = ((rnSteps res, rnStatus res, calls), s2)"
    using run unfolding res by (elim Run_success) (rule that)
  from run_loop_calls [OF l assms(2)] obtain k step conn ps p where
    h: "prior_of Map.empty (rnSteps res) p"
    "resolveConnectorByID (deHttp (swEnv (ruWorld env k))) (swConnErr (ruWorld env k)) (swTools (ruWorld env k)) orgID (stGatewayToolID step) = Inr conn"
    "resolveParams (ruGJSON env) step p = Inr ps" "ac = step_context (ruWorld env k) (with_session (ruRunID env) ?t) (ruRunID env) conn step ps"
    "effs = snd (Dispatch (swEnv (ruWorld env k)) ac)" by blast
  from h(2) obtain g where g: "g \<in> set (swTools (ruWorld env k))" "gtOrgID g = orgID" "cnName conn = gtName g"
    by (auto simp: resolveConnectorByID_def split: option.splits dest!: find_Some_set)
  have ac: "acAgentUUID ac = agID rec" "acOrgID ac = agOrgID rec" "acTokenID ac = tcID claims" "acAPIKeyID ac = tcAPIKeyID claims"
    "acTool ac = gtName g" "acParameters ac = ps"
    by (simp_all add: h(4) step_context_def with_session_def run_template_def g(3))
  have reg: "rec \<in> set (gateway_agents (auRegistry au))" "agOrgID rec = tcOrgID claims" "agStatus rec \<notin> {''suspended'', ''revoked''}"
    using LookupByNameAndOrg_ok [OF rec] by auto
  have p: "\<forall>i q. p i = Some q \<longrightarrow> srWorkflowStepID q = i \<and> srOutcome q = ''allowed''" using h(1) by (auto simp: prior_of_def)
  have "tcAgentUUID claims = agID rec" "ruParseUUID env (agOrgID rec) = Inr orgID" using b o by (simp_all add: BoundTo_def run_template_def)
  then show ?thesis
    using c reg ac g(1,2) h(3,5) p
    by (intro exI [of _ claims] exI [of _ rec] exI [of _ "ruWorld env k"] exI [of _ g] exI [of _ orgID] exI [of _ step] exI [of _ p] conjI)
      (assumption | simp)+
qed

text \<open>the tables tell what the run did. When no statement about the run fails and row ids
  are fresh, a run appends exactly one row per reported step, each carrying the reported
  outcome, result and error, and one run row with the reported status.\<close>

theorem workflow_rows_match_result:
  assumes "Run env t workflowID s = ((Inr res, calls), s')"
    and "faultless (ruWorld env)" "\<not> ruFinishErr env" "inj (\<lambda>k. swRowID (ruWorld env k))"
    and "\<forall>k. swRowID (ruWorld env k) \<notin> rtID ` set (workflow_run_steps s)" "ruRunID env \<notin> wrID ` set (workflow_runs s)"
  shows "workflow_run_steps s' = workflow_run_steps s
       @ map (\<lambda>(k, sr). result_row (swRowID (ruWorld env k)) (rnRunID res) sr) (enumerate 0 (rnSteps res))
     \<and> (\<exists>row. workflow_runs s' = workflow_runs s @ [row] \<and> wrID row = rnRunID res \<and> wrStatus row = rnStatus res \<and> wrFinishedAt row = Some (ruFinishedAt env))"
proof -
  from assms(1) obtain orgID agentID def s1 where id: "rnRunID res = ruRunID env"
    and l: "run_loop (ruGJSON env) (ruErrText env) (ruWorld env) (with_session (ruRunID env) t) orgID (ruRunID env) 0 (dfSteps def) Map.empty
       (create_run (ruRunID env) orgID agentID def s)
       = ((rnSteps res, rnStatus res, calls), s1)"
    and s': "s' = (if ruFinishErr env then s1 else finish_run (ruRunID env) (rnStatus res) (ruFinishedAt env) s1)"
    by (elim Run_success) (rule that)
  have "map (\<lambda>r. if wrID r = ruRunID env then f r else r) (workflow_runs s) = workflow_runs s" for f
    by (rule map_idI) (use assms(6) in force)
  then show ?thesis
    using run_loop_rows [OF l assms(2,4)] assms(3,5) by (simp add: s' id create_run_def finish_run_def)
qed

theorem workflow_rows_match_result_witness:
  "\<exists>res calls s'. Run (sample_run_env ''allow'') sample_call ''w1'' empty_store = ((Inr res, calls), s')
     \<and> length (workflow_run_steps s') = length (rnSteps res) \<and> map wrStatus (workflow_runs s') = [rnStatus res]"
proof -
  obtain res calls s' where r: "Run (sample_run_env ''allow'') sample_call ''w1'' empty_store = ((Inr res, calls), s')"
    using sample_run_succeeds [OF sample_call_org] by blast
  have "faultless (ruWorld (sample_run_env ''allow''))" "\<not> ruFinishErr (sample_run_env ''allow'')"
    "inj (\<lambda>k. swRowID (ruWorld (sample_run_env ''allow'') k))"
    by (simp_all add: faultless_def sample_world_def inj_def)
  from workflow_rows_match_result [OF r this] show ?thesis using r by auto
qed

definition sample_auth :: auth_env where
  "sample_auth = \<lparr>auParse = (\<lambda>_ _ _. Inr \<lparr>tcSubject = ''agent:bot'', tcIssuer = ''i'', tcAudience = [], tcIssuedAt = 0, tcExpiresAt = 9,
     tcID = ''j1'', tcOrgID = ''o1'', tcAgentUUID = ''a1'', tcAPIKeyID = ''k1'', tcScope = [], tcTask = [], tcModel = [], tcOwner = [], tcRiskTier = []\<rparr>),
     auManager = \<lparr>mgIssuer = ''i'', mgDefaultTTL = 0, mgRevoked = {}\<rparr>, auNow = 5, auRegistryErr = None, auPick = 0,
     auRegistry = \<lparr>gateway_agents = [\<lparr>agID = ''a1'', agOrgID = ''o1'', agName = ''bot'', agScope = [], agRiskTier = [], agStatus = ''active'', agWorkspaceID = []\<rparr>],
       revoked_ai_tokens = [], api_keys_revoked = []\<rparr>\<rparr>"

theorem workflow_calls_act_for_token_agent_witness:
  "\<exists>resp calls s' ac effs. HandleRun sample_auth (sample_run_env ''allow'') \<lparr>rqAuthorization = ''Bearer x'', rqWorkflowID = ''w1'', rqEnvironment = []\<rparr> empty_store
       = ((resp, calls), s') \<and> (ac, effs) \<in> set calls \<and> acAgentUUID ac = ''a1'' \<and> acOrgID ac = ''o1''"
proof -
  let ?r = "\<lparr>rqAuthorization = ''Bearer x'', rqWorkflowID = ''w1'', rqEnvironment = []\<rparr>"
  obtain resp calls s' where h: "HandleRun sample_auth (sample_run_env ''allow'') ?r empty_store = ((resp, calls), s')" by (metis prod.exhaust)
  let ?c = "\<lparr>tcSubject = ''agent:bot'', tcIssuer = ''i'', tcAudience = [], tcIssuedAt = 0, tcExpiresAt = 9,
     tcID = ''j1'', tcOrgID = ''o1'', tcAgentUUID = ''a1'', tcAPIKeyID = ''k1'', tcScope = [], tcTask = [], tcModel = [], tcOwner = [], tcRiskTier = []\<rparr>"
  let ?rec = "\<lparr>agID = ''a1'', agOrgID = ''o1'', agName = ''bot'', agScope = [], agRiskTier = [], agStatus = ''active'', agWorkspaceID = []\<rparr>"
  have "acOrgID (run_template 5 ?c ?rec []) = ''o1''" by (simp add: run_template_def)
  from sample_run_succeeds [OF this] obtain res calls' s1 where
    run: "Run (sample_run_env ''allow'') (run_template 5 ?c ?rec []) ''w1'' empty_store = ((Inr res, calls'), s1)" "calls' \<noteq> []"
    by blast
  have "calls = calls'"
    using h run(1) by (simp add: HandleRun_def sample_auth_def Validate_def LookupByNameAndOrg_def limit_one_def trim_prefix_def checkStatus_def BoundTo_def)
  with run(2) have "calls \<noteq> []" by simp
  then obtain ac effs where c: "(ac, effs) \<in> set calls" by (cases calls) auto
  from workflow_calls_act_for_token_agent [OF h c] show ?thesis using h c by (auto simp: sample_auth_def)
qed

end
