(* ===== verification/Mcp_Sessions.thy ===== *)
theory Mcp_Sessions
  imports Dispatcher Identity_Tokens
begin

text \<open>
  The MCP endpoint (\<^verbatim>\<open>eami-gateway/internal/mcp\<close>): sessions, the handlers that open one and
  that accept messages on it, and the listener that ends sessions of suspended agents and
  revoked tokens. A session object stays reachable for its stream after it has left the
  manager's table, so the manager has both: the objects and the ids in the table. Session
  ids are 128 random bits and stand for the objects. A send on a full, open session
  blocks: the operation that sends then has the result None, and nothing after the send
  has happened. A goroutine that a handler starts is a \<open>task\<close>, run by its own definition.
\<close>

section \<open>Sessions (session.go)\<close>

datatype rpc_payload =
    RpcResult string
  | RpcTools "ToolDefinition list"
  | RpcError int string "(string \<times> string) option" \<comment> \<open>code, message, and reason and policy id of a denial\<close>

record jsonRPCResponse =
  rpID :: json
  rpBody :: rpc_payload

record Session =
  seClaims :: "token_claims option"
  seAgent :: "AgentRecord option"
  seEvents :: "jsonRPCResponse list"
  seDeadline :: time
  seCancelled :: bool

record SessionManager =
  smObjects :: "string \<rightharpoonup> Session"
  smTable :: "string list"

definition session_done :: "time \<Rightarrow> Session \<Rightarrow> bool" where
  "session_done now s = (seCancelled s \<or> seDeadline s \<le> now)"

text \<open>\<open>pick\<close> resolves the select when both of its cases are ready.\<close>

definition Send :: "bool \<Rightarrow> time \<Rightarrow> string \<Rightarrow> jsonRPCResponse \<Rightarrow> Session \<Rightarrow> (go_error option \<times> Session) option" where
  "Send pick now sid e s =
     (if length (seEvents s) < 32 \<and> (pick \<or> \<not> session_done now s) then Some (None, s\<lparr>seEvents := seEvents s @ [e]\<rparr>)
      else if session_done now s then Some (Some (ErrText (''session '' @ sid @ '' closed'')), s)
      else None)"

definition NewSessionManager :: SessionManager where
  "NewSessionManager = \<lparr>smObjects = Map.empty, smTable = []\<rparr>"

definition newSessionID :: "string result \<Rightarrow> string result" where
  "newSessionID rand = (case rand of Inl err \<Rightarrow> Inl err | Inr b \<Rightarrow> Inr (hex_encode b))"

definition Create ::
  "string result \<Rightarrow> time \<Rightarrow> token_claims \<Rightarrow> AgentRecord \<Rightarrow> time \<Rightarrow> SessionManager \<Rightarrow> string result \<times> SessionManager" where
  "Create rand now claims agent tokenExpiry m =
     (case newSessionID rand of
        Inl err \<Rightarrow> (Inl (Wrapped ''session: generate id'' err), m)
      | Inr sid \<Rightarrow>
        if tokenExpiry - now \<le> 0 then (Inl (ErrText ''session: token already expired''), m)
        else (Inr sid, \<lparr>smObjects = (smObjects m)(sid \<mapsto> \<lparr>seClaims = Some claims, seAgent = Some agent, seEvents = [],
                          seDeadline = now + (tokenExpiry - now), seCancelled = False\<rparr>),
                        smTable = (if sid \<in> set (smTable m) then smTable m else smTable m @ [sid])\<rparr>))"

definition Get :: "string \<Rightarrow> SessionManager \<Rightarrow> Session option" where
  "Get sid m = (if sid \<in> set (smTable m) then smObjects m sid else None)"

definition sess_remove :: "string \<Rightarrow> SessionManager \<Rightarrow> SessionManager" where
  "sess_remove sid m = m\<lparr>smTable := removeAll sid (smTable m)\<rparr>"

definition cancel :: "Session option \<Rightarrow> Session option" where
  "cancel so = map_option (\<lambda>s. s\<lparr>seCancelled := True\<rparr>) so"

definition Close :: "string \<Rightarrow> SessionManager \<Rightarrow> SessionManager" where
  "Close sid m =
     (if sid \<in> set (smTable m)
      then m\<lparr>smTable := removeAll sid (smTable m), smObjects := (smObjects m)(sid := cancel (smObjects m sid))\<rparr>
      else m)"

text \<open>The ids in the table whose session matches, then a close of each.\<close>

definition matching :: "(Session \<Rightarrow> bool) \<Rightarrow> SessionManager \<Rightarrow> string list" where
  "matching match m = filter (\<lambda>sid. case smObjects m sid of None \<Rightarrow> False | Some s \<Rightarrow> match s) (smTable m)"

definition CloseWhere :: "(Session \<Rightarrow> bool) \<Rightarrow> SessionManager \<Rightarrow> nat \<times> SessionManager" where
  "CloseWhere match m = (length (matching match m), fold Close (matching match m) m)"

definition Snapshot :: "SessionManager \<Rightarrow> (string \<times> Session) list" where
  "Snapshot m = List.map_filter (\<lambda>sid. map_option (Pair sid) (smObjects m sid)) (smTable m)"

definition session_count :: "SessionManager \<Rightarrow> nat" where
  "session_count m = length (smTable m)"

section \<open>Answers (handler.go)\<close>

definition MsgSessionEnded :: string where
  "MsgSessionEnded = ''unauthorized: session ended''"

definition post :: "bool \<Rightarrow> time \<Rightarrow> string \<Rightarrow> jsonRPCResponse \<Rightarrow> SessionManager \<Rightarrow> SessionManager option" where
  "post pick now sid e m =
     (case smObjects m sid of
        None \<Rightarrow> Some m
      | Some s \<Rightarrow> (case Send pick now sid e s of None \<Rightarrow> None | Some (_, s') \<Rightarrow> Some (m\<lparr>smObjects := (smObjects m)(sid \<mapsto> s')\<rparr>)))"

definition sessRPCError :: "bool \<Rightarrow> time \<Rightarrow> string \<Rightarrow> json \<Rightarrow> int \<Rightarrow> string \<Rightarrow> SessionManager \<Rightarrow> SessionManager option" where
  "sessRPCError pick now sid i code msg m = post pick now sid \<lparr>rpID = i, rpBody = RpcError code msg None\<rparr> m"

definition sessPolicyDenied :: "bool \<Rightarrow> time \<Rightarrow> string \<Rightarrow> json \<Rightarrow> string \<times> string \<Rightarrow> SessionManager \<Rightarrow> SessionManager option" where
  "sessPolicyDenied pick now sid i e m =
     post pick now sid \<lparr>rpID = i, rpBody = RpcError (-32600) ''Request denied by policy'' (Some e)\<rparr> m"

section \<open>Calls\<close>

definition splitToolAction :: "string \<Rightarrow> string \<times> string \<times> string" where
  "splitToolAction name =
     (case index_byte name (CHR ''/'') of
        Some i \<Rightarrow> (take i name, drop (i + 1) name, ''/'')
      | None \<Rightarrow>
        (case index_byte name (CHR ''.'') of
           Some i \<Rightarrow> (take i name, drop (i + 1) name, ''.'')
         | None \<Rightarrow> ([], name, [])))"

record toolCallParams =
  tpName :: string
  tpArguments :: params

definition buildActionContext :: "time \<Rightarrow> string \<Rightarrow> token_claims \<Rightarrow> AgentRecord option \<Rightarrow> toolCallParams \<Rightarrow> string \<Rightarrow> ActionContext" where
  "buildActionContext now sid claims agent p e =
     (case splitToolAction (tpName p) of (tool, action, _) \<Rightarrow>
       \<lparr>acAgentID = tcSubject claims, acTokenID = tcID claims, acAPIKeyID = tcAPIKeyID claims,
        acAgentUUID = (case agent of None \<Rightarrow> [] | Some a \<Rightarrow> agID a), acAgentName = trim_prefix (tcSubject claims) ''agent:'',
        acOrgID = (case agent of None \<Rightarrow> [] | Some a \<Rightarrow> agOrgID a), acWorkspaceID = (case agent of None \<Rightarrow> [] | Some a \<Rightarrow> agWorkspaceID a),
        acAgentScope = (case agent of None \<Rightarrow> [] | Some a \<Rightarrow> agScope a), acTool = tool, acAction = action, acParameters = tpArguments p,
        acEnvironment = (if e = [] then ''unknown'' else e), acSessionID = sid, acWorkflowRunID = [], acStepIndex = None, acReceivedAt = now\<rparr>)"

definition sessionNotLive :: "time \<Rightarrow> Manager \<Rightarrow> Session \<Rightarrow> bool" where
  "sessionNotLive now idm s =
     (case seClaims s of
        None \<Rightarrow> True
      | Some c \<Rightarrow> \<not> now < tcExpiresAt c \<or> IsRevoked idm (tcID c))"

section \<open>The handlers\<close>

record mcp_env =
  mvAuth :: auth_env
  mvParseUUID :: "string \<Rightarrow> uuid option"
  mvRand :: "string result"
  mvPick :: bool
  mvFlusher :: bool
  mvErrText :: "go_error \<Rightarrow> string"

abbreviation mv_now :: "mcp_env \<Rightarrow> time" where "mv_now env \<equiv> auNow (mvAuth env)"
abbreviation mv_manager :: "mcp_env \<Rightarrow> Manager" where "mv_manager env \<equiv> auManager (mvAuth env)"

definition check_live :: "mcp_env \<Rightarrow> string \<Rightarrow> string \<Rightarrow> string \<Rightarrow> string \<Rightarrow> Liveness \<times> go_error option" where
  "check_live env = CheckLive (mvParseUUID env) (auRegistryErr (mvAuth env)) (auRegistry (mvAuth env))"

definition parseBearer :: "mcp_env \<Rightarrow> string \<Rightarrow> token_claims result" where
  "parseBearer env auth =
     (if \<not> has_prefix auth ''Bearer '' then Inl (ErrText ''missing Bearer token'')
      else Validate (auParse (mvAuth env)) (mv_manager env) (mv_now env) (drop 7 auth))"

text \<open>\<^verbatim>\<open>ServeSSE\<close> up to the stream: an HTTP error, or the id of the open session.\<close>

definition ServeSSE :: "mcp_env \<Rightarrow> string \<Rightarrow> string \<Rightarrow> SessionManager \<Rightarrow> ((int \<times> string) + string) \<times> SessionManager" where
  "ServeSSE env meth auth m =
     (if meth \<noteq> ''GET'' then (Inl (405, ''method not allowed''), m)
      else case parseBearer env auth of
        Inl _ \<Rightarrow> (Inl (401, MsgUnauthorized), m)
      | Inr claims \<Rightarrow>
        if tcOrgID claims = [] then (Inl (401, MsgUnauthorized), m)
        else case LookupByNameAndOrg (auRegistryErr (mvAuth env)) (auPick (mvAuth env)) (auRegistry (mvAuth env))
                (trim_prefix (tcSubject claims) ''agent:'') (tcOrgID claims) of
          (Some rec, None) \<Rightarrow>
            if \<not> BoundTo (Some claims) (agID rec) then (Inl (403, MsgForbidden), m)
            else if check_live env (agID rec) (agOrgID rec) (tcID claims) (tcAPIKeyID claims) \<noteq> (Live, None)
            then (Inl (401, MsgUnauthorized), m)
            else (case Create (mvRand env) (mv_now env) claims rec (tcExpiresAt claims) m of
                (Inl _, m) \<Rightarrow> (Inl (500, ''internal error''), m)
              | (Inr sid, m) \<Rightarrow>
                if \<not> mvFlusher env then (Inl (500, ''streaming not supported''), Close sid m) else (Inr sid, m))
        | _ \<Rightarrow> (Inl (403, MsgForbidden), m))"

text \<open>One turn of the stream loop, for the case the select takes: what is written, and whether
  the stream ends. A None is a case that is not ready.\<close>

datatype sse_case = TakeEvent | SessionEnded | ClientGone
datatype sse_write = WMessage jsonRPCResponse | WSessionEnded

definition take_events :: "string \<Rightarrow> jsonRPCResponse list \<Rightarrow> SessionManager \<Rightarrow> SessionManager" where
  "take_events sid rest m = m\<lparr>smObjects := (smObjects m)(sid := map_option (\<lambda>s. s\<lparr>seEvents := rest\<rparr>) (smObjects m sid))\<rparr>"

definition sse_turn :: "sse_case \<Rightarrow> time \<Rightarrow> string \<Rightarrow> SessionManager \<Rightarrow> ((sse_write list \<times> bool) \<times> SessionManager) option" where
  "sse_turn c now sid m =
     (case smObjects m sid of
        None \<Rightarrow> None
      | Some s \<Rightarrow>
        (case c of
           TakeEvent \<Rightarrow> (case seEvents s of [] \<Rightarrow> None | e # es \<Rightarrow> Some (([WMessage e], False), take_events sid es m))
         | SessionEnded \<Rightarrow>
             if session_done now s then Some ((map WMessage (seEvents s) @ [WSessionEnded], True), Close sid (take_events sid [] m)) else None
         | ClientGone \<Rightarrow> Some (([], True), Close sid m)))"

datatype task =
    TaskCall string json ActionContext
  | TaskList string json string

record rpc_request =
  rrMethod :: string
  rrSession :: string
  rrEnvironment :: string
  rrBody :: "(json \<times> string \<times> toolCallParams result) result" \<comment> \<open>id, method and the decoding of the params\<close>

text \<open>The HTTP answer, the task started, and the manager.\<close>

type_synonym served = "(int \<times> string) \<times> task option \<times> SessionManager"

definition accepted :: "int \<times> string" where
  "accepted = (202, [])"

definition serveToolsList :: "mcp_env \<Rightarrow> string \<Rightarrow> Session \<Rightarrow> json \<Rightarrow> SessionManager \<Rightarrow> served option" where
  "serveToolsList env sid s i m =
     (let refuse = map_option (\<lambda>m. (accepted, None, Close sid m)) (sessRPCError (mvPick env) (mv_now env) sid i (-32001) MsgSessionEnded m) in
      case (seAgent s, seClaims s) of
        (Some a, Some c) \<Rightarrow>
          if check_live env (agID a) (agOrgID a) (tcID c) (tcAPIKeyID c) \<noteq> (Live, None) then refuse
          else Some (accepted, Some (TaskList sid i (agOrgID a)), m)
      | _ \<Rightarrow> refuse)"

definition ServeMessages :: "mcp_env \<Rightarrow> rpc_request \<Rightarrow> SessionManager \<Rightarrow> served option" where
  "ServeMessages env r m =
     (if rrMethod r \<noteq> ''POST'' then Some ((405, ''method not allowed''), None, m)
      else if rrSession r = [] then Some ((400, ''missing sessionId query parameter''), None, m)
      else case Get (rrSession r) m of
        None \<Rightarrow> Some ((404, ''session not found or expired''), None, m)
      | Some s \<Rightarrow>
        let answer = (\<lambda>i code msg. map_option (\<lambda>m. (accepted, None, m)) (sessRPCError (mvPick env) (mv_now env) (rrSession r) i code msg m))
        in case rrBody r of
          Inl err \<Rightarrow> answer JNull (-32700) (''parse error: '' @ mvErrText env err)
        | Inr (i, meth, decoded) \<Rightarrow>
          if sessionNotLive (mv_now env) (mv_manager env) s then
            map_option (\<lambda>m. (accepted, None, Close (rrSession r) m))
              (sessRPCError (mvPick env) (mv_now env) (rrSession r) i (-32001) MsgSessionEnded m)
          else if meth = ''tools/list'' then serveToolsList env (rrSession r) s i m
          else if meth \<noteq> ''tool_call'' then answer i (-32601) (''method not found: '' @ meth)
          else case decoded of
            Inl err \<Rightarrow> answer i (-32602) (''invalid params: '' @ mvErrText env err)
          | Inr p \<Rightarrow>
            (case seClaims s of
               None \<Rightarrow> Some (accepted, None, m) \<comment> \<open>not reached: such a session is not live\<close>
             | Some c \<Rightarrow> Some (accepted, Some (TaskCall (rrSession r) i
                 (buildActionContext (mv_now env) (rrSession r) c (seAgent s) p (rrEnvironment r))), m)))"

text \<open>The goroutines: the effects of a call, and the manager after the answer was queued.\<close>

definition answer_call :: "mcp_env \<Rightarrow> string \<Rightarrow> json \<Rightarrow> string \<times> go_error option \<Rightarrow> SessionManager \<Rightarrow> SessionManager option" where
  "answer_call env sid i res m =
     (case res of
        (result, None) \<Rightarrow> post (mvPick env) (mv_now env) sid \<lparr>rpID = i, rpBody = RpcResult result\<rparr> m
      | (_, Some err) \<Rightarrow>
        if errors_is ErrNotLive err then
          map_option (Close sid) (sessRPCError (mvPick env) (mv_now env) sid i (-32001) MsgSessionEnded m)
        else case as_policy_denied err of
          Some e \<Rightarrow> sessPolicyDenied (mvPick env) (mv_now env) sid i e m
        | None \<Rightarrow> sessRPCError (mvPick env) (mv_now env) sid i (-32000) (mvErrText env err) m)"

definition run_task ::
  "mcp_env \<Rightarrow> dispatch_env \<Rightarrow> ToolDefinition list result \<Rightarrow> task \<Rightarrow> SessionManager \<Rightarrow> effect list \<times> SessionManager option" where
  "run_task env denv tools t m =
     (case t of
        TaskCall sid i ac \<Rightarrow> (case Dispatch denv ac of (res, effs) \<Rightarrow> (effs, answer_call env sid i res m))
      | TaskList sid i orgID \<Rightarrow>
        ([], case tools of
           Inl err \<Rightarrow> sessRPCError (mvPick env) (mv_now env) sid i (-32000) (mvErrText env err) m
         | Inr defs \<Rightarrow> post (mvPick env) (mv_now env) sid \<lparr>rpID = i, rpBody = RpcTools defs\<rparr> m))"

definition CloseSessionsForAgent :: "string \<Rightarrow> SessionManager \<Rightarrow> nat \<times> SessionManager" where
  "CloseSessionsForAgent agentUUID = CloseWhere (\<lambda>s. case seAgent s of None \<Rightarrow> False | Some a \<Rightarrow> agID a = agentUUID)"

definition CloseSessionsForToken :: "string \<Rightarrow> SessionManager \<Rightarrow> nat \<times> SessionManager" where
  "CloseSessionsForToken jti = CloseWhere (\<lambda>s. case seClaims s of None \<Rightarrow> False | Some c \<Rightarrow> tcID c = jti)"

definition RecheckSessions :: "(Session \<Rightarrow> bool) \<Rightarrow> SessionManager \<Rightarrow> nat \<times> SessionManager" where
  "RecheckSessions stillLive m =
     fold (\<lambda>(sid, s) (n, m). if stillLive s then (n, m) else (n + 1, Close sid m)) (Snapshot m) (0, m)"

section \<open>The listener (liveness_listener.go)\<close>

definition jtiPattern :: "string \<Rightarrow> bool" where
  "jtiPattern s = (length s = 16 \<and> list_all (\<lambda>c. c \<in> set ''0123456789abcdef'') s)"

definition agentInactive :: "go_error option \<Rightarrow> registry_db \<Rightarrow> uuid \<Rightarrow> bool" where
  "agentInactive dbErr db i = (dbErr = None \<and> \<not> list_ex (\<lambda>a. agID a = i \<and> agStatus a = ''active'') (gateway_agents db))"

definition tokenRevoked :: "go_error option \<Rightarrow> registry_db \<Rightarrow> string \<Rightarrow> bool" where
  "tokenRevoked dbErr db jti = (dbErr = None \<and> jti \<in> set (revoked_ai_tokens db))"

definition handle_notification ::
  "(string \<Rightarrow> uuid option) \<Rightarrow> go_error option \<Rightarrow> registry_db \<Rightarrow> string \<Rightarrow> string \<Rightarrow> Manager \<times> SessionManager \<Rightarrow> Manager \<times> SessionManager" where
  "handle_notification parse dbErr db channel payload st =
     (case st of (idm, m) \<Rightarrow>
      if channel = ''agent_status'' then
        (case parse payload of
           None \<Rightarrow> (idm, m)
         | Some i \<Rightarrow> if \<not> agentInactive dbErr db i then (idm, m) else (idm, snd (CloseSessionsForAgent i m)))
      else if channel = ''token_revoked'' then
        (if \<not> jtiPattern payload then (idm, m)
         else if \<not> tokenRevoked dbErr db payload then (idm, m)
         else (MarkRevoked payload idm, snd (CloseSessionsForToken payload m)))
      else (idm, m))"

definition still_live :: "(string \<Rightarrow> string \<Rightarrow> string \<Rightarrow> string \<Rightarrow> Liveness \<times> go_error option) \<Rightarrow> Session \<Rightarrow> bool" where
  "still_live check s =
     (case (seAgent s, seClaims s) of
        (Some a, Some c) \<Rightarrow>
          (case check (agID a) (agOrgID a) (tcID c) (tcAPIKeyID c) of (lv, None) \<Rightarrow> lv = Live | (_, Some _) \<Rightarrow> True)
      | _ \<Rightarrow> False)"

definition catchUp ::
  "string list result \<Rightarrow> (string \<Rightarrow> string \<Rightarrow> string \<Rightarrow> string \<Rightarrow> Liveness \<times> go_error option) \<Rightarrow> Manager \<times> SessionManager \<Rightarrow> Manager \<times> SessionManager" where
  "catchUp loaded check st =
     (case st of (idm, m) \<Rightarrow> (snd (ReloadRevoked loaded idm), snd (RecheckSessions (still_live check) m)))"

section \<open>Facts on the manager\<close>

lemma Close_table [simp]: "smTable (Close sid m) = removeAll sid (smTable m)"
  by (auto simp: Close_def removeAll_id)

lemma fold_Close_table: "smTable (fold Close ids m) = filter (\<lambda>x. x \<notin> set ids) (smTable m)"
  by (induction ids arbitrary: m) (auto simp: removeAll_filter_not_eq intro!: filter_cong)

text \<open>What every operation keeps of a session object: its claims, its agent and its deadline.\<close>

definition same_session :: "Session \<Rightarrow> Session \<Rightarrow> bool" where
  "same_session s s' = (seClaims s' = seClaims s \<and> seAgent s' = seAgent s \<and> seDeadline s' = seDeadline s)"

definition keeps_sessions :: "SessionManager \<Rightarrow> SessionManager \<Rightarrow> bool" where
  "keeps_sessions m m' = (set (smTable m') \<subseteq> set (smTable m) \<and> (\<forall>sid. rel_option same_session (smObjects m sid) (smObjects m' sid)))"

lemma keeps_refl [simp]: "keeps_sessions m m"
  by (auto simp: keeps_sessions_def same_session_def intro!: rel_option_reflI)

lemma same_session_trans: "same_session a b \<Longrightarrow> same_session b c \<Longrightarrow> same_session a c"
  by (simp add: same_session_def)

lemma keeps_trans:
  assumes "keeps_sessions m m'" "keeps_sessions m' m''"
  shows "keeps_sessions m m''"
proof -
  have "rel_option same_session (smObjects m sid) (smObjects m'' sid)" for sid
    using assms same_session_trans unfolding keeps_sessions_def option_rel_Some1 [symmetric]
    by (metis (no_types, lifting) option.rel_cases option.rel_distinct(1) option.rel_inject(2) option.rel_intros(1,2))
  then show ?thesis using assms by (auto simp: keeps_sessions_def)
qed

lemma keeps_Close: "keeps_sessions m (Close sid m)"
  by (auto simp: keeps_sessions_def Close_def cancel_def same_session_def option.rel_map intro!: rel_option_reflI)

lemma keeps_fold_Close: "keeps_sessions m (fold Close ids m)"
  by (induction ids arbitrary: m) (auto intro: keeps_trans keeps_Close)

lemma keeps_sess_remove: "keeps_sessions m (sess_remove sid m)"
  by (auto simp: keeps_sessions_def sess_remove_def same_session_def intro!: rel_option_reflI)

lemma keeps_take_events: "keeps_sessions m (take_events sid es m)"
  by (auto simp: keeps_sessions_def take_events_def same_session_def option.rel_map intro!: rel_option_reflI)

lemma keeps_post: "post pick now sid e m = Some m' \<Longrightarrow> keeps_sessions m m'"
  by (auto simp: post_def Send_def keeps_sessions_def same_session_def intro!: rel_option_reflI split: option.splits if_splits)

lemma keeps_sessRPCError: "sessRPCError pick now sid i code msg m = Some m' \<Longrightarrow> keeps_sessions m m'"
  by (simp add: sessRPCError_def keeps_post)

lemma keeps_sse_turn: "sse_turn c now sid m = Some (w, m') \<Longrightarrow> keeps_sessions m m'"
  by (auto simp: sse_turn_def split: option.splits sse_case.splits list.splits if_splits
      intro: keeps_take_events keeps_Close keeps_trans)

lemma keeps_answer_call: "answer_call env sid i res m = Some m' \<Longrightarrow> keeps_sessions m m'"
  by (auto simp: answer_call_def sessPolicyDenied_def split: prod.splits option.splits if_splits
      intro: keeps_post keeps_sessRPCError keeps_trans keeps_Close)

lemma keeps_run_task: "run_task env denv tools t m = (effs, Some m') \<Longrightarrow> keeps_sessions m m'"
  by (auto simp: run_task_def split: task.splits prod.splits sum.splits intro: keeps_answer_call keeps_sessRPCError keeps_post)

lemma keeps_serveToolsList: "serveToolsList env sid s i m = Some (resp, t, m') \<Longrightarrow> keeps_sessions m m'"
  by (auto simp: serveToolsList_def Let_def split: option.splits if_splits intro: keeps_sessRPCError keeps_trans keeps_Close)

lemma keeps_ServeMessages: "ServeMessages env r m = Some (resp, t, m') \<Longrightarrow> keeps_sessions m m'"
  by (auto simp: ServeMessages_def Let_def split: option.splits if_splits sum.splits prod.splits
      intro: keeps_serveToolsList keeps_sessRPCError keeps_trans keeps_Close)

lemma keeps_CloseWhere: "keeps_sessions m (snd (CloseWhere f m))"
  by (simp add: CloseWhere_def keeps_fold_Close)

lemma keeps_handle: "handle_notification parse dbErr db ch pl (idm, m) = (idm', m') \<Longrightarrow> keeps_sessions m m'"
  by (auto simp: handle_notification_def CloseSessionsForAgent_def CloseSessionsForToken_def keeps_CloseWhere split: option.splits if_splits)

lemma recheck_fold:
  "snd (fold (\<lambda>(sid, s) (n, m). if f s then (n, m) else (n + 1, Close sid m)) xs (k, m)) = fold Close (map fst (filter (\<lambda>(_, s). \<not> f s) xs)) m"
  by (induction xs arbitrary: k m) auto

lemma RecheckSessions_eq: "snd (RecheckSessions f m) = fold Close (map fst (filter (\<lambda>(_, s). \<not> f s) (Snapshot m))) m"
  by (simp only: RecheckSessions_def recheck_fold)

lemma keeps_catchUp: "catchUp loaded check (idm, m) = (idm', m') \<Longrightarrow> keeps_sessions m m'"
  by (auto simp: catchUp_def RecheckSessions_eq keeps_fold_Close)

lemma Snapshot_mem: "(sid, s) \<in> set (Snapshot m) \<longleftrightarrow> sid \<in> set (smTable m) \<and> smObjects m sid = Some s"
  by (force simp: Snapshot_def List.map_filter_def image_iff)

section \<open>The running endpoint\<close>

text \<open>The steps of the endpoint: the clock, the database and the set of revoked tokens change;
  requests are served; tasks and streams make progress; a session whose time is over leaves
  the table; notifications arrive and the listener catches up. An operation reads the state
  at its step, and any of its other inputs may have any value.\<close>

record gw_state =
  gwDb :: registry_db
  gwManager :: Manager
  gwSessions :: SessionManager
  gwNow :: time

definition reads :: "mcp_env \<Rightarrow> gw_state \<Rightarrow> bool" where
  "reads env g = (auRegistry (mvAuth env) = gwDb g \<and> mv_manager env = gwManager g \<and> mv_now env = gwNow g)"

inductive gw_step :: "gw_state \<Rightarrow> gw_state \<Rightarrow> bool" where
  tick: "gwNow g \<le> t \<Longrightarrow> gw_step g (g\<lparr>gwNow := t\<rparr>)"
| database: "gw_step g (g\<lparr>gwDb := d\<rparr>)"
| revoked: "gw_step g (g\<lparr>gwManager := MarkRevoked jti (gwManager g)\<rparr>)"
| opened: "reads env g \<Longrightarrow> ServeSSE env meth auth (gwSessions g) = (res, m) \<Longrightarrow> gw_step g (g\<lparr>gwSessions := m\<rparr>)"
| message: "reads env g \<Longrightarrow> ServeMessages env r (gwSessions g) = Some (resp, t, m) \<Longrightarrow> gw_step g (g\<lparr>gwSessions := m\<rparr>)"
| task: "reads env g \<Longrightarrow> run_task env denv tools t (gwSessions g) = (effs, Some m) \<Longrightarrow> gw_step g (g\<lparr>gwSessions := m\<rparr>)"
| stream: "sse_turn c (gwNow g) sid (gwSessions g) = Some (w, m) \<Longrightarrow> gw_step g (g\<lparr>gwSessions := m\<rparr>)"
| reaped: "smObjects (gwSessions g) sid = Some s \<Longrightarrow> session_done (gwNow g) s \<Longrightarrow> gw_step g (g\<lparr>gwSessions := sess_remove sid (gwSessions g)\<rparr>)"
| notified: "handle_notification parse dbErr (gwDb g) ch pl (gwManager g, gwSessions g) = (idm, m) \<Longrightarrow>
    gw_step g (g\<lparr>gwManager := idm, gwSessions := m\<rparr>)"
| caught_up: "catchUp loaded check (gwManager g, gwSessions g) = (idm, m) \<Longrightarrow> gw_step g (g\<lparr>gwManager := idm, gwSessions := m\<rparr>)"

definition gw_start :: "registry_db \<Rightarrow> Manager \<Rightarrow> time \<Rightarrow> gw_state" where
  "gw_start db idm now = \<lparr>gwDb = db, gwManager = idm, gwSessions = NewSessionManager, gwNow = now\<rparr>"

text \<open>Every session belongs to a token that is bound to its agent, and ends with it.\<close>

definition session_ok :: "Session \<Rightarrow> bool" where
  "session_ok s = (case (seClaims s, seAgent s) of
     (Some c, Some a) \<Rightarrow> tcAgentUUID c = agID a \<and> tcOrgID c = agOrgID a \<and> tcOrgID c \<noteq> [] \<and> seDeadline s = tcExpiresAt c
       \<and> agName a = trim_prefix (tcSubject c) ''agent:''
   | _ \<Rightarrow> False)"

definition sessions_ok :: "SessionManager \<Rightarrow> bool" where
  "sessions_ok m = (set (smTable m) \<subseteq> dom (smObjects m) \<and> (\<forall>sid s. smObjects m sid = Some s \<longrightarrow> session_ok s))"

lemma session_ok_same: "same_session s s' \<Longrightarrow> session_ok s \<Longrightarrow> session_ok s'"
  by (auto simp: same_session_def session_ok_def split: option.splits)

lemma sessions_ok_keeps:
  assumes "keeps_sessions m m'" "sessions_ok m"
  shows "sessions_ok m'"
proof -
  have r: "rel_option same_session (smObjects m sid) (smObjects m' sid)" for sid using assms(1) by (simp add: keeps_sessions_def)
  have "session_ok s'" if o: "smObjects m' sid = Some s'" for sid s'
  proof -
    obtain s where "smObjects m sid = Some s" "same_session s s'" using r [of sid] unfolding o by (cases "smObjects m sid") auto
    then show ?thesis using assms(2) session_ok_same by (auto simp: sessions_ok_def)
  qed
  moreover have "sid \<in> dom (smObjects m')" if "sid \<in> set (smTable m')" for sid
  proof -
    have "sid \<in> dom (smObjects m)" using that assms by (auto simp: keeps_sessions_def sessions_ok_def)
    then show ?thesis using r [of sid] by (cases "smObjects m' sid") auto
  qed
  ultimately show ?thesis by (auto simp: sessions_ok_def)
qed

lemma sessions_ok_Create:
  assumes "sessions_ok m" "tcAgentUUID c = agID a" "tcOrgID c = agOrgID a" "tcOrgID c \<noteq> []" "agName a = trim_prefix (tcSubject c) ''agent:''"
  shows "sessions_ok (snd (Create rand now c a (tcExpiresAt c) m))"
  using assms by (auto simp: Create_def sessions_ok_def session_ok_def split: sum.splits)

lemma sessions_ok_ServeSSE:
  assumes "sessions_ok m" "ServeSSE env meth auth m = (res, m')"
  shows "sessions_ok m'"
proof -
  have "m' = m \<or> (\<exists>c a rand now m1. tcAgentUUID c = agID a \<and> tcOrgID c = agOrgID a \<and> tcOrgID c \<noteq> []
      \<and> agName a = trim_prefix (tcSubject c) ''agent:'' \<and> m1 = snd (Create rand now c a (tcExpiresAt c) m) \<and> (m' = m1 \<or> (\<exists>sid. m' = Close sid m1)))"
    using assms(2)
    by (auto simp: ServeSSE_def BoundTo_def split: if_splits sum.splits option.splits prod.splits dest!: LookupByNameAndOrg_ok; metis snd_conv)
  then show ?thesis
    using assms(1) sessions_ok_Create sessions_ok_keeps [OF keeps_Close] by (auto intro: sessions_ok_keeps)
qed

lemma sessions_ok_step:
  assumes "gw_step g g'" "sessions_ok (gwSessions g)"
  shows "sessions_ok (gwSessions g')"
  using assms
proof (cases rule: gw_step.cases)
  case (opened env meth auth res m)
  then show ?thesis using assms(2) sessions_ok_ServeSSE by auto
next
  case (message env r resp t m)
  then show ?thesis using sessions_ok_keeps [OF keeps_ServeMessages [OF message(3)] assms(2)] by simp
next
  case (task env denv tools t effs m)
  then show ?thesis using sessions_ok_keeps [OF keeps_run_task [OF task(3)] assms(2)] by simp
next
  case (stream c sid w m)
  then show ?thesis using sessions_ok_keeps [OF keeps_sse_turn [OF stream(2)] assms(2)] by simp
next
  case (reaped sid s)
  then show ?thesis using sessions_ok_keeps [OF keeps_sess_remove assms(2)] by simp
next
  case (notified parse dbErr ch pl idm m)
  then show ?thesis using sessions_ok_keeps [OF keeps_handle [OF notified(2)] assms(2)] by simp
next
  case (caught_up loaded check idm m)
  then show ?thesis using sessions_ok_keeps [OF keeps_catchUp [OF caught_up(2)] assms(2)] by simp
qed simp_all

lemma sessions_ok_reachable: "gw_step\<^sup>*\<^sup>* (gw_start db idm now) g \<Longrightarrow> sessions_ok (gwSessions g)"
proof (induction rule: rtranclp_induct)
  case base
  show ?case by (simp add: gw_start_def NewSessionManager_def sessions_ok_def)
next
  case (step g g')
  then show ?case by (simp add: sessions_ok_step)
qed

section \<open>Properties\<close>

text \<open>C18: an MCP call acts for the agent its token is bound to. In every reachable state, a
  message that starts a call is on an open session, and the call carries the subject of the
  session's token, the agent and organisation that this token is bound to, the name,
  workspace and scope of that agent's registry row, whose name is the one in the subject, and
  the id and key of the token, which has not expired and is not in the revoked set. So the
  sender of the message can choose the tool, the action, the parameters and the environment,
  and nothing of the identity.\<close>

theorem mcp_call_identity:
  assumes "gw_step\<^sup>*\<^sup>* (gw_start db idm now) g" "reads env g"
    and "ServeMessages env r (gwSessions g) = Some (resp, Some (TaskCall sid i ac), m)"
  shows "\<exists>s c a. Get (rrSession r) (gwSessions g) = Some s \<and> seClaims s = Some c \<and> seAgent s = Some a \<and> sid = rrSession r
     \<and> acAgentUUID ac = agID a \<and> acOrgID ac = agOrgID a \<and> tcAgentUUID c = agID a \<and> tcOrgID c = agOrgID a \<and> acOrgID ac \<noteq> []
     \<and> acAgentID ac = tcSubject c \<and> acAgentName ac = agName a \<and> agName a = trim_prefix (tcSubject c) ''agent:''
     \<and> acWorkspaceID ac = agWorkspaceID a \<and> acAgentScope ac = agScope a \<and> acSessionID ac = rrSession r \<and> acWorkflowRunID ac = []
     \<and> acTokenID ac = tcID c \<and> acAPIKeyID ac = tcAPIKeyID c \<and> gwNow g < tcExpiresAt c \<and> \<not> IsRevoked (gwManager g) (tcID c)"
proof -
  obtain s where s: "Get (rrSession r) (gwSessions g) = Some s"
    using assms(3) by (auto simp: ServeMessages_def split: if_splits option.splits)
  have not_list: "serveToolsList env sid' s' i' m' \<noteq> Some (resp', Some (TaskCall sid i ac), m'')" for sid' s' i' m' resp' m''
    by (auto simp: serveToolsList_def Let_def split: option.splits)
  obtain c p e where c: "\<not> sessionNotLive (mv_now env) (mv_manager env) s" "seClaims s = Some c" "sid = rrSession r"
    "ac = buildActionContext (mv_now env) (rrSession r) c (seAgent s) p e"
    using assms(3) s not_list
    by (auto simp: ServeMessages_def Let_def split: if_splits option.splits sum.splits prod.splits)
  have "smObjects (gwSessions g) (rrSession r) = Some s" using s by (auto simp: Get_def split: if_splits)
  then have "session_ok s" using sessions_ok_reachable [OF assms(1)] by (auto simp: sessions_ok_def)
  then obtain a where a: "seAgent s = Some a" "tcAgentUUID c = agID a" "tcOrgID c = agOrgID a" "tcOrgID c \<noteq> []" "agName a = trim_prefix (tcSubject c) ''agent:''"
    using c(2) by (auto simp: session_ok_def split: option.splits)
  have "gwNow g < tcExpiresAt c" "\<not> IsRevoked (gwManager g) (tcID c)"
    using c(1,2) assms(2) by (auto simp: sessionNotLive_def reads_def)
  then show ?thesis
    using s c a by (intro exI [of _ s] exI [of _ c] exI [of _ a]) (simp add: buildActionContext_def split: prod.split)
qed

definition sample_token :: token_claims where
  "sample_token = \<lparr>tcSubject = ''agent:bot'', tcIssuer = ''i'', tcAudience = [], tcIssuedAt = 0, tcExpiresAt = 9,
     tcID = ''00112233445566aa'', tcOrgID = ''o1'', tcAgentUUID = ''a1'', tcAPIKeyID = [], tcScope = [], tcTask = [], tcModel = [], tcOwner = [], tcRiskTier = []\<rparr>"

definition sample_mcp_env :: mcp_env where
  "sample_mcp_env = \<lparr>mvAuth = \<lparr>auParse = (\<lambda>_ _ _. Inr sample_token), auManager = \<lparr>mgIssuer = ''i'', mgDefaultTTL = 0, mgRevoked = {}\<rparr>, auNow = 5,
       auRegistryErr = None, auPick = 0, auRegistry = \<lparr>gateway_agents = [\<lparr>agID = ''a1'', agOrgID = ''o1'', agName = ''bot'', agScope = [],
         agRiskTier = [], agStatus = ''active'', agWorkspaceID = []\<rparr>], revoked_ai_tokens = [], api_keys_revoked = []\<rparr>\<rparr>,
     mvParseUUID = Some, mvRand = Inr ''x'', mvPick = True, mvFlusher = True, mvErrText = (\<lambda>_. [])\<rparr>"

definition sample_opened :: gw_state where
  "sample_opened = (gw_start (auRegistry (mvAuth sample_mcp_env)) (mv_manager sample_mcp_env) 5)
     \<lparr>gwSessions := snd (ServeSSE sample_mcp_env ''GET'' ''Bearer t'' NewSessionManager)\<rparr>"

lemma sample_opened_reachable:
  "gw_step\<^sup>*\<^sup>* (gw_start (auRegistry (mvAuth sample_mcp_env)) (mv_manager sample_mcp_env) 5) sample_opened"
proof -
  let ?g = "gw_start (auRegistry (mvAuth sample_mcp_env)) (mv_manager sample_mcp_env) 5"
  have "reads sample_mcp_env ?g" by (simp add: reads_def gw_start_def sample_mcp_env_def)
  moreover have "ServeSSE sample_mcp_env ''GET'' ''Bearer t'' (gwSessions ?g)
      = (fst (ServeSSE sample_mcp_env ''GET'' ''Bearer t'' NewSessionManager), snd (ServeSSE sample_mcp_env ''GET'' ''Bearer t'' NewSessionManager))"
    by (simp add: gw_start_def)
  ultimately have "gw_step ?g sample_opened" unfolding sample_opened_def by (rule gw_step.opened)
  then show ?thesis by blast
qed

lemma sample_opened_session:
  "smTable (gwSessions sample_opened) = [''78'']"
  "smObjects (gwSessions sample_opened) ''78'' = Some \<lparr>seClaims = Some sample_token, seAgent = Some \<lparr>agID = ''a1'', agOrgID = ''o1'', agName = ''bot'', agScope = [],
     agRiskTier = [], agStatus = ''active'', agWorkspaceID = []\<rparr>, seEvents = [], seDeadline = 9, seCancelled = False\<rparr>"
  by (simp_all add: sample_opened_def ServeSSE_def sample_mcp_env_def parseBearer_def Validate_def sample_token_def LookupByNameAndOrg_def limit_one_def
      trim_prefix_def checkStatus_def BoundTo_def check_live_def CheckLive_def live_row_def token_revoked_def Let_def Create_def newSessionID_def
      hex_encode_def hex_digit_def NewSessionManager_def char_of_def bit_Suc_0_iff)

theorem mcp_call_identity_witness:
  "\<exists>resp i ac m. ServeMessages sample_mcp_env \<lparr>rrMethod = ''POST'', rrSession = ''78'', rrEnvironment = [],
       rrBody = Inr (JNull, ''tool_call'', Inr \<lparr>tpName = ''crm/get'', tpArguments = None\<rparr>)\<rparr> (gwSessions sample_opened) = Some (resp, Some (TaskCall ''78'' i ac), m)
     \<and> acAgentUUID ac = ''a1'' \<and> acOrgID ac = ''o1'' \<and> acAgentID ac = ''agent:bot'' \<and> acAgentName ac = ''bot''"
proof -
  let ?r = "\<lparr>rrMethod = ''POST'', rrSession = ''78'', rrEnvironment = [],
       rrBody = Inr (JNull, ''tool_call'', Inr \<lparr>tpName = ''crm/get'', tpArguments = None\<rparr>)\<rparr>"
  have reads: "reads sample_mcp_env sample_opened" by (simp add: reads_def sample_opened_def gw_start_def sample_mcp_env_def)
  obtain resp i ac m where m: "ServeMessages sample_mcp_env ?r (gwSessions sample_opened) = Some (resp, Some (TaskCall ''78'' i ac), m)"
    by (simp add: ServeMessages_def Get_def sample_opened_session sessionNotLive_def IsRevoked_def sample_token_def sample_mcp_env_def Let_def)
  from mcp_call_identity [OF sample_opened_reachable reads m] m show ?thesis
    by (auto simp: Get_def sample_opened_session sample_token_def)
qed

text \<open>What the listener leaves open.\<close>

lemma CheckLive_no_error: "snd (CheckLive parse None db a b c d) = None"
  by (auto simp: CheckLive_def Let_def split: option.splits)

lemma catchUp_leaves_live:
  assumes "sessions_ok m" "catchUp loaded (CheckLive parse None db) (idm, m) = (idm', m')" "sid \<in> set (smTable m')"
  shows "\<exists>s a c. smObjects m sid = Some s \<and> seAgent s = Some a \<and> seClaims s = Some c
     \<and> CheckLive parse None db (agID a) (agOrgID a) (tcID c) (tcAPIKeyID c) = (Live, None)"
proof -
  have sid: "sid \<in> set (smTable m)" "sid \<notin> fst ` set (filter (\<lambda>(_, s). \<not> still_live (CheckLive parse None db) s) (Snapshot m))"
    using assms(2,3) by (simp_all add: catchUp_def RecheckSessions_eq) (auto simp only: fold_Close_table set_filter set_map mem_Collect_eq)
  obtain s where s: "smObjects m sid = Some s" using sid(1) assms(1) by (auto simp: sessions_ok_def)
  have "still_live (CheckLive parse None db) s"
  proof (rule ccontr)
    assume "\<not> still_live (CheckLive parse None db) s"
    then have "(sid, s) \<in> set (filter (\<lambda>(_, s). \<not> still_live (CheckLive parse None db) s) (Snapshot m))"
      using s sid(1) by (simp add: Snapshot_mem)
    with sid(2) show False by force
  qed
  with s show ?thesis
    by (auto simp: still_live_def split: option.splits prod.splits) (metis CheckLive_no_error option.distinct(1) snd_conv)
qed

lemma notification_ends_token:
  assumes "handle_notification parse None db ''token_revoked'' jti (idm, m) = (idm', m')" "jtiPattern jti" "jti \<in> set (revoked_ai_tokens db)"
    and "sid \<in> set (smTable m')" "smObjects m sid = Some s" "seClaims s = Some c"
  shows "tcID c \<noteq> jti"
proof -
  have "m' = snd (CloseSessionsForToken jti m)" using assms(1-3) by (simp add: handle_notification_def tokenRevoked_def)
  then show ?thesis using assms(4-) by (auto simp: CloseSessionsForToken_def CloseWhere_def fold_Close_table matching_def)
qed

text \<open>the listener ends sessions that lost their authority. After a catch-up with a
  reachable database every session left in the table passes the liveness check; after a
  notification that a token is revoked, which the database confirms, no session of the token
  is in the table and the token is refused from then on.\<close>

theorem listener_ends_dead_sessions:
  assumes "gw_step\<^sup>*\<^sup>* (gw_start db0 idm0 now0) g"
    and "catchUp loaded (CheckLive parse None db) (gwManager g, gwSessions g) = (idm, m)"
    and "jtiPattern jti" "jti \<in> set (revoked_ai_tokens db)"
    and "handle_notification parse None db ''token_revoked'' jti (gwManager g, gwSessions g) = (idm', m')"
  shows "(\<forall>sid\<in>set (smTable m). \<exists>s a c. smObjects (gwSessions g) sid = Some s \<and> seAgent s = Some a \<and> seClaims s = Some c
        \<and> CheckLive parse None db (agID a) (agOrgID a) (tcID c) (tcAPIKeyID c) = (Live, None))
    \<and> IsRevoked idm' jti
    \<and> (\<forall>sid s c. sid \<in> set (smTable m') \<longrightarrow> smObjects (gwSessions g) sid = Some s \<longrightarrow> seClaims s = Some c \<longrightarrow> tcID c \<noteq> jti)"
proof -
  have "\<exists>s a c. smObjects (gwSessions g) sid = Some s \<and> seAgent s = Some a \<and> seClaims s = Some c
        \<and> CheckLive parse None db (agID a) (agOrgID a) (tcID c) (tcAPIKeyID c) = (Live, None)" if "sid \<in> set (smTable m)" for sid
    using catchUp_leaves_live [OF sessions_ok_reachable [OF assms(1)] assms(2) that] .
  moreover have "IsRevoked idm' jti"
    using assms(3-) by (auto simp: handle_notification_def tokenRevoked_def MarkRevoked_def IsRevoked_def jtiPattern_def)
  ultimately show ?thesis using notification_ends_token [OF assms(5,3,4)] by blast
qed

definition sample_jti :: string where
  "sample_jti = ''00112233445566aa''"

definition sample_revoked_db :: registry_db where
  "sample_revoked_db = (auRegistry (mvAuth sample_mcp_env))\<lparr>revoked_ai_tokens := [sample_jti]\<rparr>"

theorem listener_ends_dead_sessions_witness:
  "\<exists>idm m idm' m'. catchUp (Inr [sample_jti]) (CheckLive Some None sample_revoked_db) (gwManager sample_opened, gwSessions sample_opened) = (idm, m)
     \<and> handle_notification Some None sample_revoked_db ''token_revoked'' sample_jti (gwManager sample_opened, gwSessions sample_opened) = (idm', m')
     \<and> IsRevoked idm' sample_jti \<and> ''78'' \<notin> set (smTable m')"
proof -
  obtain idm m where c: "catchUp (Inr [sample_jti]) (CheckLive Some None sample_revoked_db) (gwManager sample_opened, gwSessions sample_opened) = (idm, m)"
    by (metis prod.exhaust)
  obtain idm' m' where n: "handle_notification Some None sample_revoked_db ''token_revoked'' sample_jti (gwManager sample_opened, gwSessions sample_opened) = (idm', m')"
    by (metis prod.exhaust)
  have j: "jtiPattern sample_jti" "sample_jti \<in> set (revoked_ai_tokens sample_revoked_db)" "tcID sample_token = sample_jti"
    by (simp_all add: jtiPattern_def sample_jti_def sample_revoked_db_def sample_token_def)
  from listener_ends_dead_sessions [OF sample_opened_reachable c j(1,2) n] c n j(3) show ?thesis
    by (auto simp: sample_opened_session)
qed

lemma find_distinct_key:
  assumes "distinct (map f xs)" "x \<in> set xs"
  shows "List.find (\<lambda>y. f y = f x) xs = Some x"
  using assms by (induction xs) auto

lemma split_listed_name: "CHR ''/'' \<notin> set name \<Longrightarrow> splitToolAction (name @ ''/'' @ action) = (name, action, ''/'')"
  by (simp add: splitToolAction_def)

text \<open>what \<^verbatim>\<open>tools/list\<close> offers can be called. For an organisation whose connector names
  are non-empty and contain no slash, splitting the name of any listed tool gives back the
  connector and the action it was made from: routing finds that REST connector and it has a
  mapping for the action. The order in which the action map is iterated does not matter.\<close>

theorem listed_tools_callable:
  assumes "listGatewayTools env order dbErr tools orgID = Inr defs" "d \<in> set defs"
    and "\<And>ps. set (order ps) = set ps" "distinct (map (\<lambda>g. (gtOrgID g, gtName g)) tools)"
    and "\<And>raw ps. hePaths env raw = Inr ps \<Longrightarrow> distinct (map fst ps)"
    and "\<forall>g\<in>set tools. gtName g \<noteq> [] \<and> CHR ''/'' \<notin> set (gtName g)"
  shows "\<exists>tool action row entry. splitToolAction (tdName d) = (tool, action, ''/'')
     \<and> resolveDynamicTool env None tools orgID tool = Some row \<and> map_of (twActionPaths row) action = Some entry
     \<and> d = action_definition tool (action, entry)"
proof -
  from assms(1,2) have org: "orgID \<noteq> []" by (auto simp: listGatewayTools_def)
  from assms(1,2) obtain g where g: "g \<in> set tools" "gtOrgID g = orgID" "gtType g = ''rest_api''" "d \<in> set (tool_definitions env order g)"
    by (auto simp: listGatewayTools_def split: if_splits option.splits)
  then obtain ps action entry where ps: "gtActionPaths g \<noteq> []" "hePaths env (gtActionPaths g) = Inr ps" "(action, entry) \<in> set ps"
    "d = action_definition (gtName g) (action, entry)"
    using assms(3) by (cases "hePaths env (gtActionPaths g)") (auto simp: tool_definitions_def split: if_splits)
  have "List.find (\<lambda>h. gtOrgID h = orgID \<and> gtName h = gtName g) tools = Some g"
    using find_distinct_key [OF assms(4) g(1)] g(2) by simp
  then have "resolveDynamicTool env None tools orgID (gtName g) = Some \<lparr>twID = gtID g, twType = ''rest_api'', twAuthType = gtAuthType g,
      twBaseURL = gtBaseURL g, twCredentialsEncrypted = gtCredentialsEncrypted g, twActionPaths = ps\<rparr>"
    using assms(6) g ps org by (simp add: resolveDynamicTool_def tool_Resolve_def Let_def)
  moreover have "map_of ps action = Some entry" using assms(5) [OF ps(2)] ps(3) by simp
  moreover have "splitToolAction (tdName d) = (gtName g, action, ''/'')"
    using split_listed_name [of "gtName g" action] assms(6) g(1) ps(4) by (simp add: action_definition_def)
  ultimately show ?thesis using ps(4) by (intro exI [of _ "gtName g"] exI [of _ action]) simp
qed

definition sample_paths_env :: http_env where
  "sample_paths_env = sample_env\<lparr>hePaths := (\<lambda>_. Inr [(''get'', \<lparr>apPath = ''/items'', apMethod = ''GET'', apInputSchema = None\<rparr>)])\<rparr>"

definition mapped_tool :: "string \<Rightarrow> gateway_tool_row" where
  "mapped_tool name = (sample_tool ''rest_api'')\<lparr>gtName := name, gtActionPaths := ''{..}''\<rparr>"

theorem listed_tools_callable_witness:
  "\<exists>d. listGatewayTools sample_paths_env id None [mapped_tool ''crm''] ''o1'' = Inr [d]
     \<and> (\<exists>tool action row entry. splitToolAction (tdName d) = (tool, action, ''/'')
       \<and> resolveDynamicTool sample_paths_env None [mapped_tool ''crm''] ''o1'' tool = Some row \<and> map_of (twActionPaths row) action = Some entry)"
proof -
  let ?d = "action_definition ''crm'' (''get'', \<lparr>apPath = ''/items'', apMethod = ''GET'', apInputSchema = None\<rparr>)"
  have l: "listGatewayTools sample_paths_env id None [mapped_tool ''crm''] ''o1'' = Inr [?d]"
    by (simp add: listGatewayTools_def tool_definitions_def mapped_tool_def sample_tool_def sample_paths_env_def)
  have "distinct (map fst ps)" if "hePaths sample_paths_env raw = Inr ps" for raw ps
    using that by (auto simp: sample_paths_env_def)
  from listed_tools_callable [OF l _ _ _ this, of ?d] show ?thesis
    using l by (force simp: mapped_tool_def)
qed

text \<open>With a slash in a connector name the listed name leads to another connector.\<close>

lemma slash_name_misroutes:
  "\<exists>d. listGatewayTools sample_paths_env id None [mapped_tool ''crm/v2'', (mapped_tool ''crm'')\<lparr>gtID := ''t2''\<rparr>] ''o1'' = Inr d
     \<and> ''crm/v2/get'' \<in> tdName ` set d \<and> splitToolAction ''crm/v2/get'' = (''crm'', ''v2/get'', ''/'')
     \<and> map_option twID (resolveDynamicTool sample_paths_env None [mapped_tool ''crm/v2'', (mapped_tool ''crm'')\<lparr>gtID := ''t2''\<rparr>] ''o1'' ''crm'') = Some ''t2''"
  by (simp add: listGatewayTools_def tool_definitions_def mapped_tool_def sample_tool_def sample_paths_env_def splitToolAction_def
      resolveDynamicTool_def tool_Resolve_def Let_def action_definition_def)

end
