(* ===== verification/Admin_Access.thy ===== *)
theory Admin_Access
  imports License_Gate Approval_Flow
begin

text \<open>
  Who may call the admin API (\<^verbatim>\<open>eami-api/internal/api/middleware.go\<close>, with the groups of
  \<^verbatim>\<open>router.go\<close>), and the decision of an approval (\<^verbatim>\<open>approvals.go\<close>,
  \<^verbatim>\<open>store/approvals.sql.go\<close>). A middleware is a function from what it reads of the request
  to the error it answers, None when it calls the next handler. What all of them promise is
  the locale \<open>guard\<close>. \<open>verify_access\<close> stands for the verification of an access token,
  \<open>uuid_parse\<close> for \<^verbatim>\<open>uuid.Parse\<close>.
\<close>

section \<open>Answers\<close>

text \<open>The status, code and message of \<^verbatim>\<open>writeError\<close>.\<close>

type_synonym api_error = "int \<times> string \<times> string"

record userClaims =
  ucUserID :: uuid
  ucOrgID :: uuid
  ucEmail :: string
  ucRole :: string

record access_claims =
  axSubject :: string
  axOrgID :: string
  axEmail :: string
  axRole :: string

section \<open>Middleware\<close>

definition jwtMiddleware ::
  "(string \<Rightarrow> access_claims result) \<Rightarrow> (string \<Rightarrow> uuid option) \<Rightarrow> string \<Rightarrow> api_error + userClaims" where
  "jwtMiddleware verify_access uuid_parse header =
     (if \<not> has_prefix header ''Bearer '' then Inl (401, ''unauthorized'', ''missing or malformed Authorization header'')
      else case verify_access (trim_prefix header ''Bearer '') of
        Inl _ \<Rightarrow> Inl (401, ''unauthorized'', ''invalid or expired token'')
      | Inr c \<Rightarrow>
        (case uuid_parse (axSubject c) of
           None \<Rightarrow> Inl (401, ''unauthorized'', ''invalid token subject'')
         | Some userID \<Rightarrow>
           (case uuid_parse (axOrgID c) of
              None \<Rightarrow> Inl (401, ''unauthorized'', ''invalid token org'')
            | Some orgID \<Rightarrow> Inr \<lparr>ucUserID = userID, ucOrgID = orgID, ucEmail = axEmail c, ucRole = axRole c\<rparr>)))"

text \<open>\<^verbatim>\<open>subtle.ConstantTimeCompare\<close> is equality.\<close>

definition requireServiceKey :: "string \<Rightarrow> string \<Rightarrow> api_error option" where
  "requireServiceKey serviceKey key =
     (if key \<noteq> serviceKey then Some (401, ''unauthorized'', ''invalid service key'') else None)"

definition writeRoleForbidden :: "string \<Rightarrow> api_error" where
  "writeRoleForbidden role = (403, ''forbidden'', ''your role ('' @ role @ '') does not have access to this resource'')"

definition requireRole :: "string list \<Rightarrow> userClaims \<Rightarrow> api_error option" where
  "requireRole allowed uc = (if ucRole uc \<notin> set allowed then Some (writeRoleForbidden (ucRole uc)) else None)"

definition viewerReadOnly :: "string \<Rightarrow> userClaims \<Rightarrow> api_error option" where
  "viewerReadOnly meth uc =
     (if ucRole uc = ''viewer'' \<and> meth \<noteq> ''GET'' then Some (403, ''forbidden'', ''viewer role is read-only'') else None)"

record workspace_db =
  wkWorkspaces :: "(uuid \<times> uuid) list" \<comment> \<open>id and organisation\<close>
  wkMemberships :: "(uuid \<times> uuid \<times> string) list" \<comment> \<open>user, workspace, role\<close>

definition requireWorkspaceRole ::
  "(string \<Rightarrow> uuid option) \<Rightarrow> bool \<Rightarrow> go_error option \<Rightarrow> workspace_db \<Rightarrow> string \<Rightarrow> string \<Rightarrow> string \<Rightarrow> userClaims \<Rightarrow> api_error option" where
  "requireWorkspaceRole uuid_parse queries dbErr db paramName minRole raw uc =
     (if \<not> queries then Some (500, ''internal_error'', ''workspaces require a real database connection'')
      else case uuid_parse raw of
        None \<Rightarrow> Some (400, ''bad_request'', ''invalid '' @ paramName)
      | Some wid \<Rightarrow>
        if ucRole uc = ''admin'' then
          (if dbErr \<noteq> None then Some (500, ''internal_error'', ''failed to authorize workspace access'')
           else if (wid, ucOrgID uc) \<notin> set (wkWorkspaces db) then Some (404, ''not_found'', ''workspace not found'')
           else None)
        else
          (case (if dbErr \<noteq> None \<or> (wid, ucOrgID uc) \<notin> set (wkWorkspaces db) then None
                 else map_option (snd \<circ> snd) (List.find (\<lambda>(u, w, _). u = ucUserID uc \<and> w = wid) (wkMemberships db))) of
             None \<Rightarrow> Some (403, ''forbidden'', ''you do not have access to this workspace'')
           | Some role \<Rightarrow>
             if minRole = ''workspace_admin'' \<and> role \<noteq> ''workspace_admin'' then Some (403, ''forbidden'', ''workspace_admin role required'')
             else None))"

text \<open>The license is resolved as in the gateway: newest row, verified, of the same organisation.\<close>

definition requireModuleLicensed ::
  "(string \<Rightarrow> Claims result) \<Rightarrow> go_error option \<Rightarrow> license_db \<Rightarrow> string \<Rightarrow> userClaims \<Rightarrow> api_error option" where
  "requireModuleLicensed jwt_parse dbErr db modname uc =
     (let refuse = Some (403, ''module_not_licensed'', ''your organization is not licensed for the '' @ modname @ '' module'') in
      case dbErr of
        Some _ \<Rightarrow> refuse
      | None \<Rightarrow>
        (case newest (filter (\<lambda>l. licOrgID l = ucOrgID uc) (licenses db)) of
           None \<Rightarrow> refuse
         | Some l \<Rightarrow>
           (case Verify jwt_parse (licRaw l) of
              Inl _ \<Rightarrow> refuse
            | Inr c \<Rightarrow> if clSubject c \<noteq> ucOrgID uc \<or> \<not> HasModule c modname then refuse else None)))"

section \<open>What a middleware promises\<close>

text \<open>A middleware either lets the request through or answers with an error status, so a
  chain of them lets a request through exactly when each does.\<close>

locale guard =
  fixes check :: "'r \<Rightarrow> api_error option"
  assumes refuses: "check r = Some e \<Longrightarrow> 400 \<le> fst e \<and> fst e < 600"
begin

lemma never_success: "check r = Some (st, code, msg) \<Longrightarrow> st \<noteq> 200 \<and> st \<noteq> 201 \<and> st \<noteq> 204"
  using refuses [of r] by fastforce

end

text \<open>Two middlewares on one group, in the order of the \<^verbatim>\<open>Use\<close> calls.\<close>

definition use_chain :: "('r \<Rightarrow> api_error option) \<Rightarrow> ('r \<Rightarrow> api_error option) \<Rightarrow> 'r \<Rightarrow> api_error option" where
  "use_chain first next r = (case first r of Some e \<Rightarrow> Some e | None \<Rightarrow> next r)"

lemma use_chain_passes: "use_chain first next r = None \<longleftrightarrow> first r = None \<and> next r = None"
  by (simp add: use_chain_def split: option.split)

locale guard_pair = fst_guard: guard first + snd_guard: guard nxt
  for first :: "'r \<Rightarrow> api_error option" and nxt :: "'r \<Rightarrow> api_error option"

sublocale guard_pair \<subseteq> both: guard "use_chain first nxt"
  by unfold_locales (auto simp: use_chain_def dest: fst_guard.refuses snd_guard.refuses split: option.splits)

interpretation role_guard: guard "requireRole allowed"
  by unfold_locales (auto simp: requireRole_def writeRoleForbidden_def split: if_splits)

interpretation viewer_guard: guard "viewerReadOnly meth"
  by unfold_locales (auto simp: viewerReadOnly_def split: if_splits)

interpretation workspace_guard: guard "requireWorkspaceRole uuid_parse queries dbErr db paramName minRole raw"
  by unfold_locales (auto simp: requireWorkspaceRole_def split: if_splits option.splits)

interpretation module_guard: guard "requireModuleLicensed jwt_parse dbErr db modname"
  by unfold_locales (auto simp: requireModuleLicensed_def Let_def split: option.splits sum.splits if_splits)

interpretation key_guard: guard "requireServiceKey serviceKey"
  by unfold_locales (auto simp: requireServiceKey_def split: if_splits)

interpretation read_group: guard_pair "requireRole allowed" "viewerReadOnly meth"
  by unfold_locales

text \<open>The admin API's module gate and the gateway's module check agree: for the same
  stored licenses and the same outcome of the query, \<^verbatim>\<open>requireModuleLicensed\<close> lets a user's
  request through exactly when \<^verbatim>\<open>Store.ModuleLicensed\<close> holds for the user's organisation, and
  a refusal is always the 403 answer.\<close>

theorem module_guard_agrees:
  "requireModuleLicensed jwt_parse dbErr db modname uc
   = (if ModuleLicensed jwt_parse dbErr db (ucOrgID uc) modname then None
      else Some (403, ''module_not_licensed'', ''your organization is not licensed for the '' @ modname @ '' module''))"
  by (auto simp: requireModuleLicensed_def ModuleLicensed_def currentClaims_def Let_def split: option.splits sum.splits)

section \<open>Deciding an approval (approvals.go)\<close>

record approval_state =
  asID :: uuid
  asOrgID :: uuid
  asStatus :: string
  asApprovedBy :: "uuid option"
  asReason :: "string option"
  asDecidedAt :: "time option"

text \<open>The rows an update touches, and its \<^verbatim>\<open>SET\<close> clause.\<close>

definition decidable :: "uuid \<Rightarrow> uuid \<Rightarrow> approval_state \<Rightarrow> bool" where
  "decidable i orgID a = (asID a = i \<and> asOrgID a = orgID \<and> asStatus a = ''pending'')"

definition set_decision :: "string \<Rightarrow> uuid \<Rightarrow> string option \<Rightarrow> time \<Rightarrow> approval_state \<Rightarrow> approval_state" where
  "set_decision status approvedBy reason now a =
     a\<lparr>asStatus := status, asApprovedBy := Some approvedBy, asReason := reason, asDecidedAt := Some now\<rparr>"

definition store_DecideApproval ::
  "go_error option \<Rightarrow> time \<Rightarrow> uuid \<Rightarrow> uuid \<Rightarrow> string \<Rightarrow> uuid \<Rightarrow> string option \<Rightarrow> approval_state list
     \<Rightarrow> approval_state result \<times> approval_state list" where
  "store_DecideApproval dbErr now i orgID status approvedBy reason rows =
     (case dbErr of
        Some err \<Rightarrow> (Inl err, rows)
      | None \<Rightarrow>
        (case List.find (decidable i orgID) rows of
           None \<Rightarrow> (Inl (Sentinel ErrNoRows), rows)
         | Some a \<Rightarrow>
           (Inr (set_decision status approvedBy reason now a),
            map (\<lambda>a. if decidable i orgID a then set_decision status approvedBy reason now a else a) rows)))"

record decide_request =
  drDecision :: string
  drReason :: string

text \<open>The answer and the table. A row in the answer is also notified to the waiting gateway,
  and the result of that notification is ignored. The \<^verbatim>\<open>decided_by\<close> of the body is only used by
  the in-memory store that replaces the database in tests, which is not modelled.\<close>

definition DecideApproval ::
  "(string \<Rightarrow> uuid option) \<Rightarrow> (go_error \<Rightarrow> string) \<Rightarrow> go_error option \<Rightarrow> time \<Rightarrow> userClaims \<Rightarrow> string \<Rightarrow> decide_request result
     \<Rightarrow> approval_state list \<Rightarrow> (api_error + approval_state) \<times> approval_state list" where
  "DecideApproval uuid_parse errText dbErr now uc raw body rows =
     (case uuid_parse raw of
        None \<Rightarrow> (Inl (400, ''bad_request'', ''invalid approvalId''), rows)
      | Some i \<Rightarrow>
        (case body of
           Inl _ \<Rightarrow> (Inl (400, ''bad_request'', ''invalid JSON body''), rows)
         | Inr req \<Rightarrow>
           if drDecision req \<noteq> ''approved'' \<and> drDecision req \<noteq> ''denied''
           then (Inl (400, ''bad_request'', ''decision must be \"approved\" or \"denied\"''), rows)
           else case store_DecideApproval dbErr now i (ucOrgID uc) (drDecision req) (ucUserID uc)
                      (if drReason req = [] then None else Some (drReason req)) rows of
             (Inr a, rows) \<Rightarrow> (Inr a, rows)
           | (Inl err, rows) \<Rightarrow>
             if err = Sentinel ErrNoRows then (Inl (409, ''conflict'', ''approval not found or already decided''), rows)
             else (Inl (500, ''internal_error'', errText err), rows)))"

text \<open>One request to \<^verbatim>\<open>POST /v1/approvals/{approvalId}/decide\<close>: its header, route parameter
  and body, with the time and the outcome of the database at that moment, through the
  middlewares of the route's group in \<^verbatim>\<open>router.go\<close>.\<close>

record decide_http =
  dhHeader :: string
  dhParam :: string
  dhBody :: "decide_request result"
  dhErr :: "go_error option"
  dhNow :: time

definition decide_roles :: "string list" where
  "decide_roles = [''admin'', ''operator'', ''approver'']"

definition decide_route ::
  "(string \<Rightarrow> access_claims result) \<Rightarrow> (string \<Rightarrow> uuid option) \<Rightarrow> (go_error \<Rightarrow> string) \<Rightarrow> decide_http
     \<Rightarrow> approval_state list \<Rightarrow> (api_error + approval_state) \<times> approval_state list" where
  "decide_route verify_access uuid_parse errText h rows =
     (case jwtMiddleware verify_access uuid_parse (dhHeader h) of
        Inl e \<Rightarrow> (Inl e, rows)
      | Inr uc \<Rightarrow>
        (case requireRole decide_roles uc of
           Some e \<Rightarrow> (Inl e, rows)
         | None \<Rightarrow> DecideApproval uuid_parse errText (dhErr h) (dhNow h) uc (dhParam h) (dhBody h) rows))"

fun decide_all ::
  "(string \<Rightarrow> access_claims result) \<Rightarrow> (string \<Rightarrow> uuid option) \<Rightarrow> (go_error \<Rightarrow> string) \<Rightarrow> decide_http list
     \<Rightarrow> approval_state list \<Rightarrow> (api_error + approval_state) list \<times> approval_state list" where
  "decide_all va up et [] rows = ([], rows)"
| "decide_all va up et (h # hs) rows =
     (let (ans, rows1) = decide_route va up et h rows; (rest, rows2) = decide_all va up et hs rows1
      in (ans # rest, rows2))"

section \<open>What deciding does to a row\<close>

text \<open>The only change a request can make: a pending row of the caller's organisation takes
  the caller's decision, for a caller with one of the three roles.\<close>

definition decided_by :: "(string \<Rightarrow> access_claims result) \<Rightarrow> (string \<Rightarrow> uuid option) \<Rightarrow> decide_http \<Rightarrow> approval_state \<Rightarrow> approval_state \<Rightarrow> bool" where
  "decided_by va up h a b =
     (case (jwtMiddleware va up (dhHeader h), dhBody h) of
        (Inr uc, Inr req) \<Rightarrow>
          ucRole uc \<in> set decide_roles \<and> drDecision req \<in> {''approved'', ''denied''} \<and> dhErr h = None \<and>
          decidable (asID a) (ucOrgID uc) a \<and> up (dhParam h) = Some (asID a) \<and>
          b = set_decision (drDecision req) (ucUserID uc) (if drReason req = [] then None else Some (drReason req)) (dhNow h) a
      | _ \<Rightarrow> False)"

definition counts_as :: "uuid \<Rightarrow> api_error + approval_state \<Rightarrow> bool" where
  "counts_as i ans = (case ans of Inl _ \<Rightarrow> False | Inr a \<Rightarrow> asID a = i)"

lemma set_decision_simps [simp]:
  "asID (set_decision s u r n a) = asID a"
  "asOrgID (set_decision s u r n a) = asOrgID a"
  "asStatus (set_decision s u r n a) = s"
  by (simp_all add: set_decision_def)

definition is_pending :: "uuid \<Rightarrow> approval_state list \<Rightarrow> bool" where
  "is_pending i rows = (\<exists>a\<in>set rows. asID a = i \<and> asStatus a = ''pending'')"

text \<open>A request either changes nothing and is answered with an error, or decides one pending
  row and is answered with it.\<close>

lemma decide_route_cases:
  obtains (refused) e where "decide_route va up et h rows = (Inl e, rows)"
  | (decided) a b f orgID where "a \<in> set rows" "decidable (asID a) orgID a" "b = f a"
      "\<And>x. decidable (asID a) orgID x \<Longrightarrow> decided_by va up h x (f x)"
      "decide_route va up et h rows = (Inr b, map (\<lambda>x. if decidable (asID a) orgID x then f x else x) rows)"
proof (cases "jwtMiddleware va up (dhHeader h)")
  case (Inl e)
  then show thesis by (intro refused [of e]) (simp add: decide_route_def)
next
  case jwt: (Inr uc)
  show thesis
  proof (cases "decide_route va up et h rows")
    case (Pair ans rows1)
    show thesis
    proof (cases ans)
      case (Inl e)
      then have "rows1 = rows"
        using Pair jwt by (auto simp: decide_route_def DecideApproval_def store_DecideApproval_def
          split: option.splits sum.splits if_splits prod.splits)
      then show thesis using Inl Pair by (intro refused [of e]) simp
    next
      case (Inr b)
      from Pair jwt Inr obtain i req where role: "requireRole decide_roles uc = None"
        and i: "up (dhParam h) = Some i" and req: "dhBody h = Inr req"
        and dec: "drDecision req = ''approved'' \<or> drDecision req = ''denied''"
        and st: "store_DecideApproval (dhErr h) (dhNow h) i (ucOrgID uc) (drDecision req) (ucUserID uc)
                      (if drReason req = [] then None else Some (drReason req)) rows = (Inr b, rows1)"
        by (simp add: decide_route_def DecideApproval_def split: option.splits sum.splits if_splits prod.splits)
      let ?f = "set_decision (drDecision req) (ucUserID uc) (if drReason req = [] then None else Some (drReason req)) (dhNow h)"
      from st obtain a where err: "dhErr h = None" and a: "List.find (decidable i (ucOrgID uc)) rows = Some a"
        and b: "b = ?f a" and rows1: "rows1 = map (\<lambda>x. if decidable i (ucOrgID uc) x then ?f x else x) rows"
        by (auto simp: store_DecideApproval_def split: option.splits)
      from a have mem: "a \<in> set rows" and hit: "decidable i (ucOrgID uc) a"
        by (auto simp: find_Some_iff)
      then have ia: "i = asID a" by (simp add: decidable_def)
      have by_h: "decided_by va up h x (?f x)" if "decidable i (ucOrgID uc) x" for x
        using that jwt req role i dec err by (auto simp: decided_by_def requireRole_def decidable_def split: if_splits)
      show thesis
        using decided [of a "ucOrgID uc" b ?f] mem hit b by_h Pair Inr rows1 by (simp add: ia)
    qed
  qed
qed

lemma decided_by_ends: "decided_by va up h a b \<Longrightarrow> asStatus a = ''pending'' \<and> asStatus b \<noteq> ''pending'' \<and> asID b = asID a"
  by (auto simp: decided_by_def decidable_def split: sum.splits)

lemma decide_route_step:
  assumes "distinct (map asID rows)" and "decide_route va up et h rows = (ans, rows1)"
  shows "list_all2 (\<lambda>a b. a = b \<or> decided_by va up h a b) rows rows1"
    and "counts_as i ans \<Longrightarrow> is_pending i rows \<and> \<not> is_pending i rows1"
    and "ans = Inr b \<Longrightarrow> b \<in> set rows1 \<and> asStatus b \<noteq> ''pending''"
proof -
  have "list_all2 (\<lambda>a b. a = b \<or> decided_by va up h a b) rows rows1 \<and>
      (counts_as i ans \<longrightarrow> is_pending i rows \<and> \<not> is_pending i rows1) \<and>
      (ans = Inr b \<longrightarrow> b \<in> set rows1 \<and> asStatus b \<noteq> ''pending'')"
  proof (cases rule: decide_route_cases [of va up et h rows])
    case (refused e)
    with assms show ?thesis by (auto simp: counts_as_def list.rel_refl)
  next
    case (decided a b' f orgID)
    have ends: "asStatus (f a) \<noteq> ''pending''" "asID (f a) = asID a"
      using decided_by_ends [OF decided(4) [OF decided(2)]] by simp_all
    have only: "x = a" if "x \<in> set rows" "asID x = asID a" for x
      using that decided(1) assms(1) by (auto simp: distinct_map inj_on_def)
    from decided(5) assms(2) have ans: "ans = Inr (f a)"
      and rows1: "rows1 = map (\<lambda>x. if decidable (asID a) orgID x then f x else x) rows"
      by (simp_all add: decided(3))
    have in1: "f a \<in> set rows1" unfolding rows1 using decided(1,2) by force
    have rel: "list_all2 (\<lambda>a b. a = b \<or> decided_by va up h a b) rows rows1"
      unfolding rows1 list_all2_map2 by (rule list.rel_refl_strong) (simp add: decided(4))
    have keep: "y = f a" if y: "y \<in> set rows1" "asID y = asID a" for y
    proof -
      from y(1) obtain x where x: "x \<in> set rows" "y = (if decidable (asID a) orgID x then f x else x)"
        unfolding rows1 by auto
      have "asID x = asID a"
        using x(2) y(2) decided_by_ends [OF decided(4), of x] by (simp split: if_splits)
      with x only [of x] decided(2) show ?thesis by simp
    qed
    have gone: "\<not> is_pending (asID a) rows1"
      using keep ends(1) by (auto simp: is_pending_def)
    have was: "is_pending (asID a) rows"
      using decided(1,2) by (auto simp: is_pending_def decidable_def)
    show ?thesis
      using ans rel in1 gone was ends by (auto simp: counts_as_def)
  qed
  then show "list_all2 (\<lambda>a b. a = b \<or> decided_by va up h a b) rows rows1"
    and "counts_as i ans \<Longrightarrow> is_pending i rows \<and> \<not> is_pending i rows1"
    and "ans = Inr b \<Longrightarrow> b \<in> set rows1 \<and> asStatus b \<noteq> ''pending''"
    by blast+
qed

lemma step_ids:
  "list_all2 (\<lambda>a b. a = b \<or> decided_by va up h a b) rows rows1 \<Longrightarrow> map asID rows1 = map asID rows"
  by (induction rule: list_all2_induct) (auto dest: decided_by_ends)

lemma step_pending:
  "list_all2 (\<lambda>a b. a = b \<or> decided_by va up h a b) rows rows1 \<Longrightarrow> is_pending i rows1 \<Longrightarrow> is_pending i rows"
  by (induction rule: list_all2_induct) (auto simp: is_pending_def dest: decided_by_ends)

lemma decide_all_count:
  "distinct (map asID rows) \<Longrightarrow>
   length (filter (counts_as i) (fst (decide_all va up et hs rows))) \<le> (if is_pending i rows then 1 else 0)"
proof (induction hs arbitrary: rows)
  case (Cons h hs)
  obtain ans rows1 where r: "decide_route va up et h rows = (ans, rows1)" by (cases "decide_route va up et h rows")
  note st = decide_route_step [OF Cons.prems r]
  have "distinct (map asID rows1)" using Cons.prems step_ids [OF st(1)] by simp
  from Cons.IH [OF this] show ?case
    using r st(2) [of i] step_pending [OF st(1), of i]
    by (auto simp: split_beta Let_def split: if_splits)
qed simp

lemma decide_all_rows:
  "distinct (map asID rows) \<Longrightarrow>
   list_all2 (\<lambda>a b. a = b \<or> (\<exists>h\<in>set hs. decided_by va up h a b)) rows (snd (decide_all va up et hs rows))"
proof (induction hs arbitrary: rows)
  case (Cons h hs)
  obtain ans rows1 where r: "decide_route va up et h rows = (ans, rows1)" by (cases "decide_route va up et h rows")
  note st = decide_route_step(1) [OF Cons.prems r]
  have "distinct (map asID rows1)" using Cons.prems step_ids [OF st] by simp
  from list_all2_trans [OF _ st Cons.IH [OF this],
      where ?P3.0 = "\<lambda>a b. a = b \<or> (\<exists>h\<in>set (h # hs). decided_by va up h a b)"]
  show ?case using r by (auto simp: split_beta Let_def dest: decided_by_ends)
qed (simp add: list.rel_refl)

text \<open>A decided row is kept by every later request.\<close>

lemma decide_all_keeps:
  assumes "distinct (map asID rows)" and "a \<in> set rows" and "asStatus a \<noteq> ''pending''"
  shows "a \<in> set (snd (decide_all va up et hs rows))"
proof -
  obtain k where k: "k < length rows" "a = rows ! k" using assms(2) by (auto simp: in_set_conv_nth)
  have "a = snd (decide_all va up et hs rows) ! k"
    using list_all2_nthD [OF decide_all_rows [OF assms(1), of hs va up et] k(1)] assms(3) k(2)
    by (auto dest: decided_by_ends)
  then show ?thesis
    using k list_all2_lengthD [OF decide_all_rows [OF assms(1), of hs va up et]] by auto
qed

lemma decide_all_answers:
  "distinct (map asID rows) \<Longrightarrow> Inr b \<in> set (fst (decide_all va up et hs rows)) \<Longrightarrow>
   b \<in> set (snd (decide_all va up et hs rows))"
proof (induction hs arbitrary: rows)
  case (Cons h hs)
  obtain ans rows1 where r: "decide_route va up et h rows = (ans, rows1)" by (cases "decide_route va up et h rows")
  note st = decide_route_step [OF Cons.prems(1) r]
  have d: "distinct (map asID rows1)" using Cons.prems(1) step_ids [OF st(1)] by simp
  show ?case
  proof (cases "ans = Inr b")
    case True
    with st(3) [of b] d decide_all_keeps [of rows1 b] r show ?thesis by (simp add: split_beta Let_def)
  next
    case False
    with Cons r d show ?thesis by (auto simp: split_beta Let_def)
  qed
qed simp

text \<open>C26: An approval is decided at most once. Whatever requests reach the decide route, in
  whatever order and with whatever failures, at most one of them is answered with success for
  an approval id; a row differs from its first version only by the decision of one request,
  which came from a user of the row's organisation with the role admin, operator or approver
  while the row was pending; and the row of a successful answer is the row that stays in the
  table.\<close>

theorem approval_decided_once:
  assumes "distinct (map asID rows)" and "decide_all verify_access uuid_parse errText hs rows = (answers, rows')"
  shows "length (filter (counts_as i) answers) \<le> 1 \<and>
    list_all2 (\<lambda>a b. a = b \<or> (\<exists>h\<in>set hs. decided_by verify_access uuid_parse h a b)) rows rows' \<and>
    {b. Inr b \<in> set answers} \<subseteq> set rows'"
  using decide_all_count [OF assms(1), of i verify_access uuid_parse errText hs]
    decide_all_rows [OF assms(1), of hs verify_access uuid_parse errText]
    decide_all_answers [OF assms(1), of _ verify_access uuid_parse errText hs] assms(2)
  by (auto split: if_splits)

definition sample_access :: "string \<Rightarrow> access_claims result" where
  "sample_access t =
     (if t = ''t1'' then Inr \<lparr>axSubject = ''u1'', axOrgID = ''o1'', axEmail = ''a@x'', axRole = ''approver''\<rparr>
      else if t = ''t2'' then Inr \<lparr>axSubject = ''u2'', axOrgID = ''o1'', axEmail = ''b@x'', axRole = ''admin''\<rparr>
      else Inl (ErrText ''bad token''))"

definition sample_decides :: "decide_http list" where
  "sample_decides =
     [\<lparr>dhHeader = ''Bearer t1'', dhParam = ''p1'', dhBody = Inr \<lparr>drDecision = ''denied'', drReason = ''no''\<rparr>, dhErr = None, dhNow = 5\<rparr>,
      \<lparr>dhHeader = ''Bearer t2'', dhParam = ''p1'', dhBody = Inr \<lparr>drDecision = ''approved'', drReason = []\<rparr>, dhErr = None, dhNow = 6\<rparr>]"

definition sample_row :: approval_state where
  "sample_row = \<lparr>asID = ''p1'', asOrgID = ''o1'', asStatus = ''pending'', asApprovedBy = None, asReason = None, asDecidedAt = None\<rparr>"

lemma sample_decide_all:
  "decide_all sample_access Some (\<lambda>_. []) sample_decides [sample_row]
   = ([Inr (set_decision ''denied'' ''u1'' (Some ''no'') 5 sample_row),
       Inl (409, ''conflict'', ''approval not found or already decided'')],
      [set_decision ''denied'' ''u1'' (Some ''no'') 5 sample_row])"
  by code_simp

theorem approval_decided_once_witness:
  "length (filter (counts_as ''p1'')
     [Inr (set_decision ''denied'' ''u1'' (Some ''no'') 5 sample_row),
      Inl (409, ''conflict'', ''approval not found or already decided'')]) \<le> 1 \<and>
   (\<exists>h\<in>set sample_decides. decided_by sample_access Some h sample_row (set_decision ''denied'' ''u1'' (Some ''no'') 5 sample_row))"
  using approval_decided_once [OF _ sample_decide_all, of "''p1''"]
  by (simp add: sample_row_def set_decision_def)

end
