(* ===== verification/Tool_Admin.thy ===== *)
theory Tool_Admin
  imports Admin_Access Tool_Routing "HOL-Library.Char_ord" "HOL-Library.List_Lexorder"
begin

text \<open>
  Administration of connectors (\<^verbatim>\<open>eami-api/internal/api/tools.go\<close>, \<^verbatim>\<open>tool_connectivity.go\<close>,
  \<^verbatim>\<open>rbac_fields.go\<close>, \<^verbatim>\<open>internal/toolcreds\<close> and \<^verbatim>\<open>internal/store/tools.sql.go\<close>): validation of
  a submitted connector, the table operations with the constraints of the schema, the
  field-level role check, and the connectivity test. The rows extend the rows the gateway
  reads, so that what the API stores is what the gateway resolves. A SQL NULL of a byte or
  JSON column is the empty string, \<open>teJsonb\<close> is the text PostgreSQL gives back for a stored
  JSON value, and decoded JSON objects are lists sorted by key. A raw JSON field of a request
  is empty when the field is omitted.
\<close>

section \<open>The environment\<close>

type_synonym ActionPathMapping = ActionPathEntry

record ToolCredentials =
  kAPIKey :: string
  kOAuthClientID :: string
  kOAuthClientSecret :: string
  kConnectionString :: string

record tool_env =
  teRules :: "string \<Rightarrow> rawConfig result"
  teCompile :: "string \<Rightarrow> regex result"
  teRulesAny :: "string \<Rightarrow> bool option \<times> string list \<times> (string \<times> json) list list"
  teObj :: "string \<Rightarrow> (string \<times> json) list"
  teEntries :: "string \<Rightarrow> nat result" \<comment> \<open>the number of entries of a JSON object\<close>
  teMarshal :: "(string \<times> ActionPathMapping) list \<Rightarrow> string result"
  tePaths :: "string \<Rightarrow> (string \<times> ActionPathMapping) list"
  teEncrypt :: "(string \<Rightarrow> string result) option" \<comment> \<open>None when no key is configured\<close>
  teJsonb :: "string \<Rightarrow> string"
  teCollate :: "string \<Rightarrow> string" \<comment> \<open>the sort key of a name in the collation of the database\<close>
  teParseUUID :: "string \<Rightarrow> uuid option"
  teErrText :: "go_error \<Rightarrow> string"
  teConstraint :: go_error \<comment> \<open>the error of a violated table constraint\<close>

section \<open>Sealing credentials (toolcreds.go)\<close>

definition creds_Encrypt :: "(string \<Rightarrow> string \<Rightarrow> string) \<Rightarrow> string result \<Rightarrow> string \<Rightarrow> string result" where
  "creds_Encrypt seal rand plaintext =
     (case rand of
        Inl err \<Rightarrow> Inl (Wrapped ''toolcreds: generate nonce'' err)
      | Inr nonce \<Rightarrow> Inr (nonce @ seal nonce plaintext))"

definition creds_Decrypt :: "nat \<Rightarrow> (string \<Rightarrow> string \<Rightarrow> string result) \<Rightarrow> string \<Rightarrow> string result" where
  "creds_Decrypt nonceSize unseal blob =
     (if length blob < nonceSize then Inl (ErrText ''toolcreds: ciphertext shorter than nonce'')
      else case unseal (take nonceSize blob) (drop nonceSize blob) of
        Inl err \<Rightarrow> Inl (Wrapped ''toolcreds: decrypt'' err)
      | Inr plaintext \<Rightarrow> Inr plaintext)"

section \<open>Validation (tools.go)\<close>

definition credentialsProvided :: "tool_env \<Rightarrow> string \<Rightarrow> bool result" where
  "credentialsProvided env raw =
     (if raw = [] then Inr False
      else if trim_space raw = ''null'' then Inr False
      else case teEntries env raw of
        Inl err \<Rightarrow> Inl (Wrapped ''credentials must be a JSON object'' err)
      | Inr n \<Rightarrow> Inr (0 < n))"

definition validAIProviders :: "string list" where
  "validAIProviders = [''claude'']"

definition validAuditModes :: "string list" where
  "validAuditModes = [''full'', ''structural_metadata_only'']"

definition defaultAuditMode :: string where
  "defaultAuditMode = ''structural_metadata_only''"

definition validDataHandling :: "string list" where
  "validDataHandling = [''zero_retention'', ''standard_retention'', ''unknown'']"

definition defaultDataHandling :: string where
  "defaultDataHandling = ''unknown''"

definition maxCustomRedactionPatterns :: nat where
  "maxCustomRedactionPatterns = 50"

fun validate_custom :: "tool_env \<Rightarrow> CustomPattern list \<Rightarrow> go_error option" where
  "validate_custom env [] = None"
| "validate_custom env (cp # cps) =
     (if trim_space (cpName cp) = [] then Some (ErrText ''redaction_rules: custom_patterns entry has an empty name'')
      else case teCompile env (cpPattern cp) of
        Inl err \<Rightarrow> Some (Wrapped (''redaction_rules: custom pattern '' @ go_quote (cpName cp) @ '' does not compile'') err)
      | Inr re \<Rightarrow>
        if match_string re []
        then Some (ErrText (''redaction_rules: custom pattern '' @ go_quote (cpName cp)
               @ '' matches the empty string -- refine it to match a real value, not every position''))
        else validate_custom env cps)"

definition validateRedactionRules :: "tool_env \<Rightarrow> string \<Rightarrow> go_error option" where
  "validateRedactionRules env raw =
     (if raw = [] \<or> trim_space raw = ''null'' then None
      else case teRules env raw of
        Inl err \<Rightarrow> Some (Wrapped ''redaction_rules must be a JSON object'' err)
      | Inr cfg \<Rightarrow>
        if maxCustomRedactionPatterns < length (rwCustomPatterns cfg)
        then Some (ErrText (''redaction_rules: at most '' @ show_nat maxCustomRedactionPatterns
               @ '' custom_patterns are allowed, got '' @ show_nat (length (rwCustomPatterns cfg))))
        else validate_custom env (rwCustomPatterns cfg))"

definition allowedActionPathMethods :: "string list" where
  "allowedActionPathMethods = [''GET'', ''POST'', ''PUT'', ''PATCH'', ''DELETE'']"

definition path_method :: "ActionPathMapping \<Rightarrow> string" where
  "path_method e = (let meth = to_upper (trim_space (apMethod e)) in if meth = [] then ''POST'' else meth)"

text \<open>The entries in the order the loop meets them.\<close>

fun validate_paths :: "(string \<times> ActionPathMapping) list \<Rightarrow> (string \<times> ActionPathMapping) list result" where
  "validate_paths [] = Inr []"
| "validate_paths ((action, entry) # es) =
     (if trim_space action = [] then Inl (ErrText ''action_paths: action name cannot be empty'')
      else if trim_space (apPath entry) = [] then Inl (ErrText (''action_paths['' @ action @ '']: path cannot be empty''))
      else if contains_str (apPath entry) ''://''
      then Inl (ErrText (''action_paths['' @ action @ '']: path must be relative to the tool'' @ [CHR 0x27] @ ''s base_url, not a full URL''))
      else if path_method entry \<notin> set allowedActionPathMethods
      then Inl (ErrText (''action_paths['' @ action @ '']: unsupported method '' @ go_quote (apMethod entry)))
      else case validate_paths es of
        Inl err \<Rightarrow> Inl err
      | Inr out \<Rightarrow> Inr ((action, entry\<lparr>apMethod := path_method entry\<rparr>) # out))"

definition validateActionPaths :: "(string \<times> ActionPathMapping) list \<Rightarrow> (string \<times> ActionPathMapping) list option result" where
  "validateActionPaths m =
     (if m = [] then Inr None else case validate_paths m of Inl err \<Rightarrow> Inl err | Inr out \<Rightarrow> Inr (Some out))"

section \<open>The table (tools.sql.go, with the constraints of the schema)\<close>

record tool_row = gateway_tool_row +
  tlMCPCommand :: "string option"
  tlMCPArgs :: "string list option"
  tlStatus :: string
  tlLastUsed :: "time option"
  tlLastTested :: "time option"
  tlLatency :: "int option"
  tlCreatedAt :: time
  tlDataHandlingNote :: "string option"

definition tool_types :: "string list" where
  "tool_types = [''mcp'', ''rest_api'', ''database'', ''ai_provider'']"

definition tool_auth_types :: "string list" where
  "tool_auth_types = [''oauth2'', ''api_key'', ''basic'', ''db_connection_string'']"

definition tool_statuses :: "string list" where
  "tool_statuses = [''connected'', ''degraded'', ''disconnected'']"

text \<open>The \<^verbatim>\<open>CHECK\<close> constraints, and \<^verbatim>\<open>UNIQUE (org_id, name)\<close> against the other rows.\<close>

definition tool_checks :: "tool_row \<Rightarrow> bool" where
  "tool_checks t =
     (gtType t \<in> set tool_types \<and> gtAuthType t \<in> set tool_auth_types \<and> tlStatus t \<in> set tool_statuses
      \<and> gtAuditMode t \<in> set validAuditModes \<and> gtDataHandling t \<in> set validDataHandling)"

definition name_free :: "tool_row list \<Rightarrow> tool_row \<Rightarrow> bool" where
  "name_free rows t = (\<not> list_ex (\<lambda>r. gtID r \<noteq> gtID t \<and> gtOrgID r = gtOrgID t \<and> gtName r = gtName t) rows)"

record CreateToolParams =
  ctOrgID :: uuid
  ctName :: string
  ctType :: string
  ctAuthType :: string
  ctMCPCommand :: "string option"
  ctMCPArgs :: "string list option"
  ctBaseURL :: "string option"
  ctCredentials :: string
  ctActionPaths :: string
  ctProvider :: "string option"
  ctAuditMode :: string
  ctDataHandling :: string
  ctDataHandlingNote :: "string option"
  ctRedactionRules :: string

definition new_tool :: "tool_env \<Rightarrow> uuid \<Rightarrow> time \<Rightarrow> CreateToolParams \<Rightarrow> tool_row" where
  "new_tool env newID now p =
     \<lparr>gtID = newID, gtOrgID = ctOrgID p, gtName = ctName p, gtType = ctType p, gtAuthType = ctAuthType p,
     gtBaseURL = ctBaseURL p, gtCredentialsEncrypted = ctCredentials p,
     gtActionPaths = (if ctActionPaths p = [] then [] else teJsonb env (ctActionPaths p)), gtProvider = ctProvider p,
     gtAuditMode = (if ctAuditMode p = [] then ''structural_metadata_only'' else ctAuditMode p),
     gtDataHandling = (if ctDataHandling p = [] then ''unknown'' else ctDataHandling p),
     gtRedactionRules = (if ctRedactionRules p = [] then [] else teJsonb env (ctRedactionRules p)),
     tlMCPCommand = ctMCPCommand p, tlMCPArgs = ctMCPArgs p, tlStatus = ''connected'', tlLastUsed = None,
     tlLastTested = None, tlLatency = None, tlCreatedAt = now, tlDataHandlingNote = ctDataHandlingNote p\<rparr>"

definition store_CreateTool ::
  "tool_env \<Rightarrow> go_error option \<Rightarrow> uuid \<Rightarrow> time \<Rightarrow> CreateToolParams \<Rightarrow> tool_row list \<Rightarrow> tool_row result \<times> tool_row list" where
  "store_CreateTool env dbErr newID now p rows =
     (case dbErr of
        Some err \<Rightarrow> (Inl err, rows)
      | None \<Rightarrow>
        if tool_checks (new_tool env newID now p) \<and> name_free rows (new_tool env newID now p)
        then (Inr (new_tool env newID now p), rows @ [new_tool env newID now p])
        else (Inl (teConstraint env), rows))"

record UpdateToolParams =
  utName :: "string option"
  utMCPCommand :: "string option"
  utMCPArgs :: "string list option"
  utBaseURL :: "string option"
  utCredentials :: "string option"
  utActionPaths :: "string option"
  utProvider :: "string option"
  utAuditMode :: "string option"
  utDataHandling :: "string option"
  utDataHandlingNote :: "string option"
  utRedactionRules :: "string option"

definition coalesce :: "'a option \<Rightarrow> 'a \<Rightarrow> 'a" where
  "coalesce p old = (case p of None \<Rightarrow> old | Some v \<Rightarrow> v)"

definition coalesce_null :: "'a option \<Rightarrow> 'a option \<Rightarrow> 'a option" where
  "coalesce_null p old = (case p of None \<Rightarrow> old | Some v \<Rightarrow> Some v)"

definition set_tool :: "tool_env \<Rightarrow> UpdateToolParams \<Rightarrow> tool_row \<Rightarrow> tool_row" where
  "set_tool env p t = t\<lparr>gtName := coalesce (utName p) (gtName t), tlMCPCommand := coalesce_null (utMCPCommand p) (tlMCPCommand t),
     tlMCPArgs := coalesce_null (utMCPArgs p) (tlMCPArgs t), gtBaseURL := coalesce_null (utBaseURL p) (gtBaseURL t),
     gtCredentialsEncrypted := coalesce (utCredentials p) (gtCredentialsEncrypted t),
     gtActionPaths := coalesce (map_option (teJsonb env) (utActionPaths p)) (gtActionPaths t),
     gtProvider := coalesce_null (utProvider p) (gtProvider t), gtAuditMode := coalesce (utAuditMode p) (gtAuditMode t),
     gtDataHandling := coalesce (utDataHandling p) (gtDataHandling t),
     tlDataHandlingNote := coalesce_null (utDataHandlingNote p) (tlDataHandlingNote t),
     gtRedactionRules := coalesce (map_option (teJsonb env) (utRedactionRules p)) (gtRedactionRules t)\<rparr>"

definition of_tool :: "uuid \<Rightarrow> uuid \<Rightarrow> tool_row \<Rightarrow> bool" where
  "of_tool orgID toolID t = (gtID t = toolID \<and> gtOrgID t = orgID)"

definition store_UpdateTool ::
  "tool_env \<Rightarrow> go_error option \<Rightarrow> uuid \<Rightarrow> uuid \<Rightarrow> UpdateToolParams \<Rightarrow> tool_row list \<Rightarrow> tool_row result \<times> tool_row list" where
  "store_UpdateTool env dbErr orgID toolID p rows =
     (case dbErr of
        Some err \<Rightarrow> (Inl err, rows)
      | None \<Rightarrow>
        (case List.find (of_tool orgID toolID) rows of
           None \<Rightarrow> (Inl (Sentinel ErrNoRows), rows)
         | Some t \<Rightarrow>
           if tool_checks (set_tool env p t) \<and> name_free rows (set_tool env p t)
           then (Inr (set_tool env p t), map (\<lambda>r. if of_tool orgID toolID r then set_tool env p r else r) rows)
           else (Inl (teConstraint env), rows)))"

definition store_DeleteTool :: "go_error option \<Rightarrow> uuid \<Rightarrow> uuid \<Rightarrow> tool_row list \<Rightarrow> bool result \<times> tool_row list" where
  "store_DeleteTool dbErr orgID toolID rows =
     (case dbErr of
        Some err \<Rightarrow> (Inl err, rows)
      | None \<Rightarrow> (Inr (length (filter (of_tool orgID toolID) rows) = 1), filter (\<lambda>t. \<not> of_tool orgID toolID t) rows))"

definition store_MarkToolTested ::
  "tool_env \<Rightarrow> go_error option \<Rightarrow> time \<Rightarrow> uuid \<Rightarrow> uuid \<Rightarrow> string \<Rightarrow> int \<Rightarrow> tool_row list \<Rightarrow> go_error option \<times> tool_row list" where
  "store_MarkToolTested env dbErr now orgID toolID status latency rows =
     (case dbErr of
        Some err \<Rightarrow> (Some err, rows)
      | None \<Rightarrow>
        if list_ex (of_tool orgID toolID) rows \<and> status \<notin> set tool_statuses then (Some (teConstraint env), rows)
        else (None, map (\<lambda>t. if of_tool orgID toolID t
               then t\<lparr>tlLastTested := Some now, tlStatus := status, tlLatency := Some latency\<rparr> else t) rows))"

definition store_ListTools :: "tool_env \<Rightarrow> go_error option \<Rightarrow> uuid \<Rightarrow> tool_row list \<Rightarrow> tool_row list result" where
  "store_ListTools env dbErr orgID rows =
     (case dbErr of Some err \<Rightarrow> Inl err | None \<Rightarrow> Inr (sort_key (teCollate env \<circ> gtName) (filter (\<lambda>t. gtOrgID t = orgID) rows)))"

section \<open>Answers\<close>

text \<open>The answer has no field for the stored credentials.\<close>

record ToolResp =
  rsID :: uuid
  rsName :: string
  rsType :: string
  rsAuthType :: string
  rsMCPCommand :: "string option"
  rsBaseURL :: "string option"
  rsStatus :: string
  rsLastUsed :: "time option"
  rsCreatedAt :: time
  rsActionPaths :: "(string \<times> ActionPathMapping) list"
  rsProvider :: "string option"
  rsAuditMode :: string
  rsDataHandling :: string
  rsDataHandlingNote :: "string option"
  rsRedactionRules :: string

definition toolToResp :: "tool_env \<Rightarrow> tool_row \<Rightarrow> ToolResp" where
  "toolToResp env t = \<lparr>rsID = gtID t, rsName = gtName t, rsType = gtType t, rsAuthType = gtAuthType t,
     rsMCPCommand = tlMCPCommand t, rsBaseURL = gtBaseURL t, rsStatus = tlStatus t, rsLastUsed = tlLastUsed t,
     rsCreatedAt = tlCreatedAt t, rsActionPaths = (if gtActionPaths t = [] then [] else tePaths env (gtActionPaths t)),
     rsProvider = gtProvider t, rsAuditMode = gtAuditMode t, rsDataHandling = gtDataHandling t,
     rsDataHandlingNote = tlDataHandlingNote t, rsRedactionRules = gtRedactionRules t\<rparr>"

definition bad_request :: "string \<Rightarrow> api_error" where
  "bad_request msg = (400, ''bad_request'', msg)"

definition internal_error :: "string \<Rightarrow> api_error" where
  "internal_error msg = (500, ''internal_error'', msg)"

definition tool_not_found :: api_error where
  "tool_not_found = (404, ''not_found'', ''tool not found'')"

text \<open>The handlers below are those of a server with a database: the answers of a server that
  has none, or that has a test double, are not modelled.\<close>

definition ListTools :: "tool_env \<Rightarrow> go_error option \<Rightarrow> userClaims \<Rightarrow> tool_row list \<Rightarrow> api_error + ToolResp list" where
  "ListTools env dbErr uc rows =
     (case store_ListTools env dbErr (ucOrgID uc) rows of
        Inl err \<Rightarrow> Inl (internal_error (teErrText env err))
      | Inr ts \<Rightarrow> Inr (map (toolToResp env) ts))"

section \<open>Creating a connector\<close>

record tool_create =
  cbName :: string
  cbType :: string
  cbAuthType :: string
  cbMCPCommand :: "string option"
  cbMCPArgs :: "string list option"
  cbBaseURL :: "string option"
  cbCredentials :: string
  cbActionPaths :: "(string \<times> ActionPathMapping) list"
  cbProvider :: "string option"
  cbAuditMode :: "string option"
  cbDataHandling :: "string option"
  cbDataHandlingNote :: "string option"
  cbRedactionRules :: string

definition audit_mode_msg :: string where
  "audit_mode_msg = ''audit_mode must be \"full\" or \"structural_metadata_only\"''"

definition data_handling_msg :: string where
  "data_handling_msg = ''data_handling_designation must be \"zero_retention\", \"standard_retention\", or \"unknown\"''"

definition not_one_of :: "string list \<Rightarrow> string option \<Rightarrow> bool" where
  "not_one_of allowed p = (case p of None \<Rightarrow> False | Some v \<Rightarrow> v \<notin> set allowed)"

text \<open>The checks of the body, up to the first that fails.\<close>

definition create_refusal :: "tool_env \<Rightarrow> tool_create \<Rightarrow> string option" where
  "create_refusal env b =
     (if cbName b = [] \<or> cbType b = [] \<or> cbAuthType b = [] then Some ''name, type, and auth_type are required''
      else if cbType b = ''ai_provider'' \<and> (case cbProvider b of None \<Rightarrow> True | Some p \<Rightarrow> p \<notin> set validAIProviders)
      then Some ''type ai_provider requires a supported provider''
      else if cbType b = ''ai_provider'' \<and> cbAuthType b \<noteq> ''api_key''
      then Some ''type ai_provider requires auth_type \"api_key\"''
      else if cbType b \<noteq> ''ai_provider'' \<and> cbProvider b \<noteq> None
      then Some ''provider can only be set on an ai_provider-type tool''
      else if cbType b \<noteq> ''ai_provider'' \<and> (cbDataHandling b \<noteq> None \<or> cbDataHandlingNote b \<noteq> None)
      then Some ''data_handling_designation/data_handling_note can only be set on an ai_provider-type tool''
      else if cbType b \<noteq> ''ai_provider'' \<and> cbRedactionRules b \<noteq> [] \<and> trim_space (cbRedactionRules b) \<noteq> ''null''
      then Some ''redaction_rules can only be set on an ai_provider-type tool''
      else case validateRedactionRules env (cbRedactionRules b) of
        Some err \<Rightarrow> Some (teErrText env err)
      | None \<Rightarrow>
        if not_one_of validAuditModes (cbAuditMode b) then Some audit_mode_msg
        else if not_one_of validDataHandling (cbDataHandling b) then Some data_handling_msg
        else None)"

definition seal_credentials :: "tool_env \<Rightarrow> bool \<Rightarrow> string \<Rightarrow> api_error + string option" where
  "seal_credentials env hasCredentials raw =
     (if \<not> hasCredentials then Inr None
      else case teEncrypt env of
        None \<Rightarrow> Inl (internal_error ''tool credential encryption is not configured; cannot store credentials'')
      | Some encrypt \<Rightarrow>
        (case encrypt raw of
           Inl _ \<Rightarrow> Inl (internal_error ''failed to encrypt credentials'')
         | Inr blob \<Rightarrow> Inr (Some blob)))"

definition encode_paths :: "tool_env \<Rightarrow> (string \<times> ActionPathMapping) list option \<Rightarrow> api_error + string" where
  "encode_paths env paths =
     (case paths of
        None \<Rightarrow> Inr []
      | Some ps \<Rightarrow> (case teMarshal env ps of Inl _ \<Rightarrow> Inl (internal_error ''failed to encode action_paths'') | Inr j \<Rightarrow> Inr j))"

definition create_params :: "userClaims \<Rightarrow> tool_create \<Rightarrow> string option \<Rightarrow> string \<Rightarrow> CreateToolParams" where
  "create_params uc b encrypted pathsJSON = \<lparr>ctOrgID = ucOrgID uc, ctName = cbName b, ctType = cbType b, ctAuthType = cbAuthType b,
     ctMCPCommand = cbMCPCommand b, ctMCPArgs = cbMCPArgs b, ctBaseURL = cbBaseURL b,
     ctCredentials = coalesce encrypted [], ctActionPaths = pathsJSON, ctProvider = cbProvider b,
     ctAuditMode = coalesce (cbAuditMode b) defaultAuditMode,
     ctDataHandling = coalesce (cbDataHandling b) defaultDataHandling, ctDataHandlingNote = cbDataHandlingNote b,
     ctRedactionRules = cbRedactionRules b\<rparr>"

definition create_plan :: "tool_env \<Rightarrow> userClaims \<Rightarrow> tool_create result \<Rightarrow> api_error + CreateToolParams" where
  "create_plan env uc body =
     (case body of
        Inl _ \<Rightarrow> Inl (bad_request ''invalid JSON'')
      | Inr b \<Rightarrow>
        (case create_refusal env b of
           Some msg \<Rightarrow> Inl (bad_request msg)
         | None \<Rightarrow>
           (case credentialsProvided env (cbCredentials b) of
              Inl err \<Rightarrow> Inl (bad_request (teErrText env err))
            | Inr hasCredentials \<Rightarrow>
              (case validateActionPaths (cbActionPaths b) of
                 Inl err \<Rightarrow> Inl (bad_request (teErrText env err))
               | Inr paths \<Rightarrow>
                 (case encode_paths env paths of
                    Inl e \<Rightarrow> Inl e
                  | Inr pathsJSON \<Rightarrow>
                    (case seal_credentials env hasCredentials (cbCredentials b) of
                       Inl e \<Rightarrow> Inl e
                     | Inr encrypted \<Rightarrow> Inr (create_params uc b encrypted pathsJSON)))))))"

definition CreateTool ::
  "tool_env \<Rightarrow> go_error option \<Rightarrow> uuid \<Rightarrow> time \<Rightarrow> userClaims \<Rightarrow> tool_create result \<Rightarrow> tool_row list
     \<Rightarrow> (api_error + ToolResp) \<times> tool_row list" where
  "CreateTool env dbErr newID now uc body rows =
     (case create_plan env uc body of
        Inl e \<Rightarrow> (Inl e, rows)
      | Inr p \<Rightarrow>
        (case store_CreateTool env dbErr newID now p rows of
           (Inl err, rows) \<Rightarrow> (Inl (internal_error (teErrText env err)), rows)
         | (Inr t, rows) \<Rightarrow> (Inr (toolToResp env t), rows)))"

section \<open>Which fields a non-admin may change (rbac_fields.go)\<close>

definition textEq :: "string \<Rightarrow> string option \<Rightarrow> bool" where
  "textEq p stored = (case stored of None \<Rightarrow> p = [] | Some s \<Rightarrow> p = s)"

definition obj_norm :: "tool_env \<Rightarrow> string \<Rightarrow> (string \<times> json) list" where
  "obj_norm env raw = (if trim_space raw = [] \<or> trim_space raw = ''null'' then [] else teObj env raw)"

definition jsonObjEq :: "tool_env \<Rightarrow> string \<Rightarrow> string \<Rightarrow> bool" where
  "jsonObjEq env a b = (obj_norm env a = obj_norm env b)"

definition rules_norm :: "tool_env \<Rightarrow> string \<Rightarrow> bool \<times> string list \<times> (string \<times> json) list list" where
  "rules_norm env raw =
     (case (if trim_space raw = [] \<or> trim_space raw = ''null'' then (None, [], []) else teRulesAny env raw) of
        (enabled, dp, cp) \<Rightarrow> (enabled \<noteq> Some False, sort dp, cp))"

definition redactionRulesEq :: "tool_env \<Rightarrow> string \<Rightarrow> string \<Rightarrow> bool" where
  "redactionRulesEq env a b = (rules_norm env a = rules_norm env b)"

record toolUpdateFields =
  ufName :: "string option"
  ufMCPCommand :: "string option"
  ufMCPArgs :: "string list option"
  ufBaseURL :: "string option"
  ufHasCredentials :: bool
  ufActionPaths :: "string option"
  ufProvider :: "string option"
  ufAuditMode :: "string option"
  ufDataHandling :: "string option"
  ufRedactionRules :: "string option"

text \<open>A field that is present is cleared when it is unchanged, and restricted otherwise.\<close>

definition check_field :: "('a \<Rightarrow> bool) \<Rightarrow> 'a option \<Rightarrow> 'a option \<times> bool" where
  "check_field unchanged p =
     (case p of None \<Rightarrow> (None, False) | Some v \<Rightarrow> if unchanged v then (None, False) else (Some v, True))"

definition toolAdminOnlyChange :: "tool_env \<Rightarrow> tool_row \<Rightarrow> toolUpdateFields \<Rightarrow> bool \<times> toolUpdateFields" where
  "toolAdminOnlyChange env cur u =
     (let name = check_field (\<lambda>v. v = gtName cur) (ufName u);
          cmd = check_field (\<lambda>v. textEq v (tlMCPCommand cur)) (ufMCPCommand u);
          url = check_field (\<lambda>v. textEq v (gtBaseURL cur)) (ufBaseURL u);
          provider = check_field (\<lambda>v. textEq v (gtProvider cur)) (ufProvider u);
          mode = check_field (\<lambda>v. v = gtAuditMode cur) (ufAuditMode u);
          handling = check_field (\<lambda>v. v = gtDataHandling cur) (ufDataHandling u);
          args = check_field (\<lambda>v. v = coalesce (tlMCPArgs cur) []) (ufMCPArgs u);
          paths = check_field (\<lambda>v. jsonObjEq env v (gtActionPaths cur)) (ufActionPaths u);
          rules = check_field (\<lambda>v. redactionRulesEq env v (gtRedactionRules cur)) (ufRedactionRules u)
      in (ufHasCredentials u \<or> snd name \<or> snd cmd \<or> snd url \<or> snd provider \<or> snd mode \<or> snd handling \<or> snd args
            \<or> snd paths \<or> snd rules,
          \<lparr>ufName = fst name, ufMCPCommand = fst cmd, ufMCPArgs = fst args, ufBaseURL = fst url,
           ufHasCredentials = ufHasCredentials u, ufActionPaths = fst paths, ufProvider = fst provider,
           ufAuditMode = fst mode, ufDataHandling = fst handling, ufRedactionRules = fst rules\<rparr>))"

section \<open>Changing a connector (tools.go)\<close>

record tool_update =
  ubName :: "string option"
  ubMCPCommand :: "string option"
  ubMCPArgs :: "string list option"
  ubBaseURL :: "string option"
  ubCredentials :: string
  ubActionPaths :: "(string \<times> ActionPathMapping) list option"
  ubProvider :: "string option"
  ubAuditMode :: "string option"
  ubDataHandling :: "string option"
  ubDataHandlingNote :: "string option"
  ubRedactionRules :: string

definition nonempty_raw :: "string \<Rightarrow> string option" where
  "nonempty_raw raw = (if raw = [] then None else Some raw)"

definition update_refusal :: "tool_env \<Rightarrow> tool_update \<Rightarrow> string option" where
  "update_refusal env b =
     (if not_one_of validAIProviders (ubProvider b) then Some ''provider is not a supported AI provider''
      else if not_one_of validAuditModes (ubAuditMode b) then Some audit_mode_msg
      else if not_one_of validDataHandling (ubDataHandling b) then Some data_handling_msg
      else case validateRedactionRules env (ubRedactionRules b) of
        Some err \<Rightarrow> Some (teErrText env err)
      | None \<Rightarrow> if ubName b = Some [] then Some ''name cannot be empty'' else None)"

text \<open>What the database answers when it is read: an error, or the row as it is at that moment.\<close>

type_synonym row_read = "go_error option \<times> tool_row list"

definition read_tool :: "row_read \<Rightarrow> uuid \<Rightarrow> uuid \<Rightarrow> tool_row result" where
  "read_tool rd orgID toolID =
     (case rd of
        (Some err, _) \<Rightarrow> Inl err
      | (None, rows) \<Rightarrow> (case List.find (of_tool orgID toolID) rows of None \<Rightarrow> Inl (Sentinel ErrNoRows) | Some t \<Rightarrow> Inr t))"

definition provider_only :: "tool_update \<Rightarrow> bool" where
  "provider_only b = (ubProvider b \<noteq> None \<or> ubAuditMode b \<noteq> None \<or> ubDataHandling b \<noteq> None
     \<or> ubDataHandlingNote b \<noteq> None \<or> ubRedactionRules b \<noteq> [])"

definition type_refusal :: "tool_env \<Rightarrow> row_read \<Rightarrow> uuid \<Rightarrow> uuid \<Rightarrow> tool_update \<Rightarrow> api_error option" where
  "type_refusal env rd orgID toolID b =
     (if \<not> provider_only b then None
      else case read_tool rd orgID toolID of
        Inl err \<Rightarrow> if errors_is ErrNoRows err then Some tool_not_found else Some (internal_error (teErrText env err))
      | Inr t \<Rightarrow>
        if gtType t \<noteq> ''ai_provider''
        then Some (bad_request ''provider/audit_mode/data_handling_designation/data_handling_note/redaction_rules can only be set on an ai_provider-type connector'')
        else None)"

definition update_paths :: "tool_env \<Rightarrow> tool_update \<Rightarrow> api_error + string option" where
  "update_paths env b =
     (case ubActionPaths b of
        None \<Rightarrow> Inr None
      | Some m \<Rightarrow>
        (case validateActionPaths m of
           Inl err \<Rightarrow> Inl (bad_request (teErrText env err))
         | Inr None \<Rightarrow> Inr (Some ''{}'')
         | Inr (Some ps) \<Rightarrow> (case encode_paths env (Some ps) of Inl e \<Rightarrow> Inl e | Inr j \<Rightarrow> Inr (Some j))))"

definition update_fields :: "tool_update \<Rightarrow> bool \<Rightarrow> string option \<Rightarrow> toolUpdateFields" where
  "update_fields b hasCredentials pathsJSON = \<lparr>ufName = ubName b, ufMCPCommand = ubMCPCommand b, ufMCPArgs = ubMCPArgs b,
     ufBaseURL = ubBaseURL b, ufHasCredentials = hasCredentials, ufActionPaths = pathsJSON, ufProvider = ubProvider b,
     ufAuditMode = ubAuditMode b, ufDataHandling = ubDataHandling b, ufRedactionRules = nonempty_raw (ubRedactionRules b)\<rparr>"

text \<open>The role check: the fields that are written, or the answer that ends the request.\<close>

definition role_fields :: "tool_env \<Rightarrow> row_read \<Rightarrow> userClaims \<Rightarrow> uuid \<Rightarrow> toolUpdateFields \<Rightarrow> api_error + toolUpdateFields" where
  "role_fields env rd uc toolID u =
     (if ucRole uc = ''admin'' then Inr u
      else case read_tool rd (ucOrgID uc) toolID of
        Inl err \<Rightarrow> if errors_is ErrNoRows err then Inl tool_not_found else Inl (internal_error ''failed to update tool'')
      | Inr cur \<Rightarrow>
        let change = toolAdminOnlyChange env cur u
        in if fst change then Inl (writeRoleForbidden (ucRole uc)) else Inr (snd change))"

definition update_params :: "toolUpdateFields \<Rightarrow> string option \<Rightarrow> string option \<Rightarrow> UpdateToolParams" where
  "update_params u encrypted note = \<lparr>utName = ufName u, utMCPCommand = ufMCPCommand u, utMCPArgs = ufMCPArgs u,
     utBaseURL = ufBaseURL u, utCredentials = encrypted, utActionPaths = ufActionPaths u, utProvider = ufProvider u,
     utAuditMode = ufAuditMode u, utDataHandling = ufDataHandling u, utDataHandlingNote = note,
     utRedactionRules = ufRedactionRules u\<rparr>"

text \<open>The request reads the row up to twice before it writes: \<open>probe\<close> and \<open>load\<close> are those
  reads, at their own moments. Up to the write it is refused, or has the row and the values
  to write.\<close>

definition update_plan ::
  "tool_env \<Rightarrow> row_read \<Rightarrow> row_read \<Rightarrow> userClaims \<Rightarrow> string \<Rightarrow> tool_update result \<Rightarrow> api_error + uuid \<times> UpdateToolParams" where
  "update_plan env probe load uc raw body =
     (case teParseUUID env raw of
        None \<Rightarrow> Inl (bad_request ''invalid tool ID'')
      | Some toolID \<Rightarrow>
        (case body of
           Inl _ \<Rightarrow> Inl (bad_request ''invalid JSON'')
         | Inr b \<Rightarrow>
           (case update_refusal env b of
              Some msg \<Rightarrow> Inl (bad_request msg)
            | None \<Rightarrow>
              (case type_refusal env probe (ucOrgID uc) toolID b of
                 Some e \<Rightarrow> Inl e
               | None \<Rightarrow>
                 (case credentialsProvided env (ubCredentials b) of
                    Inl err \<Rightarrow> Inl (bad_request (teErrText env err))
                  | Inr hasCredentials \<Rightarrow>
                    (case update_paths env b of
                       Inl e \<Rightarrow> Inl e
                     | Inr pathsJSON \<Rightarrow>
                       (case role_fields env load uc toolID (update_fields b hasCredentials pathsJSON) of
                          Inl e \<Rightarrow> Inl e
                        | Inr u \<Rightarrow>
                          (case seal_credentials env hasCredentials (ubCredentials b) of
                             Inl e \<Rightarrow> Inl e
                           | Inr encrypted \<Rightarrow> Inr (toolID, update_params u encrypted (ubDataHandlingNote b))))))))))"

definition UpdateTool ::
  "tool_env \<Rightarrow> row_read \<Rightarrow> row_read \<Rightarrow> go_error option \<Rightarrow> userClaims \<Rightarrow> string \<Rightarrow> tool_update result \<Rightarrow> tool_row list
     \<Rightarrow> (api_error + ToolResp) \<times> tool_row list" where
  "UpdateTool env probe load dbErr uc raw body rows =
     (case update_plan env probe load uc raw body of
        Inl e \<Rightarrow> (Inl e, rows)
      | Inr (toolID, p) \<Rightarrow>
        (case store_UpdateTool env dbErr (ucOrgID uc) toolID p rows of
           (Inl err, rows) \<Rightarrow>
             (Inl (if errors_is ErrNoRows err then tool_not_found else internal_error (teErrText env err)), rows)
         | (Inr t, rows) \<Rightarrow> (Inr (toolToResp env t), rows)))"

definition DeleteTool ::
  "tool_env \<Rightarrow> go_error option \<Rightarrow> userClaims \<Rightarrow> string \<Rightarrow> tool_row list \<Rightarrow> api_error option \<times> tool_row list" where
  "DeleteTool env dbErr uc raw rows =
     (case teParseUUID env raw of
        None \<Rightarrow> (Some (bad_request ''invalid tool ID''), rows)
      | Some toolID \<Rightarrow>
        (case store_DeleteTool dbErr (ucOrgID uc) toolID rows of
           (Inl err, rows) \<Rightarrow> (Some (internal_error (teErrText env err)), rows)
         | (Inr found, rows) \<Rightarrow> (if found then None else Some tool_not_found, rows)))"

section \<open>The connectivity test (tool_connectivity.go)\<close>

record toolTestOutcome =
  ttConnected :: bool
  ttReason :: string
  ttDetail :: string

definition failed_test :: "string \<Rightarrow> string \<Rightarrow> toolTestOutcome" where
  "failed_test reason detail = \<lparr>ttConnected = False, ttReason = reason, ttDetail = detail\<rparr>"

definition passed_test :: toolTestOutcome where
  "passed_test = \<lparr>ttConnected = True, ttReason = [], ttDetail = []\<rparr>"

definition dbStatus :: "toolTestOutcome \<Rightarrow> string" where
  "dbStatus o' = (if ttConnected o' then ''connected'' else if ttReason o' = ''auth-failed'' then ''degraded'' else ''disconnected'')"

definition errorMessage :: "toolTestOutcome \<Rightarrow> string option" where
  "errorMessage o' =
     (if ttConnected o' then None
      else Some (if ttDetail o' \<noteq> [] then ttReason o' @ '': '' @ ttDetail o' else ttReason o'))"

text \<open>The network as the tests see it: building and sending a GET request with an
  Authorization header, and connecting to a database; \<open>pvTimeout\<close> says that an error is a
  network timeout, \<open>pvSQLState\<close> gives the SQLSTATE of an error of the server.\<close>

record probe_env =
  pvDecrypt :: "(string \<Rightarrow> string result) option"
  pvCreds :: "string \<Rightarrow> ToolCredentials option"
  pvNewRequest :: "string \<Rightarrow> go_error option"
  pvBasicAuth :: "string \<Rightarrow> string \<Rightarrow> string"
  pvGet :: "string \<Rightarrow> string option \<Rightarrow> int result"
  pvParseDSN :: "string \<Rightarrow> go_error option"
  pvConnect :: "string \<Rightarrow> go_error option"
  pvTimeout :: "go_error \<Rightarrow> bool"
  pvSQLState :: "go_error \<Rightarrow> string option"

definition classifyHTTPError :: "probe_env \<Rightarrow> go_error \<Rightarrow> string" where
  "classifyHTTPError pv err =
     (if errors_is ErrDeadlineExceeded err then ''timed out'' else if pvTimeout pv err then ''timed out'' else ''connection failed'')"

definition testRESTTool :: "probe_env \<Rightarrow> string option \<Rightarrow> string \<Rightarrow> ToolCredentials \<Rightarrow> toolTestOutcome" where
  "testRESTTool pv baseURL authType creds =
     (case baseURL of
        None \<Rightarrow> failed_test ''misconfigured'' ''base_url is not set''
      | Some url \<Rightarrow>
        if url = [] then failed_test ''misconfigured'' ''base_url is not set''
        else if authType = ''basic''
        then failed_test ''misconfigured'' ''auth_type is basic, but the stored credentials shape has no username/password fields''
        else if pvNewRequest pv url \<noteq> None then failed_test ''misconfigured'' ''base_url is not a valid request URL''
        else let auth = (if kAPIKey creds \<noteq> [] then Some (''Bearer '' @ kAPIKey creds)
                         else if kOAuthClientID creds \<noteq> [] \<and> kOAuthClientSecret creds \<noteq> []
                         then Some (pvBasicAuth pv (kOAuthClientID creds) (kOAuthClientSecret creds)) else None)
             in case pvGet pv url auth of
                  Inl err \<Rightarrow> failed_test ''unreachable'' (classifyHTTPError pv err)
                | Inr status \<Rightarrow>
                  if status = 401 \<or> status = 403 then failed_test ''auth-failed'' (''remote returned HTTP '' @ show_int status)
                  else passed_test)"

definition classifyPgConnectError :: "probe_env \<Rightarrow> go_error \<Rightarrow> string \<times> string" where
  "classifyPgConnectError pv err =
     (case pvSQLState pv err of
        Some code \<Rightarrow> if has_prefix code ''28'' then (''auth-failed'', ''database rejected the credentials'')
                     else (''unreachable'', ''database returned an error'')
      | None \<Rightarrow> (''unreachable'', classifyHTTPError pv err))"

definition testDatabaseTool :: "probe_env \<Rightarrow> string \<Rightarrow> toolTestOutcome" where
  "testDatabaseTool pv dsn =
     (if dsn = [] then failed_test ''misconfigured'' ''connection_string is not set''
      else if pvParseDSN pv dsn \<noteq> None then failed_test ''misconfigured'' ''connection_string could not be parsed''
      else case pvConnect pv dsn of
        Some err \<Rightarrow> (case classifyPgConnectError pv err of (reason, detail) \<Rightarrow> failed_test reason detail)
      | None \<Rightarrow> passed_test)"

definition test_creds :: "probe_env \<Rightarrow> string \<Rightarrow> toolTestOutcome + ToolCredentials" where
  "test_creds pv blob =
     (if blob = [] then Inr \<lparr>kAPIKey = [], kOAuthClientID = [], kOAuthClientSecret = [], kConnectionString = []\<rparr>
      else case pvDecrypt pv of
        None \<Rightarrow> Inl (failed_test ''misconfigured'' ''stored credentials cannot be decrypted (encryption not configured)'')
      | Some decrypt \<Rightarrow>
        (case decrypt blob of
           Inl _ \<Rightarrow> Inl (failed_test ''misconfigured'' ''stored credentials could not be decrypted'')
         | Inr plaintext \<Rightarrow>
           (case pvCreds pv plaintext of
              None \<Rightarrow> Inl (failed_test ''misconfigured'' ''stored credentials are not in the expected shape'')
            | Some creds \<Rightarrow> Inr creds)))"

definition testToolConnectivityWithDialer :: "probe_env \<Rightarrow> tool_row \<Rightarrow> toolTestOutcome" where
  "testToolConnectivityWithDialer pv t =
     (case test_creds pv (gtCredentialsEncrypted t) of
        Inl o' \<Rightarrow> o'
      | Inr creds \<Rightarrow>
        if gtType t = ''rest_api'' then testRESTTool pv (gtBaseURL t) (gtAuthType t) creds
        else if gtType t = ''database'' then testDatabaseTool pv (kConnectionString creds)
        else if gtType t = ''mcp''
        then failed_test ''misconfigured'' ''MCP tools run as a local subprocess on the gateway host; connectivity cannot be tested from the SaaS API''
        else if gtType t = ''ai_provider''
        then failed_test ''misconfigured'' ''connectivity testing for ai_provider connectors is not implemented; use a real dispatched call to verify''
        else failed_test ''misconfigured'' (''unknown tool type '' @ go_quote (gtType t)))"

text \<open>The row is read, tested for \<open>latency\<close> milliseconds, and marked in the table as it then is.\<close>

definition TestTool ::
  "tool_env \<Rightarrow> probe_env \<Rightarrow> row_read \<Rightarrow> go_error option \<Rightarrow> time \<Rightarrow> int \<Rightarrow> userClaims \<Rightarrow> string \<Rightarrow> tool_row list
     \<Rightarrow> (api_error + bool \<times> int \<times> string option) \<times> tool_row list" where
  "TestTool env pv rd dbErr now latency uc raw rows =
     (case teParseUUID env raw of
        None \<Rightarrow> (Inl (bad_request ''invalid tool ID''), rows)
      | Some toolID \<Rightarrow>
        (case read_tool rd (ucOrgID uc) toolID of
           Inl err \<Rightarrow> (Inl (if errors_is ErrNoRows err then tool_not_found else internal_error (teErrText env err)), rows)
         | Inr t \<Rightarrow>
           let o' = testToolConnectivityWithDialer pv t in
           case store_MarkToolTested env dbErr now (ucOrgID uc) toolID (dbStatus o') latency rows of
             (Some err, rows) \<Rightarrow> (Inl (internal_error (teErrText env err)), rows)
           | (None, rows) \<Rightarrow> (Inr (ttConnected o', latency, errorMessage o'), rows)))"

section \<open>What is accepted is what the gateway can use\<close>

lemma validate_custom_agrees: "validate_custom env cps = None \<longleftrightarrow> check_custom (teCompile env) cps = None"
  by (induction cps) (auto split: sum.splits)

lemma validation_parses:
  "validateRedactionRules env raw = None \<longleftrightarrow> (\<exists>cfg. ParseConfig (teRules env) (teCompile env) raw = Inr cfg)"
  by (auto simp: validateRedactionRules_def ParseConfig_def Let_def maxCustomRedactionPatterns_def MaxCustomPatterns_def
      validate_custom_agrees split: sum.splits option.splits)

text \<open>C27: The admin API and the gateway agree on redaction rules: \<^verbatim>\<open>validateRedactionRules\<close>
  accepts a submitted value exactly when \<^verbatim>\<open>redaction.ParseConfig\<close>, which the gateway runs on
  every call to the connector, succeeds on it.\<close>

theorem rules_validation_agrees:
  "validateRedactionRules env raw = None \<longleftrightarrow> (\<exists>cfg. ParseConfig (teRules env) (teCompile env) raw = Inr cfg)"
  by (rule validation_parses)

text \<open>Credentials that the API sealed are opened by the gateway, for an authenticated cipher
  whose nonces have the length both sides use.\<close>

lemma sealed_credentials_open:
  assumes "length nonce = heNonceSize env" and "heOpen env nonce (seal nonce plaintext) = Inr plaintext"
  shows "\<exists>blob. creds_Encrypt seal (Inr nonce) plaintext = Inr blob \<and> Decrypt env blob = Inr plaintext
     \<and> creds_Decrypt (heNonceSize env) (heOpen env) blob = Inr plaintext"
  using assms by (simp add: creds_Encrypt_def Decrypt_def creds_Decrypt_def)

section \<open>What a non-admin can change\<close>

lemma check_field_simps [simp]:
  "check_field q None = (None, False)"
  "snd (check_field q p) \<longleftrightarrow> fst (check_field q p) \<noteq> None"
  by (auto simp: check_field_def split: option.splits)

lemma check_field_le: "fst (check_field q p) = None \<or> fst (check_field q p) = p"
  by (simp add: check_field_def split: option.split)

text \<open>Of the fields of a request, the role check keeps some; for a non-admin it keeps none.\<close>

definition keeps_fields :: "toolUpdateFields \<Rightarrow> toolUpdateFields \<Rightarrow> bool" where
  "keeps_fields u0 u = (ufName u \<in> {None, ufName u0} \<and> ufProvider u \<in> {None, ufProvider u0} \<and> ufAuditMode u \<in> {None, ufAuditMode u0}
     \<and> ufDataHandling u \<in> {None, ufDataHandling u0} \<and> ufRedactionRules u \<in> {None, ufRedactionRules u0})"

lemma role_fields_cases:
  assumes "role_fields env rd uc toolID u0 = Inr u"
  obtains "ucRole uc = ''admin''" "u = u0"
  | cur where "fst (toolAdminOnlyChange env cur u0) = False" "u = snd (toolAdminOnlyChange env cur u0)"
proof (cases "ucRole uc = ''admin''")
  case True
  with assms that(1) show thesis by (simp add: role_fields_def)
next
  case False
  with assms obtain cur where "read_tool rd (ucOrgID uc) toolID = Inr cur"
    by (cases "read_tool rd (ucOrgID uc) toolID") (simp_all add: role_fields_def split: if_splits)
  with assms False that(2) [of cur] show thesis by (simp add: role_fields_def Let_def split: if_splits)
qed

lemma role_fields_keeps:
  assumes "role_fields env rd uc toolID u0 = Inr u"
  shows "keeps_fields u0 u"
proof (cases rule: role_fields_cases [OF assms])
  case 1
  then show ?thesis by (simp add: keeps_fields_def)
next
  case (2 cur)
  show ?thesis unfolding 2(2) toolAdminOnlyChange_def Let_def keeps_fields_def
    by (simp add: check_field_le)
qed

lemma role_fields_operator:
  assumes "role_fields env rd uc toolID u0 = Inr u" and "ucRole uc \<noteq> ''admin''"
  shows "u = \<lparr>ufName = None, ufMCPCommand = None, ufMCPArgs = None, ufBaseURL = None, ufHasCredentials = False,
    ufActionPaths = None, ufProvider = None, ufAuditMode = None, ufDataHandling = None, ufRedactionRules = None\<rparr>
    \<and> \<not> ufHasCredentials u0"
proof (cases rule: role_fields_cases [OF assms(1)])
  case 1
  with assms show ?thesis by simp
next
  case (2 cur)
  have none: "fst (toolAdminOnlyChange env cur u0) = False" by (rule 2(1))
  show ?thesis using none unfolding 2(2) toolAdminOnlyChange_def Let_def by simp
qed

lemma update_plan_cases:
  assumes "update_plan env probe load uc raw body = Inr (toolID, p)"
  obtains b has pathsJSON u encrypted where
    "teParseUUID env raw = Some toolID" "body = Inr b" "update_refusal env b = None"
    "type_refusal env probe (ucOrgID uc) toolID b = None"
    "role_fields env load uc toolID (update_fields b has pathsJSON) = Inr u"
    "seal_credentials env has (ubCredentials b) = Inr encrypted"
    "p = update_params u encrypted (ubDataHandlingNote b)"
  using assms unfolding update_plan_def
  by (simp split: option.splits sum.splits)

lemma UpdateTool_cases:
  obtains (refused) e where "UpdateTool env probe load dbErr uc raw body rows = (Inl e, rows)"
  | (written) toolID p t where
      "update_plan env probe load uc raw body = Inr (toolID, p)"
      "List.find (of_tool (ucOrgID uc) toolID) rows = Some t"
      "tool_checks (set_tool env p t)" "name_free rows (set_tool env p t)"
      "UpdateTool env probe load dbErr uc raw body rows =
        (Inr (toolToResp env (set_tool env p t)), map (\<lambda>r. if of_tool (ucOrgID uc) toolID r then set_tool env p r else r) rows)"
proof (cases "update_plan env probe load uc raw body")
  case (Inl e)
  then show thesis by (intro refused [of e]) (simp add: UpdateTool_def)
next
  case (Inr x)
  obtain toolID p where x: "x = (toolID, p)" by (cases x)
  show thesis
  proof (cases "fst (store_UpdateTool env dbErr (ucOrgID uc) toolID p rows)")
    case (Inl err)
    then have "store_UpdateTool env dbErr (ucOrgID uc) toolID p rows = (Inl err, rows)"
      by (auto simp: store_UpdateTool_def split: option.splits if_splits)
    then show thesis using Inr x by (intro refused) (simp add: UpdateTool_def)
  next
    case (Inr t')
    then obtain t where "List.find (of_tool (ucOrgID uc) toolID) rows = Some t" "tool_checks (set_tool env p t)"
      "name_free rows (set_tool env p t)"
      "store_UpdateTool env dbErr (ucOrgID uc) toolID p rows =
        (Inr (set_tool env p t), map (\<lambda>r. if of_tool (ucOrgID uc) toolID r then set_tool env p r else r) rows)"
      by (auto simp: store_UpdateTool_def split: option.splits if_splits)
    then show thesis using \<open>update_plan env probe load uc raw body = Inr x\<close> x
      by (intro written [of toolID p t]) (simp_all add: UpdateTool_def)
  qed
qed

text \<open>C17: A user who is not an admin changes at most the data-handling note of a connector of
  the own organisation. Whatever such a user sends to \<^verbatim>\<open>PATCH /v1/gateway/tools/{toolId}\<close>, and
  however the table changes between the reads of the request and its update, every row keeps
  all other columns as they are at the update.\<close>

theorem operator_writes_note_only:
  assumes "ucRole uc \<noteq> ''admin''" and "UpdateTool env probe load dbErr uc raw body rows = (ans, rows')"
  shows "\<exists>note. rows' = map (\<lambda>t. if teParseUUID env raw = Some (gtID t) \<and> gtOrgID t = ucOrgID uc
      then t\<lparr>tlDataHandlingNote := note t\<rparr> else t) rows"
proof (cases rule: UpdateTool_cases [of env probe load dbErr uc raw body rows])
  case (refused e)
  have "map (\<lambda>t. if teParseUUID env raw = Some (gtID t) \<and> gtOrgID t = ucOrgID uc
      then t\<lparr>tlDataHandlingNote := tlDataHandlingNote t\<rparr> else t) rows = rows"
    by (rule map_idI) simp
  with refused assms(2) show ?thesis by (intro exI [of _ tlDataHandlingNote]) simp
next
  case (written toolID p t)
  obtain b has pathsJSON u encrypted where i: "teParseUUID env raw = Some toolID"
    and r: "role_fields env load uc toolID (update_fields b has pathsJSON) = Inr u"
    and s: "seal_credentials env has (ubCredentials b) = Inr encrypted"
    and p: "p = update_params u encrypted (ubDataHandlingNote b)"
    using update_plan_cases [OF written(1)] by metis
  have "\<not> has" using role_fields_operator [OF r assms(1)] by (simp add: update_fields_def)
  with s have "encrypted = None" by (simp add: seal_credentials_def)
  then have "set_tool env p r = r\<lparr>tlDataHandlingNote := coalesce_null (ubDataHandlingNote b) (tlDataHandlingNote r)\<rparr>" for r
    using role_fields_operator [OF r assms(1)] by (simp add: p set_tool_def update_params_def coalesce_def coalesce_null_def)
  then show ?thesis
    using written(5) assms(2) i
    by (intro exI [of _ "\<lambda>t. coalesce_null (ubDataHandlingNote b) (tlDataHandlingNote t)"]) (auto simp: of_tool_def)
qed

definition sample_tool_env :: tool_env where
  "sample_tool_env = \<lparr>teRules = (\<lambda>_. Inr \<lparr>rwEnabled = None, rwDisabledPatterns = [], rwCustomPatterns = []\<rparr>),
     teCompile = (\<lambda>_. Inl (ErrText ''no regexp'')), teRulesAny = (\<lambda>_. (None, [], [])), teObj = (\<lambda>_. []),
     teEntries = (\<lambda>_. Inr 1), teMarshal = (\<lambda>_. Inr ''{}''), tePaths = (\<lambda>_. []), teEncrypt = None,
     teJsonb = (\<lambda>raw. raw), teCollate = (\<lambda>n. n), teParseUUID = Some, teErrText = (\<lambda>_. ''error''),
     teConstraint = ErrText ''constraint''\<rparr>"

definition sample_connector :: tool_row where
  "sample_connector = \<lparr>gtID = ''t1'', gtOrgID = ''o1'', gtName = ''claude'', gtType = ''ai_provider'', gtAuthType = ''api_key'',
     gtBaseURL = None, gtCredentialsEncrypted = [], gtActionPaths = [], gtProvider = Some ''claude'', gtAuditMode = ''full'',
     gtDataHandling = ''unknown'', gtRedactionRules = [], tlMCPCommand = None, tlMCPArgs = None, tlStatus = ''connected'',
     tlLastUsed = None, tlLastTested = None, tlLatency = None, tlCreatedAt = 1, tlDataHandlingNote = None\<rparr>"

definition sample_update :: "string option \<Rightarrow> tool_update" where
  "sample_update name = \<lparr>ubName = name, ubMCPCommand = None, ubMCPArgs = None, ubBaseURL = None, ubCredentials = [],
     ubActionPaths = None, ubProvider = None, ubAuditMode = None, ubDataHandling = None,
     ubDataHandlingNote = Some ''agreed'', ubRedactionRules = []\<rparr>"

definition sample_user :: "string \<Rightarrow> userClaims" where
  "sample_user role = \<lparr>ucUserID = ''u1'', ucOrgID = ''o1'', ucEmail = ''a@x'', ucRole = role\<rparr>"

lemma sample_update_runs:
  "UpdateTool sample_tool_env (None, [sample_connector]) (None, [sample_connector]) None (sample_user ''operator'') ''t1''
     (Inr (sample_update (Some ''claude''))) [sample_connector]
   = (Inr (toolToResp sample_tool_env (sample_connector\<lparr>tlDataHandlingNote := Some ''agreed''\<rparr>)),
      [sample_connector\<lparr>tlDataHandlingNote := Some ''agreed''\<rparr>])"
  by code_simp

lemma sample_rename_refused:
  "UpdateTool sample_tool_env (None, [sample_connector]) (None, [sample_connector]) None (sample_user ''operator'') ''t1''
     (Inr (sample_update (Some ''other''))) [sample_connector]
   = (Inl (writeRoleForbidden ''operator''), [sample_connector])"
  by code_simp

theorem operator_writes_note_only_witness:
  "\<exists>note. [sample_connector\<lparr>tlDataHandlingNote := Some ''agreed''\<rparr>]
     = map (\<lambda>t. if teParseUUID sample_tool_env ''t1'' = Some (gtID t) \<and> gtOrgID t = ucOrgID (sample_user ''operator'')
         then t\<lparr>tlDataHandlingNote := note t\<rparr> else t) [sample_connector]"
  by (rule operator_writes_note_only [OF _ sample_update_runs]) (simp add: sample_user_def)

section \<open>Well-formed connectors\<close>

text \<open>The rules column of a row: empty, or what the database gives back for a text that the API
  accepted.\<close>

definition stored_from :: "tool_env \<Rightarrow> tool_row \<Rightarrow> string \<Rightarrow> bool" where
  "stored_from env t raw =
     (validateRedactionRules env raw = None \<and> gtRedactionRules t = (if raw = [] then [] else teJsonb env raw))"

text \<open>What the rows of the table satisfy: the constraints of the schema, and what only the
  handlers ensure. A provider connector names a supported provider and uses an API key; any
  other connector has no provider, note, designation or rules; all rules come from accepted ones.\<close>

definition tool_ok :: "tool_env \<Rightarrow> tool_row \<Rightarrow> bool" where
  "tool_ok env t =
     (tool_checks t \<and> gtName t \<noteq> [] \<and>
      (\<exists>raw. stored_from env t raw \<and> (gtType t \<noteq> ''ai_provider'' \<longrightarrow> raw = [] \<or> trim_space raw = ''null'')) \<and>
      (if gtType t = ''ai_provider'' then (\<exists>p\<in>set validAIProviders. gtProvider t = Some p) \<and> gtAuthType t = ''api_key''
       else gtProvider t = None \<and> tlDataHandlingNote t = None \<and> gtDataHandling t = defaultDataHandling))"

definition tools_ok :: "tool_env \<Rightarrow> tool_row list \<Rightarrow> bool" where
  "tools_ok env rows = ((\<forall>t\<in>set rows. tool_ok env t) \<and> distinct (map gtID rows) \<and> distinct (map (\<lambda>t. (gtOrgID t, gtName t)) rows))"

text \<open>The database stores the value of a text, not the text; whether the decoder of the rules reads
  the same from the text it gives back.\<close>

definition same_meaning :: "tool_env \<Rightarrow> string \<Rightarrow> bool" where
  "same_meaning env raw = (raw \<noteq> [] \<longrightarrow> teJsonb env raw \<noteq> [] \<and> teRules env (teJsonb env raw) = teRules env raw
     \<and> (trim_space (teJsonb env raw) = ''null'' \<longleftrightarrow> trim_space raw = ''null''))"

lemma rules_stored:
  assumes "stored_from env t raw" and "same_meaning env raw"
  shows "validateRedactionRules env (gtRedactionRules t) = None"
proof (cases "raw = []")
  case True then show ?thesis using assms(1) by (simp add: stored_from_def validateRedactionRules_def)
next
  case False
  then show ?thesis using assms
    by (cases "trim_space raw = ''null''") (simp_all add: stored_from_def same_meaning_def validateRedactionRules_def)
qed

text \<open>It does for an object whose keys differ after the decoder's case folding: \<open>jsonb_object\<close> keeps
  the last value of equal keys and orders the keys by length and bytes, and the decoder
  assigns a field from the last key that matches it up to case.\<close>

fun last_values :: "(string \<times> 'a) list \<Rightarrow> (string \<times> 'a) list" where
  "last_values [] = []"
| "last_values ((k, v) # kvs) = (if k \<in> fst ` set kvs then last_values kvs else (k, v) # last_values kvs)"

definition jsonb_object :: "(string \<times> 'a) list \<Rightarrow> (string \<times> 'a) list" where
  "jsonb_object kvs = sort_key (\<lambda>(k, _). length k) (sort_key (\<lambda>(k, _). map of_char k :: nat list) (last_values kvs))"

definition decoded_field :: "(string \<Rightarrow> string) \<Rightarrow> string \<Rightarrow> (string \<times> 'a) list \<Rightarrow> 'a option" where
  "decoded_field casefold name kvs = map_option snd (List.find (\<lambda>(k, _). casefold k = casefold name) (rev kvs))"

lemma find_unique:
  assumes "distinct (map f xs)" "set ys = set xs"
  shows "List.find (\<lambda>x. f x = y) ys = List.find (\<lambda>x. f x = y) xs"
proof -
  have one: "List.find (\<lambda>x. f x = y) zs = (if \<exists>x\<in>set xs. f x = y then Some (THE x. x \<in> set xs \<and> f x = y) else None)"
    if "set zs = set xs" for zs
  proof (cases "List.find (\<lambda>x. f x = y) zs")
    case None then show ?thesis using that by (auto simp: find_None_iff)
  next
    case (Some x)
    then have x: "x \<in> set xs" "f x = y" using that by (auto simp: find_Some_iff)
    then have "(THE x. x \<in> set xs \<and> f x = y) = x"
      by (intro the_equality) (use assms(1) in \<open>auto simp: distinct_map inj_on_def\<close>)
    with Some x show ?thesis by auto
  qed
  show ?thesis using one [OF assms(2)] one [of xs] by simp
qed

lemma last_values_distinct: "distinct (map fst kvs) \<Longrightarrow> last_values kvs = kvs"
  by (induction kvs rule: last_values.induct) (auto simp: image_iff)

lemma jsonb_keeps_fields:
  assumes "distinct (map (casefold \<circ> fst) kvs)"
  shows "decoded_field casefold name (jsonb_object kvs) = decoded_field casefold name kvs"
proof -
  have "distinct (map fst kvs)" using assms by (auto simp: distinct_map inj_on_def)
  then have "set (rev (jsonb_object kvs)) = set (rev kvs)" by (simp add: jsonb_object_def last_values_distinct)
  moreover have "distinct (map (\<lambda>kv. casefold (fst kv)) (rev kvs))" using assms by (simp add: rev_map [symmetric] comp_def)
  ultimately show ?thesis
    using find_unique [of "\<lambda>kv. casefold (fst kv)" "rev kvs" "rev (jsonb_object kvs)" "casefold name"]
    by (simp add: decoded_field_def split_def)
qed

text \<open>For two keys that differ only in case the stored object decodes to the other value: an API
  that has accepted \<open>b\<close> stores rules that the gateway reads as \<open>a\<close>.\<close>

lemma jsonb_swaps_fields:
  assumes "casefold ''CUSTOM_PATTERNS'' = casefold ''custom_patterns''"
  shows "decoded_field casefold ''custom_patterns'' [(''custom_patterns'', a), (''CUSTOM_PATTERNS'', b)] = Some b"
    and "decoded_field casefold ''custom_patterns'' (jsonb_object [(''custom_patterns'', a), (''CUSTOM_PATTERNS'', b)]) = Some a"
  using assms by (simp_all add: decoded_field_def jsonb_object_def)

lemma create_refusal_None:
  assumes "create_refusal env b = None"
  shows "cbName b \<noteq> []" "validateRedactionRules env (cbRedactionRules b) = None"
    "cbType b = ''ai_provider'' \<Longrightarrow> (\<exists>p\<in>set validAIProviders. cbProvider b = Some p) \<and> cbAuthType b = ''api_key''"
    "cbType b \<noteq> ''ai_provider'' \<Longrightarrow> cbProvider b = None \<and> cbDataHandlingNote b = None \<and> cbDataHandling b = None
       \<and> (cbRedactionRules b = [] \<or> trim_space (cbRedactionRules b) = ''null'')"
    "cbAuditMode b \<noteq> Some []" "cbDataHandling b \<noteq> Some []"
  using assms by (auto simp: create_refusal_def not_one_of_def validAuditModes_def validDataHandling_def
      split: if_splits option.splits)

lemma CreateTool_cases:
  obtains (refused) e where "CreateTool env dbErr newID now uc body rows = (Inl e, rows)"
  | (written) b encrypted pathsJSON t where "create_refusal env b = None" "t = new_tool env newID now (create_params uc b encrypted pathsJSON)"
      "tool_checks t" "name_free rows t" "CreateTool env dbErr newID now uc body rows = (Inr (toolToResp env t), rows @ [t])"
proof (cases "create_plan env uc body")
  case (Inl e)
  then show thesis by (intro refused [of e]) (simp add: CreateTool_def)
next
  case (Inr p)
  then obtain b encrypted pathsJSON where b: "create_refusal env b = None" and p: "p = create_params uc b encrypted pathsJSON"
    unfolding create_plan_def by (simp split: option.splits sum.splits) metis
  show thesis
  proof (cases "dbErr = None \<and> tool_checks (new_tool env newID now p) \<and> name_free rows (new_tool env newID now p)")
    case True
    with Inr show thesis
      by (intro written [of b "new_tool env newID now p" encrypted pathsJSON]) (simp_all add: b p CreateTool_def store_CreateTool_def)
  next
    case False
    with Inr show thesis
      by (cases dbErr) (auto intro!: refused simp: CreateTool_def store_CreateTool_def)
  qed
qed

lemma new_tool_ok:
  assumes "create_refusal env b = None"
    and "t = new_tool env newID now (create_params uc b encrypted pathsJSON)" and "tool_checks t"
  shows "tool_ok env t"
proof -
  note b = create_refusal_None [OF assms(1)]
  have rules: "stored_from env t (cbRedactionRules b)"
    using b(2) by (simp add: stored_from_def assms(2) new_tool_def create_params_def)
  have fields: "gtName t = cbName b" "gtType t = cbType b" "gtAuthType t = cbAuthType b" "gtProvider t = cbProvider b"
    "tlDataHandlingNote t = cbDataHandlingNote b"
    by (simp_all add: assms(2) new_tool_def create_params_def)
  have "gtDataHandling t = defaultDataHandling" if "cbType b \<noteq> ''ai_provider''"
    using b(4) [OF that] by (simp add: assms(2) new_tool_def create_params_def coalesce_def defaultDataHandling_def)
  moreover have "\<exists>raw. stored_from env t raw \<and> (cbType b \<noteq> ''ai_provider'' \<longrightarrow> raw = [] \<or> trim_space raw = ''null'')"
    by (rule exI [of _ "cbRedactionRules b"]) (use rules b(4) in auto)
  ultimately show ?thesis using assms(3) b(1,3,4) by (simp add: tool_ok_def fields)
qed

lemma update_refusal_None:
  assumes "update_refusal env b = None"
  shows "ubName b \<noteq> Some []" "validateRedactionRules env (ubRedactionRules b) = None" "\<not> not_one_of validAIProviders (ubProvider b)"
  using assms by (auto simp: update_refusal_def split: if_splits option.splits)

text \<open>The type of a row never changes and ids are not reused, so an earlier read of a row shows
  its type.\<close>

definition same_types :: "tool_row list \<Rightarrow> tool_row list \<Rightarrow> bool" where
  "same_types early rows = (\<forall>a\<in>set early. \<forall>t\<in>set rows. gtID a = gtID t \<longrightarrow> gtType a = gtType t)"

lemma type_refusal_None:
  assumes "type_refusal env probe orgID toolID b = None" and "provider_only b"
  obtains a where "a \<in> set (snd probe)" "gtID a = toolID" "gtType a = ''ai_provider''"
proof -
  from assms obtain a where "read_tool probe orgID toolID = Inr a" "gtType a = ''ai_provider''"
    by (auto simp: type_refusal_def split: sum.splits if_splits)
  then show thesis
    using that [of a] by (auto simp: read_tool_def of_tool_def find_Some_iff split: prod.splits option.splits)
qed

lemma set_tool_ok:
  assumes plan: "update_plan env probe load uc raw body = Inr (toolID, p)"
    and types: "\<And>a. a \<in> set (snd probe) \<Longrightarrow> gtID a = toolID \<Longrightarrow> gtType a = gtType t"
    and t: "tool_ok env t" and checks: "tool_checks (set_tool env p t)"
  shows "tool_ok env (set_tool env p t)"
proof -
  obtain b has pathsJSON u encrypted where ref: "update_refusal env b = None"
    and tref: "type_refusal env probe (ucOrgID uc) toolID b = None"
    and role: "role_fields env load uc toolID (update_fields b has pathsJSON) = Inr u"
    and p: "p = update_params u encrypted (ubDataHandlingNote b)"
    using update_plan_cases [OF plan] by metis
  note b = update_refusal_None [OF ref]
  have le: "utName p \<in> {None, ubName b}" "utProvider p \<in> {None, ubProvider b}" "utDataHandling p \<in> {None, ubDataHandling b}"
    "utRedactionRules p \<in> {None, nonempty_raw (ubRedactionRules b)}" "utDataHandlingNote p = ubDataHandlingNote b"
    using role_fields_keeps [OF role] by (simp_all add: keeps_fields_def p update_params_def update_fields_def)
  have fields: "gtType (set_tool env p t) = gtType t" "gtAuthType (set_tool env p t) = gtAuthType t"
    "gtName (set_tool env p t) = coalesce (utName p) (gtName t)"
    "gtProvider (set_tool env p t) = coalesce_null (utProvider p) (gtProvider t)"
    "gtDataHandling (set_tool env p t) = coalesce (utDataHandling p) (gtDataHandling t)"
    "tlDataHandlingNote (set_tool env p t) = coalesce_null (utDataHandlingNote p) (tlDataHandlingNote t)"
    "gtRedactionRules (set_tool env p t) = coalesce (map_option (teJsonb env) (utRedactionRules p)) (gtRedactionRules t)"
    by (simp_all add: set_tool_def)
  have name: "gtName (set_tool env p t) \<noteq> []"
    using le(1) b(1) t by (cases "ubName b") (auto simp: fields coalesce_def tool_ok_def)
  obtain raw where raw: "stored_from env t raw" "gtType t \<noteq> ''ai_provider'' \<longrightarrow> raw = [] \<or> trim_space raw = ''null''"
    using t unfolding tool_ok_def by blast
  have kept: "stored_from env (set_tool env p t) raw" if "utRedactionRules p = None"
    using raw(1) that by (simp add: stored_from_def fields(7) coalesce_def)
  have rules: "\<exists>raw. stored_from env (set_tool env p t) raw"
  proof (cases "utRedactionRules p")
    case None with kept show ?thesis by blast
  next
    case (Some new)
    with le(4) have "new = ubRedactionRules b" "new \<noteq> []" by (auto simp: nonempty_raw_def split: if_splits)
    with Some b(2) show ?thesis by (intro exI [of _ new]) (simp add: stored_from_def fields(7) coalesce_def)
  qed
  show ?thesis
  proof (cases "gtType t = ''ai_provider''")
    case True
    have "\<exists>v\<in>set validAIProviders. gtProvider (set_tool env p t) = Some v"
      using le(2) b(3) t True by (cases "ubProvider b") (auto simp: fields coalesce_null_def not_one_of_def tool_ok_def)
    with True t checks name rules show ?thesis by (simp add: tool_ok_def fields(1,2))
  next
    case False
    have "\<not> provider_only b"
    proof
      assume "provider_only b"
      then obtain a where "a \<in> set (snd probe)" "gtID a = toolID" "gtType a = ''ai_provider''"
        using type_refusal_None [OF tref] by metis
      with types False show False by simp
    qed
    then have "utProvider p = None" "utDataHandling p = None" "utRedactionRules p = None" "utDataHandlingNote p = None"
      using le by (auto simp: provider_only_def nonempty_raw_def)
    moreover from this have "\<exists>raw. stored_from env (set_tool env p t) raw \<and> (raw = [] \<or> trim_space raw = ''null'')"
      using kept raw(2) False by blast
    ultimately show ?thesis
      using False t checks name by (simp add: tool_ok_def fields(1-6) coalesce_def coalesce_null_def)
  qed
qed

inductive tool_step :: "tool_env \<Rightarrow> tool_row list \<Rightarrow> tool_row list \<Rightarrow> bool" for env where
  created: "newID \<notin> gtID ` set rows \<Longrightarrow> CreateTool env dbErr newID now uc body rows = (ans, rows') \<Longrightarrow> tool_step env rows rows'"
| updated: "same_types (snd probe) rows \<Longrightarrow> UpdateTool env probe load dbErr uc raw body rows = (ans, rows') \<Longrightarrow> tool_step env rows rows'"
| deleted: "DeleteTool env dbErr uc raw rows = (ans', rows') \<Longrightarrow> tool_step env rows rows'"
| tested: "TestTool env pv rd dbErr now latency uc raw rows = (ans'', rows') \<Longrightarrow> tool_step env rows rows'"

lemma tools_ok_append:
  assumes "tools_ok env rows" "tool_ok env t" "gtID t \<notin> gtID ` set rows" "name_free rows t"
  shows "tools_ok env (rows @ [t])"
proof -
  have "gtID r \<noteq> gtID t" if "r \<in> set rows" for r using assms(3) that by (metis image_eqI)
  with assms show ?thesis by (auto simp: tools_ok_def name_free_def list_ex_iff)
qed

lemma tools_ok_map:
  assumes ok: "tools_ok env rows" and t: "t \<in> set rows" and g: "tool_ok env t'" "gtID t' = gtID t"
    and free: "name_free rows t'" and hit: "\<And>r. r \<in> set rows \<Longrightarrow> hit r \<longleftrightarrow> r = t"
  shows "tools_ok env (map (\<lambda>r. if hit r then t' else r) rows)"
proof -
  from t obtain xs ys where rows: "rows = xs @ t # ys" by (auto simp: in_set_conv_decomp)
  have other: "gtID r \<noteq> gtID t" if "r \<in> set xs \<union> set ys" for r
  proof -
    have "gtID t \<notin> set (map gtID xs) \<union> set (map gtID ys)" using ok by (simp add: tools_ok_def rows)
    moreover have "gtID r \<in> set (map gtID xs) \<union> set (map gtID ys)" using that by auto
    ultimately show ?thesis by metis
  qed
  have miss: "\<not> hit r" if "r \<in> set xs \<union> set ys" for r
    using hit [of r] other [OF that] that by (auto simp: rows)
  have "map (\<lambda>r. if hit r then t' else r) xs = xs" "map (\<lambda>r. if hit r then t' else r) ys = ys"
    by (rule map_idI, simp add: miss)+
  then have eq: "map (\<lambda>r. if hit r then t' else r) rows = xs @ t' # ys"
    using hit t by (simp add: rows)
  have "(gtOrgID t', gtName t') \<noteq> (gtOrgID r, gtName r)" if "r \<in> set xs \<union> set ys" for r
    using free other [OF that] that g(2) by (auto simp: name_free_def list_ex_iff rows)
  then have "(gtOrgID t', gtName t') \<notin> set (map (\<lambda>t. (gtOrgID t, gtName t)) (xs @ ys))" by auto
  then show ?thesis
    using ok g unfolding eq by (simp add: tools_ok_def rows)
qed

lemma tools_ok_keys:
  assumes "tools_ok env rows" and "\<And>r. r \<in> set rows \<Longrightarrow> tool_ok env (g r)"
    and "\<And>r. gtID (g r) = gtID r \<and> gtOrgID (g r) = gtOrgID r \<and> gtName (g r) = gtName r"
  shows "tools_ok env (map g rows)"
  using assms by (simp add: tools_ok_def comp_def)

lemma tools_ok_filter: "tools_ok env rows \<Longrightarrow> tools_ok env (filter q rows)"
  by (simp add: tools_ok_def distinct_map_filter)

lemma tested_ok: "tool_ok env t \<Longrightarrow> status \<in> set tool_statuses \<Longrightarrow>
    tool_ok env (t\<lparr>tlLastTested := x, tlStatus := status, tlLatency := y\<rparr>)"
  by (simp add: tool_ok_def tool_checks_def stored_from_def)

lemma dbStatus_valid: "dbStatus o' \<in> set tool_statuses"
  by (simp add: dbStatus_def tool_statuses_def)

lemma tools_ok_step:
  assumes "tool_step env rows rows'" and "tools_ok env rows"
  shows "tools_ok env rows'"
  using assms(1)
proof cases
  case (created newID dbErr now uc body ans)
  then show ?thesis
  proof (cases rule: CreateTool_cases [of env dbErr newID now uc body rows])
    case (written b encrypted pathsJSON t)
    have "tool_ok env t" by (rule new_tool_ok [OF written(1,2,3)])
    moreover have "gtID t = newID" by (simp add: written(2) new_tool_def)
    ultimately show ?thesis using written(4,5) created tools_ok_append [OF assms(2)] by simp
  qed (use assms(2) in simp)
next
  case (updated probe load dbErr uc raw body ans)
  then show ?thesis
  proof (cases rule: UpdateTool_cases [of env probe load dbErr uc raw body rows])
    case (written toolID p t)
    have t: "t \<in> set rows" "of_tool (ucOrgID uc) toolID t" using written(2) by (auto simp: find_Some_iff)
    have "tool_ok env (set_tool env p t)"
      using set_tool_ok [OF written(1) _ _ written(3)] updated(1) t assms(2)
      by (auto simp: same_types_def tools_ok_def of_tool_def)
    moreover have hit: "of_tool (ucOrgID uc) toolID r \<longleftrightarrow> r = t" if "r \<in> set rows" for r
      using that t assms(2) by (auto simp: tools_ok_def of_tool_def distinct_map inj_on_def)
    moreover have "gtID (set_tool env p t) = gtID t" by (simp add: set_tool_def)
    ultimately have "tools_ok env (map (\<lambda>r. if of_tool (ucOrgID uc) toolID r then set_tool env p t else r) rows)"
      by (intro tools_ok_map [OF assms(2) t(1) _ _ written(4)])
    also have "map (\<lambda>r. if of_tool (ucOrgID uc) toolID r then set_tool env p t else r) rows = rows'"
      using hit written(5) updated(2) by (auto simp: hit)
    finally show ?thesis .
  qed (use assms(2) in simp)
next
  case (deleted dbErr uc raw ans')
  then have "rows' = rows \<or> (\<exists>q. rows' = filter q rows)"
    by (auto simp: DeleteTool_def store_DeleteTool_def split: option.splits)
  with assms(2) show ?thesis by (auto intro: tools_ok_filter)
next
  case (tested pv rd dbErr now latency uc raw ans'')
  then consider "rows' = rows"
    | toolID o' where "rows' = map (\<lambda>t. if of_tool (ucOrgID uc) toolID t
        then t\<lparr>tlLastTested := Some now, tlStatus := dbStatus o', tlLatency := Some latency\<rparr> else t) rows"
    by (auto simp: TestTool_def store_MarkToolTested_def Let_def split: option.splits sum.splits if_splits prod.splits)
  then show ?thesis
  proof cases
    case 2
    show ?thesis unfolding 2
      by (rule tools_ok_keys [OF assms(2)]) (use assms(2) in \<open>auto simp: tools_ok_def intro!: tested_ok dbStatus_valid\<close>)
  qed (use assms(2) in simp)
qed

text \<open>C16: Every connector row is well formed. In every table that any sequence of create,
  update, delete and test requests can produce (of any users, with failures, and with reads
  that precede their update), each row satisfies the constraints of the schema and those of
  its type, no two rows share an id or an organisation and name, and the redaction rules of each
  row are empty or what the database gives back for rules that the API accepted; the
  gateway's parser accepts them whenever the decoder reads the same from the stored rules as
  from the accepted ones (which it need not for keys that differ only in case).\<close>

theorem connector_rows_well_formed:
  assumes "(tool_step env)\<^sup>*\<^sup>* [] rows"
  shows "tools_ok env rows
    \<and> (\<forall>t\<in>set rows. \<exists>raw. stored_from env t raw
        \<and> (same_meaning env raw \<longrightarrow> (\<exists>cfg. ParseConfig (teRules env) (teCompile env) (gtRedactionRules t) = Inr cfg)))"
proof -
  have "tools_ok env rows" using assms
  proof (induction rule: rtranclp_induct)
    case base
    show ?case by (simp add: tools_ok_def)
  next
    case (step y z)
    then show ?case using tools_ok_step by blast
  qed
  moreover have "\<exists>raw. stored_from env t raw
      \<and> (same_meaning env raw \<longrightarrow> (\<exists>cfg. ParseConfig (teRules env) (teCompile env) (gtRedactionRules t) = Inr cfg))" if ok: "tool_ok env t" for t
  proof -
    obtain raw where "stored_from env t raw" using ok unfolding tool_ok_def by blast
    then show ?thesis using rules_stored [of env t raw] validation_parses [of env "gtRedactionRules t"] by (intro exI [of _ raw]) simp
  qed
  ultimately show ?thesis by (simp add: tools_ok_def)
qed

definition sample_create :: tool_create where
  "sample_create = \<lparr>cbName = ''claude'', cbType = ''ai_provider'', cbAuthType = ''api_key'', cbMCPCommand = None, cbMCPArgs = None,
     cbBaseURL = None, cbCredentials = [], cbActionPaths = [], cbProvider = Some ''claude'', cbAuditMode = Some ''full'',
     cbDataHandling = None, cbDataHandlingNote = None, cbRedactionRules = []\<rparr>"

definition sample_rules :: string where
  "sample_rules = ''{\"enabled\": true}''"

lemma sample_created:
  "CreateTool sample_tool_env None ''t1'' 1 (sample_user ''admin'') (Inr (sample_create\<lparr>cbRedactionRules := sample_rules\<rparr>)) []
   = (Inr (toolToResp sample_tool_env (sample_connector\<lparr>gtRedactionRules := sample_rules\<rparr>)), [sample_connector\<lparr>gtRedactionRules := sample_rules\<rparr>])"
  by code_simp

theorem connector_rows_well_formed_witness:
  "tools_ok sample_tool_env [sample_connector\<lparr>gtRedactionRules := sample_rules\<rparr>] \<and>
   (\<exists>cfg. ParseConfig (teRules sample_tool_env) (teCompile sample_tool_env) sample_rules = Inr cfg)"
proof -
  have same: "same_meaning sample_tool_env raw" for raw by (simp add: same_meaning_def sample_tool_env_def)
  have "tool_step sample_tool_env [] [sample_connector\<lparr>gtRedactionRules := sample_rules\<rparr>]" by (rule created [OF _ sample_created]) simp
  then have "(tool_step sample_tool_env)\<^sup>*\<^sup>* [] [sample_connector\<lparr>gtRedactionRules := sample_rules\<rparr>]" by (rule r_into_rtranclp)
  from connector_rows_well_formed [OF this] same show ?thesis by auto
qed

section \<open>From the API to the gateway\<close>

text \<open>The rows as the gateway reads them.\<close>

definition gateway_rows :: "tool_row list \<Rightarrow> gateway_tool_row list" where
  "gateway_rows rows = map gateway_tool_row.truncate rows"

lemma truncate_fields [simp]:
  "gtID (gateway_tool_row.truncate t) = gtID t" "gtOrgID (gateway_tool_row.truncate t) = gtOrgID t"
  "gtName (gateway_tool_row.truncate t) = gtName t" "gtType (gateway_tool_row.truncate t) = gtType t"
  "gtAuthType (gateway_tool_row.truncate t) = gtAuthType t" "gtBaseURL (gateway_tool_row.truncate t) = gtBaseURL t"
  "gtCredentialsEncrypted (gateway_tool_row.truncate t) = gtCredentialsEncrypted t"
  "gtActionPaths (gateway_tool_row.truncate t) = gtActionPaths t"
  by (simp_all add: gateway_tool_row.truncate_def)

lemma find_created:
  assumes "name_free rows t" and "gtID t \<notin> gtID ` set rows"
  shows "List.find (\<lambda>g. gtOrgID g = gtOrgID t \<and> gtName g = gtName t) (gateway_rows (rows @ [t])) = Some (gateway_tool_row.truncate t)"
proof -
  have ids: "gtID r \<noteq> gtID t" if "r \<in> set rows" for r using assms(2) that by (metis image_eqI)
  have "List.find (\<lambda>g. gtOrgID g = gtOrgID t \<and> gtName g = gtName t) (map gateway_tool_row.truncate rows) = None"
    using assms(1) ids by (auto simp: find_None_iff name_free_def list_ex_iff)
  moreover have "List.find q (xs @ [y]) = Some y" if "List.find q xs = None" "q y" for q :: "gateway_tool_row \<Rightarrow> bool" and xs y
    using that by (induction xs) (auto split: if_splits)
  ultimately show ?thesis by (simp add: gateway_rows_def)
qed

definition mapping_ok :: "string \<times> ActionPathMapping \<Rightarrow> bool" where
  "mapping_ok e = (case e of (action, m) \<Rightarrow> trim_space action \<noteq> [] \<and> trim_space (apPath m) \<noteq> []
     \<and> \<not> contains_str (apPath m) ''://'' \<and> apMethod m \<in> set allowedActionPathMethods)"

lemma validate_paths_ok: "validate_paths es = Inr out \<Longrightarrow> e \<in> set out \<Longrightarrow> mapping_ok e"
  by (induction es arbitrary: out rule: validate_paths.induct) (auto simp: mapping_ok_def split: if_splits sum.splits)

lemma validate_paths_Nil: "validate_paths es = Inr [] \<longleftrightarrow> es = []"
  by (cases es) (auto split: if_splits sum.splits)

text \<open>What is relied on of the two JSON packages and the column between them: the gateway
  decodes what the API encoded and stored.\<close>

definition paths_roundtrip :: "tool_env \<Rightarrow> http_env \<Rightarrow> bool" where
  "paths_roundtrip env henv = (\<forall>ps j. teMarshal env ps = Inr j \<longrightarrow> j \<noteq> [] \<and> teJsonb env j \<noteq> [] \<and>
     (\<exists>ps'. hePaths henv (teJsonb env j) = Inr ps' \<and> set ps' = set ps))"

lemma create_plan_cases:
  assumes "create_plan env uc (Inr b) = Inr p"
  obtains encrypted pathsJSON paths where "p = create_params uc b encrypted pathsJSON"
    "validateActionPaths (cbActionPaths b) = Inr paths" "encode_paths env paths = Inr pathsJSON"
  using assms that unfolding create_plan_def by (auto split: option.splits sum.splits)

text \<open>A connector that the API has created is the one the gateway resolves. When a create
  request succeeds, resolving the submitted name in the caller's organisation at the gateway
  gives the new row with the submitted type and base URL, and every action mapping the
  gateway sees there has a name, a relative path and one of the five allowed methods.\<close>

theorem created_connector_resolves:
  assumes "newID \<notin> gtID ` set rows" and "paths_roundtrip env henv"
    and "CreateTool env dbErr newID now uc (Inr b) rows = (Inr resp, rows')"
  shows "\<exists>row. tool_Resolve henv None (gateway_rows rows') (ucOrgID uc) (cbName b) = Inr row
     \<and> twID row = newID \<and> twType row = cbType b \<and> twBaseURL row = cbBaseURL b
     \<and> list_all mapping_ok (twActionPaths row)"
proof -
  obtain p where plan: "create_plan env uc (Inr b) = Inr p"
    using assms(3) by (cases "create_plan env uc (Inr b)") (simp_all add: CreateTool_def)
  obtain encrypted pathsJSON paths where p: "p = create_params uc b encrypted pathsJSON"
    and v: "validateActionPaths (cbActionPaths b) = Inr paths" and e: "encode_paths env paths = Inr pathsJSON"
    by (rule create_plan_cases [OF plan])
  let ?t = "new_tool env newID now p"
  have rows': "rows' = rows @ [?t]" and free: "name_free rows ?t"
    using assms(3) plan by (auto simp: CreateTool_def store_CreateTool_def split: option.splits if_splits)
  have t: "gtID ?t = newID" "gtOrgID ?t = ucOrgID uc" "gtName ?t = cbName b" "gtType ?t = cbType b" "gtBaseURL ?t = cbBaseURL b"
    "gtActionPaths ?t = (if pathsJSON = [] then [] else teJsonb env pathsJSON)"
    by (simp_all add: new_tool_def p create_params_def)
  note found = find_created [OF free, unfolded t, OF assms(1)]
  show ?thesis
  proof (cases paths)
    case None
    then have "gtActionPaths ?t = []" using e by (simp add: t encode_paths_def)
    then show ?thesis using found by (simp add: tool_Resolve_def rows' t)
  next
    case (Some ps)
    then have enc: "teMarshal env ps = Inr pathsJSON" using e by (simp add: encode_paths_def split: sum.splits)
    then obtain ps' where ps': "pathsJSON \<noteq> []" "teJsonb env pathsJSON \<noteq> []" "hePaths henv (teJsonb env pathsJSON) = Inr ps'"
      "set ps' = set ps"
      using assms(2) unfolding paths_roundtrip_def by blast
    have "list_all mapping_ok ps'"
      using v Some ps'(4) by (auto simp: validateActionPaths_def list_all_iff dest: validate_paths_ok split: if_splits sum.splits)
    then show ?thesis using found ps' by (simp add: tool_Resolve_def rows' t)
  qed
qed

definition sample_mapping :: "string \<times> ActionPathMapping" where
  "sample_mapping = (''get'', \<lparr>apPath = ''/items'', apMethod = ''GET'', apInputSchema = None\<rparr>)"

definition sample_paths_tool_env :: tool_env where
  "sample_paths_tool_env = sample_tool_env\<lparr>teMarshal := (\<lambda>ps. if ps = [sample_mapping] then Inr ''{..}'' else Inl (ErrText ''not encodable''))\<rparr>"

definition sample_gateway_env :: http_env where
  "sample_gateway_env = sample_env\<lparr>hePaths := (\<lambda>_. Inr [sample_mapping])\<rparr>"

definition sample_rest_create :: tool_create where
  "sample_rest_create = sample_create\<lparr>cbName := ''crm'', cbType := ''rest_api'', cbBaseURL := Some ''https://crm'', cbProvider := None,
     cbActionPaths := [(''get'', \<lparr>apPath = ''/items'', apMethod = '' get'', apInputSchema = None\<rparr>)], cbRedactionRules := ''null''\<rparr>"

definition sample_rest_row :: tool_row where
  "sample_rest_row = sample_connector\<lparr>gtName := ''crm'', gtType := ''rest_api'', gtBaseURL := Some ''https://crm'', gtProvider := None,
     gtActionPaths := ''{..}'', gtRedactionRules := ''null''\<rparr>"

text \<open>The rules of a connector that is not a provider's may be submitted as null, and are then
  stored as the JSON value null, not as a missing value.\<close>

lemma null_rules_stored:
  "CreateTool sample_paths_tool_env None ''t1'' 1 (sample_user ''admin'') (Inr sample_rest_create) []
   = (Inr (toolToResp sample_paths_tool_env sample_rest_row), [sample_rest_row])"
  by code_simp

theorem created_connector_resolves_witness:
  "\<exists>row. tool_Resolve sample_gateway_env None (gateway_rows [sample_rest_row]) (ucOrgID (sample_user ''admin'')) (cbName sample_rest_create) = Inr row
     \<and> twID row = ''t1'' \<and> twType row = cbType sample_rest_create \<and> twBaseURL row = cbBaseURL sample_rest_create
     \<and> list_all mapping_ok (twActionPaths row)"
proof (rule created_connector_resolves [OF _ _ null_rules_stored])
  show "paths_roundtrip sample_paths_tool_env sample_gateway_env"
    by (auto simp: paths_roundtrip_def sample_paths_tool_env_def sample_gateway_env_def sample_tool_env_def split: if_splits)
qed simp

text \<open>A provider connector may have action mappings.\<close>

lemma mapped_provider_accepted:
  "fst (CreateTool sample_paths_tool_env None ''t1'' 1 (sample_user ''admin'')
     (Inr (sample_create\<lparr>cbActionPaths := [sample_mapping]\<rparr>)) [])
   = Inr (toolToResp sample_paths_tool_env (sample_connector\<lparr>gtActionPaths := ''{..}''\<rparr>))"
  by code_simp

end
