(* ===== verification/Policy_Admin.thy ===== *)
theory Policy_Admin
  imports Policy_Engine Admin_Access "HOL-Library.Char_ord" "HOL-Library.List_Lexorder"
begin

text \<open>
  The life of a policy: its administration (\<^verbatim>\<open>eami-api/internal/api/policies.go\<close> and
  \<^verbatim>\<open>workspace_policies.go\<close> over \<^verbatim>\<open>internal/store/policies.sql.go\<close>), and the loader that builds
  the gateway's evaluator from the tables (\<^verbatim>\<open>eami-gateway/internal/policyloader\<close>). The
  handlers are those of a server with a database; every statement has its own outcome, so
  that a request may fail between two of them. The timestamps of the rows are left out.
\<close>

section \<open>Tables\<close>

definition wrap32 :: "int \<Rightarrow> int" where
  "wrap32 x = sint (word_of_int x :: 32 word)"

record policy_row =
  plID :: uuid
  plOrgID :: uuid
  plWorkspaceID :: "uuid option"
  plName :: string
  plDescription :: "string option"
  plPriority :: int
  plAction :: string
  plAlert :: bool
  plStatus :: string
  plCreatedBy :: "uuid option"

record condition_row =
  pdPolicyID :: uuid
  pdAgentNamePattern :: "string option"
  pdToolNames :: "string list"
  pdActionTypes :: "string list"
  pdEnvironments :: "string list"
  pdRecordCountGT :: "int option"
  pdSemanticRule :: "string option"
  pdScopeDrift :: bool
  pdToolServerIDs :: "string list"

record policy_db =
  dbPolicies :: "policy_row list"
  dbConditions :: "condition_row list"

record policy_env =
  peParseUUID :: "string \<Rightarrow> uuid option"
  peSQLState :: "go_error \<Rightarrow> string option"
  peUnique :: go_error \<comment> \<open>the error of a violated unique constraint\<close>
  peCheck :: go_error \<comment> \<open>the error of a violated check constraint\<close>
  peErrText :: "go_error \<Rightarrow> string"
  peWorkspaceName :: "uuid \<Rightarrow> string option"
  peScan :: "policy_row list \<Rightarrow> policy_row list" \<comment> \<open>the order in which the database reads the rows\<close>

text \<open>The \<^verbatim>\<open>CHECK\<close> constraints, and \<^verbatim>\<open>UNIQUE NULLS NOT DISTINCT (org_id, workspace_id, priority)\<close>.\<close>

definition policy_checks :: "policy_row \<Rightarrow> bool" where
  "policy_checks r = (plAction r \<in> {ActionAllow, ActionDeny, ActionEscalate} \<and> plStatus r \<in> {''active'', ''draft'', ''disabled''})"

definition rank_key :: "policy_row \<Rightarrow> uuid \<times> uuid option \<times> int" where
  "rank_key r = (plOrgID r, plWorkspaceID r, plPriority r)"

definition isUniqueViolation :: "policy_env \<Rightarrow> go_error \<Rightarrow> bool" where
  "isUniqueViolation env err = (peSQLState env err = Some ''23505'')"

text \<open>The outcome of a write that would give the table \<open>rows\<close>.\<close>

definition commit_policies :: "policy_env \<Rightarrow> policy_row list \<Rightarrow> policy_db \<Rightarrow> go_error option \<times> policy_db" where
  "commit_policies env rows db =
     (if \<not> list_all policy_checks rows then (Some (peCheck env), db)
      else if \<not> distinct (map rank_key rows) then (Some (peUnique env), db)
      else (None, db\<lparr>dbPolicies := rows\<rparr>))"

section \<open>Statements (policies.sql.go)\<close>

definition store_CreatePolicy :: "policy_env \<Rightarrow> go_error option \<Rightarrow> policy_row \<Rightarrow> policy_db \<Rightarrow> go_error option \<times> policy_db" where
  "store_CreatePolicy env dbErr r db =
     (case dbErr of Some err \<Rightarrow> (Some err, db) | None \<Rightarrow> commit_policies env (dbPolicies db @ [r]) db)"

definition store_CreatePolicyCondition ::
  "policy_env \<Rightarrow> go_error option \<Rightarrow> condition_row \<Rightarrow> policy_db \<Rightarrow> go_error option \<times> policy_db" where
  "store_CreatePolicyCondition env dbErr c db =
     (case dbErr of
        Some err \<Rightarrow> (Some err, db)
      | None \<Rightarrow>
        if list_ex (\<lambda>x. pdPolicyID x = pdPolicyID c) (dbConditions db) then (Some (peUnique env), db)
        else (None, db\<lparr>dbConditions := dbConditions db @ [c]\<rparr>))"

definition keep_servers :: "condition_row \<Rightarrow> condition_row \<Rightarrow> condition_row" where
  "keep_servers c x = c\<lparr>pdToolServerIDs := pdToolServerIDs x\<rparr>"

definition store_UpsertPolicyCondition :: "go_error option \<Rightarrow> condition_row \<Rightarrow> policy_db \<Rightarrow> go_error option \<times> policy_db" where
  "store_UpsertPolicyCondition dbErr c db =
     (case dbErr of
        Some err \<Rightarrow> (Some err, db)
      | None \<Rightarrow>
        (None, if list_ex (\<lambda>x. pdPolicyID x = pdPolicyID c) (dbConditions db)
           then db\<lparr>dbConditions := map (\<lambda>x. if pdPolicyID x = pdPolicyID c then keep_servers c x else x) (dbConditions db)\<rparr>
           else db\<lparr>dbConditions := dbConditions db @ [c]\<rparr>))"

record PolicyConditionsReq =
  qcAgentNamePattern :: "string option"
  qcToolNames :: "string list"
  qcActionTypes :: "string list"
  qcEnvironments :: "string list"
  qcRecordCountGT :: "int option"
  qcSemanticRule :: "string option"
  qcScopeDrift :: bool

record PolicyUpdateRequest =
  quName :: "string option"
  quDescription :: "string option"
  quPriority :: "int option"
  quConditions :: "PolicyConditionsReq option"
  quAction :: "string option"
  quAlert :: "bool option"
  quStatus :: "string option"

definition or_old :: "'a option \<Rightarrow> 'a \<Rightarrow> 'a" where
  "or_old p old = (case p of None \<Rightarrow> old | Some v \<Rightarrow> v)"

definition set_policy :: "PolicyUpdateRequest \<Rightarrow> policy_row \<Rightarrow> policy_row" where
  "set_policy q r = r\<lparr>plName := or_old (quName q) (plName r),
     plDescription := (case quDescription q of None \<Rightarrow> plDescription r | Some d \<Rightarrow> Some d),
     plPriority := or_old (map_option wrap32 (quPriority q)) (plPriority r), plAction := or_old (quAction q) (plAction r),
     plAlert := or_old (quAlert q) (plAlert r), plStatus := or_old (quStatus q) (plStatus r)\<rparr>"

text \<open>An update or a deletion of the rows that its \<^verbatim>\<open>WHERE\<close> clause selects.\<close>

definition store_UpdatePolicy ::
  "policy_env \<Rightarrow> go_error option \<Rightarrow> (policy_row \<Rightarrow> bool) \<Rightarrow> PolicyUpdateRequest \<Rightarrow> policy_db \<Rightarrow> go_error option \<times> policy_db" where
  "store_UpdatePolicy env dbErr sel q db =
     (case dbErr of
        Some err \<Rightarrow> (Some err, db)
      | None \<Rightarrow>
        if \<not> list_ex sel (dbPolicies db) then (Some (Sentinel ErrNoRows), db)
        else commit_policies env (map (\<lambda>r. if sel r then set_policy q r else r) (dbPolicies db)) db)"

definition store_DeletePolicy :: "go_error option \<Rightarrow> (policy_row \<Rightarrow> bool) \<Rightarrow> policy_db \<Rightarrow> nat result \<times> policy_db" where
  "store_DeletePolicy dbErr sel db =
     (case dbErr of
        Some err \<Rightarrow> (Inl err, db)
      | None \<Rightarrow>
        (Inr (length (filter sel (dbPolicies db))),
         \<lparr>dbPolicies = filter (\<lambda>r. \<not> sel r) (dbPolicies db),
          dbConditions = filter (\<lambda>c. \<not> list_ex (\<lambda>r. sel r \<and> plID r = pdPolicyID c) (dbPolicies db)) (dbConditions db)\<rparr>))"

fun position_of :: "uuid list \<Rightarrow> uuid \<Rightarrow> nat option" where
  "position_of [] i = None"
| "position_of (x # xs) i = (if x = i then Some 0 else map_option Suc (position_of xs i))"

definition renumber :: "uuid \<Rightarrow> uuid list \<Rightarrow> policy_row \<Rightarrow> policy_row" where
  "renumber orgID ids r =
     (if plOrgID r = orgID
      then (case position_of ids (plID r) of None \<Rightarrow> r | Some k \<Rightarrow> r\<lparr>plPriority := wrap32 (int k + 1)\<rparr>)
      else r)"

definition store_ReorderPolicies ::
  "policy_env \<Rightarrow> go_error option \<Rightarrow> uuid \<Rightarrow> uuid list \<Rightarrow> policy_db \<Rightarrow> go_error option \<times> policy_db" where
  "store_ReorderPolicies env dbErr orgID ids db =
     (case dbErr of Some err \<Rightarrow> (Some err, db) | None \<Rightarrow> commit_policies env (map (renumber orgID ids) (dbPolicies db)) db)"

section \<open>Answers\<close>

record PolicyResp =
  poID :: uuid
  poName :: string
  poDescription :: "string option"
  poPriority :: int
  poConditions :: PolicyConditionsReq
  poAction :: string
  poAlert :: bool
  poStatus :: string
  poCreatedBy :: "uuid option"
  poWorkspaceID :: "uuid option"
  poWorkspaceName :: "string option"

definition condition_of :: "policy_db \<Rightarrow> uuid \<Rightarrow> condition_row option" where
  "condition_of db i = List.find (\<lambda>c. pdPolicyID c = i) (dbConditions db)"

definition conditions_resp :: "condition_row option \<Rightarrow> PolicyConditionsReq" where
  "conditions_resp co =
     (case co of
        None \<Rightarrow> \<lparr>qcAgentNamePattern = None, qcToolNames = [], qcActionTypes = [], qcEnvironments = [], qcRecordCountGT = None,
                 qcSemanticRule = None, qcScopeDrift = False\<rparr>
      | Some c \<Rightarrow> \<lparr>qcAgentNamePattern = pdAgentNamePattern c, qcToolNames = pdToolNames c, qcActionTypes = pdActionTypes c,
                 qcEnvironments = pdEnvironments c, qcRecordCountGT = pdRecordCountGT c, qcSemanticRule = pdSemanticRule c,
                 qcScopeDrift = pdScopeDrift c\<rparr>)"

definition policyRowToResp :: "policy_row \<Rightarrow> condition_row option \<Rightarrow> PolicyResp" where
  "policyRowToResp r co = \<lparr>poID = plID r, poName = plName r, poDescription = plDescription r, poPriority = plPriority r,
     poConditions = conditions_resp co, poAction = plAction r, poAlert = plAlert r, poStatus = plStatus r,
     poCreatedBy = plCreatedBy r, poWorkspaceID = None, poWorkspaceName = None\<rparr>"

text \<open>The rows joined with the workspace.\<close>

definition scanWorkspacePolicyRow :: "policy_env \<Rightarrow> policy_row \<Rightarrow> condition_row option \<Rightarrow> PolicyResp" where
  "scanWorkspacePolicyRow env r co = (policyRowToResp r co)\<lparr>poWorkspaceID := plWorkspaceID r,
     poWorkspaceName := Option.bind (plWorkspaceID r) (peWorkspaceName env)\<rparr>"

definition read_policy :: "go_error option \<Rightarrow> (policy_row \<Rightarrow> condition_row option \<Rightarrow> PolicyResp) \<Rightarrow> uuid \<Rightarrow> uuid \<Rightarrow> policy_db \<Rightarrow> PolicyResp result" where
  "read_policy dbErr resp i orgID db =
     (case dbErr of
        Some err \<Rightarrow> Inl err
      | None \<Rightarrow>
        (case List.find (\<lambda>r. plID r = i \<and> plOrgID r = orgID) (dbPolicies db) of
           None \<Rightarrow> Inl (Sentinel ErrNoRows)
         | Some r \<Rightarrow> Inr (resp r (condition_of db i))))"

section \<open>Requests\<close>

record PolicyCreateRequest =
  qrName :: string
  qrDescription :: "string option"
  qrPriority :: int \<comment> \<open>decoded into 32 bits; a larger number is an invalid body\<close>
  qrConditions :: "PolicyConditionsReq option"
  qrAction :: string
  qrAlert :: bool
  qrStatus :: string

definition conditionsReqToParams :: "uuid \<Rightarrow> PolicyConditionsReq \<Rightarrow> condition_row" where
  "conditionsReqToParams i c = \<lparr>pdPolicyID = i, pdAgentNamePattern = qcAgentNamePattern c, pdToolNames = qcToolNames c,
     pdActionTypes = qcActionTypes c, pdEnvironments = qcEnvironments c, pdRecordCountGT = map_option wrap32 (qcRecordCountGT c),
     pdSemanticRule = qcSemanticRule c, pdScopeDrift = qcScopeDrift c, pdToolServerIDs = []\<rparr>"

text \<open>The checks that both create handlers make, in their order; no body is one that does not decode.\<close>

definition create_checks :: "PolicyCreateRequest option \<Rightarrow> api_error + (PolicyCreateRequest \<times> PolicyConditionsReq)" where
  "create_checks body =
     (case body of
        None \<Rightarrow> Inl (400, ''bad_request'', ''invalid JSON body'')
      | Some q \<Rightarrow>
        if qrName q = [] \<or> qrPriority q < 1 then Inl (400, ''bad_request'', ''name and priority >= 1 required'')
        else if qrAction q \<notin> {''allow'', ''deny'', ''escalate''}
        then Inl (400, ''bad_request'', ''action must be one of: allow, deny, escalate'')
        else case qrConditions q of
          None \<Rightarrow> Inl (400, ''bad_request'', ''conditions is required'')
        | Some c \<Rightarrow> Inr (q, c))"

definition new_policy :: "uuid \<Rightarrow> userClaims \<Rightarrow> uuid option \<Rightarrow> PolicyCreateRequest \<Rightarrow> policy_row" where
  "new_policy i uc ws q = \<lparr>plID = i, plOrgID = ucOrgID uc, plWorkspaceID = ws, plName = qrName q,
     plDescription = qrDescription q, plPriority = qrPriority q, plAction = qrAction q, plAlert = qrAlert q,
     plStatus = (if qrStatus q = [] then ''draft'' else qrStatus q), plCreatedBy = Some (ucUserID uc)\<rparr>"

text \<open>The answer (an error, or a status and a body), the tables, and whether \<^verbatim>\<open>policy_reload\<close>
  was notified. The outcome of each statement is an argument.\<close>

type_synonym 'a served_policy = "(api_error + int \<times> 'a) \<times> policy_db \<times> bool"

definition internal_error :: "string \<Rightarrow> api_error" where
  "internal_error msg = (500, ''internal_error'', msg)"

section \<open>Organisation policies (policies.go)\<close>

definition CreatePolicy ::
  "policy_env \<Rightarrow> go_error option \<Rightarrow> go_error option \<Rightarrow> uuid \<Rightarrow> userClaims \<Rightarrow> PolicyCreateRequest option \<Rightarrow> policy_db \<Rightarrow> PolicyResp served_policy" where
  "CreatePolicy env insErr condErr newID uc body db =
     (case create_checks body of
        Inl e \<Rightarrow> (Inl e, db, False)
      | Inr (q, c) \<Rightarrow>
        (case store_CreatePolicy env insErr (new_policy newID uc None q) db of
           (Some err, db1) \<Rightarrow> (Inl (internal_error (peErrText env err)), db1, False)
         | (None, db1) \<Rightarrow>
           (case store_CreatePolicyCondition env condErr (conditionsReqToParams newID c) db1 of
              (Some err, db2) \<Rightarrow> (Inl (internal_error (''conditions failed: '' @ peErrText env err)), db2, False)
            | (None, db2) \<Rightarrow>
              (Inr (201, policyRowToResp (new_policy newID uc None q) (Some (conditionsReqToParams newID c))), db2, True))))"

definition UpdatePolicy ::
  "policy_env \<Rightarrow> go_error option \<Rightarrow> go_error option \<Rightarrow> go_error option \<Rightarrow> userClaims \<Rightarrow> string \<Rightarrow> PolicyUpdateRequest option
   \<Rightarrow> policy_db \<Rightarrow> PolicyResp served_policy" where
  "UpdatePolicy env updErr condErr readErr uc raw body db =
     (case peParseUUID env raw of
        None \<Rightarrow> (Inl (400, ''bad_request'', ''invalid policyId''), db, False)
      | Some i \<Rightarrow>
        (case body of
           None \<Rightarrow> (Inl (400, ''bad_request'', ''invalid JSON body''), db, False)
         | Some q \<Rightarrow>
           (case store_UpdatePolicy env updErr (\<lambda>r. plID r = i \<and> plOrgID r = ucOrgID uc) q db of
              (Some err, db1) \<Rightarrow> (Inl (404, ''not_found'', ''policy not found or update failed''), db1, False)
            | (None, db1) \<Rightarrow>
              (let db2 = (case quConditions q of
                            None \<Rightarrow> db1
                          | Some c \<Rightarrow> snd (store_UpsertPolicyCondition condErr (conditionsReqToParams i c) db1)) in
               case read_policy readErr policyRowToResp i (ucOrgID uc) db2 of
                 Inl err \<Rightarrow> (Inl (internal_error (peErrText env err)), db2, True)
               | Inr resp \<Rightarrow> (Inr (200, resp), db2, True)))))"

definition DeletePolicy :: "policy_env \<Rightarrow> go_error option \<Rightarrow> userClaims \<Rightarrow> string \<Rightarrow> policy_db \<Rightarrow> unit served_policy" where
  "DeletePolicy env delErr uc raw db =
     (case peParseUUID env raw of
        None \<Rightarrow> (Inl (400, ''bad_request'', ''invalid policyId''), db, False)
      | Some i \<Rightarrow>
        (case store_DeletePolicy delErr (\<lambda>r. plID r = i \<and> plOrgID r = ucOrgID uc) db of
           (Inl err, db1) \<Rightarrow> (Inl (internal_error (peErrText env err)), db1, False)
         | (Inr n, db1) \<Rightarrow> (Inr (204, ()), db1, True)))"

definition GetPolicy :: "policy_env \<Rightarrow> go_error option \<Rightarrow> userClaims \<Rightarrow> string \<Rightarrow> policy_db \<Rightarrow> api_error + int \<times> PolicyResp" where
  "GetPolicy env readErr uc raw db =
     (case peParseUUID env raw of
        None \<Rightarrow> Inl (400, ''bad_request'', ''invalid policyId'')
      | Some i \<Rightarrow>
        (case read_policy readErr policyRowToResp i (ucOrgID uc) db of
           Inl _ \<Rightarrow> Inl (404, ''not_found'', ''policy not found'')
         | Inr resp \<Rightarrow> Inr (200, resp)))"

definition store_ListPolicies :: "policy_env \<Rightarrow> go_error option \<Rightarrow> uuid \<Rightarrow> string option \<Rightarrow> policy_db \<Rightarrow> policy_row list result" where
  "store_ListPolicies env dbErr orgID status db =
     (case dbErr of
        Some err \<Rightarrow> Inl err
      | None \<Rightarrow> Inr (sort_key plPriority
          (filter (\<lambda>r. plOrgID r = orgID \<and> (case status of None \<Rightarrow> True | Some st \<Rightarrow> plStatus r = st)) (peScan env (dbPolicies db)))))"

text \<open>The second query finds the workspace of a policy that has one.\<close>

definition merge_workspace :: "policy_env \<Rightarrow> policy_db \<Rightarrow> policy_row \<Rightarrow> PolicyResp" where
  "merge_workspace env db r =
     (let resp = policyRowToResp r (condition_of db (plID r)) in
      case plWorkspaceID r of
        None \<Rightarrow> resp
      | Some w \<Rightarrow>
        (case peWorkspaceName env w of
           None \<Rightarrow> resp
         | Some name \<Rightarrow> resp\<lparr>poWorkspaceID := Some w, poWorkspaceName := Some name\<rparr>))"

definition ListPolicies ::
  "policy_env \<Rightarrow> go_error option \<Rightarrow> go_error option \<Rightarrow> userClaims \<Rightarrow> string \<Rightarrow> policy_db \<Rightarrow> api_error + int \<times> PolicyResp list" where
  "ListPolicies env listErr wsErr uc statusParam db =
     (case store_ListPolicies env listErr (ucOrgID uc) (if statusParam = [] then None else Some statusParam) db of
        Inl err \<Rightarrow> Inl (internal_error (peErrText env err))
      | Inr rows \<Rightarrow>
        (case wsErr of
           Some err \<Rightarrow> Inl (internal_error (peErrText env err))
         | None \<Rightarrow> Inr (200, map (merge_workspace env db) rows)))"

section \<open>Reordering\<close>

definition reorderPoliciesMaxAttempts :: nat where "reorderPoliciesMaxAttempts = 3"

definition isReorderDeadlock :: "policy_env \<Rightarrow> go_error \<Rightarrow> bool" where
  "isReorderDeadlock env err = (peSQLState env err = Some ''40P01'')"

text \<open>The loop from the given attempt on: the outcome, the tables, and the attempts that were
  made. \<open>outcome k\<close> is what the database says to attempt \<open>k\<close>, \<open>cancelled k\<close> whether the request
  is cancelled in the pause after it.\<close>

function reorder_loop ::
  "policy_env \<Rightarrow> (nat \<Rightarrow> go_error option) \<Rightarrow> (nat \<Rightarrow> bool) \<Rightarrow> uuid \<Rightarrow> uuid list \<Rightarrow> nat \<Rightarrow> go_error option \<Rightarrow> policy_db
   \<Rightarrow> go_error option \<times> policy_db \<times> nat list" where
  "reorder_loop env outcome cancelled orgID ids attempt err db =
     (if attempt > reorderPoliciesMaxAttempts then (err, db, [])
      else case store_ReorderPolicies env (outcome attempt) orgID ids db of
        (None, db1) \<Rightarrow> (None, db1, [attempt])
      | (Some e, db1) \<Rightarrow>
        if \<not> isReorderDeadlock env e then (Some e, db1, [attempt])
        else if attempt < reorderPoliciesMaxAttempts \<and> cancelled attempt then (Some e, db1, [attempt])
        else (case reorder_loop env outcome cancelled orgID ids (attempt + 1) (Some e) db1 of
                (err', db2, tries) \<Rightarrow> (err', db2, attempt # tries)))"
  by pat_completeness auto
termination
  by (relation "measure (\<lambda>(env, outcome, cancelled, orgID, ids, attempt, err, db). Suc reorderPoliciesMaxAttempts - attempt)") auto

declare reorder_loop.simps [simp del]

definition reorderPoliciesWithRetry ::
  "policy_env \<Rightarrow> (nat \<Rightarrow> go_error option) \<Rightarrow> (nat \<Rightarrow> bool) \<Rightarrow> uuid \<Rightarrow> uuid list \<Rightarrow> policy_db \<Rightarrow> go_error option \<times> policy_db \<times> nat list" where
  "reorderPoliciesWithRetry env outcome cancelled orgID ids db = reorder_loop env outcome cancelled orgID ids 1 None db"

definition ReorderPolicies ::
  "policy_env \<Rightarrow> (nat \<Rightarrow> go_error option) \<Rightarrow> (nat \<Rightarrow> bool) \<Rightarrow> go_error option \<Rightarrow> userClaims \<Rightarrow> uuid list option \<Rightarrow> policy_db
   \<Rightarrow> PolicyResp list served_policy" where
  "ReorderPolicies env outcome cancelled listErr uc body db =
     (case body of
        None \<Rightarrow> (Inl (400, ''bad_request'', ''policy_ids (array of UUIDs) is required''), db, False)
      | Some ids \<Rightarrow>
        if ids = [] then (Inl (400, ''bad_request'', ''policy_ids (array of UUIDs) is required''), db, False)
        else if \<not> distinct ids then (Inl (400, ''bad_request'', ''policy_ids must not contain duplicates''), db, False)
        else (case reorderPoliciesWithRetry env outcome cancelled (ucOrgID uc) ids db of
          (Some err, db1, _) \<Rightarrow> (Inl (internal_error (peErrText env err)), db1, False)
        | (None, db1, _) \<Rightarrow>
          (case store_ListPolicies env listErr (ucOrgID uc) None db1 of
             Inl err \<Rightarrow> (Inl (internal_error (peErrText env err)), db1, True)
           | Inr rows \<Rightarrow> (Inr (200, map (\<lambda>r. policyRowToResp r (condition_of db1 (plID r))) rows), db1, True))))"

section \<open>Workspace policies (workspace_policies.go)\<close>

definition priority_taken :: api_error where
  "priority_taken = (409, ''conflict'', ''a policy with this priority already exists in this workspace'')"

definition getWorkspacePolicyRow :: "policy_env \<Rightarrow> go_error option \<Rightarrow> uuid \<Rightarrow> uuid \<Rightarrow> policy_db \<Rightarrow> PolicyResp result" where
  "getWorkspacePolicyRow env readErr i orgID db = read_policy readErr (scanWorkspacePolicyRow env) i orgID db"

text \<open>The end of both writing handlers: the notification and the row that is read back.\<close>

definition read_back :: "policy_env \<Rightarrow> go_error option \<Rightarrow> int \<Rightarrow> uuid \<Rightarrow> uuid \<Rightarrow> policy_db \<Rightarrow> PolicyResp served_policy" where
  "read_back env readErr status i orgID db =
     (case getWorkspacePolicyRow env readErr i orgID db of
        Inl err \<Rightarrow> (Inl (internal_error (peErrText env err)), db, True)
      | Inr resp \<Rightarrow> (Inr (status, resp), db, True))"

definition CreateWorkspacePolicy ::
  "policy_env \<Rightarrow> go_error option \<Rightarrow> go_error option \<Rightarrow> go_error option \<Rightarrow> uuid \<Rightarrow> userClaims \<Rightarrow> string \<Rightarrow> PolicyCreateRequest option
   \<Rightarrow> policy_db \<Rightarrow> PolicyResp served_policy" where
  "CreateWorkspacePolicy env insErr condErr readErr newID uc rawWs body db =
     (case peParseUUID env rawWs of
        None \<Rightarrow> (Inl (400, ''bad_request'', ''invalid workspaceId''), db, False)
      | Some ws \<Rightarrow>
        (case create_checks body of
           Inl e \<Rightarrow> (Inl e, db, False)
         | Inr (q, c) \<Rightarrow>
           (case store_CreatePolicy env insErr (new_policy newID uc (Some ws) q) db of
              (Some err, db1) \<Rightarrow>
                (Inl (if isUniqueViolation env err then priority_taken
                      else internal_error (''create policy: '' @ peErrText env err)), db1, False)
            | (None, db1) \<Rightarrow>
              (case store_CreatePolicyCondition env condErr (conditionsReqToParams newID c) db1 of
                 (Some err, db2) \<Rightarrow> (Inl (internal_error (''conditions failed: '' @ peErrText env err)), db2, False)
               | (None, db2) \<Rightarrow> read_back env readErr 201 newID (ucOrgID uc) db2))))"

definition in_workspace :: "uuid \<Rightarrow> uuid \<Rightarrow> uuid \<Rightarrow> policy_row \<Rightarrow> bool" where
  "in_workspace i orgID ws r = (plID r = i \<and> plOrgID r = orgID \<and> plWorkspaceID r = Some ws)"

definition UpdateWorkspacePolicy ::
  "policy_env \<Rightarrow> go_error option \<Rightarrow> go_error option \<Rightarrow> go_error option \<Rightarrow> userClaims \<Rightarrow> string \<Rightarrow> string \<Rightarrow> PolicyUpdateRequest option
   \<Rightarrow> policy_db \<Rightarrow> PolicyResp served_policy" where
  "UpdateWorkspacePolicy env updErr condErr readErr uc rawWs raw body db =
     (case peParseUUID env rawWs of
        None \<Rightarrow> (Inl (400, ''bad_request'', ''invalid workspaceId''), db, False)
      | Some ws \<Rightarrow>
        (case peParseUUID env raw of
           None \<Rightarrow> (Inl (400, ''bad_request'', ''invalid policyId''), db, False)
         | Some i \<Rightarrow>
           (case body of
              None \<Rightarrow> (Inl (400, ''bad_request'', ''invalid JSON body''), db, False)
            | Some q \<Rightarrow>
              (case store_UpdatePolicy env updErr (in_workspace i (ucOrgID uc) ws) q db of
                 (Some err, db1) \<Rightarrow>
                   (Inl (if err = Sentinel ErrNoRows then (404, ''not_found'', ''policy not found in this workspace'')
                         else if isUniqueViolation env err then priority_taken
                         else internal_error (peErrText env err)), db1, False)
               | (None, db1) \<Rightarrow>
                 (case quConditions q of
                    None \<Rightarrow> read_back env readErr 200 i (ucOrgID uc) db1
                  | Some c \<Rightarrow>
                    (case store_UpsertPolicyCondition condErr (conditionsReqToParams i c) db1 of
                       (Some err, db2) \<Rightarrow> (Inl (internal_error (''conditions failed: '' @ peErrText env err)), db2, False)
                     | (None, db2) \<Rightarrow> read_back env readErr 200 i (ucOrgID uc) db2))))))"

definition DeleteWorkspacePolicy ::
  "policy_env \<Rightarrow> go_error option \<Rightarrow> userClaims \<Rightarrow> string \<Rightarrow> string \<Rightarrow> policy_db \<Rightarrow> unit served_policy" where
  "DeleteWorkspacePolicy env delErr uc rawWs raw db =
     (case peParseUUID env rawWs of
        None \<Rightarrow> (Inl (400, ''bad_request'', ''invalid workspaceId''), db, False)
      | Some ws \<Rightarrow>
        (case peParseUUID env raw of
           None \<Rightarrow> (Inl (400, ''bad_request'', ''invalid policyId''), db, False)
         | Some i \<Rightarrow>
           (case store_DeletePolicy delErr (in_workspace i (ucOrgID uc) ws) db of
              (Inl err, db1) \<Rightarrow> (Inl (internal_error (peErrText env err)), db1, False)
            | (Inr n, db1) \<Rightarrow>
              if n = 0 then (Inl (404, ''not_found'', ''policy not found in this workspace''), db1, False)
              else (Inr (204, ()), db1, True))))"

definition ListWorkspacePolicies ::
  "policy_env \<Rightarrow> go_error option \<Rightarrow> userClaims \<Rightarrow> string \<Rightarrow> policy_db \<Rightarrow> api_error + int \<times> PolicyResp list" where
  "ListWorkspacePolicies env dbErr uc rawWs db =
     (case peParseUUID env rawWs of
        None \<Rightarrow> Inl (400, ''bad_request'', ''invalid workspaceId'')
      | Some ws \<Rightarrow>
        (case dbErr of
           Some err \<Rightarrow> Inl (internal_error (peErrText env err))
         | None \<Rightarrow>
           Inr (200, map (\<lambda>r. scanWorkspacePolicyRow env r (condition_of db (plID r)))
             (sort_key (\<lambda>r. plWorkspaceID r \<noteq> None) (sort_key plPriority
               (filter (\<lambda>r. plOrgID r = ucOrgID uc \<and> (plWorkspaceID r = Some ws \<or> plWorkspaceID r = None))
                 (peScan env (dbPolicies db))))))))"

section \<open>The loader (policyloader/loader.go)\<close>

text \<open>\<^verbatim>\<open>LEFT JOIN policy_conditions\<close>.\<close>

definition joined :: "policy_db \<Rightarrow> policy_row \<Rightarrow> (policy_row \<times> condition_row option) list" where
  "joined db r =
     (case filter (\<lambda>c. pdPolicyID c = plID r) (dbConditions db) of
        [] \<Rightarrow> [(r, None)]
      | cs \<Rightarrow> map (\<lambda>c. (r, Some c)) cs)"

text \<open>\<^verbatim>\<open>ORDER BY (workspace_id IS NULL) DESC, priority ASC, id ASC\<close>.\<close>

definition load_order :: "policy_row list \<Rightarrow> policy_row list" where
  "load_order rows = sort_key (\<lambda>r. plWorkspaceID r \<noteq> None) (sort_key plPriority (sort_key plID rows))"

definition load_query :: "policy_db \<Rightarrow> (policy_row \<times> condition_row option) list" where
  "load_query db = concat (map (joined db) (load_order (filter (\<lambda>r. plStatus r = ''active'') (dbPolicies db))))"

definition rule_of_row :: "policy_row \<times> condition_row option \<Rightarrow> Rule" where
  "rule_of_row = (\<lambda>(r, co).
     \<lparr>rID = plID r, rOrgID = plOrgID r, rWorkspaceID = (case plWorkspaceID r of None \<Rightarrow> [] | Some w \<Rightarrow> w), rName = plName r,
      rPriority = plPriority r,
      rConditions = (case co of
          None \<Rightarrow> \<lparr>AgentNamePattern = [], ToolNames = [], ToolServerIDs = [], ActionTypes = [], Environments = [],
                   RecordCountGT = None, SemanticRule = [], ScopeDrift = False\<rparr>
        | Some c \<Rightarrow> \<lparr>AgentNamePattern = (case pdAgentNamePattern c of None \<Rightarrow> [] | Some p \<Rightarrow> p), ToolNames = pdToolNames c,
                   ToolServerIDs = pdToolServerIDs c, ActionTypes = pdActionTypes c, Environments = pdEnvironments c,
                   RecordCountGT = pdRecordCountGT c,
                   SemanticRule = (case pdSemanticRule c of None \<Rightarrow> [] | Some x \<Rightarrow> x), ScopeDrift = pdScopeDrift c\<rparr>),
      rAction = plAction r, rAlert = plAlert r\<rparr>)"

text \<open>The loop over the rows, with the set of ids seen before.\<close>

fun scan_rules :: "uuid list \<Rightarrow> (policy_row \<times> condition_row option) list \<Rightarrow> Rule list" where
  "scan_rules seen [] = []"
| "scan_rules seen (x # xs) =
     (if plID (fst x) \<in> set seen then scan_rules seen xs
      else rule_of_row x # scan_rules (plID (fst x) # seen) xs)"

definition queryRules :: "go_error option \<Rightarrow> policy_db \<Rightarrow> Rule list result" where
  "queryRules dbErr db = (case dbErr of Some err \<Rightarrow> Inl err | None \<Rightarrow> Inr (scan_rules [] (load_query db)))"

record Loader =
  ldCurrent :: "evaluator option"
  ldRuleCount :: int

definition loader_Evaluator :: "(Rule list \<Rightarrow> Rule list) \<Rightarrow> Loader \<Rightarrow> evaluator" where
  "loader_Evaluator srt l = (case ldCurrent l of Some ev \<Rightarrow> ev | None \<Rightarrow> NewEvaluator srt [] [])"

definition loader_store :: "(Rule list \<Rightarrow> Rule list) \<Rightarrow> Rule list \<Rightarrow> Loader \<Rightarrow> Loader" where
  "loader_store srt rules l = l\<lparr>ldCurrent := Some (NewEvaluator srt rules []), ldRuleCount := int (length rules)\<rparr>"

definition loader_Load :: "(Rule list \<Rightarrow> Rule list) \<Rightarrow> go_error option \<Rightarrow> policy_db \<Rightarrow> Loader \<Rightarrow> go_error option \<times> Loader" where
  "loader_Load srt dbErr db l =
     (case queryRules dbErr db of
        Inl err \<Rightarrow> (Some (Wrapped ''policyloader: query: '' err), l)
      | Inr rules \<Rightarrow> (None, loader_store srt rules l))"

definition loader_Seed :: "(Rule list \<Rightarrow> Rule list) \<Rightarrow> Rule list \<Rightarrow> Loader \<Rightarrow> Loader" where
  "loader_Seed srt rules l = loader_store srt rules l"

text \<open>What \<^verbatim>\<open>WaitForNotification\<close> returns, with the outcome of the load that follows and the
  tables at that time.\<close>

datatype wait_event =
    Reload "go_error option" policy_db
  | WaitError go_error
  | WaitDone

fun listen_loop :: "(Rule list \<Rightarrow> Rule list) \<Rightarrow> wait_event list \<Rightarrow> Loader \<Rightarrow> Loader" where
  "listen_loop srt [] l = l"
| "listen_loop srt (WaitDone # evs) l = l"
| "listen_loop srt (WaitError err # evs) l = l"
| "listen_loop srt (Reload dbErr db # evs) l = listen_loop srt evs (snd (loader_Load srt dbErr db l))"

definition loader_Listen :: "(Rule list \<Rightarrow> Rule list) \<Rightarrow> go_error option \<Rightarrow> go_error option \<Rightarrow> wait_event list \<Rightarrow> Loader \<Rightarrow> Loader" where
  "loader_Listen srt acqErr listenErr evs l =
     (if acqErr \<noteq> None \<or> listenErr \<noteq> None then l else listen_loop srt evs l)"

section \<open>The tables stay well formed\<close>

text \<open>The constraints of the schema; an id is not the empty text.\<close>

definition policy_db_ok :: "policy_db \<Rightarrow> bool" where
  "policy_db_ok db =
     (list_all policy_checks (dbPolicies db) \<and> distinct (map rank_key (dbPolicies db)) \<and> distinct (map plID (dbPolicies db))
      \<and> distinct (map pdPolicyID (dbConditions db)) \<and> set (map pdPolicyID (dbConditions db)) \<subseteq> set (map plID (dbPolicies db))
      \<and> (\<forall>r\<in>set (dbPolicies db). plOrgID r \<noteq> [] \<and> plWorkspaceID r \<noteq> Some []))"

text \<open>The statements that write.\<close>

inductive policy_stmt :: "policy_env \<Rightarrow> (policy_row \<Rightarrow> bool) \<Rightarrow> policy_db \<Rightarrow> policy_db \<Rightarrow> bool"
  for env :: policy_env and own :: "policy_row \<Rightarrow> bool" where
  insert: "plID r \<notin> set (map plID (dbPolicies db)) \<Longrightarrow> plOrgID r \<noteq> [] \<Longrightarrow> plWorkspaceID r \<noteq> Some [] \<Longrightarrow> own r
    \<Longrightarrow> policy_stmt env own db (snd (store_CreatePolicy env dbErr r db))"
| condition: "r \<in> set (dbPolicies db) \<Longrightarrow> own r \<Longrightarrow> pdPolicyID c = plID r
    \<Longrightarrow> policy_stmt env own db (snd (store_CreatePolicyCondition env dbErr c db))"
| upsert: "r \<in> set (dbPolicies db) \<Longrightarrow> own r \<Longrightarrow> pdPolicyID c = plID r
    \<Longrightarrow> policy_stmt env own db (snd (store_UpsertPolicyCondition dbErr c db))"
| update: "(\<And>r. sel r \<Longrightarrow> own r) \<Longrightarrow> (\<And>r. sel r \<Longrightarrow> own (set_policy q r))
    \<Longrightarrow> policy_stmt env own db (snd (store_UpdatePolicy env dbErr sel q db))"
| delete: "(\<And>r. sel r \<Longrightarrow> own r) \<Longrightarrow> policy_stmt env own db (snd (store_DeletePolicy dbErr sel db))"
| reorder: "(\<And>r. plOrgID r = orgID \<Longrightarrow> own r)
    \<Longrightarrow> policy_stmt env own db (snd (store_ReorderPolicies env dbErr orgID ids db))"

lemma set_policy_keeps [simp]:
  "plID (set_policy q r) = plID r" "plOrgID (set_policy q r) = plOrgID r" "plWorkspaceID (set_policy q r) = plWorkspaceID r"
  by (simp_all add: set_policy_def)

lemma renumber_keeps [simp]:
  "plID (renumber o' ids r) = plID r" "plOrgID (renumber o' ids r) = plOrgID r" "plWorkspaceID (renumber o' ids r) = plWorkspaceID r"
  by (simp_all add: renumber_def split: option.split)

lemma commit_policies_cases:
  obtains "commit_policies env rows db = (None, db\<lparr>dbPolicies := rows\<rparr>)" "list_all policy_checks rows" "distinct (map rank_key rows)"
  | err where "commit_policies env rows db = (Some err, db)"
  by (cases "list_all policy_checks rows"; cases "distinct (map rank_key rows)") (auto simp: commit_policies_def)

lemma commit_ok:
  assumes "policy_db_ok db" and "distinct (map plID rows)" and "set (map plID (dbPolicies db)) \<subseteq> set (map plID rows)"
    and "\<forall>r\<in>set rows. plOrgID r \<noteq> [] \<and> plWorkspaceID r \<noteq> Some []"
  shows "policy_db_ok (snd (commit_policies env rows db))"
proof (rule commit_policies_cases [of env rows db])
  have "set (map pdPolicyID (dbConditions db)) \<subseteq> set (map plID rows)"
    using assms(1,3) by (metis policy_db_ok_def subset_trans)
  then show ?thesis if "commit_policies env rows db = (None, db\<lparr>dbPolicies := rows\<rparr>)" "list_all policy_checks rows" "distinct (map rank_key rows)"
    using that assms by (simp add: policy_db_ok_def)
  show ?thesis if "commit_policies env rows db = (Some err, db)" for err using that assms by simp
qed

lemma commit_map_ok:
  assumes "policy_db_ok db" and "\<And>r. plID (f r) = plID r \<and> plOrgID (f r) = plOrgID r \<and> plWorkspaceID (f r) = plWorkspaceID r"
  shows "policy_db_ok (snd (commit_policies env (map f (dbPolicies db)) db))"
proof -
  have ids: "map plID (map f (dbPolicies db)) = map plID (dbPolicies db)" by (simp add: assms(2))
  show ?thesis by (rule commit_ok [OF assms(1)]) (use assms in \<open>auto simp: ids policy_db_ok_def simp del: map_map\<close>)
qed

lemma delete_ok: "policy_db_ok db \<Longrightarrow> policy_db_ok (snd (store_DeletePolicy dbErr sel db))"
proof (cases dbErr)
  case None
  assume ok: "policy_db_ok db"
  have "pdPolicyID c \<in> plID ` {r \<in> set (dbPolicies db). \<not> sel r}"
    if "c \<in> set (dbConditions db)" "\<forall>r\<in>set (dbPolicies db). sel r \<longrightarrow> plID r \<noteq> pdPolicyID c" for c
    using ok that by (force simp: policy_db_ok_def)
  then show ?thesis
    using ok None
    by (auto simp: policy_db_ok_def store_DeletePolicy_def list_all_iff list_ex_iff distinct_map_filter)
qed (simp add: store_DeletePolicy_def)

lemma policy_stmt_ok: "policy_stmt env own db db' \<Longrightarrow> policy_db_ok db \<Longrightarrow> policy_db_ok db'"
proof (induction rule: policy_stmt.induct)
  case (insert r db dbErr)
  show ?case
  proof (cases dbErr)
    case None
    have "policy_db_ok (snd (commit_policies env (dbPolicies db @ [r]) db))"
      by (rule commit_ok [OF insert.prems]) (use insert in \<open>auto simp: policy_db_ok_def\<close>)
    then show ?thesis by (simp add: store_CreatePolicy_def None)
  qed (simp add: store_CreatePolicy_def insert)
next
  case (condition r db c dbErr)
  then show ?case
    by (auto simp: store_CreatePolicyCondition_def policy_db_ok_def list_ex_iff split: option.split)
next
  case (upsert r db c dbErr)
  have ids: "map pdPolicyID (map (\<lambda>x. if pdPolicyID x = plID r then keep_servers c x else x) cs) = map pdPolicyID cs" for cs
    using upsert by (auto simp: keep_servers_def)
  show ?case
    using upsert by (auto simp: store_UpsertPolicyCondition_def policy_db_ok_def list_ex_iff ids keep_servers_def
        simp del: map_map split: option.split)
next
  case (update sel q db dbErr)
  have "policy_db_ok (snd (commit_policies env (map (\<lambda>r. if sel r then set_policy q r else r) (dbPolicies db)) db))"
    by (rule commit_map_ok) (use update in auto)
  then show ?case using update by (simp add: store_UpdatePolicy_def split: option.split)
next
  case (delete sel db dbErr)
  then show ?case by (simp add: delete_ok)
next
  case (reorder orgID db dbErr ids)
  have "policy_db_ok (snd (commit_policies env (map (renumber orgID ids) (dbPolicies db)) db))"
    by (rule commit_map_ok) (use reorder in auto)
  then show ?case using reorder by (simp add: store_ReorderPolicies_def split: option.split)
qed

text \<open>A statement of an owner leaves the rows of everyone else, and their conditions, alone.\<close>

definition confined :: "(policy_row \<Rightarrow> bool) \<Rightarrow> policy_db \<Rightarrow> policy_db \<Rightarrow> bool" where
  "confined own db db' =
     (filter (\<lambda>r. \<not> own r) (dbPolicies db') = filter (\<lambda>r. \<not> own r) (dbPolicies db)
      \<and> (\<forall>r\<in>set (dbPolicies db). \<not> own r \<longrightarrow> condition_of db' (plID r) = condition_of db (plID r)))"

lemma confined_refl [simp]: "confined own db db"
  by (simp add: confined_def)

lemma confined_trans: "confined own db db1 \<Longrightarrow> confined own db1 db2 \<Longrightarrow> confined own db db2"
proof -
  assume a: "confined own db db1" "confined own db1 db2"
  have "r \<in> set (dbPolicies db1)" if "r \<in> set (dbPolicies db)" "\<not> own r" for r
    using a(1) that unfolding confined_def by (metis (mono_tags, lifting) mem_Collect_eq set_filter)
  with a show ?thesis by (simp add: confined_def)
qed

lemma confined_commit_map:
  assumes "\<And>r. own (f r) = own r" and "\<And>r. \<not> own r \<Longrightarrow> f r = r"
  shows "confined own db (snd (commit_policies env (map f (dbPolicies db)) db))"
proof -
  have "filter (\<lambda>r. \<not> own r) (map f rows) = filter (\<lambda>r. \<not> own r) rows" for rows
    by (induction rows) (simp_all add: assms)
  then show ?thesis
    by (cases rule: commit_policies_cases [of env "map f (dbPolicies db)" db]) (simp_all add: confined_def condition_of_def)
qed

lemma other_id:
  assumes "policy_db_ok db" "r \<in> set (dbPolicies db)" "x \<in> set (dbPolicies db)" "own r" "\<not> own x"
  shows "plID x \<noteq> plID r"
  using assms by (auto simp: policy_db_ok_def distinct_map dest: inj_onD)

lemma find_other_append: "pdPolicyID c \<noteq> i \<Longrightarrow> List.find (\<lambda>c. pdPolicyID c = i) (cs @ [c]) = List.find (\<lambda>c. pdPolicyID c = i) cs"
  by (induction cs) auto

lemma find_other_map:
  "pdPolicyID c \<noteq> i \<Longrightarrow> List.find (\<lambda>c. pdPolicyID c = i) (map (\<lambda>x. if pdPolicyID x = pdPolicyID c then keep_servers c x else x) cs)
     = List.find (\<lambda>c. pdPolicyID c = i) cs"
  by (induction cs) (auto simp: keep_servers_def)

lemma confined_delete:
  assumes "policy_db_ok db" "\<And>r. sel r \<Longrightarrow> own r"
  shows "confined own db (snd (store_DeletePolicy dbErr sel db))"
proof (cases dbErr)
  case None
  have "filter (\<lambda>r. \<not> own r) (filter (\<lambda>r. \<not> sel r) rows) = filter (\<lambda>r. \<not> own r) rows" for rows
    using assms(2) by (induction rows) auto
  moreover have "condition_of (snd (store_DeletePolicy dbErr sel db)) (plID x) = condition_of db (plID x)"
    if x: "x \<in> set (dbPolicies db)" "\<not> own x" for x
  proof -
    have "\<not> (\<exists>r\<in>set (dbPolicies db). sel r \<and> plID r = plID x)"
      using other_id [where own = own, OF assms(1) _ x(1) _ x(2)] assms(2) by metis
    then have "pdPolicyID c = plID x \<Longrightarrow> \<not> list_ex (\<lambda>r. sel r \<and> plID r = pdPolicyID c) (dbPolicies db)" for c
      by (auto simp: list_ex_iff)
    from find_filter_implied [OF this] show ?thesis by (simp add: condition_of_def store_DeletePolicy_def None)
  qed
  ultimately show ?thesis by (simp add: confined_def) (simp add: store_DeletePolicy_def None)
qed (simp add: store_DeletePolicy_def)

lemma policy_stmt_confined: "policy_stmt env own db db' \<Longrightarrow> policy_db_ok db \<Longrightarrow> (\<And>r k. own (r\<lparr>plPriority := k\<rparr>) = own r) \<Longrightarrow> confined own db db'"
proof (induction rule: policy_stmt.induct)
  case (insert r db dbErr)
  then show ?case
    by (cases rule: commit_policies_cases [of env "dbPolicies db @ [r]" db])
      (auto simp: store_CreatePolicy_def confined_def condition_of_def split: option.split)
next
  case (condition r db c dbErr)
  have "pdPolicyID c \<noteq> plID x" if "x \<in> set (dbPolicies db)" "\<not> own x" for x
    using other_id [where own = own, OF condition.prems(1) condition.hyps(1) that(1) condition.hyps(2) that(2)] condition.hyps(3) by simp
  then show ?case
    by (auto simp: store_CreatePolicyCondition_def confined_def condition_of_def find_other_append split: option.split)
next
  case (upsert r db c dbErr)
  have "pdPolicyID c \<noteq> plID x" if "x \<in> set (dbPolicies db)" "\<not> own x" for x
    using other_id [where own = own, OF upsert.prems(1) upsert.hyps(1) that(1) upsert.hyps(2) that(2)] upsert.hyps(3) by simp
  then show ?case
    by (cases dbErr) (auto simp: store_UpsertPolicyCondition_def confined_def condition_of_def find_other_append find_other_map)
next
  case (update sel q db dbErr)
  have "confined own db (snd (commit_policies env (map (\<lambda>r. if sel r then set_policy q r else r) (dbPolicies db)) db))"
    by (rule confined_commit_map) (use update.hyps in \<open>auto split: if_splits\<close>)
  then show ?case by (simp add: store_UpdatePolicy_def split: option.split)
next
  case (delete sel db dbErr)
  then show ?case by (simp add: confined_delete)
next
  case (reorder orgID db dbErr ids)
  have "confined own db (snd (commit_policies env (map (renumber orgID ids) (dbPolicies db)) db))"
    by (rule confined_commit_map) (use reorder in \<open>auto simp: renumber_def split: option.splits\<close>)
  then show ?case by (simp add: store_ReorderPolicies_def split: option.split)
qed

section \<open>What a writing handler promises\<close>

text \<open>The tables after a request, for the requests that meet \<open>pre\<close>: statements of one owner.\<close>

locale policy_writer =
  fixes env :: policy_env and own :: "policy_row \<Rightarrow> bool" and pre :: "'r \<Rightarrow> policy_db \<Rightarrow> bool"
    and after :: "'r \<Rightarrow> policy_db \<Rightarrow> policy_db"
  assumes runs: "pre q db \<Longrightarrow> policy_db_ok db \<Longrightarrow> (policy_stmt env own)\<^sup>*\<^sup>* db (after q db)"
    and scope: "own (r\<lparr>plPriority := k\<rparr>) = own r"
begin

lemma run_keeps: "(policy_stmt env own)\<^sup>*\<^sup>* db db' \<Longrightarrow> policy_db_ok db \<Longrightarrow> policy_db_ok db' \<and> confined own db db'"
proof (induction rule: rtranclp_induct)
  case (step db1 db2)
  then show ?case
    by (metis confined_trans policy_stmt_confined policy_stmt_ok scope)
qed simp

lemma keeps_ok: "pre q db \<Longrightarrow> policy_db_ok db \<Longrightarrow> policy_db_ok (after q db)"
  using runs run_keeps by blast

lemma keeps_others: "pre q db \<Longrightarrow> policy_db_ok db \<Longrightarrow> confined own db (after q db)"
  using runs run_keeps by blast

end

lemma create_success: "store_CreatePolicy env dbErr r db = (None, db1) \<Longrightarrow> r \<in> set (dbPolicies db1)"
  by (auto simp: store_CreatePolicy_def commit_policies_def split: option.splits if_splits)

lemma update_success:
  assumes "store_UpdatePolicy env dbErr sel q db = (None, db1)" "\<And>r. sel r \<Longrightarrow> sel (set_policy q r)"
  shows "\<exists>r\<in>set (dbPolicies db1). sel r"
  using assms by (fastforce simp: store_UpdatePolicy_def commit_policies_def list_ex_iff split: option.splits if_splits)

lemma run_create:
  assumes "plID r \<notin> set (map plID (dbPolicies db))" "plOrgID r \<noteq> []" "plWorkspaceID r \<noteq> Some []" "own r" "pdPolicyID c = plID r"
    and "store_CreatePolicy env insErr r db = (e, db1)"
  shows "policy_stmt env own db db1"
    and "e = None \<Longrightarrow> policy_stmt env own db1 (snd (store_CreatePolicyCondition env condErr c db1))"
  using policy_stmt.insert [where own = own, OF assms(1-4), of env insErr] policy_stmt.condition [of r db1 own c env condErr] create_success assms(4-6)
  by auto

lemma run_update:
  assumes "store_UpdatePolicy env updErr sel q db = (e, db1)" "\<And>r. sel r \<Longrightarrow> sel (set_policy q r)" "\<And>r. sel r \<Longrightarrow> own r"
    and "\<And>r. sel r \<Longrightarrow> plID r = pdPolicyID c"
  shows "policy_stmt env own db db1"
    and "e = None \<Longrightarrow> policy_stmt env own db1 (snd (store_UpsertPolicyCondition condErr c db1))"
proof -
  show "policy_stmt env own db db1"
    using policy_stmt.update [of sel own q env db updErr] assms by simp
  assume "e = None"
  then obtain r where "r \<in> set (dbPolicies db1)" "sel r"
    using update_success [of env updErr sel q db db1] assms(1,2) by auto
  then show "policy_stmt env own db1 (snd (store_UpsertPolicyCondition condErr c db1))"
    using policy_stmt.upsert [of r db1 own c env condErr] assms(3,4) by simp
qed

subsection \<open>The handlers\<close>

definition own_workspace :: "policy_env \<Rightarrow> userClaims \<Rightarrow> string \<Rightarrow> policy_row \<Rightarrow> bool" where
  "own_workspace env uc rawWs r =
     (plOrgID r = ucOrgID uc \<and> plWorkspaceID r \<noteq> None \<and> plWorkspaceID r = peParseUUID env rawWs)"

text \<open>The ids that the database and the verified token give are ids.\<close>

definition proper_ids :: "policy_env \<Rightarrow> userClaims \<Rightarrow> bool" where
  "proper_ids env uc = (ucOrgID uc \<noteq> [] \<and> (\<forall>raw. peParseUUID env raw \<noteq> Some []))"

definition fresh_policy :: "uuid \<Rightarrow> policy_db \<Rightarrow> bool" where
  "fresh_policy i db = (i \<notin> set (map plID (dbPolicies db)))"

lemmas rtranclp_one = r_into_rtranclp
lemmas rtranclp_two = converse_rtranclp_into_rtranclp [OF _ r_into_rtranclp]

lemma new_policy_keys [simp]:
  "plID (new_policy i uc ws q) = i" "plOrgID (new_policy i uc ws q) = ucOrgID uc" "plWorkspaceID (new_policy i uc ws q) = ws"
  by (simp_all add: new_policy_def)

lemma params_key [simp]: "pdPolicyID (conditionsReqToParams i c) = i"
  by (simp add: conditionsReqToParams_def)

lemma CreateWorkspacePolicy_runs:
  assumes "proper_ids env uc" "fresh_policy newID db"
  shows "(policy_stmt env (own_workspace env uc rawWs))\<^sup>*\<^sup>* db
     (fst (snd (CreateWorkspacePolicy env insErr condErr readErr newID uc rawWs body db)))"
proof (cases "peParseUUID env rawWs")
  case (Some ws)
  show ?thesis
  proof (cases "create_checks body")
    case (Inr p)
    obtain q c where p: "p = (q, c)" by force
    obtain e db1 where ins: "store_CreatePolicy env insErr (new_policy newID uc (Some ws) q) db = (e, db1)" by force
    obtain e2 db2 where con: "store_CreatePolicyCondition env condErr (conditionsReqToParams newID c) db1 = (e2, db2)" by force
    have keys: "plID (new_policy newID uc (Some ws) q) \<notin> set (map plID (dbPolicies db))"
      "plOrgID (new_policy newID uc (Some ws) q) \<noteq> []" "plWorkspaceID (new_policy newID uc (Some ws) q) \<noteq> Some []"
      "own_workspace env uc rawWs (new_policy newID uc (Some ws) q)"
      "pdPolicyID (conditionsReqToParams newID c) = plID (new_policy newID uc (Some ws) q)"
      using assms Some by (auto simp: proper_ids_def fresh_policy_def own_workspace_def)
    note steps = run_create(1) [where own = "own_workspace env uc rawWs", OF keys ins]
      run_create(2) [where own = "own_workspace env uc rawWs" and condErr = condErr, OF keys ins, unfolded con]
    have res: "fst (snd (CreateWorkspacePolicy env insErr condErr readErr newID uc rawWs body db)) = (if e = None then db2 else db1)"
      by (auto simp: CreateWorkspacePolicy_def Some Inr p ins con read_back_def split: option.splits sum.split)
    show ?thesis
      using steps by (auto simp: res intro: rtranclp_one rtranclp_two)
  qed (simp add: CreateWorkspacePolicy_def Some)
qed (simp add: CreateWorkspacePolicy_def)

lemma UpdateWorkspacePolicy_runs:
  "(policy_stmt env (own_workspace env uc rawWs))\<^sup>*\<^sup>* db
     (fst (snd (UpdateWorkspacePolicy env updErr condErr readErr uc rawWs raw body db)))"
proof (cases "\<exists>ws i q. peParseUUID env rawWs = Some ws \<and> peParseUUID env raw = Some i \<and> body = Some q")
  case True
  then obtain ws i q where a: "peParseUUID env rawWs = Some ws" "peParseUUID env raw = Some i" "body = Some q" by blast
  obtain e db1 where upd: "store_UpdatePolicy env updErr (in_workspace i (ucOrgID uc) ws) q db = (e, db1)" by force
  have sel: "in_workspace i (ucOrgID uc) ws (set_policy q r)" "own_workspace env uc rawWs r" "plID r = pdPolicyID (conditionsReqToParams i c)"
    if "in_workspace i (ucOrgID uc) ws r" for r c
    using that a by (auto simp: in_workspace_def own_workspace_def)
  note steps = run_update [where own = "own_workspace env uc rawWs", OF upd sel(1) sel(2) sel(3)]
  have res: "fst (snd (UpdateWorkspacePolicy env updErr condErr readErr uc rawWs raw body db)) =
    (case quConditions q of
       Some c \<Rightarrow> if e = None then snd (store_UpsertPolicyCondition condErr (conditionsReqToParams i c) db1) else db1
     | None \<Rightarrow> db1)"
    by (auto simp: UpdateWorkspacePolicy_def a upd read_back_def split: option.splits sum.split prod.splits)
  show ?thesis
    unfolding res using steps by (auto intro: rtranclp_one rtranclp_two split: option.split)
next
  case False
  then show ?thesis by (auto simp: UpdateWorkspacePolicy_def split: option.split)
qed

lemma DeleteWorkspacePolicy_runs:
  "(policy_stmt env (own_workspace env uc rawWs))\<^sup>*\<^sup>* db (fst (snd (DeleteWorkspacePolicy env delErr uc rawWs raw db)))"
proof (cases "\<exists>ws i. peParseUUID env rawWs = Some ws \<and> peParseUUID env raw = Some i")
  case True
  then obtain ws i where a: "peParseUUID env rawWs = Some ws" "peParseUUID env raw = Some i" by blast
  have "policy_stmt env (own_workspace env uc rawWs) db (snd (store_DeletePolicy delErr (in_workspace i (ucOrgID uc) ws) db))"
    by (rule policy_stmt.delete) (auto simp: in_workspace_def own_workspace_def a)
  moreover have "fst (snd (DeleteWorkspacePolicy env delErr uc rawWs raw db)) = snd (store_DeletePolicy delErr (in_workspace i (ucOrgID uc) ws) db)"
    by (simp add: DeleteWorkspacePolicy_def a split: prod.split sum.split)
  ultimately show ?thesis by (simp add: rtranclp_one)
next
  case False
  then show ?thesis by (auto simp: DeleteWorkspacePolicy_def split: option.split)
qed

lemma CreatePolicy_runs:
  assumes "proper_ids env uc" "fresh_policy newID db"
  shows "(policy_stmt env (\<lambda>r. True))\<^sup>*\<^sup>* db (fst (snd (CreatePolicy env insErr condErr newID uc body db)))"
proof (cases "create_checks body")
  case (Inr p)
  obtain q c where p: "p = (q, c)" by force
  obtain e db1 where ins: "store_CreatePolicy env insErr (new_policy newID uc None q) db = (e, db1)" by force
  obtain e2 db2 where con: "store_CreatePolicyCondition env condErr (conditionsReqToParams newID c) db1 = (e2, db2)" by force
  have keys: "plID (new_policy newID uc None q) \<notin> set (map plID (dbPolicies db))"
    "plOrgID (new_policy newID uc None q) \<noteq> []" "plWorkspaceID (new_policy newID uc None q) \<noteq> Some []" "True"
    "pdPolicyID (conditionsReqToParams newID c) = plID (new_policy newID uc None q)"
    using assms by (auto simp: proper_ids_def fresh_policy_def)
  note steps = run_create(1) [where own = "\<lambda>r. True", OF keys ins]
      run_create(2) [where own = "\<lambda>r. True" and condErr = condErr, OF keys ins, unfolded con]
  have res: "fst (snd (CreatePolicy env insErr condErr newID uc body db)) = (if e = None then db2 else db1)"
    by (auto simp: CreatePolicy_def Inr p ins con split: option.splits)
  show ?thesis using steps by (auto simp: res intro: rtranclp_one rtranclp_two)
qed (simp add: CreatePolicy_def)

lemma UpdatePolicy_runs:
  "(policy_stmt env (\<lambda>r. True))\<^sup>*\<^sup>* db (fst (snd (UpdatePolicy env updErr condErr readErr uc raw body db)))"
proof (cases "\<exists>i q. peParseUUID env raw = Some i \<and> body = Some q")
  case True
  then obtain i q where a: "peParseUUID env raw = Some i" "body = Some q" by blast
  let ?sel = "\<lambda>r. plID r = i \<and> plOrgID r = ucOrgID uc"
  obtain e db1 where upd: "store_UpdatePolicy env updErr ?sel q db = (e, db1)" by force
  have one: "policy_stmt env (\<lambda>r. True) db db1"
    using policy_stmt.update [where own = "\<lambda>r. True" and sel = ?sel and q = q and env = env and db = db and dbErr = updErr] upd by simp
  have two: "policy_stmt env (\<lambda>r. True) db1 (snd (store_UpsertPolicyCondition condErr (conditionsReqToParams i c) db1))"
    if "e = None" for c
    by (rule run_update(2) [OF upd _ _ _ that]) simp_all
  have res: "fst (snd (UpdatePolicy env updErr condErr readErr uc raw body db)) =
    (case quConditions q of
       Some c \<Rightarrow> if e = None then snd (store_UpsertPolicyCondition condErr (conditionsReqToParams i c) db1) else db1
     | None \<Rightarrow> db1)"
    by (cases "quConditions q"; cases e) (simp_all add: UpdatePolicy_def a upd Let_def split: sum.split)
  show ?thesis
    using rtranclp_one [of "policy_stmt env (\<lambda>r. True)", OF one] rtranclp_two [of "policy_stmt env (\<lambda>r. True)", OF one two]
    by (simp add: res split: option.split)
next
  case False
  then show ?thesis by (auto simp: UpdatePolicy_def split: option.split)
qed

lemma DeletePolicy_runs: "(policy_stmt env (\<lambda>r. True))\<^sup>*\<^sup>* db (fst (snd (DeletePolicy env delErr uc raw db)))"
proof (cases "peParseUUID env raw")
  case (Some i)
  have "policy_stmt env (\<lambda>r. True) db (snd (store_DeletePolicy delErr (\<lambda>r. plID r = i \<and> plOrgID r = ucOrgID uc) db))"
    by (rule policy_stmt.delete) simp
  then show ?thesis by (auto simp: DeletePolicy_def Some split: prod.split sum.split)
qed (simp add: DeletePolicy_def)

lemma reorder_loop_runs:
  "(policy_stmt env (\<lambda>r. True))\<^sup>*\<^sup>* db (fst (snd (reorder_loop env outcome cancelled orgID ids attempt err db)))"
proof (induction env outcome cancelled orgID ids attempt err db rule: reorder_loop.induct)
  case (1 env outcome cancelled orgID ids attempt err db)
  obtain e db1 where st: "store_ReorderPolicies env (outcome attempt) orgID ids db = (e, db1)" by force
  have one: "policy_stmt env (\<lambda>r. True) db db1"
    using policy_stmt.reorder [of orgID "\<lambda>r. True" env db "outcome attempt" ids] st by simp
  show ?case
    by (subst reorder_loop.simps)
      (use 1 st one in \<open>auto split: option.split prod.splits intro: converse_rtranclp_into_rtranclp\<close>)
qed

lemma ReorderPolicies_runs:
  "(policy_stmt env (\<lambda>r. True))\<^sup>*\<^sup>* db (fst (snd (ReorderPolicies env outcome cancelled listErr uc body db)))"
  using reorder_loop_runs [of env db outcome cancelled "ucOrgID uc" _ 1 None]
  by (auto simp: ReorderPolicies_def reorderPoliciesWithRetry_def split: option.split prod.splits sum.split) (metis fst_conv snd_conv)+

interpretation ws_create: policy_writer env "own_workspace env uc rawWs" "\<lambda>(insErr, condErr, readErr, newID, body) db. proper_ids env uc \<and> fresh_policy newID db"
  "\<lambda>(insErr, condErr, readErr, newID, body) db. fst (snd (CreateWorkspacePolicy env insErr condErr readErr newID uc rawWs body db))"
  by unfold_locales (auto simp: own_workspace_def CreateWorkspacePolicy_runs)

interpretation ws_update: policy_writer env "own_workspace env uc rawWs" "\<lambda>x db. True"
  "\<lambda>(updErr, condErr, readErr, raw, body) db. fst (snd (UpdateWorkspacePolicy env updErr condErr readErr uc rawWs raw body db))"
  by unfold_locales (auto simp: own_workspace_def UpdateWorkspacePolicy_runs)

interpretation ws_delete: policy_writer env "own_workspace env uc rawWs" "\<lambda>x db. True"
  "\<lambda>(delErr, raw) db. fst (snd (DeleteWorkspacePolicy env delErr uc rawWs raw db))"
  by unfold_locales (auto simp: own_workspace_def DeleteWorkspacePolicy_runs)

interpretation org_create: policy_writer env "\<lambda>r. True" "\<lambda>(insErr, condErr, newID, uc, body) db. proper_ids env uc \<and> fresh_policy newID db"
  "\<lambda>(insErr, condErr, newID, uc, body) db. fst (snd (CreatePolicy env insErr condErr newID uc body db))"
  by unfold_locales (auto simp: CreatePolicy_runs)

interpretation org_update: policy_writer env "\<lambda>r. True" "\<lambda>x db. True"
  "\<lambda>(updErr, condErr, readErr, uc, raw, body) db. fst (snd (UpdatePolicy env updErr condErr readErr uc raw body db))"
  by unfold_locales (auto simp: UpdatePolicy_runs)

interpretation org_delete: policy_writer env "\<lambda>r. True" "\<lambda>x db. True"
  "\<lambda>(delErr, uc, raw) db. fst (snd (DeletePolicy env delErr uc raw db))"
  by unfold_locales (auto simp: DeletePolicy_runs)

interpretation org_reorder: policy_writer env "\<lambda>r. True" "\<lambda>x db. True"
  "\<lambda>(outcome, cancelled, listErr, uc, body) db. fst (snd (ReorderPolicies env outcome cancelled listErr uc body db))"
  by unfold_locales (auto simp: ReorderPolicies_runs)

text \<open>The tables that sequences of requests produce, whatever fails in them. The database
  gives a new row an id that no row has.\<close>

inductive policy_reachable :: "policy_env \<Rightarrow> policy_db \<Rightarrow> bool" for env :: policy_env where
  start: "policy_reachable env \<lparr>dbPolicies = [], dbConditions = []\<rparr>"
| create: "policy_reachable env db \<Longrightarrow> proper_ids env uc \<Longrightarrow> fresh_policy newID db
    \<Longrightarrow> policy_reachable env (fst (snd (CreatePolicy env insErr condErr newID uc cbody db)))"
| update: "policy_reachable env db \<Longrightarrow> policy_reachable env (fst (snd (UpdatePolicy env updErr condErr readErr uc raw ubody db)))"
| delete: "policy_reachable env db \<Longrightarrow> policy_reachable env (fst (snd (DeletePolicy env delErr uc raw db)))"
| reorder: "policy_reachable env db \<Longrightarrow> policy_reachable env (fst (snd (ReorderPolicies env outcome cancelled listErr uc ids db)))"
| ws_create: "policy_reachable env db \<Longrightarrow> proper_ids env uc \<Longrightarrow> fresh_policy newID db
    \<Longrightarrow> policy_reachable env (fst (snd (CreateWorkspacePolicy env insErr condErr readErr newID uc rawWs cbody db)))"
| ws_update: "policy_reachable env db
    \<Longrightarrow> policy_reachable env (fst (snd (UpdateWorkspacePolicy env updErr condErr readErr uc rawWs raw ubody db)))"
| ws_delete: "policy_reachable env db \<Longrightarrow> policy_reachable env (fst (snd (DeleteWorkspacePolicy env delErr uc rawWs raw db)))"

lemma policy_reachable_ok: "policy_reachable env db \<Longrightarrow> policy_db_ok db"
proof (induction rule: policy_reachable.induct)
  case (create db uc newID insErr condErr cbody)
  then show ?case using org_create.keeps_ok [of env "(insErr, condErr, newID, uc, cbody)" db] by simp
next
  case (update db updErr condErr readErr uc raw ubody)
  then show ?case using org_update.keeps_ok [of db env "(updErr, condErr, readErr, uc, raw, ubody)"] by simp
next
  case (delete db delErr uc raw)
  then show ?case using org_delete.keeps_ok [of db env "(delErr, uc, raw)"] by simp
next
  case (reorder db outcome cancelled listErr uc ids)
  then show ?case using org_reorder.keeps_ok [of db env "(outcome, cancelled, listErr, uc, ids)"] by simp
next
  case (ws_create db uc newID insErr condErr readErr rawWs cbody)
  then show ?case using ws_create.keeps_ok [of env uc "(insErr, condErr, readErr, newID, cbody)" db rawWs] by simp
next
  case (ws_update db updErr condErr readErr uc rawWs raw ubody)
  then show ?case using ws_update.keeps_ok [of db env uc rawWs "(updErr, condErr, readErr, raw, ubody)"] by simp
next
  case (ws_delete db delErr uc rawWs raw)
  then show ?case using ws_delete.keeps_ok [of db env uc rawWs "(delErr, raw)"] by simp
qed (simp add: policy_db_ok_def)

section \<open>What the gateway loads\<close>

definition loaded_rules :: "policy_db \<Rightarrow> Rule list" where
  "loaded_rules db =
     map (\<lambda>r. rule_of_row (r, condition_of db (plID r))) (load_order (filter (\<lambda>r. plStatus r = ''active'') (dbPolicies db)))"

lemma scan_seen: "plID r \<in> set seen \<Longrightarrow> scan_rules seen (map (\<lambda>c. (r, Some c)) cs @ rest) = scan_rules seen rest"
  by (induction cs) auto

lemma find_filter_hd: "List.find P xs = (case filter P xs of [] \<Rightarrow> None | x # _ \<Rightarrow> Some x)"
  by (induction xs) auto

lemma scan_joined:
  "plID r \<notin> set seen \<Longrightarrow>
     scan_rules seen (joined db r @ rest) = rule_of_row (r, condition_of db (plID r)) # scan_rules (plID r # seen) rest"
  by (auto simp: joined_def condition_of_def find_filter_hd scan_seen split: list.split)

lemma scan_rules_all:
  "distinct (map plID rows) \<Longrightarrow> set (map plID rows) \<inter> set seen = {} \<Longrightarrow>
     scan_rules seen (concat (map (joined db) rows)) = map (\<lambda>r. rule_of_row (r, condition_of db (plID r))) rows"
  by (induction rows arbitrary: seen) (auto simp: scan_joined)

lemma set_load_order [simp]: "set (load_order rows) = set rows"
  by (simp add: load_order_def)

lemma filter_load_order: "filter P (load_order rows) = load_order (filter P rows)"
  by (simp add: load_order_def filter_sort)

lemma distinct_load_order: "distinct (map plID (load_order rows)) = distinct (map plID rows)"
  by (rule mset_eq_imp_distinct_iff) (simp add: load_order_def)

lemma queryRules_loaded:
  assumes "policy_db_ok db"
  shows "queryRules None db = Inr (loaded_rules db)"
proof -
  have "distinct (map plID (load_order (filter (\<lambda>r. plStatus r = ''active'') (dbPolicies db))))"
    using assms by (simp add: distinct_load_order policy_db_ok_def distinct_map_filter)
  then show ?thesis by (simp add: queryRules_def load_query_def loaded_rules_def scan_rules_all)
qed

lemma confined_loaded:
  assumes "confined own db db'" and "\<And>r co. P (rule_of_row (r, co)) \<longleftrightarrow> \<not> own r"
  shows "filter P (loaded_rules db') = filter P (loaded_rules db)"
proof -
  have filt: "filter P (loaded_rules d) = map (\<lambda>r. rule_of_row (r, condition_of d (plID r)))
      (load_order (filter (\<lambda>r. plStatus r = ''active'') (filter (\<lambda>r. \<not> own r) (dbPolicies d))))" for d
    by (simp add: loaded_rules_def filter_map comp_def assms(2) filter_load_order conj_commute)
  show ?thesis
    using assms(1) by (auto simp: filt confined_def)
qed

section \<open>A workspace cannot loosen the floor\<close>

lemma global_rule_of_row [simp]: "plWorkspaceID r \<noteq> Some [] \<Longrightarrow> global_rule (rule_of_row (r, co)) \<longleftrightarrow> plWorkspaceID r = None"
  by (cases "plWorkspaceID r") (auto simp: global_rule_def rule_of_row_def)

lemma rule_of_row_keys [simp]:
  "rOrgID (rule_of_row (r, co)) = plOrgID r" "rPriority (rule_of_row (r, co)) = plPriority r" "rAction (rule_of_row (r, co)) = plAction r"
  by (simp_all add: rule_of_row_def)

text \<open>Two applying floor rules of one priority are one policy, because the priorities of the
  floor of an organisation are unique.\<close>

lemma floor_ties:
  assumes "policy_db_ok db" "g \<in> set (loaded_rules db)" "h \<in> set (loaded_rules db)"
    and "global_rule g" "global_rule h" "applies io ac g" "applies io ac h" "rPriority g = rPriority h"
  shows "g = h"
proof -
  obtain x y where x: "x \<in> set (dbPolicies db)" "g = rule_of_row (x, condition_of db (plID x))"
    and y: "y \<in> set (dbPolicies db)" "h = rule_of_row (y, condition_of db (plID y))"
    using assms(2,3) by (auto simp: loaded_rules_def)
  have org: "plOrgID x \<noteq> []" "plOrgID y \<noteq> []" "plWorkspaceID x = None" "plWorkspaceID y = None"
    using assms(1,4,5) x y by (auto simp: policy_db_ok_def)
  have "plOrgID x = pcOrgID ac" "plOrgID y = pcOrgID ac"
    using assms(6,7) org x(2) y(2) by (auto simp: applies_def matchesRule_def split: if_splits)
  then have "rank_key x = rank_key y"
    using assms(8) x(2) y(2) org by (simp add: rank_key_def)
  then have "x = y"
    using assms(1) x(1) y(1) by (auto simp: policy_db_ok_def distinct_map dest: inj_onD)
  then show ?thesis using x y by simp
qed

lemma own_rules:
  assumes "ws \<noteq> []" "peParseUUID env rawWs = Some ws"
  shows "(rOrgID (rule_of_row (r, co)) \<noteq> ucOrgID uc \<or> rWorkspaceID (rule_of_row (r, co)) \<noteq> ws) \<longleftrightarrow> \<not> own_workspace env uc rawWs r"
  using assms by (cases "plWorkspaceID r") (auto simp: rule_of_row_def own_workspace_def)

text \<open>The tables after a request of a workspace administrator.\<close>

inductive workspace_request :: "policy_env \<Rightarrow> userClaims \<Rightarrow> string \<Rightarrow> policy_db \<Rightarrow> policy_db \<Rightarrow> bool"
  for env :: policy_env and uc :: userClaims and rawWs :: string where
  creates: "fresh_policy newID db
    \<Longrightarrow> workspace_request env uc rawWs db (fst (snd (CreateWorkspacePolicy env insErr condErr readErr newID uc rawWs cbody db)))"
| updates: "workspace_request env uc rawWs db (fst (snd (UpdateWorkspacePolicy env updErr condErr readErr uc rawWs raw ubody db)))"
| deletes: "workspace_request env uc rawWs db (fst (snd (DeleteWorkspacePolicy env delErr uc rawWs raw db)))"

lemma workspace_request_keeps:
  assumes "workspace_request env uc rawWs db db'" "policy_db_ok db" "proper_ids env uc"
  shows "confined (own_workspace env uc rawWs) db db' \<and> policy_db_ok db'"
  using assms
proof (induction rule: workspace_request.induct)
  case (creates newID db insErr condErr readErr cbody)
  then show ?case
    using ws_create.keeps_ok [of env uc "(insErr, condErr, readErr, newID, cbody)" db rawWs]
      ws_create.keeps_others [of env uc "(insErr, condErr, readErr, newID, cbody)" db rawWs] by simp
next
  case (updates db updErr condErr readErr raw ubody)
  then show ?case
    using ws_update.keeps_ok [of db env uc rawWs "(updErr, condErr, readErr, raw, ubody)"]
      ws_update.keeps_others [of db env uc rawWs "(updErr, condErr, readErr, raw, ubody)"] by simp
next
  case (deletes db delErr raw)
  then show ?case
    using ws_delete.keeps_ok [of db env uc rawWs "(delErr, raw)"] ws_delete.keeps_others [of db env uc rawWs "(delErr, raw)"] by simp
qed

lemma workspace_request_rules:
  assumes "workspace_request env uc rawWs db db'" "policy_db_ok db" "proper_ids env uc" "peParseUUID env rawWs = Some ws"
  shows "filter (\<lambda>g. rOrgID g \<noteq> ucOrgID uc \<or> rWorkspaceID g \<noteq> ws) (loaded_rules db')
    = filter (\<lambda>g. rOrgID g \<noteq> ucOrgID uc \<or> rWorkspaceID g \<noteq> ws) (loaded_rules db)"
proof (rule confined_loaded)
  show "confined (own_workspace env uc rawWs) db db'"
    using workspace_request_keeps [OF assms(1-3)] by simp
  have "ws \<noteq> []" using assms(3,4) by (auto simp: proper_ids_def)
  then show "(rOrgID (rule_of_row (r, co)) \<noteq> ucOrgID uc \<or> rWorkspaceID (rule_of_row (r, co)) \<noteq> ws) = (\<not> own_workspace env uc rawWs r)" for r co
    by (rule own_rules) (fact assms(4))
qed

lemma reload_rules:
  assumes "policy_db_ok db"
  shows "loader_Evaluator srt (snd (loader_Load srt None db l)) = NewEvaluator srt (loaded_rules db) []"
  by (simp add: loader_Load_def queryRules_loaded [OF assms] loader_store_def loader_Evaluator_def)

lemma loaded_floor_holds:
  assumes "policy_db_ok db" "sort_slice srt rule_less" "sort_slice srt' rule_less"
  shows "strictness (dAction (fst (Evaluate io t' (NewEvaluator srt' (filter global_rule (loaded_rules db)) []) ac)))
       \<le> strictness (dAction (fst (Evaluate io t (NewEvaluator srt (loaded_rules db) []) ac)))"
  by (rule workspace_cannot_loosen [OF assms(2,3)]) (blast dest: floor_ties [OF assms(1)])

lemma workspace_request_floor:
  assumes "workspace_request env uc rawWs db db'" "policy_db_ok db" "proper_ids env uc" "peParseUUID env rawWs = Some ws"
  shows "filter global_rule (loaded_rules db') = filter global_rule (loaded_rules db)"
proof -
  have "ws \<noteq> []" using assms(3,4) by (auto simp: proper_ids_def)
  then have eq: "filter global_rule (filter (\<lambda>g. rOrgID g \<noteq> ucOrgID uc \<or> rWorkspaceID g \<noteq> ws) rules) = filter global_rule rules" for rules
    by (induction rules) (auto simp: global_rule_def)
  show ?thesis by (subst (1 2) eq [symmetric]) (simp only: workspace_request_rules [OF assms])
qed

text \<open>C22: A workspace administrator cannot loosen what the organisation decided. After any
  create, update or delete request on the policies of a workspace, wherever it fails, the
  rules that the gateway then loads for every other scope are the ones it loaded before, in
  their order; and the decision on any call is at least as strict as the one that the floor
  policies of the organisation gave before the request.\<close>

theorem workspace_requests_cannot_loosen:
  assumes "policy_reachable env db" "proper_ids env uc" "peParseUUID env rawWs = Some ws" "workspace_request env uc rawWs db db'"
    and "sort_slice srt rule_less" "sort_slice srt' rule_less"
  shows "filter (\<lambda>g. rOrgID g \<noteq> ucOrgID uc \<or> rWorkspaceID g \<noteq> ws) (loaded_rules db')
       = filter (\<lambda>g. rOrgID g \<noteq> ucOrgID uc \<or> rWorkspaceID g \<noteq> ws) (loaded_rules db)
    \<and> strictness (dAction (fst (Evaluate io t' (NewEvaluator srt' (filter global_rule (loaded_rules db)) []) ac)))
       \<le> strictness (dAction (fst (Evaluate io t (loader_Evaluator srt (snd (loader_Load srt None db' l))) ac)))"
proof
  have ok: "policy_db_ok db" by (rule policy_reachable_ok) (fact assms(1))
  have ok': "policy_db_ok db'" using workspace_request_keeps [OF assms(4) ok assms(2)] by (rule conjunct2)
  show "filter (\<lambda>g. rOrgID g \<noteq> ucOrgID uc \<or> rWorkspaceID g \<noteq> ws) (loaded_rules db')
       = filter (\<lambda>g. rOrgID g \<noteq> ucOrgID uc \<or> rWorkspaceID g \<noteq> ws) (loaded_rules db)"
    by (rule workspace_request_rules [OF assms(4) ok assms(2,3)])
  show "strictness (dAction (fst (Evaluate io t' (NewEvaluator srt' (filter global_rule (loaded_rules db)) []) ac)))
       \<le> strictness (dAction (fst (Evaluate io t (loader_Evaluator srt (snd (loader_Load srt None db' l))) ac)))"
    unfolding reload_rules [OF ok'] workspace_request_floor [OF assms(4) ok assms(2,3), symmetric]
    by (rule loaded_floor_holds [OF ok' assms(5,6)])
qed

section \<open>A created policy is enforced\<close>

text \<open>The rule that a request for an organisation policy asks for.\<close>

definition requested_rule :: "uuid \<Rightarrow> userClaims \<Rightarrow> PolicyCreateRequest \<Rightarrow> PolicyConditionsReq \<Rightarrow> Rule" where
  "requested_rule i uc q c = \<lparr>rID = i, rOrgID = ucOrgID uc, rWorkspaceID = [], rName = qrName q, rPriority = qrPriority q,
     rConditions = \<lparr>AgentNamePattern = (case qcAgentNamePattern c of None \<Rightarrow> [] | Some p \<Rightarrow> p), ToolNames = qcToolNames c,
       ToolServerIDs = [], ActionTypes = qcActionTypes c, Environments = qcEnvironments c, RecordCountGT = qcRecordCountGT c,
       SemanticRule = (case qcSemanticRule c of None \<Rightarrow> [] | Some x \<Rightarrow> x), ScopeDrift = qcScopeDrift c\<rparr>,
     rAction = qrAction q, rAlert = qrAlert q\<rparr>"

lemma wrap32_id: "- (2 ^ 31) \<le> x \<Longrightarrow> x < 2 ^ 31 \<Longrightarrow> wrap32 x = x"
  by (simp add: wrap32_def sint_sbintrunc' signed_take_bit_int_eq_self)

lemma CreatePolicy_success:
  assumes "CreatePolicy env insErr condErr newID uc (Some q) db = (Inr (code, resp), db', notified)"
  obtains c where "qrConditions q = Some c" "code = 201" "notified"
    "resp = policyRowToResp (new_policy newID uc None q) (Some (conditionsReqToParams newID c))"
    "db' = \<lparr>dbPolicies = dbPolicies db @ [new_policy newID uc None q], dbConditions = dbConditions db @ [conditionsReqToParams newID c]\<rparr>"
    "\<forall>x\<in>set (dbConditions db). pdPolicyID x \<noteq> newID"
proof -
  obtain c where c: "create_checks (Some q) = Inr (q, c)" "qrConditions q = Some c"
    using assms by (auto simp: CreatePolicy_def create_checks_def split: option.splits if_splits)
  obtain e db1 where ins: "store_CreatePolicy env insErr (new_policy newID uc None q) db = (e, db1)" by force
  obtain e2 db2 where con: "store_CreatePolicyCondition env condErr (conditionsReqToParams newID c) db1 = (e2, db2)" by force
  have ok: "e = None" "e2 = None" "code = 201" "notified" "db' = db2"
    "resp = policyRowToResp (new_policy newID uc None q) (Some (conditionsReqToParams newID c))"
    using assms by (auto simp: CreatePolicy_def c ins con split: option.splits)
  have "db1 = db\<lparr>dbPolicies := dbPolicies db @ [new_policy newID uc None q]\<rparr>"
    using ins ok(1) by (auto simp: store_CreatePolicy_def commit_policies_def split: option.splits if_splits)
  moreover have "db2 = db1\<lparr>dbConditions := dbConditions db1 @ [conditionsReqToParams newID c]\<rparr>"
    "\<forall>x\<in>set (dbConditions db1). pdPolicyID x \<noteq> newID"
    using con ok(2) by (auto simp: store_CreatePolicyCondition_def list_ex_iff split: option.splits if_splits)
  ultimately show thesis using that [OF c(2) ok(3,4,6)] ok(5) by simp
qed

lemma find_append_new: "\<forall>x\<in>set xs. \<not> P x \<Longrightarrow> P y \<Longrightarrow> List.find P (xs @ [y]) = Some y"
  by (induction xs) auto

text \<open>A created policy is what the gateway enforces. When the request to create an active
  organisation policy succeeds, the gateway is notified, reading the policy gives the same
  answer, and a load then gives the rules of before and the requested rule, with exactly the
  requested conditions.\<close>

theorem created_policy_enforced:
  assumes "policy_reachable env db" "proper_ids env uc" "fresh_policy newID db" "peParseUUID env raw = Some newID"
    and "CreatePolicy env insErr condErr newID uc (Some q) db = (Inr (code, resp), db', notified)"
    and "qrStatus q = ''active''" "qrConditions q = Some c"
    and "\<forall>n. qcRecordCountGT c = Some n \<longrightarrow> - (2 ^ 31) \<le> n \<and> n < 2 ^ 31"
  shows "notified \<and> GetPolicy env None uc raw db' = Inr (200, resp)
    \<and> (\<exists>rules rules'. queryRules None db = Inr rules \<and> queryRules None db' = Inr rules'
         \<and> set rules' = insert (requested_rule newID uc q c) (set rules))"
proof -
  let ?new = "new_policy newID uc None q" and ?c = "conditionsReqToParams newID c"
  have res: "notified" "resp = policyRowToResp ?new (Some ?c)"
    "db' = \<lparr>dbPolicies = dbPolicies db @ [?new], dbConditions = dbConditions db @ [?c]\<rparr>"
    "\<forall>x\<in>set (dbConditions db). pdPolicyID x \<noteq> newID"
    using CreatePolicy_success [OF assms(5)] assms(7) by (metis option.inject)+
  have ok: "policy_db_ok db" by (rule policy_reachable_ok) (fact assms(1))
  have ok': "policy_db_ok db'"
    using policy_reachable_ok [OF policy_reachable.create [OF assms(1-3), of insErr condErr "Some q"]] assms(5) by simp
  have fresh: "\<forall>x\<in>set (dbPolicies db). plID x \<noteq> newID"
    using assms(3) by (auto simp: fresh_policy_def)
  have new: "condition_of db' newID = Some ?c"
    using find_append_new [of "dbConditions db" "\<lambda>x. pdPolicyID x = newID" ?c] res(4) by (simp add: condition_of_def res(3))
  have old: "condition_of db' (plID r) = condition_of db (plID r)" if "r \<in> set (dbPolicies db)" for r
    using fresh that find_other_append [of ?c "plID r" "dbConditions db"] by (simp add: condition_of_def res(3)) metis
  have "map_option wrap32 (qcRecordCountGT c) = qcRecordCountGT c"
    using assms(8) by (cases "qcRecordCountGT c") (simp_all add: wrap32_id)
  then have rule: "rule_of_row (?new, Some ?c) = requested_rule newID uc q c"
    by (simp add: rule_of_row_def requested_rule_def new_policy_def conditionsReqToParams_def)
  have act: "plStatus ?new = ''active''" using assms(6) by (simp add: new_policy_def)
  have "set (loaded_rules db') = insert (requested_rule newID uc q c) (set (loaded_rules db))"
    using old by (auto simp: loaded_rules_def res(3) act new [unfolded res(3)] rule image_iff)
  moreover have "GetPolicy env None uc raw db' = Inr (200, resp)"
    using find_append_new [of "dbPolicies db" "\<lambda>r. plID r = newID \<and> plOrgID r = ucOrgID uc" ?new] fresh new
    by (simp add: GetPolicy_def assms(4) read_policy_def res(2,3))
  ultimately show ?thesis
    using res(1) queryRules_loaded [OF ok] queryRules_loaded [OF ok'] by simp
qed

text \<open>When the second of the two statements fails, the policy stays without conditions, and the
  next load gives a rule that every call of the organisation matches.\<close>

lemma failed_conditions_match_all:
  assumes "policy_reachable env db" "proper_ids env uc" "fresh_policy newID db"
    and "create_checks (Some q) = Inr (q, c)" "qrStatus q = ''active''"
    and "store_CreatePolicy env None (new_policy newID uc None q) db = (None, db1)"
  shows "CreatePolicy env None (Some err) newID uc (Some q) db
       = (Inl (500, ''internal_error'', ''conditions failed: '' @ peErrText env err), db1, False)"
    and "\<exists>g\<in>set (loaded_rules db1). rID g = newID \<and> rAction g = qrAction q \<and> (pcOrgID ac = ucOrgID uc \<longrightarrow> matchesRule io ac g)"
proof -
  show "CreatePolicy env None (Some err) newID uc (Some q) db
       = (Inl (500, ''internal_error'', ''conditions failed: '' @ peErrText env err), db1, False)"
    by (simp add: CreatePolicy_def assms(4,6) store_CreatePolicyCondition_def internal_error_def)
  have ok: "policy_db_ok db" by (rule policy_reachable_ok) (fact assms(1))
  have db1: "db1 = db\<lparr>dbPolicies := dbPolicies db @ [new_policy newID uc None q]\<rparr>"
    using assms(6) by (auto simp: store_CreatePolicy_def commit_policies_def split: if_splits)
  have "newID \<notin> pdPolicyID ` set (dbConditions db)"
    using ok assms(3) by (auto simp: policy_db_ok_def fresh_policy_def)
  then have "condition_of db1 newID = None" by (auto simp: condition_of_def db1 find_None_iff)
  moreover have "plStatus (new_policy newID uc None q) = ''active''" using assms(5) by (simp add: new_policy_def)
  ultimately have "rule_of_row (new_policy newID uc None q, None) \<in> set (loaded_rules db1)"
    by (auto simp: loaded_rules_def image_iff) (auto simp: db1)
  then show "\<exists>g\<in>set (loaded_rules db1). rID g = newID \<and> rAction g = qrAction q \<and> (pcOrgID ac = ucOrgID uc \<longrightarrow> matchesRule io ac g)"
    by (rule rev_bexI) (simp add: rule_of_row_def matchesRule_def new_policy_def)
qed

section \<open>Reordering gives the positions\<close>

lemma store_ReorderPolicies_cases:
  obtains "store_ReorderPolicies env dbErr orgID ids db = (None, db\<lparr>dbPolicies := map (renumber orgID ids) (dbPolicies db)\<rparr>)"
  | e where "store_ReorderPolicies env dbErr orgID ids db = (Some e, db)"
  by (cases dbErr; cases rule: commit_policies_cases [of env "map (renumber orgID ids) (dbPolicies db)" db])
    (auto simp: store_ReorderPolicies_def)

lemma reorder_loop_over: "attempt > reorderPoliciesMaxAttempts \<Longrightarrow> reorder_loop env outcome cancelled orgID ids attempt err db = (err, db, [])"
  by (simp add: reorder_loop.simps)

lemma reorder_loop_cases:
  assumes "reorder_loop env outcome cancelled orgID ids attempt err db = (e, db', tries)" "attempt \<le> reorderPoliciesMaxAttempts"
  obtains "tries = [attempt]" "db' = (if e = None then db\<lparr>dbPolicies := map (renumber orgID ids) (dbPolicies db)\<rparr> else db)"
  | x t1 where "attempt < reorderPoliciesMaxAttempts" "tries = attempt # t1"
      "reorder_loop env outcome cancelled orgID ids (attempt + 1) (Some x) db = (e, db', t1)"
proof (cases rule: store_ReorderPolicies_cases [of env "outcome attempt" orgID ids db])
  case 1
  then have "reorder_loop env outcome cancelled orgID ids attempt err db
    = (None, db\<lparr>dbPolicies := map (renumber orgID ids) (dbPolicies db)\<rparr>, [attempt])"
    using assms(2) by (simp add: reorder_loop.simps [of _ _ _ _ _ attempt])
  then show ?thesis using assms(1) that(1) by simp
next
  case (2 x)
  obtain e1 d1 t1 where r: "reorder_loop env outcome cancelled orgID ids (attempt + 1) (Some x) db = (e1, d1, t1)"
    by (metis prod_cases3)
  have step: "reorder_loop env outcome cancelled orgID ids attempt err db =
    (if \<not> isReorderDeadlock env x \<or> attempt < reorderPoliciesMaxAttempts \<and> cancelled attempt then (Some x, db, [attempt])
     else (e1, d1, attempt # t1))"
    using assms(2) r by (simp add: reorder_loop.simps [of _ _ _ _ _ attempt] 2)
  show ?thesis
  proof (cases "attempt < reorderPoliciesMaxAttempts")
    case True
    show ?thesis
    proof (cases "\<not> isReorderDeadlock env x \<or> cancelled attempt")
      case stop: True
      then show ?thesis using assms(1) step True that(1) by auto
    next
      case False
      then show ?thesis using assms(1) step True r by (intro that(2) [of t1 x]) simp_all
    qed
  next
    case False
    then have "e1 = Some x" "d1 = db" "t1 = []" using r by (simp_all add: reorder_loop_over)
    then show ?thesis using assms(1) step that(1) by (auto split: if_splits)
  qed
qed

lemma reorder_loop_result:
  assumes "reorder_loop env outcome cancelled orgID ids attempt err db = (e, db', tries)" "attempt \<le> reorderPoliciesMaxAttempts"
  shows "db' = (if e = None then db\<lparr>dbPolicies := map (renumber orgID ids) (dbPolicies db)\<rparr> else db)
    \<and> (\<exists>n\<le>reorderPoliciesMaxAttempts. attempt \<le> n \<and> tries = [attempt..<Suc n])"
  using assms
proof (induction "reorderPoliciesMaxAttempts - attempt" arbitrary: attempt err tries)
  case 0
  show ?case
  proof (cases rule: reorder_loop_cases [OF 0(2,3)])
    case 1
    then show ?thesis using 0(3) by (intro conjI exI [of _ attempt]) simp_all
  next
    case (2 x t1)
    then show ?thesis using 0(1) by simp
  qed
next
  case (Suc k)
  show ?case
  proof (cases rule: reorder_loop_cases [OF Suc(3,4)])
    case 1
    then show ?thesis using Suc(4) by (intro conjI exI [of _ attempt]) simp_all
  next
    case (2 x t1)
    have "k = reorderPoliciesMaxAttempts - (attempt + 1)" "attempt + 1 \<le> reorderPoliciesMaxAttempts" using Suc(2) 2(1) by simp_all
    from Suc(1) [OF this(1) 2(3) this(2)] obtain n where
      "db' = (if e = None then db\<lparr>dbPolicies := map (renumber orgID ids) (dbPolicies db)\<rparr> else db)"
      "n \<le> reorderPoliciesMaxAttempts" "attempt + 1 \<le> n" "t1 = [attempt + 1..<Suc n]" by blast
    then show ?thesis
      by (intro conjI exI [of _ n]) (simp_all add: 2(2) upt_conv_Cons)
  qed
qed

lemma position_of_nth: "distinct ids \<Longrightarrow> j < length ids \<Longrightarrow> position_of ids (ids ! j) = Some j"
proof (induction ids arbitrary: j)
  case (Cons x xs)
  then show ?case by (cases j) auto
qed simp

lemma position_of_None: "i \<notin> set ids \<Longrightarrow> position_of ids i = None"
  by (induction ids) auto

lemma renumber_position:
  assumes "distinct ids" "length ids < 2 ^ 31"
  shows "\<lbrakk>plOrgID r = orgID; j < length ids; plID r = ids ! j\<rbrakk> \<Longrightarrow> renumber orgID ids r = r\<lparr>plPriority := int j + 1\<rparr>"
    and "plOrgID r \<noteq> orgID \<or> plID r \<notin> set ids \<Longrightarrow> renumber orgID ids r = r"
  using assms by (auto simp: renumber_def position_of_nth position_of_None wrap32_id)

text \<open>Reordering. A request that reaches the gateway gave every listed policy of the
  organisation its position in the list as its priority and changed no other row; a request
  that does not leaves the tables as they were. The update is tried at most three times.\<close>

theorem reorder_assigns_positions:
  assumes "ReorderPolicies env outcome cancelled listErr uc (Some ids) db = (ans, db', notified)" "length ids < 2 ^ 31"
  shows "(if notified
     then length (dbPolicies db') = length (dbPolicies db) \<and> dbConditions db' = dbConditions db
       \<and> (\<forall>k<length (dbPolicies db). let r = dbPolicies db ! k; r' = dbPolicies db' ! k in
            (\<forall>j<length ids. plOrgID r = ucOrgID uc \<and> plID r = ids ! j \<longrightarrow> r' = r\<lparr>plPriority := int j + 1\<rparr>)
            \<and> (plOrgID r \<noteq> ucOrgID uc \<or> plID r \<notin> set ids \<longrightarrow> r' = r))
     else db' = db)
   \<and> (\<exists>n\<le>3. snd (snd (reorderPoliciesWithRetry env outcome cancelled (ucOrgID uc) ids db)) = [1..<Suc n])"
proof -
  obtain e db1 tries where w: "reorderPoliciesWithRetry env outcome cancelled (ucOrgID uc) ids db = (e, db1, tries)"
    by (metis prod_cases3)
  have res: "db1 = (if e = None then db\<lparr>dbPolicies := map (renumber (ucOrgID uc) ids) (dbPolicies db)\<rparr> else db)"
    "\<exists>n\<le>reorderPoliciesMaxAttempts. 1 \<le> n \<and> tries = [1..<Suc n]"
    using reorder_loop_result [OF w [unfolded reorderPoliciesWithRetry_def]] by (simp_all add: reorderPoliciesMaxAttempts_def)
  have cases: "\<not> notified \<and> db' = db \<or> notified \<and> distinct ids \<and> db' = db\<lparr>dbPolicies := map (renumber (ucOrgID uc) ids) (dbPolicies db)\<rparr>"
    using assms(1) res(1) by (auto simp: ReorderPolicies_def w split: if_splits option.splits sum.splits)
  have "db' = db\<lparr>dbPolicies := map (renumber (ucOrgID uc) ids) (dbPolicies db)\<rparr> \<Longrightarrow> distinct ids \<Longrightarrow>
    length (dbPolicies db') = length (dbPolicies db) \<and> dbConditions db' = dbConditions db
       \<and> (\<forall>k<length (dbPolicies db). let r = dbPolicies db ! k; r' = dbPolicies db' ! k in
            (\<forall>j<length ids. plOrgID r = ucOrgID uc \<and> plID r = ids ! j \<longrightarrow> r' = r\<lparr>plPriority := int j + 1\<rparr>)
            \<and> (plOrgID r \<noteq> ucOrgID uc \<or> plID r \<notin> set ids \<longrightarrow> r' = r))"
    using renumber_position [OF _ assms(2)] by (simp add: Let_def)
  moreover have "\<exists>n\<le>3. tries = [1..<Suc n]" using res(2) by (auto simp: reorderPoliciesMaxAttempts_def)
  ultimately show ?thesis using cases by (simp only: w snd_conv) presburger
qed

section \<open>Witnesses\<close>

definition sample_policy_env :: policy_env where
  "sample_policy_env = \<lparr>peParseUUID = (\<lambda>s. if s = [] then None else Some s), peSQLState = (\<lambda>e. None), peUnique = Wrapped ''unique'' (Sentinel ErrNoRows),
     peCheck = Wrapped ''check'' (Sentinel ErrNoRows), peErrText = (\<lambda>e. ''database error''), peWorkspaceName = (\<lambda>w. Some w), peScan = (\<lambda>rows. rows)\<rparr>"

definition sample_claims :: userClaims where
  "sample_claims = \<lparr>ucUserID = ''u1'', ucOrgID = ''o1'', ucEmail = ''a@b'', ucRole = ''admin''\<rparr>"

definition sample_conditions :: PolicyConditionsReq where
  "sample_conditions = \<lparr>qcAgentNamePattern = None, qcToolNames = [''crm''], qcActionTypes = [], qcEnvironments = [], qcRecordCountGT = Some 100,
     qcSemanticRule = None, qcScopeDrift = False\<rparr>"

definition sample_create :: "string \<Rightarrow> int \<Rightarrow> PolicyCreateRequest" where
  "sample_create act prio = \<lparr>qrName = ''p'', qrDescription = None, qrPriority = prio, qrConditions = Some sample_conditions,
     qrAction = act, qrAlert = False, qrStatus = ''active''\<rparr>"

definition sample_policies :: policy_db where
  "sample_policies = fst (snd (CreatePolicy sample_policy_env None None ''p1'' sample_claims (Some (sample_create ''deny'' 1))
     \<lparr>dbPolicies = [], dbConditions = []\<rparr>))"

lemmas sample_policy_defs = sample_policy_env_def sample_claims_def sample_conditions_def sample_create_def sample_policies_def
  CreatePolicy_def create_checks_def store_CreatePolicy_def commit_policies_def policy_checks_def new_policy_def action_defs rank_key_def
  store_CreatePolicyCondition_def conditionsReqToParams_def

lemma sample_proper: "proper_ids sample_policy_env sample_claims"
  by (simp add: proper_ids_def sample_policy_env_def sample_claims_def)

lemma sample_reachable: "policy_reachable sample_policy_env sample_policies"
  unfolding sample_policies_def
  by (intro policy_reachable.create policy_reachable.start sample_proper) (simp add: fresh_policy_def)

lemma sample_fresh: "fresh_policy ''p2'' sample_policies"
  by (simp add: fresh_policy_def sample_policy_defs)

theorem workspace_requests_cannot_loosen_witness:
  "\<exists>ws. peParseUUID sample_policy_env ''w1'' = Some ws
     \<and> strictness (dAction (fst (Evaluate (toolCategories, toolCategories) 0 (NewEvaluator sort_rules (filter global_rule (loaded_rules sample_policies)) [])
           (sample_context ''o1'' ''crm'' []))))
       \<le> strictness (dAction (fst (Evaluate (toolCategories, toolCategories) 0
           (loader_Evaluator sort_rules (snd (loader_Load sort_rules None
              (fst (snd (CreateWorkspacePolicy sample_policy_env None None None ''p2'' sample_claims ''w1'' (Some (sample_create ''allow'' 1)) sample_policies)))
              \<lparr>ldCurrent = None, ldRuleCount = 0\<rparr>))) (sample_context ''o1'' ''crm'' []))))"
proof -
  have ws: "peParseUUID sample_policy_env ''w1'' = Some ''w1''" by (simp add: sample_policy_env_def)
  show ?thesis
    using workspace_requests_cannot_loosen [OF sample_reachable sample_proper ws workspace_request.creates [OF sample_fresh]
        rules.sort_slice_axioms rules.sort_slice_axioms] ws by blast
qed

theorem created_policy_enforced_witness:
  "\<exists>resp db'. CreatePolicy sample_policy_env None None ''p2'' sample_claims (Some (sample_create ''allow'' 2)) sample_policies = (Inr (201, resp), db', True)
     \<and> GetPolicy sample_policy_env None sample_claims ''p2'' db' = Inr (200, resp)"
proof -
  obtain resp db' where c: "CreatePolicy sample_policy_env None None ''p2'' sample_claims (Some (sample_create ''allow'' 2)) sample_policies
      = (Inr (201, resp), db', True)"
    by (simp add: sample_policy_defs)
  have "peParseUUID sample_policy_env ''p2'' = Some ''p2''" by (simp add: sample_policy_env_def)
  from created_policy_enforced [OF sample_reachable sample_proper sample_fresh this c, of sample_conditions] c
  show ?thesis by (simp add: sample_create_def sample_conditions_def)
qed

theorem reorder_assigns_positions_witness:
  "\<exists>ans db'. ReorderPolicies sample_policy_env (\<lambda>k. None) (\<lambda>k. False) None sample_claims (Some [''p9'', ''p1'']) sample_policies = (ans, db', True)
     \<and> plPriority (dbPolicies db' ! 0) = 2"
proof -
  obtain ans db' notified where c: "ReorderPolicies sample_policy_env (\<lambda>k. None) (\<lambda>k. False) None sample_claims (Some [''p9'', ''p1'']) sample_policies
      = (ans, db', notified)" by (metis prod_cases3)
  have n: "notified"
    using c by (simp add: ReorderPolicies_def reorderPoliciesWithRetry_def reorder_loop.simps [of _ _ _ _ _ "Suc 0"] reorderPoliciesMaxAttempts_def
        store_ReorderPolicies_def store_ListPolicies_def renumber_def sample_policy_defs)
  let ?r = "dbPolicies sample_policies ! 0"
  have at: "plOrgID ?r = ucOrgID sample_claims \<and> plID ?r = [''p9'', ''p1''] ! 1" "0 < length (dbPolicies sample_policies)" "1 < length [''p9'', ''p1'']"
    by (simp_all add: sample_policy_defs)
  have len: "length [''p9'', ''p1''] < 2 ^ 31" by simp
  note positions = reorder_assigns_positions [OF c len, THEN conjunct1, unfolded if_P [OF n], THEN conjunct2, THEN conjunct2]
  note positions [rule_format, OF at(2), unfolded Let_def, THEN conjunct1, rule_format, OF at(3,1)]
  then have "plPriority (dbPolicies db' ! 0) = 2" by simp
  with c n show ?thesis by auto
qed

end
