(* ===== verification/Agent_Admin.thy ===== *)
theory Agent_Admin
  imports Policy_Admin
begin

text \<open>
  The administration of governed agents (\<^verbatim>\<open>eami-api/internal/api/agents.go\<close> without the
  configuration, which is in \<open>Agent_Config\<close>; \<^verbatim>\<open>agentAdminOnlyChange\<close> of \<^verbatim>\<open>rbac_fields.go\<close>;
  \<^verbatim>\<open>internal/store/agents.sql.go\<close>), and what the gateway's liveness check makes of it. The
  handlers are those of a server with a database. The timestamps of the rows are left out.
\<close>

section \<open>Tables\<close>

record agent_row =
  awID :: uuid
  awOrgID :: uuid
  awName :: string
  awModel :: string
  awOwner :: string
  awScope :: string
  awRiskTier :: string
  awStatus :: string
  awTokenTTLSeconds :: int
  awCreatedBy :: "uuid option"
  awWorkspaceID :: "uuid option"

record AgentConfig =
  acfAgentID :: uuid
  acfScanIntervalSeconds :: int
  acfModelScanPaths :: "string list"
  acfMaxReportSizeBytes :: int
  acfEnabledScanners :: "string list"
  acfModelFileSizeMB :: int

record lifecycle_event =
  leOrgID :: uuid
  leAgentID :: uuid
  leAgentName :: string
  leEventType :: string
  lePerformedBy :: uuid

text \<open>\<open>abHistory\<close>: the agents that episodes, approvals and workflow runs refer to.\<close>

record agent_db =
  abAgents :: "agent_row list"
  abConfigs :: "AgentConfig list"
  abEvents :: "lifecycle_event list"
  abHistory :: "uuid list"

record agent_env =
  aePg :: policy_env
  aeForeignKey :: go_error \<comment> \<open>the error of a violated foreign key\<close>
  aeByName :: "agent_row list \<Rightarrow> agent_row list" \<comment> \<open>\<^verbatim>\<open>ORDER BY name\<close> in the collation of the database\<close>

definition AllScanners :: "string list" where
  "AllScanners = [''ai_apps'', ''models'', ''mcp_servers'', ''cloud_clients'', ''network_activity'', ''browser'',
     ''ai_processes'', ''gpu'', ''python_envs'', ''nodejs_ai'']"

definition AgentConfigDefaults :: "uuid \<Rightarrow> AgentConfig" where
  "AgentConfigDefaults i = \<lparr>acfAgentID = i, acfScanIntervalSeconds = 300, acfModelScanPaths = [], acfMaxReportSizeBytes = 5242880,
     acfEnabledScanners = AllScanners, acfModelFileSizeMB = 100\<rparr>"

text \<open>The \<^verbatim>\<open>CHECK\<close> constraints of the table, and \<^verbatim>\<open>UNIQUE (org_id, name)\<close>.\<close>

definition agent_checks :: "agent_row \<Rightarrow> bool" where
  "agent_checks a = (awRiskTier a \<in> {''low'', ''medium'', ''high''} \<and> awStatus a \<in> {''active'', ''suspended'', ''revoked''})"

definition agent_key :: "agent_row \<Rightarrow> uuid \<times> string" where
  "agent_key a = (awOrgID a, awName a)"

definition of_agent :: "uuid \<Rightarrow> uuid \<Rightarrow> agent_row \<Rightarrow> bool" where
  "of_agent i orgID a = (awID a = i \<and> awOrgID a = orgID)"

section \<open>Statements (agents.sql.go)\<close>

definition store_ListAgents :: "agent_env \<Rightarrow> go_error option \<Rightarrow> uuid \<Rightarrow> string option \<Rightarrow> string option \<Rightarrow> agent_db \<Rightarrow> agent_row list result" where
  "store_ListAgents env dbErr orgID status tier db =
     (case dbErr of
        Some err \<Rightarrow> Inl err
      | None \<Rightarrow> Inr (aeByName env (filter (\<lambda>a. awOrgID a = orgID \<and> (case status of None \<Rightarrow> True | Some s \<Rightarrow> awStatus a = s)
          \<and> (case tier of None \<Rightarrow> True | Some t \<Rightarrow> awRiskTier a = t)) (abAgents db))))"

definition store_GetAgent :: "go_error option \<Rightarrow> uuid \<Rightarrow> uuid \<Rightarrow> agent_db \<Rightarrow> agent_row result" where
  "store_GetAgent dbErr i orgID db =
     (case dbErr of
        Some err \<Rightarrow> Inl err
      | None \<Rightarrow> (case List.find (of_agent i orgID) (abAgents db) of None \<Rightarrow> Inl (Sentinel ErrNoRows) | Some a \<Rightarrow> Inr a))"

definition seed_config :: "uuid \<Rightarrow> AgentConfig list \<Rightarrow> AgentConfig list" where
  "seed_config i cs = (if list_ex (\<lambda>c. acfAgentID c = i) cs then cs else cs @ [AgentConfigDefaults i])"

text \<open>The trigger on the table adds the default configuration.\<close>

definition store_CreateAgent :: "agent_env \<Rightarrow> go_error option \<Rightarrow> agent_row \<Rightarrow> agent_db \<Rightarrow> go_error option \<times> agent_db" where
  "store_CreateAgent env dbErr a db =
     (case dbErr of
        Some err \<Rightarrow> (Some err, db)
      | None \<Rightarrow>
        if \<not> agent_checks a then (Some (peCheck (aePg env)), db)
        else if agent_key a \<in> agent_key ` set (abAgents db) then (Some (peUnique (aePg env)), db)
        else (None, db\<lparr>abAgents := abAgents db @ [a], abConfigs := seed_config (awID a) (abConfigs db)\<rparr>))"

definition store_SeedAgentConfig :: "go_error option \<Rightarrow> uuid \<Rightarrow> agent_db \<Rightarrow> agent_db" where
  "store_SeedAgentConfig dbErr i db =
     (case dbErr of Some _ \<Rightarrow> db | None \<Rightarrow> db\<lparr>abConfigs := seed_config i (abConfigs db)\<rparr>)"

record UpdateAgentParams =
  upScope :: "string option"
  upRiskTier :: "string option"
  upStatus :: "string option"
  upTokenTTLSeconds :: "int option"

definition set_agent :: "UpdateAgentParams \<Rightarrow> agent_row \<Rightarrow> agent_row" where
  "set_agent p a = a\<lparr>awScope := or_old (upScope p) (awScope a), awRiskTier := or_old (upRiskTier p) (awRiskTier a),
     awStatus := or_old (upStatus p) (awStatus a), awTokenTTLSeconds := or_old (upTokenTTLSeconds p) (awTokenTTLSeconds a)\<rparr>"

definition store_UpdateAgent ::
  "agent_env \<Rightarrow> go_error option \<Rightarrow> uuid \<Rightarrow> uuid \<Rightarrow> UpdateAgentParams \<Rightarrow> agent_db \<Rightarrow> agent_row result \<times> agent_db" where
  "store_UpdateAgent env dbErr i orgID p db =
     (case dbErr of
        Some err \<Rightarrow> (Inl err, db)
      | None \<Rightarrow>
        (case List.find (of_agent i orgID) (abAgents db) of
           None \<Rightarrow> (Inl (Sentinel ErrNoRows), db)
         | Some a \<Rightarrow>
           if \<not> agent_checks (set_agent p a) then (Inl (peCheck (aePg env)), db)
           else (Inr (set_agent p a), db\<lparr>abAgents := map (\<lambda>x. if of_agent i orgID x then set_agent p x else x) (abAgents db)\<rparr>)))"

definition store_DeleteAgent :: "agent_env \<Rightarrow> go_error option \<Rightarrow> uuid \<Rightarrow> uuid \<Rightarrow> agent_db \<Rightarrow> go_error option \<times> agent_db" where
  "store_DeleteAgent env dbErr i orgID db =
     (case dbErr of
        Some err \<Rightarrow> (Some err, db)
      | None \<Rightarrow>
        if \<not> list_ex (of_agent i orgID) (abAgents db) then (None, db)
        else if i \<in> set (abHistory db) then (Some (aeForeignKey env), db)
        else (None, db\<lparr>abAgents := filter (\<lambda>a. \<not> of_agent i orgID a) (abAgents db), abConfigs := filter (\<lambda>c. acfAgentID c \<noteq> i) (abConfigs db)\<rparr>))"

definition InsertAgentLifecycleEvent :: "go_error option \<Rightarrow> lifecycle_event \<Rightarrow> agent_db \<Rightarrow> agent_db" where
  "InsertAgentLifecycleEvent dbErr e db = (case dbErr of Some _ \<Rightarrow> db | None \<Rightarrow> db\<lparr>abEvents := abEvents db @ [e]\<rparr>)"

definition lifecycle :: "userClaims \<Rightarrow> uuid \<Rightarrow> string \<Rightarrow> string \<Rightarrow> lifecycle_event" where
  "lifecycle uc i name ev = \<lparr>leOrgID = ucOrgID uc, leAgentID = i, leAgentName = name, leEventType = ev, lePerformedBy = ucUserID uc\<rparr>"

section \<open>Requests and answers (types.go)\<close>

record AgentCreateRequest =
  crName :: string
  crModel :: string
  crOwner :: string
  crScope :: string
  crRiskTier :: string
  crTokenTTLSeconds :: "int option" \<comment> \<open>decoded into 32 bits\<close>

record AgentUpdateRequest =
  urScope :: "string option"
  urRiskTier :: "string option"
  urStatus :: "string option"
  urTokenTTLSeconds :: "int option"

record AgentResp =
  arID :: uuid
  arOrgID :: uuid
  arName :: string
  arModel :: string
  arOwner :: string
  arScope :: string
  arRiskTier :: string
  arStatus :: string
  arTokenTTLSeconds :: int
  arWorkspace :: "(uuid \<times> string) option"

definition agentToResp :: "agent_row \<Rightarrow> AgentResp" where
  "agentToResp a = \<lparr>arID = awID a, arOrgID = awOrgID a, arName = awName a, arModel = awModel a, arOwner = awOwner a, arScope = awScope a,
     arRiskTier = awRiskTier a, arStatus = awStatus a, arTokenTTLSeconds = awTokenTTLSeconds a, arWorkspace = None\<rparr>"

definition isValidRiskTier :: "string \<Rightarrow> bool" where
  "isValidRiskTier s = (s \<in> {''low'', ''medium'', ''high'', ''critical''})"

definition isForeignKeyViolation :: "policy_env \<Rightarrow> go_error \<Rightarrow> bool" where
  "isForeignKeyViolation env err = (peSQLState env err = Some ''23503'')"

text \<open>The workspace of a row, joined by the separate query of the read handlers.\<close>

definition workspaceInfoForAgent :: "agent_env \<Rightarrow> agent_db \<Rightarrow> uuid \<Rightarrow> uuid \<Rightarrow> (uuid \<times> string) option" where
  "workspaceInfoForAgent env db orgID i =
     (case List.find (of_agent i orgID) (abAgents db) of
        None \<Rightarrow> None
      | Some a \<Rightarrow> Option.bind (awWorkspaceID a) (\<lambda>w. map_option (Pair w) (peWorkspaceName (aePg env) w)))"

type_synonym 'a agent_answer = "api_error + int \<times> 'a"

definition agent_not_found :: api_error where
  "agent_not_found = (404, ''not_found'', ''agent not found'')"

definition bad_tier :: api_error where
  "bad_tier = (400, ''bad_request'', ''invalid risk_tier, must be one of: low, medium, high, critical'')"

section \<open>Handlers (agents.go)\<close>

definition query_param :: "string \<Rightarrow> string option" where
  "query_param v = (if v = [] then None else Some v)"

definition ListAgents ::
  "agent_env \<Rightarrow> go_error option \<Rightarrow> go_error option \<Rightarrow> userClaims \<Rightarrow> string \<Rightarrow> string \<Rightarrow> agent_db \<Rightarrow> AgentResp list agent_answer" where
  "ListAgents env listErr wsErr uc status tier db =
     (case store_ListAgents env listErr (ucOrgID uc) (query_param status) (query_param tier) db of
        Inl err \<Rightarrow> Inl (internal_error (peErrText (aePg env) err))
      | Inr rows \<Rightarrow>
        (case wsErr of
           Some err \<Rightarrow> Inl (internal_error (peErrText (aePg env) err))
         | None \<Rightarrow> Inr (200, map (\<lambda>a. (agentToResp a)\<lparr>arWorkspace := workspaceInfoForAgent env db (ucOrgID uc) (awID a)\<rparr>) rows)))"

definition GetAgent ::
  "agent_env \<Rightarrow> go_error option \<Rightarrow> go_error option \<Rightarrow> userClaims \<Rightarrow> string \<Rightarrow> agent_db \<Rightarrow> AgentResp agent_answer" where
  "GetAgent env readErr wsErr uc raw db =
     (case peParseUUID (aePg env) raw of
        None \<Rightarrow> Inl (400, ''bad_request'', ''invalid agentId'')
      | Some i \<Rightarrow>
        (case store_GetAgent readErr i (ucOrgID uc) db of
           Inl err \<Rightarrow> Inl (if err = Sentinel ErrNoRows then agent_not_found else internal_error (peErrText (aePg env) err))
         | Inr a \<Rightarrow>
           (case wsErr of
              Some err \<Rightarrow> Inl (internal_error (peErrText (aePg env) err))
            | None \<Rightarrow> Inr (200, (agentToResp a)\<lparr>arWorkspace := workspaceInfoForAgent env db (ucOrgID uc) (awID a)\<rparr>))))"

definition new_agent :: "uuid \<Rightarrow> userClaims \<Rightarrow> AgentCreateRequest \<Rightarrow> agent_row" where
  "new_agent i uc q = \<lparr>awID = i, awOrgID = ucOrgID uc, awName = crName q, awModel = crModel q, awOwner = crOwner q, awScope = crScope q,
     awRiskTier = crRiskTier q, awStatus = ''active'', awTokenTTLSeconds = or_old (crTokenTTLSeconds q) 900,
     awCreatedBy = Some (ucUserID uc), awWorkspaceID = None\<rparr>"

definition CreateAgent ::
  "agent_env \<Rightarrow> go_error option \<Rightarrow> go_error option \<Rightarrow> go_error option \<Rightarrow> uuid \<Rightarrow> userClaims \<Rightarrow> AgentCreateRequest option \<Rightarrow> agent_db
   \<Rightarrow> AgentResp agent_answer \<times> agent_db" where
  "CreateAgent env insErr seedErr evErr newID uc body db =
     (case body of
        None \<Rightarrow> (Inl (400, ''bad_request'', ''invalid JSON body''), db)
      | Some q \<Rightarrow>
        if crName q = [] \<or> crModel q = [] \<or> crOwner q = [] \<or> crScope q = [] \<or> crRiskTier q = []
        then (Inl (400, ''bad_request'', ''name, model, owner, scope, risk_tier are required''), db)
        else if \<not> isValidRiskTier (crRiskTier q) then (Inl bad_tier, db)
        else (case store_CreateAgent env insErr (new_agent newID uc q) db of
          (Some err, db1) \<Rightarrow>
            (Inl (if isUniqueViolation (aePg env) err
                  then (409, ''conflict'', ''an agent named '' @ go_quote (crName q) @ '' already exists in this org'')
                  else internal_error (peErrText (aePg env) err)), db1)
        | (None, db1) \<Rightarrow>
            (Inr (201, agentToResp (new_agent newID uc q)),
             InsertAgentLifecycleEvent evErr (lifecycle uc newID (crName q) ''created'') (store_SeedAgentConfig seedErr newID db1))))"

text \<open>What changes an admin-only field of the agent \<open>cur\<close>, and the request without the
  restricted fields that change nothing.\<close>

definition drop_unchanged :: "'a option \<Rightarrow> 'a \<Rightarrow> 'a option" where
  "drop_unchanged p cur = (if p = Some cur then None else p)"

definition agentAdminOnlyChange :: "AgentUpdateRequest \<Rightarrow> agent_row \<Rightarrow> bool \<times> AgentUpdateRequest" where
  "agentAdminOnlyChange q cur =
     (let st = drop_unchanged (urStatus q) (awStatus cur);
          sc = drop_unchanged (urScope q) (awScope cur);
          ti = drop_unchanged (urRiskTier q) (awRiskTier cur);
          tt = (if map_option wrap32 (urTokenTTLSeconds q) = Some (awTokenTTLSeconds cur) then None else urTokenTTLSeconds q) in
      (st = Some ''active'' \<or> sc \<noteq> None \<or> ti \<noteq> None \<or> tt \<noteq> None,
       \<lparr>urScope = sc, urRiskTier = ti, urStatus = st, urTokenTTLSeconds = tt\<rparr>))"

text \<open>The role check reads the row at its own moment, in the tables \<open>seen\<close>.\<close>

definition agent_role_fields ::
  "go_error option \<Rightarrow> agent_db \<Rightarrow> userClaims \<Rightarrow> uuid \<Rightarrow> AgentUpdateRequest \<Rightarrow> api_error + AgentUpdateRequest" where
  "agent_role_fields loadErr seen uc i q =
     (if ucRole uc = ''admin'' then Inr q
      else case store_GetAgent loadErr i (ucOrgID uc) seen of
        Inl err \<Rightarrow> Inl (if errors_is ErrNoRows err then agent_not_found else internal_error ''failed to update agent'')
      | Inr cur \<Rightarrow>
        (let (restricted, q') = agentAdminOnlyChange q cur in
         if restricted then Inl (writeRoleForbidden (ucRole uc)) else Inr q'))"

definition agent_params :: "AgentUpdateRequest \<Rightarrow> UpdateAgentParams" where
  "agent_params q = \<lparr>upScope = urScope q, upRiskTier = urRiskTier q, upStatus = urStatus q,
     upTokenTTLSeconds = map_option wrap32 (urTokenTTLSeconds q)\<rparr>"

text \<open>Up to the write: the refusal, or the agent and the values.\<close>

definition update_agent_plan ::
  "agent_env \<Rightarrow> go_error option \<Rightarrow> agent_db \<Rightarrow> userClaims \<Rightarrow> string \<Rightarrow> AgentUpdateRequest option \<Rightarrow> api_error + uuid \<times> AgentUpdateRequest" where
  "update_agent_plan env loadErr seen uc raw body =
     (case peParseUUID (aePg env) raw of
        None \<Rightarrow> Inl (400, ''bad_request'', ''invalid agentId'')
      | Some i \<Rightarrow>
        (case body of
           None \<Rightarrow> Inl (400, ''bad_request'', ''invalid JSON body'')
         | Some q0 \<Rightarrow>
           (case agent_role_fields loadErr seen uc i q0 of
              Inl e \<Rightarrow> Inl e
            | Inr q \<Rightarrow> if (case urRiskTier q of Some t \<Rightarrow> \<not> isValidRiskTier t | None \<Rightarrow> False) then Inl bad_tier else Inr (i, q))))"

definition status_event :: "string \<Rightarrow> string option" where
  "status_event s = (if s = ''suspended'' then Some ''suspended'' else if s = ''active'' then Some ''reactivated'' else None)"

text \<open>The answer, the tables, and the agents whose status was notified.\<close>

definition UpdateAgent ::
  "agent_env \<Rightarrow> go_error option \<Rightarrow> agent_db \<Rightarrow> go_error option \<Rightarrow> go_error option \<Rightarrow> userClaims \<Rightarrow> string \<Rightarrow> AgentUpdateRequest option \<Rightarrow> agent_db
   \<Rightarrow> AgentResp agent_answer \<times> agent_db \<times> uuid list" where
  "UpdateAgent env loadErr seen updErr evErr uc raw body db =
     (case update_agent_plan env loadErr seen uc raw body of
        Inl e \<Rightarrow> (Inl e, db, [])
      | Inr (i, q) \<Rightarrow>
        (case store_UpdateAgent env updErr i (ucOrgID uc) (agent_params q) db of
           (Inl err, db1) \<Rightarrow> (Inl (if err = Sentinel ErrNoRows then agent_not_found else internal_error (peErrText (aePg env) err)), db1, [])
         | (Inr a, db1) \<Rightarrow>
           (Inr (200, agentToResp a),
            (case Option.bind (urStatus q) status_event of
               None \<Rightarrow> db1
             | Some ev \<Rightarrow> InsertAgentLifecycleEvent evErr (lifecycle uc (awID a) (awName a) ev) db1),
            (if urStatus q = None then [] else [awID a]))))"

definition DeleteAgent ::
  "agent_env \<Rightarrow> go_error option \<Rightarrow> go_error option \<Rightarrow> go_error option \<Rightarrow> userClaims \<Rightarrow> string \<Rightarrow> agent_db
   \<Rightarrow> unit agent_answer \<times> agent_db \<times> uuid list" where
  "DeleteAgent env readErr delErr evErr uc raw db =
     (case peParseUUID (aePg env) raw of
        None \<Rightarrow> (Inl (400, ''bad_request'', ''invalid agentId''), db, [])
      | Some i \<Rightarrow>
        (case store_GetAgent readErr i (ucOrgID uc) db of
           Inl err \<Rightarrow> (Inl (if err = Sentinel ErrNoRows then agent_not_found else internal_error (peErrText (aePg env) err)), db, [])
         | Inr existing \<Rightarrow>
           (case store_DeleteAgent env delErr i (ucOrgID uc) db of
              (Some err, db1) \<Rightarrow>
                (Inl (if isForeignKeyViolation (aePg env) err
                      then (409, ''conflict'', ''cannot delete an agent with existing episode, approval, or workflow-run history -- suspend it instead (this preserves its audit trail)'')
                      else internal_error (peErrText (aePg env) err)), db1, [])
            | (None, db1) \<Rightarrow>
                (Inr (204, ()), InsertAgentLifecycleEvent evErr (lifecycle uc i (awName existing) ''deleted'') db1, [i]))))"

section \<open>Operators only contain\<close>

lemma set_agent_keys [simp]:
  "awID (set_agent p a) = awID a" "awOrgID (set_agent p a) = awOrgID a" "awName (set_agent p a) = awName a" "awStatus (set_agent p a) = or_old (upStatus p) (awStatus a)"
  by (simp_all add: set_agent_def)

lemma lifecycle_frame [simp]:
  "abAgents (InsertAgentLifecycleEvent evErr e db) = abAgents db" "abConfigs (InsertAgentLifecycleEvent evErr e db) = abConfigs db"
  by (simp_all add: InsertAgentLifecycleEvent_def split: option.split)

lemma agentAdminOnlyChange_contains:
  assumes "agentAdminOnlyChange q cur = (False, q')"
  shows "urScope q' = None \<and> urRiskTier q' = None \<and> urTokenTTLSeconds q' = None \<and> urStatus q' \<noteq> Some ''active''
    \<and> (urStatus q' = None \<or> urStatus q' = urStatus q)"
  using assms by (auto simp: agentAdminOnlyChange_def Let_def drop_unchanged_def)

lemma update_agent_plan_contains:
  assumes "update_agent_plan env loadErr seen uc raw (Some q0) = Inr (i, q)" "ucRole uc \<noteq> ''admin''"
  shows "peParseUUID (aePg env) raw = Some i \<and> urScope q = None \<and> urRiskTier q = None \<and> urTokenTTLSeconds q = None \<and> urStatus q \<noteq> Some ''active''
    \<and> (urStatus q = None \<or> urStatus q = urStatus q0)"
proof -
  have i: "peParseUUID (aePg env) raw = Some i" and r: "agent_role_fields loadErr seen uc i q0 = Inr q"
    using assms(1) by (auto simp: update_agent_plan_def split: option.splits sum.splits if_splits)
  obtain cur where "agentAdminOnlyChange q0 cur = (False, q)"
    using r assms(2) by (auto simp: agent_role_fields_def split: sum.splits prod.splits if_splits)
  with agentAdminOnlyChange_contains i show ?thesis by blast
qed

lemma store_UpdateAgent_cases:
  assumes "store_UpdateAgent env updErr i orgID p db = (res, db')"
  obtains err where "res = Inl err" "db' = db"
  | a where "res = Inr (set_agent p a)" "List.find (of_agent i orgID) (abAgents db) = Some a"
      "db' = db\<lparr>abAgents := map (\<lambda>x. if of_agent i orgID x then set_agent p x else x) (abAgents db)\<rparr>"
proof -
  have "(\<exists>err. res = Inl err) \<and> db' = db \<or> (\<exists>a. res = Inr (set_agent p a) \<and> List.find (of_agent i orgID) (abAgents db) = Some a
      \<and> db' = db\<lparr>abAgents := map (\<lambda>x. if of_agent i orgID x then set_agent p x else x) (abAgents db)\<rparr>)"
    using assms by (cases updErr; cases "List.find (of_agent i orgID) (abAgents db)"; cases "agent_checks (set_agent p (the (List.find (of_agent i orgID) (abAgents db))))")
      (simp_all add: store_UpdateAgent_def, (metis sum.disc(1))+)?
  then show thesis using that by blast
qed

lemma UpdateAgent_cases:
  assumes "UpdateAgent env loadErr seen updErr evErr uc raw body db = (ans, db', notified)"
  obtains (refused) e where "ans = Inl e" "db' = db" "notified = []"
  | (written) q0 i q a where "body = Some q0" "update_agent_plan env loadErr seen uc raw (Some q0) = Inr (i, q)"
      "List.find (of_agent i (ucOrgID uc)) (abAgents db) = Some a" "ans = Inr (200, agentToResp (set_agent (agent_params q) a))"
      "abAgents db' = map (\<lambda>x. if of_agent i (ucOrgID uc) x then set_agent (agent_params q) x else x) (abAgents db)"
      "abConfigs db' = abConfigs db" "notified = (if urStatus q = None then [] else [i])"
proof (cases "update_agent_plan env loadErr seen uc raw body")
  case (Inl e)
  then show thesis using assms refused [of e] by (simp add: UpdateAgent_def)
next
  case (Inr p)
  obtain i q where p: "p = (i, q)" by force
  obtain res db1 where w: "store_UpdateAgent env updErr i (ucOrgID uc) (agent_params q) db = (res, db1)" by force
  obtain q0 where q0: "body = Some q0" using Inr by (cases body) (auto simp: update_agent_plan_def split: option.splits)
  show thesis
  proof (cases rule: store_UpdateAgent_cases [OF w])
    case (1 err)
    then show thesis using assms by (intro refused) (auto simp: UpdateAgent_def Inr p w)
  next
    case (2 a)
    have "awID a = i" using find_Some_set [OF 2(2)] by (simp add: of_agent_def)
    then show thesis
      using assms written [OF q0 Inr [unfolded p q0] 2(2)] 2 by (auto simp: UpdateAgent_def Inr p w split: option.splits)
  qed
qed

text \<open>A user who is not an administrator can only contain an agent. Whatever happened to
  the tables between the check and the write, a request of such a user changes at most the row
  of the addressed agent of the own organisation, and of it only the status, to the requested
  one, which is not active.\<close>

theorem operator_only_contains:
  assumes "ucRole uc \<noteq> ''admin''" "UpdateAgent env loadErr seen updErr evErr uc raw body db = (ans, db', notified)"
  shows "abConfigs db' = abConfigs db
    \<and> list_all2 (\<lambda>a a'. a' = a \<or> peParseUUID (aePg env) raw = Some (awID a) \<and> awOrgID a = ucOrgID uc
        \<and> (\<exists>q s. body = Some q \<and> urStatus q = Some s \<and> s \<noteq> ''active'' \<and> a' = a\<lparr>awStatus := s\<rparr>)) (abAgents db) (abAgents db')"
proof (cases rule: UpdateAgent_cases [OF assms(2)])
  case (1 e)
  then show ?thesis by (simp add: list_all2_same)
next
  case (2 q0 i q a)
  note c = update_agent_plan_contains [OF 2(2) assms(1)]
  have "set_agent (agent_params q) x = x \<or> (\<exists>q' s. body = Some q' \<and> urStatus q' = Some s \<and> s \<noteq> ''active'' \<and> set_agent (agent_params q) x = x\<lparr>awStatus := s\<rparr>)" for x
  proof (cases "urStatus q")
    case None
    then have "set_agent (agent_params q) x = x" using c by (simp add: set_agent_def agent_params_def or_old_def)
    then show ?thesis ..
  next
    case (Some s)
    have "urScope q = None" "urRiskTier q = None" "urTokenTTLSeconds q = None" using c by simp_all
    with Some have "set_agent (agent_params q) x = x\<lparr>awStatus := s\<rparr>" by (simp add: set_agent_def agent_params_def or_old_def)
    moreover have "urStatus q0 = Some s" "s \<noteq> ''active''" using c Some by auto
    ultimately show ?thesis using 2(1) by blast
  qed
  then have "list_all2 (\<lambda>a a'. a' = a \<or> peParseUUID (aePg env) raw = Some (awID a) \<and> awOrgID a = ucOrgID uc
        \<and> (\<exists>q s. body = Some q \<and> urStatus q = Some s \<and> s \<noteq> ''active'' \<and> a' = a\<lparr>awStatus := s\<rparr>)) (abAgents db) (abAgents db')"
    unfolding 2(5) list.rel_map of_agent_def using c by (intro list.rel_refl_strong) metis
  with 2(6) show ?thesis by blast
qed

section \<open>What the gateway sees\<close>

text \<open>The rows as the registry of the gateway reads them.\<close>

definition agent_record :: "agent_row \<Rightarrow> AgentRecord" where
  "agent_record a = \<lparr>agID = awID a, agOrgID = awOrgID a, agName = awName a, agScope = awScope a, agRiskTier = awRiskTier a,
     agStatus = awStatus a, agWorkspaceID = (case awWorkspaceID a of None \<Rightarrow> [] | Some w \<Rightarrow> w)\<rparr>"

definition registry_view :: "agent_db \<Rightarrow> string list \<Rightarrow> (uuid \<times> bool) list \<Rightarrow> registry_db" where
  "registry_view db toks keys = \<lparr>gateway_agents = map agent_record (abAgents db), revoked_ai_tokens = toks, api_keys_revoked = keys\<rparr>"

lemma inactive_not_live:
  assumes "\<forall>a\<in>set (abAgents db). awID a = i \<longrightarrow> awStatus a \<noteq> ''active''" "uuid_parse agentID = Some i"
  shows "fst (CheckLive uuid_parse dbErr (registry_view db toks keys) agentID orgID jti keyID) \<noteq> Live"
proof
  assume "fst (CheckLive uuid_parse dbErr (registry_view db toks keys) agentID orgID jti keyID) = Live"
  then have "CheckLive uuid_parse dbErr (registry_view db toks keys) agentID orgID jti keyID
      = (Live, snd (CheckLive uuid_parse dbErr (registry_view db toks keys) agentID orgID jti keyID))"
    by (simp add: prod_eq_iff)
  then obtain oid a where a: "live_row (registry_view db toks keys) i oid = Some a" "agStatus a = ''active''"
    unfolding CheckLive_Live using assms(2) by auto
  have "a \<in> agent_record ` set (abAgents db)" "agID a = i"
    using find_Some_set [OF a(1) [unfolded live_row_def]] by (simp_all add: registry_view_def)
  then show False using assms(1) a(2) by (auto simp: agent_record_def)
qed

text \<open>A successful change to another status than active, or a deletion, leaves no active row.\<close>

lemma contained_row:
  assumes "UpdateAgent env loadErr seen updErr evErr uc raw body db = (Inr (code, resp), db', notified)"
    and "distinct (map awID (abAgents db))" "arStatus resp \<noteq> ''active''"
  shows "\<forall>a\<in>set (abAgents db'). awID a = arID resp \<longrightarrow> awStatus a \<noteq> ''active''"
proof (cases rule: UpdateAgent_cases [OF assms(1)])
  case (1 e)
  then show ?thesis by simp
next
  case (2 q0 i q a)
  have a: "a \<in> set (abAgents db)" "awID a = i" "awOrgID a = ucOrgID uc"
    using find_Some_set [OF 2(3)] by (simp_all add: of_agent_def)
  have resp: "arID resp = i" "arStatus resp = awStatus (set_agent (agent_params q) a)" using 2(4) a(2) by (simp_all add: agentToResp_def)
  show ?thesis
  proof (intro ballI impI)
    fix x' assume x': "x' \<in> set (abAgents db')" "awID x' = arID resp"
    then obtain x where x: "x \<in> set (abAgents db)" "x' = (if of_agent i (ucOrgID uc) x then set_agent (agent_params q) x else x)"
      unfolding 2(5) by auto
    then have "awID x = i" using x'(2) resp(1) by (auto split: if_splits)
    then have "x = a" using distinct_key [OF assms(2) x(1) a(1)] a(2) by simp
    then have "x' = set_agent (agent_params q) a" using x(2) a by (simp add: of_agent_def)
    then show "awStatus x' \<noteq> ''active''" using resp(2) assms(3) by simp
  qed
qed

lemma deleted_row:
  assumes "DeleteAgent env readErr delErr evErr uc raw db = (Inr (code, u), db', notified)" "distinct (map awID (abAgents db))"
    and "peParseUUID (aePg env) raw = Some i"
  shows "i \<notin> awID ` set (abAgents db') \<and> notified = [i]"
proof -
  obtain a where a: "store_GetAgent readErr i (ucOrgID uc) db = Inr a"
    using assms(1,3) by (auto simp: DeleteAgent_def split: sum.splits)
  then have mem: "a \<in> set (abAgents db)" "awID a = i" "awOrgID a = ucOrgID uc"
    using find_Some_set [of "of_agent i (ucOrgID uc)" "abAgents db" a] by (simp_all add: store_GetAgent_def of_agent_def split: option.splits)
  have uniq: "x = a" if "x \<in> set (abAgents db)" "awID x = i" for x
    by (rule distinct_key [OF assms(2) that(1) mem(1)]) (simp add: that(2) mem(2))
  have ex: "list_ex (of_agent i (ucOrgID uc)) (abAgents db)" using mem by (auto simp: list_ex_iff of_agent_def)
  obtain e db1 where d: "store_DeleteAgent env delErr i (ucOrgID uc) db = (e, db1)" by force
  have "e = None" "notified = [i]" "abAgents db' = abAgents db1"
    using assms(1,3) a d by (auto simp: DeleteAgent_def split: option.splits)
  moreover have "abAgents db1 = filter (\<lambda>a. \<not> of_agent i (ucOrgID uc) a) (abAgents db)"
    using d ex \<open>e = None\<close> by (cases delErr) (auto simp: store_DeleteAgent_def split: if_splits)
  ultimately have rows: "abAgents db' = filter (\<lambda>a. \<not> of_agent i (ucOrgID uc) a) (abAgents db)" and n: "notified = [i]" by simp_all
  have "of_agent i (ucOrgID uc) x" if "x \<in> set (abAgents db)" "awID x = i" for x
    using uniq [OF that] mem by (simp add: of_agent_def)
  then show ?thesis unfolding rows using n by fastforce
qed

text \<open>The tier \<open>critical\<close> passes the validation, but not the constraint of the table.\<close>

lemma critical_tier_refused:
  assumes "crName q \<noteq> []" "crModel q \<noteq> []" "crOwner q \<noteq> []" "crScope q \<noteq> []" "crRiskTier q = ''critical''"
    and "peSQLState (aePg env) (peCheck (aePg env)) = Some ''23514''"
  shows "CreateAgent env None seedErr evErr newID uc (Some q) db = (Inl (internal_error (peErrText (aePg env) (peCheck (aePg env)))), db)"
proof -
  have "store_CreateAgent env None (new_agent newID uc q) db = (Some (peCheck (aePg env)), db)"
    by (simp add: store_CreateAgent_def agent_checks_def new_agent_def assms(5))
  then show ?thesis using assms by (simp add: CreateAgent_def isValidRiskTier_def isUniqueViolation_def)
qed

section \<open>Witness\<close>

definition sample_agent_env :: agent_env where
  "sample_agent_env = \<lparr>aePg = sample_policy_env, aeForeignKey = Wrapped ''fk'' (Sentinel ErrNoRows), aeByName = (\<lambda>rows. rows)\<rparr>"

definition sample_operator :: userClaims where
  "sample_operator = \<lparr>ucUserID = ''u2'', ucOrgID = ''o1'', ucEmail = ''op@b'', ucRole = ''operator''\<rparr>"

definition sample_agents :: agent_db where
  "sample_agents = \<lparr>abAgents = [new_agent ''a1'' sample_claims \<lparr>crName = ''bot'', crModel = ''m'', crOwner = ''o'', crScope = ''read:crm'', crRiskTier = ''low'', crTokenTTLSeconds = None\<rparr>],
     abConfigs = [AgentConfigDefaults ''a1''], abEvents = [], abHistory = []\<rparr>"

definition sample_suspend :: AgentUpdateRequest where
  "sample_suspend = \<lparr>urScope = None, urRiskTier = None, urStatus = Some ''suspended'', urTokenTTLSeconds = None\<rparr>"

lemma sample_suspended:
  "\<exists>resp db'. UpdateAgent sample_agent_env None sample_agents None None sample_operator ''a1'' (Some sample_suspend) sample_agents = (Inr (200, resp), db', [''a1''])
     \<and> arID resp = ''a1'' \<and> arStatus resp = ''suspended''"
  by (simp add: UpdateAgent_def update_agent_plan_def agent_role_fields_def agentAdminOnlyChange_def drop_unchanged_def store_GetAgent_def store_UpdateAgent_def
      sample_agent_env_def sample_policy_env_def sample_agents_def sample_operator_def sample_suspend_def sample_claims_def new_agent_def of_agent_def
      agent_params_def set_agent_def or_old_def agent_checks_def agentToResp_def)

theorem operator_only_contains_witness:
  "\<exists>resp db'. UpdateAgent sample_agent_env None sample_agents None None sample_operator ''a1'' (Some sample_suspend) sample_agents = (Inr (200, resp), db', [''a1''])
     \<and> abConfigs db' = abConfigs sample_agents"
proof -
  obtain resp db' where u: "UpdateAgent sample_agent_env None sample_agents None None sample_operator ''a1'' (Some sample_suspend) sample_agents
      = (Inr (200, resp), db', [''a1''])"
    using sample_suspended by blast
  have "ucRole sample_operator \<noteq> ''admin''" by (simp add: sample_operator_def)
  from operator_only_contains [OF this u] u show ?thesis by blast
qed

end
