(* ===== verification/Scan_Paths.thy ===== *)
theory Scan_Paths
  imports Gateway_Prelude
begin

text \<open>
  The rules for the folders that an endpoint agent may scan. They exist twice, because the two
  programs are separate modules: \<^verbatim>\<open>eami-agent/internal/scanpath\<close> with \<^verbatim>\<open>checkPaths\<close> of
  \<^verbatim>\<open>internal/remoteconfig\<close>, and \<^verbatim>\<open>eami-api/internal/store/agent_config_limits.go\<close>. Both are
  translated, and agree. A path is a sequence of bytes; \<^verbatim>\<open>strings.ToLower\<close> is lower case for
  ASCII letters.
\<close>

section \<open>Strings\<close>

definition backslash :: char where "backslash = CHR 0x5C"
definition slash :: char where "slash = CHR ''/''"

text \<open>\<^verbatim>\<open>strings.Trim\<close> and \<^verbatim>\<open>strings.TrimRight\<close> with a cutset of one byte.\<close>

definition trim_right :: "char \<Rightarrow> string \<Rightarrow> string" where
  "trim_right c s = rev (dropWhile (\<lambda>x. x = c) (rev s))"

definition trim_byte :: "char \<Rightarrow> string \<Rightarrow> string" where
  "trim_byte c s = trim_right c (dropWhile (\<lambda>x. x = c) s)"

definition has_suffix_byte :: "string \<Rightarrow> char \<Rightarrow> bool" where
  "has_suffix_byte s c = (s \<noteq> [] \<and> last s = c)"

definition to_slash :: "string \<Rightarrow> string" where
  "to_slash p = replace_all p backslash [slash]"

definition is_letter :: "char \<Rightarrow> bool" where
  "is_letter c = (97 \<le> (of_char c :: nat) \<and> (of_char c :: nat) \<le> 122 \<or> 65 \<le> (of_char c :: nat) \<and> (of_char c :: nat) \<le> 90)"

definition is_sep :: "char \<Rightarrow> bool" where
  "is_sep c = (c = backslash \<or> c = slash)"

section \<open>The agent's rules (scanpath.go)\<close>

definition IsNetwork :: "string \<Rightarrow> bool" where
  "IsNetwork p = (length p \<ge> 2 \<and> is_sep (p ! 0) \<and> is_sep (p ! 1))"

definition hasDrive :: "string \<Rightarrow> bool" where
  "hasDrive p = (length p \<ge> 2 \<and> is_letter (p ! 0) \<and> p ! 1 = CHR '':'')"

definition IsAbsolute :: "string \<Rightarrow> bool" where
  "IsAbsolute p =
     (if IsNetwork p then False
      else if length p \<ge> 1 \<and> p ! 0 = slash then True
      else length p \<ge> 3 \<and> hasDrive p \<and> is_sep (p ! 2))"

definition HasStrayColon :: "string \<Rightarrow> bool" where
  "HasStrayColon p = (let rest = (if hasDrive p then drop 2 p else p) in contains_str rest '':'')"

definition bad_component :: "string \<Rightarrow> bool" where
  "bad_component c = (c \<noteq> [] \<and> (c = ''.'' \<or> c = ''..'' \<or> has_suffix_byte c (CHR ''.'') \<or> has_suffix_byte c (CHR '' '')))"

definition IsNormalized :: "string \<Rightarrow> bool" where
  "IsNormalized p =
     (let s = to_slash p; s' = (if hasDrive s then drop 2 s else s) in
      list_all (\<lambda>c. \<not> bad_component c) (split_on slash s'))"

definition IsRoot :: "string \<Rightarrow> bool" where
  "IsRoot p =
     (if IsNetwork p then False
      else let s = to_slash p in
      if hasDrive s then trim_byte slash (drop 2 s) = []
      else has_prefix s [slash] \<and> trim_byte slash s = [])"

definition control_char :: "char \<Rightarrow> bool" where
  "control_char c = ((of_char c :: nat) < 0x20 \<or> (of_char c :: nat) = 0x7f)"

definition MaxModelScanPaths :: nat where "MaxModelScanPaths = 32"
definition MaxModelScanPathBytes :: nat where "MaxModelScanPathBytes = 1024"

text \<open>The loop body of \<^verbatim>\<open>checkPaths\<close>: the reason code of one path, empty when it is good.\<close>

definition check_path :: "string \<Rightarrow> string" where
  "check_path p =
     (if p = [] then ''path_empty''
      else if length p > MaxModelScanPathBytes then ''path_too_long''
      else if list_ex control_char p then ''path_invalid_chars''
      else if IsNetwork p then ''path_network''
      else if HasStrayColon p then ''path_invalid_chars''
      else if \<not> IsNormalized p then ''path_not_normalized''
      else if IsRoot p then ''path_root''
      else if \<not> IsAbsolute p then ''path_not_absolute''
      else [])"

text \<open>The code of the first bad element.\<close>

fun first_code :: "('a \<Rightarrow> string) \<Rightarrow> 'a list \<Rightarrow> string" where
  "first_code f [] = []"
| "first_code f (x # xs) = (if f x \<noteq> [] then f x else first_code f xs)"

definition checkPaths :: "string list \<Rightarrow> string" where
  "checkPaths paths = (if length paths > MaxModelScanPaths then ''too_many_paths'' else first_code check_path paths)"

section \<open>The server's rules (agent_config_limits.go)\<close>

definition store_MaxModelScanPaths :: nat where "store_MaxModelScanPaths = 32"
definition store_MaxModelScanPathBytes :: nat where "store_MaxModelScanPathBytes = 1024"

definition IsNetworkScanPath :: "string \<Rightarrow> bool" where
  "IsNetworkScanPath p =
     (length p \<ge> 2 \<and> (p ! 0 = backslash \<or> p ! 0 = slash) \<and> (p ! 1 = backslash \<or> p ! 1 = slash))"

definition isASCIILetter :: "char \<Rightarrow> bool" where
  "isASCIILetter b = ((of_char b :: nat) \<ge> 97 \<and> (of_char b :: nat) \<le> 122 \<or> (of_char b :: nat) \<ge> 65 \<and> (of_char b :: nat) \<le> 90)"

definition IsAbsoluteScanPath :: "string \<Rightarrow> bool" where
  "IsAbsoluteScanPath p =
     (if IsNetworkScanPath p then False
      else if length p \<ge> 1 \<and> p ! 0 = slash then True
      else length p \<ge> 3 \<and> isASCIILetter (p ! 0) \<and> p ! 1 = CHR '':'' \<and> (p ! 2 = backslash \<or> p ! 2 = slash))"

definition store_hasDrive :: "string \<Rightarrow> bool" where
  "store_hasDrive p = (length p \<ge> 2 \<and> isASCIILetter (p ! 0) \<and> p ! 1 = CHR '':'')"

definition store_HasStrayColon :: "string \<Rightarrow> bool" where
  "store_HasStrayColon p = (let rest = (if store_hasDrive p then drop 2 p else p) in contains_str rest '':'')"

definition IsNormalizedScanPath :: "string \<Rightarrow> bool" where
  "IsNormalizedScanPath p =
     (let s = replace_all p backslash [slash]; s' = (if store_hasDrive s then drop 2 s else s) in
      list_all (\<lambda>c. c = [] \<or> \<not> (c = ''.'' \<or> c = ''..'' \<or> has_suffix_byte c (CHR ''.'') \<or> has_suffix_byte c (CHR '' '')))
        (split_on slash s'))"

definition IsRootScanPath :: "string \<Rightarrow> bool" where
  "IsRootScanPath p =
     (if IsNetworkScanPath p then False
      else let s = replace_all p backslash [slash] in
      if store_hasDrive s then trim_byte slash (drop 2 s) = []
      else has_prefix s [slash] \<and> trim_byte slash s = [])"

text \<open>\<^verbatim>\<open>strings.ReplaceAll(s, "//", "/")\<close>, and the loop that repeats it.\<close>

fun halve_slashes :: "string \<Rightarrow> string" where
  "halve_slashes (a # b # s) = (if a = slash \<and> b = slash then slash # halve_slashes s else a # halve_slashes (b # s))"
| "halve_slashes s = s"

lemma halve_slashes_length: "length (halve_slashes s) \<le> length s"
  by (induction s rule: halve_slashes.induct) auto

lemma halve_slashes_shorter: "contains_str s [slash, slash] \<Longrightarrow> length (halve_slashes s) < length s"
proof (induction s rule: halve_slashes.induct)
  case (1 a b s)
  then show ?case using halve_slashes_length [of s] by auto
qed auto

function collapse_slashes :: "string \<Rightarrow> string" where
  "collapse_slashes s = (if contains_str s [slash, slash] then collapse_slashes (halve_slashes s) else s)"
  by pat_completeness auto
termination by (relation "measure length") (auto simp: halve_slashes_shorter)

declare collapse_slashes.simps [simp del]

definition IsProfileParentScanPath :: "string \<Rightarrow> bool" where
  "IsProfileParentScanPath p =
     (let s = trim_right slash (collapse_slashes (to_lower (replace_all p backslash [slash]))) in
      if store_hasDrive s then drop 2 s \<in> {''/users'', ''/documents and settings''}
      else s \<in> {''/home'', ''/users'', ''/system/volumes/data/users'', ''/var/home''})"

definition store_check_path :: "string \<Rightarrow> string" where
  "store_check_path p =
     (if p = [] then ''path_empty''
      else if length p > store_MaxModelScanPathBytes then ''path_too_long''
      else if list_ex control_char p then ''path_invalid_chars''
      else if IsNetworkScanPath p then ''path_network''
      else if store_HasStrayColon p then ''path_invalid_chars''
      else if \<not> IsNormalizedScanPath p then ''path_not_normalized''
      else if IsRootScanPath p then ''path_root''
      else if \<not> IsAbsoluteScanPath p then ''path_not_absolute''
      else [])"

definition ValidateModelScanPaths :: "string list \<Rightarrow> string" where
  "ValidateModelScanPaths paths =
     (if length paths > store_MaxModelScanPaths then ''too_many_paths'' else first_code store_check_path paths)"

definition ValidateModelScanPathsFull :: "string list \<Rightarrow> string" where
  "ValidateModelScanPathsFull paths =
     (if ValidateModelScanPaths paths \<noteq> [] then ValidateModelScanPaths paths
      else if list_ex IsProfileParentScanPath paths then ''path_profile_parent''
      else [])"

text \<open>The codes in order of appearance without repetition; two of them are put in order.\<close>

definition path_warning :: "string \<Rightarrow> string" where
  "path_warning p =
     (if IsRootScanPath p then ''path_root'' else if IsProfileParentScanPath p then ''path_profile_parent'' else [])"

definition PathWarnings :: "string list \<Rightarrow> string list" where
  "PathWarnings paths =
     (let found = map path_warning paths in
      (if ''path_profile_parent'' \<in> set found then [''path_profile_parent''] else [])
      @ (if ''path_root'' \<in> set found then [''path_root''] else []))"

section \<open>The two sets of rules agree\<close>

lemma hasDrive_agrees: "store_hasDrive p = hasDrive p"
  by (auto simp: store_hasDrive_def hasDrive_def isASCIILetter_def is_letter_def)

lemma IsNetwork_agrees: "IsNetworkScanPath p = IsNetwork p"
  by (simp add: IsNetworkScanPath_def IsNetwork_def is_sep_def)

lemma IsAbsolute_agrees: "IsAbsoluteScanPath p = IsAbsolute p"
  by (auto simp: IsAbsoluteScanPath_def IsAbsolute_def IsNetwork_agrees hasDrive_def isASCIILetter_def is_letter_def is_sep_def)

lemma HasStrayColon_agrees: "store_HasStrayColon p = HasStrayColon p"
  unfolding store_HasStrayColon_def HasStrayColon_def hasDrive_agrees ..

lemma IsNormalized_agrees: "IsNormalizedScanPath p = IsNormalized p"
  unfolding IsNormalizedScanPath_def IsNormalized_def hasDrive_agrees to_slash_def bad_component_def de_Morgan_conj not_not ..

lemma IsRoot_agrees: "IsRootScanPath p = IsRoot p"
  unfolding IsRootScanPath_def IsRoot_def hasDrive_agrees IsNetwork_agrees to_slash_def ..

lemma check_path_agrees: "store_check_path p = check_path p"
  unfolding store_check_path_def check_path_def store_MaxModelScanPathBytes_def MaxModelScanPathBytes_def
    IsNetwork_agrees HasStrayColon_agrees IsNormalized_agrees IsRoot_agrees IsAbsolute_agrees ..

lemma paths_agree: "ValidateModelScanPaths paths = checkPaths paths"
proof -
  have "store_check_path = check_path" by (rule ext) (rule check_path_agrees)
  then show ?thesis
    unfolding ValidateModelScanPaths_def checkPaths_def store_MaxModelScanPaths_def MaxModelScanPaths_def by (rule arg_cong)
qed

lemma first_code_Nil: "first_code f xs = [] \<longleftrightarrow> (\<forall>x\<in>set xs. f x = [])"
  by (induction xs) auto

lemma checkPaths_ok: "checkPaths paths = [] \<longleftrightarrow> length paths \<le> MaxModelScanPaths \<and> (\<forall>p\<in>set paths. check_path p = [])"
  by (simp add: checkPaths_def first_code_Nil)

section \<open>What an accepted path is\<close>

text \<open>The components of a path, and the folder that they lead to when \<open>.\<close> and \<open>..\<close> are
  followed; an empty result is the root.\<close>

definition path_components :: "string \<Rightarrow> string list" where
  "path_components p =
     (let s = to_slash p in filter (\<lambda>c. c \<noteq> []) (split_on slash (if hasDrive s then drop 2 s else s)))"

fun follow :: "string list \<Rightarrow> string list \<Rightarrow> string list" where
  "follow here [] = here"
| "follow here (c # cs) = (if c = ''.'' then follow here cs else if c = ''..'' then follow (butlast here) cs else follow (here @ [c]) cs)"

lemma follow_plain: "\<forall>c\<in>set cs. c \<noteq> ''.'' \<and> c \<noteq> ''..'' \<Longrightarrow> follow here cs = here @ cs"
  by (induction cs arbitrary: here) auto

lemma length_to_slash [simp]: "length (to_slash p) = length p"
  by (induction p) (auto simp: to_slash_def replace_all_def)

lemma to_slash_nth: "i < length p \<Longrightarrow> to_slash p ! i = (if p ! i = backslash then slash else p ! i)"
proof (induction p arbitrary: i)
  case (Cons a p)
  then show ?case by (cases i) (auto simp: to_slash_def replace_all_def)
qed simp

lemma backslash_not_letter: "\<not> is_letter backslash" "\<not> is_letter slash" "backslash \<noteq> CHR '':''" "slash \<noteq> CHR '':''" "backslash \<noteq> slash"
  by (simp_all add: is_letter_def backslash_def slash_def)

lemma hasDrive_to_slash: "hasDrive (to_slash p) = hasDrive p"
proof (cases "length p \<ge> 2")
  case True
  then have "to_slash p ! 0 = (if p ! 0 = backslash then slash else p ! 0)" "to_slash p ! 1 = (if p ! 1 = backslash then slash else p ! 1)"
    by (simp_all only: to_slash_nth)
  then show ?thesis using True backslash_not_letter by (simp add: hasDrive_def)
qed (simp add: hasDrive_def)

lemma dropWhile_slashes: "dropWhile (\<lambda>x. x = c) s = [] \<longleftrightarrow> set s \<subseteq> {c}"
  by (auto simp: dropWhile_eq_Nil_conv)

lemma trim_byte_Nil: "trim_byte c s = [] \<longleftrightarrow> set s \<subseteq> {c}"
proof -
  have "trim_right c (dropWhile (\<lambda>x. x = c) s) = [] \<longleftrightarrow> set (dropWhile (\<lambda>x. x = c) s) \<subseteq> {c}"
    by (auto simp: trim_right_def)
  moreover have "set (dropWhile (\<lambda>x. x = c) s) \<subseteq> {c} \<longleftrightarrow> set s \<subseteq> {c}"
    by (induction s) auto
  ultimately show ?thesis by (simp add: trim_byte_def)
qed

lemma split_on_pieces: "c \<notin> set x" if "x \<in> set (split_on c s)"
  using that by (induction s arbitrary: x) (auto split: list.splits if_splits)

lemma split_on_all_empty: "filter (\<lambda>x. x \<noteq> []) (split_on c s) = [] \<longleftrightarrow> set s \<subseteq> {c}"
proof (induction s)
  case (Cons a s)
  then show ?case
    by (cases "a = c"; cases "split_on c s") auto
qed simp

lemma IsAbsolute_starts:
  assumes "IsAbsolute p"
  shows "hasDrive p \<and> length p \<ge> 3 \<and> is_sep (p ! 2) \<or> \<not> hasDrive p \<and> p \<noteq> [] \<and> p ! 0 = slash"
  using assms backslash_not_letter by (auto simp: IsAbsolute_def hasDrive_def split: if_splits)

text \<open>What the path check lets through. A path that the server accepts for an endpoint
  agent is a local absolute path: it begins with a slash, or with a drive letter, colon and
  separator, and not with two separators. Wherever its components lead, following dots, is
  below the root, under each component that was written, and no byte of it is a control
  character or a colon after the drive.\<close>

theorem accepted_path_confined:
  assumes "ValidateModelScanPaths paths = []" "p \<in> set paths"
  shows "\<not> IsNetwork p
    \<and> (hasDrive p \<and> length p \<ge> 3 \<and> is_sep (p ! 2) \<or> \<not> hasDrive p \<and> p ! 0 = slash)
    \<and> follow [] (path_components p) = path_components p \<and> path_components p \<noteq> []
    \<and> (\<forall>c\<in>set p. \<not> control_char c) \<and> CHR '':'' \<notin> set (if hasDrive p then drop 2 p else p)"
proof -
  have "check_path p = []" using assms by (simp add: paths_agree checkPaths_ok)
  then have ok: "p \<noteq> []" "\<not> list_ex control_char p" "\<not> IsNetwork p" "\<not> HasStrayColon p" "IsNormalized p" "\<not> IsRoot p" "IsAbsolute p"
    by (simp_all add: check_path_def split: if_splits)
  let ?rest = "if hasDrive (to_slash p) then drop 2 (to_slash p) else to_slash p"
  have plain: "\<forall>c\<in>set (path_components p). c \<noteq> ''.'' \<and> c \<noteq> ''..''"
    using ok(5) by (auto simp: path_components_def IsNormalized_def Let_def list_all_iff bad_component_def split: if_splits)
  have "\<not> set ?rest \<subseteq> {slash}"
  proof
    assume all: "set ?rest \<subseteq> {slash}"
    show False
    proof (cases "hasDrive p")
      case True
      then show False using ok(3,6) all by (simp add: IsRoot_def trim_byte_Nil hasDrive_to_slash)
    next
      case False
      then have "p ! 0 = slash" "p \<noteq> []" using IsAbsolute_starts [OF ok(7)] by auto
      then have "to_slash p \<noteq> []" "hd (to_slash p) = slash"
        using to_slash_nth [of 0 p] by (auto simp: hd_conv_nth simp flip: length_greater_0_conv)
      then have "has_prefix (to_slash p) [slash]" by (cases "to_slash p") auto
      then show False using False ok(3,6) all by (simp add: IsRoot_def trim_byte_Nil hasDrive_to_slash)
    qed
  qed
  then have "path_components p \<noteq> []"
    unfolding path_components_def Let_def split_on_all_empty .
  moreover have "CHR '':'' \<notin> set (if hasDrive p then drop 2 p else p)"
  proof -
    have "sublist [x] s \<longleftrightarrow> x \<in> set s" for x :: char and s
      by (auto simp: sublist_def in_set_conv_decomp)
    then show ?thesis using ok(4) by (simp add: HasStrayColon_def Let_def contains_str_iff)
  qed
  ultimately show ?thesis
    using ok(2,3) IsAbsolute_starts [OF ok(7)] follow_plain [OF plain, of "[]"] unfolding list_ex_iff append_Nil by blast
qed

theorem accepted_path_confined_witness:
  "\<not> IsNetwork ''C:/models'' \<and> path_components ''C:/models'' \<noteq> []"
proof -
  have "ValidateModelScanPaths [''C:/models''] = []" by code_simp
  from accepted_path_confined [OF this, of "''C:/models''"] show ?thesis by simp
qed

end
