(* ===== verification/Framing.thy ===== *)
theory Framing
  imports Gateway_Prelude
begin

text \<open>
  A concrete encoding of lists of strings and of integers as one string, with its decoder. It
  instantiates the codecs that the components take as parameters (JSON documents and files),
  so that the laws assumed of a codec are seen to hold of one. A string is preceded by its
  length in unary and a zero, an integer is its sign and its binary digits.
\<close>

definition frame_string :: "string \<Rightarrow> string" where
  "frame_string s = map (\<lambda>_. CHR ''1'') s @ CHR ''0'' # s"

definition frame_strings :: "string list \<Rightarrow> string" where
  "frame_strings xs = concat (map frame_string xs)"

definition unary_prefix :: "string \<Rightarrow> nat" where
  "unary_prefix s = length (takeWhile (\<lambda>c. c = CHR ''1'') s)"

function unframe_strings :: "string \<Rightarrow> string list" where
  "unframe_strings s =
     (if s = [] then []
      else take (unary_prefix s) (drop (Suc (unary_prefix s)) s) # unframe_strings (drop (unary_prefix s + Suc (unary_prefix s)) s))"
  by auto
termination by (relation "measure length") auto

declare unframe_strings.simps [simp del]

lemma unary_prefix_frame: "unary_prefix (map (\<lambda>_. CHR ''1'') s @ CHR ''0'' # t) = length s"
  by (induction s) (simp_all add: unary_prefix_def)

lemma unframe_cons: "unframe_strings (frame_string s @ t) = s # unframe_strings t"
proof -
  let ?t = "frame_string s @ t"
  have n: "unary_prefix ?t = length s" by (simp add: frame_string_def unary_prefix_frame)
  have "?t \<noteq> []" by (simp add: frame_string_def)
  then have "unframe_strings ?t = take (length s) (drop (Suc (length s)) ?t) # unframe_strings (drop (length s + Suc (length s)) ?t)"
    by (subst unframe_strings.simps) (simp only: n if_False)
  moreover have "drop (Suc (length s)) ?t = s @ t" by (simp add: frame_string_def)
  moreover have "drop (length s + Suc (length s)) ?t = t" by (simp add: frame_string_def)
  ultimately have "unframe_strings ?t = take (length s) (s @ t) # unframe_strings t" by (simp only:)
  then show ?thesis by simp
qed

lemma unframe_frame [simp]: "unframe_strings (frame_strings xs) = xs"
  by (induction xs) (simp_all add: frame_strings_def unframe_cons unframe_strings.simps [of "[]"])

fun binary_digits :: "nat \<Rightarrow> string" where
  "binary_digits n = (if n = 0 then [] else (if n mod 2 = 0 then CHR ''0'' else CHR ''1'') # binary_digits (n div 2))"

declare binary_digits.simps [simp del]

fun binary_value :: "string \<Rightarrow> nat" where
  "binary_value [] = 0"
| "binary_value (c # s) = (if c = CHR ''0'' then 0 else 1) + 2 * binary_value s"

lemma binary_value_digits [simp]: "binary_value (binary_digits n) = n"
proof (induction n rule: binary_digits.induct)
  case (1 n)
  show ?case
  proof (cases "n = 0")
    case False
    then have "binary_value (binary_digits (n div 2)) = n div 2" using 1 by blast
    moreover have "(if n mod 2 = 0 then 0 else 1) + 2 * (n div 2) = n" by presburger
    ultimately show ?thesis using False by (subst binary_digits.simps) (simp split: if_split_asm)
  qed (simp add: binary_digits.simps)
qed

definition print_int :: "int \<Rightarrow> string" where
  "print_int i = (if i < 0 then CHR ''-'' else CHR ''+'') # binary_digits (nat \<bar>i\<bar>)"

fun read_int :: "string \<Rightarrow> int" where
  "read_int [] = 0"
| "read_int (c # s) = (if c = CHR ''-'' then - int (binary_value s) else int (binary_value s))"

lemma read_print_int [simp]: "read_int (print_int i) = i"
  by (simp add: print_int_def)

lemma length_frame_string [simp]: "length (frame_string s) = Suc (2 * length s)"
  by (simp add: frame_string_def)

lemma length_frame_strings: "length (frame_strings xs) = (\<Sum>s\<leftarrow>xs. Suc (2 * length s))"
  by (induction xs) (simp_all add: frame_strings_def)

text \<open>A list of strings as a list of strings that starts with its length.\<close>

definition with_count :: "string list \<Rightarrow> string list" where
  "with_count xs = print_int (int (length xs)) # xs"

fun split_count :: "string list \<Rightarrow> string list \<times> string list" where
  "split_count [] = ([], [])"
| "split_count (n # xs) = (take (nat (read_int n)) xs, drop (nat (read_int n)) xs)"

lemma split_with_count [simp]: "split_count (with_count xs @ ys) = (xs, ys)"
  by (simp add: with_count_def)

end
