(* ===== verification/Remote_Config.thy ===== *)
theory Remote_Config
  imports Scan_Paths Framing "HOL-Library.Char_ord" "HOL-Library.List_Lexorder"
begin

text \<open>
  The remotely controlled configuration of an endpoint agent
  (\<^verbatim>\<open>eami-agent/internal/remoteconfig\<close>): the response that is parsed and checked, the file that
  keeps the last good configuration, and the manager that decides what is in force. JSON and
  the hash are parameters; so are the outcomes of the operations on files.
\<close>

section \<open>Configurations and their version (remoteconfig.go)\<close>

record RemoteConfig =
  rcScanIntervalSeconds :: int
  rcEnabledScanners :: "string list"
  rcModelScanPaths :: "string list"
  rcModelFileSizeMB :: int
  rcMaxReportSizeBytes :: int

record canonical =
  cnEnabledScanners :: "string list"
  cnMaxReportSizeBytes :: int
  cnModelFileSizeMB :: int
  cnModelScanPaths :: "string list"
  cnScanIntervalSeconds :: int

definition MaxResponseBytes :: nat where "MaxResponseBytes = 262144"
definition MinIntervalSeconds :: int where "MinIntervalSeconds = 60"
definition MaxIntervalSeconds :: int where "MaxIntervalSeconds = 86400"
definition MinReportSizeBytes :: int where "MinReportSizeBytes = 1048576"
definition MaxReportSizeBytes :: int where "MaxReportSizeBytes = 52428800"
definition MinModelFileSizeMB :: int where "MinModelFileSizeMB = 1"
definition MaxModelFileSizeMB :: int where "MaxModelFileSizeMB = 100000"
definition MaxEnabledScanners :: nat where "MaxEnabledScanners = 32"

lemmas config_bounds = MinIntervalSeconds_def MaxIntervalSeconds_def MinReportSizeBytes_def MaxReportSizeBytes_def
  MinModelFileSizeMB_def MaxModelFileSizeMB_def MaxEnabledScanners_def

datatype decode_error = WrongType | Malformed

record config_wire =
  cwConfigVersion :: "string option"
  cwScanIntervalSeconds :: "int option"
  cwEnabledScanners :: "string list option"
  cwModelScanPaths :: "string list option"
  cwModelFileSizeMB :: "int option"
  cwMaxReportSizeBytes :: "int option"

record Identity =
  idAgentID :: string
  idCollectorURLHash :: string

record stateFile =
  sfFormat :: int
  sfAgentID :: string
  sfCollectorURLSHA256 :: string
  sfConfigVersion :: string
  sfFetchedAt :: time
  sfConfig :: RemoteConfig

text \<open>\<^verbatim>\<open>encoding/json\<close> and \<^verbatim>\<open>crypto/sha256\<close>: the hash of the canonical form, the decoder of a
  response, and the strict decoder and the encoder of the state file.\<close>

record agent_codec =
  cdHash :: "canonical \<Rightarrow> string"
  cdDecode :: "string \<Rightarrow> decode_error + config_wire"
  cdStateDecode :: "string \<Rightarrow> stateFile option"
  cdStateEncode :: "stateFile \<Rightarrow> string"

definition sortedUnique :: "string list \<Rightarrow> string list" where
  "sortedUnique xs = sort (remdups xs)"

definition canonical_config :: "RemoteConfig \<Rightarrow> canonical" where
  "canonical_config c = \<lparr>cnEnabledScanners = sortedUnique (rcEnabledScanners c), cnMaxReportSizeBytes = rcMaxReportSizeBytes c,
     cnModelFileSizeMB = rcModelFileSizeMB c, cnModelScanPaths = sortedUnique (rcModelScanPaths c),
     cnScanIntervalSeconds = rcScanIntervalSeconds c\<rparr>"

definition config_Version :: "agent_codec \<Rightarrow> RemoteConfig \<Rightarrow> string" where
  "config_Version cd c = ''c1:'' @ cdHash cd (canonical_config c)"

definition config_Validate :: "RemoteConfig \<Rightarrow> string" where
  "config_Validate c =
     (if rcScanIntervalSeconds c < MinIntervalSeconds \<or> rcScanIntervalSeconds c > MaxIntervalSeconds then ''interval_out_of_range''
      else if rcMaxReportSizeBytes c < MinReportSizeBytes \<or> rcMaxReportSizeBytes c > MaxReportSizeBytes then ''report_size_out_of_range''
      else if rcModelFileSizeMB c < MinModelFileSizeMB \<or> rcModelFileSizeMB c > MaxModelFileSizeMB then ''model_size_out_of_range''
      else if length (rcEnabledScanners c) > MaxEnabledScanners then ''too_many_scanners''
      else checkPaths (rcModelScanPaths c))"

section \<open>Parsing a response\<close>

record Update =
  upVersioned :: bool
  upVersion :: string
  upConfig :: RemoteConfig
  upHasInterval :: bool
  upHasScanners :: bool
  upHasPaths :: bool

definition empty_config :: RemoteConfig where
  "empty_config = \<lparr>rcScanIntervalSeconds = 0, rcEnabledScanners = [], rcModelScanPaths = [], rcModelFileSizeMB = 0, rcMaxReportSizeBytes = 0\<rparr>"

fun decodeReason :: "decode_error \<Rightarrow> string" where
  "decodeReason WrongType = ''wrong_type''"
| "decodeReason Malformed = ''malformed_json''"

definition parseLegacy :: "config_wire \<Rightarrow> string + Update" where
  "parseLegacy w =
     (case (cwScanIntervalSeconds w, cwEnabledScanners w, cwModelScanPaths w, cwMaxReportSizeBytes w) of
        (Some i, Some scanners, Some paths, Some _) \<Rightarrow>
          if i > 0 \<and> (i < MinIntervalSeconds \<or> i > MaxIntervalSeconds) then Inl ''interval_out_of_range''
          else if length scanners > MaxEnabledScanners then Inl ''too_many_scanners''
          else if paths \<noteq> [] \<and> checkPaths paths \<noteq> [] then Inl (checkPaths paths)
          else Inr \<lparr>upVersioned = False, upVersion = [],
            upConfig = empty_config\<lparr>rcScanIntervalSeconds := (if i > 0 then i else 0), rcEnabledScanners := scanners, rcModelScanPaths := paths\<rparr>,
            upHasInterval = (i > 0), upHasScanners = (scanners \<noteq> []), upHasPaths = (paths \<noteq> [])\<rparr>
      | _ \<Rightarrow> Inl ''incomplete'')"

definition ParseResponse :: "agent_codec \<Rightarrow> string \<Rightarrow> string + Update" where
  "ParseResponse cd body =
     (case cdDecode cd body of
        Inl e \<Rightarrow> Inl (decodeReason e)
      | Inr w \<Rightarrow>
        if cwConfigVersion w = None \<or> cwConfigVersion w = Some [] then parseLegacy w
        else (case (cwConfigVersion w, cwScanIntervalSeconds w, cwEnabledScanners w, cwModelScanPaths w, cwModelFileSizeMB w, cwMaxReportSizeBytes w) of
          (Some v, Some i, Some scanners, Some paths, Some mb, Some sz) \<Rightarrow>
            (let c = \<lparr>rcScanIntervalSeconds = i, rcEnabledScanners = scanners, rcModelScanPaths = paths, rcModelFileSizeMB = mb, rcMaxReportSizeBytes = sz\<rparr> in
             if config_Version cd c \<noteq> v then Inl ''version_mismatch''
             else if config_Validate c \<noteq> [] then Inl (config_Validate c)
             else Inr \<lparr>upVersioned = True, upVersion = v, upConfig = c, upHasInterval = False, upHasScanners = False, upHasPaths = False\<rparr>)
        | _ \<Rightarrow> Inl ''incomplete''))"

definition KnownScanners :: "string list \<Rightarrow> string list \<Rightarrow> string list \<times> bool" where
  "KnownScanners names known = (filter (\<lambda>n. n \<in> set known) names, \<not> set names \<subseteq> set known)"

section \<open>The state file (state.go)\<close>

datatype trust = Trusted | Missing | Untrusted go_error

text \<open>What the operating system answers: the check of the folders, the check of the file, and an
  error of opening or reading it. \<open>disk\<close> is the content of the file.\<close>

record load_outcome =
  loChain :: trust
  loFile :: trust
  loRead :: "go_error option"

definition stateFormat :: int where "stateFormat = 1"

text \<open>The loaded configuration and version, if any, and the reason why there is none.\<close>

definition store_Load :: "agent_codec \<Rightarrow> load_outcome \<Rightarrow> Identity \<Rightarrow> string option \<Rightarrow> (RemoteConfig \<times> string) option \<times> string" where
  "store_Load cd lo ident disk =
     (case loChain lo of
        Missing \<Rightarrow> (None, [])
      | Untrusted _ \<Rightarrow> (None, ''state_untrusted'')
      | Trusted \<Rightarrow>
        (case loFile lo of
           Missing \<Rightarrow> (None, [])
         | Untrusted _ \<Rightarrow> (None, ''state_untrusted'')
         | Trusted \<Rightarrow>
           (case (disk, loRead lo) of
              (Some raw, None) \<Rightarrow>
                if length raw > MaxResponseBytes then (None, ''state_corrupt'')
                else (case cdStateDecode cd raw of
                  None \<Rightarrow> (None, ''state_corrupt'')
                | Some st \<Rightarrow>
                  if sfFormat st \<noteq> stateFormat then (None, ''state_corrupt'')
                  else if config_Version cd (sfConfig st) \<noteq> sfConfigVersion st then (None, ''state_corrupt'')
                  else if config_Validate (sfConfig st) \<noteq> [] then (None, ''state_invalid'')
                  else if sfAgentID st \<noteq> idAgentID ident \<or> sfCollectorURLSHA256 st \<noteq> idCollectorURLHash ident then (None, ''state_stale'')
                  else (Some (sfConfig st, sfConfigVersion st), []))
            | _ \<Rightarrow> (None, ''state_corrupt''))))"

definition state_of :: "Identity \<Rightarrow> RemoteConfig \<Rightarrow> string \<Rightarrow> time \<Rightarrow> stateFile" where
  "state_of ident c version now = \<lparr>sfFormat = stateFormat, sfAgentID = idAgentID ident, sfCollectorURLSHA256 = idCollectorURLHash ident,
     sfConfigVersion = version, sfFetchedAt = now, sfConfig = c\<rparr>"

text \<open>Saving replaces the file by a rename, so that a failure leaves the old one.\<close>

definition store_Save ::
  "agent_codec \<Rightarrow> go_error option \<Rightarrow> Identity \<Rightarrow> RemoteConfig \<Rightarrow> string \<Rightarrow> time \<Rightarrow> string option \<Rightarrow> go_error option \<times> string option" where
  "store_Save cd saveErr ident c version now disk =
     (case saveErr of
        Some err \<Rightarrow> (Some err, disk)
      | None \<Rightarrow> (None, Some (cdStateEncode cd (state_of ident c version now))))"

definition store_Delete :: "trust \<Rightarrow> go_error option \<Rightarrow> string option \<Rightarrow> go_error option \<times> string option" where
  "store_Delete chain removeErr disk =
     (case chain of
        Missing \<Rightarrow> (None, disk)
      | Untrusted err \<Rightarrow> (Some err, disk)
      | Trusted \<Rightarrow> (case removeErr of Some err \<Rightarrow> (Some err, disk) | None \<Rightarrow> (None, None)))"

section \<open>The manager (manager.go)\<close>

text \<open>The part of the local configuration that a remote one replaces.\<close>

record LocalConfig =
  lcIntervalSecs :: int
  lcScanners :: "string list"
  lcModelFileScanPaths :: "string list"
  lcMinModelSizeMB :: int
  lcFileLoaded :: bool

record FetchResult =
  frStatus :: int
  frBody :: string
  frTooLarge :: bool
  frErr :: "go_error option"

record config_manager =
  mgBase :: LocalConfig
  mgStore :: bool \<comment> \<open>persistence is on\<close>
  mgID :: Identity
  mgCur :: RemoteConfig
  mgHaveRemote :: bool
  mgVersioned :: bool
  mgVersion :: string
  mgSource :: string
  mgLastErr :: string
  mgPersisted :: string
  mgConsecutive404 :: nat
  mgWarnedVersion :: string

record config_status =
  csVersion :: string
  csSource :: string
  csError :: string
  csMaxReportSize :: int

text \<open>The outcomes of one round: of saving, of the folder check and the removal, and the clock.\<close>

record apply_outcome =
  aoSave :: "go_error option"
  aoChain :: trust
  aoRemove :: "go_error option"
  aoNow :: time

definition agent_AllScanners :: "string list" where
  "agent_AllScanners = [''ai_apps'', ''models'', ''mcp_servers'', ''cloud_clients'', ''network_activity'', ''browser'',
     ''ai_processes'', ''gpu'', ''python_envs'', ''nodejs_ai'']"

definition localSource :: "LocalConfig \<Rightarrow> string" where
  "localSource b = (if lcFileLoaded b then ''local'' else ''defaults'')"

definition NewManager :: "LocalConfig \<Rightarrow> bool \<Rightarrow> Identity \<Rightarrow> config_manager" where
  "NewManager b st ident = \<lparr>mgBase = b, mgStore = st, mgID = ident, mgCur = empty_config, mgHaveRemote = False, mgVersioned = False,
     mgVersion = [], mgSource = localSource b, mgLastErr = [], mgPersisted = [], mgConsecutive404 = 0, mgWarnedVersion = []\<rparr>"

definition applyVersioned :: "RemoteConfig \<Rightarrow> string \<Rightarrow> config_manager \<Rightarrow> config_manager" where
  "applyVersioned c version m =
     (let (scanners, dropped) = KnownScanners (rcEnabledScanners c) agent_AllScanners in
      m\<lparr>mgWarnedVersion := (if dropped \<and> mgWarnedVersion m \<noteq> version then version else mgWarnedVersion m),
        mgCur := c\<lparr>rcEnabledScanners := scanners\<rparr>, mgHaveRemote := True, mgVersioned := True, mgVersion := version\<rparr>)"

definition mgr_reject :: "string \<Rightarrow> config_manager \<Rightarrow> config_manager" where
  "mgr_reject reason m = m\<lparr>mgLastErr := reason\<rparr>"

definition LoadPersisted :: "agent_codec \<Rightarrow> load_outcome \<Rightarrow> string option \<Rightarrow> config_manager \<Rightarrow> config_manager" where
  "LoadPersisted cd lo disk m =
     (if \<not> mgStore m then m
      else (let (loaded, reason) = store_Load cd lo (mgID m) disk;
                m1 = (if reason \<noteq> [] then m\<lparr>mgLastErr := reason\<rparr> else m) in
            case loaded of
              None \<Rightarrow> m1
            | Some (c, v) \<Rightarrow> (applyVersioned c v m1)\<lparr>mgSource := ''persisted'', mgPersisted := v\<rparr>))"

definition handleNotFound :: "apply_outcome \<Rightarrow> config_manager \<Rightarrow> string option \<Rightarrow> config_manager \<times> string option" where
  "handleNotFound ao m0 disk =
     (let m = m0\<lparr>mgLastErr := [], mgConsecutive404 := mgConsecutive404 m0 + 1\<rparr> in
      if mgConsecutive404 m < 2 \<or> \<not> mgHaveRemote m then (m, disk)
      else (let (m1, disk1) =
                  (if mgStore m \<and> mgPersisted m \<noteq> [] then
                     (case store_Delete (aoChain ao) (aoRemove ao) disk of
                        (Some err, d) \<Rightarrow> (mgr_reject ''state_write_failed'' m, d)
                      | (None, d) \<Rightarrow> (m, d))
                   else (m, disk)) in
            (m1\<lparr>mgCur := empty_config, mgHaveRemote := False, mgVersioned := False, mgVersion := [], mgPersisted := [],
                mgSource := localSource (mgBase m1), mgConsecutive404 := 0\<rparr>, disk1)))"

definition fromLocal :: "LocalConfig \<Rightarrow> RemoteConfig" where
  "fromLocal b = \<lparr>rcScanIntervalSeconds = lcIntervalSecs b, rcEnabledScanners = lcScanners b, rcModelScanPaths = lcModelFileScanPaths b,
     rcModelFileSizeMB = lcMinModelSizeMB b, rcMaxReportSizeBytes = 0\<rparr>"

definition merge_legacy :: "Update \<Rightarrow> RemoteConfig \<Rightarrow> RemoteConfig" where
  "merge_legacy u c =
     c\<lparr>rcScanIntervalSeconds := (if upHasInterval u then rcScanIntervalSeconds (upConfig u) else rcScanIntervalSeconds c),
       rcEnabledScanners := (if upHasScanners u then rcEnabledScanners (upConfig u) else rcEnabledScanners c),
       rcModelScanPaths := (if upHasPaths u then rcModelScanPaths (upConfig u) else rcModelScanPaths c)\<rparr>"

definition mgr_Apply :: "agent_codec \<Rightarrow> apply_outcome \<Rightarrow> FetchResult \<Rightarrow> config_manager \<Rightarrow> string option \<Rightarrow> config_manager \<times> string option" where
  "mgr_Apply cd ao r m0 disk =
     (let m = m0\<lparr>mgConsecutive404 := 0\<rparr> in
      if frTooLarge r then (mgr_reject ''response_too_large'' m, disk)
      else if frErr r \<noteq> None \<or> (frStatus r \<noteq> 200 \<and> frStatus r \<noteq> 404) then (mgr_reject ''fetch_failed'' m, disk)
      else if frStatus r = 404 then handleNotFound ao m0 disk
      else case ParseResponse cd (frBody r) of
        Inl reason \<Rightarrow> (mgr_reject reason m, disk)
      | Inr u \<Rightarrow>
        if upVersioned u then
          (let m1 = (applyVersioned (upConfig u) (upVersion u) m)\<lparr>mgSource := ''remote'', mgLastErr := []\<rparr> in
           if mgStore m1 \<and> mgPersisted m1 \<noteq> upVersion u then
             (case store_Save cd (aoSave ao) (mgID m1) (upConfig u) (upVersion u) (aoNow ao) disk of
                (Some err, d) \<Rightarrow> (mgr_reject ''state_write_failed'' m1, d)
              | (None, d) \<Rightarrow> (m1\<lparr>mgPersisted := upVersion u\<rparr>, d))
           else (m1, disk))
        else (m\<lparr>mgCur := merge_legacy u (if mgHaveRemote m then mgCur m else fromLocal (mgBase m)),
               mgHaveRemote := True, mgVersioned := False, mgVersion := [], mgSource := ''remote'', mgLastErr := []\<rparr>, disk))"

definition mgr_Snapshot :: "config_manager \<Rightarrow> LocalConfig" where
  "mgr_Snapshot m =
     (if mgHaveRemote m then
        (mgBase m)\<lparr>lcIntervalSecs := rcScanIntervalSeconds (mgCur m), lcScanners := rcEnabledScanners (mgCur m),
          lcModelFileScanPaths := rcModelScanPaths (mgCur m),
          lcMinModelSizeMB := (if mgVersioned m then rcModelFileSizeMB (mgCur m) else lcMinModelSizeMB (mgBase m))\<rparr>
      else mgBase m)"

definition mgr_Status :: "config_manager \<Rightarrow> config_status" where
  "mgr_Status m = \<lparr>csVersion = (if mgHaveRemote m \<and> mgVersioned m then mgVersion m else []), csSource = mgSource m, csError = mgLastErr m,
     csMaxReportSize = (if mgHaveRemote m \<and> mgVersioned m then rcMaxReportSizeBytes (mgCur m) else 0)\<rparr>"

section \<open>What is in force\<close>

definition good_interval :: "int \<Rightarrow> bool" where
  "good_interval i = (MinIntervalSeconds \<le> i \<and> i \<le> MaxIntervalSeconds)"

lemma config_Validate_ok:
  "config_Validate c = [] \<longleftrightarrow> good_interval (rcScanIntervalSeconds c)
     \<and> MinReportSizeBytes \<le> rcMaxReportSizeBytes c \<and> rcMaxReportSizeBytes c \<le> MaxReportSizeBytes
     \<and> MinModelFileSizeMB \<le> rcModelFileSizeMB c \<and> rcModelFileSizeMB c \<le> MaxModelFileSizeMB
     \<and> length (rcEnabledScanners c) \<le> MaxEnabledScanners \<and> checkPaths (rcModelScanPaths c) = []"
  by (auto simp: config_Validate_def good_interval_def)

lemma parseLegacy_ok:
  assumes "parseLegacy w = Inr u"
  shows "\<not> upVersioned u" and "upHasInterval u \<longrightarrow> good_interval (rcScanIntervalSeconds (upConfig u))"
    and "upHasPaths u \<longrightarrow> checkPaths (rcModelScanPaths (upConfig u)) = []"
    and "length (rcEnabledScanners (upConfig u)) \<le> MaxEnabledScanners"
  using assms by (auto simp: parseLegacy_def good_interval_def split: option.splits if_splits)

lemma ParseResponse_versioned:
  assumes "ParseResponse cd body = Inr u" "upVersioned u"
  shows "config_Validate (upConfig u) = []" and "upVersion u = config_Version cd (upConfig u)"
  using assms parseLegacy_ok(1) by (auto simp: ParseResponse_def Let_def split: sum.splits option.splits if_splits)

lemma ParseResponse_legacy:
  assumes "ParseResponse cd body = Inr u" "\<not> upVersioned u"
  shows "upHasInterval u \<longrightarrow> good_interval (rcScanIntervalSeconds (upConfig u))"
    and "upHasPaths u \<longrightarrow> checkPaths (rcModelScanPaths (upConfig u)) = []"
    and "length (rcEnabledScanners (upConfig u)) \<le> MaxEnabledScanners"
  using assms parseLegacy_ok(2-4) by (auto simp: ParseResponse_def Let_def split: sum.splits option.splits if_splits)

lemma store_Load_ok:
  assumes "store_Load cd lo ident disk = (Some (c, v), reason)"
  shows "config_Validate c = [] \<and> v = config_Version cd c \<and> reason = []"
  using assms by (auto simp: store_Load_def split: trust.splits option.splits if_splits)

text \<open>The rounds of an agent process, and its restarts. The file may hold anything at first.\<close>

inductive agent_reachable :: "agent_codec \<Rightarrow> LocalConfig \<Rightarrow> bool \<Rightarrow> Identity \<Rightarrow> config_manager \<Rightarrow> string option \<Rightarrow> bool"
  for cd :: agent_codec and b :: LocalConfig and st :: bool and ident :: Identity where
  install: "agent_reachable cd b st ident (LoadPersisted cd lo disk (NewManager b st ident)) disk"
| poll: "agent_reachable cd b st ident m disk \<Longrightarrow> mgr_Apply cd ao r m disk = (m', disk') \<Longrightarrow> agent_reachable cd b st ident m' disk'"
| restart: "agent_reachable cd b st ident m disk \<Longrightarrow> agent_reachable cd b st ident (LoadPersisted cd lo disk (NewManager b st ident)) disk"

definition manager_ok :: "agent_codec \<Rightarrow> LocalConfig \<Rightarrow> bool \<Rightarrow> Identity \<Rightarrow> config_manager \<Rightarrow> bool" where
  "manager_ok cd b st ident m =
     (mgBase m = b \<and> mgStore m = st \<and> mgID m = ident
      \<and> (mgHaveRemote m \<longrightarrow>
           (good_interval (rcScanIntervalSeconds (mgCur m)) \<or> rcScanIntervalSeconds (mgCur m) = lcIntervalSecs b)
           \<and> (checkPaths (rcModelScanPaths (mgCur m)) = [] \<or> rcModelScanPaths (mgCur m) = lcModelFileScanPaths b)
           \<and> (length (rcEnabledScanners (mgCur m)) \<le> MaxEnabledScanners \<or> rcEnabledScanners (mgCur m) = lcScanners b))
      \<and> (mgHaveRemote m \<and> mgVersioned m \<longrightarrow>
           (\<exists>c. config_Validate c = [] \<and> mgVersion m = config_Version cd c
              \<and> mgCur m = c\<lparr>rcEnabledScanners := filter (\<lambda>n. n \<in> set agent_AllScanners) (rcEnabledScanners c)\<rparr>)))"

lemma manager_ok_frame:
  assumes "manager_ok cd b st ident m" "mgBase m' = mgBase m" "mgStore m' = mgStore m" "mgID m' = mgID m" "mgCur m' = mgCur m"
    "mgHaveRemote m' = mgHaveRemote m" "mgVersioned m' = mgVersioned m" "mgVersion m' = mgVersion m"
  shows "manager_ok cd b st ident m'"
  using assms by (simp add: manager_ok_def)

lemma manager_ok_new: "manager_ok cd b st ident (NewManager b st ident)"
  by (simp add: manager_ok_def NewManager_def)

lemma applyVersioned_simps [simp]:
  "mgBase (applyVersioned c v m) = mgBase m" "mgStore (applyVersioned c v m) = mgStore m" "mgID (applyVersioned c v m) = mgID m"
  "mgHaveRemote (applyVersioned c v m)" "mgVersioned (applyVersioned c v m)" "mgVersion (applyVersioned c v m) = v"
  "mgCur (applyVersioned c v m) = c\<lparr>rcEnabledScanners := filter (\<lambda>n. n \<in> set agent_AllScanners) (rcEnabledScanners c)\<rparr>"
  "mgPersisted (applyVersioned c v m) = mgPersisted m" "mgLastErr (applyVersioned c v m) = mgLastErr m"
  by (simp_all add: applyVersioned_def KnownScanners_def)

lemma manager_ok_versioned:
  assumes "manager_ok cd b st ident m" "config_Validate c = []"
  shows "manager_ok cd b st ident (applyVersioned c (config_Version cd c) m)"
  using assms le_trans [OF length_filter_le, of "rcEnabledScanners c" MaxEnabledScanners] by (auto simp: manager_ok_def config_Validate_ok)

lemma manager_ok_load:
  assumes "manager_ok cd b st ident m"
  shows "manager_ok cd b st ident (LoadPersisted cd lo disk m)"
proof (cases "mgStore m")
  case True
  obtain l reason where l: "store_Load cd lo (mgID m) disk = (l, reason)" by force
  let ?m = "if reason \<noteq> [] then m\<lparr>mgLastErr := reason\<rparr> else m"
  have ok: "manager_ok cd b st ident ?m" by (rule manager_ok_frame [OF assms]) auto
  show ?thesis
  proof (cases l)
    case None
    then show ?thesis using ok l by (simp add: LoadPersisted_def True)
  next
    case (Some p)
    obtain c v where p: "p = (c, v)" by force
    have "manager_ok cd b st ident (applyVersioned c v ?m)"
      using manager_ok_versioned [OF ok, of c] store_Load_ok [of cd lo "mgID m" disk c v reason] l Some p by simp
    then have "manager_ok cd b st ident ((applyVersioned c v ?m)\<lparr>mgSource := ''persisted'', mgPersisted := v\<rparr>)"
      by (rule manager_ok_frame) simp_all
    then show ?thesis using l Some p True by (simp add: LoadPersisted_def)
  qed
qed (use assms in \<open>simp add: LoadPersisted_def\<close>)

lemma merge_legacy_simps [simp]:
  "rcScanIntervalSeconds (merge_legacy u c) = (if upHasInterval u then rcScanIntervalSeconds (upConfig u) else rcScanIntervalSeconds c)"
  "rcModelScanPaths (merge_legacy u c) = (if upHasPaths u then rcModelScanPaths (upConfig u) else rcModelScanPaths c)"
  "rcEnabledScanners (merge_legacy u c) = (if upHasScanners u then rcEnabledScanners (upConfig u) else rcEnabledScanners c)"
  by (simp_all add: merge_legacy_def)

text \<open>The cases of a round.\<close>

lemma mgr_Apply_cases:
  assumes "mgr_Apply cd ao r m disk = (m', disk')"
  obtains (reject) reason where "m' = mgr_reject reason (m\<lparr>mgConsecutive404 := 0\<rparr>)" "disk' = disk" "reason \<noteq> []"
  | (absent) "frStatus r = 404" "frErr r = None" "\<not> frTooLarge r" "handleNotFound ao m disk = (m', disk')"
  | (full) u saved where "ParseResponse cd (frBody r) = Inr u" "upVersioned u" "frStatus r = 200"
      "m' = (applyVersioned (upConfig u) (upVersion u) (m\<lparr>mgConsecutive404 := 0\<rparr>))\<lparr>mgSource := ''remote'',
         mgLastErr := (if saved then [] else ''state_write_failed''),
         mgPersisted := (if saved \<and> mgStore m then upVersion u else mgPersisted m)\<rparr>"
      "disk' = (if saved \<and> mgStore m \<and> mgPersisted m \<noteq> upVersion u
                then Some (cdStateEncode cd (state_of (mgID m) (upConfig u) (upVersion u) (aoNow ao))) else disk)"
      "saved \<longleftrightarrow> \<not> mgStore m \<or> mgPersisted m = upVersion u \<or> aoSave ao = None"
  | (merge) u where "ParseResponse cd (frBody r) = Inr u" "\<not> upVersioned u" "disk' = disk"
      "m' = m\<lparr>mgConsecutive404 := 0, mgCur := merge_legacy u (if mgHaveRemote m then mgCur m else fromLocal (mgBase m)),
         mgHaveRemote := True, mgVersioned := False, mgVersion := [], mgSource := ''remote'', mgLastErr := []\<rparr>"
proof (cases "\<not> frTooLarge r \<and> frErr r = None \<and> (frStatus r = 200 \<or> frStatus r = 404)")
  case False
  then show thesis
    using assms reject [of "''response_too_large''"] reject [of "''fetch_failed''"] by (auto simp: mgr_Apply_def Let_def split: if_splits)
next
  case ok: True
  show thesis
  proof (cases "frStatus r = 404")
    case True
    then show thesis using ok assms absent by (simp add: mgr_Apply_def Let_def)
  next
    case False
    then have st: "frStatus r = 200" using ok by simp
    show thesis
    proof (cases "ParseResponse cd (frBody r)")
      case (Inl reason)
      have "reason \<noteq> []"
        using Inl by (auto simp: ParseResponse_def parseLegacy_def Let_def config_Validate_def checkPaths_def split: sum.splits option.splits if_splits
            elim: decodeReason.elims)
      then show thesis using reject [of reason] assms ok st Inl by (simp add: mgr_Apply_def Let_def)
    next
      case (Inr u)
      show thesis
      proof (cases "upVersioned u")
        case True
        let ?saved = "\<not> mgStore m \<or> mgPersisted m = upVersion u \<or> aoSave ao = None"
        show thesis
          by (rule full [OF Inr True st, of ?saved])
            (use assms ok st Inr True in \<open>auto simp: mgr_Apply_def Let_def store_Save_def mgr_reject_def split: if_splits option.splits\<close>)
      next
        case False
        then show thesis using merge [OF Inr] assms ok st Inr by (cases "mgHaveRemote m") (auto simp: mgr_Apply_def Let_def)
      qed
    qed
  qed
qed

lemma handleNotFound_cases:
  assumes "handleNotFound ao m disk = (m', disk')"
  obtains (keep) "m' = m\<lparr>mgLastErr := [], mgConsecutive404 := mgConsecutive404 m + 1\<rparr>" "disk' = disk" "mgConsecutive404 m = 0 \<or> \<not> mgHaveRemote m"
  | (revert) e where "m' = m\<lparr>mgLastErr := e, mgConsecutive404 := 0, mgCur := empty_config, mgHaveRemote := False, mgVersioned := False,
         mgVersion := [], mgPersisted := [], mgSource := localSource (mgBase m)\<rparr>"
      "disk' = disk \<or> disk' = None \<and> mgPersisted m \<noteq> []" "mgConsecutive404 m \<noteq> 0" "mgHaveRemote m"
proof (cases "mgConsecutive404 m = 0 \<or> \<not> mgHaveRemote m")
  case True
  then show thesis using assms keep by (auto simp: handleNotFound_def Let_def)
next
  case False
  show thesis
  proof (cases "mgStore m \<and> mgPersisted m \<noteq> []")
    case True
    obtain e d where d: "store_Delete (aoChain ao) (aoRemove ao) disk = (e, d)" by force
    then have "d = disk \<or> d = None" by (auto simp: store_Delete_def split: trust.splits option.splits)
    then show thesis
      using assms False True d revert [of "if e = None then [] else ''state_write_failed''"]
      by (cases e) (auto simp: handleNotFound_def mgr_reject_def Let_def)
  next
    case f: False
    then show thesis using assms False revert [of "[]"] by (auto simp: handleNotFound_def Let_def)
  qed
qed

lemma manager_ok_poll:
  assumes "manager_ok cd b st ident m" "mgr_Apply cd ao r m disk = (m', disk')"
  shows "manager_ok cd b st ident m'"
proof (cases rule: mgr_Apply_cases [OF assms(2)])
  case (1 reason)
  then show ?thesis by (intro manager_ok_frame [OF assms(1)]) (simp_all add: mgr_reject_def)
next
  case 2
  show ?thesis
  proof (cases rule: handleNotFound_cases [OF 2(4)])
    case 1
    then show ?thesis by (intro manager_ok_frame [OF assms(1)]) simp_all
  next
    case (2 e)
    then show ?thesis using assms(1) by (simp add: manager_ok_def)
  qed
next
  case (3 u saved)
  have "manager_ok cd b st ident (m\<lparr>mgConsecutive404 := 0\<rparr>)" by (rule manager_ok_frame [OF assms(1)]) simp_all
  then have "manager_ok cd b st ident (applyVersioned (upConfig u) (upVersion u) (m\<lparr>mgConsecutive404 := 0\<rparr>))"
    using manager_ok_versioned ParseResponse_versioned [OF 3(1,2)] by metis
  then show ?thesis by (rule manager_ok_frame) (simp_all add: 3(4))
next
  case (4 u)
  have b: "mgBase m = b" using assms(1) by (simp add: manager_ok_def)
  have start: "(good_interval (rcScanIntervalSeconds c) \<or> rcScanIntervalSeconds c = lcIntervalSecs b)
      \<and> (checkPaths (rcModelScanPaths c) = [] \<or> rcModelScanPaths c = lcModelFileScanPaths b)
      \<and> (length (rcEnabledScanners c) \<le> MaxEnabledScanners \<or> rcEnabledScanners c = lcScanners b)"
    if "c = (if mgHaveRemote m then mgCur m else fromLocal (mgBase m))" for c
    using assms(1) that by (auto simp: manager_ok_def fromLocal_def)
  show ?thesis
    using assms(1) start [OF refl] ParseResponse_legacy [OF 4(1,2)] by (simp add: manager_ok_def 4(4) b)
qed

lemma agent_reachable_ok: "agent_reachable cd b st ident m disk \<Longrightarrow> manager_ok cd b st ident m"
  by (induction rule: agent_reachable.induct) (auto intro: manager_ok_load manager_ok_new manager_ok_poll)

lemma versioned_in_force:
  assumes "manager_ok cd b st ident m" "mgHaveRemote m" "mgVersioned m"
  shows "MinModelFileSizeMB \<le> rcModelFileSizeMB (mgCur m) \<and> rcModelFileSizeMB (mgCur m) \<le> MaxModelFileSizeMB
    \<and> MinReportSizeBytes \<le> rcMaxReportSizeBytes (mgCur m) \<and> rcMaxReportSizeBytes (mgCur m) \<le> MaxReportSizeBytes
    \<and> set (rcEnabledScanners (mgCur m)) \<subseteq> set agent_AllScanners \<and> length (rcEnabledScanners (mgCur m)) \<le> MaxEnabledScanners
    \<and> mgVersion m \<noteq> []"
proof -
  obtain c where c: "config_Validate c = []" "mgVersion m = config_Version cd c"
    "mgCur m = c\<lparr>rcEnabledScanners := filter (\<lambda>n. n \<in> set agent_AllScanners) (rcEnabledScanners c)\<rparr>"
    using assms by (auto simp: manager_ok_def)
  have "length (filter (\<lambda>n. n \<in> set agent_AllScanners) (rcEnabledScanners c)) \<le> MaxEnabledScanners"
    using c(1) length_filter_le le_trans unfolding config_Validate_ok by blast
  then show ?thesis using c(1) unfolding config_Validate_ok by (simp add: c(2,3) config_Version_def) blast
qed


text \<open>A result that brings a configuration, and one that says that there is none.\<close>

definition brings_config :: "agent_codec \<Rightarrow> FetchResult \<Rightarrow> bool" where
  "brings_config cd r =
     (\<not> frTooLarge r \<and> frErr r = None \<and> frStatus r = 200 \<and> (case ParseResponse cd (frBody r) of Inl _ \<Rightarrow> False | Inr _ \<Rightarrow> True))"

definition says_absent :: "FetchResult \<Rightarrow> bool" where
  "says_absent r = (\<not> frTooLarge r \<and> frErr r = None \<and> frStatus r = 404)"

lemma snapshot_frame:
  assumes "mgBase m' = mgBase m" "mgCur m' = mgCur m" "mgHaveRemote m' = mgHaveRemote m" "mgVersioned m' = mgVersioned m" "mgVersion m' = mgVersion m"
  shows "mgr_Snapshot m' = mgr_Snapshot m" "csVersion (mgr_Status m') = csVersion (mgr_Status m)"
  using assms by (simp_all add: mgr_Snapshot_def mgr_Status_def)

text \<open>What a round can leave in force: everything the rest of the agent sees of the manager
  except the error of the last round.\<close>

definition in_force :: "config_manager \<Rightarrow> LocalConfig \<times> string \<times> string \<times> int" where
  "in_force m = (mgr_Snapshot m, csVersion (mgr_Status m), csSource (mgr_Status m), csMaxReportSize (mgr_Status m))"

definition in_force_locally :: "LocalConfig \<Rightarrow> LocalConfig \<times> string \<times> string \<times> int" where
  "in_force_locally b = (b, [], localSource b, 0)"

lemma failed_round:
  assumes "mgr_Apply cd ao r m disk = (m', disk')" "\<not> brings_config cd r" "\<not> says_absent r"
  shows "in_force m' = in_force m \<and> mgBase m' = mgBase m \<and> mgHaveRemote m' = mgHaveRemote m \<and> disk' = disk
    \<and> csError (mgr_Status m') \<noteq> [] \<and> mgConsecutive404 m' = 0"
proof -
  have parse: "(case ParseResponse cd (frBody r) of Inl _ \<Rightarrow> False | Inr _ \<Rightarrow> True) \<Longrightarrow> frTooLarge r \<or> frErr r \<noteq> None \<or> frStatus r \<noteq> 200"
    using assms(2) by (auto simp: brings_config_def)
  obtain reason where "m' = mgr_reject reason (m\<lparr>mgConsecutive404 := 0\<rparr>)" "disk' = disk" "reason \<noteq> []"
  proof (cases "frTooLarge r \<or> frErr r \<noteq> None \<or> (frStatus r \<noteq> 200 \<and> frStatus r \<noteq> 404)")
    case True
    then show thesis
      using assms(1) that [of "''response_too_large''"] that [of "''fetch_failed''"] by (auto simp: mgr_Apply_def Let_def split: if_splits)
  next
    case False
    then have "frStatus r = 200" using assms(3) by (auto simp: says_absent_def)
    then obtain reason where r: "ParseResponse cd (frBody r) = Inl reason"
      using parse False by (cases "ParseResponse cd (frBody r)") auto
    have "reason \<noteq> []"
      using r by (auto simp: ParseResponse_def parseLegacy_def Let_def config_Validate_def checkPaths_def split: sum.splits option.splits if_splits
          elim: decodeReason.elims)
    then show thesis using that [of reason] assms(1) False r \<open>frStatus r = 200\<close> by (simp add: mgr_Apply_def Let_def)
  qed
  then show ?thesis by (simp add: in_force_def mgr_reject_def mgr_Snapshot_def mgr_Status_def)
qed

lemma absent_round:
  assumes "mgr_Apply cd ao r m disk = (m', disk')" "says_absent r"
  shows "handleNotFound ao m disk = (m', disk')"
  using assms by (simp add: mgr_Apply_def says_absent_def Let_def)

lemma absent_keeps:
  assumes "mgr_Apply cd ao r m disk = (m', disk')" "says_absent r" "mgConsecutive404 m = 0 \<or> \<not> mgHaveRemote m"
  shows "in_force m' = in_force m \<and> mgBase m' = mgBase m \<and> mgHaveRemote m' = mgHaveRemote m \<and> disk' = disk
    \<and> mgConsecutive404 m' = mgConsecutive404 m + 1"
  by (cases rule: handleNotFound_cases [OF absent_round [OF assms(1,2)]])
    (use assms(3) in \<open>auto simp: mgr_Snapshot_def mgr_Status_def in_force_def\<close>)

lemma absent_reverts:
  assumes "mgr_Apply cd ao r m disk = (m', disk')" "says_absent r" "mgConsecutive404 m \<noteq> 0" "mgHaveRemote m"
  shows "in_force m' = in_force_locally (mgBase m) \<and> mgBase m' = mgBase m \<and> \<not> mgHaveRemote m' \<and> (disk' = disk \<or> disk' = None)"
  by (cases rule: handleNotFound_cases [OF absent_round [OF assms(1,2)]])
    (use assms(3,4) in \<open>auto simp: mgr_Snapshot_def mgr_Status_def in_force_def in_force_locally_def\<close>)

text \<open>A sequence of rounds.\<close>

definition polls :: "agent_codec \<Rightarrow> (apply_outcome \<times> FetchResult) list \<Rightarrow> config_manager \<times> string option \<Rightarrow> config_manager \<times> string option" where
  "polls cd rs st = fold (\<lambda>(ao, r) (m, disk). mgr_Apply cd ao r m disk) rs st"

lemma polls_simps [simp]:
  "polls cd [] st = st"
  "polls cd ((ao, r) # rs) (m, disk) = polls cd rs (mgr_Apply cd ao r m disk)"
  by (simp_all add: polls_def)

text \<open>Two answers in a row that there is no configuration, \<open>pend\<close> when one has just come.\<close>

fun gone_twice :: "bool \<Rightarrow> FetchResult list \<Rightarrow> bool" where
  "gone_twice pend [] = False"
| "gone_twice pend (r # rs) = (if says_absent r then pend \<or> gone_twice True rs else gone_twice False rs)"

lemma gone_twice_iff:
  "gone_twice pend rs \<longleftrightarrow> (pend \<and> rs \<noteq> [] \<and> says_absent (hd rs)) \<or> (\<exists>i. Suc i < length rs \<and> says_absent (rs ! i) \<and> says_absent (rs ! Suc i))"
proof (induction rs arbitrary: pend)
  case (Cons r rs)
  have "(\<exists>i. Suc i < length (r # rs) \<and> says_absent ((r # rs) ! i) \<and> says_absent ((r # rs) ! Suc i))
      \<longleftrightarrow> (rs \<noteq> [] \<and> says_absent r \<and> says_absent (hd rs)) \<or> (\<exists>i. Suc i < length rs \<and> says_absent (rs ! i) \<and> says_absent (rs ! Suc i))"
    (is "(\<exists>i. ?P i) \<longleftrightarrow> ?Q \<or> (\<exists>i. ?R i)")
  proof
    assume "\<exists>i. ?P i"
    then obtain i where "?P i" ..
    then show "?Q \<or> (\<exists>i. ?R i)" by (cases i) (auto simp: hd_conv_nth)
  next
    assume "?Q \<or> (\<exists>i. ?R i)"
    then show "\<exists>i. ?P i"
    proof
      assume ?Q
      then show ?thesis by (intro exI [of _ 0]) (auto simp: hd_conv_nth)
    next
      assume "\<exists>i. ?R i"
      then obtain i where "?R i" ..
      then show ?thesis by (intro exI [of _ "Suc i"]) simp
    qed
  qed
  then show ?case using Cons.IH [of True] Cons.IH [of False] by auto
qed simp

lemma polls_local:
  assumes "polls cd rs (m, disk) = (m', disk')" "\<forall>(ao, r)\<in>set rs. \<not> brings_config cd r" "\<not> mgHaveRemote m"
  shows "in_force m' = in_force m \<and> disk' = disk"
  using assms
proof (induction rs arbitrary: m disk)
  case (Cons p rs)
  obtain ao r where p: "p = (ao, r)" by force
  obtain m1 d1 where 1: "mgr_Apply cd ao r m disk = (m1, d1)" by force
  have "in_force m1 = in_force m \<and> d1 = disk \<and> \<not> mgHaveRemote m1"
    using failed_round [OF 1] absent_keeps [OF 1] Cons.prems by (cases "says_absent r") (auto simp: p)
  then show ?case using Cons.IH [of m1 d1] Cons.prems by (auto simp: p 1)
qed simp

lemma polls_keep:
  assumes "polls cd rs (m, disk) = (m', disk')" "\<forall>(ao, r)\<in>set rs. \<not> brings_config cd r" "mgHaveRemote m"
    "pend = (mgConsecutive404 m \<noteq> 0)"
  shows "if gone_twice pend (map snd rs) then in_force m' = in_force_locally (mgBase m) \<and> (disk' = disk \<or> disk' = None)
    else in_force m' = in_force m \<and> disk' = disk"
  using assms
proof (induction rs arbitrary: m disk pend)
  case (Cons p rs)
  obtain ao r where p: "p = (ao, r)" by force
  obtain m1 d1 where 1: "mgr_Apply cd ao r m disk = (m1, d1)" by force
  have rest: "polls cd rs (m1, d1) = (m', disk')" "\<forall>(ao, r)\<in>set rs. \<not> brings_config cd r" "\<not> brings_config cd r"
    using Cons.prems(1,2) by (simp_all add: p 1)
  show ?case
  proof (cases "says_absent r")
    case False
    then show ?thesis using failed_round [OF 1 rest(3)] Cons.IH [OF rest(1,2), of False] Cons.prems(3) by (auto simp: p)
  next
    case a: True
    show ?thesis
    proof (cases pend)
      case True
      then have "in_force m1 = in_force_locally (mgBase m)" "\<not> mgHaveRemote m1" "d1 = disk \<or> d1 = None"
        using absent_reverts [OF 1 a] Cons.prems(3,4) by auto
      then show ?thesis using polls_local [OF rest(1,2)] a True by (auto simp: p)
    next
      case False
      then show ?thesis using absent_keeps [OF 1 a] Cons.IH [OF rest(1,2), of True] Cons.prems(3,4) a by (auto simp: p)
    qed
  qed
qed (simp_all add: polls_def)

lemma brought_round:
  assumes "mgr_Apply cd ao r m disk = (m', disk')" "brings_config cd r"
  shows "mgHaveRemote m' \<and> mgConsecutive404 m' = 0 \<and> mgBase m' = mgBase m"
proof -
  obtain u where u: "ParseResponse cd (frBody r) = Inr u" "\<not> frTooLarge r" "frErr r = None" "frStatus r = 200"
    using assms(2) by (auto simp: brings_config_def split: sum.splits)
  show ?thesis
    using assms(1) u by (auto simp: mgr_Apply_def Let_def applyVersioned_def KnownScanners_def mgr_reject_def split: if_splits option.splits prod.splits)
qed

lemma loaded_state:
  assumes "m = LoadPersisted cd lo disk (NewManager b st ident)" "csSource (mgr_Status m) = ''persisted''"
  shows "mgHaveRemote m \<and> mgConsecutive404 m = 0 \<and> mgBase m = b"
proof -
  have n: "mgSource (NewManager b st ident) \<noteq> ''persisted''" "mgConsecutive404 (NewManager b st ident) = 0" "mgBase (NewManager b st ident) = b"
    by (simp_all add: NewManager_def localSource_def)
  have a: "mgConsecutive404 (applyVersioned c v x) = mgConsecutive404 x" for c v x by (simp add: applyVersioned_def KnownScanners_def)
  obtain l reason where l: "store_Load cd lo (mgID (NewManager b st ident)) disk = (l, reason)" by force
  have "mgSource m = ''persisted''" using assms(2) by (simp add: mgr_Status_def)
  then show ?thesis
    using n by (cases l) (auto simp: assms(1) LoadPersisted_def l Let_def a split: if_splits)
qed

lemma last_round_reported:
  assumes "polls cd rs (m, disk) = (m', disk')" "rs \<noteq> []" "\<not> brings_config cd (snd (last rs))" "\<not> says_absent (snd (last rs))"
  shows "csError (mgr_Status m') \<noteq> []"
proof -
  obtain xs ao r where rs: "rs = xs @ [(ao, r)]" using assms(2) by (metis append_butlast_last_id prod.exhaust)
  obtain m1 d1 where 1: "polls cd xs (m, disk) = (m1, d1)" by force
  have "mgr_Apply cd ao r m1 d1 = (m', disk')" using assms(1) 1 by (simp add: polls_def rs)
  then show ?thesis using failed_round assms(3,4) rs by (metis last_snoc snd_conv)
qed

text \<open>C30: The last good configuration stays in force. Take a round that brought a
  configuration, or a start that loaded the one on disk, and any sequence of rounds after it
  that bring none: transport errors, other statuses, oversized or refused bodies, and answers
  that there is no configuration. Unless two such answers follow one another, everything in
  force is as before the sequence, the settings of a scan, the version, the source and the cap
  on reports, and so is the state file. If two do, the local configuration is in force, with no
  version and no cap, and the file is as before or gone. A sequence whose last round failed
  reports an error.\<close>

theorem failures_keep_last_good:
  assumes "mgr_Apply cd ao r m0 disk0 = (m, disk) \<and> brings_config cd r
      \<or> m = LoadPersisted cd lo disk (NewManager (mgBase m0) st ident) \<and> csSource (mgr_Status m) = ''persisted''"
    and "\<forall>(ao, r)\<in>set rs. \<not> brings_config cd r" "polls cd rs (m, disk) = (m', disk')"
  shows "(if \<exists>i. Suc i < length rs \<and> says_absent (snd (rs ! i)) \<and> says_absent (snd (rs ! Suc i))
      then mgr_Snapshot m' = mgBase m0 \<and> csVersion (mgr_Status m') = [] \<and> csMaxReportSize (mgr_Status m') = 0
        \<and> csSource (mgr_Status m') = localSource (mgBase m0) \<and> (disk' = disk \<or> disk' = None)
      else mgr_Snapshot m' = mgr_Snapshot m \<and> csVersion (mgr_Status m') = csVersion (mgr_Status m)
        \<and> csMaxReportSize (mgr_Status m') = csMaxReportSize (mgr_Status m) \<and> csSource (mgr_Status m') = csSource (mgr_Status m) \<and> disk' = disk)
    \<and> (rs \<noteq> [] \<and> \<not> says_absent (snd (last rs)) \<longrightarrow> csError (mgr_Status m') \<noteq> [])"
proof -
  have m: "mgHaveRemote m" "mgConsecutive404 m = 0" "mgBase m = mgBase m0"
    using assms(1) brought_round [of cd ao r m0 disk0 m disk] loaded_state [of m cd lo disk "mgBase m0" st ident] by satx+
  have twice: "gone_twice False (map snd rs) \<longleftrightarrow> (\<exists>i. Suc i < length rs \<and> says_absent (snd (rs ! i)) \<and> says_absent (snd (rs ! Suc i)))"
    by (auto simp: gone_twice_iff)
  have "csError (mgr_Status m') \<noteq> []" if "rs \<noteq> []" "\<not> says_absent (snd (last rs))"
    by (rule last_round_reported [OF assms(3) that(1) _ that(2)]) (use bspec [OF assms(2) last_in_set [OF that(1)]] in \<open>simp add: case_prod_beta\<close>)
  moreover have "if gone_twice False (map snd rs) then in_force m' = in_force_locally (mgBase m0) \<and> (disk' = disk \<or> disk' = None)
      else in_force m' = in_force m \<and> disk' = disk"
    using polls_keep [OF assms(3,2) m(1), of False] by (simp add: m(2,3))
  ultimately show ?thesis
    unfolding twice [symmetric] by (cases "gone_twice False (map snd rs)") (simp_all add: in_force_def in_force_locally_def)
qed

section \<open>A restart\<close>

text \<open>What the state file holds when the manager believes that it holds its version.\<close>

definition disk_ok :: "agent_codec \<Rightarrow> config_manager \<Rightarrow> string option \<Rightarrow> bool" where
  "disk_ok cd m disk =
     (mgPersisted m \<noteq> [] \<longrightarrow>
        (\<exists>raw st. disk = Some raw \<and> cdStateDecode cd raw = Some st \<and> sfFormat st = stateFormat \<and> sfConfigVersion st = mgPersisted m
           \<and> config_Version cd (sfConfig st) = mgPersisted m \<and> config_Validate (sfConfig st) = []
           \<and> sfAgentID st = idAgentID (mgID m) \<and> sfCollectorURLSHA256 st = idCollectorURLHash (mgID m)))"

text \<open>The decoder of the state file reads what its encoder wrote.\<close>

definition state_codec :: "agent_codec \<Rightarrow> bool" where
  "state_codec cd = (\<forall>st. cdStateDecode cd (cdStateEncode cd st) = Some st)"

lemma disk_ok_load: "disk_ok cd (LoadPersisted cd lo disk (NewManager b st ident)) disk"
  by (auto simp: disk_ok_def LoadPersisted_def NewManager_def Let_def applyVersioned_def KnownScanners_def store_Load_def
      split: trust.splits option.splits if_splits prod.splits)

lemma disk_ok_saved:
  assumes "state_codec cd" "config_Validate c = []" "mgPersisted m' = config_Version cd c"
  shows "disk_ok cd m' (Some (cdStateEncode cd (state_of (mgID m') c (config_Version cd c) now)))"
  using assms by (simp add: disk_ok_def state_codec_def state_of_def)

lemma disk_ok_poll:
  assumes "disk_ok cd m disk" "state_codec cd" "mgr_Apply cd ao r m disk = (m', disk')"
  shows "disk_ok cd m' disk'"
proof (cases rule: mgr_Apply_cases [OF assms(3)])
  case (1 reason)
  then show ?thesis using assms(1) by (simp add: disk_ok_def mgr_reject_def)
next
  case 2
  show ?thesis
    by (cases rule: handleNotFound_cases [OF 2(4)]) (use assms(1) in \<open>simp_all add: disk_ok_def\<close>)
next
  case (3 u saved)
  note v = ParseResponse_versioned [OF 3(1,2)]
  show ?thesis
  proof (cases "saved \<and> mgStore m \<and> mgPersisted m \<noteq> upVersion u")
    case True
    have "mgPersisted m' = config_Version cd (upConfig u)" "mgID m' = mgID m" using 3(4) True v(2) by simp_all
    then show ?thesis
      using disk_ok_saved [OF assms(2) v(1), of m' "aoNow ao"] True 3(5) v(2) by metis
  next
    case False
    then have "mgPersisted m' = mgPersisted m" "mgID m' = mgID m" "disk' = disk"
      using 3(4,5) by auto
    then show ?thesis using assms(1) by (simp add: disk_ok_def)
  qed
next
  case (4 u)
  then show ?thesis using assms(1) by (simp add: disk_ok_def)
qed

lemma agent_reachable_disk:
  assumes "state_codec cd"
  shows "agent_reachable cd b st ident m disk \<Longrightarrow> disk_ok cd m disk"
  by (induction rule: agent_reachable.induct) (auto intro: disk_ok_load disk_ok_poll [OF _ assms])

lemma sortedUnique_set: "sortedUnique xs = sortedUnique ys \<Longrightarrow> set xs = set ys"
  by (metis set_remdups set_sort sortedUnique_def)

text \<open>The same configuration up to the order and repetition of names.\<close>

definition same_scan :: "LocalConfig \<Rightarrow> LocalConfig \<Rightarrow> bool" where
  "same_scan s t =
     (lcIntervalSecs s = lcIntervalSecs t \<and> set (lcScanners s) = set (lcScanners t)
      \<and> set (lcModelFileScanPaths s) = set (lcModelFileScanPaths t) \<and> lcMinModelSizeMB s = lcMinModelSizeMB t)"

lemma same_version_same_scan:
  assumes "canonical_config c = canonical_config c'"
    "mgBase m = mgBase m'" "mgHaveRemote m" "mgHaveRemote m'" "mgVersioned m" "mgVersioned m'"
    "mgCur m = c\<lparr>rcEnabledScanners := filter P (rcEnabledScanners c)\<rparr>" "mgCur m' = c'\<lparr>rcEnabledScanners := filter P (rcEnabledScanners c')\<rparr>"
  shows "same_scan (mgr_Snapshot m) (mgr_Snapshot m') \<and> csMaxReportSize (mgr_Status m) = csMaxReportSize (mgr_Status m')"
proof -
  have "set (rcEnabledScanners c) = set (rcEnabledScanners c')" "set (rcModelScanPaths c) = set (rcModelScanPaths c')"
    "rcScanIntervalSeconds c = rcScanIntervalSeconds c'" "rcModelFileSizeMB c = rcModelFileSizeMB c'" "rcMaxReportSizeBytes c = rcMaxReportSizeBytes c'"
    using assms(1) by (auto simp: canonical_config_def dest!: sortedUnique_set)
  then show ?thesis using assms(2-8) by (simp add: same_scan_def mgr_Snapshot_def mgr_Status_def)
qed

lemma applied_round:
  assumes "brings_config cd r" "ParseResponse cd (frBody r) = Inr u" "upVersioned u" "mgr_Apply cd ao r m disk = (m', disk')"
    and "mgStore m" "aoSave ao = None \<or> mgPersisted m = upVersion u"
  shows "m' = (applyVersioned (upConfig u) (upVersion u) (m\<lparr>mgConsecutive404 := 0\<rparr>))\<lparr>mgSource := ''remote'', mgLastErr := [], mgPersisted := upVersion u\<rparr>"
proof -
  have r: "\<not> frTooLarge r" "frErr r = None" "frStatus r = 200" using assms(1) by (simp_all add: brings_config_def)
  show ?thesis
  proof (cases "mgPersisted m = upVersion u")
    case True
    have e: "m' = (applyVersioned (upConfig u) (upVersion u) (m\<lparr>mgConsecutive404 := 0\<rparr>))\<lparr>mgSource := ''remote'', mgLastErr := []\<rparr>"
      using assms(4) by (simp add: mgr_Apply_def r assms(2,3,5) Let_def True)
    show ?thesis by (rule config_manager.equality) (simp_all add: e True)
  next
    case False
    then show ?thesis using assms(4,6) by (simp add: mgr_Apply_def r assms(2,3,5) Let_def store_Save_def)
  qed
qed

text \<open>A configuration that was applied survives a restart. When a versioned configuration
  has been applied and its file written (or was there), a new process of the same identity that
  can read the file starts with the same version, interval, scanners, folders and sizes, unless
  another configuration has the same hash.\<close>

theorem applied_config_survives_restart:
  assumes "agent_reachable cd b True ident m disk" "state_codec cd"
    and "\<forall>c. config_Version cd c = upVersion u \<longrightarrow> canonical_config c = canonical_config (upConfig u)"
    and "brings_config cd r" "ParseResponse cd (frBody r) = Inr u" "upVersioned u"
    and "mgr_Apply cd ao r m disk = (m', Some raw)" "aoSave ao = None \<or> mgPersisted m = upVersion u"
    and "length raw \<le> MaxResponseBytes"
    and "loChain lo = Trusted" "loFile lo = Trusted" "loRead lo = None"
  shows "let m'' = LoadPersisted cd lo (Some raw) (NewManager b True ident) in
    csVersion (mgr_Status m'') = upVersion u \<and> csVersion (mgr_Status m') = upVersion u \<and> csSource (mgr_Status m'') = ''persisted''
    \<and> same_scan (mgr_Snapshot m'') (mgr_Snapshot m') \<and> csMaxReportSize (mgr_Status m'') = csMaxReportSize (mgr_Status m')"
proof -
  have reach': "agent_reachable cd b True ident m' (Some raw)" by (rule agent_reachable.poll [OF assms(1,7)])
  have ids: "mgStore m" "mgBase m' = b" "mgID m' = ident"
    using agent_reachable_ok [OF assms(1)] agent_reachable_ok [OF reach'] by (simp_all add: manager_ok_def)
  have v: "upVersion u = config_Version cd (upConfig u)" "upVersion u \<noteq> []"
    using ParseResponse_versioned [OF assms(5,6)] by (simp_all add: config_Version_def)
  have m': "mgVersion m' = upVersion u" "mgHaveRemote m'" "mgVersioned m'" "mgPersisted m' = upVersion u"
    "mgCur m' = (upConfig u)\<lparr>rcEnabledScanners := filter (\<lambda>n. n \<in> set agent_AllScanners) (rcEnabledScanners (upConfig u))\<rparr>"
    using applied_round [OF assms(4-7) ids(1) assms(8)] by simp_all
  obtain st where st: "cdStateDecode cd raw = Some st" "sfFormat st = stateFormat" "sfConfigVersion st = upVersion u"
    "config_Version cd (sfConfig st) = upVersion u" "config_Validate (sfConfig st) = []"
    "sfAgentID st = idAgentID ident" "sfCollectorURLSHA256 st = idCollectorURLHash ident"
    using agent_reachable_disk [OF assms(2) reach'] v(2) m'(4) ids(3) by (auto simp: disk_ok_def)
  let ?m = "LoadPersisted cd lo (Some raw) (NewManager b True ident)"
  have load: "store_Load cd lo ident (Some raw) = (Some (sfConfig st, upVersion u), [])"
    using st assms(9-12) by (simp add: store_Load_def)
  have m'': "mgVersion ?m = upVersion u" "mgHaveRemote ?m" "mgVersioned ?m" "mgSource ?m = ''persisted''" "mgBase ?m = b"
    "mgCur ?m = (sfConfig st)\<lparr>rcEnabledScanners := filter (\<lambda>n. n \<in> set agent_AllScanners) (rcEnabledScanners (sfConfig st))\<rparr>"
    by (simp_all add: LoadPersisted_def NewManager_def load)
  have canon: "canonical_config (sfConfig st) = canonical_config (upConfig u)" using st(4) assms(3) by blast
  have "same_scan (mgr_Snapshot ?m) (mgr_Snapshot m') \<and> csMaxReportSize (mgr_Status ?m) = csMaxReportSize (mgr_Status m')"
    by (rule same_version_same_scan [OF canon _ m''(2) m'(2) m''(3) m'(3) m''(6) m'(5)]) (simp add: m''(5) ids(2))
  moreover have "csVersion (mgr_Status ?m) = upVersion u" "csVersion (mgr_Status m') = upVersion u" "csSource (mgr_Status ?m) = ''persisted''"
    using m' m'' by (simp_all add: mgr_Status_def)
  ultimately show ?thesis by (simp add: Let_def)
qed

section \<open>An example\<close>

text \<open>A state file as a list of strings, and a server's response with all its members.\<close>

definition config_fields :: "RemoteConfig \<Rightarrow> string list" where
  "config_fields c = map print_int [rcScanIntervalSeconds c, rcModelFileSizeMB c, rcMaxReportSizeBytes c]
     @ with_count (rcEnabledScanners c) @ with_count (rcModelScanPaths c)"

fun read_config :: "string list \<Rightarrow> RemoteConfig option" where
  "read_config (i # mb # sz # rest) =
     (let (scanners, rest) = split_count rest; (paths, rest) = split_count rest in
      Some \<lparr>rcScanIntervalSeconds = read_int i, rcEnabledScanners = scanners, rcModelScanPaths = paths,
        rcModelFileSizeMB = read_int mb, rcMaxReportSizeBytes = read_int sz\<rparr>)"
| "read_config _ = None"

lemma read_config_fields [simp]: "read_config (config_fields c) = Some c"
  using split_with_count [of "rcModelScanPaths c" "[]"] by (simp add: config_fields_def)

definition state_fields :: "stateFile \<Rightarrow> string list" where
  "state_fields st = [print_int (sfFormat st), sfAgentID st, sfCollectorURLSHA256 st, sfConfigVersion st, print_int (sfFetchedAt st)]
     @ config_fields (sfConfig st)"

fun read_state :: "string list \<Rightarrow> stateFile option" where
  "read_state (f # aid # url # v # at' # rest) =
     map_option (\<lambda>c. \<lparr>sfFormat = read_int f, sfAgentID = aid, sfCollectorURLSHA256 = url, sfConfigVersion = v,
       sfFetchedAt = read_int at', sfConfig = c\<rparr>) (read_config rest)"
| "read_state _ = None"

definition sample_config :: RemoteConfig where
  "sample_config = \<lparr>rcScanIntervalSeconds = 600, rcEnabledScanners = [''models'', ''gpu''], rcModelScanPaths = [''/srv''],
     rcModelFileSizeMB = 50, rcMaxReportSizeBytes = 2097152\<rparr>"

definition sample_codec :: agent_codec where
  "sample_codec = \<lparr>cdHash = (\<lambda>c. if c = canonical_config sample_config then ''h1'' else ''h0''),
     cdDecode = (\<lambda>body. case unframe_strings body of
       v # rest \<Rightarrow> (case read_config rest of
           Some c \<Rightarrow> Inr \<lparr>cwConfigVersion = Some v, cwScanIntervalSeconds = Some (rcScanIntervalSeconds c), cwEnabledScanners = Some (rcEnabledScanners c),
             cwModelScanPaths = Some (rcModelScanPaths c), cwModelFileSizeMB = Some (rcModelFileSizeMB c), cwMaxReportSizeBytes = Some (rcMaxReportSizeBytes c)\<rparr>
         | None \<Rightarrow> Inl Malformed)
     | [] \<Rightarrow> Inl Malformed),
     cdStateDecode = (\<lambda>raw. read_state (unframe_strings raw)), cdStateEncode = (\<lambda>st. frame_strings (state_fields st))\<rparr>"

definition sample_local :: LocalConfig where
  "sample_local = \<lparr>lcIntervalSecs = 300, lcScanners = [''gpu''], lcModelFileScanPaths = [], lcMinModelSizeMB = 100, lcFileLoaded = True\<rparr>"

definition sample_identity :: Identity where
  "sample_identity = \<lparr>idAgentID = ''host-1'', idCollectorURLHash = ''u''\<rparr>"

definition sample_response :: FetchResult where
  "sample_response = \<lparr>frStatus = 200, frBody = frame_strings (''c1:h1'' # config_fields sample_config), frTooLarge = False, frErr = None\<rparr>"

definition sample_load :: load_outcome where
  "sample_load = \<lparr>loChain = Trusted, loFile = Trusted, loRead = None\<rparr>"

definition sample_round :: apply_outcome where
  "sample_round = \<lparr>aoSave = None, aoChain = Trusted, aoRemove = None, aoNow = 0\<rparr>"

definition sample_config_update :: Update where
  "sample_config_update = \<lparr>upVersioned = True, upVersion = ''c1:h1'', upConfig = sample_config, upHasInterval = False, upHasScanners = False, upHasPaths = False\<rparr>"

lemma sample_codec_state: "state_codec sample_codec"
  by (simp add: state_codec_def sample_codec_def state_fields_def)

lemma sample_config_valid: "config_Validate sample_config = []"
  by code_simp

lemma sample_version: "config_Version sample_codec sample_config = ''c1:h1''"
  by (simp add: config_Version_def sample_codec_def)

lemma sample_parse: "ParseResponse sample_codec (frBody sample_response) = Inr sample_config_update"
proof -
  have eta: "\<lparr>rcScanIntervalSeconds = rcScanIntervalSeconds sample_config, rcEnabledScanners = rcEnabledScanners sample_config,
      rcModelScanPaths = rcModelScanPaths sample_config, rcModelFileSizeMB = rcModelFileSizeMB sample_config,
      rcMaxReportSizeBytes = rcMaxReportSizeBytes sample_config\<rparr> = sample_config" by simp
  show ?thesis
    using sample_version sample_config_valid
    by (simp add: ParseResponse_def sample_response_def sample_codec_def sample_config_update_def config_Version_def Let_def eta)
qed

abbreviation sample_start :: config_manager where
  "sample_start \<equiv> LoadPersisted sample_codec (sample_load\<lparr>loFile := Missing\<rparr>) None (NewManager sample_local True sample_identity)"

abbreviation sample_file :: string where
  "sample_file \<equiv> frame_strings (state_fields (state_of sample_identity sample_config ''c1:h1'' 0))"

definition sample_applied :: config_manager where
  "sample_applied = \<lparr>mgBase = sample_local, mgStore = True, mgID = sample_identity, mgCur = sample_config, mgHaveRemote = True, mgVersioned = True,
     mgVersion = ''c1:h1'', mgSource = ''remote'', mgLastErr = [], mgPersisted = ''c1:h1'', mgConsecutive404 = 0, mgWarnedVersion = []\<rparr>"

lemma sample_start_eq: "sample_start = NewManager sample_local True sample_identity"
  by (simp add: LoadPersisted_def NewManager_def store_Load_def sample_load_def)

lemma sample_apply: "mgr_Apply sample_codec sample_round sample_response sample_start None = (sample_applied, Some sample_file)"
proof -
  have k: "KnownScanners (rcEnabledScanners sample_config) agent_AllScanners = (rcEnabledScanners sample_config, False)" by code_simp
  have e: "cdStateEncode sample_codec = (\<lambda>st. frame_strings (state_fields st))" by (simp add: sample_codec_def)
  have r: "\<not> frTooLarge sample_response" "frErr sample_response = None" "frStatus sample_response = 200" by (simp_all add: sample_response_def)
  show ?thesis
    unfolding sample_start_eq
    by (simp add: mgr_Apply_def r sample_parse Let_def NewManager_def sample_config_update_def applyVersioned_def k store_Save_def e
        sample_round_def sample_applied_def)
qed

lemma sample_brings: "brings_config sample_codec sample_response"
  using sample_parse by (simp add: brings_config_def sample_response_def)

lemma sample_agent_state: "agent_reachable sample_codec sample_local True sample_identity sample_applied (Some sample_file)"
  using agent_reachable.poll [OF agent_reachable.install sample_apply] .


definition sample_outage :: FetchResult where
  "sample_outage = \<lparr>frStatus = 502, frBody = [], frTooLarge = False, frErr = None\<rparr>"

definition sample_gone :: FetchResult where
  "sample_gone = \<lparr>frStatus = 404, frBody = [], frTooLarge = False, frErr = None\<rparr>"

lemma failures_keep_last_good_witness:
  "in_force (fst (polls sample_codec [(sample_round, sample_gone), (sample_round, sample_outage), (sample_round, sample_gone)] (sample_applied, Some sample_file)))
      = in_force sample_applied
   \<and> mgr_Snapshot (fst (polls sample_codec [(sample_round, sample_gone), (sample_round, sample_gone)] (sample_applied, Some sample_file))) = sample_local"
proof -
  have base: "mgBase (NewManager sample_local True sample_identity) = sample_local" by (simp add: NewManager_def)
  have r: "\<not> brings_config sample_codec sample_outage" "\<not> says_absent sample_outage" "says_absent sample_gone" "\<not> brings_config sample_codec sample_gone"
    by (simp_all add: brings_config_def says_absent_def sample_outage_def sample_gone_def)
  note start = sample_apply [unfolded sample_start_eq]
  obtain m1 d1 where 1: "polls sample_codec [(sample_round, sample_gone), (sample_round, sample_outage), (sample_round, sample_gone)] (sample_applied, Some sample_file) = (m1, d1)"
    by force
  obtain m2 d2 where 2: "polls sample_codec [(sample_round, sample_gone), (sample_round, sample_gone)] (sample_applied, Some sample_file) = (m2, d2)"
    by force
  have "\<not> (\<exists>i. Suc i < length [(sample_round, sample_gone), (sample_round, sample_outage), (sample_round, sample_gone)]
      \<and> says_absent (snd ([(sample_round, sample_gone), (sample_round, sample_outage), (sample_round, sample_gone)] ! i))
      \<and> says_absent (snd ([(sample_round, sample_gone), (sample_round, sample_outage), (sample_round, sample_gone)] ! Suc i)))"
    using r(2) by (auto simp: less_Suc_eq nth_Cons')
  then have "in_force m1 = in_force sample_applied"
    using failures_keep_last_good [OF disjI1 [OF conjI [OF start sample_brings]] _ 1] r by (simp add: in_force_def)
  moreover have "mgr_Snapshot m2 = sample_local"
    using failures_keep_last_good [OF disjI1 [OF conjI [OF start sample_brings]] _ 2] r base by auto
  ultimately show ?thesis unfolding 1 2 by simp
qed

lemma applied_config_survives_restart_witness:
  "csVersion (mgr_Status (LoadPersisted sample_codec sample_load (Some sample_file) (NewManager sample_local True sample_identity))) = ''c1:h1''"
proof -
  have reach: "agent_reachable sample_codec sample_local True sample_identity sample_start None" by (rule agent_reachable.install)
  have hash: "\<forall>c. config_Version sample_codec c = upVersion sample_config_update \<longrightarrow> canonical_config c = canonical_config (upConfig sample_config_update)"
    by (simp add: config_Version_def sample_codec_def sample_config_update_def)
  have u: "upVersioned sample_config_update" by (simp add: sample_config_update_def)
  have small: "length sample_file \<le> MaxResponseBytes"
    by (simp add: MaxResponseBytes_def length_frame_strings state_fields_def config_fields_def state_of_def stateFormat_def sample_config_def
        sample_identity_def with_count_def print_int_def binary_digits.simps)
  have lo: "loChain sample_load = Trusted" "loFile sample_load = Trusted" "loRead sample_load = None" by (simp_all add: sample_load_def)
  have saved: "aoSave sample_round = None \<or> mgPersisted sample_start = upVersion sample_config_update" by (simp add: sample_round_def)
  show ?thesis
    using applied_config_survives_restart [OF reach sample_codec_state hash sample_brings sample_parse u sample_apply saved small lo]
    by (simp add: Let_def sample_config_update_def)
qed

end
