(* ===== verification/Collector.thy ===== *)
theory Collector
  imports Scan_Paths Framing Http_Client "HOL-Library.Char_ord" "HOL-Library.List_Lexorder"
begin

text \<open>
  The collector between endpoint agents and the control plane (\<^verbatim>\<open>eami-collector\<close>): the API keys
  and who a request speaks for, the ingest of a report into the buffer, the proxy of the remote
  configuration, and the forwarder that delivers the buffer in batches. The tables are SQLite's,
  with their keys and the partial unique index; the failures of statements, gzip, JSON and HTTP
  are parameters, the redirects that the HTTP client of the forwarder follows are modelled. \<^verbatim>\<open>Run\<close> calls \<open>tick\<close> once per interval, one at a time.
\<close>

section \<open>Tables (db.go)\<close>

record collector_key =
  ckID :: string
  ckHash :: string
  ckLabel :: string
  ckAgentID :: string
  ckCreatedAt :: string
  ckRevokedAt :: "string option"

record buffer_row =
  bfID :: string
  bfReceivedAt :: string
  bfAgentID :: string
  bfHostname :: string
  bfReportJSON :: string \<comment> \<open>compressed\<close>
  bfAttempts :: int
  bfLastAttempt :: "string option"

record dead_row =
  dlID :: string
  dlReceivedAt :: string
  dlAgentID :: string
  dlHostname :: string
  dlReportJSON :: string
  dlAttempts :: int
  dlFailedAt :: string
  dlReason :: string

record collector_db =
  clKeys :: "collector_key list"
  clBuffer :: "buffer_row list"
  clDead :: "dead_row list"

text \<open>\<^verbatim>\<open>sha256\<close>, \<^verbatim>\<open>gzip\<close>, \<^verbatim>\<open>encoding/json\<close> and \<^verbatim>\<open>time.Parse\<close>; SQLite's error of a violated constraint.\<close>

record EndpointReport =
  epAgentID :: string
  epHostname :: string
  epCollectedAt :: time

record collector_env =
  ceHash :: "string \<Rightarrow> string"
  ceGzip :: "string \<Rightarrow> string result"
  ceGunzip :: "string \<Rightarrow> string result"
  ceReport :: "string \<Rightarrow> EndpointReport option"
  ceParseTime :: "string \<Rightarrow> time option"
  ceConstraint :: go_error

section \<open>Keys (middleware.go)\<close>

definition active_key :: "collector_key \<Rightarrow> bool" where
  "active_key k = (ckRevokedAt k = None \<and> ckAgentID k \<noteq> [])"

definition resolveDBKey :: "collector_env \<Rightarrow> go_error option \<Rightarrow> collector_db \<Rightarrow> string \<Rightarrow> string option" where
  "resolveDBKey env dbErr db key =
     (case dbErr of
        Some _ \<Rightarrow> None
      | None \<Rightarrow> map_option ckAgentID (List.find (\<lambda>k. ckHash k = ceHash env key \<and> ckRevokedAt k = None \<and> ckAgentID k \<noteq> []) (clKeys db)))"

definition bearer :: string where "bearer = ''Bearer ''"

definition presented_key :: "string \<Rightarrow> string \<Rightarrow> string" where
  "presented_key apiKey authz =
     (if apiKey \<noteq> [] then apiKey
      else if length authz > 7 \<and> take 7 authz = bearer then drop 7 authz else authz)"

text \<open>The refusal, or the identity that the request's context carries (the fleet-wide key carries none).\<close>

definition APIKeyMiddleware ::
  "collector_env \<Rightarrow> string \<Rightarrow> go_error option \<Rightarrow> collector_db \<Rightarrow> string \<Rightarrow> string \<Rightarrow> (int \<times> string) + string option" where
  "APIKeyMiddleware env staticKey dbErr db apiKey authz =
     (let key = presented_key apiKey authz in
      if key = [] then Inl (401, ''missing API key'')
      else if staticKey \<noteq> [] \<and> key = staticKey then Inr None
      else (case resolveDBKey env dbErr db key of
          None \<Rightarrow> Inl (401, ''invalid API key'')
        | Some agentID \<Rightarrow> Inr (Some agentID)))"

text \<open>\<^verbatim>\<open>id\<close> and \<^verbatim>\<open>key_hash\<close> are unique, and so is \<^verbatim>\<open>agent_id\<close> among the active keys.\<close>

definition keys_ok :: "collector_key list \<Rightarrow> bool" where
  "keys_ok ks = (distinct (map ckID ks) \<and> distinct (map ckHash ks) \<and> distinct (map ckAgentID (filter active_key ks)))"

text \<open>SQLite's \<^verbatim>\<open>datetime('now')\<close>.\<close>

definition sqlite_datetime :: "time \<Rightarrow> string" where
  "sqlite_datetime t = map (\<lambda>c. if c = CHR ''T'' then CHR '' '' else c) (butlast (format_rfc3339 t))"

definition RegisterKey ::
  "collector_env \<Rightarrow> go_error option \<Rightarrow> string \<Rightarrow> time \<Rightarrow> string \<Rightarrow> string \<Rightarrow> string \<Rightarrow> collector_db \<Rightarrow> go_error option \<times> collector_db" where
  "RegisterKey env dbErr newID now rawKey agentID label db =
     (if agentID = [] then (Some (ErrText ''api: RegisterKey: agentID must not be empty''), db)
      else case dbErr of
        Some err \<Rightarrow> (Some err, db)
      | None \<Rightarrow>
        (let keys = clKeys db @ [\<lparr>ckID = newID, ckHash = ceHash env rawKey, ckLabel = label, ckAgentID = agentID,
               ckCreatedAt = sqlite_datetime now, ckRevokedAt = None\<rparr>] in
         if keys_ok keys then (None, db\<lparr>clKeys := keys\<rparr>) else (Some (ceConstraint env), db)))"

definition of_active_agent :: "string \<Rightarrow> collector_key \<Rightarrow> bool" where
  "of_active_agent agentID k = (ckAgentID k = agentID \<and> ckRevokedAt k = None)"

definition RevokeKey :: "go_error option \<Rightarrow> time \<Rightarrow> string \<Rightarrow> collector_db \<Rightarrow> nat result \<times> collector_db" where
  "RevokeKey dbErr now agentID db =
     (case dbErr of
        Some err \<Rightarrow> (Inl err, db)
      | None \<Rightarrow>
        (Inr (length (filter (of_active_agent agentID) (clKeys db))),
         db\<lparr>clKeys := map (\<lambda>k. if of_active_agent agentID k then k\<lparr>ckRevokedAt := Some (sqlite_datetime now)\<rparr> else k) (clKeys db)\<rparr>))"

record KeyInfo =
  kiID :: string
  kiAgentID :: string
  kiLabel :: string
  kiCreatedAt :: string
  kiRevokedAt :: string

definition ListKeys :: "go_error option \<Rightarrow> collector_db \<Rightarrow> KeyInfo list result" where
  "ListKeys dbErr db =
     (case dbErr of
        Some err \<Rightarrow> Inl err
      | None \<Rightarrow> Inr (map (\<lambda>k. \<lparr>kiID = ckID k, kiAgentID = ckAgentID k, kiLabel = ckLabel k, kiCreatedAt = ckCreatedAt k,
            kiRevokedAt = (case ckRevokedAt k of None \<Rightarrow> [] | Some t \<Rightarrow> t)\<rparr>) (rev (sort_key ckCreatedAt (clKeys db)))))"

section \<open>Ingest (ingest.go)\<close>

definition body_limit :: nat where "body_limit = 10485760"

text \<open>What reading the (decompressed) stream yields, cut off at the limit.\<close>

definition readBody :: "string result \<Rightarrow> string result" where
  "readBody stream = map_sum id (take body_limit) stream"

definition validateReport :: "EndpointReport \<Rightarrow> string" where
  "validateReport r =
     (if epAgentID r = [] then ''agent_id is required''
      else if epHostname r = [] then ''hostname is required''
      else if epCollectedAt r = zero_time then ''collected_at is required''
      else [])"

definition insert_buffer :: "collector_env \<Rightarrow> go_error option \<Rightarrow> buffer_row \<Rightarrow> collector_db \<Rightarrow> go_error option \<times> collector_db" where
  "insert_buffer env dbErr row db =
     (case dbErr of
        Some err \<Rightarrow> (Some err, db)
      | None \<Rightarrow> if bfID row \<in> bfID ` set (clBuffer db) then (Some (ceConstraint env), db)
          else (None, db\<lparr>clBuffer := clBuffer db @ [row]\<rparr>))"

definition IngestHandler ::
  "collector_env \<Rightarrow> string option \<Rightarrow> string result \<Rightarrow> go_error option \<Rightarrow> string \<Rightarrow> time \<Rightarrow> collector_db \<Rightarrow> (int \<times> string) \<times> collector_db" where
  "IngestHandler env auth stream dbErr newID now db =
     (case readBody stream of
        Inl _ \<Rightarrow> ((400, ''bad request body''), db)
      | Inr body \<Rightarrow>
        (case ceReport env body of
           None \<Rightarrow> ((400, ''invalid JSON''), db)
         | Some report \<Rightarrow>
           if validateReport report \<noteq> [] then ((400, validateReport report), db)
           else if (case auth of Some a \<Rightarrow> a \<noteq> epAgentID report | None \<Rightarrow> False)
           then ((403, ''agent_id does not match authenticated credential''), db)
           else (case ceGzip env body of
               Inl _ \<Rightarrow> ((500, ''internal error''), db)
             | Inr compressed \<Rightarrow>
               (case insert_buffer env dbErr \<lparr>bfID = newID, bfReceivedAt = format_rfc3339 now, bfAgentID = epAgentID report,
                      bfHostname = epHostname report, bfReportJSON = compressed, bfAttempts = 0, bfLastAttempt = None\<rparr> db of
                  (Some _, db1) \<Rightarrow> ((500, ''internal error''), db1)
                | (None, db1) \<Rightarrow> ((202, ''accepted''), db1)))))"

section \<open>The configuration proxy (config\_proxy.go)\<close>

record upstream_request =
  uqURL :: string
  uqServiceKey :: "string option"

text \<open>What the HTTP client makes of a request: the URL may not parse, and the call may fail.\<close>

record upstream =
  usURLError :: "string \<Rightarrow> go_error option"
  usDo :: "upstream_request \<Rightarrow> (int \<times> string) result"

definition proxy_request :: "string \<Rightarrow> string \<Rightarrow> string \<Rightarrow> upstream_request" where
  "proxy_request saasURL serviceKey agentID =
     \<lparr>uqURL = trim_right slash saasURL @ ''/v1/agents/'' @ agentID @ ''/config'',
      uqServiceKey = (if serviceKey \<noteq> [] then Some serviceKey else None)\<rparr>"

text \<open>The answer, and the request that was sent upstream.\<close>

definition ConfigProxyHandler ::
  "string \<Rightarrow> string \<Rightarrow> upstream \<Rightarrow> string option \<Rightarrow> string \<Rightarrow> (int \<times> string) \<times> upstream_request list" where
  "ConfigProxyHandler saasURL serviceKey up auth agentID =
     (let req = proxy_request saasURL serviceKey agentID in
      if agentID = [] then ((400, ''missing agent_id''), [])
      else if (case auth of Some a \<Rightarrow> a \<noteq> agentID | None \<Rightarrow> False)
      then ((403, ''agent_id does not match authenticated credential''), [])
      else if saasURL = [] then ((503, ''remote config unavailable: saas_url not configured''), [])
      else if usURLError up (uqURL req) \<noteq> None then ((500, ''internal error''), [])
      else (case usDo up req of
          Inl _ \<Rightarrow> ((502, ''upstream unavailable''), [req])
        | Inr (status, body) \<Rightarrow> ((status, body), [req])))"

section \<open>The forwarder (forwarder.go)\<close>

record forwarder_config =
  fcSAASURL :: string
  fcAPIKey :: string
  fcServiceKey :: string
  fcBatchSize :: int
  fcIntervalSeconds :: int
  fcTimeoutSeconds :: int

definition forwarder_defaults :: "forwarder_config \<Rightarrow> forwarder_config" where
  "forwarder_defaults c = c\<lparr>fcBatchSize := (if fcBatchSize c = 0 then 100 else fcBatchSize c),
     fcIntervalSeconds := (if fcIntervalSeconds c = 0 then 10 else fcIntervalSeconds c),
     fcTimeoutSeconds := (if fcTimeoutSeconds c = 0 then 30 else fcTimeoutSeconds c)\<rparr>"

definition maxAttempts :: int where "maxAttempts = 10"

text \<open>A fetched row: the time is parsed, a time that does not parse is the zero time.\<close>

record BufferRow =
  brID :: string
  brReceivedAt :: time
  brAgentID :: string
  brHostname :: string
  brReportJSON :: string
  brAttempts :: int

definition scan_row :: "collector_env \<Rightarrow> buffer_row \<Rightarrow> BufferRow" where
  "scan_row env r = \<lparr>brID = bfID r, brReceivedAt = (case ceParseTime env (bfReceivedAt r) of None \<Rightarrow> zero_time | Some t \<Rightarrow> t),
     brAgentID = bfAgentID r, brHostname = bfHostname r, brReportJSON = bfReportJSON r, brAttempts = bfAttempts r\<rparr>"

text \<open>\<^verbatim>\<open>ORDER BY received_at ASC LIMIT n\<close>: the order of the texts, rows of the same second in
  the order of the index; a negative limit is none.\<close>

definition sql_limit :: "int \<Rightarrow> 'a list \<Rightarrow> 'a list" where
  "sql_limit n xs = (if n < 0 then xs else take (nat n) xs)"

definition fetchBatch :: "collector_env \<Rightarrow> go_error option \<Rightarrow> int \<Rightarrow> collector_db \<Rightarrow> BufferRow list result" where
  "fetchBatch env dbErr n db =
     (case dbErr of
        Some err \<Rightarrow> Inl err
      | None \<Rightarrow> Inr (map (scan_row env) (sql_limit n (sort_key bfReceivedAt (clBuffer db)))))"

definition rowIDs :: "BufferRow list \<Rightarrow> string list" where
  "rowIDs rows = map brID rows"

definition delete_rows :: "string list \<Rightarrow> collector_db \<Rightarrow> collector_db" where
  "delete_rows ids db = db\<lparr>clBuffer := filter (\<lambda>r. bfID r \<notin> set ids) (clBuffer db)\<rparr>"

definition markDelivered :: "go_error option \<Rightarrow> string list \<Rightarrow> collector_db \<Rightarrow> go_error option \<times> collector_db" where
  "markDelivered dbErr ids db =
     (if ids = [] then (None, db)
      else case dbErr of Some err \<Rightarrow> (Some err, db) | None \<Rightarrow> (None, delete_rows ids db))"

definition dead_of :: "string \<Rightarrow> string \<Rightarrow> BufferRow \<Rightarrow> dead_row" where
  "dead_of now reason r = \<lparr>dlID = brID r, dlReceivedAt = format_rfc3339 (brReceivedAt r), dlAgentID = brAgentID r, dlHostname = brHostname r,
     dlReportJSON = brReportJSON r, dlAttempts = brAttempts r + 1, dlFailedAt = now, dlReason = reason\<rparr>"

text \<open>One transaction: a failure anywhere in it, given or by the primary key, leaves the tables alone.\<close>

definition moveToDeadLetter ::
  "collector_env \<Rightarrow> go_error option \<Rightarrow> time \<Rightarrow> BufferRow list \<Rightarrow> string \<Rightarrow> collector_db \<Rightarrow> go_error option \<times> collector_db" where
  "moveToDeadLetter env dbErr now rows reason db =
     (if rows = [] then (None, db)
      else case dbErr of
        Some err \<Rightarrow> (Some err, db)
      | None \<Rightarrow>
        (let dead = clDead db @ map (dead_of (format_rfc3339 now) reason) rows in
         if distinct (map dlID dead) then (None, delete_rows (rowIDs rows) (db\<lparr>clDead := dead\<rparr>))
         else (Some (ceConstraint env), db)))"

definition exhausted :: "BufferRow \<Rightarrow> bool" where
  "exhausted r = (brAttempts r + 1 > maxAttempts)"

definition count_attempt :: "string \<Rightarrow> string list \<Rightarrow> collector_db \<Rightarrow> collector_db" where
  "count_attempt now ids db =
     db\<lparr>clBuffer := map (\<lambda>r. if bfID r \<in> set ids then r\<lparr>bfAttempts := bfAttempts r + 1, bfLastAttempt := Some now\<rparr> else r) (clBuffer db)\<rparr>"

definition markFailed ::
  "collector_env \<Rightarrow> go_error option \<Rightarrow> go_error option \<Rightarrow> time \<Rightarrow> BufferRow list \<Rightarrow> collector_db \<Rightarrow> go_error option \<times> collector_db" where
  "markFailed env updErr deadErr now rows db =
     (let dl = filter exhausted rows; retry = rowIDs (filter (\<lambda>r. \<not> exhausted r) rows) in
      if retry \<noteq> [] \<and> updErr \<noteq> None then (map_option (Wrapped ''mark failed'') updErr, db)
      else (let db1 = (if retry \<noteq> [] then count_attempt (format_rfc3339 now) retry db else db) in
            if dl \<noteq> [] then moveToDeadLetter env deadErr now dl ''max_attempts'' db1 else (None, db1)))"

record BatchReport =
  rpID :: string
  rpAgentID :: string
  rpHostname :: string
  rpReceivedAt :: time
  rpReport :: string

text \<open>A row that does not decompress is left out.\<close>

definition buildPayload :: "collector_env \<Rightarrow> BufferRow list \<Rightarrow> BatchReport list" where
  "buildPayload env rows =
     List.map_filter (\<lambda>r. case ceGunzip env (brReportJSON r) of
         Inl _ \<Rightarrow> None
       | Inr raw \<Rightarrow> Some \<lparr>rpID = brID r, rpAgentID = brAgentID r, rpHostname = brHostname r, rpReceivedAt = brReceivedAt r, rpReport = raw\<rparr>) rows"

type_synonym batch_post = "BatchReport list http_request"

text \<open>The JSON encoding or the URL may fail, and so may the call.\<close>

record batch_upstream =
  fuMarshal :: "BatchReport list \<Rightarrow> go_error option"
  fuURLError :: "string \<Rightarrow> go_error option"
  fuClient :: "BatchReport list http_client"

definition batch_request :: "forwarder_config \<Rightarrow> BatchReport list \<Rightarrow> batch_post" where
  "batch_request cfg payload = \<lparr>hcMethod = ''POST'', hcURL = trim_right slash (fcSAASURL cfg) @ ''/v1/ingest/batch'',
     hcHeaders = [(''Content-Type'', ''application/json''), (''X-Service-Key'', if fcServiceKey cfg = [] then fcAPIKey cfg else fcServiceKey cfg)],
     hcBody = Some payload\<rparr>"

text \<open>The status, and the requests that were sent.\<close>

definition sendBatch :: "collector_env \<Rightarrow> forwarder_config \<Rightarrow> batch_upstream \<Rightarrow> BufferRow list \<Rightarrow> int result \<times> batch_post list" where
  "sendBatch env cfg up rows =
     (let payload = buildPayload env rows; req = batch_request cfg payload in
      case fuMarshal up payload of
        Some err \<Rightarrow> (Inl err, [])
      | None \<Rightarrow>
        (case fuURLError up (hcURL req) of
           Some err \<Rightarrow> (Inl err, [])
         | None \<Rightarrow>
           (case client_Do (fuClient up) req of
              (Inl err, sent) \<Rightarrow> (Inl err, sent)
            | (Inr (status, _), sent) \<Rightarrow> (Inr status, sent))))"

text \<open>The outcomes of the statements of a tick.\<close>

record tick_outcome =
  tkFetch :: "go_error option"
  tkDelete :: "go_error option"
  tkUpdate :: "go_error option"
  tkDead :: "go_error option"
  tkNow :: time

definition show_status :: "int \<Rightarrow> string" where
  "show_status s = show_nat (nat s)"

text \<open>The second half of a tick, on the tables as they are when the answer arrives.\<close>

definition settle :: "collector_env \<Rightarrow> tick_outcome \<Rightarrow> int result \<Rightarrow> BufferRow list \<Rightarrow> collector_db \<Rightarrow> go_error option \<times> collector_db" where
  "settle env tk sent rows db =
     (case sent of
        Inl _ \<Rightarrow> markFailed env (tkUpdate tk) (tkDead tk) (tkNow tk) rows db
      | Inr status \<Rightarrow>
        if status = 202 then markDelivered (tkDelete tk) (rowIDs rows) db
        else if status \<ge> 400 \<and> status < 500 then moveToDeadLetter env (tkDead tk) (tkNow tk) rows (''http_4xx:'' @ show_status status) db
        else markFailed env (tkUpdate tk) (tkDead tk) (tkNow tk) rows db)"

definition tick :: "collector_env \<Rightarrow> forwarder_config \<Rightarrow> batch_upstream \<Rightarrow> tick_outcome \<Rightarrow> collector_db \<Rightarrow> go_error option \<times> collector_db" where
  "tick env cfg up tk db =
     (case fetchBatch env (tkFetch tk) (fcBatchSize cfg) db of
        Inl err \<Rightarrow> (Some (Wrapped ''fetch batch'' err), db)
      | Inr rows \<Rightarrow> if rows = [] then (None, db) else settle env tk (fst (sendBatch env cfg up rows)) rows db)"

section \<open>Counts (query.go)\<close>

text \<open>\<open>None\<close> of a query parameter that is absent or empty; a count that fails is 0.\<close>

definition StatsHandler ::
  "collector_env \<Rightarrow> go_error option \<Rightarrow> go_error option \<Rightarrow> string \<Rightarrow> string \<Rightarrow> collector_db \<Rightarrow> (int \<times> string) + nat \<times> nat" where
  "StatsHandler env bufErr deadErr meth since db =
     (let buffered = (if bufErr = None then length (clBuffer db) else 0);
          count = (\<lambda>p. if deadErr = None then length (filter p (clDead db)) else 0) in
      if meth \<noteq> ''GET'' then Inl (405, ''method not allowed'')
      else if since \<noteq> [] then
        (case ceParseTime env since of
           Some t \<Rightarrow> Inr (buffered, count (\<lambda>d. format_rfc3339 t \<le> dlFailedAt d))
         | None \<Rightarrow> Inl (400, ''invalid since param: expected RFC3339''))
      else Inr (buffered, count (\<lambda>_. True)))"

section \<open>Who a key speaks for\<close>

lemma resolveDBKey_active:
  assumes "resolveDBKey env dbErr db key = Some agentID"
  shows "\<exists>k\<in>set (clKeys db). active_key k \<and> ckHash k = ceHash env key \<and> ckAgentID k = agentID"
proof -
  obtain k where k: "List.find (\<lambda>k. ckHash k = ceHash env key \<and> ckRevokedAt k = None \<and> ckAgentID k \<noteq> []) (clKeys db) = Some k" "ckAgentID k = agentID"
    using assms by (auto simp: resolveDBKey_def split: option.splits)
  with find_Some_set [OF k(1)] show ?thesis by (auto simp: active_key_def)
qed

lemma insert_buffer_cases:
  assumes "insert_buffer env dbErr row db = (e, db')"
  shows "db' = db \<and> e \<noteq> None \<or> db' = db\<lparr>clBuffer := clBuffer db @ [row]\<rparr> \<and> e = None \<and> bfID row \<notin> bfID ` set (clBuffer db)"
  using assms by (auto simp: insert_buffer_def split: option.splits if_splits)

lemma IngestHandler_cases:
  assumes "IngestHandler env auth stream dbErr newID now db = (ans, db')"
  obtains (refused) "db' = db" "fst ans \<noteq> 202"
  | (accepted) body report gz where "readBody stream = Inr body" "ceReport env body = Some report" "validateReport report = []"
      "\<forall>a. auth = Some a \<longrightarrow> a = epAgentID report" "ceGzip env body = Inr gz" "ans = (202, ''accepted'')" "newID \<notin> bfID ` set (clBuffer db)"
      "db' = db\<lparr>clBuffer := clBuffer db @ [\<lparr>bfID = newID, bfReceivedAt = format_rfc3339 now, bfAgentID = epAgentID report,
         bfHostname = epHostname report, bfReportJSON = gz, bfAttempts = 0, bfLastAttempt = None\<rparr>]\<rparr>"
proof (cases "\<exists>body report gz. readBody stream = Inr body \<and> ceReport env body = Some report \<and> validateReport report = []
    \<and> (\<forall>a. auth = Some a \<longrightarrow> a = epAgentID report) \<and> ceGzip env body = Inr gz")
  case True
  then obtain body report gz where h: "readBody stream = Inr body" "ceReport env body = Some report" "validateReport report = []"
    "\<forall>a. auth = Some a \<longrightarrow> a = epAgentID report" "ceGzip env body = Inr gz" by blast
  let ?row = "\<lparr>bfID = newID, bfReceivedAt = format_rfc3339 now, bfAgentID = epAgentID report,
         bfHostname = epHostname report, bfReportJSON = gz, bfAttempts = 0, bfLastAttempt = None\<rparr>"
  obtain e db1 where i: "insert_buffer env dbErr ?row db = (e, db1)" by force
  have auth: "\<not> (case auth of Some a \<Rightarrow> a \<noteq> epAgentID report | None \<Rightarrow> False)" using h(4) by (auto split: option.split)
  have out: "(ans, db') = (case e of Some _ \<Rightarrow> ((500, ''internal error''), db1) | None \<Rightarrow> ((202, ''accepted''), db1))"
    using assms auth by (simp add: IngestHandler_def h(1-3,5) i split: option.splits)
  show thesis
  proof (cases e)
    case None
    then show thesis using accepted [OF h] out insert_buffer_cases [OF i] by auto
  next
    case (Some err)
    then show thesis using refused out insert_buffer_cases [OF i] by auto
  qed
next
  case False
  then show thesis using assms refused by (auto simp: IngestHandler_def split: sum.splits option.splits if_splits)
qed

text \<open>A per-agent key speaks for its agent only. When a request is let in by a key other
  than the fleet-wide one, the key is an active one of the table, every report that the request
  adds to the buffer carries the agent id the key is bound to, and the configuration proxy asks
  the control plane for that agent's configuration only.\<close>

theorem agent_key_confined:
  assumes "APIKeyMiddleware env staticKey dbErr db apiKey authz = Inr auth" "presented_key apiKey authz \<noteq> staticKey"
    and "IngestHandler env auth stream insErr newID now db1 = (ans, db2)"
  shows "\<exists>k\<in>set (clKeys db). active_key k \<and> ckHash k = ceHash env (presented_key apiKey authz)
    \<and> (\<forall>r\<in>set (clBuffer db2). r \<in> set (clBuffer db1) \<or> bfAgentID r = ckAgentID k)
    \<and> (snd (ConfigProxyHandler saasURL serviceKey up auth agentID) \<noteq> [] \<longrightarrow> agentID = ckAgentID k)"
proof -
  obtain a where a: "resolveDBKey env dbErr db (presented_key apiKey authz) = Some a" "auth = Some a"
    using assms(1,2) by (auto simp: APIKeyMiddleware_def Let_def split: if_splits option.splits)
  obtain k where k: "k \<in> set (clKeys db)" "active_key k" "ckHash k = ceHash env (presented_key apiKey authz)" "ckAgentID k = a"
    using resolveDBKey_active [OF a(1)] by blast
  have "\<forall>r\<in>set (clBuffer db2). r \<in> set (clBuffer db1) \<or> bfAgentID r = a"
    by (cases rule: IngestHandler_cases [OF assms(3)]) (auto simp: a(2))
  moreover have "snd (ConfigProxyHandler saasURL serviceKey up auth agentID) \<noteq> [] \<longrightarrow> agentID = a"
    by (simp add: ConfigProxyHandler_def a(2) Let_def)
  ultimately show ?thesis using k by blast
qed

lemma RevokeKey_keys:
  assumes "RevokeKey dbErr now agentID db = (n, db')"
  shows "clBuffer db' = clBuffer db \<and> clDead db' = clDead db
    \<and> (dbErr = None \<longrightarrow> clKeys db' = map (\<lambda>k. if of_active_agent agentID k then k\<lparr>ckRevokedAt := Some (sqlite_datetime now)\<rparr> else k) (clKeys db))"
  using assms by (auto simp: RevokeKey_def split: option.splits)

lemma revoked_key_refused:
  assumes "RevokeKey None now agentID db = (n, db')"
  shows "resolveDBKey env dbErr db' key \<noteq> Some agentID"
proof
  assume "resolveDBKey env dbErr db' key = Some agentID"
  from resolveDBKey_active [OF this] obtain k where k: "k \<in> set (clKeys db')" "active_key k" "ckAgentID k = agentID" by blast
  from k(1) RevokeKey_keys [OF assms]
  have "k \<in> (\<lambda>k. if of_active_agent agentID k then k\<lparr>ckRevokedAt := Some (sqlite_datetime now)\<rparr> else k) ` set (clKeys db)" by simp
  then obtain k0 where k0: "k = (if of_active_agent agentID k0 then k0\<lparr>ckRevokedAt := Some (sqlite_datetime now)\<rparr> else k0)" by (rule imageE)
  show False
  proof (cases "of_active_agent agentID k0")
    case True
    then show False using k(2) by (simp add: k0 active_key_def)
  next
    case False
    then have "k = k0" by (simp add: k0)
    with False show False using k(2,3) by (simp add: active_key_def of_active_agent_def)
  qed
qed

lemma RegisterKey_ok: "keys_ok (clKeys db) \<Longrightarrow> RegisterKey env dbErr newID now rawKey agentID label db = (e, db') \<Longrightarrow> keys_ok (clKeys db')"
  by (auto simp: RegisterKey_def Let_def split: if_splits option.splits)

section \<open>Nothing accepted is lost\<close>

text \<open>The process: the tables, the batch whose answer is awaited, and, as history, the accepted
  reports (id, agent, host and body) and the reports that the control plane took: those in the
  body of a request that was answered 202. \<open>ups\<close> are the ways the control plane may behave.\<close>

record collector_state =
  csDB :: collector_db
  csInFlight :: "BufferRow list"
  csAccepted :: "(string \<times> string \<times> string \<times> string) list"
  csAcked :: "BatchReport list"

definition taken_reports :: "int result \<Rightarrow> batch_post list \<Rightarrow> BatchReport list" where
  "taken_reports status sent =
     (if status = Inr 202 \<and> sent \<noteq> [] then (case hcBody (last sent) of None \<Rightarrow> [] | Some reports \<Rightarrow> reports) else [])"

inductive collector_step :: "collector_env \<Rightarrow> forwarder_config \<Rightarrow> (batch_upstream \<Rightarrow> bool) \<Rightarrow> collector_state \<Rightarrow> collector_state \<Rightarrow> bool"
  for env :: collector_env and cfg :: forwarder_config and ups :: "batch_upstream \<Rightarrow> bool" where
  ingested: "IngestHandler env auth stream dbErr newID now (csDB s) = ((202, msg), db') \<Longrightarrow> readBody stream = Inr body \<Longrightarrow> ceReport env body = Some report \<Longrightarrow>
     collector_step env cfg ups s (s\<lparr>csDB := db', csAccepted := csAccepted s @ [(newID, epAgentID report, epHostname report, body)]\<rparr>)"
| rejected: "IngestHandler env auth stream dbErr newID now (csDB s) = ((st, msg), db') \<Longrightarrow> st \<noteq> 202 \<Longrightarrow> collector_step env cfg ups s (s\<lparr>csDB := db'\<rparr>)"
| fetched: "csInFlight s = [] \<Longrightarrow> fetchBatch env None (fcBatchSize cfg) (csDB s) = Inr rows \<Longrightarrow> collector_step env cfg ups s (s\<lparr>csInFlight := rows\<rparr>)"
| settled: "csInFlight s \<noteq> [] \<Longrightarrow> ups up \<Longrightarrow> sendBatch env cfg up (csInFlight s) = (status, sent) \<Longrightarrow>
     settle env tk status (csInFlight s) (csDB s) = (e, db') \<Longrightarrow>
     collector_step env cfg ups s (s\<lparr>csDB := db', csInFlight := [], csAcked := csAcked s @ taken_reports status sent\<rparr>)"
| restarted: "collector_step env cfg ups s (s\<lparr>csInFlight := []\<rparr>)"
| registered: "RegisterKey env dbErr newID now rawKey agentID label (csDB s) = (e, db') \<Longrightarrow> collector_step env cfg ups s (s\<lparr>csDB := db'\<rparr>)"
| revoked: "RevokeKey dbErr now agentID (csDB s) = (n, db') \<Longrightarrow> collector_step env cfg ups s (s\<lparr>csDB := db'\<rparr>)"

inductive collector_reachable :: "collector_env \<Rightarrow> forwarder_config \<Rightarrow> (batch_upstream \<Rightarrow> bool) \<Rightarrow> collector_state \<Rightarrow> bool"
  for env :: collector_env and cfg :: forwarder_config and ups :: "batch_upstream \<Rightarrow> bool" where
  empty: "collector_reachable env cfg ups \<lparr>csDB = \<lparr>clKeys = [], clBuffer = [], clDead = []\<rparr>, csInFlight = [], csAccepted = [], csAcked = []\<rparr>"
| step: "collector_reachable env cfg ups s \<Longrightarrow> collector_step env cfg ups s s' \<Longrightarrow> collector_reachable env cfg ups s'"

text \<open>A tick is a fetch and, when there are rows, the settlement of their batch.\<close>

lemma tick_steps:
  assumes "fetchBatch env None (fcBatchSize cfg) (csDB s) = Inr rows" "csInFlight s = []" "rows \<noteq> []" "tkFetch tk = None"
    and "tick env cfg up tk (csDB s) = (e, db')" "ups up"
  shows "\<exists>s1 s2. collector_step env cfg ups s s1 \<and> collector_step env cfg ups s1 s2 \<and> csDB s2 = db' \<and> csInFlight s2 = []"
proof -
  let ?s1 = "s\<lparr>csInFlight := rows\<rparr>"
  have 1: "collector_step env cfg ups s ?s1" by (rule collector_step.fetched [OF assms(2,1)])
  obtain status sent where sent: "sendBatch env cfg up (csInFlight ?s1) = (status, sent)" by (metis prod.exhaust)
  then have "settle env tk status (csInFlight ?s1) (csDB ?s1) = (e, db')"
    using assms by (simp add: tick_def)
  from collector_step.settled [where s = ?s1 and ups = ups, OF _ assms(6) sent this] assms(3) obtain s2 where "collector_step env cfg ups ?s1 s2" "csDB s2 = db'" "csInFlight s2 = []"
    by force
  with 1 show ?thesis by blast
qed

text \<open>Where an accepted report is.\<close>

definition holds_report :: "collector_env \<Rightarrow> string \<times> string \<times> string \<times> string \<Rightarrow> buffer_row \<Rightarrow> bool" where
  "holds_report env a r = (case a of (i, agent, host, body) \<Rightarrow> bfID r = i \<and> bfAgentID r = agent \<and> bfHostname r = host \<and> ceGzip env body = Inr (bfReportJSON r))"

definition dead_report :: "collector_env \<Rightarrow> string \<times> string \<times> string \<times> string \<Rightarrow> dead_row \<Rightarrow> bool" where
  "dead_report env a d = (case a of (i, agent, host, body) \<Rightarrow> dlID d = i \<and> dlAgentID d = agent \<and> dlHostname d = host \<and> ceGzip env body = Inr (dlReportJSON d))"

definition acked_report :: "string \<times> string \<times> string \<times> string \<Rightarrow> BatchReport \<Rightarrow> bool" where
  "acked_report a b = (case a of (i, agent, host, body) \<Rightarrow> rpID b = i \<and> rpAgentID b = agent \<and> rpHostname b = host \<and> rpReport b = body)"

definition kept :: "collector_env \<Rightarrow> collector_db \<Rightarrow> BatchReport list \<Rightarrow> string \<times> string \<times> string \<times> string \<Rightarrow> bool" where
  "kept env db acked a = (list_ex (holds_report env a) (clBuffer db) \<or> list_ex (dead_report env a) (clDead db) \<or> list_ex (acked_report a) acked)"

text \<open>Decompression undoes compression.\<close>

definition gzip_ok :: "collector_env \<Rightarrow> bool" where
  "gzip_ok env = (\<forall>body gz. ceGzip env body = Inr gz \<longrightarrow> ceGunzip env gz = Inr body)"

text \<open>The batch route of the control plane takes \<^verbatim>\<open>POST\<close> only, and answers a request without a
  batch with an error (\<^verbatim>\<open>eami-api/internal/api/router.go\<close>, \<^verbatim>\<open>ingest.go\<close>): 202 says that a batch was
  in the request.\<close>

definition takes_batches_only :: "batch_upstream \<Rightarrow> bool" where
  "takes_batches_only up = (\<forall>n req loc body. cvSend (fuClient up) n req = Answer 202 loc body \<longrightarrow> hcMethod req = ''POST'' \<and> hcBody req \<noteq> None)"

lemma taken_is_payload:
  assumes "takes_batches_only up" "sendBatch env cfg up rows = (status, sent)"
  shows "taken_reports status sent = (if status = Inr 202 then buildPayload env rows else [])"
proof (cases "status = Inr 202")
  case True
  then obtain body where d: "client_Do (fuClient up) (batch_request cfg (buildPayload env rows)) = (Inr (202, body), sent)"
    using assms(2) by (auto simp: sendBatch_def Let_def split: option.splits prod.splits sum.splits)
  obtain n loc where "cvSend (fuClient up) n (last sent) = Answer 202 loc body" using client_Do_status [OF d] by blast
  then have "hcBody (last sent) \<noteq> None" using assms(1) unfolding takes_batches_only_def by blast
  moreover have "hcBody (last sent) = None \<or> hcBody (last sent) = Some (buildPayload env rows)"
    using client_Do_sent(5) [OF d] last_in_set [OF client_Do_sent(1) [OF d]] by (simp add: batch_request_def)
  ultimately show ?thesis using True client_Do_sent(1) [OF d] by (auto simp: taken_reports_def)
qed (simp add: taken_reports_def)

text \<open>A fetched row is the content of a buffered row.\<close>

definition current :: "collector_env \<Rightarrow> collector_db \<Rightarrow> BufferRow \<Rightarrow> bool" where
  "current env db r = (\<exists>b\<in>set (clBuffer db). r = scan_row env b)"

definition tables_ok :: "collector_db \<Rightarrow> bool" where
  "tables_ok db =
     (distinct (map bfID (clBuffer db))
      \<and> (\<forall>r\<in>set (clBuffer db). 0 \<le> bfAttempts r \<and> bfAttempts r \<le> maxAttempts)
      \<and> (\<forall>d\<in>set (clDead db). 1 \<le> dlAttempts d \<and> dlAttempts d \<le> maxAttempts + 1))"

definition flight_ok :: "collector_env \<Rightarrow> collector_db \<Rightarrow> BufferRow list \<Rightarrow> bool" where
  "flight_ok env db rows = (distinct (map brID rows) \<and> (\<forall>r\<in>set rows. current env db r))"

definition collector_ok :: "collector_env \<Rightarrow> collector_state \<Rightarrow> bool" where
  "collector_ok env s = (tables_ok (csDB s) \<and> flight_ok env (csDB s) (csInFlight s) \<and> (\<forall>a\<in>set (csAccepted s). kept env (csDB s) (csAcked s) a))"

lemma scan_row_simps [simp]:
  "brID (scan_row env b) = bfID b" "brAgentID (scan_row env b) = bfAgentID b" "brHostname (scan_row env b) = bfHostname b"
  "brReportJSON (scan_row env b) = bfReportJSON b" "brAttempts (scan_row env b) = bfAttempts b"
  by (simp_all add: scan_row_def)

lemma flight_row:
  assumes "tables_ok db" "flight_ok env db rows" "b \<in> set (clBuffer db)" "bfID b \<in> set (rowIDs rows)"
  shows "scan_row env b \<in> set rows"
proof -
  obtain r where r: "r \<in> set rows" "brID r = bfID b" using assms(4) by (auto simp: rowIDs_def)
  then obtain c where c: "c \<in> set (clBuffer db)" "r = scan_row env c" using assms(2) by (auto simp: flight_ok_def current_def)
  have "c = b" by (rule distinct_key [of bfID "clBuffer db"]) (use assms(1,3) c r in \<open>simp_all add: tables_ok_def\<close>)
  with r c show ?thesis by simp
qed

lemma kept_mono:
  assumes "kept env db acked a" "set (clBuffer db) \<subseteq> set (clBuffer db')" "set (clDead db) \<subseteq> set (clDead db')" "set acked \<subseteq> set acked'"
  shows "kept env db' acked' a"
  using assms by (auto simp: kept_def list_ex_iff)

lemma flight_mono:
  assumes "flight_ok env db rows" "set (clBuffer db) \<subseteq> set (clBuffer db')"
  shows "flight_ok env db' rows"
  using assms unfolding flight_ok_def current_def by blast

lemma delete_rows_simps [simp]:
  "clBuffer (delete_rows ids db) = filter (\<lambda>r. bfID r \<notin> set ids) (clBuffer db)" "clDead (delete_rows ids db) = clDead db"
  by (simp_all add: delete_rows_def)

lemma count_attempt_simps [simp]:
  "clBuffer (count_attempt now ids db) = map (\<lambda>r. if bfID r \<in> set ids then r\<lparr>bfAttempts := bfAttempts r + 1, bfLastAttempt := Some now\<rparr> else r) (clBuffer db)"
  "clDead (count_attempt now ids db) = clDead db"
  by (simp_all add: count_attempt_def)

lemma tables_ok_delete: "tables_ok db \<Longrightarrow> tables_ok (delete_rows ids db)"
  by (auto simp: tables_ok_def distinct_map_filter)

text \<open>A batch that is answered 202 is in the answered request, so its rows may go.\<close>

lemma delivered_kept:
  assumes "gzip_ok env" "tables_ok db" "flight_ok env db rows" "kept env db acked a"
  shows "kept env (delete_rows (rowIDs rows) db) (acked @ buildPayload env rows) a"
proof -
  obtain i agent host body where a: "a = (i, agent, host, body)" by (cases a)
  show ?thesis
  proof (cases "\<exists>b\<in>set (clBuffer db). holds_report env a b \<and> bfID b \<in> set (rowIDs rows)")
    case True
    then obtain b where b: "b \<in> set (clBuffer db)" "holds_report env a b" "bfID b \<in> set (rowIDs rows)" by blast
    have r: "scan_row env b \<in> set rows" by (rule flight_row [OF assms(2,3) b(1,3)])
    have "ceGunzip env (bfReportJSON b) = Inr body" using assms(1) b(2) by (auto simp: gzip_ok_def holds_report_def a)
    then have "\<lparr>rpID = bfID b, rpAgentID = bfAgentID b, rpHostname = bfHostname b, rpReceivedAt = brReceivedAt (scan_row env b), rpReport = body\<rparr>
        \<in> set (buildPayload env rows)"
      using r by (force simp: buildPayload_def List.map_filter_def image_iff)
    moreover have "acked_report a \<lparr>rpID = bfID b, rpAgentID = bfAgentID b, rpHostname = bfHostname b, rpReceivedAt = brReceivedAt (scan_row env b), rpReport = body\<rparr>"
      using b(2) by (simp add: acked_report_def holds_report_def a)
    ultimately show ?thesis by (auto simp: kept_def list_ex_iff)
  next
    case False
    then show ?thesis using assms(4) by (auto simp: kept_def list_ex_iff)
  qed
qed

lemma dead_of_simps [simp]:
  "dlID (dead_of now reason r) = brID r" "dlAgentID (dead_of now reason r) = brAgentID r" "dlHostname (dead_of now reason r) = brHostname r"
  "dlReportJSON (dead_of now reason r) = brReportJSON r" "dlAttempts (dead_of now reason r) = brAttempts r + 1"
  by (simp_all add: dead_of_def)

lemma moveToDeadLetter_cases:
  assumes "moveToDeadLetter env dbErr now rows reason db = (e, db')"
  shows "db' = db \<or> db' = delete_rows (rowIDs rows) (db\<lparr>clDead := clDead db @ map (dead_of (format_rfc3339 now) reason) rows\<rparr>)"
  using assms by (auto simp: moveToDeadLetter_def Let_def split: option.splits if_splits)

lemma dead_step:
  assumes "tables_ok db" "flight_ok env db rows" "moveToDeadLetter env dbErr now rows reason db = (e, db')"
  shows "tables_ok db' \<and> (kept env db acked a \<longrightarrow> kept env db' acked a)"
  using moveToDeadLetter_cases [OF assms(3)]
proof
  assume db': "db' = delete_rows (rowIDs rows) (db\<lparr>clDead := clDead db @ map (dead_of (format_rfc3339 now) reason) rows\<rparr>)"
  have "1 \<le> dlAttempts d \<and> dlAttempts d \<le> maxAttempts + 1" if "d \<in> set (map (dead_of (format_rfc3339 now) reason) rows)" for d
    using that assms(1,2) by (auto simp: flight_ok_def current_def tables_ok_def)
  then have ok: "tables_ok db'" unfolding db' using assms(1) by (intro tables_ok_delete) (auto simp: tables_ok_def)
  have "kept env db' acked a" if k: "kept env db acked a"
  proof (cases "\<exists>b\<in>set (clBuffer db). holds_report env a b \<and> bfID b \<in> set (rowIDs rows)")
    case True
    then obtain b where b: "b \<in> set (clBuffer db)" "holds_report env a b" "bfID b \<in> set (rowIDs rows)" by blast
    have "scan_row env b \<in> set rows" by (rule flight_row [OF assms(1,2) b(1,3)])
    moreover have "dead_report env a (dead_of (format_rfc3339 now) reason (scan_row env b))"
      using b(2) by (cases a) (simp add: holds_report_def dead_report_def)
    ultimately show ?thesis by (auto simp: kept_def list_ex_iff db')
  next
    case False
    then show ?thesis using k by (auto simp: kept_def list_ex_iff db')
  qed
  with ok show ?thesis by blast
qed (use assms(1) in simp)

lemma count_step:
  assumes "tables_ok db" "flight_ok env db rows" "\<forall>r\<in>set rows. \<not> exhausted r"
  shows "tables_ok (count_attempt now (rowIDs rows) db) \<and> (kept env db acked a \<longrightarrow> kept env (count_attempt now (rowIDs rows) db) acked a)"
proof -
  have "bfAttempts b + 1 \<le> maxAttempts" if "b \<in> set (clBuffer db)" "bfID b \<in> set (rowIDs rows)" for b
    using flight_row [OF assms(1,2) that] assms(3) by (force simp: exhausted_def)
  moreover have "map bfID (clBuffer (count_attempt now (rowIDs rows) db)) = map bfID (clBuffer db)" by simp
  ultimately have "tables_ok (count_attempt now (rowIDs rows) db)"
    using assms(1) unfolding tables_ok_def by (simp only:) (auto split: if_splits)
  moreover have same: "holds_report env a (if bfID r \<in> set (rowIDs rows) then r\<lparr>bfAttempts := bfAttempts r + 1, bfLastAttempt := Some now\<rparr> else r)
      = holds_report env a r" for r
    by (cases a) (simp add: holds_report_def)
  have "list_ex (holds_report env a) (clBuffer db) \<Longrightarrow> list_ex (holds_report env a) (clBuffer (count_attempt now (rowIDs rows) db))"
    by (simp only: count_attempt_simps list_ex_iff set_map ball_simps bex_simps same)
  ultimately show ?thesis unfolding kept_def by auto
qed

lemma exhausted_still_current:
  assumes "flight_ok env db rows"
  shows "flight_ok env (count_attempt now (rowIDs (filter (\<lambda>r. \<not> exhausted r) rows)) db) (filter exhausted rows)"
proof -
  have "current env (count_attempt now (rowIDs (filter (\<lambda>r. \<not> exhausted r) rows)) db) r" if r: "r \<in> set rows" "exhausted r" for r
  proof -
    obtain b where b: "b \<in> set (clBuffer db)" "r = scan_row env b" using assms r(1) by (auto simp: flight_ok_def current_def)
    have "bfID b \<notin> set (rowIDs (filter (\<lambda>r. \<not> exhausted r) rows))"
    proof
      assume "bfID b \<in> set (rowIDs (filter (\<lambda>r. \<not> exhausted r) rows))"
      then obtain x where "x \<in> set rows" "\<not> exhausted x" "brID x = brID r" using b(2) by (auto simp: rowIDs_def)
      then show False using distinct_key [of brID rows x r] assms r by (simp add: flight_ok_def)
    qed
    then show ?thesis using b by (force simp: current_def)
  qed
  then show ?thesis using assms by (simp add: flight_ok_def distinct_map_filter)
qed

lemma failed_step:
  assumes "tables_ok db" "flight_ok env db rows" "markFailed env updErr deadErr now rows db = (e, db')"
  shows "tables_ok db' \<and> (kept env db acked a \<longrightarrow> kept env db' acked a)"
proof -
  let ?retry = "filter (\<lambda>r. \<not> exhausted r) rows"
  let ?db1 = "if rowIDs ?retry \<noteq> [] then count_attempt (format_rfc3339 now) (rowIDs ?retry) db else db"
  have retry: "flight_ok env db ?retry" using assms(2) by (simp add: flight_ok_def distinct_map_filter)
  have one: "tables_ok ?db1 \<and> (kept env db acked a \<longrightarrow> kept env ?db1 acked a)"
    using count_step [OF assms(1) retry] assms(1) by simp
  have "flight_ok env ?db1 (filter exhausted rows)"
  proof (cases "rowIDs ?retry = []")
    case True
    then show ?thesis using assms(2) by (simp add: flight_ok_def distinct_map_filter)
  next
    case False
    then show ?thesis using exhausted_still_current [OF assms(2)] by simp
  qed
  then have two: "moveToDeadLetter env deadErr now (filter exhausted rows) ''max_attempts'' ?db1 = (e', d) \<Longrightarrow>
      tables_ok d \<and> (kept env ?db1 acked a \<longrightarrow> kept env d acked a)" for e' d
    using dead_step one by blast
  have "db' = db \<or> db' = ?db1 \<or> (\<exists>e'. moveToDeadLetter env deadErr now (filter exhausted rows) ''max_attempts'' ?db1 = (e', db'))"
    using assms(3) unfolding markFailed_def Let_def by (simp only: split: if_splits) auto
  then show ?thesis using one two assms(1) by blast
qed

lemma settle_step:
  assumes "gzip_ok env" "tables_ok db" "flight_ok env db rows" "settle env tk sent rows db = (e, db')"
  shows "tables_ok db' \<and> (kept env db acked a \<longrightarrow> kept env db' (acked @ (if sent = Inr 202 then buildPayload env rows else [])) a)"
proof (cases "sent = Inr 202")
  case True
  then have "db' = db \<or> db' = delete_rows (rowIDs rows) db"
    using assms(4) by (auto simp: settle_def markDelivered_def split: option.splits if_splits)
  then show ?thesis
  proof
    assume db': "db' = db"
    have "kept env db acked a \<Longrightarrow> kept env db (acked @ buildPayload env rows) a" by (erule kept_mono) auto
    then show ?thesis using assms(2) True by (simp add: db')
  next
    assume db': "db' = delete_rows (rowIDs rows) db"
    show ?thesis using delivered_kept [OF assms(1-3)] tables_ok_delete [OF assms(2)] True by (simp add: db')
  qed
next
  case False
  have "markFailed env (tkUpdate tk) (tkDead tk) (tkNow tk) rows db = (e, db')
      \<or> (\<exists>reason. moveToDeadLetter env (tkDead tk) (tkNow tk) rows reason db = (e, db'))"
  proof (cases sent)
    case (Inl err)
    then show ?thesis using assms(4) by (simp add: settle_def)
  next
    case (Inr status)
    then have "status \<noteq> 202" using False by simp
    then show ?thesis using assms(4) by (cases "400 \<le> status \<and> status < 500") (auto simp: settle_def Inr)
  qed
  then have "tables_ok db' \<and> (kept env db acked a \<longrightarrow> kept env db' acked a)"
    using failed_step [OF assms(2,3)] dead_step [OF assms(2,3)] by blast
  then show ?thesis using False by simp
qed

lemma fetchBatch_flight:
  assumes "fetchBatch env None n db = Inr rows" "tables_ok db"
  shows "flight_ok env db rows"
proof -
  have rows: "rows = map (scan_row env) (sql_limit n (sort_key bfReceivedAt (clBuffer db)))" using assms(1) by (simp add: fetchBatch_def)
  have "distinct (map bfID (sort_key bfReceivedAt (clBuffer db)))"
    using assms(2) by (simp add: tables_ok_def distinct_map)
  then have "distinct (map bfID (sql_limit n (sort_key bfReceivedAt (clBuffer db))))"
    by (simp add: sql_limit_def take_map [symmetric])
  moreover have ids: "map brID rows = map bfID (sql_limit n (sort_key bfReceivedAt (clBuffer db)))" by (simp add: rows)
  moreover have "set (sql_limit n (sort_key bfReceivedAt (clBuffer db))) \<subseteq> set (clBuffer db)"
    using set_take_subset [of "nat n" "sort_key bfReceivedAt (clBuffer db)"] by (auto simp: sql_limit_def)
  ultimately show ?thesis unfolding flight_ok_def current_def ids by (auto simp: rows)
qed

lemma frame_ok:
  assumes "collector_ok env s" "clBuffer db' = clBuffer (csDB s)" "clDead db' = clDead (csDB s)"
  shows "collector_ok env (s\<lparr>csDB := db'\<rparr>)"
proof -
  have "kept env db' (csAcked s) a = kept env (csDB s) (csAcked s) a" for a using assms(2,3) by (simp add: kept_def)
  then show ?thesis using assms by (simp add: collector_ok_def tables_ok_def flight_ok_def current_def)
qed

lemma ingested_ok:
  assumes "collector_ok env s" "IngestHandler env auth stream dbErr newID now (csDB s) = ((202, msg), db')"
    and "readBody stream = Inr body" "ceReport env body = Some report"
  shows "collector_ok env (s\<lparr>csDB := db', csAccepted := csAccepted s @ [(newID, epAgentID report, epHostname report, body)]\<rparr>)"
proof (cases rule: IngestHandler_cases [OF assms(2)])
  case 1
  then show ?thesis by simp
next
  case (2 body' report' gz)
  have same: "body' = body" "report' = report" using 2(1,2) assms(3,4) by simp_all
  let ?row = "\<lparr>bfID = newID, bfReceivedAt = format_rfc3339 now, bfAgentID = epAgentID report,
         bfHostname = epHostname report, bfReportJSON = gz, bfAttempts = 0, bfLastAttempt = None\<rparr>"
  have db': "db' = (csDB s)\<lparr>clBuffer := clBuffer (csDB s) @ [?row]\<rparr>" using 2(8) by (simp add: same)
  have "tables_ok db'" using assms(1) 2(7) by (simp add: db' collector_ok_def tables_ok_def maxAttempts_def)
  moreover have "flight_ok env db' (csInFlight s)"
    by (rule flight_mono [of _ "csDB s"]) (use assms(1) in \<open>auto simp: collector_ok_def db'\<close>)
  moreover have "kept env db' (csAcked s) a" if "a \<in> set (csAccepted s)" for a
    by (rule kept_mono [of _ "csDB s" "csAcked s"]) (use assms(1) that in \<open>auto simp: collector_ok_def db'\<close>)
  moreover have "kept env db' (csAcked s) (newID, epAgentID report, epHostname report, body)"
    using 2(5) by (simp add: kept_def db' holds_report_def same)
  ultimately show ?thesis by (simp add: collector_ok_def)
qed

lemma collector_step_ok:
  assumes "gzip_ok env" "\<forall>up. ups up \<longrightarrow> takes_batches_only up" "collector_step env cfg ups s s'" "collector_ok env s"
  shows "collector_ok env s'"
  using assms(3)
proof cases
  case (ingested auth stream dbErr newID now msg db' body report)
  then show ?thesis using ingested_ok [OF assms(4)] by blast
next
  case (rejected auth stream dbErr newID now st msg db')
  have "db' = csDB s" by (cases rule: IngestHandler_cases [OF rejected(2)]) (use rejected(3) in auto)
  then show ?thesis using rejected(1) assms(4) by simp
next
  case (fetched rows)
  then show ?thesis using assms(4) fetchBatch_flight [OF fetched(3)] by (simp add: collector_ok_def)
next
  case (settled up status sent tk e db')
  have ok: "tables_ok (csDB s)" "flight_ok env (csDB s) (csInFlight s)" using assms(4) by (simp_all add: collector_ok_def)
  note step = settle_step [OF assms(1) ok settled(5)]
  have "taken_reports status sent = (if status = Inr 202 then buildPayload env (csInFlight s) else [])"
    by (rule taken_is_payload [OF _ settled(4)]) (use assms(2) settled(3) in blast)
  then show ?thesis using step assms(4) by (simp add: settled(1) collector_ok_def flight_ok_def)
next
  case restarted
  then show ?thesis using assms(4) by (simp add: collector_ok_def flight_ok_def)
next
  case (registered dbErr newID now rawKey agentID label e db')
  have "clBuffer db' = clBuffer (csDB s)" "clDead db' = clDead (csDB s)"
    using registered(2) by (auto simp: RegisterKey_def Let_def split: if_splits option.splits)
  then show ?thesis using frame_ok [OF assms(4)] registered(1) by blast
next
  case (revoked dbErr now agentID n db')
  then show ?thesis using frame_ok [OF assms(4)] RevokeKey_keys [OF revoked(2)] by blast
qed

lemma collector_reachable_ok:
  assumes "gzip_ok env" "\<forall>up. ups up \<longrightarrow> takes_batches_only up"
  shows "collector_reachable env cfg ups s \<Longrightarrow> collector_ok env s"
proof (induction rule: collector_reachable.induct)
  case empty
  then show ?case by (simp add: collector_ok_def tables_ok_def flight_ok_def)
next
  case (step s s')
  then show ?case using collector_step_ok [OF assms] by blast
qed

text \<open>C14: An accepted report is not lost by the collector. In every state that requests, batches
  sent, their answers, failing statements and restarts of the collector lead to, a report that was
  answered 202 is in the buffer with its agent, host and content, or in the dead letters, or was in
  the body of a request that the control plane answered 202; a buffered report has failed at most
  ten times. Decompression undoes compression, and the control plane answers 202 only to a
  \<^verbatim>\<open>POST\<close> with a batch. What it does with an accepted batch is its own affair: it may skip items
  of it and answer 202 all the same.\<close>

theorem accepted_report_not_lost:
  assumes "gzip_ok env" "\<forall>up. ups up \<longrightarrow> takes_batches_only up"
    and "collector_reachable env cfg ups s" "(i, agent, host, body) \<in> set (csAccepted s)"
  shows "((\<exists>r\<in>set (clBuffer (csDB s)). bfID r = i \<and> bfAgentID r = agent \<and> bfHostname r = host \<and> ceGunzip env (bfReportJSON r) = Inr body \<and> bfAttempts r \<le> 10)
    \<or> (\<exists>d\<in>set (clDead (csDB s)). dlID d = i \<and> dlAgentID d = agent \<and> dlHostname d = host \<and> ceGunzip env (dlReportJSON d) = Inr body)
    \<or> (\<exists>b\<in>set (csAcked s). rpID b = i \<and> rpAgentID b = agent \<and> rpHostname b = host \<and> rpReport b = body))"
proof -
  have ok: "collector_ok env s" by (rule collector_reachable_ok [OF assms(1-3)])
  then have "kept env (csDB s) (csAcked s) (i, agent, host, body)" using assms(4) by (simp add: collector_ok_def)
  moreover have "bfAttempts r \<le> 10" if "r \<in> set (clBuffer (csDB s))" for r
    using ok that by (simp add: collector_ok_def tables_ok_def maxAttempts_def)
  ultimately show ?thesis
    using assms(1) unfolding kept_def list_ex_iff holds_report_def dead_report_def acked_report_def gzip_ok_def by auto
qed

section \<open>The buffer drains\<close>

text \<open>Primary keys of the dead letters: no row of either table has the id of another.\<close>

definition ids_fresh :: "collector_db \<Rightarrow> bool" where
  "ids_fresh db = (distinct (map dlID (clDead db)) \<and> dlID ` set (clDead db) \<inter> bfID ` set (clBuffer db) = {})"

definition tries_left :: "buffer_row \<Rightarrow> nat" where
  "tries_left r = nat (maxAttempts + 1 - bfAttempts r)"

definition remaining :: "collector_db \<Rightarrow> nat" where
  "remaining db = sum_list (map tries_left (clBuffer db))"

definition no_failure :: "tick_outcome \<Rightarrow> bool" where
  "no_failure tk = (tkFetch tk = None \<and> tkDelete tk = None \<and> tkUpdate tk = None \<and> tkDead tk = None)"

fun run_ticks :: "collector_env \<Rightarrow> forwarder_config \<Rightarrow> (batch_upstream \<times> tick_outcome) list \<Rightarrow> collector_db \<Rightarrow> collector_db" where
  "run_ticks env cfg [] db = db"
| "run_ticks env cfg ((up, tk) # ts) db = run_ticks env cfg ts (snd (tick env cfg up tk db))"

lemma delete_remaining:
  assumes "tables_ok db" "b \<in> set (clBuffer db)" "bfID b \<in> set ids"
  shows "remaining (delete_rows ids db) < remaining db"
  unfolding remaining_def delete_rows_simps
  by (rule sum_list_filter_less [OF assms(2)]) (use assms in \<open>auto simp: tries_left_def tables_ok_def maxAttempts_def\<close>)

lemma dead_progress:
  assumes "tables_ok db" "flight_ok env db rows" "ids_fresh db" "rows \<noteq> []" "moveToDeadLetter env None now rows reason db = (e, db')"
  shows "ids_fresh db' \<and> remaining db' < remaining db"
proof -
  have rows: "distinct (map brID rows)" "\<forall>r\<in>set rows. current env db r" using assms(2) by (simp_all add: flight_ok_def)
  have "brID ` set rows \<subseteq> bfID ` set (clBuffer db)" using rows(2) by (auto simp: current_def)
  then have "dlID ` set (clDead db) \<inter> brID ` set rows = {}" using assms(3) unfolding ids_fresh_def by blast
  then have d: "distinct (map dlID (clDead db @ map (dead_of (format_rfc3339 now) reason) rows))"
    using rows(1) assms(3) by (simp add: ids_fresh_def comp_def)
  let ?db1 = "db\<lparr>clDead := clDead db @ map (dead_of (format_rfc3339 now) reason) rows\<rparr>"
  have db': "db' = delete_rows (rowIDs rows) ?db1"
    using assms(4,5) d by (simp add: moveToDeadLetter_def Let_def)
  have "dlID ` set (clDead db) \<inter> bfID ` set (clBuffer db) = {}" using assms(3) by (simp add: ids_fresh_def)
  then have "ids_fresh db'" using d unfolding db' ids_fresh_def by (auto simp: rowIDs_def) (metis image_eqI)
  moreover obtain r where "r \<in> set rows" using assms(4) by (cases rows) auto
  then obtain b where "b \<in> set (clBuffer db)" "bfID b \<in> set (rowIDs rows)" using rows(2) by (force simp: current_def rowIDs_def)
  then have "remaining db' < remaining db" using delete_remaining [OF assms(1)] by (simp add: db' remaining_def)
  ultimately show ?thesis ..
qed

lemma count_progress:
  assumes "tables_ok db" "flight_ok env db rows" "ids_fresh db" "rows \<noteq> []" "\<forall>r\<in>set rows. \<not> exhausted r"
  shows "ids_fresh (count_attempt now (rowIDs rows) db) \<and> remaining (count_attempt now (rowIDs rows) db) < remaining db"
proof -
  let ?f = "\<lambda>r. if bfID r \<in> set (rowIDs rows) then r\<lparr>bfAttempts := bfAttempts r + 1, bfLastAttempt := Some now\<rparr> else r"
  obtain r where r: "r \<in> set rows" using assms(4) by (cases rows) auto
  then obtain b where b: "b \<in> set (clBuffer db)" "r = scan_row env b" using assms(2) by (auto simp: flight_ok_def current_def)
  have "bfAttempts b + 1 \<le> maxAttempts" using assms(5) r b(2) by (auto simp: exhausted_def)
  moreover have "bfID b \<in> set (rowIDs rows)" using r b(2) by (force simp: rowIDs_def)
  ultimately have less: "tries_left (?f b) < tries_left b" by (simp add: tries_left_def)
  have "remaining (count_attempt now (rowIDs rows) db) < remaining db"
    unfolding remaining_def count_attempt_simps
    by (rule sum_list_map_less [where f = ?f and g = tries_left, OF _ b(1) less]) (auto simp: tries_left_def intro: nat_mono)
  moreover have "map bfID (clBuffer (count_attempt now (rowIDs rows) db)) = map bfID (clBuffer db)" by simp
  then have "bfID ` set (clBuffer (count_attempt now (rowIDs rows) db)) = bfID ` set (clBuffer db)" by (metis set_map)
  then have "ids_fresh (count_attempt now (rowIDs rows) db)" using assms(3) unfolding ids_fresh_def by simp
  ultimately show ?thesis by simp
qed

lemma failed_progress:
  assumes "tables_ok db" "flight_ok env db rows" "ids_fresh db" "rows \<noteq> []" "markFailed env None None now rows db = (e, db')"
  shows "ids_fresh db' \<and> remaining db' < remaining db"
proof -
  define retry where "retry = filter (\<lambda>r. \<not> exhausted r) rows"
  define dl where "dl = filter exhausted rows"
  define db1 where "db1 = (if rowIDs retry \<noteq> [] then count_attempt (format_rfc3339 now) (rowIDs retry) db else db)"
  have flight: "flight_ok env db retry" using assms(2) by (simp add: flight_ok_def distinct_map_filter retry_def)
  have dead: "flight_ok env db1 dl"
    using exhausted_still_current [OF assms(2)] assms(2)
    by (cases "rowIDs retry = []") (simp_all add: flight_ok_def distinct_map_filter dl_def retry_def db1_def)
  have plain: "\<forall>r\<in>set retry. \<not> exhausted r" by (simp add: retry_def)
  have tables: "tables_ok db1" using count_step [OF assms(1) flight plain] assms(1) by (simp add: db1_def)
  have some: "ids_fresh db1 \<and> remaining db1 < remaining db" if "retry \<noteq> []"
    using count_progress [OF assms(1) flight assms(3) that plain] that by (simp add: db1_def rowIDs_def)
  have none: "db1 = db" if "retry = []" using that by (simp add: db1_def rowIDs_def)
  have out: "(if dl \<noteq> [] then moveToDeadLetter env None now dl ''max_attempts'' db1 else (None, db1)) = (e, db')"
    using assms(5) unfolding markFailed_def Let_def db1_def retry_def dl_def by simp
  show ?thesis
  proof (cases "dl = []")
    case True
    then have "retry = rows" by (simp add: filter_empty_conv filter_id_conv dl_def retry_def)
    moreover have "db' = db1" using out True by simp
    ultimately show ?thesis using some assms(4) by simp
  next
    case False
    have fresh: "ids_fresh db1" and le: "remaining db1 \<le> remaining db" using some none assms(3) by (cases "retry = []"; simp)+
    have "moveToDeadLetter env None now dl ''max_attempts'' db1 = (e, db')" using out False by simp
    from dead_progress [OF tables dead fresh False this] le show ?thesis by linarith
  qed
qed

lemma delivered_progress:
  assumes "tables_ok db" "flight_ok env db rows" "ids_fresh db" "rows \<noteq> []"
  shows "ids_fresh (delete_rows (rowIDs rows) db) \<and> remaining (delete_rows (rowIDs rows) db) < remaining db"
proof -
  obtain r where r: "r \<in> set rows" using assms(4) by (cases rows) auto
  then obtain b where b: "b \<in> set (clBuffer db)" "r = scan_row env b" using assms(2) by (auto simp: flight_ok_def current_def)
  have "bfID b \<in> set (rowIDs rows)" using r b(2) by (force simp: rowIDs_def)
  then show ?thesis using delete_remaining [OF assms(1) b(1)] assms(3) by (auto simp: ids_fresh_def)
qed

lemma settle_progress:
  assumes "tables_ok db" "flight_ok env db rows" "ids_fresh db" "rows \<noteq> []" "no_failure tk" "settle env tk sent rows db = (e, db')"
  shows "ids_fresh db' \<and> remaining db' < remaining db"
proof -
  have tk: "tkDelete tk = None" "tkUpdate tk = None" "tkDead tk = None" using assms(5) by (simp_all add: no_failure_def)
  consider "db' = delete_rows (rowIDs rows) db" | "markFailed env None None (tkNow tk) rows db = (e, db')"
    | reason where "moveToDeadLetter env None (tkNow tk) rows reason db = (e, db')"
  proof (cases sent)
    case (Inl err)
    then show thesis using that(2) assms(6) by (simp add: settle_def tk)
  next
    case (Inr status)
    have ids: "rowIDs rows \<noteq> []" using assms(4) by (simp add: rowIDs_def)
    consider "status = 202" | "400 \<le> status \<and> status < 500" | "status \<noteq> 202" "\<not> (400 \<le> status \<and> status < 500)" by linarith
    then show thesis
    proof cases
      case 1
      then show thesis using that(1) assms(6) ids by (simp add: settle_def tk Inr markDelivered_def)
    next
      case 2
      then show thesis using that(3) assms(6) by (simp add: settle_def tk Inr)
    next
      case 3
      then show thesis using that(2) assms(6) by (auto simp: settle_def tk Inr split: if_splits)
    qed
  qed
  then show ?thesis
  proof cases
    case 1
    then show ?thesis using delivered_progress [OF assms(1-4)] by simp
  next
    case 2
    then show ?thesis by (rule failed_progress [OF assms(1-4)])
  next
    case 3
    then show ?thesis by (rule dead_progress [OF assms(1-4)])
  qed
qed

lemma remaining_zero: "tables_ok db \<Longrightarrow> remaining db = 0 \<Longrightarrow> clBuffer db = []"
  by (cases "clBuffer db") (auto simp: remaining_def tries_left_def tables_ok_def)

lemma remaining_bound: "tables_ok db \<Longrightarrow> remaining db \<le> 11 * length (clBuffer db)"
proof -
  assume ok: "tables_ok db"
  have "sum_list (map tries_left rs) \<le> 11 * length rs" if "\<forall>r\<in>set rs. 0 \<le> bfAttempts r" for rs
    using that by (induction rs) (auto simp: tries_left_def maxAttempts_def)
  then show ?thesis using ok by (simp add: remaining_def tables_ok_def)
qed

lemma tick_progress:
  assumes "tables_ok db" "ids_fresh db" "fcBatchSize cfg \<noteq> 0" "no_failure tk" "clBuffer db \<noteq> []" "tick env cfg up tk db = (e, db')"
  shows "tables_ok db' \<and> ids_fresh db' \<and> remaining db' < remaining db"
proof -
  have none: "tkFetch tk = None" using assms(4) by (simp add: no_failure_def)
  obtain rows where rows: "fetchBatch env None (fcBatchSize cfg) db = Inr rows" by (simp add: fetchBatch_def)
  have "sort_key bfReceivedAt (clBuffer db) \<noteq> []" using assms(5) by (metis length_0_conv length_sort)
  then have "length (sql_limit (fcBatchSize cfg) (sort_key bfReceivedAt (clBuffer db))) > 0"
    using assms(3,5) by (auto simp: sql_limit_def)
  then have ne: "rows \<noteq> []" using rows by (auto simp: fetchBatch_def)
  have flight: "flight_ok env db rows" by (rule fetchBatch_flight [OF rows assms(1)])
  have settle: "settle env tk (fst (sendBatch env cfg up rows)) rows db = (e, db')"
    using assms(6) rows ne by (simp add: tick_def none)
  have "tables_ok db'"
  proof (cases "fst (sendBatch env cfg up rows)")
    case (Inl err)
    then show ?thesis using settle failed_step [OF assms(1) flight] by (simp add: settle_def)
  next
    case (Inr status)
    then show ?thesis
      using settle failed_step [OF assms(1) flight] dead_step [OF assms(1) flight] tables_ok_delete [OF assms(1)] assms(1)
      by (cases "status = 202"; cases "400 \<le> status \<and> status < 500"; simp add: settle_def markDelivered_def no_failure_def split: if_splits option.splits; blast?)
  qed
  then show ?thesis using settle_progress [OF assms(1) flight assms(2) ne assms(4) settle] by blast
qed

lemma tick_empty: "clBuffer db = [] \<Longrightarrow> no_failure tk \<Longrightarrow> snd (tick env cfg up tk db) = db"
  by (simp add: tick_def fetchBatch_def no_failure_def sql_limit_def)

lemma run_ticks_progress:
  assumes "fcBatchSize cfg \<noteq> 0" "\<forall>(up, tk)\<in>set ts. no_failure tk"
  shows "tables_ok db \<Longrightarrow> ids_fresh db \<Longrightarrow> remaining db \<le> length ts \<Longrightarrow> clBuffer (run_ticks env cfg ts db) = []"
  using assms(2)
proof (induction ts arbitrary: db)
  case Nil
  then show ?case using remaining_zero by simp
next
  case (Cons t ts)
  obtain up tk where t: "t = (up, tk)" by force
  have tk: "no_failure tk" "\<forall>(up, tk)\<in>set ts. no_failure tk" using Cons.prems(4) by (simp_all add: t)
  show ?case
  proof (cases "clBuffer db = []")
    case True
    then have "remaining db = 0" by (simp add: remaining_def)
    then have "clBuffer (run_ticks env cfg ts db) = []" using Cons.IH [OF Cons.prems(1,2) _ tk(2)] by simp
    then show ?thesis using tick_empty [OF True tk(1)] by (simp add: t)
  next
    case False
    obtain e db' where d: "tick env cfg up tk db = (e, db')" by force
    have p: "tables_ok db' \<and> ids_fresh db' \<and> remaining db' < remaining db"
      by (rule tick_progress [OF Cons.prems(1,2) assms(1) tk(1) False d])
    then have "remaining db' \<le> length ts" using Cons.prems(3) by simp
    then show ?thesis using Cons.IH [of db'] p tk(2) d by (simp add: t)
  qed
qed

text \<open>C31: The buffer drains whatever the control plane answers. When the statements succeed, ids
  are not reused and no new report comes in, then after at most eleven ticks per buffered report
  the buffer is empty, whatever mixture of acceptance, rejection and failure the ticks meet, and
  whatever the configured batch size.\<close>

theorem buffer_drains:
  assumes "tables_ok db" "ids_fresh db" "\<forall>(up, tk)\<in>set ts. no_failure tk" "11 * length (clBuffer db) \<le> length ts"
  shows "clBuffer (run_ticks env (forwarder_defaults cfg) ts db) = []"
proof (rule run_ticks_progress)
  show "fcBatchSize (forwarder_defaults cfg) \<noteq> 0" by (simp add: forwarder_defaults_def)
  show "remaining db \<le> length ts" using remaining_bound [OF assms(1)] assms(4) by simp
qed (use assms in simp_all)

section \<open>An example\<close>

definition sample_collector_env :: collector_env where
  "sample_collector_env = \<lparr>ceHash = (\<lambda>k. CHR ''h'' # k), ceGzip = Inr, ceGunzip = Inr,
     ceReport = (\<lambda>body. case unframe_strings body of
        [agent, host, at'] \<Rightarrow> Some \<lparr>epAgentID = agent, epHostname = host, epCollectedAt = read_int at'\<rparr> | _ \<Rightarrow> None),
     ceParseTime = (\<lambda>_. None), ceConstraint = ErrText ''constraint failed''\<rparr>"

definition sample_key :: collector_key where
  "sample_key = \<lparr>ckID = ''k1'', ckHash = ''hsecret'', ckLabel = [], ckAgentID = ''host-1'', ckCreatedAt = [], ckRevokedAt = None\<rparr>"

definition sample_collector_db :: collector_db where
  "sample_collector_db = \<lparr>clKeys = [sample_key], clBuffer = [], clDead = []\<rparr>"

abbreviation sample_report_body :: string where
  "sample_report_body \<equiv> frame_strings [''host-1'', ''laptop'', print_int 0]"

definition sample_report :: EndpointReport where
  "sample_report = \<lparr>epAgentID = ''host-1'', epHostname = ''laptop'', epCollectedAt = 0\<rparr>"

abbreviation sample_buffered :: buffer_row where
  "sample_buffered \<equiv> \<lparr>bfID = ''r1'', bfReceivedAt = format_rfc3339 0, bfAgentID = ''host-1'', bfHostname = ''laptop'',
     bfReportJSON = sample_report_body, bfAttempts = 0, bfLastAttempt = None\<rparr>"

lemma sample_body: "readBody (Inr sample_report_body) = Inr sample_report_body" "ceReport sample_collector_env sample_report_body = Some sample_report"
proof -
  have "length sample_report_body \<le> body_limit"
    by (simp add: length_frame_strings body_limit_def print_int_def binary_digits.simps)
  then show "readBody (Inr sample_report_body) = Inr sample_report_body" by (simp add: readBody_def)
qed (simp add: sample_collector_env_def sample_report_def)

lemma sample_ingest:
  assumes "auth = None \<or> auth = Some ''host-1''" "clBuffer db = []"
  shows "IngestHandler sample_collector_env auth (Inr sample_report_body) None ''r1'' 0 db = ((202, ''accepted''), db\<lparr>clBuffer := [sample_buffered]\<rparr>)"
proof -
  have v: "validateReport sample_report = []" by (simp add: validateReport_def sample_report_def zero_time_def second_def)
  have g: "ceGzip sample_collector_env = Inr" by (simp add: sample_collector_env_def)
  have ok: "\<not> (case auth of Some a \<Rightarrow> a \<noteq> epAgentID sample_report | None \<Rightarrow> False)" using assms(1) by (auto simp: sample_report_def)
  show ?thesis
    unfolding IngestHandler_def sample_body(1) sum.case sample_body(2) option.case if_not_P [OF ok] g v
    by (simp add: insert_buffer_def assms(2) sample_report_def)
qed

lemma agent_key_confined_witness:
  "bfAgentID sample_buffered = ckAgentID sample_key \<and> snd (ConfigProxyHandler ''https://api'' [] \<lparr>usURLError = (\<lambda>_. None), usDo = (\<lambda>_. Inr (200, []))\<rparr> (Some ''host-1'') ''host-1'') \<noteq> []
   \<and> APIKeyMiddleware sample_collector_env ''fleet'' None sample_collector_db ''secret'' [] = Inr (Some ''host-1'')"
proof -
  have auth: "APIKeyMiddleware sample_collector_env ''fleet'' None sample_collector_db ''secret'' [] = Inr (Some ''host-1'')"
    by (simp add: APIKeyMiddleware_def presented_key_def resolveDBKey_def sample_collector_env_def sample_collector_db_def sample_key_def Let_def)
  have p: "presented_key ''secret'' [] \<noteq> ''fleet''" by (simp add: presented_key_def)
  have b: "clBuffer sample_collector_db = []" by (simp add: sample_collector_db_def)
  have i: "IngestHandler sample_collector_env (Some ''host-1'') (Inr sample_report_body) None ''r1'' 0 sample_collector_db
      = ((202, ''accepted''), sample_collector_db\<lparr>clBuffer := [sample_buffered]\<rparr>)" by (rule sample_ingest) (simp_all add: b)
  have keys: "set (clKeys sample_collector_db) = {sample_key}" and buffer: "set (clBuffer (sample_collector_db\<lparr>clBuffer := [sample_buffered]\<rparr>)) = {sample_buffered}"
    by (simp_all add: sample_collector_db_def)
  have "bfAgentID sample_buffered = ckAgentID sample_key"
    using agent_key_confined [OF auth p i, where saasURL = "''https://api''" and serviceKey = "[]"
        and up = "\<lparr>usURLError = (\<lambda>_. None), usDo = (\<lambda>_. Inr (200, []))\<rparr>" and agentID = "''host-1''"]
    unfolding keys buffer b by (simp only: ball_simps bex_simps set_simps empty_iff simp_thms)
  moreover have "snd (ConfigProxyHandler ''https://api'' [] \<lparr>usURLError = (\<lambda>_. None), usDo = (\<lambda>_. Inr (200, []))\<rparr> (Some ''host-1'') ''host-1'') \<noteq> []"
    by (simp add: ConfigProxyHandler_def Let_def)
  ultimately show ?thesis using auth by blast
qed

abbreviation sample_collector_start :: collector_state where
  "sample_collector_start \<equiv> \<lparr>csDB = \<lparr>clKeys = [], clBuffer = [], clDead = []\<rparr>, csInFlight = [], csAccepted = [], csAcked = []\<rparr>"

definition sample_forwarder :: forwarder_config where
  "sample_forwarder = forwarder_defaults \<lparr>fcSAASURL = ''https://api'', fcAPIKey = ''k'', fcServiceKey = [], fcBatchSize = 0,
     fcIntervalSeconds = 0, fcTimeoutSeconds = 0\<rparr>"

text \<open>A control plane that takes batches, and one that is out of order.\<close>

definition sample_upstream :: "int \<Rightarrow> batch_upstream" where
  "sample_upstream status = \<lparr>fuMarshal = (\<lambda>_. None), fuURLError = (\<lambda>_. None), fuClient = \<lparr>cvSend = (\<lambda>_ req.
       if hcMethod req = ''POST'' \<and> hcBody req \<noteq> None then Answer status [] (Inr []) else Answer 405 [] (Inr [])),
     cvResolve = (\<lambda>_ _. None), cvHost = id, cvHostname = id, cvReferer = (\<lambda>_ _. []), cvLegacy = True\<rparr>\<rparr>"

definition sample_tick_outcome :: tick_outcome where
  "sample_tick_outcome = \<lparr>tkFetch = None, tkDelete = None, tkUpdate = None, tkDead = None, tkNow = 0\<rparr>"

lemma sample_upstream_ok: "takes_batches_only (sample_upstream status)"
  by (auto simp: takes_batches_only_def sample_upstream_def)

lemma sample_send:
  "sendBatch sample_collector_env sample_forwarder (sample_upstream 202) rows
     = (Inr 202, [batch_request sample_forwarder (buildPayload sample_collector_env rows)])"
proof -
  have "client_Do (fuClient (sample_upstream 202)) (batch_request sample_forwarder p) = (Inr (202, Inr []), [batch_request sample_forwarder p])" for p
    by (rule client_Do_plain [where loc = "[]"]) (simp_all add: sample_upstream_def batch_request_def)
  then show ?thesis by (simp add: sendBatch_def Let_def) (simp add: sample_upstream_def)
qed

lemma accepted_report_not_lost_witness:
  "\<exists>s. collector_reachable sample_collector_env sample_forwarder (\<lambda>up. up = sample_upstream 202) s
     \<and> csAccepted s = [(''r1'', ''host-1'', ''laptop'', sample_report_body)] \<and> clBuffer (csDB s) = [] \<and> clDead (csDB s) = []
     \<and> (\<exists>b\<in>set (csAcked s). rpID b = ''r1'' \<and> rpReport b = sample_report_body)"
proof -
  let ?ups = "\<lambda>up. up = sample_upstream 202"
  let ?db = "\<lparr>clKeys = [], clBuffer = [sample_buffered], clDead = []\<rparr>"
  let ?s = "\<lparr>csDB = ?db, csInFlight = [], csAccepted = [(''r1'', ''host-1'', ''laptop'', sample_report_body)], csAcked = []\<rparr>"
  let ?rows = "[scan_row sample_collector_env sample_buffered]"
  have i: "IngestHandler sample_collector_env None (Inr sample_report_body) None ''r1'' 0 (csDB sample_collector_start) = ((202, ''accepted''), ?db)"
    using sample_ingest [of None "csDB sample_collector_start"] by simp
  have "collector_step sample_collector_env sample_forwarder ?ups sample_collector_start ?s"
    using collector_step.ingested [OF i sample_body] by (simp add: sample_report_def)
  then have 1: "collector_reachable sample_collector_env sample_forwarder ?ups ?s"
    by (rule collector_reachable.step [OF collector_reachable.empty])
  have f: "fetchBatch sample_collector_env None (fcBatchSize sample_forwarder) (csDB ?s) = Inr ?rows"
    by (simp add: fetchBatch_def sample_forwarder_def forwarder_defaults_def sql_limit_def)
  have 2: "collector_reachable sample_collector_env sample_forwarder ?ups (?s\<lparr>csInFlight := ?rows\<rparr>)"
    by (rule collector_reachable.step [OF 1 collector_step.fetched [OF _ f]]) simp
  have t: "settle sample_collector_env sample_tick_outcome (Inr 202) ?rows ?db = (None, ?db\<lparr>clBuffer := []\<rparr>)"
    by (simp add: settle_def markDelivered_def rowIDs_def delete_rows_def sample_tick_outcome_def)
  let ?sent = "[batch_request sample_forwarder (buildPayload sample_collector_env ?rows)]"
  let ?s2 = "?s\<lparr>csDB := ?db\<lparr>clBuffer := []\<rparr>, csInFlight := [], csAcked := taken_reports (Inr 202) ?sent\<rparr>"
  have "collector_step sample_collector_env sample_forwarder ?ups (?s\<lparr>csInFlight := ?rows\<rparr>) ?s2"
    using collector_step.settled [of "?s\<lparr>csInFlight := ?rows\<rparr>" ?ups "sample_upstream 202" sample_collector_env sample_forwarder "Inr 202" ?sent
        sample_tick_outcome None "?db\<lparr>clBuffer := []\<rparr>"] sample_send t by simp
  then have reach: "collector_reachable sample_collector_env sample_forwarder ?ups ?s2" by (rule collector_reachable.step [OF 2])
  have gz: "gzip_ok sample_collector_env" by (simp add: gzip_ok_def sample_collector_env_def)
  have ups: "\<forall>up. ?ups up \<longrightarrow> takes_batches_only up" using sample_upstream_ok by simp
  have acc: "(''r1'', ''host-1'', ''laptop'', sample_report_body) \<in> set (csAccepted ?s2)" by simp
  have "\<exists>b\<in>set (csAcked ?s2). rpID b = ''r1'' \<and> rpReport b = sample_report_body"
    using accepted_report_not_lost [OF gz ups reach acc] by auto
  then show ?thesis using reach by (intro exI [of _ ?s2]) simp
qed

definition sample_tick :: "batch_upstream \<times> tick_outcome" where
  "sample_tick = (sample_upstream 503, sample_tick_outcome)"

lemma buffer_drains_witness:
  "clBuffer (run_ticks sample_collector_env sample_forwarder (replicate 11 sample_tick) (sample_collector_db\<lparr>clBuffer := [sample_buffered]\<rparr>)) = []"
  unfolding sample_forwarder_def
  by (rule buffer_drains)
    (simp_all add: tables_ok_def ids_fresh_def sample_collector_db_def sample_tick_def sample_tick_outcome_def no_failure_def maxAttempts_def)

end
