(* ===== verification/Agent_Config.thy ===== *)
theory Agent_Config
  imports Agent_Admin Remote_Config Collector
begin

text \<open>
  The configuration that the control plane keeps for an agent and serves to its endpoint
  (\<^verbatim>\<open>eami-api/internal/api/agents.go\<close>, the configuration handlers; \<^verbatim>\<open>agent_config_remote.go\<close>;
  \<^verbatim>\<open>internal/store/agent_configs.sql.go\<close>, \<^verbatim>\<open>agent_config_version.go\<close>), the fetch of the endpoint
  (\<^verbatim>\<open>eami-agent/internal/collector/sender.go\<close>), and the whole way of a stored configuration
  through the collector's proxy into force on the endpoint.
\<close>

section \<open>Bounds and version (agent\_config\_limits.go, agent\_config\_version.go)\<close>

definition store_MaxEnabledScanners :: nat where "store_MaxEnabledScanners = 32"
definition store_MinModelFileSizeMB :: int where "store_MinModelFileSizeMB = 1"
definition store_MaxModelFileSizeMB :: int where "store_MaxModelFileSizeMB = 100000"
definition store_MinIntervalSeconds :: int where "store_MinIntervalSeconds = 60"
definition store_MaxIntervalSeconds :: int where "store_MaxIntervalSeconds = 86400"
definition store_MinReportSizeBytes :: int where "store_MinReportSizeBytes = 1048576"
definition store_MaxReportSizeBytes :: int where "store_MaxReportSizeBytes = 52428800"

lemmas server_bounds = store_MaxEnabledScanners_def store_MinModelFileSizeMB_def store_MaxModelFileSizeMB_def store_MinIntervalSeconds_def
  store_MaxIntervalSeconds_def store_MinReportSizeBytes_def store_MaxReportSizeBytes_def

text \<open>The first occurrence of each name, sorted; the result is that of the agent's function.\<close>

fun dedupe :: "string list \<Rightarrow> string list \<Rightarrow> string list" where
  "dedupe seen [] = []"
| "dedupe seen (v # vs) = (if v \<in> set seen then dedupe seen vs else v # dedupe (v # seen) vs)"

definition store_sortedUnique :: "string list \<Rightarrow> string list" where
  "store_sortedUnique xs = sort (dedupe [] xs)"

text \<open>\<open>cdHash\<close> is the hash of the canonical JSON, which both sides encode the same way.\<close>

definition store_Version :: "agent_codec \<Rightarrow> AgentConfig \<Rightarrow> string" where
  "store_Version cd c = ''c1:'' @ cdHash cd \<lparr>cnEnabledScanners = store_sortedUnique (acfEnabledScanners c), cnMaxReportSizeBytes = acfMaxReportSizeBytes c,
     cnModelFileSizeMB = acfModelFileSizeMB c, cnModelScanPaths = store_sortedUnique (acfModelScanPaths c),
     cnScanIntervalSeconds = acfScanIntervalSeconds c\<rparr>"

definition IsKnownScanner :: "string \<Rightarrow> bool" where
  "IsKnownScanner name = list_ex (\<lambda>s. s = name) AllScanners"

section \<open>Statements (agent\_configs.sql.go, endpoints.sql.go)\<close>

definition store_GetAgentConfig :: "go_error option \<Rightarrow> uuid \<Rightarrow> agent_db \<Rightarrow> AgentConfig result" where
  "store_GetAgentConfig dbErr i db =
     (case dbErr of
        Some err \<Rightarrow> Inl err
      | None \<Rightarrow> (case List.find (\<lambda>c. acfAgentID c = i) (abConfigs db) of None \<Rightarrow> Inl (Sentinel ErrNoRows) | Some c \<Rightarrow> Inr c))"

definition put_config :: "AgentConfig \<Rightarrow> AgentConfig list \<Rightarrow> AgentConfig list" where
  "put_config c cs =
     (if list_ex (\<lambda>x. acfAgentID x = acfAgentID c) cs then map (\<lambda>x. if acfAgentID x = acfAgentID c then c else x) cs else cs @ [c])"

text \<open>The row is selected from the agents of the organisation; the table checks the model size.\<close>

definition store_UpsertAgentConfig ::
  "agent_env \<Rightarrow> go_error option \<Rightarrow> uuid \<Rightarrow> AgentConfig \<Rightarrow> agent_db \<Rightarrow> AgentConfig result \<times> agent_db" where
  "store_UpsertAgentConfig env dbErr orgID c db =
     (case dbErr of
        Some err \<Rightarrow> (Inl err, db)
      | None \<Rightarrow>
        if \<not> list_ex (of_agent (acfAgentID c) orgID) (abAgents db) then (Inl (Sentinel ErrNoRows), db)
        else if \<not> (1 \<le> acfModelFileSizeMB c \<and> acfModelFileSizeMB c \<le> 100000) then (Inl (peCheck (aePg env)), db)
        else (Inr c, db\<lparr>abConfigs := put_config c (abConfigs db)\<rparr>))"

record org_row =
  ogID :: uuid
  ogCreatedAt :: time

record endpoint_link =
  elOrgID :: uuid
  elAgentID :: string
  elGatewayAgentID :: "uuid option"

definition GetDefaultOrgID :: "go_error option \<Rightarrow> org_row list \<Rightarrow> uuid result" where
  "GetDefaultOrgID dbErr orgs =
     (case dbErr of
        Some err \<Rightarrow> Inl err
      | None \<Rightarrow> (case sort_key ogCreatedAt orgs of [] \<Rightarrow> Inl (Sentinel ErrNoRows) | og # _ \<Rightarrow> Inr (ogID og)))"

definition ResolveEndpointGatewayAgent :: "go_error option \<Rightarrow> endpoint_link list \<Rightarrow> uuid \<Rightarrow> string \<Rightarrow> uuid option result" where
  "ResolveEndpointGatewayAgent dbErr eps orgID agentID =
     (case dbErr of
        Some err \<Rightarrow> Inl err
      | None \<Rightarrow> (case List.find (\<lambda>e. elOrgID e = orgID \<and> elAgentID e = agentID) eps of
          None \<Rightarrow> Inl (Sentinel ErrNoRows) | Some e \<Rightarrow> Inr (elGatewayAgentID e)))"

section \<open>Requests and answers\<close>

record AgentConfigUpdateRequest =
  cuScanIntervalSeconds :: "int option"
  cuModelScanPaths :: "string list option"
  cuMaxReportSizeBytes :: "int option"
  cuEnabledScanners :: "string list option"
  cuModelFileSizeMB :: "int option"

record AgentConfigResp =
  rsAgentID :: uuid
  rsScanIntervalSeconds :: int
  rsModelScanPaths :: "string list"
  rsMaxReportSizeBytes :: int
  rsEnabledScanners :: "string list"
  rsModelFileSizeMB :: int
  rsConfigVersion :: string
  rsPathWarnings :: "string list"

definition agentConfigToResp :: "agent_codec \<Rightarrow> AgentConfig \<Rightarrow> AgentConfigResp" where
  "agentConfigToResp cd c = \<lparr>rsAgentID = acfAgentID c, rsScanIntervalSeconds = acfScanIntervalSeconds c, rsModelScanPaths = acfModelScanPaths c,
     rsMaxReportSizeBytes = acfMaxReportSizeBytes c, rsEnabledScanners = acfEnabledScanners c, rsModelFileSizeMB = acfModelFileSizeMB c,
     rsConfigVersion = store_Version cd c, rsPathWarnings = PathWarnings (acfModelScanPaths c)\<rparr>"

text \<open>\<^verbatim>\<open>strings.Join\<close>\<close>

fun join_with :: "string \<Rightarrow> string list \<Rightarrow> string" where
  "join_with sep [] = []"
| "join_with sep [x] = x"
| "join_with sep (x # xs) = x @ sep @ join_with sep xs"

definition configErrorMessages :: "string \<Rightarrow> string" where
  "configErrorMessages code = (case map_of
     [(''interval_out_of_range'', ''Scan interval must be between 60 and 86400 seconds.''),
      (''report_size_out_of_range'', ''Maximum report size must be between 1 MB and 50 MB.''),
      (''model_size_out_of_range'', ''Minimum model size must be between 1 and 100000 MB.''),
      (''too_many_paths'', ''At most 32 model scan paths are allowed.''),
      (''path_empty'', ''Model scan paths can'' @ [CHR 0x27] @ ''t be empty.''),
      (''path_too_long'', ''Each model scan path must be at most 1024 bytes.''),
      (''path_invalid_chars'', ''Model scan paths can'' @ [CHR 0x27] @ ''t contain control characters.''),
      (''path_network'', ''Model scan paths must be local paths, not network (UNC) paths.''),
      (''path_not_absolute'', ''Model scan paths must be absolute paths.''),
      (''path_root'', ''A filesystem root can'' @ [CHR 0x27] @ ''t be a model scan path; choose a specific folder.''),
      (''path_not_normalized'', ''Model scan paths can'' @ [CHR 0x27] @ ''t contain . or .. parts, or parts ending in a dot or a space.''),
      (''path_profile_parent'', ''Whole-profile folders (/home, /Users, C:'' @ [CHR 0x5C] @ ''Users) can'' @ [CHR 0x27]
         @ ''t be scan paths; choose specific folders inside them.''),
      (''too_many_scanners'', ''Too many scanner names.''),
      (''unknown_scanner'', ''Unknown scanner name; valid names: '' @ join_with '', '' AllScanners @ ''.'')] code of
     Some msg \<Rightarrow> msg | None \<Rightarrow> [])"

text \<open>A refusal is a status, a code, a message and the field it refers to.\<close>

type_synonym config_error = "api_error \<times> string"
type_synonym 'a config_answer = "config_error + int \<times> 'a"

definition plain :: "int \<Rightarrow> string \<Rightarrow> string \<Rightarrow> config_error" where
  "plain status code msg = ((status, code, msg), [])"

definition field_error :: "string \<Rightarrow> string \<Rightarrow> config_error" where
  "field_error code field = ((400, code, configErrorMessages code), field)"

section \<open>Handlers (agents.go, agent\_config\_remote.go)\<close>

definition GetAgentConfig ::
  "agent_env \<Rightarrow> agent_codec \<Rightarrow> go_error option \<Rightarrow> go_error option \<Rightarrow> userClaims \<Rightarrow> string \<Rightarrow> agent_db \<Rightarrow> AgentConfigResp config_answer" where
  "GetAgentConfig env cd agErr cfErr uc raw db =
     (case peParseUUID (aePg env) raw of
        None \<Rightarrow> Inl (plain 400 ''bad_request'' ''invalid agentId'')
      | Some i \<Rightarrow>
        (case store_GetAgent agErr i (ucOrgID uc) db of
           Inl err \<Rightarrow> Inl (if errors_is ErrNoRows err then plain 404 ''not_found'' ''agent not found''
                     else plain 500 ''internal_error'' ''failed to load agent config'')
         | Inr _ \<Rightarrow>
           (case store_GetAgentConfig cfErr i db of
              Inl err \<Rightarrow> if errors_is ErrNoRows err then Inr (200, agentConfigToResp cd (AgentConfigDefaults i))
                  else Inl (plain 500 ''internal_error'' ''failed to load agent config'')
            | Inr c \<Rightarrow> Inr (200, agentConfigToResp cd c))))"

text \<open>The checks of a request, in their order; an absent list is \<open>[]\<close> to them.\<close>

definition out_of :: "int option \<Rightarrow> int \<Rightarrow> int \<Rightarrow> bool" where
  "out_of v lo hi = (case v of None \<Rightarrow> False | Some x \<Rightarrow> x < lo \<or> x > hi)"

definition given_list :: "'a list option \<Rightarrow> 'a list" where
  "given_list v = (case v of None \<Rightarrow> [] | Some xs \<Rightarrow> xs)"

definition config_request_error :: "AgentConfigUpdateRequest \<Rightarrow> config_error option" where
  "config_request_error q =
     (let paths = given_list (cuModelScanPaths q); scanners = given_list (cuEnabledScanners q) in
      if out_of (cuScanIntervalSeconds q) store_MinIntervalSeconds store_MaxIntervalSeconds
      then Some (field_error ''interval_out_of_range'' ''scan_interval_seconds'')
      else if out_of (cuMaxReportSizeBytes q) store_MinReportSizeBytes store_MaxReportSizeBytes
      then Some (field_error ''report_size_out_of_range'' ''max_report_size_bytes'')
      else if out_of (cuModelFileSizeMB q) store_MinModelFileSizeMB store_MaxModelFileSizeMB
      then Some (field_error ''model_size_out_of_range'' ''model_file_size_mb'')
      else if ValidateModelScanPaths paths \<noteq> [] then Some (field_error (ValidateModelScanPaths paths) ''model_scan_paths'')
      else if length scanners > store_MaxEnabledScanners then Some (field_error ''too_many_scanners'' ''enabled_scanners'')
      else if \<not> list_all IsKnownScanner scanners then Some (field_error ''unknown_scanner'' ''enabled_scanners'')
      else None)"

definition sameStringSet :: "string list \<Rightarrow> string list \<Rightarrow> bool" where
  "sameStringSet a b =
     (let ma = remdups a; mb = remdups b in length ma = length mb \<and> list_all (\<lambda>k. k \<in> set mb) ma)"

definition merged_config :: "AgentConfigUpdateRequest \<Rightarrow> AgentConfig \<Rightarrow> AgentConfig" where
  "merged_config q e = \<lparr>acfAgentID = acfAgentID e, acfScanIntervalSeconds = or_old (cuScanIntervalSeconds q) (acfScanIntervalSeconds e),
     acfModelScanPaths = or_old (cuModelScanPaths q) (acfModelScanPaths e), acfMaxReportSizeBytes = or_old (cuMaxReportSizeBytes q) (acfMaxReportSizeBytes e),
     acfEnabledScanners = or_old (cuEnabledScanners q) (acfEnabledScanners e), acfModelFileSizeMB = or_old (cuModelFileSizeMB q) (acfModelFileSizeMB e)\<rparr>"

text \<open>Up to the write: the ownership check and the read of the row see the tables \<open>seen\<close>.\<close>

definition update_config_plan ::
  "agent_env \<Rightarrow> go_error option \<Rightarrow> go_error option \<Rightarrow> agent_db \<Rightarrow> userClaims \<Rightarrow> string \<Rightarrow> AgentConfigUpdateRequest option \<Rightarrow> config_error + AgentConfig" where
  "update_config_plan env agErr cfErr seen uc raw body =
     (case peParseUUID (aePg env) raw of
        None \<Rightarrow> Inl (plain 400 ''bad_request'' ''invalid agentId'')
      | Some i \<Rightarrow>
        (case body of
           None \<Rightarrow> Inl (plain 400 ''bad_request'' ''invalid JSON body'')
         | Some q \<Rightarrow>
           (case config_request_error q of
              Some e \<Rightarrow> Inl e
            | None \<Rightarrow>
              (case store_GetAgent agErr i (ucOrgID uc) seen of
                 Inl err \<Rightarrow> Inl (if errors_is ErrNoRows err then plain 404 ''not_found'' ''agent not found''
                           else plain 500 ''internal_error'' ''failed to update agent config'')
               | Inr _ \<Rightarrow>
                 (case (case store_GetAgentConfig cfErr i seen of
                     Inl err \<Rightarrow> if errors_is ErrNoRows err then Some (AgentConfigDefaults i) else None
                   | Inr c \<Rightarrow> Some c) of
                    None \<Rightarrow> Inl (plain 500 ''internal_error'' ''failed to update agent config'')
                  | Some existing \<Rightarrow>
                    (let full = (case cuModelScanPaths q of
                         Some paths \<Rightarrow> if sameStringSet paths (acfModelScanPaths existing) then [] else ValidateModelScanPathsFull paths
                       | None \<Rightarrow> []) in
                     if full \<noteq> [] then Inl (field_error full ''model_scan_paths'') else Inr (merged_config q existing)))))))"

definition UpdateAgentConfig ::
  "agent_env \<Rightarrow> agent_codec \<Rightarrow> go_error option \<Rightarrow> go_error option \<Rightarrow> agent_db \<Rightarrow> go_error option \<Rightarrow> userClaims \<Rightarrow> string
   \<Rightarrow> AgentConfigUpdateRequest option \<Rightarrow> agent_db \<Rightarrow> AgentConfigResp config_answer \<times> agent_db" where
  "UpdateAgentConfig env cd agErr cfErr seen upErr uc raw body db =
     (case update_config_plan env agErr cfErr seen uc raw body of
        Inl e \<Rightarrow> (Inl e, db)
      | Inr c \<Rightarrow>
        (case store_UpsertAgentConfig env upErr (ucOrgID uc) c db of
           (Inl err, db1) \<Rightarrow>
             (Inl (if errors_is ErrNoRows err then plain 404 ''not_found'' ''agent not found''
                   else plain 500 ''internal_error'' ''failed to update agent config''), db1)
         | (Inr saved, db1) \<Rightarrow> (Inr (200, agentConfigToResp cd saved), db1)))"

definition AgentRemoteConfig ::
  "agent_codec \<Rightarrow> go_error option \<Rightarrow> go_error option \<Rightarrow> go_error option \<Rightarrow> org_row list \<Rightarrow> endpoint_link list \<Rightarrow> string \<Rightarrow> agent_db
   \<Rightarrow> AgentConfigResp config_answer" where
  "AgentRemoteConfig cd orgErr epErr cfErr orgs eps agentID db =
     (if agentID = [] then Inl (plain 400 ''bad_request'' ''missing agent_id'')
      else case GetDefaultOrgID orgErr orgs of
        Inl err \<Rightarrow> Inl (if errors_is ErrNoRows err then plain 503 ''no_org'' ''no org found; run reseed.sql before agents can fetch remote config''
                  else plain 500 ''internal_error'' ''failed to load agent config'')
      | Inr orgID \<Rightarrow>
        (case ResolveEndpointGatewayAgent epErr eps orgID agentID of
           Inl err \<Rightarrow> Inl (if errors_is ErrNoRows err then plain 404 ''not_found'' ''endpoint not registered''
                     else plain 500 ''internal_error'' ''failed to resolve endpoint'')
         | Inr None \<Rightarrow> Inl (plain 404 ''not_found'' ''endpoint not linked to a governed agent'')
         | Inr (Some i) \<Rightarrow>
           (case store_GetAgentConfig cfErr i db of
              Inl err \<Rightarrow> if errors_is ErrNoRows err then Inr (200, agentConfigToResp cd (AgentConfigDefaults i))
                  else Inl (plain 500 ''internal_error'' ''failed to load agent config'')
            | Inr c \<Rightarrow> Inr (200, agentConfigToResp cd c))))"

section \<open>The endpoint's fetch (sender.go)\<close>

text \<open>The call: no request can be made of the URL, the request fails, or it has a status and a body
  whose reading may fail. The body is read up to one byte past the limit.\<close>

definition FetchConfig :: "go_error option \<Rightarrow> go_error + int \<times> string result \<Rightarrow> FetchResult" where
  "FetchConfig urlErr outcome =
     (case urlErr of
        Some err \<Rightarrow> \<lparr>frStatus = 0, frBody = [], frTooLarge = False, frErr = Some (Wrapped ''fetchconfig: build request'' err)\<rparr>
      | None \<Rightarrow>
        (case outcome of
           Inl err \<Rightarrow> \<lparr>frStatus = 0, frBody = [], frTooLarge = False, frErr = Some (Wrapped ''fetchconfig: get'' err)\<rparr>
         | Inr (status, Inl err) \<Rightarrow> \<lparr>frStatus = status, frBody = [], frTooLarge = False, frErr = Some (Wrapped ''fetchconfig: read'' err)\<rparr>
         | Inr (status, Inr whole) \<Rightarrow>
           (let body = take (MaxResponseBytes + 1) whole in
            if length body > MaxResponseBytes then \<lparr>frStatus = status, frBody = [], frTooLarge = True, frErr = None\<rparr>
            else \<lparr>frStatus = status, frBody = body, frTooLarge = False, frErr = None\<rparr>)))"

section \<open>The stored rows\<close>

lemma dedupe_props: "set (dedupe seen xs) = set xs - set seen \<and> distinct (dedupe seen xs)"
  by (induction xs arbitrary: seen) auto

lemma store_sortedUnique_eq: "store_sortedUnique xs = sortedUnique xs"
  unfolding store_sortedUnique_def sortedUnique_def
  by (rule sorted_distinct_set_unique) (simp_all add: dedupe_props)

text \<open>A row as the endpoint's configuration: both sides compute the same version of it.\<close>

definition remote_of :: "AgentConfig \<Rightarrow> RemoteConfig" where
  "remote_of c = \<lparr>rcScanIntervalSeconds = acfScanIntervalSeconds c, rcEnabledScanners = acfEnabledScanners c, rcModelScanPaths = acfModelScanPaths c,
     rcModelFileSizeMB = acfModelFileSizeMB c, rcMaxReportSizeBytes = acfMaxReportSizeBytes c\<rparr>"

lemma versions_agree: "store_Version cd c = config_Version cd (remote_of c)"
  by (simp add: store_Version_def config_Version_def canonical_config_def remote_of_def store_sortedUnique_eq)

lemma scanners_agree: "AllScanners = agent_AllScanners"
  by (simp add: AllScanners_def agent_AllScanners_def)

definition config_row_ok :: "AgentConfig \<Rightarrow> bool" where
  "config_row_ok c = (config_Validate (remote_of c) = [] \<and> set (acfEnabledScanners c) \<subseteq> set agent_AllScanners)"

lemma config_row_ok_iff:
  "config_row_ok c \<longleftrightarrow> 60 \<le> acfScanIntervalSeconds c \<and> acfScanIntervalSeconds c \<le> 86400
     \<and> 1048576 \<le> acfMaxReportSizeBytes c \<and> acfMaxReportSizeBytes c \<le> 52428800
     \<and> 1 \<le> acfModelFileSizeMB c \<and> acfModelFileSizeMB c \<le> 100000
     \<and> length (acfEnabledScanners c) \<le> 32 \<and> checkPaths (acfModelScanPaths c) = [] \<and> set (acfEnabledScanners c) \<subseteq> set agent_AllScanners"
  by (auto simp: config_row_ok_def config_Validate_ok remote_of_def good_interval_def config_bounds)

lemma defaults_ok: "config_row_ok (AgentConfigDefaults i)"
  by (simp add: config_row_ok_iff AgentConfigDefaults_def scanners_agree) (simp add: agent_AllScanners_def checkPaths_def)


lemma config_request_ok:
  assumes "config_request_error q = None"
  shows "\<forall>x. cuScanIntervalSeconds q = Some x \<longrightarrow> 60 \<le> x \<and> x \<le> 86400"
    and "\<forall>x. cuMaxReportSizeBytes q = Some x \<longrightarrow> 1048576 \<le> x \<and> x \<le> 52428800"
    and "\<forall>x. cuModelFileSizeMB q = Some x \<longrightarrow> 1 \<le> x \<and> x \<le> 100000"
    and "\<forall>paths. cuModelScanPaths q = Some paths \<longrightarrow> checkPaths paths = []"
    and "\<forall>names. cuEnabledScanners q = Some names \<longrightarrow> length names \<le> 32 \<and> set names \<subseteq> set agent_AllScanners"
proof -
  have h: "\<not> out_of (cuScanIntervalSeconds q) store_MinIntervalSeconds store_MaxIntervalSeconds"
    "\<not> out_of (cuMaxReportSizeBytes q) store_MinReportSizeBytes store_MaxReportSizeBytes"
    "\<not> out_of (cuModelFileSizeMB q) store_MinModelFileSizeMB store_MaxModelFileSizeMB"
    "ValidateModelScanPaths (given_list (cuModelScanPaths q)) = []"
    "\<not> length (given_list (cuEnabledScanners q)) > store_MaxEnabledScanners" "list_all IsKnownScanner (given_list (cuEnabledScanners q))"
    using assms by (auto simp: config_request_error_def Let_def split: if_split_asm)
  show "\<forall>x. cuScanIntervalSeconds q = Some x \<longrightarrow> 60 \<le> x \<and> x \<le> 86400" using h(1) by (auto simp: out_of_def server_bounds)
  show "\<forall>x. cuMaxReportSizeBytes q = Some x \<longrightarrow> 1048576 \<le> x \<and> x \<le> 52428800" using h(2) by (auto simp: out_of_def server_bounds)
  show "\<forall>x. cuModelFileSizeMB q = Some x \<longrightarrow> 1 \<le> x \<and> x \<le> 100000" using h(3) by (auto simp: out_of_def server_bounds)
  show "\<forall>paths. cuModelScanPaths q = Some paths \<longrightarrow> checkPaths paths = []" using h(4) by (auto simp: given_list_def paths_agree)
  show "\<forall>names. cuEnabledScanners q = Some names \<longrightarrow> length names \<le> 32 \<and> set names \<subseteq> set agent_AllScanners"
    using h(5,6) by (auto simp: given_list_def server_bounds list_all_iff IsKnownScanner_def list_ex_iff scanners_agree)
qed

lemma or_old_cases: "P (or_old v old)" if "\<forall>x. v = Some x \<longrightarrow> P x" "P old"
  using that by (cases v) (simp_all add: or_old_def)

lemma merged_ok:
  assumes "config_request_error q = None" "config_row_ok e"
  shows "config_row_ok (merged_config q e)"
proof -
  note q = config_request_ok [OF assms(1)]
  note e = assms(2) [unfolded config_row_ok_iff]
  have "60 \<le> or_old (cuScanIntervalSeconds q) (acfScanIntervalSeconds e) \<and> or_old (cuScanIntervalSeconds q) (acfScanIntervalSeconds e) \<le> 86400"
    by (rule or_old_cases) (use q(1) e in auto)
  moreover have "1048576 \<le> or_old (cuMaxReportSizeBytes q) (acfMaxReportSizeBytes e) \<and> or_old (cuMaxReportSizeBytes q) (acfMaxReportSizeBytes e) \<le> 52428800"
    by (rule or_old_cases) (use q(2) e in auto)
  moreover have "1 \<le> or_old (cuModelFileSizeMB q) (acfModelFileSizeMB e) \<and> or_old (cuModelFileSizeMB q) (acfModelFileSizeMB e) \<le> 100000"
    by (rule or_old_cases) (use q(3) e in auto)
  moreover have "checkPaths (or_old (cuModelScanPaths q) (acfModelScanPaths e)) = []"
    by (rule or_old_cases) (use q(4) e in auto)
  moreover have "length (or_old (cuEnabledScanners q) (acfEnabledScanners e)) \<le> 32 \<and> set (or_old (cuEnabledScanners q) (acfEnabledScanners e)) \<subseteq> set agent_AllScanners"
    by (rule or_old_cases) (use q(5) e in auto)
  ultimately show ?thesis by (simp add: config_row_ok_iff merged_config_def)
qed

text \<open>The requests on agents and configurations, in any order; the reads of a handler see the
  tables as some earlier request left them, the write those of its own moment.\<close>

inductive config_reachable :: "agent_env \<Rightarrow> agent_codec \<Rightarrow> agent_db \<Rightarrow> bool"
  for env :: agent_env and cd :: agent_codec where
  empty: "config_reachable env cd \<lparr>abAgents = [], abConfigs = [], abEvents = [], abHistory = []\<rparr>"
| create: "config_reachable env cd db \<Longrightarrow> CreateAgent env insErr seedErr evErr newID uc cbody db = (ca, db') \<Longrightarrow> config_reachable env cd db'"
| update: "config_reachable env cd db \<Longrightarrow> UpdateAgent env loadErr seen updErr evErr uc raw ubody db = (ua, db', ns) \<Longrightarrow> config_reachable env cd db'"
| delete: "config_reachable env cd db \<Longrightarrow> DeleteAgent env readErr delErr evErr uc raw db = (da, db', ns) \<Longrightarrow> config_reachable env cd db'"
| configure: "config_reachable env cd db \<Longrightarrow> config_reachable env cd seen \<Longrightarrow>
    UpdateAgentConfig env cd agErr cfErr seen upErr uc raw body db = (ans, db') \<Longrightarrow> config_reachable env cd db'"
| activity: "config_reachable env cd db \<Longrightarrow> config_reachable env cd (db\<lparr>abHistory := h\<rparr>)"

definition configs_ok :: "agent_db \<Rightarrow> bool" where
  "configs_ok db = (\<forall>c\<in>set (abConfigs db). config_row_ok c)"

lemma seed_config_ok: "\<forall>c\<in>set cs. config_row_ok c \<Longrightarrow> \<forall>c\<in>set (seed_config i cs). config_row_ok c"
  using defaults_ok by (auto simp: seed_config_def)

lemma create_configs:
  assumes "configs_ok db" "CreateAgent env insErr seedErr evErr newID uc cbody db = (ca, db')"
  shows "configs_ok db'"
proof (cases "abConfigs db' = abConfigs db")
  case False
  obtain q where q: "cbody = Some q" using assms(2) False by (cases cbody) (auto simp: CreateAgent_def)
  obtain e db1 where w: "store_CreateAgent env insErr (new_agent newID uc q) db = (e, db1)" by force
  have db1: "abConfigs db1 = abConfigs db \<or> abConfigs db1 = seed_config newID (abConfigs db)"
    using w by (auto simp: store_CreateAgent_def new_agent_def split: option.splits if_splits)
  have "db' = db \<or> db' = db1 \<or> db' = InsertAgentLifecycleEvent evErr (lifecycle uc newID (crName q) ''created'') (store_SeedAgentConfig seedErr newID db1)"
    using assms(2) w by (auto simp: CreateAgent_def q split: if_splits option.splits)
  then have "abConfigs db' = abConfigs db \<or> abConfigs db' = abConfigs db1 \<or> abConfigs db' = seed_config newID (abConfigs db1)"
    by (auto simp: store_SeedAgentConfig_def split: option.splits)
  then show ?thesis using db1 assms(1) seed_config_ok unfolding configs_ok_def by metis
qed (use assms(1) in \<open>simp add: configs_ok_def\<close>)

lemma delete_configs:
  assumes "configs_ok db" "DeleteAgent env readErr delErr evErr uc raw db = (da, db', ns)"
  shows "configs_ok db'"
proof -
  have "abConfigs db' = abConfigs db \<or> (\<exists>i. abConfigs db' = filter (\<lambda>c. acfAgentID c \<noteq> i) (abConfigs db))"
  proof (cases "peParseUUID (aePg env) raw")
    case None
    then show ?thesis using assms(2) by (simp add: DeleteAgent_def)
  next
    case (Some i)
    obtain e db1 where d: "store_DeleteAgent env delErr i (ucOrgID uc) db = (e, db1)" by force
    have "abConfigs db1 = abConfigs db \<or> abConfigs db1 = filter (\<lambda>c. acfAgentID c \<noteq> i) (abConfigs db)"
      using d by (auto simp: store_DeleteAgent_def split: option.splits if_splits)
    moreover have "db' = db \<or> abConfigs db' = abConfigs db1"
      using assms(2) d by (auto simp: DeleteAgent_def Some split: sum.splits option.splits)
    ultimately show ?thesis by auto
  qed
  then show ?thesis using assms(1) unfolding configs_ok_def by auto
qed

lemma update_config_plan_cases:
  assumes "update_config_plan env agErr cfErr seen uc raw body = Inr c"
  obtains q i e where "body = Some q" "peParseUUID (aePg env) raw = Some i" "config_request_error q = None" "c = merged_config q e"
    "e \<in> set (abConfigs seen) \<and> acfAgentID e = i \<or> e = AgentConfigDefaults i \<and> (\<forall>x\<in>set (abConfigs seen). cfErr = None \<longrightarrow> acfAgentID x \<noteq> i)"
    "\<exists>a\<in>set (abAgents seen). awID a = i \<and> awOrgID a = ucOrgID uc"
    "\<forall>paths. cuModelScanPaths q = Some paths \<longrightarrow> sameStringSet paths (acfModelScanPaths e) \<or> ValidateModelScanPathsFull paths = []"
proof -
  obtain i q where iq: "peParseUUID (aePg env) raw = Some i" "body = Some q" "config_request_error q = None"
    using assms by (auto simp: update_config_plan_def split: option.splits)
  obtain a where a: "store_GetAgent agErr i (ucOrgID uc) seen = Inr a"
    using assms iq by (cases "store_GetAgent agErr i (ucOrgID uc) seen") (auto simp: update_config_plan_def)
  have mem: "\<exists>a\<in>set (abAgents seen). awID a = i \<and> awOrgID a = ucOrgID uc"
    using a find_Some_set [of "of_agent i (ucOrgID uc)" "abAgents seen"] by (auto simp: store_GetAgent_def of_agent_def split: option.splits)
  let ?r = "case store_GetAgentConfig cfErr i seen of
      Inl err \<Rightarrow> if errors_is ErrNoRows err then Some (AgentConfigDefaults i) else None | Inr c \<Rightarrow> Some c"
  obtain e where e: "?r = Some e" using assms iq a by (cases ?r) (auto simp: update_config_plan_def)
  have e': "e \<in> set (abConfigs seen) \<and> acfAgentID e = i \<or> e = AgentConfigDefaults i \<and> (\<forall>x\<in>set (abConfigs seen). cfErr = None \<longrightarrow> acfAgentID x \<noteq> i)"
    using e find_Some_set [of "\<lambda>c. acfAgentID c = i" "abConfigs seen"]
    by (auto simp: store_GetAgentConfig_def find_None_set split: option.splits sum.splits if_splits)
  show thesis
    by (rule that [OF iq(2,1,3) _ e' mem]) (use assms iq a e in \<open>auto simp: update_config_plan_def Let_def split: option.splits if_splits\<close>)
qed

lemma put_config_set: "set (put_config c cs) \<subseteq> insert c (set cs)"
  by (auto simp: put_config_def)

lemma UpdateAgentConfig_cases:
  assumes "UpdateAgentConfig env cd agErr cfErr seen upErr uc raw body db = (ans, db')"
  obtains (refused) e where "ans = Inl e" "db' = db"
  | (written) c where "update_config_plan env agErr cfErr seen uc raw body = Inr c" "ans = Inr (200, agentConfigToResp cd c)"
      "db' = db\<lparr>abConfigs := put_config c (abConfigs db)\<rparr>" "\<exists>a\<in>set (abAgents db). awID a = acfAgentID c \<and> awOrgID a = ucOrgID uc"
proof (cases "update_config_plan env agErr cfErr seen uc raw body")
  case (Inl e)
  then show thesis using assms refused [of e] by (auto simp: UpdateAgentConfig_def)
next
  case (Inr c)
  obtain res db1 where w: "store_UpsertAgentConfig env upErr (ucOrgID uc) c db = (res, db1)" by force
  show thesis
  proof (cases res)
    case (Inl err)
    then have "db1 = db" using w by (auto simp: store_UpsertAgentConfig_def split: option.splits if_splits)
    then have "ans = Inl (if errors_is ErrNoRows err then plain 404 ''not_found'' ''agent not found''
        else plain 500 ''internal_error'' ''failed to update agent config'')" "db' = db"
      using assms by (simp_all add: UpdateAgentConfig_def Inr w Inl)
    then show thesis by (rule refused)
  next
    case r: (Inr saved)
    then have "saved = c" "db1 = db\<lparr>abConfigs := put_config c (abConfigs db)\<rparr>" "list_ex (of_agent (acfAgentID c) (ucOrgID uc)) (abAgents db)"
      using w by (auto simp: store_UpsertAgentConfig_def split: option.splits if_splits)
    then show thesis using assms written [OF Inr] by (auto simp: UpdateAgentConfig_def Inr w r list_ex_iff of_agent_def)
  qed
qed

lemma reachable_configs_ok: "config_reachable env cd db \<Longrightarrow> configs_ok db"
proof (induction rule: config_reachable.induct)
  case empty
  then show ?case by (simp add: configs_ok_def)
next
  case (create db insErr seedErr evErr newID uc cbody ca db')
  then show ?case using create_configs by blast
next
  case (update db loadErr seen updErr evErr uc raw ubody ua db' ns)
  have "abConfigs db' = abConfigs db" by (cases rule: UpdateAgent_cases [OF update.hyps(2)]) auto
  then show ?case using update.IH by (simp add: configs_ok_def)
next
  case (delete db readErr delErr evErr uc raw da db' ns)
  then show ?case using delete_configs by blast
next
  case (configure db seen agErr cfErr upErr uc raw body ans db')
  show ?case
  proof (cases rule: UpdateAgentConfig_cases [OF configure.hyps(3)])
    case (1 e)
    then show ?thesis using configure.IH(1) by simp
  next
    case (2 c)
    obtain q i e where p: "config_request_error q = None" "c = merged_config q e" "e \<in> set (abConfigs seen) \<or> e = AgentConfigDefaults i"
      by (rule update_config_plan_cases [OF 2(1)]) blast
    have "config_row_ok e" using p(3) configure.IH(2) defaults_ok by (auto simp: configs_ok_def)
    then have "config_row_ok c" using merged_ok p by blast
    then show ?thesis using configure.IH(1) put_config_set [of c "abConfigs db"] by (auto simp: configs_ok_def 2(3))
  qed
next
  case (activity db h)
  then show ?case by (simp add: configs_ok_def)
qed

text \<open>A configuration update is the request over the stored row, for the own agents only. A
  request that succeeds writes the configuration of an agent of the caller's organisation, gives
  each field of the request, and each absent one as it was stored, and every later read gives
  the same answer; a request that is refused changes nothing, and no other row ever changes.\<close>

theorem config_update_merges:
  assumes "UpdateAgentConfig env cd agErr cfErr seen upErr uc raw body db = (ans, db')"
  shows "(\<exists>e. ans = Inl e) \<and> db' = db
    \<or> (\<exists>q i resp. body = Some q \<and> peParseUUID (aePg env) raw = Some i \<and> ans = Inr (200, resp)
        \<and> (\<exists>a\<in>set (abAgents db). awID a = i \<and> awOrgID a = ucOrgID uc)
        \<and> (\<exists>e. (e \<in> set (abConfigs seen) \<and> acfAgentID e = i \<or> e = AgentConfigDefaults i) \<and> resp = agentConfigToResp cd (merged_config q e))
        \<and> GetAgentConfig env cd None None uc raw db' = Inr (200, resp)
        \<and> filter (\<lambda>c. acfAgentID c \<noteq> i) (abConfigs db') = filter (\<lambda>c. acfAgentID c \<noteq> i) (abConfigs db))"
proof (cases rule: UpdateAgentConfig_cases [OF assms])
  case (1 e)
  then show ?thesis by simp
next
  case (2 c)
  obtain q i e where p: "body = Some q" "peParseUUID (aePg env) raw = Some i" "c = merged_config q e"
      "e \<in> set (abConfigs seen) \<and> acfAgentID e = i \<or> e = AgentConfigDefaults i"
    by (rule update_config_plan_cases [OF 2(1)]) blast
  have c: "acfAgentID c = i" using p(4) by (auto simp: p(3) merged_config_def AgentConfigDefaults_def)
  have own: "\<exists>a\<in>set (abAgents db). awID a = i \<and> awOrgID a = ucOrgID uc" using 2(4) c by simp
  have rest: "filter (\<lambda>x. acfAgentID x \<noteq> i) (abConfigs db') = filter (\<lambda>x. acfAgentID x \<noteq> i) (abConfigs db)"
  proof -
    have "filter (\<lambda>x. acfAgentID x \<noteq> i) (map (\<lambda>x. if acfAgentID x = i then c else x) cs) = filter (\<lambda>x. acfAgentID x \<noteq> i) cs" for cs
      by (induction cs) (simp_all add: c)
    then show ?thesis by (simp add: 2(3) put_config_def c)
  qed
  have found: "List.find (\<lambda>x. acfAgentID x = i) (put_config c cs) = Some c" for cs
  proof (cases "list_ex (\<lambda>x. acfAgentID x = i) cs")
    case True
    then have "List.find (\<lambda>x. acfAgentID x = i) (map (\<lambda>x. if acfAgentID x = i then c else x) cs) = Some c"
      by (induction cs) (auto simp: c)
    then show ?thesis using True by (simp add: put_config_def c)
  next
    case False
    then have "List.find (\<lambda>x. acfAgentID x = i) (cs @ [c]) = Some c" by (induction cs) (auto simp: c)
    then show ?thesis using False by (simp add: put_config_def c)
  qed
  obtain a where "store_GetAgent None i (ucOrgID uc) db' = Inr a"
    using own find_None_set [of "of_agent i (ucOrgID uc)" "abAgents db"]
    by (cases "List.find (of_agent i (ucOrgID uc)) (abAgents db)") (auto simp: store_GetAgent_def 2(3) of_agent_def)
  then have "GetAgentConfig env cd None None uc raw db' = Inr (200, agentConfigToResp cd c)"
    by (simp add: GetAgentConfig_def p(2) store_GetAgentConfig_def 2(3) found)
  then show ?thesis using p own rest 2(2) by blast
qed

section \<open>From the stored row to the endpoint\<close>

text \<open>How the API writes its answers: the JSON of a configuration, and of an error.\<close>

record api_codec =
  apConfig :: "AgentConfigResp \<Rightarrow> string"
  apError :: "config_error \<Rightarrow> string"

definition respond :: "api_codec \<Rightarrow> AgentConfigResp config_answer \<Rightarrow> int \<times> string" where
  "respond ac ans = (case ans of Inl e \<Rightarrow> (fst (fst e), apError ac e) | Inr (status, resp) \<Rightarrow> (status, apConfig ac resp))"

text \<open>What the members of the endpoint's configuration decode to; the other members are ignored.\<close>

definition wire_of :: "AgentConfigResp \<Rightarrow> config_wire" where
  "wire_of r = \<lparr>cwConfigVersion = Some (rsConfigVersion r), cwScanIntervalSeconds = Some (rsScanIntervalSeconds r),
     cwEnabledScanners = Some (rsEnabledScanners r), cwModelScanPaths = Some (rsModelScanPaths r), cwModelFileSizeMB = Some (rsModelFileSizeMB r),
     cwMaxReportSizeBytes = Some (rsMaxReportSizeBytes r)\<rparr>"

lemma served_row_parses:
  assumes "config_row_ok c" "cdDecode cd body = Inr (wire_of (agentConfigToResp cd c))"
  shows "ParseResponse cd body = Inr \<lparr>upVersioned = True, upVersion = store_Version cd c, upConfig = remote_of c,
    upHasInterval = False, upHasScanners = False, upHasPaths = False\<rparr>"
proof -
  have v: "store_Version cd c \<noteq> []" "config_Version cd (remote_of c) = store_Version cd c"
    by (simp_all add: store_Version_def versions_agree [symmetric])
  have ok: "config_Validate (remote_of c) = []" using assms(1) by (simp add: config_row_ok_def)
  have c: "\<lparr>rcScanIntervalSeconds = acfScanIntervalSeconds c, rcEnabledScanners = acfEnabledScanners c, rcModelScanPaths = acfModelScanPaths c,
     rcModelFileSizeMB = acfModelFileSizeMB c, rcMaxReportSizeBytes = acfMaxReportSizeBytes c\<rparr> = remote_of c" by (simp add: remote_of_def)
  show ?thesis
    by (simp add: ParseResponse_def assms(2) wire_of_def agentConfigToResp_def v ok c Let_def)
qed

lemma AgentRemoteConfig_linked:
  assumes "agentID \<noteq> []" "GetDefaultOrgID None orgs = Inr orgID" "ResolveEndpointGatewayAgent None eps orgID agentID = Inr (Some i)"
  shows "\<exists>c. AgentRemoteConfig cd None None None orgs eps agentID db = Inr (200, agentConfigToResp cd c)
    \<and> (c \<in> set (abConfigs db) \<and> acfAgentID c = i \<or> c = AgentConfigDefaults i \<and> i \<notin> acfAgentID ` set (abConfigs db))"
proof (cases "List.find (\<lambda>c. acfAgentID c = i) (abConfigs db)")
  case None
  then have "i \<notin> acfAgentID ` set (abConfigs db)" by (auto simp: find_None_set)
  then show ?thesis using assms None by (intro exI [of _ "AgentConfigDefaults i"]) (simp add: AgentRemoteConfig_def store_GetAgentConfig_def)
next
  case (Some c)
  then show ?thesis using assms find_Some_set [OF Some] by (intro exI [of _ c]) (simp add: AgentRemoteConfig_def store_GetAgentConfig_def)
qed

text \<open>C15: A stored configuration reaches its endpoint as it is stored. In every state that requests
  of the admin API lead to, when the endpoint is linked to the agent and polls through the
  collector, the statements and calls succeed and the answer decodes to what was encoded, the
  endpoint accepts the row: it reports the version of the row and runs with exactly its interval,
  scanners, folders and sizes. The server never serves what the endpoint would reject.\<close>

theorem stored_config_reaches_agent:
  assumes "config_reachable env cd db"
    and "GetDefaultOrgID None orgs = Inr orgID" "ResolveEndpointGatewayAgent None eps orgID agentID = Inr (Some i)"
    and "agentID \<noteq> []" "auth = None \<or> auth = Some agentID" "saasURL \<noteq> []"
    and "usURLError up (uqURL (proxy_request saasURL serviceKey agentID)) = None"
    and "usDo up (proxy_request saasURL serviceKey agentID) = Inr (respond ac (AgentRemoteConfig cd None None None orgs eps agentID db))"
    and "\<forall>resp. AgentRemoteConfig cd None None None orgs eps agentID db = Inr (200, resp)
        \<longrightarrow> cdDecode cd (apConfig ac resp) = Inr (wire_of resp) \<and> length (apConfig ac resp) \<le> MaxResponseBytes"
    and "ConfigProxyHandler saasURL serviceKey up auth agentID = ((status, body), reqs)"
    and "mgr_Apply cd ao (FetchConfig None (Inr (status, Inr body))) m disk = (m', disk')"
  shows "\<exists>c. (c \<in> set (abConfigs db) \<and> acfAgentID c = i \<or> c = AgentConfigDefaults i \<and> i \<notin> acfAgentID ` set (abConfigs db))
    \<and> csVersion (mgr_Status m') = store_Version cd c \<and> csMaxReportSize (mgr_Status m') = acfMaxReportSizeBytes c
    \<and> mgr_Snapshot m' = (mgBase m)\<lparr>lcIntervalSecs := acfScanIntervalSeconds c, lcScanners := acfEnabledScanners c,
        lcModelFileScanPaths := acfModelScanPaths c, lcMinModelSizeMB := acfModelFileSizeMB c\<rparr>"
proof -
  obtain c where c: "AgentRemoteConfig cd None None None orgs eps agentID db = Inr (200, agentConfigToResp cd c)"
    "c \<in> set (abConfigs db) \<and> acfAgentID c = i \<or> c = AgentConfigDefaults i \<and> i \<notin> acfAgentID ` set (abConfigs db)"
    using AgentRemoteConfig_linked [OF assms(4,2,3)] by blast
  let ?body = "apConfig ac (agentConfigToResp cd c)"
  have ok: "config_row_ok c" using c(2) reachable_configs_ok [OF assms(1)] defaults_ok by (auto simp: configs_ok_def)
  have dec: "cdDecode cd ?body = Inr (wire_of (agentConfigToResp cd c))" "length ?body \<le> MaxResponseBytes" using assms(9) c(1) by blast+
  have "\<not> (case auth of Some a \<Rightarrow> a \<noteq> agentID | None \<Rightarrow> False)" using assms(5) by auto
  then have "(status, body) = (200, ?body)"
    using assms(4,6,7,8,10) by (simp add: ConfigProxyHandler_def Let_def c(1) respond_def split: sum.splits)
  then have r: "FetchConfig None (Inr (status, Inr body)) = \<lparr>frStatus = 200, frBody = ?body, frTooLarge = False, frErr = None\<rparr>"
    using dec(2) by (simp add: FetchConfig_def Let_def)
  note parse = served_row_parses [OF ok dec(1)]
  have known: "filter (\<lambda>n. n \<in> set agent_AllScanners) (acfEnabledScanners c) = acfEnabledScanners c"
    using ok by (auto simp: config_row_ok_def intro: filter_True)
  let ?m = "applyVersioned (remote_of c) (store_Version cd c) (m\<lparr>mgConsecutive404 := 0\<rparr>)"
  have "mgBase m' = mgBase ?m \<and> mgCur m' = mgCur ?m \<and> mgHaveRemote m' = mgHaveRemote ?m \<and> mgVersioned m' = mgVersioned ?m \<and> mgVersion m' = mgVersion ?m"
    using assms(11) unfolding r by (auto simp: mgr_Apply_def parse Let_def mgr_reject_def split: option.splits prod.splits if_splits)
  then have "csVersion (mgr_Status m') = store_Version cd c \<and> csMaxReportSize (mgr_Status m') = acfMaxReportSizeBytes c
      \<and> mgr_Snapshot m' = (mgBase m)\<lparr>lcIntervalSecs := acfScanIntervalSeconds c, lcScanners := acfEnabledScanners c,
          lcModelFileScanPaths := acfModelScanPaths c, lcMinModelSizeMB := acfModelFileSizeMB c\<rparr>"
    by (simp add: mgr_Status_def mgr_Snapshot_def remote_of_def known)
  then show ?thesis using c(2) by blast
qed

section \<open>An example\<close>

definition sample_config_request :: AgentConfigUpdateRequest where
  "sample_config_request = \<lparr>cuScanIntervalSeconds = Some 600, cuModelScanPaths = None, cuMaxReportSizeBytes = None,
     cuEnabledScanners = Some [''gpu''], cuModelFileSizeMB = None\<rparr>"

lemma sample_config_updated:
  "\<exists>resp db'. UpdateAgentConfig sample_agent_env sample_codec None None sample_agents None sample_operator ''a1'' (Some sample_config_request) sample_agents
     = (Inr (200, resp), db') \<and> rsScanIntervalSeconds resp = 600"
  by (simp add: UpdateAgentConfig_def update_config_plan_def config_request_error_def sample_config_request_def out_of_def given_list_def server_bounds
      IsKnownScanner_def AllScanners_def ValidateModelScanPaths_def store_GetAgent_def store_GetAgentConfig_def sample_agent_env_def sample_policy_env_def
      sample_agents_def sample_operator_def sample_claims_def new_agent_def of_agent_def AgentConfigDefaults_def store_UpsertAgentConfig_def
      merged_config_def or_old_def agentConfigToResp_def Let_def)

lemma config_update_merges_witness:
  "\<exists>resp db'. GetAgentConfig sample_agent_env sample_codec None None sample_operator ''a1'' db' = Inr (200, resp) \<and> rsScanIntervalSeconds resp = 600"
proof -
  obtain resp db' where u: "UpdateAgentConfig sample_agent_env sample_codec None None sample_agents None sample_operator ''a1'' (Some sample_config_request) sample_agents
      = (Inr (200, resp), db')" "rsScanIntervalSeconds resp = 600"
    using sample_config_updated by blast
  from config_update_merges [OF u(1)] u(2) show ?thesis by auto
qed

definition sample_api_codec :: api_codec where
  "sample_api_codec = \<lparr>apConfig = (\<lambda>r. frame_strings (rsConfigVersion r # config_fields \<lparr>rcScanIntervalSeconds = rsScanIntervalSeconds r,
       rcEnabledScanners = rsEnabledScanners r, rcModelScanPaths = rsModelScanPaths r, rcModelFileSizeMB = rsModelFileSizeMB r,
       rcMaxReportSizeBytes = rsMaxReportSizeBytes r\<rparr>)), apError = (\<lambda>e. snd (snd (fst e)))\<rparr>"

lemma sample_api_codec_decodes: "cdDecode sample_codec (apConfig sample_api_codec r) = Inr (wire_of r)"
  by (simp add: sample_codec_def sample_api_codec_def wire_of_def)

lemma sample_api_codec_short: "length (apConfig sample_api_codec (agentConfigToResp sample_codec (AgentConfigDefaults ''a1''))) \<le> MaxResponseBytes"
proof -
  have "length (store_Version sample_codec (AgentConfigDefaults ''a1'')) = 5" by (simp add: store_Version_def sample_codec_def)
  then show ?thesis
    by (simp add: sample_api_codec_def MaxResponseBytes_def length_frame_strings config_fields_def with_count_def print_int_def binary_digits.simps
        agentConfigToResp_def AgentConfigDefaults_def AllScanners_def)
qed

lemma sample_agents_reachable: "config_reachable sample_agent_env sample_codec sample_agents"
proof -
  let ?q = "\<lparr>crName = ''bot'', crModel = ''m'', crOwner = ''o'', crScope = ''read:crm'', crRiskTier = ''low'', crTokenTTLSeconds = None\<rparr>"
  have "CreateAgent sample_agent_env None None (Some (ErrText ''down'')) ''a1'' sample_claims (Some ?q)
      \<lparr>abAgents = [], abConfigs = [], abEvents = [], abHistory = []\<rparr> = (Inr (201, agentToResp (new_agent ''a1'' sample_claims ?q)), sample_agents)"
    by (simp add: CreateAgent_def isValidRiskTier_def store_CreateAgent_def agent_checks_def new_agent_def store_SeedAgentConfig_def seed_config_def
        InsertAgentLifecycleEvent_def sample_agents_def AgentConfigDefaults_def)
  then show ?thesis by (rule config_reachable.create [OF config_reachable.empty])
qed

definition sample_orgs :: "org_row list" where
  "sample_orgs = [\<lparr>ogID = ''o1'', ogCreatedAt = 0\<rparr>]"

definition sample_links :: "endpoint_link list" where
  "sample_links = [\<lparr>elOrgID = ''o1'', elAgentID = ''host-1'', elGatewayAgentID = Some ''a1''\<rparr>]"

lemma stored_config_reaches_agent_witness:
  "\<exists>m' disk' body. mgr_Apply sample_codec sample_round (FetchConfig None (Inr (200, Inr body))) (NewManager sample_local True sample_identity) None = (m', disk')
     \<and> lcIntervalSecs (mgr_Snapshot m') = 300"
proof -
  let ?ans = "AgentRemoteConfig sample_codec None None None sample_orgs sample_links ''host-1'' sample_agents"
  let ?up = "\<lparr>usURLError = (\<lambda>_. None), usDo = (\<lambda>_. Inr (respond sample_api_codec ?ans))\<rparr>"
  have org: "GetDefaultOrgID None sample_orgs = Inr ''o1''" by (simp add: GetDefaultOrgID_def sample_orgs_def)
  have link: "ResolveEndpointGatewayAgent None sample_links ''o1'' ''host-1'' = Inr (Some ''a1'')"
    by (simp add: ResolveEndpointGatewayAgent_def sample_links_def)
  have rows: "abConfigs sample_agents = [AgentConfigDefaults ''a1'']" by (simp add: sample_agents_def)
  have a1: "acfAgentID (AgentConfigDefaults ''a1'') = ''a1''" by (simp add: AgentConfigDefaults_def)
  have ans: "?ans = Inr (200, agentConfigToResp sample_codec (AgentConfigDefaults ''a1''))"
    by (simp add: AgentRemoteConfig_def org link store_GetAgentConfig_def rows a1)
  let ?body = "apConfig sample_api_codec (agentConfigToResp sample_codec (AgentConfigDefaults ''a1''))"
  have id: "''host-1'' \<noteq> []" "Some ''host-1'' = None \<or> Some ''host-1'' = Some ''host-1''" "''https://api'' \<noteq> []" by simp_all
  have url: "usURLError ?up (uqURL (proxy_request ''https://api'' ''k'' ''host-1'')) = None" by simp
  have call: "usDo ?up (proxy_request ''https://api'' ''k'' ''host-1'') = Inr (respond sample_api_codec ?ans)" by simp
  have codec: "\<forall>resp. ?ans = Inr (200, resp) \<longrightarrow>
      cdDecode sample_codec (apConfig sample_api_codec resp) = Inr (wire_of resp) \<and> length (apConfig sample_api_codec resp) \<le> MaxResponseBytes"
    using sample_api_codec_short by (simp add: ans sample_api_codec_decodes)
  have proxy: "ConfigProxyHandler ''https://api'' ''k'' ?up (Some ''host-1'') ''host-1'' = ((200, ?body), [proxy_request ''https://api'' ''k'' ''host-1''])"
    by (simp add: ConfigProxyHandler_def Let_def ans respond_def)
  obtain m' disk' where m: "mgr_Apply sample_codec sample_round (FetchConfig None (Inr (200, Inr ?body))) (NewManager sample_local True sample_identity) None = (m', disk')"
    by force
  obtain c where "c \<in> set (abConfigs sample_agents) \<and> acfAgentID c = ''a1'' \<or> c = AgentConfigDefaults ''a1'' \<and> ''a1'' \<notin> acfAgentID ` set (abConfigs sample_agents)"
    "mgr_Snapshot m' = (mgBase (NewManager sample_local True sample_identity))\<lparr>lcIntervalSecs := acfScanIntervalSeconds c, lcScanners := acfEnabledScanners c,
        lcModelFileScanPaths := acfModelScanPaths c, lcMinModelSizeMB := acfModelFileSizeMB c\<rparr>"
    using stored_config_reaches_agent [OF sample_agents_reachable org link id url call codec proxy m] by blast
  then have "c = AgentConfigDefaults ''a1''" "lcIntervalSecs (mgr_Snapshot m') = acfScanIntervalSeconds c" by (auto simp: rows)
  then have "lcIntervalSecs (mgr_Snapshot m') = 300" by (simp add: AgentConfigDefaults_def)
  with m show ?thesis by blast
qed

end
