(* ===== verification/Net_Guard.thy ===== *)
theory Net_Guard
  imports Gateway_Prelude
begin

text \<open>
  The outbound-connection guard of the admin API (eami-api
  \<^verbatim>\<open>internal/netguard/netguard.go\<close>): which addresses may never be connected to, the IPv6
  forms that carry an IPv4 address, the guarded dial and the HTTP client built on it.
  \<^item> \<^verbatim>\<open>net.IP\<close> is a list of bytes, \<^verbatim>\<open>netip.Addr\<close> a 32-bit or a 128-bit word and
    \<^verbatim>\<open>netip.Prefix\<close> a word with a length, compared on the high bits as \<^verbatim>\<open>Contains\<close> does;
    \<^verbatim>\<open>IsPrivate\<close> and its siblings are the ranges the package documents.
  \<^item> Parsing and printing a literal address, the resolver and the dialer of the machine
    are the environment \<^verbatim>\<open>net_env\<close>; nothing is assumed of them, so a resolver that
    answers differently on every call is covered.
  \<^item> The lemmas turn the bit tests into intervals of addresses, and show that only
    addresses that pass the guard are ever dialled, in the resolver's order.
\<close>

unbundle bit_operations_syntax

section \<open>Addresses and prefixes\<close>

type_synonym ip = "8 word list"

datatype addr = V4 "32 word" | V6 "128 word"

datatype ip_prefix = P4 "32 word" nat | P6 "128 word" nat

definition be_word :: "8 word list \<Rightarrow> 'a::len word" where
  "be_word bs = foldl (\<lambda>a b. push_bit 8 a OR ucast b) 0 bs"

definition AddrFromSlice :: "ip \<Rightarrow> addr option" where
  "AddrFromSlice bs = (if length bs = 4 then Some (V4 (be_word bs))
     else if length bs = 16 then Some (V6 (be_word bs)) else None)"

fun Unmap :: "addr \<Rightarrow> addr" where
  "Unmap (V4 a) = V4 a"
| "Unmap (V6 a) = (if drop_bit 32 a = 0xffff then V4 (ucast a) else V6 a)"

definition As16 :: "128 word \<Rightarrow> 8 word list" where
  "As16 a = map (\<lambda>i. ucast (drop_bit (8 * (15 - i)) a)) [0..<16]"

fun prefix_contains :: "ip_prefix \<Rightarrow> addr \<Rightarrow> bool" where
  "prefix_contains (P4 p l) (V4 a) = (drop_bit (32 - l) (a XOR p) = 0)"
| "prefix_contains (P6 p l) (V6 a) = (drop_bit (128 - l) (a XOR p) = 0)"
| "prefix_contains (P4 _ _) (V6 _) = False"
| "prefix_contains (P6 _ _) (V4 _) = False"

text \<open>Dotted quads and groups of sixteen bits, for the literals of the source.\<close>

definition quad :: "nat \<Rightarrow> nat \<Rightarrow> nat \<Rightarrow> nat \<Rightarrow> nat" where
  "quad a b c d = ((a * 256 + b) * 256 + c) * 256 + d"

definition hextets :: "nat list \<Rightarrow> nat" where
  "hextets gs = foldl (\<lambda>n g. n * 65536 + g) 0 gs"

abbreviation v4p :: "nat \<Rightarrow> nat \<Rightarrow> nat \<Rightarrow> nat \<Rightarrow> nat \<Rightarrow> ip_prefix" where
  "v4p a b c d l \<equiv> P4 (of_nat (quad a b c d)) l"

abbreviation v6p :: "nat list \<Rightarrow> nat \<Rightarrow> ip_prefix" where
  "v6p gs l \<equiv> P6 (of_nat (hextets gs)) l"

section \<open>Classification of the standard library\<close>

definition IsLoopback :: "addr \<Rightarrow> bool" where
  "IsLoopback a = (prefix_contains (v4p 127 0 0 0 8) a \<or> a = V6 1)"

definition IsPrivate :: "addr \<Rightarrow> bool" where
  "IsPrivate a = list_ex (\<lambda>p. prefix_contains p a)
     [v4p 10 0 0 0 8, v4p 172 16 0 0 12, v4p 192 168 0 0 16, v6p [0xfc00,0,0,0,0,0,0,0] 7]"

definition IsLinkLocalUnicast :: "addr \<Rightarrow> bool" where
  "IsLinkLocalUnicast a = list_ex (\<lambda>p. prefix_contains p a)
     [v4p 169 254 0 0 16, v6p [0xfe80,0,0,0,0,0,0,0] 10]"

text \<open>Link-local multicast is 224.0.0.0/24 and any ffx2 group, interface-local multicast any
  ffx1 group.\<close>

fun IsLinkLocalMulticast :: "addr \<Rightarrow> bool" where
  "IsLinkLocalMulticast (V4 a) = prefix_contains (v4p 224 0 0 0 24) (V4 a)"
| "IsLinkLocalMulticast (V6 a) = (drop_bit 112 a AND 0xff0f = 0xff02)"

fun IsInterfaceLocalMulticast :: "addr \<Rightarrow> bool" where
  "IsInterfaceLocalMulticast (V4 a) = False"
| "IsInterfaceLocalMulticast (V6 a) = (drop_bit 112 a AND 0xff0f = 0xff01)"

definition IsMulticast :: "addr \<Rightarrow> bool" where
  "IsMulticast a = list_ex (\<lambda>p. prefix_contains p a)
     [v4p 224 0 0 0 4, v6p [0xff00,0,0,0,0,0,0,0] 8]"

definition IsUnspecified :: "addr \<Rightarrow> bool" where
  "IsUnspecified a = (a = V4 0 \<or> a = V6 0)"

section \<open>The guard\<close>

definition blockedPrefixes :: "ip_prefix list" where
  "blockedPrefixes =
    [v4p 0 0 0 0 8, v4p 100 64 0 0 10, v4p 192 0 0 0 24, v4p 192 0 2 0 24, v4p 198 18 0 0 15,
     v4p 198 51 100 0 24, v4p 203 0 113 0 24, v4p 240 0 0 0 4,
     v6p [0x2001,0,0,0,0,0,0,0] 32, v6p [0x2001,0xdb8,0,0,0,0,0,0] 32,
     v6p [0x64,0xff9b,1,0,0,0,0,0] 48, v6p [0xfec0,0,0,0,0,0,0,0] 10]"

definition ipv4CompatPrefix :: ip_prefix where "ipv4CompatPrefix = v6p [0,0,0,0,0,0,0,0] 96"
definition nat64Prefix :: ip_prefix where "nat64Prefix = v6p [0x64,0xff9b,0,0,0,0,0,0] 96"
definition siitPrefix :: ip_prefix where "siitPrefix = v6p [0,0,0,0,0xffff,0,0,0] 96"
definition sixToFourPrefix :: ip_prefix where "sixToFourPrefix = v6p [0x2002,0,0,0,0,0,0,0] 16"

definition isBlockedAddr :: "addr \<Rightarrow> bool" where
  "isBlockedAddr a = (if IsLoopback a \<or> IsPrivate a \<or> IsLinkLocalUnicast a \<or> IsLinkLocalMulticast a
       \<or> IsInterfaceLocalMulticast a \<or> IsMulticast a \<or> IsUnspecified a then True
     else list_ex (\<lambda>p. prefix_contains p a) blockedPrefixes)"

fun embeddedIPv4 :: "addr \<Rightarrow> addr option" where
  "embeddedIPv4 (V4 a) = None"
| "embeddedIPv4 (V6 a) = (let b = As16 a in
     if prefix_contains nat64Prefix (V6 a) \<or> prefix_contains ipv4CompatPrefix (V6 a) \<or> prefix_contains siitPrefix (V6 a)
     then Some (V4 (be_word [b ! 12, b ! 13, b ! 14, b ! 15]))
     else if prefix_contains sixToFourPrefix (V6 a) then Some (V4 (be_word [b ! 2, b ! 3, b ! 4, b ! 5]))
     else None)"

definition IsBlocked :: "ip \<Rightarrow> bool" where
  "IsBlocked ip = (case AddrFromSlice ip of
     None \<Rightarrow> True
   | Some a0 \<Rightarrow> (let a = Unmap a0 in
       (case embeddedIPv4 a of Some v4 \<Rightarrow> isBlockedAddr v4 | None \<Rightarrow> False) \<or> isBlockedAddr a))"

section \<open>The guarded dial\<close>

definition addr_error :: "string \<Rightarrow> string \<Rightarrow> go_error" where
  "addr_error a why = ErrText (''address '' @ a @ '': '' @ why)"

definition last_index :: "string \<Rightarrow> char \<Rightarrow> nat option" where
  "last_index s c = map_option (\<lambda>j. length s - 1 - j) (index_byte (rev s) c)"

text \<open>\<^verbatim>\<open>net.SplitHostPort\<close> and \<^verbatim>\<open>net.JoinHostPort\<close>.\<close>

definition split_rest :: "string \<Rightarrow> string \<Rightarrow> nat \<Rightarrow> nat \<Rightarrow> nat \<Rightarrow> (string \<times> string) result" where
  "split_rest hp host i j k =
    (if CHR ''['' \<in> set (drop j hp) then Inl (addr_error hp ''unexpected '[' in address'')
     else if CHR '']'' \<in> set (drop k hp) then Inl (addr_error hp ''unexpected ']' in address'')
     else Inr (host, drop (Suc i) hp))"

definition SplitHostPort :: "string \<Rightarrow> (string \<times> string) result" where
  "SplitHostPort hp = (case last_index hp CHR '':'' of
     None \<Rightarrow> Inl (addr_error hp ''missing port in address'')
   | Some i \<Rightarrow>
       if hd hp = CHR ''['' then
         (case index_byte hp CHR '']'' of
            None \<Rightarrow> Inl (addr_error hp ''missing ']' in address'')
          | Some e \<Rightarrow>
              if Suc e = length hp then Inl (addr_error hp ''missing port in address'')
              else if Suc e = i then split_rest hp (drop 1 (take e hp)) i 1 (Suc e)
              else if hp ! Suc e = CHR '':'' then Inl (addr_error hp ''too many colons in address'')
              else Inl (addr_error hp ''missing port in address''))
       else if CHR '':'' \<in> set (take i hp) then Inl (addr_error hp ''too many colons in address'')
       else split_rest hp (take i hp) i 0 0)"

definition JoinHostPort :: "string \<Rightarrow> string \<Rightarrow> string" where
  "JoinHostPort host port =
    (if CHR '':'' \<in> set host \<or> CHR ''%'' \<in> set host then ''['' @ host @ '']:'' @ port
     else host @ '':'' @ port)"

text \<open>Parsing and printing of literal addresses, the resolver (\<^verbatim>\<open>None\<close> for a nil error) and the
  dialer, which answers a connection or an error.\<close>

record 'c net_env =
  neParseIP :: "string \<Rightarrow> ip option"
  neIPString :: "ip \<Rightarrow> string"
  neLookupIPAddr :: "string \<Rightarrow> ip list result"
  neDial :: "string \<Rightarrow> string \<Rightarrow> 'c result"

definition ErrBlockedAddress :: go_error where
  "ErrBlockedAddress = ErrText ''connections to loopback/link-local/private addresses are not permitted''"

definition resolve_host :: "'c net_env \<Rightarrow> string \<Rightarrow> ip list result" where
  "resolve_host env host = (case neParseIP env host of Some ip \<Rightarrow> Inr [ip] | None \<Rightarrow> neLookupIPAddr env host)"

text \<open>The loop over the validated addresses: the targets dialled, in order, and the first
  connection or the last error.\<close>

fun dial_each :: "'c net_env \<Rightarrow> string \<Rightarrow> string \<Rightarrow> ip list \<Rightarrow> go_error option \<Rightarrow> string list \<times> (go_error option + 'c)" where
  "dial_each env network port [] lastErr = ([], Inl lastErr)"
| "dial_each env network port (ip # ips) lastErr =
     (let target = JoinHostPort (neIPString env ip) port
      in case neDial env network target of
           Inr conn \<Rightarrow> ([target], Inr conn)
         | Inl err \<Rightarrow> (case dial_each env network port ips (Some err) of (ts, r) \<Rightarrow> (target # ts, r)))"

definition DialContext :: "'c net_env \<Rightarrow> string \<Rightarrow> string \<Rightarrow> string list \<times> (go_error option + 'c)" where
  "DialContext env network addr = (case SplitHostPort addr of
     Inl err \<Rightarrow> ([], Inl (Some err))
   | Inr (host, port) \<Rightarrow>
       (case resolve_host env host of
          Inl err \<Rightarrow> ([], Inl (Some err))
        | Inr resolved \<Rightarrow>
            if resolved = [] then ([], Inl (Some (ErrText (''no addresses resolved for '' @ go_quote host))))
            else if list_ex IsBlocked resolved then ([], Inl (Some ErrBlockedAddress))
            else dial_each env network port resolved None))"

text \<open>The client: no proxy, one bounded exchange, and a redirect answered to the caller as it
  came (\<^verbatim>\<open>http.ErrUseLastResponse\<close>).\<close>

datatype redirect_policy = UseLastResponse | FollowRedirects nat

record 'c http_client =
  hcTimeout :: duration
  hcProxy :: "string option"
  hcDial :: "string \<Rightarrow> string \<Rightarrow> string list \<times> (go_error option + 'c)"
  hcTLSHandshakeTimeout :: duration
  hcResponseHeaderTimeout :: duration
  hcMaxIdleConns :: int
  hcIdleConnTimeout :: duration
  hcCheckRedirect :: redirect_policy

definition NewHTTPClient :: "(string \<Rightarrow> string \<Rightarrow> string list \<times> (go_error option + 'c)) \<Rightarrow> duration \<Rightarrow> 'c http_client" where
  "NewHTTPClient dial timeout =
    \<lparr> hcTimeout = timeout, hcProxy = None, hcDial = dial, hcTLSHandshakeTimeout = timeout,
      hcResponseHeaderTimeout = timeout, hcMaxIdleConns = 10, hcIdleConnTimeout = 30 * second,
      hcCheckRedirect = UseLastResponse \<rparr>"

section \<open>Prefixes as intervals\<close>

lemma word_xor_zero_iff: "x XOR y = 0 \<longleftrightarrow> x = y" for x y :: "'a::len word"
  by (metis xor.assoc xor.left_neutral xor.right_neutral xor_self_eq)

lemma drop_xor_zero_iff: "drop_bit k (a XOR p) = 0 \<longleftrightarrow> unat a div 2 ^ k = unat p div 2 ^ k"
  for a p :: "'a::len word"
proof -
  have "drop_bit k (a XOR p) = 0 \<longleftrightarrow> drop_bit k a = drop_bit k p"
    by (simp add: drop_bit_xor word_xor_zero_iff)
  also have "\<dots> \<longleftrightarrow> unat (drop_bit k a) = unat (drop_bit k p)"
    by (simp add: word_unat_eq_iff)
  finally show ?thesis by (simp only: unat_drop_bit_eq) (simp only: drop_bit_eq_div)
qed

lemma div_interval: "(n::nat) div 2 ^ k = c \<longleftrightarrow> c * 2 ^ k \<le> n \<and> n \<le> c * 2 ^ k + (2 ^ k - 1)"
proof -
  have p: "0 < (2::nat) ^ k" by simp
  have "n div 2 ^ k = c \<longleftrightarrow> c * 2 ^ k \<le> n \<and> n < Suc c * 2 ^ k"
  proof
    assume "n div 2 ^ k = c"
    then show "c * 2 ^ k \<le> n \<and> n < Suc c * 2 ^ k"
      using dividend_less_div_times [OF p, of n] div_times_less_eq_dividend [of n "2 ^ k"] by simp
  next
    assume "c * 2 ^ k \<le> n \<and> n < Suc c * 2 ^ k"
    then show "n div 2 ^ k = c" by (intro div_nat_eqI) (simp_all add: mult.commute)
  qed
  moreover have "n < Suc c * 2 ^ k \<longleftrightarrow> n \<le> c * 2 ^ k + (2 ^ k - 1)"
    using p by (cases "(2::nat) ^ k") auto
  ultimately show ?thesis by simp
qed

lemma prefix_div:
  "prefix_contains (P4 p l) (V4 a) \<longleftrightarrow> unat a div 2 ^ (32 - l) = unat p div 2 ^ (32 - l)"
  "prefix_contains (P6 q l) (V6 b) \<longleftrightarrow> unat b div 2 ^ (128 - l) = unat q div 2 ^ (128 - l)"
  by (simp_all only: prefix_contains.simps drop_xor_zero_iff)

section \<open>The reference: intervals of the address registries\<close>

text \<open>The special-purpose addresses as first and last number, and the IPv4 address a number of
  128 bits carries.\<close>

definition special_v4 :: "(nat \<times> nat) list" where
  "special_v4 =
    [(quad 0 0 0 0, quad 0 255 255 255), (quad 10 0 0 0, quad 10 255 255 255),
     (quad 100 64 0 0, quad 100 127 255 255), (quad 127 0 0 0, quad 127 255 255 255),
     (quad 169 254 0 0, quad 169 254 255 255), (quad 172 16 0 0, quad 172 31 255 255),
     (quad 192 0 0 0, quad 192 0 0 255), (quad 192 0 2 0, quad 192 0 2 255),
     (quad 192 168 0 0, quad 192 168 255 255), (quad 198 18 0 0, quad 198 19 255 255),
     (quad 198 51 100 0, quad 198 51 100 255), (quad 203 0 113 0, quad 203 0 113 255),
     (quad 224 0 0 0, quad 255 255 255 255)]"

definition special_v6 :: "(nat \<times> nat) list" where
  "special_v6 =
    [(hextets [0,0,0,0,0,0,0,0], hextets [0,0,0,0,0,0,0,1]),
     (hextets [0x64,0xff9b,1,0,0,0,0,0], hextets [0x64,0xff9b,1,0xffff,0xffff,0xffff,0xffff,0xffff]),
     (hextets [0x2001,0,0,0,0,0,0,0], hextets [0x2001,0,0xffff,0xffff,0xffff,0xffff,0xffff,0xffff]),
     (hextets [0x2001,0xdb8,0,0,0,0,0,0], hextets [0x2001,0xdb8,0xffff,0xffff,0xffff,0xffff,0xffff,0xffff]),
     (hextets [0xfc00,0,0,0,0,0,0,0], hextets [0xfdff,0xffff,0xffff,0xffff,0xffff,0xffff,0xffff,0xffff]),
     (hextets [0xfe80,0,0,0,0,0,0,0], hextets [0xffff,0xffff,0xffff,0xffff,0xffff,0xffff,0xffff,0xffff])]"

definition inside :: "nat \<Rightarrow> nat \<Rightarrow> nat \<Rightarrow> bool" where
  "inside lo hi n = (lo \<le> n \<and> n \<le> hi)"

definition in_ranges :: "(nat \<times> nat) list \<Rightarrow> nat \<Rightarrow> bool" where
  "in_ranges rs n = list_ex (\<lambda>(lo, hi). inside lo hi n) rs"

definition carried_v4 :: "nat \<Rightarrow> nat option" where
  "carried_v4 n =
    (if n div 2 ^ 32 \<in> {hextets [0,0,0,0,0,0], hextets [0,0,0,0,0,0xffff], hextets [0,0,0,0,0xffff,0], hextets [0x64,0xff9b,0,0,0,0]}
     then Some (n mod 2 ^ 32)
     else if n div 2 ^ 112 = 0x2002 then Some (n div 2 ^ 80 mod 2 ^ 32)
     else None)"

definition number_of :: "ip \<Rightarrow> nat" where
  "number_of bs = foldl (\<lambda>n b. n * 256 + unat b) 0 bs"

definition refused :: "ip \<Rightarrow> bool" where
  "refused bs =
    (if length bs = 4 then in_ranges special_v4 (number_of bs)
     else if length bs = 16 then
       in_ranges special_v6 (number_of bs)
       \<or> (case carried_v4 (number_of bs) of Some m \<Rightarrow> in_ranges special_v4 m | None \<Rightarrow> False)
     else True)"

lemma contains_inside:
  "prefix_contains (P4 p l) (V4 a) \<longleftrightarrow> inside (unat p div 2 ^ (32 - l) * 2 ^ (32 - l)) (unat p div 2 ^ (32 - l) * 2 ^ (32 - l) + (2 ^ (32 - l) - 1)) (unat a)"
  "prefix_contains (P6 q l) (V6 b) \<longleftrightarrow> inside (unat q div 2 ^ (128 - l) * 2 ^ (128 - l)) (unat q div 2 ^ (128 - l) * 2 ^ (128 - l) + (2 ^ (128 - l) - 1)) (unat b)"
  by (simp_all only: prefix_div div_interval inside_def)

lemma inside_merge: "lo \<le> Suc m \<Longrightarrow> m \<le> hi \<Longrightarrow> inside lo m n \<or> inside (Suc m) hi n \<longleftrightarrow> inside lo hi n"
  by (auto simp: inside_def)

lemma inside_sub: "lo \<le> lo' \<Longrightarrow> hi' \<le> hi \<Longrightarrow> inside lo' hi' n \<Longrightarrow> inside lo hi n"
  by (auto simp: inside_def)

lemma isBlockedAddr_v4: "isBlockedAddr (V4 a) = in_ranges special_v4 (unat a)"
proof -
  have u: "inside 0 16777215 0" by (simp add: inside_def)
  have m: "inside 3758096384 4026531839 (unat a) \<or> inside 4026531840 4294967295 (unat a)
      \<longleftrightarrow> inside 3758096384 4294967295 (unat a)" by (auto simp: inside_def)
  have l: "inside 3758096384 3758096639 (unat a) \<Longrightarrow> inside 3758096384 4294967295 (unat a)"
    by (auto simp: inside_def)
  show ?thesis
    unfolding isBlockedAddr_def IsLoopback_def IsPrivate_def IsLinkLocalUnicast_def IsLinkLocalMulticast.simps
      IsInterfaceLocalMulticast.simps IsMulticast_def IsUnspecified_def blockedPrefixes_def in_ranges_def special_v4_def
    by (simp add: contains_inside quad_def word_unat_eq_iff u del: prefix_contains.simps(1)) (use m l in argo)
qed

text \<open>The link-local and interface-local groups are multicast groups.\<close>

lemma drop_120_byte: "drop_bit 120 a AND 255 = drop_bit 120 a" for a :: "128 word"
proof -
  have "drop_bit 120 a AND mask 8 = drop_bit 120 (take_bit 128 a)"
    by (simp add: take_bit_drop_bit flip: take_bit_eq_mask)
  then show ?thesis by (simp add: mask_eq_exp_minus_1 take_bit_word_eq_self)
qed

lemma local_groups_multicast:
  assumes "IsLinkLocalMulticast (V6 a) \<or> IsInterfaceLocalMulticast (V6 a)"
  shows "prefix_contains (v6p [0xff00,0,0,0,0,0,0,0] 8) (V6 a)"
proof -
  have "drop_bit 8 (drop_bit 112 a AND 0xff0f) = (0xff :: 128 word)"
    using assms by (auto simp del: drop_bit_and)
  then have "drop_bit 120 a = 0xff" by (simp add: drop_120_byte)
  then show ?thesis by (simp add: hextets_def drop_bit_xor)
qed

lemma isBlockedAddr_v6: "isBlockedAddr (V6 a) = in_ranges special_v6 (unat a)"
proof -
  have m: "inside 0 (Suc 0) (unat a) \<longleftrightarrow> unat a = 0 \<or> unat a = Suc 0"
    "inside 338288524927261089654018896841347694592 340282366920938463463374607431768211455 (unat a)
     \<longleftrightarrow> inside 338288524927261089654018896841347694592 338620831926207318622244848606417780735 (unat a)
     \<or> inside 338620831926207318622244848606417780736 338953138925153547590470800371487866879 (unat a)
     \<or> inside 338953138925153547590470800371487866880 340282366920938463463374607431768211455 (unat a)"
    by (auto simp: inside_def)
  have mc: "IsLinkLocalMulticast (V6 a) \<or> IsInterfaceLocalMulticast (V6 a) \<or> IsMulticast (V6 a)
      \<longleftrightarrow> prefix_contains (v6p [0xff00,0,0,0,0,0,0,0] 8) (V6 a)"
    using local_groups_multicast [of a] by (auto simp: IsMulticast_def)
  have b: "isBlockedAddr (V6 a) \<longleftrightarrow> IsLoopback (V6 a) \<or> IsPrivate (V6 a) \<or> IsLinkLocalUnicast (V6 a)
      \<or> prefix_contains (v6p [0xff00,0,0,0,0,0,0,0] 8) (V6 a) \<or> IsUnspecified (V6 a)
      \<or> list_ex (\<lambda>p. prefix_contains p (V6 a)) blockedPrefixes"
    unfolding isBlockedAddr_def mc [symmetric] by argo
  show ?thesis
    unfolding b IsLoopback_def IsPrivate_def IsLinkLocalUnicast_def
       IsUnspecified_def blockedPrefixes_def in_ranges_def special_v6_def
    by (simp add: contains_inside hextets_def word_unat_eq_iff m del: prefix_contains.simps(2)) blast
qed

lemma unat_push_or:
  fixes a :: "'a::len word" and b :: "8 word"
  assumes "unat a * 256 + 255 < 2 ^ LENGTH('a)" "16 \<le> LENGTH('a)"
  shows "unat (push_bit 8 a OR ucast b) = unat a * 256 + unat b"
proof -
  have "(2::nat) ^ 16 \<le> 2 ^ LENGTH('a)" using assms(2) by (intro power_increasing) simp_all
  then have big: "65536 \<le> (2::nat) ^ LENGTH('a)" by simp
  have b: "unat b < 256" using unsigned_less [of b, where 'a = nat] by simp
  have "push_bit 8 a OR ucast b = push_bit 8 a + (ucast b :: 'a word)"
    by (rule disjunctive_add [symmetric]) (auto simp: bit_simps dest: bit_imp_le_length)
  moreover have "push_bit 8 a = a * 256" by (simp add: push_bit_eq_mult)
  moreover have "unat (ucast b :: 'a word) = unat b"
    using big b by (simp add: unsigned_ucast_eq take_bit_nat_eq_self)
  moreover have "unat (256 :: 'a word) = 256"
    using big by (simp add: unsigned_numeral take_bit_nat_eq_self)
  ultimately show ?thesis using assms b by (simp add: unat_word_ariths)
qed

lemma number_bound: "number_of bs < 256 ^ length bs"
  unfolding number_of_def
proof (induction bs rule: rev_induct)
  case Nil then show ?case by simp
next
  case (snoc b bs)
  have "unat b < 256" using unsigned_less [of b, where 'a = nat] by simp
  with snoc show ?case by simp
qed

lemma unat_be_word: "8 * length bs \<le> LENGTH('a) \<Longrightarrow> 16 \<le> LENGTH('a) \<Longrightarrow> unat (be_word bs :: 'a::len word) = number_of bs"
proof (induction bs rule: rev_induct)
  case Nil then show ?case by (simp add: be_word_def number_of_def)
next
  case (snoc b bs)
  have n: "number_of bs < 256 ^ length bs" by (rule number_bound)
  have "number_of bs * 256 + 255 < 256 ^ Suc (length bs)" using n by simp
  also have "(256::nat) ^ Suc (length bs) = 2 ^ (8 * Suc (length bs))" by (simp only: power_mult) simp
  also have "\<dots> \<le> 2 ^ LENGTH('a)" using snoc.prems by (intro power_increasing) simp_all
  finally have "number_of bs * 256 + 255 < 2 ^ LENGTH('a)" .
  moreover have "unat (be_word bs :: 'a word) = number_of bs" using snoc by simp
  ultimately show ?case
    using unat_push_or [of "be_word bs :: 'a word" b] snoc.prems by (simp add: be_word_def number_of_def)
qed

text \<open>The four bytes of an embedded address are the low bits of the shifted word.\<close>

lemma four_bytes: "((N div 2 ^ 24 mod 256 * 256 + N div 2 ^ 16 mod 256) * 256 + N div 2 ^ 8 mod 256) * 256 + N mod 256 = N mod 2 ^ 32"
  for N :: nat
  using mod_mult2_eq [of N "2 ^ 24" 256] mod_mult2_eq [of N "2 ^ 16" 256] mod_mult2_eq [of N "2 ^ 8" 256]
  by simp

lemma unat_low_byte: "unat (ucast (drop_bit k a) :: 8 word) = unat a div 2 ^ k mod 256" for a :: "128 word"
proof -
  have "unat (ucast (drop_bit k a) :: 8 word) = take_bit 8 (unat (drop_bit k a))"
    by (simp add: unsigned_ucast_eq)
  then show ?thesis by (simp only: unat_drop_bit_eq) (simp only: drop_bit_eq_div take_bit_eq_mod, simp)
qed

lemma be_word_bytes:
  "be_word [ucast (drop_bit (s + 24) a), ucast (drop_bit (s + 16) a), ucast (drop_bit (s + 8) a), ucast (drop_bit s a)]
    = (ucast (drop_bit s a) :: 32 word)" (is "be_word ?bs = _") for a :: "128 word"
proof -
  have "unat (be_word ?bs :: 32 word) = number_of ?bs" by (rule unat_be_word) simp_all
  also have "\<dots> = unat a div 2 ^ s mod 2 ^ 32"
    unfolding four_bytes [of "unat a div 2 ^ s", symmetric]
    by (simp only: number_of_def foldl.simps unat_low_byte power_add div_mult2_eq) simp
  also have "\<dots> = unat (ucast (drop_bit s a) :: 32 word)"
    by (simp only: unsigned_ucast_eq unat_drop_bit_eq) (simp only: drop_bit_eq_div take_bit_eq_mod, simp)
  finally show ?thesis by (simp add: word_unat_eq_iff)
qed

lemma be_word_As16:
  "be_word [As16 a ! 12, As16 a ! 13, As16 a ! 14, As16 a ! 15] = (ucast a :: 32 word)"
  "be_word [As16 a ! 2, As16 a ! 3, As16 a ! 4, As16 a ! 5] = (ucast (drop_bit 80 a) :: 32 word)"
  using be_word_bytes [of 0 a] be_word_bytes [of 80 a] by (simp_all add: As16_def)

lemma of_nat_low: "(of_nat (unat w mod 2 ^ 32) :: 32 word) = ucast w" for w :: "128 word"
  by (simp only: word_unat_eq_iff unsigned_ucast_eq unat_of_nat) (simp add: take_bit_eq_mod)

lemma of_nat_high: "(of_nat (unat a div 2 ^ 80 mod 2 ^ 32) :: 32 word) = ucast (drop_bit 80 a)" for a :: "128 word"
proof -
  have "unat (drop_bit 80 a) = unat a div 2 ^ 80"
    by (simp only: unat_drop_bit_eq) (simp only: drop_bit_eq_div)
  with of_nat_low [of "drop_bit 80 a"] show ?thesis by (simp only:)
qed

lemma embedded_prefixes:
  "prefix_contains nat64Prefix (V6 a) \<longleftrightarrow> unat a div 2 ^ 32 = hextets [0x64,0xff9b,0,0,0,0]"
  "prefix_contains ipv4CompatPrefix (V6 a) \<longleftrightarrow> unat a div 2 ^ 32 = hextets [0,0,0,0,0,0]"
  "prefix_contains siitPrefix (V6 a) \<longleftrightarrow> unat a div 2 ^ 32 = hextets [0,0,0,0,0xffff,0]"
  "prefix_contains sixToFourPrefix (V6 a) \<longleftrightarrow> unat a div 2 ^ 112 = 0x2002"
  unfolding nat64Prefix_def ipv4CompatPrefix_def siitPrefix_def sixToFourPrefix_def prefix_div(2)
  by (simp_all add: hextets_def)

lemma embedded_carried:
  assumes "unat a div 2 ^ 32 \<noteq> 0xffff"
  shows "embeddedIPv4 (V6 a) = (case carried_v4 (unat a) of Some m \<Rightarrow> Some (V4 (of_nat m)) | None \<Rightarrow> None)"
proof -
  have "hextets [0, 0, 0, 0, 0, 0xffff] = 0xffff" by (simp add: hextets_def)
  with assms show ?thesis
    unfolding embeddedIPv4.simps Let_def be_word_As16 carried_v4_def embedded_prefixes of_nat_high [symmetric]
    unfolding of_nat_low [symmetric]
    by (simp only: insert_iff empty_iff simp_thms split: if_split) simp
qed

lemma IsBlocked_refused: "IsBlocked bs = refused bs"
proof -
  consider "length bs = 4" | "length bs = 16" | "length bs \<noteq> 4" "length bs \<noteq> 16" by blast
  then show ?thesis
  proof cases
    case 1
    then have "unat (be_word bs :: 32 word) = number_of bs" by (intro unat_be_word) simp_all
    with 1 show ?thesis by (simp add: IsBlocked_def AddrFromSlice_def refused_def isBlockedAddr_v4)
  next
    case 2
    define a :: "128 word" where "a = be_word bs"
    define n where "n = number_of bs"
    have n: "unat a = n" unfolding a_def n_def using 2 by (intro unat_be_word) simp_all
    have low: "unat (ucast a :: 32 word) = n mod 2 ^ 32"
      by (simp add: unsigned_ucast_eq take_bit_eq_mod n)
    have mapped: "drop_bit 32 a = 0xffff \<longleftrightarrow> n div 2 ^ 32 = 0xffff"
      unfolding word_unat_eq_iff by (simp only: unat_drop_bit_eq n) (simp add: drop_bit_eq_div)
    have refd: "refused bs \<longleftrightarrow> in_ranges special_v6 n
        \<or> (case carried_v4 n of Some m \<Rightarrow> in_ranges special_v4 m | None \<Rightarrow> False)"
      using 2 by (simp add: refused_def n_def)
    have blk: "IsBlocked bs \<longleftrightarrow> (case embeddedIPv4 (Unmap (V6 a)) of Some v4 \<Rightarrow> isBlockedAddr v4 | None \<Rightarrow> False)
        \<or> isBlockedAddr (Unmap (V6 a))"
      using 2 by (simp add: IsBlocked_def AddrFromSlice_def Let_def a_def)
    show ?thesis
    proof (cases "n div 2 ^ 32 = 0xffff")
      case True
      then have "0xffff00000000 \<le> n \<and> n \<le> 0xffffffffffff"
        using div_interval [where n = n and k = 32 and c = "0xffff"] by simp
      then have "\<not> in_ranges special_v6 n" by (simp add: in_ranges_def special_v6_def inside_def hextets_def)
      moreover have "carried_v4 n = Some (n mod 2 ^ 32)" using True by (simp add: carried_v4_def hextets_def)
      ultimately show ?thesis using True by (simp add: blk refd mapped isBlockedAddr_v4 low)
    next
      case False
      have bound: "m < 2 ^ 32" if "carried_v4 n = Some m" for m
        using that by (auto simp: carried_v4_def split: if_splits)
      show ?thesis
        using False bound
        by (auto simp: blk refd mapped isBlockedAddr_v4 isBlockedAddr_v6 n embedded_carried
            unat_of_nat take_bit_nat_eq_self simp del: embeddedIPv4.simps split: option.splits)
    qed
  next
    case 3 then show ?thesis by (simp add: IsBlocked_def AddrFromSlice_def refused_def)
  qed
qed

section \<open>Only accepted addresses are dialled\<close>

text \<open>What the dialer reads back from a target is the address and port it was built from.\<close>

lemma index_byte_cons: "index_byte (c # s) c = Some 0"
  by simp

lemma last_index_append: "c \<notin> set b \<Longrightarrow> last_index (a @ c # b) c = Some (length a)"
  by (simp add: last_index_def index_byte_append)

lemma SplitHostPort_JoinHostPort:
  assumes "CHR ''['' \<notin> set h" "CHR '']'' \<notin> set h"
    "CHR '':'' \<notin> set p" "CHR ''['' \<notin> set p" "CHR '']'' \<notin> set p"
  shows "SplitHostPort (JoinHostPort h p) = Inr (h, p)"
proof (cases "CHR '':'' \<in> set h \<or> CHR ''%'' \<in> set h")
  case True
  have i: "last_index (''['' @ h @ '']:'' @ p) CHR '':'' = Some (length h + 2)"
    using last_index_append [of "CHR '':''" p "''['' @ h @ '']''"] assms(3) by simp
  have e: "index_byte (''['' @ h @ '']:'' @ p) CHR '']'' = Some (Suc (length h))"
    using index_byte_append [of "CHR '']''" "''['' @ h" "CHR '':'' # p"] assms(2) by simp
  show ?thesis
    using True assms i e by (simp add: SplitHostPort_def JoinHostPort_def split_rest_def)
next
  case False
  have "last_index (h @ CHR '':'' # p) CHR '':'' = Some (length h)"
    using assms(3) by (rule last_index_append)
  moreover have "hd (h @ CHR '':'' # p) \<noteq> CHR ''[''" using assms(1) by (cases h) auto
  ultimately show ?thesis
    using False assms by (simp add: SplitHostPort_def JoinHostPort_def split_rest_def)
qed

lemma dial_each_targets:
  "t \<in> set (fst (dial_each env network port ips e)) \<Longrightarrow> \<exists>ip\<in>set ips. t = JoinHostPort (neIPString env ip) port"
proof (induction ips arbitrary: e)
  case Nil then show ?case by simp
next
  case (Cons q qs)
  show ?case
  proof (cases "neDial env network (JoinHostPort (neIPString env q) port)")
    case (Inr c) with Cons.prems show ?thesis by simp
  next
    case (Inl err)
    with Cons.prems have "t = JoinHostPort (neIPString env q) port \<or> t \<in> set (fst (dial_each env network port qs (Some err)))"
      by (simp add: Let_def split: prod.splits)
    with Cons.IH show ?thesis by auto
  qed
qed

lemma dial_each_connects:
  "snd (dial_each env network port ips e) = Inr c \<Longrightarrow>
   \<exists>pre ip post. ips = pre @ ip # post \<and> neDial env network (JoinHostPort (neIPString env ip) port) = Inr c
     \<and> (\<forall>q\<in>set pre. \<exists>err. neDial env network (JoinHostPort (neIPString env q) port) = Inl err)"
proof (induction ips arbitrary: e)
  case Nil then show ?case by simp
next
  case (Cons q qs)
  show ?case
  proof (cases "neDial env network (JoinHostPort (neIPString env q) port)")
    case (Inr d)
    with Cons.prems have "neDial env network (JoinHostPort (neIPString env q) port) = Inr c" by simp
    then show ?thesis by (intro exI [of _ "[]"] exI [of _ q] exI [of _ qs]) simp
  next
    case (Inl err)
    with Cons.prems have "snd (dial_each env network port qs (Some err)) = Inr c"
      by (simp add: Let_def split: prod.splits)
    from Cons.IH [OF this] obtain pre ip post where *: "qs = pre @ ip # post"
      "neDial env network (JoinHostPort (neIPString env ip) port) = Inr c"
      "\<forall>q\<in>set pre. \<exists>err. neDial env network (JoinHostPort (neIPString env q) port) = Inl err" by blast
    then show ?thesis using Inl by (intro exI [of _ "q # pre"] exI [of _ ip] exI [of _ post]) simp
  qed
qed

text \<open>A dial gets past the guard only when the host resolves and no answer is refused.\<close>

lemma DialContext_cases:
  obtains (stopped) err where "DialContext env network addr = ([], Inl (Some err))"
  | (passed) host port resolved where "SplitHostPort addr = Inr (host, port)" "resolve_host env host = Inr resolved"
      "\<forall>ip\<in>set resolved. \<not> refused ip" "DialContext env network addr = dial_each env network port resolved None"
proof (cases "SplitHostPort addr")
  case (Inl err)
  then show thesis by (intro stopped [of err]) (simp add: DialContext_def)
next
  case (Inr hp)
  obtain host port where hp: "hp = (host, port)" by (cases hp)
  show thesis
  proof (cases "resolve_host env host")
    case (Inl err)
    with Inr hp show thesis by (intro stopped [of err]) (simp add: DialContext_def)
  next
    case r: (Inr resolved)
    show thesis
    proof (cases "resolved = [] \<or> list_ex IsBlocked resolved")
      case True
      then have "\<exists>err. DialContext env network addr = ([], Inl (Some err))"
        using Inr hp r by (auto simp: DialContext_def)
      then show thesis using stopped by blast
    next
      case False
      then have "\<forall>ip\<in>set resolved. \<not> refused ip" by (simp add: list_ex_iff IsBlocked_refused)
      moreover have "DialContext env network addr = dial_each env network port resolved None"
        using False Inr hp r by (simp add: DialContext_def)
      ultimately show thesis using Inr hp r by (intro passed) simp_all
    qed
  qed
qed

lemma DialContext_refuses:
  assumes "SplitHostPort addr = Inr (host, port)" "resolve_host env host = Inr resolved" "ip \<in> set resolved" "refused ip"
  shows "DialContext env network addr = ([], Inl (Some ErrBlockedAddress))"
proof -
  have "list_ex IsBlocked resolved" using assms(3,4) by (auto simp: list_ex_iff IsBlocked_refused)
  with assms show ?thesis by (auto simp: DialContext_def)
qed

definition guarded_client :: "'c net_env \<Rightarrow> duration \<Rightarrow> 'c http_client" where
  "guarded_client env timeout = NewHTTPClient (DialContext env) timeout"

text \<open>C13: The client of the admin API's outbound requests never connects to an address of a
  special-purpose range, whatever the resolver answers: every target it dials is an address of
  the one answer it checked, outside the intervals of the IPv4 and IPv6 registries and not
  carrying such an IPv4 address; one refused answer stops the dial before the first
  connection, with the blocked-address error; a connection it returns is that of the first answer that accepts,
  and neither a proxy nor a redirect can take the request elsewhere.\<close>

theorem guarded_dial_public:
  "(\<forall>target\<in>set (fst (hcDial (guarded_client env timeout) network addr)). \<exists>host port resolved ip.
        SplitHostPort addr = Inr (host, port) \<and> resolve_host env host = Inr resolved \<and> ip \<in> set resolved
        \<and> target = JoinHostPort (neIPString env ip) port \<and> (\<forall>q\<in>set resolved. \<not> refused q))
    \<and> (\<forall>host port resolved ip. SplitHostPort addr = Inr (host, port) \<and> resolve_host env host = Inr resolved
        \<and> ip \<in> set resolved \<and> refused ip \<longrightarrow> hcDial (guarded_client env timeout) network addr = ([], Inl (Some ErrBlockedAddress)))
    \<and> (\<forall>c. snd (hcDial (guarded_client env timeout) network addr) = Inr c \<longrightarrow> (\<exists>host port pre ip post.
        SplitHostPort addr = Inr (host, port) \<and> resolve_host env host = Inr (pre @ ip # post)
        \<and> neDial env network (JoinHostPort (neIPString env ip) port) = Inr c
        \<and> (\<forall>q\<in>set pre. \<exists>err. neDial env network (JoinHostPort (neIPString env q) port) = Inl err)))
    \<and> hcProxy (guarded_client env timeout) = None \<and> hcCheckRedirect (guarded_client env timeout) = UseLastResponse"
proof -
  have dial: "hcDial (guarded_client env timeout) = DialContext env" by (simp add: guarded_client_def NewHTTPClient_def)
  have targets: "\<exists>host port resolved ip.
        SplitHostPort addr = Inr (host, port) \<and> resolve_host env host = Inr resolved \<and> ip \<in> set resolved
        \<and> target = JoinHostPort (neIPString env ip) port \<and> (\<forall>q\<in>set resolved. \<not> refused q)"
    if "target \<in> set (fst (DialContext env network addr))" for target
  proof (cases rule: DialContext_cases [of env network addr])
    case (stopped err) with that show ?thesis by simp
  next
    case (passed host port resolved)
    with that have "target \<in> set (fst (dial_each env network port resolved None))" by (simp only:)
    from dial_each_targets [OF this] passed(1-3) show ?thesis by blast
  qed
  have connects: "\<exists>host port pre ip post. SplitHostPort addr = Inr (host, port) \<and> resolve_host env host = Inr (pre @ ip # post)
        \<and> neDial env network (JoinHostPort (neIPString env ip) port) = Inr c
        \<and> (\<forall>q\<in>set pre. \<exists>err. neDial env network (JoinHostPort (neIPString env q) port) = Inl err)"
    if "snd (DialContext env network addr) = Inr c" for c
  proof (cases rule: DialContext_cases [of env network addr])
    case (stopped err) with that show ?thesis by simp
  next
    case (passed host port resolved)
    with that have "snd (dial_each env network port resolved None) = Inr c" by simp
    from dial_each_connects [OF this] passed(1,2) show ?thesis by blast
  qed
  show ?thesis
    unfolding dial
  proof (intro conjI ballI allI impI)
    show "hcProxy (guarded_client env timeout) = None" "hcCheckRedirect (guarded_client env timeout) = UseLastResponse"
      by (simp_all add: guarded_client_def NewHTTPClient_def)
    show "DialContext env network addr = ([], Inl (Some ErrBlockedAddress))"
      if "SplitHostPort addr = Inr (host, port) \<and> resolve_host env host = Inr resolved \<and> ip \<in> set resolved \<and> refused ip"
      for host port resolved ip
      using that DialContext_refuses [of addr host port env resolved ip] by simp
  qed (fact targets, fact connects)
qed

text \<open>Concrete answers: a metadata address behind a NAT64 prefix is refused although a public address
  comes first, and a public pair is tried in order.\<close>

definition sample_net :: "ip list \<Rightarrow> string net_env" where
  "sample_net answer = \<lparr> neParseIP = (\<lambda>_. None), neIPString = (\<lambda>ip. if ip = [8,8,8,8] then ''8.8.8.8'' else ''9.9.9.9''),
     neLookupIPAddr = (\<lambda>_. Inr answer),
     neDial = (\<lambda>_ t. if t = ''9.9.9.9:443'' then Inr t else Inl (ErrText ''connection refused'')) \<rparr>"

lemma sample_net_split: "SplitHostPort ''hook.example:443'' = Inr (''hook.example'', ''443'')"
  by code_simp

theorem guarded_dial_public_witness:
  "hcDial (guarded_client (sample_net [[8,8,8,8], [0,0x64,0xff,0x9b,0,0,0,0,0,0,0,0,169,254,169,254]]) second) ''tcp'' ''hook.example:443''
     = ([], Inl (Some ErrBlockedAddress))"
proof -
  have "refused [0,0x64,0xff,0x9b,0,0,0,0,0,0,0,0,169,254,169,254]"
    by (simp add: refused_def number_of_def carried_v4_def hextets_def in_ranges_def special_v4_def quad_def inside_def)
  moreover have "resolve_host (sample_net [[8,8,8,8], [0,0x64,0xff,0x9b,0,0,0,0,0,0,0,0,169,254,169,254]]) ''hook.example''
      = Inr [[8,8,8,8], [0,0x64,0xff,0x9b,0,0,0,0,0,0,0,0,169,254,169,254]]"
    by (simp add: resolve_host_def sample_net_def)
  ultimately show ?thesis
    using guarded_dial_public [of "sample_net [[8,8,8,8], [0,0x64,0xff,0x9b,0,0,0,0,0,0,0,0,169,254,169,254]]" second "''tcp''" "''hook.example:443''",
        THEN conjunct2, THEN conjunct1, THEN spec, THEN spec, THEN spec, THEN spec, THEN mp,
        of "''hook.example''" "''443''" "[[8,8,8,8], [0,0x64,0xff,0x9b,0,0,0,0,0,0,0,0,169,254,169,254]]" "[0,0x64,0xff,0x9b,0,0,0,0,0,0,0,0,169,254,169,254]"]
      sample_net_split by simp
qed

end
