(* ===== verification/Api_Limits.thy ===== *)
theory Api_Limits
  imports Rate_Limit Net_Guard Admin_Access
begin

text \<open>
  The rate limiter of the admin API (eami-api \<^verbatim>\<open>internal/api/ratelimit.go\<close>), the key it
  takes from a request, and the middleware in front of the login route
  (\<^verbatim>\<open>ratelimit_login.go\<close>). The limiter is a third copy of the sliding window of
  \<^verbatim>\<open>Rate_Limit\<close> and interprets its contract; the theorem at the end bounds the login
  attempts that one account sees in a window, however the requests are spread over
  addresses and over spellings of the e-mail.
\<close>

section \<open>The limiter and its key (ratelimit.go)\<close>

definition api_newRateLimiter :: "int \<Rightarrow> duration \<Rightarrow> rateLimiter" where
  "api_newRateLimiter limit window = \<lparr>rlAttempts = (\<lambda>_. []), rlLimit = limit, rlWindow = window\<rparr>"

definition api_Allow :: "time \<Rightarrow> string \<Rightarrow> rateLimiter \<Rightarrow> (bool \<times> duration) \<times> rateLimiter" where
  "api_Allow now key rl =
     (if rlLimit rl \<le> 0 then ((False, rlWindow rl), rl)
      else
        let cutoff = now - rlWindow rl;
            kept = keep_after cutoff (rlAttempts rl key)
        in if rlLimit rl \<le> int (length kept) then
             (let oldest = hd kept;
                  retryAfter = oldest + rlWindow rl - now
              in ((False, if retryAfter < second then second else retryAfter),
                  rl\<lparr>rlAttempts := (rlAttempts rl)(key := kept)\<rparr>))
           else ((True, 0), rl\<lparr>rlAttempts := (rlAttempts rl)(key := kept @ [now])\<rparr>))"

interpretation api_lim: window_limiter api_Allow
  by unfold_locales (auto simp: api_Allow_def keep_after_filter Let_def)

definition api_setRetryAfter :: "duration \<Rightarrow> string \<times> string" where
  "api_setRetryAfter d =
     (let secs = go_div d second;
          secs = (if go_rem d second \<noteq> 0 then secs + 1 else secs);
          secs = (if secs < 1 then 1 else secs)
      in (''Retry-After'', show_int secs))"

text \<open>What a request shows of its origin: the peer of the connection, the forwarded header
  and the address the router's middleware stored (\<^verbatim>\<open>[]\<close> when it stored none).
  \<open>lookup\<close> is the answer of the resolver for the proxy's name at that moment, as printed
  addresses.\<close>

record request_origin =
  roRemoteAddr :: string
  roForwardedFor :: string
  roClientIP :: string

definition defaultTrustedProxyPeer :: "string list result \<Rightarrow> string \<Rightarrow> bool" where
  "defaultTrustedProxyPeer lookup remoteAddr =
     (let host = (case SplitHostPort remoteAddr of Inl _ \<Rightarrow> remoteAddr | Inr (h, _) \<Rightarrow> h)
      in case lookup of Inl _ \<Rightarrow> False | Inr ips \<Rightarrow> list_ex (\<lambda>ip. ip = host) ips)"

definition clientKey :: "string list result \<Rightarrow> request_origin \<Rightarrow> string" where
  "clientKey lookup r =
     (let fallback = (if roClientIP r \<noteq> [] then roClientIP r else roRemoteAddr r)
      in if roForwardedFor r \<noteq> [] \<and> defaultTrustedProxyPeer lookup (roRemoteAddr r) then
           (let hop = trim_space (last (split_on CHR '','' (roForwardedFor r)))
            in if hop \<noteq> [] then hop else fallback)
         else fallback)"

text \<open>Only the proxy's own container can choose the key: for every other peer the header is
  ignored.\<close>

lemma untrusted_peer_cannot_choose_key:
  assumes "\<not> defaultTrustedProxyPeer lookup (roRemoteAddr r)"
  shows "clientKey lookup (r\<lparr>roForwardedFor := xff\<rparr>) = clientKey lookup r"
  using assms by (simp add: clientKey_def Let_def)

section \<open>The login middleware (ratelimit\_login.go)\<close>

definition normalizeLoginEmail :: "string \<Rightarrow> string" where
  "normalizeLoginEmail email = to_lower (trim_space email)"

record login_limiters =
  llIP :: rateLimiter
  llAccount :: rateLimiter

text \<open>The refusal carries the \<^verbatim>\<open>Retry-After\<close> header. \<open>email\<close> is the decoded e-mail of the
  peeked body, None when it does not parse; the body is handed on unchanged.\<close>

type_synonym limited = "(string \<times> string) \<times> api_error"

definition too_many_from_address :: "duration \<Rightarrow> limited" where
  "too_many_from_address d = (api_setRetryAfter d, (429, ''rate_limited'', ''too many login attempts from this address -- try again later''))"

definition too_many_for_account :: "duration \<Rightarrow> limited" where
  "too_many_for_account d = (api_setRetryAfter d, (429, ''rate_limited'', ''too many login attempts for this account -- try again later''))"

text \<open>Each of the two limiters reads the clock itself.\<close>

definition rateLimitLogin :: "time \<Rightarrow> time \<Rightarrow> string \<Rightarrow> string option \<Rightarrow> login_limiters \<Rightarrow> limited option \<times> login_limiters" where
  "rateLimitLogin nowIP nowAccount key email ll =
     (case api_Allow nowIP key (llIP ll) of
        ((ok, retryAfter), ip') \<Rightarrow>
          let ll' = ll\<lparr>llIP := ip'\<rparr> in
          if \<not> ok then
            (Some (too_many_from_address retryAfter), ll')
          else (case email of
             None \<Rightarrow> (None, ll')
           | Some e \<Rightarrow>
               if e = [] then (None, ll')
               else (case api_Allow nowAccount (normalizeLoginEmail e) (llAccount ll') of
                 ((ok, retryAfter), acc') \<Rightarrow>
                   let ll'' = ll'\<lparr>llAccount := acc'\<rparr> in
                   if \<not> ok then
                     (Some (too_many_for_account retryAfter), ll'')
                   else (None, ll''))))"

text \<open>The requests of a run, in the order in which they ask the account limiter. Between the
  two checks of a request others may run theirs, so each finds the limiter of addresses in
  some state of its own; the limiter of accounts goes from one to the next.\<close>

record login_event =
  leIPTime :: time
  leIPLimiter :: rateLimiter
  leKey :: string
  leEmail :: "string option"
  leAccountTime :: time

definition login_request :: "login_event \<Rightarrow> rateLimiter \<Rightarrow> limited option \<times> login_limiters" where
  "login_request e acc = rateLimitLogin (leIPTime e) (leAccountTime e) (leKey e) (leEmail e) \<lparr>llIP = leIPLimiter e, llAccount = acc\<rparr>"

text \<open>The requests that reach the login handler: when they were let through, and the e-mail
  they carry.\<close>

fun reaching :: "login_event list \<Rightarrow> rateLimiter \<Rightarrow> (time \<times> string option) list" where
  "reaching [] acc = []"
| "reaching (e # es) acc =
     (case login_request e acc of
        (refusal, ll) \<Rightarrow> (if refusal = None then [(leAccountTime e, leEmail e)] else []) @ reaching es (llAccount ll))"

text \<open>A spelling of an e-mail: the same letters up to case, between white space.\<close>

definition spelling_of :: "string \<Rightarrow> string \<Rightarrow> bool" where
  "spelling_of account e = list_all2 (\<lambda>c d. lower_char c = lower_char d) (trim_space account) (trim_space e)"

definition account_attempts :: "string \<Rightarrow> (time \<times> string option) list \<Rightarrow> time list" where
  "account_attempts account rs =
     map fst (filter (\<lambda>(t, email). case email of Some e \<Rightarrow> e \<noteq> [] \<and> spelling_of account e | None \<Rightarrow> False) rs)"

section \<open>The account limiter sees every attempt\<close>

text \<open>The calls of the account limiter in a run, in order.\<close>

definition account_call :: "login_event \<Rightarrow> (time \<times> string) list" where
  "account_call e =
     (if fst (fst (api_Allow (leIPTime e) (leKey e) (leIPLimiter e)))
      then (case leEmail e of Some x \<Rightarrow> if x = [] then [] else [(leAccountTime e, to_lower (trim_space x))] | None \<Rightarrow> []) else [])"

lemma spelling_key: "spelling_of account e \<longleftrightarrow> to_lower (trim_space e) = to_lower (trim_space account)"
proof -
  have "list_all2 (\<lambda>c d. lower_char c = lower_char d) xs ys \<longleftrightarrow> map lower_char xs = map lower_char ys" for xs ys
    by (induction xs ys rule: list_induct2') auto
  then show ?thesis by (auto simp: spelling_of_def to_lower_def)
qed

lemma account_call_times: "map fst (account_call e) = [] \<or> map fst (account_call e) = [leAccountTime e]"
  by (cases "leEmail e") (auto simp: account_call_def)

lemma account_calls_later: "t \<in> set (map fst (concat (map account_call es))) \<Longrightarrow> t \<in> set (map leAccountTime es)"
proof (induction es)
  case (Cons e es)
  then show ?case using account_call_times [of e] by auto
qed simp

lemma account_calls_sorted: "sorted (map leAccountTime es) \<Longrightarrow> sorted (map fst (concat (map account_call es)))"
proof (induction es)
  case (Cons e es)
  have "leAccountTime e \<le> t" if "t \<in> set (map fst (concat (map account_call es)))" for t
    using Cons.prems account_calls_later [OF that] by auto
  moreover have "sorted (map fst (concat (map account_call es)))" using Cons by simp
  ultimately have "sorted (leAccountTime e # map fst (concat (map account_call es)))" by simp
  then show ?case
    using account_call_times [of e] \<open>sorted (map fst (concat (map account_call es)))\<close> by (simp only: list.map concat.simps map_append) (elim disjE; simp)
qed simp

text \<open>The attempts that reach the handler for an account are those its limiter granted.\<close>

lemma account_attempts_append [simp]: "account_attempts account (xs @ ys) = account_attempts account xs @ account_attempts account ys"
  by (simp add: account_attempts_def)

lemma login_request_account:
  "account_attempts account (if fst (login_request e acc) = None then [(leAccountTime e, leEmail e)] else [])
     = key_times (to_lower (trim_space account)) (granted api_Allow (account_call e) acc)"
  "granted api_Allow (account_call e @ h) acc = granted api_Allow (account_call e) acc @ granted api_Allow h (llAccount (snd (login_request e acc)))"
proof -
  obtain ok retry ip' where ip: "api_Allow (leIPTime e) (leKey e) (leIPLimiter e) = ((ok, retry), ip')" by (metis surj_pair)
  have "account_attempts account (if fst (login_request e acc) = None then [(leAccountTime e, leEmail e)] else [])
      = key_times (to_lower (trim_space account)) (granted api_Allow (account_call e) acc)
    \<and> granted api_Allow (account_call e @ h) acc = granted api_Allow (account_call e) acc @ granted api_Allow h (llAccount (snd (login_request e acc)))"
  proof (cases "ok \<and> (\<exists>x. leEmail e = Some x \<and> x \<noteq> [])")
    case True
    then obtain x where x: "leEmail e = Some x" "x \<noteq> []" ok by blast
    obtain ok' retry' acc' where a: "api_Allow (leAccountTime e) (normalizeLoginEmail x) acc = ((ok', retry'), acc')" by (metis surj_pair)
    have l: "login_request e acc = (if ok' then None else Some (too_many_for_account retry'), \<lparr>llIP = ip', llAccount = acc'\<rparr>)"
      using x ip a by (simp add: login_request_def rateLimitLogin_def Let_def)
    have c: "account_call e = [(leAccountTime e, normalizeLoginEmail x)]"
      using x ip by (simp add: account_call_def normalizeLoginEmail_def)
    show ?thesis
      using x(1,2) a by (cases ok') (simp_all add: l c account_attempts_def spelling_key too_many_for_account_def, simp_all add: normalizeLoginEmail_def)
  next
    case False
    then have c: "account_call e = []" using ip by (auto simp: account_call_def split: option.split)
    have "llAccount (snd (login_request e acc)) = acc"
      "account_attempts account (if fst (login_request e acc) = None then [(leAccountTime e, leEmail e)] else []) = []"
      using False ip by (cases "leEmail e"; auto simp: login_request_def rateLimitLogin_def account_attempts_def Let_def)+
    then show ?thesis by (simp add: c)
  qed
  then show "account_attempts account (if fst (login_request e acc) = None then [(leAccountTime e, leEmail e)] else [])
      = key_times (to_lower (trim_space account)) (granted api_Allow (account_call e) acc)"
    "granted api_Allow (account_call e @ h) acc = granted api_Allow (account_call e) acc @ granted api_Allow h (llAccount (snd (login_request e acc)))"
    by blast+
qed

lemma reaching_granted:
  "account_attempts account (reaching es acc) = key_times (to_lower (trim_space account)) (granted api_Allow (concat (map account_call es)) acc)"
proof (induction es arbitrary: acc)
  case Nil then show ?case by (simp add: account_attempts_def)
next
  case (Cons e es)
  have "reaching (e # es) acc = (if fst (login_request e acc) = None then [(leAccountTime e, leEmail e)] else [])
      @ reaching es (llAccount (snd (login_request e acc)))" by (simp split: prod.split)
  then show ?case
    by (simp only: account_attempts_append login_request_account Cons.IH list.map concat.simps key_times_append)
qed

text \<open>C32: In every window at most the configured number of login attempts for one account
  reaches the login handler, counted over all client addresses and over every spelling of the
  e-mail, with the letters A to Z in either case and with white space around it, however the checks of
  concurrent requests interleave.\<close>

theorem login_attempts_bounded:
  assumes "sorted (map leAccountTime es)" "0 \<le> limit"
  shows "int (length (filter (\<lambda>t. T - window < t \<and> t \<le> T) (account_attempts account (reaching es (api_newRateLimiter limit window))))) \<le> limit"
  using api_lim.window_bound [OF account_calls_sorted [OF assms(1)] assms(2), of T window "to_lower (trim_space account)"]
  by (simp add: reaching_granted api_newRateLimiter_def newRateLimiter_def)

definition sample_logins :: "login_event list" where
  "sample_logins = map (\<lambda>(t, key, email). \<lparr>leIPTime = t, leIPLimiter = api_newRateLimiter 5 second, leKey = key, leEmail = Some email, leAccountTime = t + 1\<rparr>)
     [(1, ''198.51.100.7'', ''ana@example.com''), (2, ''198.51.100.8'', '' Ana@example.com''), (3, ''198.51.100.9'', ''ANA@EXAMPLE.COM'')]"

lemma sample_logins_counted: "account_attempts ''Ana@example.com '' (reaching sample_logins (api_newRateLimiter 2 (900 * second))) = [2, 3]"
  by code_simp

theorem login_attempts_bounded_witness:
  "int (length (filter (\<lambda>t. 3 - 900 * second < t \<and> t \<le> 3) (account_attempts ''Ana@example.com ''
     (reaching sample_logins (api_newRateLimiter 2 (900 * second)))))) \<le> 2
   \<and> length (account_attempts ''Ana@example.com '' (reaching sample_logins (api_newRateLimiter 2 (900 * second)))) = 2"
proof
  show "int (length (filter (\<lambda>t. 3 - 900 * second < t \<and> t \<le> 3) (account_attempts ''Ana@example.com ''
     (reaching sample_logins (api_newRateLimiter 2 (900 * second)))))) \<le> 2"
    by (rule login_attempts_bounded) (simp_all add: sample_logins_def)
qed (simp add: sample_logins_counted)

end
