(* ===== verification/Admin_Audit.thy ===== *)
theory Admin_Audit
  imports Agent_Admin Api_Limits
begin

text \<open>
  The admin audit trail (eami-api \<^verbatim>\<open>internal/store/admin_audit.go\<close>) and its read API
  (\<^verbatim>\<open>internal/api/admin_audit.go\<close>): one hash chain per organisation, appended to in the
  transaction of the change it records.
  \<^item> The registered actions and their fields, the typed summary with its constructors and
    its canonical JSON, and the validation of an event.
  \<^item> The append, the transaction \<^verbatim>\<open>RunAudited\<close> that runs a change with its event, the walk
    that verifies a chain, and the two handlers.
  \<^item> \<open>H\<close> is the hexadecimal SHA-256 of a byte string. A transaction is a function of the
    environment \<open>audit_env\<close>, which says what each statement answers; the advisory lock makes
    it one step of its organisation's chain. A failed commit may have taken effect or not.
  \<^item> The lemmas show that every chain a sequence of such transactions can build verifies,
    that two tables with the same head hold the same columns, and that a stored summary
    holds no value of a field.
\<close>

section \<open>Actions and fields\<close>

datatype audit_field = FieldValue | FieldList | FieldEnum "string list" | FieldChanged

type_synonym audit_fields = "(string \<times> audit_field) list"

definition presetFields :: audit_fields where
  "presetFields =
    [(''name'', FieldChanged), (''description'', FieldChanged), (''scanners'', FieldEnum AllScanners),
     (''scan_interval_seconds'', FieldValue), (''model_scan_paths'', FieldList),
     (''model_file_size_mb'', FieldValue), (''max_report_size_bytes'', FieldValue)]"

definition enrollmentKeyFields :: audit_fields where
  "enrollmentKeyFields = [(''expires_at'', FieldValue), (''max_uses'', FieldValue)]"

record adminAuditAction =
  actTargetType :: string
  actFields :: audit_fields

definition adminAuditActionTable :: "(string \<times> adminAuditAction) list" where
  "adminAuditActionTable =
    [(''preset.created'', \<lparr>actTargetType = ''preset'', actFields = presetFields\<rparr>),
     (''preset.draft_updated'', \<lparr>actTargetType = ''preset'', actFields = presetFields\<rparr>),
     (''preset.published'', \<lparr>actTargetType = ''preset'', actFields = presetFields\<rparr>),
     (''preset.reverted'', \<lparr>actTargetType = ''preset'', actFields = presetFields\<rparr>),
     (''preset.archived'', \<lparr>actTargetType = ''preset'', actFields = []\<rparr>),
     (''preset.unarchived'', \<lparr>actTargetType = ''preset'', actFields = []\<rparr>),
     (''preset.bulk_assigned'', \<lparr>actTargetType = ''preset'', actFields = []\<rparr>),
     (''endpoint.preset_assigned'', \<lparr>actTargetType = ''endpoint'', actFields = []\<rparr>),
     (''endpoint.preset_unassigned'', \<lparr>actTargetType = ''endpoint'', actFields = []\<rparr>),
     (''enrollment_key.created'', \<lparr>actTargetType = ''enrollment_key'', actFields = enrollmentKeyFields\<rparr>),
     (''enrollment_key.revoked'', \<lparr>actTargetType = ''enrollment_key'', actFields = []\<rparr>),
     (''enrollment_key.exchanged'', \<lparr>actTargetType = ''enrollment_key'', actFields = []\<rparr>),
     (''api_key.revoked'', \<lparr>actTargetType = ''api_key'', actFields = []\<rparr>)]"

definition adminAuditActions :: "string \<rightharpoonup> adminAuditAction" where
  "adminAuditActions = map_of adminAuditActionTable"

definition IsAdminAuditAction :: "string \<Rightarrow> bool" where
  "IsAdminAuditAction code = (adminAuditActions code \<noteq> None)"

definition IsAdminAuditTargetType :: "string \<Rightarrow> bool" where
  "IsAdminAuditTargetType t = list_ex (\<lambda>(_, a). actTargetType a = t) adminAuditActionTable"

definition adminAuditCodes :: "string list" where
  "adminAuditCodes =
    [''interval_out_of_range'', ''report_size_out_of_range'', ''model_size_out_of_range'', ''too_many_paths'',
     ''path_empty'', ''path_too_long'', ''path_invalid_chars'', ''path_network'', ''path_not_absolute'',
     ''path_root'', ''path_not_normalized'', ''path_profile_parent'', ''too_many_scanners'', ''unknown_scanner'']"

definition adminAuditRoles :: "string list" where
  "adminAuditRoles = [''admin'', ''operator'', ''approver'', ''viewer'', ''platform_admin'']"

section \<open>Patterns\<close>

text \<open>The anchored patterns: a first byte, then bytes of a class, within bounds on the length.\<close>

definition lower_letter :: "char \<Rightarrow> bool" where
  "lower_letter c = (97 \<le> (of_char c :: nat) \<and> (of_char c :: nat) \<le> 122)"

definition decimal_digit :: "char \<Rightarrow> bool" where
  "decimal_digit c = (48 \<le> (of_char c :: nat) \<and> (of_char c :: nat) \<le> 57)"

definition upper_letter :: "char \<Rightarrow> bool" where
  "upper_letter c = (65 \<le> (of_char c :: nat) \<and> (of_char c :: nat) \<le> 90)"

definition hex_char :: "char \<Rightarrow> bool" where
  "hex_char c = (decimal_digit c \<or> 97 \<le> (of_char c :: nat) \<and> (of_char c :: nat) \<le> 102)"

definition all_of :: "(char \<Rightarrow> bool) \<Rightarrow> nat \<Rightarrow> nat \<Rightarrow> string \<Rightarrow> bool" where
  "all_of P lo hi s = (lo \<le> length s \<and> length s \<le> hi \<and> list_all P s)"

definition adminAuditValueHashRe :: "string \<Rightarrow> bool" where
  "adminAuditValueHashRe s = (take 7 s = ''sha256:'' \<and> all_of hex_char 16 16 (drop 7 s))"

definition adminAuditEnumNameRe :: "string \<Rightarrow> bool" where
  "adminAuditEnumNameRe s = (case s of [] \<Rightarrow> False
     | c # cs \<Rightarrow> lower_letter c \<and> all_of (\<lambda>x. lower_letter x \<or> decimal_digit x \<or> x = CHR ''_'') 0 40 cs)"

definition request_id_char :: "char \<Rightarrow> bool" where
  "request_id_char x = (lower_letter x \<or> upper_letter x \<or> decimal_digit x \<or> x \<in> {CHR ''.'', CHR ''_'', CHR ''/'', CHR ''-''})"

definition adminAuditRequestIDRe :: "string \<Rightarrow> bool" where
  "adminAuditRequestIDRe s = all_of request_id_char 1 64 s"

section \<open>Events and their summaries\<close>

record AdminAuditActor =
  actorType :: string
  actorUserID :: uuid
  actorRole :: string

record AdminAuditChange =
  chField :: string
  chOld :: string
  chNew :: string
  chAdded :: "int option"
  chRemoved :: "int option"
  chItemsOld :: "string list"
  chItemsNew :: "string list"
  chEnumAdded :: "string list"
  chEnumRemoved :: "string list"

record AdminAuditRefs =
  rfPresetID :: "uuid option"
  rfPresetVersion :: "int option"
  rfFromVersion :: "int option"
  rfEnrollmentKeyID :: "uuid option"
  rfEndpointID :: "uuid option"
  rfAgentID :: "uuid option"
  rfCount :: "int option"

record AdminAuditSummary =
  smChanges :: "AdminAuditChange list"
  smCodes :: "string list"
  smRefs :: "AdminAuditRefs option"

record AdminAuditEvent =
  evOrgID :: uuid
  evActor :: AdminAuditActor
  evAction :: string
  evTargetID :: uuid
  evSummary :: AdminAuditSummary
  evSource :: string
  evRequestID :: string

record AdminAuditEventRow =
  wrID :: uuid
  wrOrgID :: uuid
  wrSeq :: int
  wrOccurredAt :: time
  wrActorType :: string
  wrActorUserID :: "uuid option"
  wrActorRole :: string
  wrAction :: string
  wrTargetType :: string
  wrTargetID :: string
  wrSummary :: string
  wrSource :: string
  wrRequestID :: "string option"
  wrPrevHash :: string
  wrHash :: string

text \<open>The tags of the summary's structs; \<^verbatim>\<open>omitempty\<close> drops nil and empty members.\<close>

definition member_text :: "string \<Rightarrow> string \<Rightarrow> (string \<times> json) list" where
  "member_text k s = (if s = [] then [] else [(k, JStr s)])"

definition member_id :: "string \<Rightarrow> string option \<Rightarrow> (string \<times> json) list" where
  "member_id k x = (case x of None \<Rightarrow> [] | Some s \<Rightarrow> [(k, JStr s)])"

definition member_int :: "string \<Rightarrow> int option \<Rightarrow> (string \<times> json) list" where
  "member_int k x = (case x of None \<Rightarrow> [] | Some i \<Rightarrow> [(k, JNum (of_int i))])"

definition member_list :: "string \<Rightarrow> string list \<Rightarrow> (string \<times> json) list" where
  "member_list k xs = (if xs = [] then [] else [(k, JArr (map JStr xs))])"

definition change_json :: "AdminAuditChange \<Rightarrow> json" where
  "change_json c = JObj ([(''field'', JStr (chField c))] @ member_text ''old'' (chOld c) @ member_text ''new'' (chNew c)
     @ member_int ''added'' (chAdded c) @ member_int ''removed'' (chRemoved c)
     @ member_list ''items_old'' (chItemsOld c) @ member_list ''items_new'' (chItemsNew c)
     @ member_list ''enum_added'' (chEnumAdded c) @ member_list ''enum_removed'' (chEnumRemoved c))"

definition refs_json :: "AdminAuditRefs \<Rightarrow> json" where
  "refs_json r = JObj (member_id ''preset_id'' (rfPresetID r) @ member_int ''preset_version'' (rfPresetVersion r)
     @ member_int ''from_version'' (rfFromVersion r) @ member_id ''enrollment_key_id'' (rfEnrollmentKeyID r)
     @ member_id ''endpoint_id'' (rfEndpointID r) @ member_id ''agent_id'' (rfAgentID r) @ member_int ''count'' (rfCount r))"

definition summary_json :: "AdminAuditSummary \<Rightarrow> json" where
  "summary_json s = JObj ([(''v'', JNum 1)]
     @ (if smChanges s = [] then [] else [(''changes'', JArr (map change_json (smChanges s)))])
     @ member_list ''codes'' (smCodes s)
     @ (case smRefs s of None \<Rightarrow> [] | Some r \<Rightarrow> [(''refs'', refs_json r)]))"

text \<open>The constructors. \<open>marshal\<close> is \<^verbatim>\<open>json.Marshal\<close>, \<open>sprint\<close> the fallback \<^verbatim>\<open>%v\<close>.\<close>

definition adminAuditHashValue :: "(string \<Rightarrow> string) \<Rightarrow> (json \<Rightarrow> string result) \<Rightarrow> (json \<Rightarrow> string) \<Rightarrow> json \<Rightarrow> string" where
  "adminAuditHashValue H marshal sprint v =
     (let b = (case marshal v of Inl _ \<Rightarrow> sprint v | Inr s \<Rightarrow> s) in ''sha256:'' @ take 16 (H b))"

definition empty_change :: "string \<Rightarrow> AdminAuditChange" where
  "empty_change f = \<lparr>chField = f, chOld = [], chNew = [], chAdded = None, chRemoved = None, chItemsOld = [], chItemsNew = [],
     chEnumAdded = [], chEnumRemoved = []\<rparr>"

definition AdminAuditValueChange :: "(json \<Rightarrow> string) \<Rightarrow> string \<Rightarrow> json option \<Rightarrow> json option \<Rightarrow> AdminAuditChange" where
  "AdminAuditValueChange hash f oldV newV = (empty_change f)
     \<lparr>chOld := (case oldV of None \<Rightarrow> [] | Some v \<Rightarrow> hash v), chNew := (case newV of None \<Rightarrow> [] | Some v \<Rightarrow> hash v)\<rparr>"

definition AdminAuditFieldChanged :: "string \<Rightarrow> AdminAuditChange" where
  "AdminAuditFieldChanged f = empty_change f"

definition not_among :: "string list \<Rightarrow> string list \<Rightarrow> string list" where
  "not_among xs ys = filter (\<lambda>x. x \<notin> set ys) (remdups xs)"

definition hashItems :: "(json \<Rightarrow> string) \<Rightarrow> string list \<Rightarrow> string list" where
  "hashItems hash xs = sort (map (\<lambda>s. hash (JStr s)) xs)"

definition AdminAuditListChange :: "(json \<Rightarrow> string) \<Rightarrow> string \<Rightarrow> string list \<Rightarrow> string list \<Rightarrow> AdminAuditChange" where
  "AdminAuditListChange hash f oldL newL = (empty_change f)
     \<lparr>chOld := hash (JArr (map JStr (sort oldL))), chNew := hash (JArr (map JStr (sort newL))),
      chAdded := Some (int (length (not_among newL oldL))), chRemoved := Some (int (length (not_among oldL newL))),
      chItemsOld := hashItems hash oldL, chItemsNew := hashItems hash newL\<rparr>"

definition AdminAuditEnumChange :: "string \<Rightarrow> string list \<Rightarrow> string list \<Rightarrow> AdminAuditChange" where
  "AdminAuditEnumChange f oldL newL =
     (let added = sort (not_among newL oldL); removed = sort (not_among oldL newL)
      in (empty_change f)\<lparr>chAdded := Some (int (length added)), chRemoved := Some (int (length removed)),
           chEnumAdded := added, chEnumRemoved := removed\<rparr>)"

section \<open>Validation\<close>

definition invalid :: "string \<Rightarrow> go_error" where
  "invalid reason = Wrapped reason (Sentinel ErrAdminAuditInvalid)"

definition list_data :: "AdminAuditChange \<Rightarrow> nat" where
  "list_data c = length (chItemsOld c) + length (chItemsNew c) + length (chEnumAdded c) + length (chEnumRemoved c)"

definition is_hash :: "string \<Rightarrow> bool" where
  "is_hash s = (s = [] \<or> adminAuditValueHashRe s)"

definition validateChange :: "AdminAuditChange \<Rightarrow> audit_field \<Rightarrow> go_error option" where
  "validateChange c f =
    (if \<not> is_hash (chOld c) \<or> \<not> is_hash (chNew c) then Some (invalid ''value is not a hash'')
     else if list_ex (\<lambda>h. \<not> adminAuditValueHashRe h) (chItemsOld c @ chItemsNew c) then Some (invalid ''item is not a hash'')
     else case f of
       FieldChanged \<Rightarrow>
         if chOld c \<noteq> [] \<or> chNew c \<noteq> [] \<or> chAdded c \<noteq> None \<or> chRemoved c \<noteq> None \<or> 0 < list_data c
         then Some (invalid ''data on a changed-only field'') else None
     | FieldValue \<Rightarrow>
         if chAdded c \<noteq> None \<or> chRemoved c \<noteq> None \<or> 0 < list_data c
         then Some (invalid ''list data on a value field'') else None
     | FieldList \<Rightarrow>
         if 0 < length (chEnumAdded c) + length (chEnumRemoved c)
         then Some (invalid ''enum data on a list field'') else None
     | FieldEnum enum \<Rightarrow>
         if chOld c \<noteq> [] \<or> chNew c \<noteq> [] \<or> 0 < length (chItemsOld c) + length (chItemsNew c)
         then Some (invalid ''hash data on an enum field'')
         else if list_ex (\<lambda>v. v \<notin> set enum) (chEnumAdded c) then Some (invalid ''value outside the closed list'')
         else if list_ex (\<lambda>v. \<not> adminAuditEnumNameRe v) (chEnumRemoved c) then Some (invalid ''value is not a name'')
         else None)"

fun validate_changes :: "audit_fields \<Rightarrow> string list \<Rightarrow> AdminAuditChange list \<Rightarrow> go_error option" where
  "validate_changes fs seen [] = None"
| "validate_changes fs seen (c # cs) =
     (case map_of fs (chField c) of
        None \<Rightarrow> Some (invalid ''field not allowed for action'')
      | Some f \<Rightarrow>
          if chField c \<in> set seen then Some (invalid ''field not allowed for action'')
          else case validateChange c f of
            Some err \<Rightarrow> Some err
          | None \<Rightarrow> validate_changes fs (chField c # seen) cs)"

definition actor_error :: "AdminAuditActor \<Rightarrow> go_error option" where
  "actor_error a =
    (if actorType a = ''user'' then
       (if actorUserID a = nil_uuid \<or> actorRole a \<notin> set adminAuditRoles then Some (invalid ''bad user actor'') else None)
     else if actorType a = ''system'' then
       (if actorUserID a \<noteq> nil_uuid then Some (invalid ''system actor with a user'') else None)
     else Some (invalid ''bad actor type''))"

definition validateAdminAuditEvent :: "AdminAuditEvent \<Rightarrow> adminAuditAction result" where
  "validateAdminAuditEvent ev =
    (case adminAuditActions (evAction ev) of
       None \<Rightarrow> Inl (invalid ''unregistered action'')
     | Some act \<Rightarrow>
        if evOrgID ev = nil_uuid then Inl (invalid ''missing org'')
        else if evTargetID ev = nil_uuid then Inl (invalid ''missing target'')
        else case actor_error (evActor ev) of
          Some err \<Rightarrow> Inl err
        | None \<Rightarrow>
          if evSource ev \<noteq> ''api'' \<and> evSource ev \<noteq> ''system'' then Inl (invalid ''bad source'')
          else case validate_changes (actFields act) [] (smChanges (evSummary ev)) of
            Some err \<Rightarrow> Inl err
          | None \<Rightarrow>
            if list_ex (\<lambda>code. code \<notin> set adminAuditCodes) (smCodes (evSummary ev)) then Inl (invalid ''unknown code'')
            else Inr act)"

section \<open>Hashing\<close>

definition AdminAuditGenesis :: "(string \<Rightarrow> string) \<Rightarrow> uuid \<Rightarrow> string" where
  "AdminAuditGenesis H org = H (''eami-admin-audit-genesis-v1'' @ org)"

text \<open>The layout \<^verbatim>\<open>2006-01-02T15:04:05.000000Z\<close>.\<close>

definition format_micro :: "time \<Rightarrow> string" where
  "format_micro t = butlast (format_rfc3339 t) @ ''.'' @ pad_int 6 (t mod second div 1000) @ ''Z''"

definition put_uint32 :: "nat \<Rightarrow> string" where
  "put_uint32 n = map (\<lambda>k. char_of (n div 256 ^ k mod 256)) [3, 2, 1, 0]"

text \<open>The columns that are hashed, in order, and their length-prefixed encoding.\<close>

definition audit_columns :: "AdminAuditEventRow \<Rightarrow> string list" where
  "audit_columns r =
    [''eami-admin-audit-v1'', wrPrevHash r, wrID r, wrOrgID r, show_int (wrSeq r), format_micro (wrOccurredAt r),
     wrActorType r, case wrActorUserID r of None \<Rightarrow> [] | Some u \<Rightarrow> u, wrActorRole r, wrAction r, wrTargetType r, wrTargetID r,
     wrSummary r, wrSource r, case wrRequestID r of None \<Rightarrow> [] | Some q \<Rightarrow> q]"

definition length_prefixed :: "string list \<Rightarrow> string" where
  "length_prefixed ps = concat (map (\<lambda>p. put_uint32 (length p) @ p) ps)"

definition adminAuditRowHash :: "(string \<Rightarrow> string) \<Rightarrow> AdminAuditEventRow \<Rightarrow> string" where
  "adminAuditRowHash H r = H (length_prefixed (audit_columns r))"

section \<open>The append\<close>

record audit_env =
  avBegin :: "go_error option"
  avIsolation :: "string result" \<comment> \<open>\<^verbatim>\<open>SHOW transaction_isolation\<close>\<close>
  avLockTimeout :: "go_error option"
  avLock :: "go_error option"
  avHead :: "go_error option"
  avInsert :: "go_error option"
  avCommit :: "(go_error \<times> bool) option" \<comment> \<open>a failed commit, and whether it took effect\<close>
  avNow :: time
  avNewID :: uuid
  avMarshal :: "json \<Rightarrow> string result"
  avIsJSONObject :: "string \<Rightarrow> bool"

text \<open>The constraints of the table (migration 000029).\<close>

definition dotted_name :: "string \<Rightarrow> bool" where
  "dotted_name s = (case split_on CHR ''.'' s of
     [a, b] \<Rightarrow> list_all (\<lambda>x. x \<noteq> [] \<and> lower_letter (hd x) \<and> all_of (\<lambda>c. lower_letter c \<or> c = CHR ''_'') 0 40 (tl x)) [a, b]
   | _ \<Rightarrow> False)"

definition audit_checks :: "audit_env \<Rightarrow> AdminAuditEventRow list \<Rightarrow> AdminAuditEventRow \<Rightarrow> bool" where
  "audit_checks env rows r =
    (1 \<le> wrSeq r \<and> wrActorType r \<in> {''user'', ''system''}
     \<and> all_of (\<lambda>c. lower_letter c \<or> c = CHR ''_'') 1 32 (wrActorRole r)
     \<and> dotted_name (wrAction r)
     \<and> wrTargetType r \<noteq> [] \<and> lower_letter (hd (wrTargetType r))
     \<and> all_of (\<lambda>c. lower_letter c \<or> c = CHR ''_'') 0 40 (tl (wrTargetType r))
     \<and> all_of (\<lambda>c. lower_letter c \<or> upper_letter c \<or> decimal_digit c \<or> c \<in> {CHR ''.'', CHR ''_'', CHR '':'', CHR ''-''}) 1 128 (wrTargetID r)
     \<and> avIsJSONObject env (wrSummary r) \<and> length (wrSummary r) \<le> 8192
     \<and> wrSource r \<in> {''api'', ''system''}
     \<and> (case wrRequestID r of None \<Rightarrow> True | Some q \<Rightarrow> adminAuditRequestIDRe q)
     \<and> all_of hex_char 64 64 (wrPrevHash r) \<and> all_of hex_char 64 64 (wrHash r)
     \<and> (wrActorType r = ''user'') = (wrActorUserID r \<noteq> None)
     \<and> (\<forall>s\<in>set rows. wrID s \<noteq> wrID r \<and> (wrOrgID s, wrSeq s) \<noteq> (wrOrgID r, wrSeq r)))"

definition insert_event :: "audit_env \<Rightarrow> AdminAuditEventRow \<Rightarrow> AdminAuditEventRow list \<Rightarrow> go_error option \<times> AdminAuditEventRow list" where
  "insert_event env r rows =
    (case avInsert env of
       Some err \<Rightarrow> (Some err, rows)
     | None \<Rightarrow>
       if audit_checks env rows r then (None, rows @ [r\<lparr>wrOccurredAt := pg_timestamp (wrOccurredAt r)\<rparr>])
       else (Some (ErrText ''violates a constraint of admin_audit_events''), rows))"

definition org_rows :: "uuid \<Rightarrow> AdminAuditEventRow list \<Rightarrow> AdminAuditEventRow list" where
  "org_rows org rows = sort_key wrSeq (filter (\<lambda>r. wrOrgID r = org) rows)"

definition chain_head :: "(string \<Rightarrow> string) \<Rightarrow> uuid \<Rightarrow> AdminAuditEventRow list \<Rightarrow> int \<times> string" where
  "chain_head H org rows =
    (if org_rows org rows = [] then (0, AdminAuditGenesis H org)
     else (wrSeq (last (org_rows org rows)), wrHash (last (org_rows org rows))))"

definition audit_wrap :: "string \<Rightarrow> go_error" where
  "audit_wrap step = Wrapped step (Sentinel ErrAdminAuditWrite)"

text \<open>The row before it is placed in the chain.\<close>

definition event_row :: "audit_env \<Rightarrow> adminAuditAction \<Rightarrow> AdminAuditEvent \<Rightarrow> string \<Rightarrow> AdminAuditEventRow" where
  "event_row env act ev summary =
    \<lparr>wrID = avNewID env, wrOrgID = evOrgID ev, wrSeq = 0, wrOccurredAt = avNow env div 1000 * 1000,
     wrActorType = actorType (evActor ev),
     wrActorUserID = (if actorType (evActor ev) = ''user'' then Some (actorUserID (evActor ev)) else None),
     wrActorRole = (if actorType (evActor ev) = ''user'' then actorRole (evActor ev) else ''system''),
     wrAction = evAction ev, wrTargetType = actTargetType act, wrTargetID = evTargetID ev, wrSummary = summary,
     wrSource = evSource ev,
     wrRequestID = (if adminAuditRequestIDRe (evRequestID ev) then Some (evRequestID ev) else None),
     wrPrevHash = [], wrHash = []\<rparr>"

definition chained_row :: "(string \<Rightarrow> string) \<Rightarrow> AdminAuditEventRow list \<Rightarrow> AdminAuditEventRow \<Rightarrow> AdminAuditEventRow" where
  "chained_row H rows r =
    (let (headSeq, headHash) = chain_head H (wrOrgID r) rows;
         r1 = r\<lparr>wrSeq := wrap64 (headSeq + 1), wrPrevHash := headHash\<rparr>
     in r1\<lparr>wrHash := adminAuditRowHash H r1\<rparr>)"

definition AppendAdminAuditEvent ::
  "(string \<Rightarrow> string) \<Rightarrow> audit_env \<Rightarrow> AdminAuditEvent \<Rightarrow> AdminAuditEventRow list \<Rightarrow> AdminAuditEventRow result \<times> AdminAuditEventRow list" where
  "AppendAdminAuditEvent H env ev rows =
    (case validateAdminAuditEvent ev of
       Inl err \<Rightarrow> (Inl err, rows)
     | Inr act \<Rightarrow>
       (case avMarshal env (summary_json (evSummary ev)) of
          Inl _ \<Rightarrow> (Inl (invalid ''summary does not encode''), rows)
        | Inr summaryJSON \<Rightarrow>
          if 8192 < length summaryJSON then (Inl (invalid ''summary too large''), rows)
          else case avIsolation env of
            Inl _ \<Rightarrow> (Inl (audit_wrap ''isolation''), rows)
          | Inr level \<Rightarrow>
            if level \<noteq> ''read committed'' then (Inl (invalid ''transaction must be READ COMMITTED''), rows)
            else if avLockTimeout env \<noteq> None then (Inl (audit_wrap ''lock_timeout''), rows)
            else if avLock env \<noteq> None then (Inl (audit_wrap ''lock''), rows)
            else if avHead env \<noteq> None then (Inl (audit_wrap ''head''), rows)
            else
              let row = chained_row H rows (event_row env act ev summaryJSON)
              in case insert_event env row rows of
                   (Some _, rows') \<Rightarrow> (Inl (audit_wrap ''insert''), rows')
                 | (None, rows') \<Rightarrow> (Inr row, rows')))"

text \<open>\<^verbatim>\<open>RunAudited\<close>: the change on the rest of the database, then its event, in one transaction.
  What an error leaves behind is rolled back, except that a failed commit may have taken
  effect.\<close>

type_synonym 's audited = "'s \<times> AdminAuditEventRow list"

definition RunAudited ::
  "(string \<Rightarrow> string) \<Rightarrow> audit_env \<Rightarrow> uuid \<Rightarrow> ('s \<Rightarrow> go_error + AdminAuditEvent \<times> 's) \<Rightarrow> 's audited \<Rightarrow> AdminAuditEventRow result \<times> 's audited" where
  "RunAudited H env orgID change st =
    (case avBegin env of
       Some err \<Rightarrow> (Inl err, st)
     | None \<Rightarrow>
       (case change (fst st) of
          Inl err \<Rightarrow> (Inl err, st)
        | Inr (ev, s') \<Rightarrow>
          if orgID = nil_uuid \<or> evOrgID ev \<noteq> orgID then (Inl (invalid ''event org differs from the caller's org''), st)
          else case AppendAdminAuditEvent H env ev (snd st) of
            (Inl err, _) \<Rightarrow> (Inl err, st)
          | (Inr row, rows') \<Rightarrow>
            (case avCommit env of
               Some (_, applied) \<Rightarrow> (Inl (audit_wrap ''commit''), if applied then (s', rows') else st)
             | None \<Rightarrow> (Inr row, (s', rows')))))"

section \<open>Verification of a chain\<close>

record AdminAuditVerifyResult =
  vrValid :: bool
  vrChecked :: int
  vrHeadSeq :: int
  vrHeadHash :: string
  vrFirstBadSeq :: "int option"
  vrReason :: string

definition verify_fail :: "int \<Rightarrow> string \<Rightarrow> AdminAuditVerifyResult \<Rightarrow> AdminAuditVerifyResult" where
  "verify_fail seq reason res =
    (if vrValid res then res\<lparr>vrValid := False, vrFirstBadSeq := Some seq, vrReason := reason\<rparr> else res)"

definition verify_step :: "(string \<Rightarrow> string) \<Rightarrow> int \<Rightarrow> string \<Rightarrow> AdminAuditEventRow \<Rightarrow> AdminAuditVerifyResult \<Rightarrow> AdminAuditVerifyResult" where
  "verify_step H expectSeq prev r res =
    (let res1 = res\<lparr>vrChecked := vrChecked res + 1\<rparr>;
         res2 = (if wrSeq r \<noteq> expectSeq then verify_fail (wrSeq r) ''seq_gap'' res1
                 else if wrPrevHash r \<noteq> prev then verify_fail (wrSeq r) ''prev_hash_mismatch'' res1
                 else if adminAuditRowHash H r \<noteq> wrHash r then verify_fail (wrSeq r) ''hash_mismatch'' res1
                 else res1)
     in res2\<lparr>vrHeadSeq := wrSeq r, vrHeadHash := wrHash r\<rparr>)"

fun verify_walk :: "(string \<Rightarrow> string) \<Rightarrow> int \<Rightarrow> string \<Rightarrow> AdminAuditEventRow list \<Rightarrow> AdminAuditVerifyResult \<Rightarrow> AdminAuditVerifyResult" where
  "verify_walk H expectSeq prev [] res = res"
| "verify_walk H expectSeq prev (r # rs) res =
     verify_walk H (wrSeq r + 1) (wrHash r) rs (verify_step H expectSeq prev r res)"

text \<open>\<open>err\<close> is the error of a statement of the transaction, None when all succeed.\<close>

definition store_VerifyAdminAuditChain :: "(string \<Rightarrow> string) \<Rightarrow> go_error option \<Rightarrow> uuid \<Rightarrow> AdminAuditEventRow list \<Rightarrow> AdminAuditVerifyResult result" where
  "store_VerifyAdminAuditChain H err org rows =
    (case err of
       Some e \<Rightarrow> Inl e
     | None \<Rightarrow> Inr (verify_walk H 1 (AdminAuditGenesis H org) (org_rows org rows)
         \<lparr>vrValid = True, vrChecked = 0, vrHeadSeq = 0, vrHeadHash = AdminAuditGenesis H org, vrFirstBadSeq = None, vrReason = []\<rparr>))"


section \<open>The read API\<close>

definition api_pagination :: "(string \<Rightarrow> int option) \<Rightarrow> string \<Rightarrow> string \<Rightarrow> int \<Rightarrow> int \<Rightarrow> int \<times> int" where
  "api_pagination atoi pageStr perPageStr defaultPerPage maxPerPage =
    (let perPage = (case atoi perPageStr of
           Some n \<Rightarrow> if 0 < n then (if maxPerPage < n then maxPerPage else n) else defaultPerPage
         | None \<Rightarrow> defaultPerPage);
         page = (case atoi pageStr of
           Some n \<Rightarrow> if 0 < n then min n (min 1000000 (go_div 2147483647 perPage)) else 1
         | None \<Rightarrow> 1)
     in (page, perPage))"

record ListAdminAuditEventsParams =
  lpOrgID :: uuid
  lpAction :: "string option"
  lpTargetType :: "string option"
  lpTargetID :: "string option"
  lpActorUserID :: "uuid option"
  lpFrom :: "time option"
  lpTo :: "time option"
  lpAscending :: bool
  lpLimit :: int
  lpOffset :: int

definition filter_is :: "'a option \<Rightarrow> 'a \<Rightarrow> bool" where
  "filter_is f x = (case f of None \<Rightarrow> True | Some y \<Rightarrow> x = y)"

definition adminAuditFilter :: "ListAdminAuditEventsParams \<Rightarrow> AdminAuditEventRow \<Rightarrow> bool" where
  "adminAuditFilter p e =
    (wrOrgID e = lpOrgID p \<and> filter_is (lpAction p) (wrAction e) \<and> filter_is (lpTargetType p) (wrTargetType e)
     \<and> filter_is (lpTargetID p) (wrTargetID e)
     \<and> (case lpActorUserID p of None \<Rightarrow> True | Some u \<Rightarrow> wrActorUserID e = Some u)
     \<and> (case lpFrom p of None \<Rightarrow> True | Some t \<Rightarrow> t \<le> wrOccurredAt e)
     \<and> (case lpTo p of None \<Rightarrow> True | Some t \<Rightarrow> wrOccurredAt e < t))"

text \<open>A listed event with the e-mail of its actor, joined from the users of the organisation.\<close>

definition store_ListAdminAuditEvents ::
  "(uuid \<times> uuid \<Rightarrow> string option) \<Rightarrow> go_error option \<Rightarrow> ListAdminAuditEventsParams \<Rightarrow> AdminAuditEventRow list
   \<Rightarrow> (AdminAuditEventRow \<times> string option) list result" where
  "store_ListAdminAuditEvents email_of err p rows =
    (case err of
       Some e \<Rightarrow> Inl e
     | None \<Rightarrow>
       let hits = sort_key wrSeq (filter (adminAuditFilter p) rows);
           ordered = (if lpAscending p then hits else rev hits)
       in Inr (map (\<lambda>e. (e, case wrActorUserID e of None \<Rightarrow> None | Some u \<Rightarrow> email_of (u, wrOrgID e)))
            (take (nat (lpLimit p)) (drop (nat (lpOffset p)) ordered))))"

definition store_CountAdminAuditEvents :: "go_error option \<Rightarrow> ListAdminAuditEventsParams \<Rightarrow> AdminAuditEventRow list \<Rightarrow> int result" where
  "store_CountAdminAuditEvents err p rows =
    (case err of Some e \<Rightarrow> Inl e | None \<Rightarrow> Inr (int (length (filter (adminAuditFilter p) rows))))"

type_synonym query_values = "(string \<times> string list) list"

definition query_get :: "query_values \<Rightarrow> string \<Rightarrow> string" where
  "query_get q k = (case map_of q k of Some (v # _) \<Rightarrow> v | _ \<Rightarrow> [])"

definition adminAuditListParams :: "string list" where
  "adminAuditListParams = [''action'', ''target_type'', ''target_id'', ''actor_user_id'', ''from'', ''to'', ''page'', ''per_page'', ''sort'', ''order'']"

record audit_parsers =
  apParseUUID :: "string \<Rightarrow> uuid option"
  apParseTime :: "string \<Rightarrow> time option"
  apAtoi :: "string \<Rightarrow> int option"

text \<open>A 400 with the offending parameter and a fixed message.\<close>

type_synonym bad_param = "string \<times> string"

fun query_shape_error :: "query_values \<Rightarrow> bad_param option" where
  "query_shape_error [] = None"
| "query_shape_error ((k, vs) # q) =
     (if k \<notin> set adminAuditListParams then Some ([], ''unknown query parameter'')
      else if 1 < length vs then Some (k, ''duplicate query parameter'')
      else query_shape_error q)"

text \<open>An optional filter: absent when empty, otherwise parsed or refused.\<close>

definition optional_param :: "query_values \<Rightarrow> string \<Rightarrow> string \<Rightarrow> (string \<Rightarrow> 'a option) \<Rightarrow> bad_param + 'a option" where
  "optional_param q k msg parse =
    (let v = query_get q k in
     if v = [] then Inr None else case parse v of None \<Rightarrow> Inl (k, msg) | Some x \<Rightarrow> Inr (Some x))"

definition page_error :: "audit_parsers \<Rightarrow> query_values \<Rightarrow> string \<Rightarrow> bad_param option" where
  "page_error ps q k =
    (let v = query_get q k in
     if v = [] then None
     else case apAtoi ps v of
       None \<Rightarrow> Some (k, k @ '' must be a positive integer (per_page at most 100)'')
     | Some n \<Rightarrow> if n < 1 \<or> k = ''per_page'' \<and> 100 < n
                then Some (k, k @ '' must be a positive integer (per_page at most 100)'') else None)"

definition order_param :: "query_values \<Rightarrow> bad_param + bool" where
  "order_param q =
    (if query_get q ''order'' = [] \<or> query_get q ''order'' = ''desc'' then Inr False
     else if query_get q ''order'' = ''asc'' then Inr True
     else Inl (''order'', ''order must be asc or desc''))"

definition list_params :: "audit_parsers \<Rightarrow> uuid \<Rightarrow> query_values \<Rightarrow> bad_param + ListAdminAuditEventsParams \<times> int \<times> int" where
  "list_params ps org q =
    (case query_shape_error q of Some e \<Rightarrow> Inl e | None \<Rightarrow>
     (case optional_param q ''action'' ''unknown action'' (\<lambda>v. if IsAdminAuditAction v then Some v else None) of Inl e \<Rightarrow> Inl e | Inr action \<Rightarrow>
     (case optional_param q ''target_type'' ''unknown target_type'' (\<lambda>v. if IsAdminAuditTargetType v then Some v else None) of Inl e \<Rightarrow> Inl e | Inr tt \<Rightarrow>
     (case optional_param q ''target_id'' ''target_id must be a UUID'' (apParseUUID ps) of Inl e \<Rightarrow> Inl e | Inr tid \<Rightarrow>
     (case optional_param q ''actor_user_id'' ''actor_user_id must be a UUID'' (apParseUUID ps) of Inl e \<Rightarrow> Inl e | Inr uid \<Rightarrow>
     (case optional_param q ''from'' ''from must be RFC3339'' (apParseTime ps) of Inl e \<Rightarrow> Inl e | Inr from \<Rightarrow>
     (case optional_param q ''to'' ''to must be RFC3339'' (apParseTime ps) of Inl e \<Rightarrow> Inl e | Inr to \<Rightarrow>
      if (case (from, to) of (Some f, Some t) \<Rightarrow> t < f | _ \<Rightarrow> False) then Inl (''to'', ''to must not be before from'')
      else if query_get q ''sort'' \<noteq> [] \<and> query_get q ''sort'' \<noteq> ''seq'' then Inl (''sort'', ''sort must be seq'')
      else (case order_param q of Inl e \<Rightarrow> Inl e | Inr asc \<Rightarrow>
        (case page_error ps q ''page'' of Some e \<Rightarrow> Inl e | None \<Rightarrow>
        (case page_error ps q ''per_page'' of Some e \<Rightarrow> Inl e | None \<Rightarrow>
          (let (page, perPage) = api_pagination (apAtoi ps) (query_get q ''page'') (query_get q ''per_page'') 50 100
           in Inr (\<lparr>lpOrgID = org, lpAction = action, lpTargetType = tt, lpTargetID = tid, lpActorUserID = uid, lpFrom = from, lpTo = to,
                    lpAscending = asc, lpLimit = perPage, lpOffset = (page - 1) * perPage\<rparr>, page, perPage))))))))))))"

type_synonym audit_error = "api_error \<times> string" \<comment> \<open>with the field of a bad parameter\<close>

definition ListAdminAuditEvents ::
  "audit_parsers \<Rightarrow> (uuid \<times> uuid \<Rightarrow> string option) \<Rightarrow> go_error option \<Rightarrow> go_error option \<Rightarrow> userClaims \<Rightarrow> query_values \<Rightarrow> AdminAuditEventRow list
   \<Rightarrow> audit_error + (AdminAuditEventRow \<times> string option) list \<times> int \<times> int \<times> int" where
  "ListAdminAuditEvents ps email_of listErr countErr uc q rows =
    (case list_params ps (ucOrgID uc) q of
       Inl (field, msg) \<Rightarrow> Inl ((400, ''bad_request'', msg), field)
     | Inr (p, page, perPage) \<Rightarrow>
       (case store_ListAdminAuditEvents email_of listErr p rows of
          Inl _ \<Rightarrow> Inl ((500, ''internal_error'', ''could not list admin audit events''), [])
        | Inr data \<Rightarrow>
          (case store_CountAdminAuditEvents countErr p rows of
             Inl _ \<Rightarrow> Inl ((500, ''internal_error'', ''could not list admin audit events''), [])
           | Inr tot \<Rightarrow> Inr (data, tot, page, perPage))))"

definition VerifyAdminAuditChain ::
  "(string \<Rightarrow> string) \<Rightarrow> go_error option \<Rightarrow> time \<Rightarrow> userClaims \<Rightarrow> query_values \<Rightarrow> AdminAuditEventRow list \<Rightarrow> rateLimiter
   \<Rightarrow> (audit_error + AdminAuditVerifyResult) \<times> rateLimiter" where
  "VerifyAdminAuditChain H err now uc q rows rl =
    (if q \<noteq> [] then (Inl ((400, ''bad_request'', ''unknown query parameter''), []), rl)
     else case api_Allow now (ucOrgID uc) rl of
       ((ok, retry), rl') \<Rightarrow>
         if \<not> ok then (Inl ((429, ''rate_limited'', ''too many verify requests; try again shortly''), show_int (go_div retry second + 1)), rl')
         else (case store_VerifyAdminAuditChain H err (ucOrgID uc) rows of
                 Inl _ \<Rightarrow> (Inl ((500, ''internal_error'', ''could not verify admin audit events''), []), rl')
               | Inr res \<Rightarrow> (Inr res, rl')))"

definition adminAuditActor :: "userClaims \<Rightarrow> AdminAuditActor" where
  "adminAuditActor uc = \<lparr>actorType = ''user'', actorUserID = ucUserID uc, actorRole = ucRole uc\<rparr>"

definition writeAdminAuditFailure :: "go_error \<Rightarrow> api_error option" where
  "writeAdminAuditFailure err =
    (if \<not> errors_is ErrAdminAuditWrite err \<and> \<not> errors_is ErrAdminAuditInvalid err then None
     else Some (500, ''audit_write_failed'', ''the change was not applied because its audit event could not be recorded''))"


text \<open>A listing shows the caller's organisation only, whatever the query.\<close>

lemma list_params_org: "list_params ps org q = Inr (p, page, perPage) \<Longrightarrow> lpOrgID p = org"
  by (auto simp: list_params_def Let_def split: option.splits sum.splits if_splits prod.splits)

lemma listed_events_own_org:
  assumes "ListAdminAuditEvents ps email_of listErr countErr uc q rows = Inr (data, n, page, perPage)" "(e, m) \<in> set data"
  shows "wrOrgID e = ucOrgID uc \<and> e \<in> set rows"
proof -
  obtain p where p: "list_params ps (ucOrgID uc) q = Inr (p, page, perPage)"
    and d: "store_ListAdminAuditEvents email_of listErr p rows = Inr data"
    using assms(1) by (auto simp: ListAdminAuditEvents_def split: sum.splits prod.splits)
  have "e \<in> set (filter (adminAuditFilter p) rows)"
  proof -
    let ?hits = "sort_key wrSeq (filter (adminAuditFilter p) rows)"
    have "e \<in> set (take (nat (lpLimit p)) (drop (nat (lpOffset p)) (if lpAscending p then ?hits else rev ?hits)))"
      using d assms(2) by (auto simp: store_ListAdminAuditEvents_def Let_def split: option.splits)
    then have "e \<in> set (if lpAscending p then ?hits else rev ?hits)" by (meson in_set_takeD in_set_dropD)
    then show ?thesis by (simp split: if_splits)
  qed
  then show ?thesis using list_params_org [OF p] by (simp add: adminAuditFilter_def)
qed

section \<open>Chains\<close>

text \<open>A list of rows that continues a chain with sequence number \<open>seq\<close> after hash \<open>prev\<close>.\<close>

fun chain_from :: "(string \<Rightarrow> string) \<Rightarrow> int \<Rightarrow> string \<Rightarrow> AdminAuditEventRow list \<Rightarrow> bool" where
  "chain_from H seq prev [] = True"
| "chain_from H seq prev (r # rs) =
     (wrSeq r = seq \<and> wrPrevHash r = prev \<and> wrHash r = adminAuditRowHash H r \<and> chain_from H (seq + 1) (wrHash r) rs)"

definition tail_hash :: "string \<Rightarrow> AdminAuditEventRow list \<Rightarrow> string" where
  "tail_hash prev rs = (if rs = [] then prev else wrHash (last rs))"

lemma tail_hash_simps [simp]: "tail_hash prev [] = prev" "tail_hash prev (r # rs) = tail_hash (wrHash r) rs"
  "tail_hash prev (rs @ [r]) = wrHash r"
  by (simp_all add: tail_hash_def)

lemma chain_from_snoc:
  "chain_from H seq prev (rs @ [r]) \<longleftrightarrow> chain_from H seq prev rs \<and> wrSeq r = seq + int (length rs)
     \<and> wrPrevHash r = tail_hash prev rs \<and> wrHash r = adminAuditRowHash H r"
  by (induction rs arbitrary: seq prev) auto

lemma chain_from_seqs: "chain_from H seq prev rs \<Longrightarrow> r \<in> set rs \<Longrightarrow> seq \<le> wrSeq r"
  by (induction rs arbitrary: seq prev) fastforce+

lemma chain_from_sorted: "chain_from H seq prev rs \<Longrightarrow> sorted (map wrSeq rs)"
  by (induction rs arbitrary: seq prev) (auto dest: chain_from_seqs)

lemma chain_from_last: "chain_from H seq prev rs \<Longrightarrow> rs \<noteq> [] \<Longrightarrow> wrSeq (last rs) = seq + int (length rs) - 1"
  by (induction rs rule: rev_induct) (auto simp: chain_from_snoc)

text \<open>What the walk answers: a chain is valid, and only a chain is.\<close>

lemma verify_walk_invalid: "\<not> vrValid res \<Longrightarrow> \<not> vrValid (verify_walk H seq prev rs res)"
proof (induction rs arbitrary: seq prev res)
  case (Cons r rs)
  have "\<not> vrValid (verify_step H seq prev r res)"
    using Cons.prems by (simp add: verify_step_def verify_fail_def Let_def)
  then show ?case using Cons.IH by simp
qed simp

lemma verify_step_valid:
  "vrValid (verify_step H seq prev r res) \<longleftrightarrow>
     vrValid res \<and> wrSeq r = seq \<and> wrPrevHash r = prev \<and> wrHash r = adminAuditRowHash H r"
  by (auto simp: verify_step_def verify_fail_def Let_def)

lemma verify_walk_valid: "vrValid (verify_walk H seq prev rs res) \<longleftrightarrow> vrValid res \<and> chain_from H seq prev rs"
proof (induction rs arbitrary: seq prev res)
  case (Cons r rs)
  show ?case using Cons.IH by (auto simp: verify_step_valid)
qed simp

lemma verify_walk_checked: "vrChecked (verify_walk H seq prev rs res) = vrChecked res + int (length rs)"
  by (induction rs arbitrary: seq prev res) (auto simp: verify_step_def verify_fail_def Let_def)

lemma verify_walk_head:
  "vrHeadHash (verify_walk H seq prev rs res) = tail_hash (vrHeadHash res) rs"
  "vrHeadSeq (verify_walk H seq prev rs res) = (if rs = [] then vrHeadSeq res else wrSeq (last rs))"
  by (induction rs arbitrary: seq prev res) (auto simp: verify_step_def tail_hash_def Let_def)

lemma verify_walk_no_bad:
  "vrFirstBadSeq res = None \<Longrightarrow> vrValid (verify_walk H seq prev rs res) \<Longrightarrow> vrFirstBadSeq (verify_walk H seq prev rs res) = None"
proof (induction rs arbitrary: seq prev res)
  case (Cons r rs)
  then have "vrValid (verify_step H seq prev r res)" using verify_walk_invalid by (metis verify_walk.simps(2))
  then have "vrFirstBadSeq (verify_step H seq prev r res) = None"
    using Cons.prems(1) by (auto simp: verify_step_valid) (simp add: verify_step_def Let_def)
  then show ?case using Cons by simp
qed simp

lemma verify_reads:
  assumes "store_VerifyAdminAuditChain H None org rows = Inr res"
  shows "vrValid res \<longleftrightarrow> chain_from H 1 (AdminAuditGenesis H org) (org_rows org rows)"
    "vrChecked res = int (length (org_rows org rows))"
    "vrHeadHash res = tail_hash (AdminAuditGenesis H org) (org_rows org rows)"
    "vrHeadSeq res = (if org_rows org rows = [] then 0 else wrSeq (last (org_rows org rows)))"
  using assms by (auto simp: store_VerifyAdminAuditChain_def verify_walk_valid verify_walk_checked verify_walk_head)

section \<open>Appending keeps every chain\<close>

lemma columns_pg_timestamp:
  "audit_columns (r\<lparr>wrOccurredAt := pg_timestamp (wrOccurredAt r)\<rparr>) = audit_columns r" if "wrOccurredAt r = t div 1000 * 1000"
proof -
  have "pg_timestamp (wrOccurredAt r) = wrOccurredAt r" by (simp add: pg_timestamp_def that)
  then show ?thesis by simp
qed

text \<open>The rows of each organisation, in the order they were inserted, are a chain of at most
  \<^verbatim>\<open>math.MaxInt64\<close> rows.\<close>

definition chains_ok :: "(string \<Rightarrow> string) \<Rightarrow> AdminAuditEventRow list \<Rightarrow> bool" where
  "chains_ok H rows = (\<forall>org. chain_from H 1 (AdminAuditGenesis H org) (filter (\<lambda>r. wrOrgID r = org) rows)
     \<and> int (length (filter (\<lambda>r. wrOrgID r = org) rows)) < 2 ^ 63)"

lemma chains_ok_org_rows: "chains_ok H rows \<Longrightarrow> org_rows org rows = filter (\<lambda>r. wrOrgID r = org) rows"
  by (auto simp: org_rows_def chains_ok_def intro: sort_key_id_if_sorted dest: chain_from_sorted)

lemma chains_ok_Nil [simp]: "chains_ok H []"
  by (simp add: chains_ok_def)

lemma chain_head_of:
  assumes "chains_ok H rows"
  shows "chain_head H org rows = (int (length (filter (\<lambda>r. wrOrgID r = org) rows)), tail_hash (AdminAuditGenesis H org) (filter (\<lambda>r. wrOrgID r = org) rows))"
proof -
  have "chain_from H 1 (AdminAuditGenesis H org) (filter (\<lambda>r. wrOrgID r = org) rows)"
    using assms by (simp add: chains_ok_def)
  from chain_from_last [OF this] show ?thesis
    by (simp add: chain_head_def tail_hash_def chains_ok_org_rows [OF assms])
qed

lemma wrap64_successor: "n < 2 ^ 63 \<Longrightarrow> 1 \<le> wrap64 (n + 1) \<Longrightarrow> n + 1 < 2 ^ 63"
proof (rule ccontr)
  assume "n < 2 ^ 63" "1 \<le> wrap64 (n + 1)" "\<not> n + 1 < 2 ^ 63"
  then have "n + 1 = 2 ^ 63" by linarith
  with \<open>1 \<le> wrap64 (n + 1)\<close> have "1 \<le> wrap64 (2 ^ 63)" by (simp only:)
  then show False by (simp add: wrap64_eq)
qed

lemma insert_chained:
  assumes "chains_ok H rows" "insert_event env (chained_row H rows r) rows = (None, rows')" "wrOccurredAt r = t div 1000 * 1000"
  shows "chains_ok H rows'"
    "\<exists>x. rows' = rows @ [x] \<and> audit_columns x = audit_columns (chained_row H rows r) \<and> wrHash x = wrHash (chained_row H rows r)
       \<and> wrOrgID x = wrOrgID r"
proof -
  let ?row = "chained_row H rows r" and ?mine = "filter (\<lambda>q. wrOrgID q = wrOrgID r) rows"
  let ?stored = "?row\<lparr>wrOccurredAt := pg_timestamp (wrOccurredAt ?row)\<rparr>"
  have head: "chain_head H (wrOrgID r) rows = (int (length ?mine), tail_hash (AdminAuditGenesis H (wrOrgID r)) ?mine)"
    by (rule chain_head_of [OF assms(1)])
  have checked: "audit_checks env rows ?row" and ins: "rows' = rows @ [?stored]"
    using assms(2) by (auto simp: insert_event_def split: option.splits if_splits)
  have seq: "wrSeq ?row = wrap64 (int (length ?mine) + 1)" and prev: "wrPrevHash ?row = tail_hash (AdminAuditGenesis H (wrOrgID r)) ?mine"
    and org: "wrOrgID ?row = wrOrgID r" and at: "wrOccurredAt ?row = t div 1000 * 1000"
    using assms(3) by (simp_all add: chained_row_def head Let_def)
  have hash: "wrHash ?row = adminAuditRowHash H ?row"
    by (simp add: chained_row_def head Let_def adminAuditRowHash_def audit_columns_def)
  have "1 \<le> wrSeq ?row" using checked by (simp only: audit_checks_def)
  moreover have bound: "int (length ?mine) < 2 ^ 63" using assms(1) by (simp add: chains_ok_def)
  ultimately have small: "int (length ?mine) + 1 < 2 ^ 63"
    unfolding seq by (intro wrap64_successor) simp_all
  have cols: "audit_columns ?stored = audit_columns ?row" by (rule columns_pg_timestamp [OF at])
  have "chain_from H 1 (AdminAuditGenesis H (wrOrgID r)) (?mine @ [?stored])"
    using assms(1) small seq prev hash cols
    by (simp add: chain_from_snoc chains_ok_def adminAuditRowHash_def int64_def)
  then show "chains_ok H rows'"
    using assms(1) small org by (auto simp: chains_ok_def ins)
  show "\<exists>x. rows' = rows @ [x] \<and> audit_columns x = audit_columns ?row \<and> wrHash x = wrHash ?row \<and> wrOrgID x = wrOrgID r"
    using ins cols org by (intro exI [of _ ?stored]) simp
qed


lemma append_chains_ok:
  assumes "chains_ok H rows" "AppendAdminAuditEvent H env ev rows = (Inr row, rows')"
  shows "chains_ok H rows'"
    "\<exists>x. rows' = rows @ [x] \<and> audit_columns x = audit_columns row \<and> wrHash x = wrHash row \<and> wrOrgID x = evOrgID ev"
proof -
  obtain act summary where row: "row = chained_row H rows (event_row env act ev summary)"
    and ins: "insert_event env row rows = (None, rows')"
    using assms(2) by (auto simp: AppendAdminAuditEvent_def Let_def split: sum.splits if_splits prod.splits option.splits)
  have at: "wrOccurredAt (event_row env act ev summary) = avNow env div 1000 * 1000" by (simp add: event_row_def)
  from insert_chained [OF assms(1) ins [unfolded row] at]
  show "chains_ok H rows'" "\<exists>x. rows' = rows @ [x] \<and> audit_columns x = audit_columns row \<and> wrHash x = wrHash row \<and> wrOrgID x = evOrgID ev"
    by (simp_all add: row event_row_def)
qed

text \<open>The appended row describes the event.\<close>

lemma append_describes:
  assumes "AppendAdminAuditEvent H env ev rows = (Inr row, rows')"
  shows "\<exists>x. rows' = rows @ [x] \<and> wrOrgID x = evOrgID ev \<and> wrAction x = evAction ev \<and> wrTargetID x = evTargetID ev
     \<and> wrActorRole x = (if actorType (evActor ev) = ''user'' then actorRole (evActor ev) else ''system'')
     \<and> wrActorUserID x = (if actorType (evActor ev) = ''user'' then Some (actorUserID (evActor ev)) else None)"
proof -
  obtain act summary where row: "row = chained_row H rows (event_row env act ev summary)"
    and ins: "insert_event env row rows = (None, rows')"
    using assms by (auto simp: AppendAdminAuditEvent_def Let_def split: sum.splits if_splits prod.splits option.splits)
  have "rows' = rows @ [row\<lparr>wrOccurredAt := pg_timestamp (wrOccurredAt row)\<rparr>]"
    using ins by (auto simp: insert_event_def split: option.splits if_splits)
  then show ?thesis
    by (intro exI [of _ "row\<lparr>wrOccurredAt := pg_timestamp (wrOccurredAt row)\<rparr>"])
      (simp add: row chained_row_def event_row_def Let_def split: prod.splits)
qed

text \<open>One audited transaction: both the change and its event, or neither.\<close>

lemma RunAudited_outcome:
  assumes "RunAudited H env orgID change st = (res, st')"
  obtains (kept) err where "res = Inl err" "st' = st"
  | (both) ev s' row rows' where "change (fst st) = Inr (ev, s')" "evOrgID ev = orgID" "orgID \<noteq> nil_uuid"
      "AppendAdminAuditEvent H env ev (snd st) = (Inr row, rows')" "st' = (s', rows')"
      "res = Inr row \<or> res = Inl (audit_wrap ''commit'') \<and> avCommit env \<noteq> None"
  using assms
  by (auto simp: RunAudited_def split: option.splits sum.splits prod.splits if_splits)

lemma RunAudited_chains_ok: "chains_ok H (snd st) \<Longrightarrow> chains_ok H (snd (snd (RunAudited H env orgID change st)))"
proof -
  assume ok: "chains_ok H (snd st)"
  obtain res st' where r: "RunAudited H env orgID change st = (res, st')" by (cases "RunAudited H env orgID change st") simp
  then show ?thesis
    by (cases rule: RunAudited_outcome [OF r]) (use ok append_chains_ok(1) in auto)
qed

text \<open>Any sequence of audited transactions, of any organisations, with any failures.\<close>

type_synonym 's audited_call = "audit_env \<times> uuid \<times> ('s \<Rightarrow> go_error + AdminAuditEvent \<times> 's)"

fun run_all :: "(string \<Rightarrow> string) \<Rightarrow> 's audited_call list \<Rightarrow> 's audited \<Rightarrow> 's audited" where
  "run_all H [] st = st"
| "run_all H ((env, orgID, change) # cs) st = run_all H cs (snd (RunAudited H env orgID change st))"

lemma run_all_chains_ok: "chains_ok H (snd st) \<Longrightarrow> chains_ok H (snd (run_all H cs st))"
proof (induction cs arbitrary: st)
  case (Cons c cs)
  obtain env orgID change where c: "c = (env, orgID, change)" by (cases c)
  show ?case using Cons.IH [OF RunAudited_chains_ok [OF Cons.prems]] by (simp add: c)
qed simp

text \<open>C12: Whatever sequence of audited transactions ran (with failed statements, rolled-back
  changes, commits that failed with or without effect, and several organisations in between),
  the verification of every organisation's chain finds it valid, having read every event of
  that organisation up to the newest.\<close>

theorem admin_chain_verifies:
  "\<exists>res. store_VerifyAdminAuditChain H None org (snd (run_all H calls (initial, []))) = Inr res
     \<and> vrValid res \<and> vrFirstBadSeq res = None
     \<and> vrChecked res = int (length (filter (\<lambda>r. wrOrgID r = org) (snd (run_all H calls (initial, [])))))
     \<and> vrHeadSeq res = vrChecked res"
proof -
  let ?rows = "snd (run_all H calls (initial, []))"
  have ok: "chains_ok H ?rows" by (rule run_all_chains_ok) simp
  have mine: "org_rows org ?rows = filter (\<lambda>r. wrOrgID r = org) ?rows" by (rule chains_ok_org_rows [OF ok])
  have chain: "chain_from H 1 (AdminAuditGenesis H org) (org_rows org ?rows)"
    using ok by (simp add: chains_ok_def mine)
  obtain res where res: "store_VerifyAdminAuditChain H None org ?rows = Inr res"
    by (simp add: store_VerifyAdminAuditChain_def)
  note reads = verify_reads [OF res]
  have "vrValid res" using chain reads(1) by simp
  moreover have "vrHeadSeq res = vrChecked res" using reads(2,4) chain_from_last [OF chain] by auto
  moreover have "vrFirstBadSeq res = None"
    using \<open>vrValid res\<close> res by (auto simp: store_VerifyAdminAuditChain_def intro: verify_walk_no_bad)
  ultimately show ?thesis using res reads(2) mine by simp
qed


section \<open>What the hash covers\<close>

lemma put_uint32_inject:
  assumes "put_uint32 m = put_uint32 n" "m < 2 ^ 32" "n < 2 ^ 32"
  shows "m = n"
proof -
  have byte: "m div 256 ^ k mod 256 = n div 256 ^ k mod 256" if "k \<in> {3, 2, 1, 0}" for k
  proof -
    have "(char_of (m div 256 ^ k mod 256) :: char) = char_of (n div 256 ^ k mod 256)"
      using assms(1) that by (auto simp: put_uint32_def)
    then have "(of_char (char_of (m div 256 ^ k mod 256)) :: nat) = of_char (char_of (n div 256 ^ k mod 256))"
      by (simp only:)
    then show ?thesis by (simp only: of_char_of mod_mod_trivial)
  qed
  have split: "x = ((x div 256 ^ 3 mod 256 * 256 + x div 256 ^ 2 mod 256) * 256 + x div 256 ^ 1 mod 256) * 256 + x div 256 ^ 0 mod 256"
    if "x < 2 ^ 32" for x :: nat
    using four_bytes [of x] that by simp
  have "m = ((m div 256 ^ 3 mod 256 * 256 + m div 256 ^ 2 mod 256) * 256 + m div 256 ^ 1 mod 256) * 256 + m div 256 ^ 0 mod 256"
    by (rule split [OF assms(2)])
  also have "\<dots> = ((n div 256 ^ 3 mod 256 * 256 + n div 256 ^ 2 mod 256) * 256 + n div 256 ^ 1 mod 256) * 256 + n div 256 ^ 0 mod 256"
    by (simp only: byte insert_iff simp_thms)
  also have "\<dots> = n" by (rule split [OF assms(3), symmetric])
  finally show ?thesis .
qed

lemma length_put_uint32 [simp]: "length (put_uint32 n) = 4"
  by (simp add: put_uint32_def)

lemma length_prefixed_inject:
  assumes "length_prefixed ps = length_prefixed qs" "length ps = length qs"
    "\<forall>p\<in>set ps. length p < 2 ^ 32" "\<forall>q\<in>set qs. length q < 2 ^ 32"
  shows "ps = qs"
  using assms(2,1,3,4)
proof (induction ps qs rule: list_induct2)
  case (Cons p ps q qs)
  have e: "put_uint32 (length p) @ p @ length_prefixed ps = put_uint32 (length q) @ q @ length_prefixed qs"
    using Cons.prems(1) by (simp add: length_prefixed_def)
  then have "put_uint32 (length p) = put_uint32 (length q)" and rest: "p @ length_prefixed ps = q @ length_prefixed qs"
    by (simp_all add: append_eq_append_conv)
  then have "length p = length q" using Cons.prems(2,3) by (intro put_uint32_inject) simp_all
  then show ?case using rest Cons.IH Cons.prems(2,3) by (simp add: append_eq_append_conv)
qed simp

lemma length_audit_columns: "length (audit_columns r) = length (audit_columns q)"
  by (simp add: audit_columns_def)

definition short_columns :: "AdminAuditEventRow \<Rightarrow> bool" where
  "short_columns r = (\<forall>p\<in>set (audit_columns r). length p < 2 ^ 32)"

lemma same_hash_same_columns:
  assumes "inj_on H X" "length_prefixed (audit_columns r) \<in> X" "length_prefixed (audit_columns q) \<in> X"
    "short_columns r" "short_columns q" "adminAuditRowHash H r = adminAuditRowHash H q"
  shows "audit_columns r = audit_columns q"
proof -
  have "length_prefixed (audit_columns r) = length_prefixed (audit_columns q)"
    using assms(1-3,6) by (simp add: adminAuditRowHash_def inj_on_def)
  then show ?thesis
    using assms(4,5) by (intro length_prefixed_inject) (simp_all add: length_audit_columns [of r q] short_columns_def)
qed

lemma columns_prev: "audit_columns r = audit_columns q \<Longrightarrow> wrPrevHash r = wrPrevHash q"
  by (simp add: audit_columns_def)

text \<open>Two chains of one length that end in one hash hold the same columns in every row.\<close>

lemma chains_agree:
  assumes "inj_on H X" "length rs = length qs"
    "chain_from H seq prev rs" "chain_from H seq prev' qs" "tail_hash prev rs = tail_hash prev' qs"
    "\<forall>r\<in>set rs \<union> set qs. short_columns r \<and> length_prefixed (audit_columns r) \<in> X"
  shows "map audit_columns rs = map audit_columns qs"
  using assms(2-6)
proof (induction rs arbitrary: qs rule: rev_induct)
  case (snoc r rs)
  obtain qs' q where qs: "qs = qs' @ [q]" using snoc.prems(1) by (cases qs rule: rev_cases) auto
  have h: "wrHash r = adminAuditRowHash H r" "wrHash q = adminAuditRowHash H q" "wrHash r = wrHash q"
    and p: "wrPrevHash r = tail_hash prev rs" "wrPrevHash q = tail_hash prev' qs'"
    and c: "chain_from H seq prev rs" "chain_from H seq prev' qs'"
    using snoc.prems(2-4) by (simp_all add: qs chain_from_snoc)
  have cols: "audit_columns r = audit_columns q"
    using snoc.prems(5) h by (intro same_hash_same_columns [OF assms(1)]) (simp_all add: qs)
  have "map audit_columns rs = map audit_columns qs'"
    using snoc.prems(1,5) c p columns_prev [OF cols] by (intro snoc.IH) (simp_all add: qs)
  then show ?case using cols by (simp add: qs)
qed simp

text \<open>C33: Tamper evidence: when the verification finds two tables valid for an organisation
  with the same head (sequence number and hash), as before and after any edit, deletion of an
  inner row, reordering or splice from another organisation, then the organisation's rows
  agree in every hashed column, as long as SHA-256 does not collide on the encodings at hand
  and no column is longer than a 32-bit length can say.\<close>

theorem admin_chain_tamper_evident:
  assumes "store_VerifyAdminAuditChain H None org before = Inr res" "vrValid res"
    and "store_VerifyAdminAuditChain H None org after = Inr res'" "vrValid res'"
    and "vrHeadSeq res' = vrHeadSeq res" "vrHeadHash res' = vrHeadHash res"
    and "inj_on H (length_prefixed ` audit_columns ` set (org_rows org before @ org_rows org after))"
    and "\<forall>r\<in>set (org_rows org before @ org_rows org after). short_columns r"
  shows "map audit_columns (org_rows org after) = map audit_columns (org_rows org before)"
proof -
  note b = verify_reads [OF assms(1)] and a = verify_reads [OF assms(3)]
  have cb: "chain_from H 1 (AdminAuditGenesis H org) (org_rows org before)"
    and ca: "chain_from H 1 (AdminAuditGenesis H org) (org_rows org after)"
    using b(1) a(1) assms(2,4) by simp_all
  have "length (org_rows org after) = length (org_rows org before)"
    using b(4) a(4) assms(5) chain_from_last [OF cb] chain_from_last [OF ca] by (auto split: if_splits)
  moreover have "tail_hash (AdminAuditGenesis H org) (org_rows org after) = tail_hash (AdminAuditGenesis H org) (org_rows org before)"
    using b(3) a(3) assms(6) by simp
  ultimately show ?thesis
    using assms(8) by (intro chains_agree [OF assms(7) _ ca cb]) auto
qed

section \<open>No value reaches the trail\<close>

text \<open>The strings of a JSON document, other than member names.\<close>

fun json_texts :: "json \<Rightarrow> string list" where
  "json_texts (JStr s) = [s]"
| "json_texts (JArr xs) = concat (map json_texts xs)"
| "json_texts (JObj kvs) = concat (map (\<lambda>(_, v). json_texts v) kvs)"
| "json_texts JNull = []"
| "json_texts (JBool _) = []"
| "json_texts (JNum _) = []"

definition reference_ids :: "AdminAuditRefs option \<Rightarrow> uuid set" where
  "reference_ids refs = (case refs of None \<Rightarrow> {}
     | Some r \<Rightarrow> set_option (rfPresetID r) \<union> set_option (rfEnrollmentKeyID r) \<union> set_option (rfEndpointID r) \<union> set_option (rfAgentID r))"

definition closed_values :: "audit_fields \<Rightarrow> string set" where
  "closed_values fs = (\<Union>(_, f)\<in>set fs. case f of FieldEnum enum \<Rightarrow> set enum | _ \<Rightarrow> {})"

definition audit_vocabulary :: "audit_fields \<Rightarrow> AdminAuditRefs option \<Rightarrow> string \<Rightarrow> bool" where
  "audit_vocabulary fs refs s =
    (s \<in> fst ` set fs \<or> adminAuditValueHashRe s \<or> s \<in> closed_values fs \<or> adminAuditEnumNameRe s
     \<or> s \<in> set adminAuditCodes \<or> s \<in> reference_ids refs)"

lemma texts_members:
  "set (concat (map (\<lambda>(_, v). json_texts v) (member_text k s))) = (if s = [] then {} else {s})"
  "set (concat (map (\<lambda>(_, v). json_texts v) (member_id k x))) = set_option x"
  "concat (map (\<lambda>(_, v). json_texts v) (member_int k i)) = []"
  "set (concat (map (\<lambda>(_, v). json_texts v) (member_list k xs))) = set xs"
  by (auto simp: member_text_def member_id_def member_int_def member_list_def split: option.splits)

lemma change_texts:
  "set (json_texts (change_json c)) = {chField c} \<union> ({chOld c, chNew c} - {[]}) \<union> set (chItemsOld c @ chItemsNew c)
     \<union> set (chEnumAdded c) \<union> set (chEnumRemoved c)"
  unfolding change_json_def json_texts.simps map_append concat_append set_append texts_members by auto

lemma validateChange_texts:
  assumes "validateChange c f = None" "map_of fs (chField c) = Some f" "s \<in> set (json_texts (change_json c))"
  shows "audit_vocabulary fs refs s"
proof -
  have field: "chField c \<in> fst ` set fs" "(chField c, f) \<in> set fs"
    using map_of_SomeD [OF assms(2)] by force+
  have hashes: "is_hash (chOld c)" "is_hash (chNew c)" "\<forall>h\<in>set (chItemsOld c @ chItemsNew c). adminAuditValueHashRe h"
    using assms(1) by (auto simp: validateChange_def list_ex_iff split: if_splits)
  have enum: "set (chEnumAdded c) \<subseteq> closed_values fs" "\<forall>v\<in>set (chEnumRemoved c). adminAuditEnumNameRe v"
    using assms(1) field(2)
    by (auto simp: validateChange_def closed_values_def list_data_def list_ex_iff split: if_splits audit_field.splits)
  show ?thesis
    using assms(3) field(1) hashes enum unfolding change_texts audit_vocabulary_def is_hash_def by auto
qed

lemma validate_changes_all:
  "validate_changes fs seen cs = None \<Longrightarrow> c \<in> set cs \<Longrightarrow> \<exists>f. map_of fs (chField c) = Some f \<and> validateChange c f = None"
  by (induction fs seen cs rule: validate_changes.induct) (auto split: option.splits if_splits)

lemma summary_texts:
  "set (json_texts (summary_json s)) = (\<Union>c\<in>set (smChanges s). set (json_texts (change_json c))) \<union> set (smCodes s) \<union> reference_ids (smRefs s)"
proof -
  have refs: "set (json_texts (refs_json r)) = reference_ids (Some r)" for r
    unfolding refs_json_def json_texts.simps map_append concat_append set_append texts_members reference_ids_def by auto
  have "set (concat (map (\<lambda>(_, v). json_texts v) (case smRefs s of None \<Rightarrow> [] | Some r \<Rightarrow> [(''refs'', refs_json r)])))
      = reference_ids (smRefs s)"
    by (cases "smRefs s") (simp_all add: refs, simp add: reference_ids_def)
  moreover have "set (concat (map (\<lambda>(_, v). json_texts v) (if smChanges s = [] then [] else [(''changes'', JArr (map change_json (smChanges s)))])))
      = (\<Union>c\<in>set (smChanges s). set (json_texts (change_json c)))"
    by auto
  ultimately show ?thesis
    unfolding summary_json_def json_texts.simps map_append concat_append set_append texts_members
    by (simp add: Un_assoc)
qed

lemma validated_texts:
  assumes "validateAdminAuditEvent ev = Inr act" "s \<in> set (json_texts (summary_json (evSummary ev)))"
  shows "audit_vocabulary (actFields act) (smRefs (evSummary ev)) s"
proof -
  have changes: "validate_changes (actFields act) [] (smChanges (evSummary ev)) = None"
    and codes: "set (smCodes (evSummary ev)) \<subseteq> set adminAuditCodes"
    using assms(1) by (auto simp: validateAdminAuditEvent_def list_ex_iff split: option.splits if_splits)
  consider c where "c \<in> set (smChanges (evSummary ev))" "s \<in> set (json_texts (change_json c))"
    | "s \<in> set (smCodes (evSummary ev))" | "s \<in> reference_ids (smRefs (evSummary ev))"
    using assms(2) unfolding summary_texts by blast
  then show ?thesis
  proof cases
    case 1
    then show ?thesis using validate_changes_all [OF changes 1(1)] validateChange_texts by blast
  qed (use codes in \<open>auto simp: audit_vocabulary_def\<close>)
qed


text \<open>C34: No value of a field reaches the trail: the summary of every stored event is the JSON of a
  document whose strings are names of fields registered for its action, 16-digit value hashes,
  members of a closed list, plain identifiers, stable codes, or the identifiers of its typed
  references.\<close>

theorem admin_audit_holds_no_values:
  assumes "AppendAdminAuditEvent H env ev rows = (Inr row, rows')"
  shows "\<exists>doc act. avMarshal env doc = Inr (wrSummary row) \<and> adminAuditActions (wrAction row) = Some act
     \<and> wrTargetType row = actTargetType act
     \<and> (\<forall>s\<in>set (json_texts doc). audit_vocabulary (actFields act) (smRefs (evSummary ev)) s)"
proof -
  obtain act summary where v: "validateAdminAuditEvent ev = Inr act"
    and m: "avMarshal env (summary_json (evSummary ev)) = Inr summary"
    and row: "row = chained_row H rows (event_row env act ev summary)"
    using assms by (auto simp: AppendAdminAuditEvent_def Let_def split: sum.splits if_splits prod.splits option.splits)
  have "adminAuditActions (evAction ev) = Some act"
    using v by (auto simp: validateAdminAuditEvent_def split: option.splits if_splits)
  then show ?thesis
    using m validated_texts [OF v]
    by (intro exI [of _ "summary_json (evSummary ev)"] exI [of _ act])
      (simp add: row chained_row_def event_row_def Let_def split: prod.splits)
qed

section \<open>Concrete events\<close>

definition sample_audit_env :: audit_env where
  "sample_audit_env = \<lparr>avBegin = None, avIsolation = Inr ''read committed'', avLockTimeout = None, avLock = None, avHead = None,
     avInsert = None, avCommit = None, avNow = 0, avNewID = ''e1'', avMarshal = (\<lambda>_. Inr ''{}''), avIsJSONObject = (\<lambda>s. s = ''{}'')\<rparr>"

definition zero_digest :: "string \<Rightarrow> string" where
  "zero_digest s = replicate 64 (CHR ''0'')"

definition sample_audit_event :: AdminAuditEvent where
  "sample_audit_event = \<lparr>evOrgID = ''o1'', evActor = \<lparr>actorType = ''user'', actorUserID = ''u1'', actorRole = ''admin''\<rparr>,
     evAction = ''preset.draft_updated'', evTargetID = ''p1'',
     evSummary = \<lparr>smChanges = [AdminAuditFieldChanged ''name'',
          AdminAuditValueChange (\<lambda>_. ''sha256:0123456789abcdef'') ''scan_interval_seconds'' None (Some (JNum 300)),
          AdminAuditEnumChange ''scanners'' [''gpu''] [''models'']],
        smCodes = [''path_root''], smRefs = None\<rparr>,
     evSource = ''api'', evRequestID = ''req-1''\<rparr>"

lemma sample_event_valid: "validateAdminAuditEvent sample_audit_event = Inr \<lparr>actTargetType = ''preset'', actFields = presetFields\<rparr>"
  by code_simp

definition sample_event_row :: "(string \<Rightarrow> string) \<Rightarrow> AdminAuditEventRow" where
  "sample_event_row H = chained_row H [] (event_row sample_audit_env \<lparr>actTargetType = ''preset'', actFields = presetFields\<rparr> sample_audit_event ''{}'')"

lemma sample_event_row_eq:
  "sample_event_row zero_digest = \<lparr>wrID = ''e1'', wrOrgID = ''o1'', wrSeq = 1, wrOccurredAt = 0, wrActorType = ''user'',
     wrActorUserID = Some ''u1'', wrActorRole = ''admin'', wrAction = ''preset.draft_updated'', wrTargetType = ''preset'', wrTargetID = ''p1'',
     wrSummary = ''{}'', wrSource = ''api'', wrRequestID = Some ''req-1'',
     wrPrevHash = replicate 64 (CHR ''0''), wrHash = replicate 64 (CHR ''0'')\<rparr>"
proof -
  have "adminAuditRequestIDRe ''req-1''" by code_simp
  then show ?thesis
    by (simp add: sample_event_row_def chained_row_def event_row_def chain_head_def org_rows_def sample_audit_env_def
        sample_audit_event_def AdminAuditGenesis_def adminAuditRowHash_def zero_digest_def wrap64_eq)
qed

lemma sample_checks: "audit_checks sample_audit_env [] (sample_event_row zero_digest)"
  unfolding sample_event_row_eq by (simp add: audit_checks_def) code_simp

lemma sample_env_answers:
  "avMarshal sample_audit_env v = Inr ''{}''" "avIsolation sample_audit_env = Inr ''read committed''" "avLockTimeout sample_audit_env = None"
  "avLock sample_audit_env = None" "avHead sample_audit_env = None" "avInsert sample_audit_env = None"
  by (simp_all add: sample_audit_env_def)

lemma sample_append:
  "AppendAdminAuditEvent zero_digest sample_audit_env sample_audit_event []
     = (Inr (sample_event_row zero_digest), [(sample_event_row zero_digest)\<lparr>wrOccurredAt := pg_timestamp (wrOccurredAt (sample_event_row zero_digest))\<rparr>])"
  using sample_checks
  by (simp add: AppendAdminAuditEvent_def insert_event_def Let_def sample_env_answers sample_event_valid flip: sample_event_row_def)

theorem admin_audit_holds_no_values_witness:
  "\<exists>doc act. avMarshal sample_audit_env doc = Inr (wrSummary (sample_event_row zero_digest))
     \<and> adminAuditActions (wrAction (sample_event_row zero_digest)) = Some act
     \<and> set (json_texts doc) \<subseteq> Collect (audit_vocabulary (actFields act) (smRefs (evSummary sample_audit_event)))"
  using admin_audit_holds_no_values [OF sample_append] unfolding subset_eq mem_Collect_eq by blast

text \<open>A table and the same table after rows of another organisation were added in front; the digest
  is the encoding itself, which cannot collide.\<close>

lemma sample_identity_row:
  "audit_columns (sample_event_row (\<lambda>s. s)) = [''eami-admin-audit-v1'', ''eami-admin-audit-genesis-v1o1'', ''e1'', ''o1'', show_int 1, format_micro 0,
     ''user'', ''u1'', ''admin'', ''preset.draft_updated'', ''preset'', ''p1'', ''{}'', ''api'', ''req-1'']"
  "wrOrgID (sample_event_row (\<lambda>s. s)) = ''o1''"
  "chain_from (\<lambda>s. s) 1 (AdminAuditGenesis (\<lambda>s. s) ''o1'') [sample_event_row (\<lambda>s. s)]"
proof -
  have q: "adminAuditRequestIDRe ''req-1''" by code_simp
  have w: "wrap64 1 = 1" by (simp add: wrap64_eq)
  show "audit_columns (sample_event_row (\<lambda>s. s)) = [''eami-admin-audit-v1'', ''eami-admin-audit-genesis-v1o1'', ''e1'', ''o1'', show_int 1, format_micro 0,
     ''user'', ''u1'', ''admin'', ''preset.draft_updated'', ''preset'', ''p1'', ''{}'', ''api'', ''req-1'']"
    "wrOrgID (sample_event_row (\<lambda>s. s)) = ''o1''"
    by (simp_all add: sample_event_row_def chained_row_def event_row_def chain_head_def org_rows_def sample_audit_env_def
        sample_audit_event_def AdminAuditGenesis_def audit_columns_def q w)
  show "chain_from (\<lambda>s. s) 1 (AdminAuditGenesis (\<lambda>s. s) ''o1'') [sample_event_row (\<lambda>s. s)]"
    by (simp add: sample_event_row_def chained_row_def event_row_def chain_head_def org_rows_def sample_audit_env_def
        sample_audit_event_def AdminAuditGenesis_def adminAuditRowHash_def audit_columns_def q w)
qed

lemma sample_time: "format_micro 0 = ''1970-01-01T00:00:00.000000Z''"
  by code_simp

lemma sample_short: "short_columns (sample_event_row (\<lambda>s. s))"
proof -
  have "show_int 1 = ''1''" by code_simp
  then show ?thesis by (simp add: short_columns_def sample_identity_row(1) sample_time)
qed

theorem admin_chain_tamper_evident_witness:
  "map audit_columns (org_rows ''o1'' [(sample_event_row (\<lambda>s. s))\<lparr>wrOrgID := ''o2''\<rparr>, sample_event_row (\<lambda>s. s)])
     = map audit_columns (org_rows ''o1'' [sample_event_row (\<lambda>s. s)])"
proof -
  let ?r = "sample_event_row (\<lambda>s. s)" let ?after = "[?r\<lparr>wrOrgID := ''o2''\<rparr>, ?r]"
  have rows: "org_rows ''o1'' [?r] = [?r]" "org_rows ''o1'' ?after = [?r]"
    using sample_identity_row(2) by (simp_all add: org_rows_def)
  obtain res res' where v: "store_VerifyAdminAuditChain (\<lambda>s. s) None ''o1'' [?r] = Inr res"
      "store_VerifyAdminAuditChain (\<lambda>s. s) None ''o1'' ?after = Inr res'"
    by (simp add: store_VerifyAdminAuditChain_def)
  show ?thesis
  proof (rule admin_chain_tamper_evident [OF v(1) _ v(2)])
    show "vrValid res" "vrValid res'"
      using verify_reads(1) [OF v(1)] verify_reads(1) [OF v(2)] sample_identity_row(3) rows by simp_all
    show "vrHeadSeq res' = vrHeadSeq res" "vrHeadHash res' = vrHeadHash res"
      using verify_reads(3,4) [OF v(1)] verify_reads(3,4) [OF v(2)] rows by simp_all
  qed (simp_all add: rows sample_short)
qed

end
