(* ===== verification/Api_Keys.thy ===== *)
theory Api_Keys
  imports Admin_Audit Identity_Tokens Registry_Liveness
begin

text \<open>
  The API keys of governed agents in the admin API: their creation, listing and revocation
  (eami-api \<^verbatim>\<open>internal/api/auth.go\<close>, the key handlers; \<^verbatim>\<open>internal/auth/auth.go\<close>,
  \<^verbatim>\<open>APIKeyFromRaw\<close>; \<^verbatim>\<open>internal/store/auth.sql.go\<close>) and the cascade that revokes the tokens of a
  key (\<^verbatim>\<open>internal/store/agent_liveness.go\<close>), run inside the audited transaction of
  \<open>Admin_Audit\<close>.
  \<^item> \<open>sha256\<close> is the digest as bytes, as in \<open>Identity_Tokens\<close>; the gateway's view of the tables
    is \<open>gateway_key\<close> and \<open>keys_view\<close>.
  \<^item> The lemmas show that a created key is the one the gateway accepts, for the agent it was
    bound to, and that a revocation is complete or changes nothing.
\<close>

section \<open>Tables\<close>

record key_row =
  kyID :: uuid
  kyOrgID :: uuid
  kyName :: string
  kyKeyHash :: string
  kyPrefix :: string
  kyScopes :: "string list"
  kyCreatedBy :: "uuid option"
  kyCreatedAt :: time
  kyLastUsed :: "time option"
  kyExpiresAt :: "time option"
  kyAgentID :: "uuid option"
  kyRevoked :: bool

record token_event_row =
  tvOrgID :: uuid
  tvAgentID :: "uuid option"
  tvAgentName :: string
  tvAPIKeyID :: "uuid option"
  tvJTI :: string
  tvType :: string
  tvCreatedAt :: time

record revoked_row =
  rkJTI :: string
  rkAgentID :: uuid
  rkReason :: string

text \<open>\<open>ksNotified\<close>: the \<^verbatim>\<open>token_revoked\<close> notifications, delivered when the transaction
  commits.\<close>

record key_state =
  ksKeys :: "key_row list"
  ksAgents :: "agent_row list"
  ksEvents :: "token_event_row list"
  ksRevoked :: "revoked_row list"
  ksNotified :: "string list"

definition gateway_key :: "key_row \<Rightarrow> api_key_row" where
  "gateway_key k = \<lparr>akID = kyID k, akOrgID = kyOrgID k, akAgentID = kyAgentID k, akKeyHash = kyKeyHash k,
     akRevoked = kyRevoked k, akExpiresAt = kyExpiresAt k\<rparr>"

section \<open>Generation and statements\<close>

text \<open>\<open>random\<close>: the 24 bytes of \<^verbatim>\<open>rand.Read\<close>.\<close>

definition APIKeyFromRaw :: "(string \<Rightarrow> string) \<Rightarrow> string result \<Rightarrow> (string \<times> string \<times> string) result" where
  "APIKeyFromRaw sha256 random =
    (case random of
       Inl err \<Rightarrow> Inl (Wrapped ''auth: generate api key'' err)
     | Inr b \<Rightarrow> let key = ''eami_k_'' @ hex_encode b in Inr (key, take 12 key, hex_encode (sha256 key)))"

definition store_ListAPIKeys :: "go_error option \<Rightarrow> uuid \<Rightarrow> key_row list \<Rightarrow> key_row list result" where
  "store_ListAPIKeys dbErr org keys =
    (case dbErr of
       Some err \<Rightarrow> Inl err
     | None \<Rightarrow> Inr (rev (sort_key kyCreatedAt (filter (\<lambda>k. kyOrgID k = org \<and> \<not> kyRevoked k) keys))))"

definition store_GetAPIKeyByHash :: "go_error option \<Rightarrow> time \<Rightarrow> string \<Rightarrow> key_row list \<Rightarrow> key_row result" where
  "store_GetAPIKeyByHash dbErr now h keys =
    (case dbErr of
       Some err \<Rightarrow> Inl err
     | None \<Rightarrow>
       (case List.find (\<lambda>k. kyKeyHash k = h \<and> \<not> kyRevoked k \<and> (case kyExpiresAt k of None \<Rightarrow> True | Some t \<Rightarrow> now < t)) keys of
          None \<Rightarrow> Inl (Sentinel ErrNoRows) | Some k \<Rightarrow> Inr k))"

record CreateAPIKeyParams =
  cpOrgID :: uuid
  cpName :: string
  cpKeyHash :: string
  cpPrefix :: string
  cpScopes :: "string list"
  cpCreatedBy :: "uuid option"
  cpExpiresAt :: "time option"
  cpAgentID :: "uuid option"

text \<open>The table gives the id and the time, and its \<^verbatim>\<open>UNIQUE (key_hash)\<close> and the foreign key of
  the agent refuse the rest.\<close>

definition store_CreateAPIKey ::
  "agent_env \<Rightarrow> go_error option \<Rightarrow> uuid \<Rightarrow> time \<Rightarrow> CreateAPIKeyParams \<Rightarrow> key_state \<Rightarrow> key_row result \<times> key_state" where
  "store_CreateAPIKey env dbErr newID now p st =
    (case dbErr of
       Some err \<Rightarrow> (Inl err, st)
     | None \<Rightarrow>
       if cpKeyHash p \<in> kyKeyHash ` set (ksKeys st) then (Inl (peUnique (aePg env)), st)
       else if (case cpAgentID p of None \<Rightarrow> False | Some a \<Rightarrow> a \<notin> awID ` set (ksAgents st)) then (Inl (aeForeignKey env), st)
       else let k = \<lparr>kyID = newID, kyOrgID = cpOrgID p, kyName = cpName p, kyKeyHash = cpKeyHash p, kyPrefix = cpPrefix p,
              kyScopes = cpScopes p, kyCreatedBy = cpCreatedBy p, kyCreatedAt = now, kyLastUsed = None, kyExpiresAt = cpExpiresAt p,
              kyAgentID = cpAgentID p, kyRevoked = False\<rparr>
            in (Inr k, st\<lparr>ksKeys := ksKeys st @ [k]\<rparr>))"

section \<open>The cascade (agent\_liveness.go)\<close>

definition NotifyAgentStatus :: "go_error option \<Rightarrow> uuid \<Rightarrow> uuid list \<Rightarrow> go_error option \<times> uuid list" where
  "NotifyAgentStatus dbErr agentID sent = (case dbErr of Some err \<Rightarrow> (Some err, sent) | None \<Rightarrow> (None, sent @ [agentID]))"

definition maxGatewayTokenLifetime :: duration where
  "maxGatewayTokenLifetime = 4 * 3600 * second"

text \<open>The errors of the statements; the last two are indexed by the token they are for.\<close>

record cascade_env =
  csUpdate :: "go_error option"
  csTokens :: "go_error option"
  csScan :: "go_error option"
  csRows :: "go_error option"
  csRecordErr :: "string \<Rightarrow> go_error option"
  csNotifyErr :: "string \<Rightarrow> go_error option"

text \<open>\<^verbatim>\<open>SELECT DISTINCT ON (jti)\<close> without an order keeps one row of each token id, here the
  first.\<close>

fun distinct_on :: "('a \<Rightarrow> 'b) \<Rightarrow> 'b list \<Rightarrow> 'a list \<Rightarrow> 'a list" where
  "distinct_on f seen [] = []"
| "distinct_on f seen (x # xs) = (if f x \<in> set seen then distinct_on f seen xs else x # distinct_on f (f x # seen) xs)"

definition live_issue :: "uuid \<Rightarrow> uuid \<Rightarrow> time \<Rightarrow> key_state \<Rightarrow> token_event_row \<Rightarrow> bool" where
  "live_issue orgID keyID now st e =
    (tvOrgID e = orgID \<and> tvAPIKeyID e = Some keyID \<and> tvType e = ''issued'' \<and> now - maxGatewayTokenLifetime < tvCreatedAt e
     \<and> (\<exists>a\<in>set (ksAgents st). tvAgentID e = Some (awID a) \<and> awOrgID a = tvOrgID e))"

definition live_tokens :: "uuid \<Rightarrow> uuid \<Rightarrow> time \<Rightarrow> key_state \<Rightarrow> token_event_row list" where
  "live_tokens orgID keyID now st = distinct_on tvJTI [] (filter (live_issue orgID keyID now st) (ksEvents st))"

text \<open>\<^verbatim>\<open>ON CONFLICT (jti) DO NOTHING RETURNING jti\<close>.\<close>

definition newly_revoked :: "uuid \<Rightarrow> uuid \<Rightarrow> time \<Rightarrow> key_state \<Rightarrow> token_event_row list" where
  "newly_revoked orgID keyID now st = filter (\<lambda>e. tvJTI e \<notin> rkJTI ` set (ksRevoked st)) (live_tokens orgID keyID now st)"

definition insert_revoked :: "token_event_row list \<Rightarrow> key_state \<Rightarrow> key_state" where
  "insert_revoked es st = st\<lparr>ksRevoked := ksRevoked st
     @ map (\<lambda>e. \<lparr>rkJTI = tvJTI e, rkAgentID = (case tvAgentID e of None \<Rightarrow> nil_uuid | Some a \<Rightarrow> a), rkReason = ''api_key_revoked''\<rparr>) es\<rparr>"

fun record_each :: "cascade_env \<Rightarrow> uuid \<Rightarrow> uuid \<Rightarrow> time \<Rightarrow> token_event_row list \<Rightarrow> key_state \<Rightarrow> go_error + key_state" where
  "record_each env orgID keyID now [] st = Inr st"
| "record_each env orgID keyID now (t # ts) st =
    (case csRecordErr env (tvJTI t) of
       Some err \<Rightarrow> Inl (Wrapped ''record token revocation'' err)
     | None \<Rightarrow>
       (let st1 = st\<lparr>ksEvents := ksEvents st @ [\<lparr>tvOrgID = orgID, tvAgentID = tvAgentID t, tvAgentName = tvAgentName t,
              tvAPIKeyID = Some keyID, tvJTI = tvJTI t, tvType = ''revoked'', tvCreatedAt = now\<rparr>]\<rparr>
        in case csNotifyErr env (tvJTI t) of
             Some err \<Rightarrow> Inl (Wrapped ''notify token revocation'' err)
           | None \<Rightarrow> record_each env orgID keyID now ts (st1\<lparr>ksNotified := ksNotified st1 @ [tvJTI t]\<rparr>)))"

definition revoke_key_rows :: "uuid \<Rightarrow> uuid \<Rightarrow> key_state \<Rightarrow> key_state" where
  "revoke_key_rows keyID orgID st = st\<lparr>ksKeys := map (\<lambda>k. if kyID k = keyID \<and> kyOrgID k = orgID then k\<lparr>kyRevoked := True\<rparr> else k) (ksKeys st)\<rparr>"

definition RevokeAPIKeyAndTokens ::
  "cascade_env \<Rightarrow> time \<Rightarrow> uuid \<Rightarrow> uuid \<Rightarrow> key_state \<Rightarrow> go_error + (uuid option \<times> nat) \<times> key_state" where
  "RevokeAPIKeyAndTokens env now keyID orgID st =
    (case csUpdate env of
       Some err \<Rightarrow> Inl (Wrapped ''revoke api key'' err)
     | None \<Rightarrow>
       (case List.find (\<lambda>k. kyID k = keyID \<and> kyOrgID k = orgID) (ksKeys st) of
          None \<Rightarrow> Inl (Sentinel ErrAPIKeyNotFound)
        | Some k \<Rightarrow>
          (let st1 = revoke_key_rows keyID orgID st; revoked = newly_revoked orgID keyID now st1
           in if csTokens env \<noteq> None then Inl (Wrapped ''revoke tokens'' (the (csTokens env)))
              else if csScan env \<noteq> None \<and> revoked \<noteq> [] then Inl (Wrapped ''revoke tokens: scan'' (the (csScan env)))
              else if csRows env \<noteq> None then Inl (Wrapped ''revoke tokens'' (the (csRows env)))
              else case record_each env orgID keyID now revoked (insert_revoked revoked st1) of
                Inl err \<Rightarrow> Inl err
              | Inr st2 \<Rightarrow> Inr ((kyAgentID k, length revoked), st2))))"

section \<open>Handlers (auth.go)\<close>

record APIKeyResp =
  akrID :: uuid
  akrName :: string
  akrPrefix :: string
  akrScopes :: "string list"
  akrCreatedAt :: time
  akrLastUsed :: "time option"
  akrExpiresAt :: "time option"
  akrAgentID :: "uuid option"

definition apiKeyToResp :: "key_row \<Rightarrow> APIKeyResp" where
  "apiKeyToResp k = \<lparr>akrID = kyID k, akrName = kyName k, akrPrefix = kyPrefix k, akrScopes = kyScopes k, akrCreatedAt = kyCreatedAt k,
     akrLastUsed = kyLastUsed k, akrExpiresAt = kyExpiresAt k, akrAgentID = kyAgentID k\<rparr>"

definition ListAPIKeys :: "agent_env \<Rightarrow> go_error option \<Rightarrow> userClaims \<Rightarrow> key_state \<Rightarrow> api_error + int \<times> APIKeyResp list" where
  "ListAPIKeys env dbErr uc st =
    (case store_ListAPIKeys dbErr (ucOrgID uc) (ksKeys st) of
       Inl err \<Rightarrow> Inl (internal_error (peErrText (aePg env) err))
     | Inr keys \<Rightarrow> Inr (200, map apiKeyToResp keys))"

text \<open>\<open>rfc3339\<close> and \<open>dateOnly\<close>: \<^verbatim>\<open>time.Parse\<close> with the two layouts.\<close>

definition parseAPIKeyExpiresAt :: "(string \<Rightarrow> time option) \<Rightarrow> (string \<Rightarrow> time option) \<Rightarrow> string \<Rightarrow> time option result" where
  "parseAPIKeyExpiresAt rfc3339 dateOnly v =
    (if v = [] then Inr None
     else case rfc3339 v of Some t \<Rightarrow> Inr (Some t)
     | None \<Rightarrow> (case dateOnly v of Some t \<Rightarrow> Inr (Some t) | None \<Rightarrow> Inl (ErrText ''expires_at must be RFC3339 or YYYY-MM-DD'')))"

record CreateAPIKeyRequest =
  ckName :: string
  ckScopes :: "string list"
  ckExpiresAt :: string
  ckAgentID :: string

definition bound_agent :: "agent_env \<Rightarrow> go_error option \<Rightarrow> userClaims \<Rightarrow> string \<Rightarrow> key_state \<Rightarrow> api_error + uuid option" where
  "bound_agent env readErr uc raw st =
    (if raw = [] then Inr None
     else case peParseUUID (aePg env) raw of
       None \<Rightarrow> Inl (400, ''bad_request'', ''agent_id must be a valid UUID'')
     | Some i \<Rightarrow>
       (case store_GetAgent readErr i (ucOrgID uc) \<lparr>abAgents = ksAgents st, abConfigs = [], abEvents = [], abHistory = []\<rparr> of
          Inl err \<Rightarrow>
            if err = Sentinel ErrNoRows then Inl (400, ''bad_request'', ''agent_id does not refer to an agent in this org'')
            else Inl (internal_error (peErrText (aePg env) err))
        | Inr a \<Rightarrow>
            if awStatus a \<noteq> ''active''
            then Inl (400, ''bad_request'', ''agent_id refers to an agent that is not active (status: '' @ awStatus a @ '')'')
            else Inr (Some i)))"

record key_request_env =
  kqRFC3339 :: "string \<Rightarrow> time option"
  kqDateOnly :: "string \<Rightarrow> time option"
  kqReadErr :: "go_error option"
  kqRandom :: "string result"
  kqInsertErr :: "go_error option"
  kqNewID :: uuid
  kqNow :: time

text \<open>\<open>body\<close>: the decoded request, None when it does not parse.\<close>

definition CreateAPIKey ::
  "agent_env \<Rightarrow> (string \<Rightarrow> string) \<Rightarrow> key_request_env \<Rightarrow> userClaims \<Rightarrow> CreateAPIKeyRequest option \<Rightarrow> key_state
   \<Rightarrow> (api_error + int \<times> string \<times> APIKeyResp) \<times> key_state" where
  "CreateAPIKey env sha256 q uc body st =
    (if body = None \<or> ckName (the body) = [] then (Inl (400, ''bad_request'', ''name is required''), st)
     else let req = the body in
       case parseAPIKeyExpiresAt (kqRFC3339 q) (kqDateOnly q) (ckExpiresAt req) of
         Inl err \<Rightarrow> (Inl (400, ''bad_request'', peErrText (aePg env) err), st)
       | Inr expiresAt \<Rightarrow>
         (case bound_agent env (kqReadErr q) uc (ckAgentID req) st of
            Inl e \<Rightarrow> (Inl e, st)
          | Inr agent \<Rightarrow>
            (case APIKeyFromRaw sha256 (kqRandom q) of
               Inl _ \<Rightarrow> (Inl (500, ''internal_error'', ''could not generate key''), st)
             | Inr (rawKey, pre, keyHash) \<Rightarrow>
               (case store_CreateAPIKey env (kqInsertErr q) (kqNewID q) (kqNow q)
                   \<lparr>cpOrgID = ucOrgID uc, cpName = ckName req, cpKeyHash = keyHash, cpPrefix = pre, cpScopes = ckScopes req,
                    cpCreatedBy = Some (ucUserID uc), cpExpiresAt = expiresAt, cpAgentID = agent\<rparr> st of
                  (Inl err, st') \<Rightarrow> (Inl (internal_error (peErrText (aePg env) err)), st')
                | (Inr k, st') \<Rightarrow> (Inr (201, rawKey, apiKeyToResp k), st')))))"

text \<open>The audited change of a revocation.\<close>

definition revocation_event :: "userClaims \<Rightarrow> uuid \<Rightarrow> string \<Rightarrow> uuid option \<Rightarrow> nat \<Rightarrow> AdminAuditEvent" where
  "revocation_event uc keyID requestID agentID n =
    \<lparr>evOrgID = ucOrgID uc, evActor = adminAuditActor uc, evAction = ''api_key.revoked'', evTargetID = keyID,
     evSummary = \<lparr>smChanges = [], smCodes = [], smRefs = Some \<lparr>rfPresetID = None, rfPresetVersion = None, rfFromVersion = None,
        rfEnrollmentKeyID = None, rfEndpointID = None, rfAgentID = agentID, rfCount = Some (wrap32 (int n))\<rparr>\<rparr>,
     evSource = ''api'', evRequestID = requestID\<rparr>"

definition revoke_change :: "cascade_env \<Rightarrow> time \<Rightarrow> userClaims \<Rightarrow> uuid \<Rightarrow> string \<Rightarrow> key_state \<Rightarrow> go_error + AdminAuditEvent \<times> key_state" where
  "revoke_change cenv now uc keyID requestID st =
    (case RevokeAPIKeyAndTokens cenv now keyID (ucOrgID uc) st of
       Inl err \<Rightarrow> Inl err
     | Inr ((agentID, n), st') \<Rightarrow> Inr (revocation_event uc keyID requestID agentID n, st'))"

definition revoke_error :: "go_error \<Rightarrow> api_error" where
  "revoke_error err =
    (if errors_is ErrAPIKeyNotFound err then (404, ''not_found'', ''API key not found'')
     else case writeAdminAuditFailure err of
       Some e \<Rightarrow> e
     | None \<Rightarrow> (500, ''key_revocation_failed'', ''the API key was not revoked because its tokens could not be revoked''))"

definition RevokeAPIKey ::
  "(string \<Rightarrow> string) \<Rightarrow> policy_env \<Rightarrow> audit_env \<Rightarrow> cascade_env \<Rightarrow> time \<Rightarrow> userClaims \<Rightarrow> string \<Rightarrow> string \<Rightarrow> key_state audited
   \<Rightarrow> (api_error + int) \<times> key_state audited" where
  "RevokeAPIKey H env aenv cenv now uc raw requestID st =
    (case peParseUUID env raw of
       None \<Rightarrow> (Inl (400, ''bad_request'', ''invalid keyId''), st)
     | Some keyID \<Rightarrow>
       (case RunAudited H aenv (ucOrgID uc) (revoke_change cenv now uc keyID requestID) st of
          (Inl err, st') \<Rightarrow> (Inl (revoke_error err), st')
        | (Inr _, st') \<Rightarrow> (Inr 204, st')))"

section \<open>The cascade is complete\<close>

lemma distinct_on_keys: "f ` set (distinct_on f seen xs) = f ` set xs - set seen"
  by (induction f seen xs rule: distinct_on.induct) auto

lemma distinct_on_subset: "set (distinct_on f seen xs) \<subseteq> set xs"
  by (induction f seen xs rule: distinct_on.induct) auto

lemma record_each_keeps:
  "record_each env orgID keyID now ts st = Inr st' \<Longrightarrow> ksKeys st' = ksKeys st \<and> ksRevoked st' = ksRevoked st \<and> ksAgents st' = ksAgents st
     \<and> ksNotified st' = ksNotified st @ map tvJTI ts
     \<and> (\<exists>more. ksEvents st' = ksEvents st @ more \<and> map tvJTI more = map tvJTI ts \<and> (\<forall>e\<in>set more. tvType e = ''revoked''))"
proof (induction ts arbitrary: st)
  case Nil then show ?case by simp
next
  case (Cons t ts)
  obtain st1 where st1: "record_each env orgID keyID now ts st1 = Inr st'"
    "ksKeys st1 = ksKeys st" "ksRevoked st1 = ksRevoked st" "ksAgents st1 = ksAgents st" "ksNotified st1 = ksNotified st @ [tvJTI t]"
    "\<exists>e. ksEvents st1 = ksEvents st @ [e] \<and> tvJTI e = tvJTI t \<and> tvType e = ''revoked''"
    using Cons.prems by (fastforce simp: Let_def split: option.splits)
  obtain e where e: "ksEvents st1 = ksEvents st @ [e]" "tvJTI e = tvJTI t" "tvType e = ''revoked''" using st1(6) by blast
  obtain more where more: "ksEvents st' = ksEvents st1 @ more" "map tvJTI more = map tvJTI ts" "\<forall>e\<in>set more. tvType e = ''revoked''"
    using Cons.IH [OF st1(1)] by blast
  have "ksEvents st' = ksEvents st @ (e # more) \<and> map tvJTI (e # more) = map tvJTI (t # ts) \<and> (\<forall>x\<in>set (e # more). tvType x = ''revoked'')"
    using e more by simp
  then have "\<exists>more. ksEvents st' = ksEvents st @ more \<and> map tvJTI more = map tvJTI (t # ts) \<and> (\<forall>e\<in>set more. tvType e = ''revoked'')"
    by (rule exI [where x = "e # more"])
  then show ?case using Cons.IH [OF st1(1)] st1(2-5) by (simp only: append.assoc append_Cons append_Nil list.map simp_thms)
qed

text \<open>What a successful cascade leaves: the key is revoked, and so is every token that the key
  issued to an existing agent within the lifetime of a token.\<close>

lemma cascade_complete:
  assumes "RevokeAPIKeyAndTokens env now keyID orgID st = Inr ((agentID, n), st')"
  shows "\<exists>k\<in>set (ksKeys st'). kyID k = keyID \<and> kyOrgID k = orgID \<and> kyRevoked k"
    "\<forall>k\<in>set (ksKeys st'). kyID k = keyID \<and> kyOrgID k = orgID \<longrightarrow> kyRevoked k"
    "\<forall>e\<in>set (ksEvents st). live_issue orgID keyID now st e \<longrightarrow> tvJTI e \<in> rkJTI ` set (ksRevoked st')"
    "set (ksRevoked st) \<subseteq> set (ksRevoked st')"
    "ksNotified st' = ksNotified st @ map tvJTI (newly_revoked orgID keyID now (revoke_key_rows keyID orgID st))"
    "n = length (newly_revoked orgID keyID now (revoke_key_rows keyID orgID st))"
proof -
  let ?st1 = "revoke_key_rows keyID orgID st"
  let ?rev = "newly_revoked orgID keyID now ?st1"
  obtain k where k: "List.find (\<lambda>k. kyID k = keyID \<and> kyOrgID k = orgID) (ksKeys st) = Some k"
    and rec: "record_each env orgID keyID now ?rev (insert_revoked ?rev ?st1) = Inr st'" and n: "n = length ?rev"
    using assms by (auto simp: RevokeAPIKeyAndTokens_def Let_def split: option.splits if_splits sum.splits)
  note kept = record_each_keeps [OF rec]
  have keys: "ksKeys st' = map (\<lambda>k. if kyID k = keyID \<and> kyOrgID k = orgID then k\<lparr>kyRevoked := True\<rparr> else k) (ksKeys st)"
    using kept by (simp add: insert_revoked_def revoke_key_rows_def)
  show "\<exists>k\<in>set (ksKeys st'). kyID k = keyID \<and> kyOrgID k = orgID \<and> kyRevoked k"
    using find_Some_set [OF k] unfolding keys by (auto intro!: bexI [of _ "k\<lparr>kyRevoked := True\<rparr>"] image_eqI [of _ _ k])
  show "\<forall>k\<in>set (ksKeys st'). kyID k = keyID \<and> kyOrgID k = orgID \<longrightarrow> kyRevoked k"
  proof (intro ballI impI)
    fix x assume "x \<in> set (ksKeys st')" "kyID x = keyID \<and> kyOrgID x = orgID"
    then obtain y where "x = (if kyID y = keyID \<and> kyOrgID y = orgID then y\<lparr>kyRevoked := True\<rparr> else y)"
      unfolding keys set_map by blast
    with \<open>kyID x = keyID \<and> kyOrgID x = orgID\<close> show "kyRevoked x" by (simp split: if_splits)
  qed
  have revd: "rkJTI ` set (ksRevoked st') = rkJTI ` set (ksRevoked st) \<union> tvJTI ` set ?rev"
    using kept by (auto simp: insert_revoked_def revoke_key_rows_def image_Un image_image)
  have same: "live_issue orgID keyID now ?st1 = live_issue orgID keyID now st"
    by (simp add: fun_eq_iff live_issue_def revoke_key_rows_def)
  have "ksEvents ?st1 = ksEvents st" by (simp add: revoke_key_rows_def)
  then have "tvJTI ` set (live_tokens orgID keyID now ?st1) = tvJTI ` set (filter (live_issue orgID keyID now st) (ksEvents st))"
    by (simp add: live_tokens_def distinct_on_keys same)
  then show "\<forall>e\<in>set (ksEvents st). live_issue orgID keyID now st e \<longrightarrow> tvJTI e \<in> rkJTI ` set (ksRevoked st')"
  proof (intro ballI impI)
    fix e assume "e \<in> set (ksEvents st)" "live_issue orgID keyID now st e"
    then have "tvJTI e \<in> tvJTI ` set (live_tokens orgID keyID now ?st1)"
      using \<open>tvJTI ` set (live_tokens orgID keyID now ?st1) = tvJTI ` set (filter (live_issue orgID keyID now st) (ksEvents st))\<close> by simp
    then obtain x where x: "x \<in> set (live_tokens orgID keyID now ?st1)" "tvJTI e = tvJTI x" by blast
    have "ksRevoked ?st1 = ksRevoked st" by (simp add: revoke_key_rows_def)
    then show "tvJTI e \<in> rkJTI ` set (ksRevoked st')"
      using x by (cases "tvJTI x \<in> rkJTI ` set (ksRevoked st)") (simp_all add: revd newly_revoked_def)
  qed
  show "set (ksRevoked st) \<subseteq> set (ksRevoked st')"
    using kept by (auto simp: insert_revoked_def revoke_key_rows_def)
  show "ksNotified st' = ksNotified st @ map tvJTI ?rev" using kept by (simp add: insert_revoked_def revoke_key_rows_def)
  show "n = length ?rev" by (rule n)
qed

section \<open>A revocation request\<close>

lemma RevokeAPIKey_done:
  assumes "RevokeAPIKey H env aenv cenv now uc raw requestID st = (Inr code, st')"
  obtains keyID agentID n row where "peParseUUID env raw = Some keyID"
    "RevokeAPIKeyAndTokens cenv now keyID (ucOrgID uc) (fst st) = Inr ((agentID, n), fst st')"
    "AppendAdminAuditEvent H aenv (revocation_event uc keyID requestID agentID n) (snd st) = (Inr row, snd st')" "code = 204"
proof -
  obtain keyID row where i: "peParseUUID env raw = Some keyID" and code: "code = 204"
    and run: "RunAudited H aenv (ucOrgID uc) (revoke_change cenv now uc keyID requestID) st = (Inr row, st')"
    using assms by (auto simp: RevokeAPIKey_def split: option.splits prod.splits sum.splits)
  show thesis
  using run proof (cases rule: RunAudited_outcome)
    case (kept err) then show thesis by simp
  next
    case (both ev s' row' rows')
    then obtain agentID n where "RevokeAPIKeyAndTokens cenv now keyID (ucOrgID uc) (fst st) = Inr ((agentID, n), s')"
      "ev = revocation_event uc keyID requestID agentID n"
      by (auto simp: revoke_change_def split: sum.splits)
    with both i code show thesis by (intro that [of keyID agentID n row']) simp_all
  qed
qed

lemma RevokeAPIKey_refused:
  assumes "RevokeAPIKey H env aenv cenv now uc raw requestID st = (Inl e, st')"
  shows "st' = st \<or> (avCommit aenv \<noteq> None \<and> e = (500, ''audit_write_failed'', ''the change was not applied because its audit event could not be recorded'')
     \<and> (\<exists>keyID agentID n row. peParseUUID env raw = Some keyID
          \<and> RevokeAPIKeyAndTokens cenv now keyID (ucOrgID uc) (fst st) = Inr ((agentID, n), fst st')
          \<and> AppendAdminAuditEvent H aenv (revocation_event uc keyID requestID agentID n) (snd st) = (Inr row, snd st')))"
proof (cases "peParseUUID env raw")
  case None then show ?thesis using assms by (simp add: RevokeAPIKey_def)
next
  case (Some keyID)
  obtain err where run: "RunAudited H aenv (ucOrgID uc) (revoke_change cenv now uc keyID requestID) st = (Inl err, st')" and e: "e = revoke_error err"
    using assms Some by (auto simp: RevokeAPIKey_def split: prod.splits sum.splits)
  show ?thesis
  using run proof (cases rule: RunAudited_outcome)
    case (kept err') then show ?thesis by simp
  next
    case (both ev s' row' rows')
    then obtain agentID n where "RevokeAPIKeyAndTokens cenv now keyID (ucOrgID uc) (fst st) = Inr ((agentID, n), s')"
      "ev = revocation_event uc keyID requestID agentID n"
      by (auto simp: revoke_change_def split: sum.splits)
    moreover have "e = (500, ''audit_write_failed'', ''the change was not applied because its audit event could not be recorded'')"
      using both(6) by (simp add: e revoke_error_def writeAdminAuditFailure_def audit_wrap_def)
    ultimately show ?thesis using both Some by auto
  qed
qed


text \<open>C35: Revoking an API key is all or nothing. A success means that the key is revoked, that so
  is every token it issued in the last four hours (the longest lifetime of a token) to an agent
  that exists, that the gateways are notified of exactly the tokens revoked now, and that one
  event of the caller's organisation naming the key was appended to the audit trail; any error
  leaves the keys, the tokens and the trail as they were, unless the commit itself failed.\<close>

theorem key_revocation_complete_or_nothing:
  assumes "RevokeAPIKey H env aenv cenv now uc raw requestID st = (answer, st')"
  shows "(\<exists>keyID x. answer = Inr 204 \<and> peParseUUID env raw = Some keyID
      \<and> (\<exists>k\<in>set (ksKeys (fst st')). kyID k = keyID \<and> kyOrgID k = ucOrgID uc \<and> kyRevoked k)
      \<and> (\<forall>e\<in>set (ksEvents (fst st)). live_issue (ucOrgID uc) keyID now (fst st) e \<longrightarrow> tvJTI e \<in> rkJTI ` set (ksRevoked (fst st')))
      \<and> ksNotified (fst st') = ksNotified (fst st)
           @ map tvJTI (newly_revoked (ucOrgID uc) keyID now (revoke_key_rows keyID (ucOrgID uc) (fst st)))
      \<and> snd st' = snd st @ [x] \<and> wrOrgID x = ucOrgID uc \<and> wrAction x = ''api_key.revoked'' \<and> wrTargetID x = keyID
      \<and> wrActorUserID x = Some (ucUserID uc))
    \<or> (\<exists>e. answer = Inl e \<and> (st' = st \<or> avCommit aenv \<noteq> None))"
proof (cases answer)
  case (Inl e)
  then show ?thesis using RevokeAPIKey_refused [OF assms [unfolded Inl]] by blast
next
  case (Inr code)
  obtain keyID agentID n row where d: "peParseUUID env raw = Some keyID"
    "RevokeAPIKeyAndTokens cenv now keyID (ucOrgID uc) (fst st) = Inr ((agentID, n), fst st')"
    "AppendAdminAuditEvent H aenv (revocation_event uc keyID requestID agentID n) (snd st) = (Inr row, snd st')" "code = 204"
    using assms [unfolded Inr] by (rule RevokeAPIKey_done)
  note c = cascade_complete [OF d(2)]
  obtain x where x: "snd st' = snd st @ [x]" "wrOrgID x = ucOrgID uc" "wrAction x = ''api_key.revoked''" "wrTargetID x = keyID"
    "wrActorUserID x = Some (ucUserID uc)"
    using append_describes [OF d(3)] by (auto simp: revocation_event_def adminAuditActor_def)
  show ?thesis
    by (rule disjI1) (use Inr d(1,4) c(1,3,5) x in \<open>intro exI [of _ keyID] exI [of _ x] conjI; simp\<close>)
qed

section \<open>A created key at the gateway\<close>

lemma CreateAPIKey_created:
  assumes "CreateAPIKey env sha256 q uc (Some req) st = (Inr (code, rawKey, resp), st')"
  obtains k agent where "st' = st\<lparr>ksKeys := ksKeys st @ [k]\<rparr>" "resp = apiKeyToResp k"
    "kyKeyHash k = hashAPIKey sha256 rawKey" "kyKeyHash k \<notin> kyKeyHash ` set (ksKeys st)" "\<not> kyRevoked k"
    "kyOrgID k = ucOrgID uc" "kyCreatedBy k = Some (ucUserID uc)" "rawKey \<noteq> []"
    "bound_agent env (kqReadErr q) uc (ckAgentID req) st = Inr agent" "kyAgentID k = agent"
    "parseAPIKeyExpiresAt (kqRFC3339 q) (kqDateOnly q) (ckExpiresAt req) = Inr (kyExpiresAt k)"
  using assms
  by (fastforce simp: CreateAPIKey_def store_CreateAPIKey_def APIKeyFromRaw_def hashAPIKey_def Let_def
      split: if_splits sum.splits option.splits prod.splits)

lemma bound_agent_active:
  assumes "bound_agent env readErr uc raw st = Inr (Some i)"
  shows "peParseUUID (aePg env) raw = Some i" "raw \<noteq> []" "\<exists>a\<in>set (ksAgents st). awID a = i \<and> awOrgID a = ucOrgID uc \<and> awStatus a = ''active''"
proof -
  show "peParseUUID (aePg env) raw = Some i" "raw \<noteq> []"
    using assms by (auto simp: bound_agent_def split: if_splits option.splits sum.splits)
  obtain a where "store_GetAgent readErr i (ucOrgID uc) \<lparr>abAgents = ksAgents st, abConfigs = [], abEvents = [], abHistory = []\<rparr> = Inr a"
    "awStatus a = ''active''"
    using assms by (auto simp: bound_agent_def split: if_splits option.splits sum.splits)
  moreover from this have "List.find (of_agent i (ucOrgID uc)) (ksAgents st) = Some a"
    by (simp add: store_GetAgent_def split: option.splits)
  ultimately show "\<exists>a\<in>set (ksAgents st). awID a = i \<and> awOrgID a = ucOrgID uc \<and> awStatus a = ''active''"
    using find_Some_set [of "of_agent i (ucOrgID uc)" "ksAgents st" a] by (auto simp: of_agent_def)
qed

lemma bound_agent_none: "bound_agent env readErr uc raw st = Inr None \<Longrightarrow> raw = []"
  by (auto simp: bound_agent_def split: if_splits option.splits sum.splits)

text \<open>C36: A key created through the admin API is the key the gateway knows. Before the expiry that
  the request gave, if it gave one, and while the row is not revoked, the raw key of the answer
  passes the gateway's validation under every agent name, and what it resolves to is the id of
  the answer, the organisation of the creator and the agent that the request named: the one
  whose id its \<^verbatim>\<open>agent_id\<close> spells, which exists in the creator's organisation and was active,
  or none when that member is empty.\<close>

theorem created_key_accepted:
  assumes "CreateAPIKey env sha256 q uc (Some req) st = (Inr (code, rawKey, resp), st')"
    and "kdKeys db = map gateway_key (ksKeys st')"
    and "\<forall>t. parseAPIKeyExpiresAt (kqRFC3339 q) (kqDateOnly q) (ckExpiresAt req) = Inr (Some t) \<longrightarrow> now < t"
  shows "\<exists>agent a. ValidateAndResolveAgent sha256 None pick db now rawKey agentName
      = Inr (\<lparr>krID = akrID resp, krOrgID = ucOrgID uc, krAgentID = agent\<rparr>, a)
    \<and> (if ckAgentID req = [] then agent = []
       else peParseUUID (aePg env) (ckAgentID req) = Some agent
         \<and> (\<exists>a\<in>set (ksAgents st). awID a = agent \<and> awOrgID a = ucOrgID uc \<and> awStatus a = ''active''))"
proof -
  obtain k bound where c: "st' = st\<lparr>ksKeys := ksKeys st @ [k]\<rparr>" "resp = apiKeyToResp k"
    "kyKeyHash k = hashAPIKey sha256 rawKey" "kyKeyHash k \<notin> kyKeyHash ` set (ksKeys st)" "\<not> kyRevoked k"
    "kyOrgID k = ucOrgID uc" "rawKey \<noteq> []"
    "bound_agent env (kqReadErr q) uc (ckAgentID req) st = Inr bound" "kyAgentID k = bound"
    "parseAPIKeyExpiresAt (kqRFC3339 q) (kqDateOnly q) (ckExpiresAt req) = Inr (kyExpiresAt k)"
    by (rule CreateAPIKey_created [OF assms(1)])
  have others: "filter (key_usable sha256 now rawKey) (map gateway_key (ksKeys st)) = []"
    using c(3,4) by (auto simp: filter_empty_conv key_usable_def gateway_key_def rev_image_eqI)
  have "key_usable sha256 now rawKey (gateway_key k)"
    using c(3,5,10) assms(3) by (auto simp: key_usable_def gateway_key_def split: option.splits)
  with others have one: "filter (key_usable sha256 now rawKey) (kdKeys db) = [gateway_key k]"
    by (simp add: assms(2) c(1))
  obtain ka where ka: "limit_one pick (join_agents db agentName (gateway_key k)) = Some ka" "ka \<in> set (join_agents db agentName (gateway_key k))"
  proof -
    have "join_agents db agentName (gateway_key k) \<noteq> []" by (simp add: join_agents_def Let_def)
    then obtain x where "limit_one pick (join_agents db agentName (gateway_key k)) = Some x" by (simp add: limit_one_def)
    with limit_one_mem [OF this] show thesis by (intro that)
  qed
  have "fst ka = gateway_key k" using ka(2) by (auto simp: join_agents_def Let_def split: if_splits)
  then have "ValidateAndResolveAgent sha256 None pick db now rawKey agentName = Inr (key_record (gateway_key k), snd ka)"
    using ka(1) c(7) by (cases ka) (simp add: ValidateAndResolveAgent_def one)
  then have v: "ValidateAndResolveAgent sha256 None pick db now rawKey agentName
      = Inr (\<lparr>krID = akrID resp, krOrgID = ucOrgID uc, krAgentID = (case bound of None \<Rightarrow> [] | Some i \<Rightarrow> i)\<rparr>, snd ka)"
    using c(2,6,9) by (simp add: key_record_def gateway_key_def apiKeyToResp_def)
  show ?thesis
  proof (cases bound)
    case None
    then show ?thesis using v bound_agent_none c(8) by fastforce
  next
    case (Some i)
    then show ?thesis using v bound_agent_active [OF c(8) [unfolded Some]] by auto
  qed
qed


section \<open>Concrete requests\<close>

definition sample_key_agent :: agent_row where
  "sample_key_agent = \<lparr>awID = ''a1'', awOrgID = ''o1'', awName = ''bot'', awModel = ''m'', awOwner = ''o'', awScope = ''read'',
     awRiskTier = ''low'', awStatus = ''active'', awTokenTTLSeconds = 600, awCreatedBy = None, awWorkspaceID = None\<rparr>"

definition sample_key_row :: key_row where
  "sample_key_row = \<lparr>kyID = ''k1'', kyOrgID = ''o1'', kyName = ''ci'', kyKeyHash = ''h1'', kyPrefix = ''eami_k_00000'', kyScopes = [],
     kyCreatedBy = Some ''u1'', kyCreatedAt = 0, kyLastUsed = None, kyExpiresAt = None, kyAgentID = Some ''a1'', kyRevoked = False\<rparr>"

definition sample_issued :: token_event_row where
  "sample_issued = \<lparr>tvOrgID = ''o1'', tvAgentID = Some ''a1'', tvAgentName = ''bot'', tvAPIKeyID = Some ''k1'', tvJTI = ''j1'',
     tvType = ''issued'', tvCreatedAt = 5\<rparr>"

definition sample_key_state :: key_state where
  "sample_key_state = \<lparr>ksKeys = [sample_key_row], ksAgents = [sample_key_agent], ksEvents = [sample_issued], ksRevoked = [], ksNotified = []\<rparr>"

definition no_faults :: cascade_env where
  "no_faults = \<lparr>csUpdate = None, csTokens = None, csScan = None, csRows = None, csRecordErr = (\<lambda>_. None), csNotifyErr = (\<lambda>_. None)\<rparr>"

definition sample_admin :: userClaims where
  "sample_admin = \<lparr>ucUserID = ''u1'', ucOrgID = ''o1'', ucEmail = ''ana@example.com'', ucRole = ''admin''\<rparr>"

definition sample_key_request :: CreateAPIKeyRequest where
  "sample_key_request = \<lparr>ckName = ''ci'', ckScopes = [], ckExpiresAt = [], ckAgentID = ''a1''\<rparr>"

definition sample_key_env :: key_request_env where
  "sample_key_env = \<lparr>kqRFC3339 = (\<lambda>_. None), kqDateOnly = (\<lambda>_. None), kqReadErr = None, kqRandom = Inr ''0123456789abcdef01234567'',
     kqInsertErr = None, kqNewID = ''k2'', kqNow = 7\<rparr>"

lemma sample_key_created:
  "\<exists>resp st'. CreateAPIKey sample_agent_env id sample_key_env sample_admin (Some sample_key_request) sample_key_state
     = (Inr (201, ''eami_k_'' @ hex_encode ''0123456789abcdef01234567'', resp), st')
     \<and> akrID resp = ''k2''"
proof -
  have "hex_encode (''eami_k_'' @ hex_encode ''0123456789abcdef01234567'') \<noteq> ''h1''"
  proof
    assume "hex_encode (''eami_k_'' @ hex_encode ''0123456789abcdef01234567'') = ''h1''"
    then have "length (hex_encode (''eami_k_'' @ hex_encode ''0123456789abcdef01234567'')) = 2" by (simp only:) simp
    then show False by simp
  qed
  then show ?thesis
    by (simp add: CreateAPIKey_def sample_key_request_def sample_key_env_def parseAPIKeyExpiresAt_def bound_agent_def
        sample_agent_env_def sample_policy_env_def store_GetAgent_def of_agent_def sample_key_state_def sample_key_agent_def sample_admin_def
        sample_key_row_def APIKeyFromRaw_def store_CreateAPIKey_def apiKeyToResp_def Let_def)
qed

theorem created_key_accepted_witness:
  "\<exists>resp st' a. CreateAPIKey sample_agent_env id sample_key_env sample_admin (Some sample_key_request) sample_key_state
      = (Inr (201, ''eami_k_'' @ hex_encode ''0123456789abcdef01234567'', resp), st')
     \<and> ValidateAndResolveAgent id None 0 \<lparr>kdKeys = map gateway_key (ksKeys st'), kdAgents = []\<rparr> 9
         (''eami_k_'' @ hex_encode ''0123456789abcdef01234567'') ''bot'' = Inr (\<lparr>krID = ''k2'', krOrgID = ''o1'', krAgentID = ''a1''\<rparr>, a)"
proof -
  obtain resp st' where c: "CreateAPIKey sample_agent_env id sample_key_env sample_admin (Some sample_key_request) sample_key_state
      = (Inr (201, ''eami_k_'' @ hex_encode ''0123456789abcdef01234567'', resp), st')"
    and r: "akrID resp = ''k2''"
    using sample_key_created by blast
  have req: "ckAgentID sample_key_request = ''a1''" "ckExpiresAt sample_key_request = []" "peParseUUID (aePg sample_agent_env) ''a1'' = Some ''a1''"
    by (simp_all add: sample_key_request_def sample_agent_env_def sample_policy_env_def)
  have "\<exists>a. ValidateAndResolveAgent id None 0 \<lparr>kdKeys = map gateway_key (ksKeys st'), kdAgents = []\<rparr> 9
         (''eami_k_'' @ hex_encode ''0123456789abcdef01234567'') ''bot''
      = Inr (\<lparr>krID = akrID resp, krOrgID = ucOrgID sample_admin, krAgentID = ''a1''\<rparr>, a)"
    using created_key_accepted [OF c, where db = "\<lparr>kdKeys = map gateway_key (ksKeys st'), kdAgents = []\<rparr>" and now = 9 and pick = 0 and agentName = "''bot''"]
      req by (simp add: parseAPIKeyExpiresAt_def)
  then show ?thesis using c r by (simp add: sample_admin_def)
qed

lemma sample_revocation_valid:
  "validateAdminAuditEvent (revocation_event sample_admin ''k1'' [] (Some ''a1'') 1) = Inr \<lparr>actTargetType = ''api_key'', actFields = []\<rparr>"
  by code_simp

lemma sample_revocation_row:
  "chained_row zero_digest [] (event_row sample_audit_env \<lparr>actTargetType = ''api_key'', actFields = []\<rparr> (revocation_event sample_admin ''k1'' [] (Some ''a1'') 1) ''{}'')
   = \<lparr>wrID = ''e1'', wrOrgID = ''o1'', wrSeq = 1, wrOccurredAt = 0, wrActorType = ''user'',
     wrActorUserID = Some ''u1'', wrActorRole = ''admin'', wrAction = ''api_key.revoked'', wrTargetType = ''api_key'', wrTargetID = ''k1'',
     wrSummary = ''{}'', wrSource = ''api'', wrRequestID = None,
     wrPrevHash = replicate 64 (CHR ''0''), wrHash = replicate 64 (CHR ''0'')\<rparr>"
  by (simp add: chained_row_def event_row_def chain_head_def org_rows_def sample_audit_env_def revocation_event_def adminAuditActor_def
      sample_admin_def AdminAuditGenesis_def adminAuditRowHash_def zero_digest_def wrap64_eq adminAuditRequestIDRe_def all_of_def)

lemma sample_revocation_append:
  "\<exists>row rows'. AppendAdminAuditEvent zero_digest sample_audit_env (revocation_event sample_admin ''k1'' [] (Some ''a1'') 1) [] = (Inr row, rows')"
proof -
  let ?row = "chained_row zero_digest [] (event_row sample_audit_env \<lparr>actTargetType = ''api_key'', actFields = []\<rparr> (revocation_event sample_admin ''k1'' [] (Some ''a1'') 1) ''{}'')"
  have "audit_checks sample_audit_env [] ?row"
    unfolding sample_revocation_row by (simp add: audit_checks_def) code_simp
  then show ?thesis
    by (simp add: AppendAdminAuditEvent_def insert_event_def Let_def sample_env_answers sample_revocation_valid del: One_nat_def)
qed

lemma sample_cascade:
  "\<exists>st'. RevokeAPIKeyAndTokens no_faults 10 ''k1'' ''o1'' sample_key_state = Inr ((Some ''a1'', 1), st')"
  by (simp add: RevokeAPIKeyAndTokens_def no_faults_def sample_key_state_def sample_key_row_def revoke_key_rows_def newly_revoked_def
      live_tokens_def live_issue_def sample_issued_def sample_key_agent_def maxGatewayTokenLifetime_def second_def insert_revoked_def Let_def)

lemma sample_revoked:
  "\<exists>st'. RevokeAPIKey zero_digest sample_policy_env sample_audit_env no_faults 10 sample_admin ''k1'' [] (sample_key_state, []) = (Inr 204, st')"
proof -
  obtain st' where c: "RevokeAPIKeyAndTokens no_faults 10 ''k1'' ''o1'' sample_key_state = Inr ((Some ''a1'', 1), st')"
    using sample_cascade by blast
  obtain row rows' where a: "AppendAdminAuditEvent zero_digest sample_audit_env (revocation_event sample_admin ''k1'' [] (Some ''a1'') 1) [] = (Inr row, rows')"
    using sample_revocation_append by blast
  have org: "ucOrgID sample_admin = ''o1''" "evOrgID (revocation_event sample_admin ''k1'' [] (Some ''a1'') 1) = ''o1''" "''o1'' \<noteq> nil_uuid"
    by (simp_all add: sample_admin_def revocation_event_def nil_uuid_def)
  have env: "avBegin sample_audit_env = None" "avCommit sample_audit_env = None" "peParseUUID sample_policy_env ''k1'' = Some ''k1''"
    by (simp_all add: sample_audit_env_def sample_policy_env_def)
  show ?thesis
    by (simp add: RevokeAPIKey_def RunAudited_def revoke_change_def env org c a del: One_nat_def)
qed

theorem key_revocation_complete_or_nothing_witness:
  "\<exists>st'. RevokeAPIKey zero_digest sample_policy_env sample_audit_env no_faults 10 sample_admin ''k1'' [] (sample_key_state, []) = (Inr 204, st')
     \<and> ''j1'' \<in> rkJTI ` set (ksRevoked (fst st')) \<and> wrTargetID (last (snd st')) = ''k1''"
proof -
  obtain st' where a: "RevokeAPIKey zero_digest sample_policy_env sample_audit_env no_faults 10 sample_admin ''k1'' [] (sample_key_state, []) = (Inr 204, st')"
    using sample_revoked by blast
  have live: "live_issue ''o1'' ''k1'' 10 sample_key_state sample_issued"
    by (simp add: live_issue_def sample_issued_def sample_key_state_def sample_key_agent_def maxGatewayTokenLifetime_def second_def)
  have facts: "peParseUUID sample_policy_env ''k1'' = Some ''k1''" "tvJTI sample_issued = ''j1''" "ucOrgID sample_admin = ''o1''"
    "sample_issued \<in> set (ksEvents sample_key_state)"
    by (simp_all add: sample_policy_env_def sample_issued_def sample_admin_def sample_key_state_def)
  from key_revocation_complete_or_nothing [OF a] have
    "(\<forall>e\<in>set (ksEvents sample_key_state). live_issue ''o1'' ''k1'' 10 sample_key_state e \<longrightarrow> tvJTI e \<in> rkJTI ` set (ksRevoked (fst st')))
     \<and> wrTargetID (last (snd st')) = ''k1''"
    using facts(1,3) by auto
  then have "tvJTI sample_issued \<in> rkJTI ` set (ksRevoked (fst st'))" "wrTargetID (last (snd st')) = ''k1''"
    using live facts(4) by blast+
  then show ?thesis using a facts(2) by (intro exI [of _ st'] conjI) (simp_all only:)
qed

end
