(* ===== verification/User_Accounts.thy ===== *)
theory User_Accounts
  imports Admin_Audit Scan_Paths
begin

text \<open>
  Users of the admin API, their sessions and their credentials: login and refresh
  (eami-api \<^verbatim>\<open>internal/api/auth.go\<close>, \<^verbatim>\<open>internal/auth/auth.go\<close>), user management
  (\<^verbatim>\<open>internal/api/users.go\<close>), invites and password resets (\<^verbatim>\<open>internal/api/provisioning.go\<close>),
  the first-boot setup (\<^verbatim>\<open>internal/api/bootstrap.go\<close>), and the statements they use
  (\<^verbatim>\<open>internal/store/auth.sql.go\<close>, \<^verbatim>\<open>users.sql.go\<close>).
  \<^item> A handler takes the request's outcomes (\<open>call_env\<close>: clocks, random bytes, the bcrypt hash,
    the signature, one error per statement), the claims of the caller where the route has them,
    the decoded body (None when it does not parse) and the tables.
  \<^item> Handlers that read before they write outside a transaction take the tables each read saw.
    A handler with a transaction that locks the rows it reads is one step on the tables; an error
    leaves them as they were, unless a failed commit took effect.
  \<^item> Requests, their runs and the properties of runs are in \<open>Account_Runs\<close>.
\<close>

section \<open>Tables\<close>

record user_row =
  uwID :: uuid
  uwOrgID :: uuid
  uwEmail :: string
  uwName :: "string option"
  uwPasswordHash :: "string option"
  uwRole :: string
  uwCreatedAt :: time
  uwLastLogin :: "time option"
  uwDeletedAt :: "time option"
  uwInvitedAt :: "time option"
  uwInvitedBy :: "uuid option"

record refresh_row =
  fwID :: uuid
  fwUserID :: uuid
  fwTokenHash :: string
  fwExpiresAt :: time
  fwRevoked :: bool

text \<open>The rows of \<^verbatim>\<open>invite_tokens\<close> and \<^verbatim>\<open>reset_tokens\<close>.\<close>

record link_row =
  lwID :: uuid
  lwUserID :: uuid
  lwTokenHash :: string
  lwExpiresAt :: time
  lwConsumedAt :: "time option"

record setup_row =
  swID :: uuid
  swTokenHash :: string
  swExpiresAt :: time
  swConsumedAt :: "time option"

record org_account =
  oaID :: uuid
  oaName :: string
  oaSlug :: string
  oaPlan :: string

record account_db =
  daUsers :: "user_row list"
  daRefresh :: "refresh_row list"
  daInvites :: "link_row list"
  daResets :: "link_row list"
  daSetup :: "setup_row list"
  daOrgs :: "org_account list"

text \<open>\<open>unSHA\<close>: the digest as bytes; \<open>unCheck\<close>: the comparison of bcrypt, plain text first.\<close>

record account_env =
  unPg :: policy_env
  unForeignKey :: go_error
  unSHA :: "string \<Rightarrow> string"
  unCheck :: "string \<Rightarrow> string \<Rightarrow> go_error option"
  unAccessTTL :: duration
  unScan :: "user_row list \<Rightarrow> user_row list" \<comment> \<open>the order in which the database reads the rows\<close>

record session_claims = access_claims +
  scIssuedAt :: time
  scExpiresAt :: time
  scID :: string

text \<open>\<open>uaErr\<close>: the error of a statement of the request, counted from 0 in the order of the code, the
  commit included; \<open>uaLanded\<close>: whether a commit that reported an error took effect.\<close>

record call_env =
  uaNow :: time
  uaLater :: time \<comment> \<open>the clock when the answer is written\<close>
  uaDBNow :: time
  uaRandom :: "string result"
  uaHash :: "string \<Rightarrow> string result"
  uaSign :: "session_claims \<Rightarrow> string result"
  uaTokenID :: uuid
  uaNewID :: "nat \<Rightarrow> uuid"
  uaErr :: "nat \<Rightarrow> go_error option"
  uaLanded :: bool

definition user_roles :: "string set" where
  "user_roles = {''admin'', ''operator'', ''approver'', ''viewer'', ''platform_admin''}"

definition end_tx :: "call_env \<Rightarrow> nat \<Rightarrow> 'd \<Rightarrow> 'd \<Rightarrow> go_error option \<times> 'd" where
  "end_tx q i old new =
    (case uaErr q i of None \<Rightarrow> (None, new) | Some err \<Rightarrow> (Some err, if uaLanded q then new else old))"

section \<open>Statements (auth.sql.go, users.sql.go)\<close>

definition live_user :: "user_row \<Rightarrow> bool" where
  "live_user u = (uwDeletedAt u = None)"

definition find_or_none :: "('a \<Rightarrow> bool) \<Rightarrow> 'a list \<Rightarrow> 'a result" where
  "find_or_none P xs = (case List.find P xs of None \<Rightarrow> Inl (Sentinel ErrNoRows) | Some x \<Rightarrow> Inr x)"

definition failing :: "go_error option \<Rightarrow> 'a result \<Rightarrow> 'a result" where
  "failing dbErr r = (case dbErr of Some err \<Rightarrow> Inl err | None \<Rightarrow> r)"

definition store_GetUserByID :: "go_error option \<Rightarrow> uuid \<Rightarrow> account_db \<Rightarrow> user_row result" where
  "store_GetUserByID dbErr i db = failing dbErr (find_or_none (\<lambda>u. uwID u = i \<and> live_user u) (daUsers db))"

definition store_GetUserByEmail :: "go_error option \<Rightarrow> string \<Rightarrow> account_db \<Rightarrow> user_row result" where
  "store_GetUserByEmail dbErr email db = failing dbErr (find_or_none (\<lambda>u. uwEmail u = email \<and> live_user u) (daUsers db))"

definition set_where :: "('a \<Rightarrow> bool) \<Rightarrow> ('a \<Rightarrow> 'a) \<Rightarrow> 'a list \<Rightarrow> 'a list" where
  "set_where P f xs = map (\<lambda>x. if P x then f x else x) xs"

definition store_CreateRefreshToken ::
  "account_env \<Rightarrow> go_error option \<Rightarrow> uuid \<Rightarrow> uuid \<Rightarrow> string \<Rightarrow> time \<Rightarrow> account_db \<Rightarrow> go_error option \<times> account_db" where
  "store_CreateRefreshToken env dbErr newID userID h expiresAt db =
    (if dbErr \<noteq> None then (dbErr, db)
     else if newID \<in> fwID ` set (daRefresh db) \<or> h \<in> fwTokenHash ` set (daRefresh db) then (Some (peUnique (unPg env)), db)
     else if userID \<notin> uwID ` set (daUsers db) then (Some (unForeignKey env), db)
     else (None, db\<lparr>daRefresh := daRefresh db
       @ [\<lparr>fwID = newID, fwUserID = userID, fwTokenHash = h, fwExpiresAt = expiresAt, fwRevoked = False\<rparr>]\<rparr>))"

definition hash_token :: "account_env \<Rightarrow> string \<Rightarrow> string" where
  "hash_token env raw = hex_encode (unSHA env raw)"

definition store_GetRefreshToken :: "account_env \<Rightarrow> go_error option \<Rightarrow> time \<Rightarrow> string \<Rightarrow> account_db \<Rightarrow> refresh_row result" where
  "store_GetRefreshToken env dbErr now raw db =
    failing dbErr (find_or_none (\<lambda>t. fwTokenHash t = hash_token env raw \<and> \<not> fwRevoked t \<and> now < fwExpiresAt t) (daRefresh db))"

definition store_RevokeRefreshToken :: "go_error option \<Rightarrow> uuid \<Rightarrow> account_db \<Rightarrow> go_error option \<times> account_db" where
  "store_RevokeRefreshToken dbErr i db =
    (if dbErr \<noteq> None then (dbErr, db)
     else (None, db\<lparr>daRefresh := set_where (\<lambda>t. fwID t = i) (\<lambda>t. t\<lparr>fwRevoked := True\<rparr>) (daRefresh db)\<rparr>))"

definition org_users :: "uuid \<Rightarrow> account_db \<Rightarrow> user_row list" where
  "org_users org db = filter (\<lambda>u. uwOrgID u = org \<and> live_user u) (daUsers db)"

definition store_ListUsers :: "account_env \<Rightarrow> go_error option \<Rightarrow> uuid \<Rightarrow> int \<Rightarrow> int \<Rightarrow> account_db \<Rightarrow> user_row list result" where
  "store_ListUsers env dbErr org page_size offset db =
    failing dbErr (Inr (take (nat page_size) (drop (nat offset) (sort_key (\<lambda>u. - uwCreatedAt u) (unScan env (org_users org db))))))"

definition store_CountUsers :: "go_error option \<Rightarrow> uuid \<Rightarrow> account_db \<Rightarrow> int result" where
  "store_CountUsers dbErr org db = failing dbErr (Inr (int (length (org_users org db))))"

text \<open>An insertion into \<^verbatim>\<open>users\<close>: primary key, \<^verbatim>\<open>UNIQUE (email)\<close>, the check of the role and the
  foreign keys.\<close>

definition insert_user :: "account_env \<Rightarrow> go_error option \<Rightarrow> user_row \<Rightarrow> account_db \<Rightarrow> go_error option \<times> account_db" where
  "insert_user env dbErr u db =
    (if dbErr \<noteq> None then (dbErr, db)
     else if uwID u \<in> uwID ` set (daUsers db) \<or> uwEmail u \<in> uwEmail ` set (daUsers db) then (Some (peUnique (unPg env)), db)
     else if uwRole u \<notin> user_roles then (Some (peCheck (unPg env)), db)
     else if uwOrgID u \<notin> oaID ` set (daOrgs db) \<or> (case uwInvitedBy u of None \<Rightarrow> False | Some i \<Rightarrow> i \<notin> uwID ` set (daUsers db))
     then (Some (unForeignKey env), db)
     else (None, db\<lparr>daUsers := daUsers db @ [u]\<rparr>))"

definition invited_user :: "call_env \<Rightarrow> uuid \<Rightarrow> string \<Rightarrow> string \<Rightarrow> uuid \<Rightarrow> user_row" where
  "invited_user q org email role by =
    \<lparr>uwID = uaNewID q 0, uwOrgID = org, uwEmail = email, uwName = None, uwPasswordHash = None, uwRole = role, uwCreatedAt = uaDBNow q,
     uwLastLogin = None, uwDeletedAt = None, uwInvitedAt = Some (uaDBNow q), uwInvitedBy = Some by\<rparr>"

definition own_live :: "uuid \<Rightarrow> uuid \<Rightarrow> user_row \<Rightarrow> bool" where
  "own_live i org u = (uwID u = i \<and> uwOrgID u = org \<and> live_user u)"

text \<open>\<^verbatim>\<open>UPDATE users SET ... WHERE id = $1 AND org_id = $2 AND deleted_at IS NULL RETURNING ...\<close>\<close>

definition update_own ::
  "go_error option \<Rightarrow> uuid \<Rightarrow> uuid \<Rightarrow> (user_row \<Rightarrow> user_row) \<Rightarrow> account_db \<Rightarrow> user_row result \<times> account_db" where
  "update_own dbErr i org f db =
    (case failing dbErr (find_or_none (own_live i org) (daUsers db)) of
       Inl err \<Rightarrow> (Inl err, db)
     | Inr u \<Rightarrow> (Inr (f u), db\<lparr>daUsers := set_where (own_live i org) f (daUsers db)\<rparr>))"

definition store_UpdateUserRole ::
  "account_env \<Rightarrow> go_error option \<Rightarrow> uuid \<Rightarrow> uuid \<Rightarrow> string \<Rightarrow> account_db \<Rightarrow> user_row result \<times> account_db" where
  "store_UpdateUserRole env dbErr i org role db =
    (if dbErr = None \<and> role \<notin> user_roles \<and> find_or_none (own_live i org) (daUsers db) \<noteq> Inl (Sentinel ErrNoRows)
     then (Inl (peCheck (unPg env)), db)
     else update_own dbErr i org (\<lambda>u. u\<lparr>uwRole := role\<rparr>) db)"

definition store_UpdateUserName ::
  "go_error option \<Rightarrow> uuid \<Rightarrow> uuid \<Rightarrow> string \<Rightarrow> account_db \<Rightarrow> user_row result \<times> account_db" where
  "store_UpdateUserName dbErr i org name db = update_own dbErr i org (\<lambda>u. u\<lparr>uwName := Some name\<rparr>) db"

definition store_SoftDeleteUser :: "go_error option \<Rightarrow> time \<Rightarrow> uuid \<Rightarrow> uuid \<Rightarrow> account_db \<Rightarrow> go_error option \<times> account_db" where
  "store_SoftDeleteUser dbErr now i org db =
    (if dbErr \<noteq> None then (dbErr, db)
     else (None, db\<lparr>daUsers := set_where (\<lambda>u. uwID u = i \<and> uwOrgID u = org) (\<lambda>u. u\<lparr>uwDeletedAt := Some now\<rparr>) (daUsers db)\<rparr>))"

definition store_UpdateUserPasswordHash :: "go_error option \<Rightarrow> uuid \<Rightarrow> string \<Rightarrow> account_db \<Rightarrow> go_error option \<times> account_db" where
  "store_UpdateUserPasswordHash dbErr i h db =
    (if dbErr \<noteq> None then (dbErr, db)
     else (None, db\<lparr>daUsers := set_where (\<lambda>u. uwID u = i \<and> live_user u) (\<lambda>u. u\<lparr>uwPasswordHash := Some h\<rparr>) (daUsers db)\<rparr>))"

section \<open>Sessions (auth.go)\<close>

definition IssueAccessToken :: "account_env \<Rightarrow> call_env \<Rightarrow> uuid \<Rightarrow> uuid \<Rightarrow> string \<Rightarrow> string \<Rightarrow> (string \<times> time) result" where
  "IssueAccessToken env q userID orgID email role =
    (let expires = uaNow q + unAccessTTL env;
         claims = \<lparr>axSubject = userID, axOrgID = orgID, axEmail = email, axRole = role,
           scIssuedAt = go_div (uaNow q) second * second, scExpiresAt = go_div expires second * second, scID = uaTokenID q\<rparr>
     in case uaSign q claims of Inl err \<Rightarrow> Inl err | Inr jwt \<Rightarrow> Inr (jwt, expires))"

definition IssueRefreshToken :: "account_env \<Rightarrow> string result \<Rightarrow> (string \<times> string) result" where
  "IssueRefreshToken env random =
    (case random of
       Inl err \<Rightarrow> Inl (Wrapped ''auth: generate refresh token'' err)
     | Inr b \<Rightarrow> let raw = hex_encode b in Inr (raw, hash_token env raw))"

definition HashPassword :: "call_env \<Rightarrow> string \<Rightarrow> string result" where
  "HashPassword q plain = (case uaHash q plain of Inl err \<Rightarrow> Inl (Wrapped ''auth: hash password'' err) | Inr h \<Rightarrow> Inr h)"

definition CheckPassword :: "account_env \<Rightarrow> string \<Rightarrow> string \<Rightarrow> go_error option" where
  "CheckPassword env plain h = unCheck env plain h"

record LoginRequest =
  liEmail :: string
  liPassword :: string

record UserResp =
  usrID :: uuid
  usrEmail :: string
  usrName :: string
  usrRole :: string
  usrOrgID :: uuid

record LoginResponse =
  lrAccessToken :: string
  lrRefreshToken :: string
  lrExpiresIn :: int
  lrUser :: UserResp

definition or_empty :: "string option \<Rightarrow> string" where
  "or_empty s = (case s of None \<Rightarrow> [] | Some v \<Rightarrow> v)"

definition session_response :: "call_env \<Rightarrow> user_row \<Rightarrow> string \<times> time \<Rightarrow> string \<Rightarrow> LoginResponse" where
  "session_response q u access rawRefresh =
    \<lparr>lrAccessToken = fst access, lrRefreshToken = rawRefresh, lrExpiresIn = go_div (snd access - uaLater q) second,
     lrUser = \<lparr>usrID = uwID u, usrEmail = uwEmail u, usrName = or_empty (uwName u), usrRole = uwRole u, usrOrgID = uwOrgID u\<rparr>\<rparr>"

text \<open>The end that both handlers share: the two tokens and the row of the second.\<close>

definition refreshLifetime :: duration where
  "refreshLifetime = 30 * 24 * 3600 * second"

definition open_session ::
  "account_env \<Rightarrow> call_env \<Rightarrow> nat \<Rightarrow> user_row \<Rightarrow> account_db \<Rightarrow> (api_error + int \<times> LoginResponse) \<times> account_db" where
  "open_session env q i u db =
    (case IssueAccessToken env q (uwID u) (uwOrgID u) (uwEmail u) (uwRole u) of
       Inl _ \<Rightarrow> (Inl (500, ''internal_error'', ''could not issue access token''), db)
     | Inr access \<Rightarrow>
       (case IssueRefreshToken env (uaRandom q) of
          Inl _ \<Rightarrow> (Inl (500, ''internal_error'', ''could not issue refresh token''), db)
        | Inr (raw, h) \<Rightarrow>
          (case store_CreateRefreshToken env (uaErr q i) (uaNewID q 0) (uwID u) h (uaNow q + refreshLifetime) db of
             (Some _, db') \<Rightarrow> (Inl (500, ''internal_error'', ''could not persist refresh token''), db')
           | (None, db') \<Rightarrow> (Inr (200, session_response q u access raw), db'))))"

definition unauthorized :: "string \<Rightarrow> api_error" where
  "unauthorized msg = (401, ''unauthorized'', msg)"

definition bad_input :: "string \<Rightarrow> api_error" where
  "bad_input msg = (400, ''bad_request'', msg)"

definition Login ::
  "account_env \<Rightarrow> call_env \<Rightarrow> LoginRequest option \<Rightarrow> account_db \<Rightarrow> account_db \<Rightarrow> (api_error + int \<times> LoginResponse) \<times> account_db" where
  "Login env q body seen db =
    (case body of
       None \<Rightarrow> (Inl (bad_input ''invalid JSON body''), db)
     | Some req \<Rightarrow>
       if liEmail req = [] \<or> liPassword req = [] then (Inl (bad_input ''email and password are required''), db)
       else case store_GetUserByEmail (uaErr q 0) (liEmail req) seen of
         Inl _ \<Rightarrow> (Inl (unauthorized ''invalid email or password''), db)
       | Inr u \<Rightarrow>
         (case uwPasswordHash u of
            None \<Rightarrow> (Inl (unauthorized ''account uses SSO''), db)
          | Some h \<Rightarrow>
            if CheckPassword env (liPassword req) h \<noteq> None then (Inl (unauthorized ''invalid email or password''), db)
            else open_session env q 1 u db))"

text \<open>\<open>seenToken\<close>, \<open>seenUser\<close>: the tables as the two reads saw them. The error of the revocation is
  discarded.\<close>

definition Refresh ::
  "account_env \<Rightarrow> call_env \<Rightarrow> string option \<Rightarrow> account_db \<Rightarrow> account_db \<Rightarrow> account_db
   \<Rightarrow> (api_error + int \<times> LoginResponse) \<times> account_db" where
  "Refresh env q body seenToken seenUser db =
    (if body = None \<or> body = Some [] then (Inl (bad_input ''refresh_token required''), db)
     else case store_GetRefreshToken env (uaErr q 0) (uaDBNow q) (the body) seenToken of
       Inl _ \<Rightarrow> (Inl (unauthorized ''invalid or expired refresh token''), db)
     | Inr t \<Rightarrow>
       (case store_GetUserByID (uaErr q 1) (fwUserID t) seenUser of
          Inl _ \<Rightarrow> (Inl (unauthorized ''invalid or expired refresh token''), db)
        | Inr u \<Rightarrow> open_session env q 3 u (snd (store_RevokeRefreshToken (uaErr q 2) (fwID t) db))))"

section \<open>User management (users.go)\<close>

record UserResp2 =
  usID2 :: uuid
  usEmail2 :: string
  usName2 :: "string option"
  usRole2 :: string
  usOrgID2 :: uuid
  usCreatedAt2 :: time
  usLastLogin2 :: "time option"

definition userRowToResp :: "user_row \<Rightarrow> UserResp2" where
  "userRowToResp u = \<lparr>usID2 = uwID u, usEmail2 = uwEmail u, usName2 = uwName u, usRole2 = uwRole u, usOrgID2 = uwOrgID u,
     usCreatedAt2 = uwCreatedAt u, usLastLogin2 = uwLastLogin u\<rparr>"

definition db_failure :: "account_env \<Rightarrow> go_error \<Rightarrow> api_error" where
  "db_failure env err = internal_error (peErrText (unPg env) err)"

definition server_failure :: "string \<Rightarrow> api_error" where
  "server_failure msg = (500, ''internal_error'', msg)"

definition ListUsers ::
  "account_env \<Rightarrow> call_env \<Rightarrow> (string \<Rightarrow> int option) \<Rightarrow> userClaims \<Rightarrow> string \<Rightarrow> string \<Rightarrow> account_db \<Rightarrow> account_db
   \<Rightarrow> api_error + int \<times> UserResp2 list \<times> (int \<times> int \<times> int)" where
  "ListUsers env q atoi uc pageStr perPageStr seenRows seenCount =
    (let (page, perPage) = api_pagination atoi pageStr perPageStr 25 100
     in case store_ListUsers env (uaErr q 0) (ucOrgID uc) (wrap32 perPage) (wrap32 ((page - 1) * perPage)) seenRows of
          Inl err \<Rightarrow> Inl (db_failure env err)
        | Inr rows \<Rightarrow>
          (case store_CountUsers (uaErr q 1) (ucOrgID uc) seenCount of
             Inl err \<Rightarrow> Inl (db_failure env err)
           | Inr n \<Rightarrow> Inr (200, map userRowToResp rows, n, page, perPage)))"

definition inviteEmailUnavailable :: string where
  "inviteEmailUnavailable = ''this email cannot be invited''"

definition allowedRoles :: "string list" where
  "allowedRoles = [''admin'', ''operator'', ''approver'', ''viewer'']"

definition roles_message :: api_error where
  "roles_message = bad_input ''role must be admin|operator|approver|viewer''"

definition inviteTokenTTL :: duration where "inviteTokenTTL = 48 * 3600 * second"
definition resetTokenTTL :: duration where "resetTokenTTL = 3600 * second"
definition minPasswordLen :: nat where "minPasswordLen = 8"

text \<open>An insertion into one of the two tables of link tokens.\<close>

definition link_violation :: "account_env \<Rightarrow> link_row \<Rightarrow> link_row list \<Rightarrow> account_db \<Rightarrow> go_error option" where
  "link_violation env t rows db =
    (if lwID t \<in> lwID ` set rows \<or> lwTokenHash t \<in> lwTokenHash ` set rows then Some (peUnique (unPg env))
     else if lwUserID t \<notin> uwID ` set (daUsers db) then Some (unForeignKey env) else None)"

definition first_error :: "go_error option \<Rightarrow> go_error option \<Rightarrow> go_error option" where
  "first_error dbErr violation = (case dbErr of Some e \<Rightarrow> Some e | None \<Rightarrow> violation)"

record InviteUserRequest =
  ivEmail :: string
  ivRole :: string

record InviteUserResp =
  irUser :: UserResp2
  irInviteLink :: string
  irExpiresAt :: time

definition invite_role :: "InviteUserRequest \<Rightarrow> string" where
  "invite_role req = (if ivRole req = [] then ''viewer'' else ivRole req)"

definition InviteUser ::
  "account_env \<Rightarrow> call_env \<Rightarrow> userClaims \<Rightarrow> InviteUserRequest option \<Rightarrow> account_db \<Rightarrow> (api_error + int \<times> InviteUserResp) \<times> account_db" where
  "InviteUser env q uc body db =
    (case body of
       None \<Rightarrow> (Inl (bad_input ''invalid JSON body''), db)
     | Some req \<Rightarrow>
       if ivEmail req = [] then (Inl (bad_input ''email is required''), db)
       else let role = invite_role req in
       if role \<notin> set allowedRoles then (Inl roles_message, db)
       else case IssueRefreshToken env (uaRandom q) of
         Inl _ \<Rightarrow> (Inl (server_failure ''could not issue invite token''), db)
       | Inr (raw, h) \<Rightarrow>
         if uaErr q 0 \<noteq> None then (Inl (server_failure ''could not start transaction''), db)
         else let u = invited_user q (ucOrgID uc) (ivEmail req) role (ucUserID uc) in
         case insert_user env (uaErr q 1) u db of
           (Some err, _) \<Rightarrow>
             (Inl (if isUniqueViolation (unPg env) err then (409, ''conflict'', inviteEmailUnavailable)
                   else server_failure ''could not create invite''), db)
         | (None, db1) \<Rightarrow>
           (let expires = uaNow q + inviteTokenTTL;
                t = \<lparr>lwID = uaNewID q 1, lwUserID = uwID u, lwTokenHash = h, lwExpiresAt = expires, lwConsumedAt = None\<rparr>
            in if first_error (uaErr q 2) (link_violation env t (daInvites db1) db1) \<noteq> None
               then (Inl (server_failure ''could not persist invite token''), db)
               else case end_tx q 3 db (db1\<lparr>daInvites := daInvites db1 @ [t]\<rparr>) of
                 (Some _, db') \<Rightarrow> (Inl (server_failure ''could not finalize invite''), db')
               | (None, db') \<Rightarrow>
                 (Inr (201, \<lparr>irUser = userRowToResp u, irInviteLink = ''/accept-invite?token='' @ raw, irExpiresAt = expires\<rparr>), db')))"

definition not_found_or_failure :: "account_env \<Rightarrow> go_error \<Rightarrow> api_error" where
  "not_found_or_failure env err = (if err = Sentinel ErrNoRows then (404, ''not_found'', ''user not found'') else db_failure env err)"

definition UpdateUserRole ::
  "account_env \<Rightarrow> call_env \<Rightarrow> userClaims \<Rightarrow> string \<Rightarrow> string option \<Rightarrow> account_db \<Rightarrow> (api_error + int \<times> UserResp2) \<times> account_db" where
  "UpdateUserRole env q uc raw body db =
    (case peParseUUID (unPg env) raw of
       None \<Rightarrow> (Inl (bad_input ''invalid userId''), db)
     | Some i \<Rightarrow>
       (case body of
          None \<Rightarrow> (Inl (bad_input ''invalid JSON body''), db)
        | Some role \<Rightarrow>
          if role \<notin> set allowedRoles then (Inl roles_message, db)
          else case store_UpdateUserRole env (uaErr q 0) i (ucOrgID uc) role db of
            (Inl err, db') \<Rightarrow> (Inl (not_found_or_failure env err), db')
          | (Inr u, db') \<Rightarrow> (Inr (200, userRowToResp u), db')))"

definition DeleteUser :: "account_env \<Rightarrow> call_env \<Rightarrow> userClaims \<Rightarrow> string \<Rightarrow> account_db \<Rightarrow> (api_error + int) \<times> account_db" where
  "DeleteUser env q uc raw db =
    (case peParseUUID (unPg env) raw of
       None \<Rightarrow> (Inl (bad_input ''invalid userId''), db)
     | Some i \<Rightarrow>
       if i = ucUserID uc then (Inl (bad_input ''cannot delete your own account''), db)
       else case store_SoftDeleteUser (uaErr q 0) (uaDBNow q) i (ucOrgID uc) db of
         (Some err, db') \<Rightarrow> (Inl (db_failure env err), db')
       | (None, db') \<Rightarrow> (Inr 204, db'))"

record 'w MeResp =
  meID :: uuid
  meEmail :: string
  meName :: "string option"
  meRole :: string
  meOrgID :: uuid
  meWorkspaces :: "'w list"

definition GetMe :: "account_env \<Rightarrow> call_env \<Rightarrow> (uuid \<Rightarrow> 'w list result) \<Rightarrow> userClaims \<Rightarrow> account_db \<Rightarrow> api_error + int \<times> 'w MeResp" where
  "GetMe env q memberships uc db =
    (case store_GetUserByID (uaErr q 0) (ucUserID uc) db of
       Inl err \<Rightarrow> Inl (db_failure env err)
     | Inr u \<Rightarrow>
       (case memberships (ucUserID uc) of
          Inl err \<Rightarrow> Inl (db_failure env err)
        | Inr ws \<Rightarrow> Inr (200, \<lparr>meID = uwID u, meEmail = uwEmail u, meName = uwName u, meRole = uwRole u, meOrgID = uwOrgID u,
            meWorkspaces = ws\<rparr>)))"

text \<open>\<open>body\<close>: the name of the decoded request, when it has one.\<close>

definition UpdateMe ::
  "account_env \<Rightarrow> call_env \<Rightarrow> userClaims \<Rightarrow> string option option \<Rightarrow> account_db \<Rightarrow> (api_error + int \<times> UserResp2) \<times> account_db" where
  "UpdateMe env q uc body db =
    (case body of
       None \<Rightarrow> (Inl (bad_input ''invalid JSON body''), db)
     | Some name \<Rightarrow>
       if name = None \<or> trim_space (the name) = [] then (Inl (bad_input ''name is required''), db)
       else case store_UpdateUserName (uaErr q 0) (ucUserID uc) (ucOrgID uc) (the name) db of
         (Inl err, db') \<Rightarrow> (Inl (not_found_or_failure env err), db')
       | (Inr u, db') \<Rightarrow> (Inr (200, userRowToResp u), db'))"

record ChangeMyPasswordRequest =
  cmCurrent :: string
  cmNew :: string

definition ChangeMyPassword ::
  "account_env \<Rightarrow> call_env \<Rightarrow> userClaims \<Rightarrow> ChangeMyPasswordRequest option \<Rightarrow> account_db \<Rightarrow> account_db \<Rightarrow> (api_error + int) \<times> account_db" where
  "ChangeMyPassword env q uc body seen db =
    (case body of
       None \<Rightarrow> (Inl (bad_input ''invalid JSON body''), db)
     | Some req \<Rightarrow>
       if length (cmNew req) < minPasswordLen then (Inl (bad_input ''new_password must be at least 8 characters''), db)
       else case store_GetUserByID (uaErr q 0) (ucUserID uc) seen of
         Inl err \<Rightarrow> (Inl (db_failure env err), db)
       | Inr u \<Rightarrow>
         (case uwPasswordHash u of
            None \<Rightarrow> (Inl (bad_input ''account uses SSO''), db)
          | Some h \<Rightarrow>
            if CheckPassword env (cmCurrent req) h \<noteq> None then (Inl (unauthorized ''current password is incorrect''), db)
            else case HashPassword q (cmNew req) of
              Inl _ \<Rightarrow> (Inl (server_failure ''could not hash password''), db)
            | Inr newHash \<Rightarrow>
              (case store_UpdateUserPasswordHash (uaErr q 1) (ucUserID uc) newHash db of
                 (Some err, db') \<Rightarrow> (Inl (db_failure env err), db')
               | (None, db') \<Rightarrow> (Inr 200, db'))))"

section \<open>Invites and password resets (provisioning.go)\<close>

text \<open>The limiter in front of an unauthenticated handler; a refusal carries \<^verbatim>\<open>Retry-After\<close>.\<close>

definition throttle :: "string \<Rightarrow> time \<Rightarrow> string \<Rightarrow> rateLimiter \<Rightarrow> limited option \<times> rateLimiter" where
  "throttle msg now key rl =
    (case api_Allow now key rl of
       ((True, _), rl') \<Rightarrow> (None, rl')
     | ((False, retryAfter), rl') \<Rightarrow> (Some (api_setRetryAfter retryAfter, 429, ''rate_limited'', msg), rl'))"

definition provisioning_throttle :: "time \<Rightarrow> string \<Rightarrow> rateLimiter \<Rightarrow> limited option \<times> rateLimiter" where
  "provisioning_throttle = throttle ''too many attempts -- try again later''"

definition find_link :: "account_env \<Rightarrow> go_error option \<Rightarrow> string \<Rightarrow> link_row list \<Rightarrow> link_row result" where
  "find_link env dbErr raw rows = failing dbErr (find_or_none (\<lambda>t. lwTokenHash t = hash_token env raw) rows)"

text \<open>\<^verbatim>\<open>SELECT ... FROM users WHERE id = $1 FOR UPDATE\<close>, deleted users included.\<close>

definition lock_user :: "go_error option \<Rightarrow> uuid \<Rightarrow> account_db \<Rightarrow> user_row result" where
  "lock_user dbErr i db = failing dbErr (find_or_none (\<lambda>u. uwID u = i) (daUsers db))"

definition set_password :: "uuid \<Rightarrow> string \<Rightarrow> account_db \<Rightarrow> account_db" where
  "set_password i h db = db\<lparr>daUsers := set_where (\<lambda>u. uwID u = i) (\<lambda>u. u\<lparr>uwPasswordHash := Some h\<rparr>) (daUsers db)\<rparr>"

definition consume_link :: "uuid \<Rightarrow> time \<Rightarrow> link_row list \<Rightarrow> link_row list" where
  "consume_link i now rows = set_where (\<lambda>t. lwID t = i) (\<lambda>t. t\<lparr>lwConsumedAt := Some now\<rparr>) rows"

record AcceptInviteRequest =
  aiToken :: string
  aiPassword :: string

text \<open>The token's checks in the order of the code; statement 0 is the begin of the transaction.\<close>

definition usable_invite :: "account_env \<Rightarrow> call_env \<Rightarrow> string \<Rightarrow> account_db \<Rightarrow> api_error + link_row \<times> user_row" where
  "usable_invite env q raw db =
    (case find_link env (uaErr q 1) raw (daInvites db) of
       Inl _ \<Rightarrow> Inl (unauthorized ''invalid invite token'')
     | Inr t \<Rightarrow>
       if lwConsumedAt t \<noteq> None then Inl (unauthorized ''this invite has already been used'')
       else if lwExpiresAt t < uaNow q then Inl (unauthorized ''this invite has expired'')
       else case lock_user (uaErr q 2) (lwUserID t) db of
         Inl _ \<Rightarrow> Inl (unauthorized ''invalid invite token'')
       | Inr u \<Rightarrow>
         if uwDeletedAt u \<noteq> None then Inl (unauthorized ''this invite is no longer valid'')
         else if uwPasswordHash u \<noteq> None then Inl (409, ''already_accepted'', ''this invite has already been accepted'')
         else Inr (t, u))"

definition accept_tx :: "account_env \<Rightarrow> call_env \<Rightarrow> AcceptInviteRequest \<Rightarrow> account_db \<Rightarrow> (api_error + int \<times> string) \<times> account_db" where
  "accept_tx env q req db =
    (if uaErr q 0 \<noteq> None then (Inl (server_failure ''could not start transaction''), db)
     else case usable_invite env q (aiToken req) db of
       Inl e \<Rightarrow> (Inl e, db)
     | Inr (t, u) \<Rightarrow>
       (case HashPassword q (aiPassword req) of
          Inl _ \<Rightarrow> (Inl (server_failure ''could not hash password''), db)
        | Inr h \<Rightarrow>
          if uaErr q 3 \<noteq> None then (Inl (server_failure ''could not set password''), db)
          else if uaErr q 4 \<noteq> None then (Inl (server_failure ''could not finalize invite''), db)
          else case end_tx q 5 db ((set_password (lwUserID t) h db)\<lparr>daInvites := consume_link (lwID t) (uaDBNow q) (daInvites db)\<rparr>) of
            (Some _, db') \<Rightarrow> (Inl (server_failure ''could not finalize invite''), db')
          | (None, db') \<Rightarrow> (Inr (200, uwEmail u), db')))"

definition AcceptInvite ::
  "account_env \<Rightarrow> call_env \<Rightarrow> string \<Rightarrow> AcceptInviteRequest option \<Rightarrow> rateLimiter \<times> account_db
   \<Rightarrow> (limited + api_error + int \<times> string) \<times> rateLimiter \<times> account_db" where
  "AcceptInvite env q key body st =
    (case provisioning_throttle (uaNow q) key (fst st) of
       (Some refusal, rl') \<Rightarrow> (Inl refusal, rl', snd st)
     | (None, rl') \<Rightarrow>
       (case body of
          None \<Rightarrow> (Inr (Inl (bad_input ''invalid JSON body'')), rl', snd st)
        | Some req \<Rightarrow>
          if aiToken req = [] then (Inr (Inl (bad_input ''token is required'')), rl', snd st)
          else if length (aiPassword req) < minPasswordLen
          then (Inr (Inl (bad_input ''password must be at least 8 characters'')), rl', snd st)
          else (case accept_tx env q req (snd st) of (ans, db') \<Rightarrow> (Inr ans, rl', db'))))"

text \<open>A reset request stores nothing; \<open>logged\<close> is the account that its log line names.\<close>

definition RequestPasswordReset ::
  "account_env \<Rightarrow> call_env \<Rightarrow> string \<Rightarrow> string option \<Rightarrow> rateLimiter \<times> account_db
   \<Rightarrow> (limited + api_error + int \<times> string) \<times> (uuid \<times> string) option \<times> rateLimiter \<times> account_db" where
  "RequestPasswordReset env q key body st =
    (case provisioning_throttle (uaNow q) key (fst st) of
       (Some refusal, rl') \<Rightarrow> (Inl refusal, None, rl', snd st)
     | (None, rl') \<Rightarrow>
       (case body of
          None \<Rightarrow> (Inr (Inl (bad_input ''invalid JSON body'')), None, rl', snd st)
        | Some raw \<Rightarrow>
          (let email = trim_space raw;
               logged = (if email = [] then None
                 else case store_GetUserByEmail (uaErr q 0) email (snd st) of
                   Inl _ \<Rightarrow> None
                 | Inr u \<Rightarrow> if uwPasswordHash u \<noteq> None then Some (uwID u, uwEmail u) else None)
           in (Inr (Inr (200, ''ok'')), logged, rl', snd st))))"

definition AdminGenerateResetLink ::
  "account_env \<Rightarrow> call_env \<Rightarrow> userClaims \<Rightarrow> string \<Rightarrow> account_db \<Rightarrow> account_db \<Rightarrow> (api_error + int \<times> string \<times> time) \<times> account_db" where
  "AdminGenerateResetLink env q uc raw seen db =
    (case peParseUUID (unPg env) raw of
       None \<Rightarrow> (Inl (bad_input ''invalid userId''), db)
     | Some i \<Rightarrow>
       (case store_GetUserByID (uaErr q 0) i seen of
          Inl _ \<Rightarrow> (Inl (404, ''not_found'', ''user not found''), db)
        | Inr u \<Rightarrow>
          if uwOrgID u \<noteq> ucOrgID uc then (Inl (404, ''not_found'', ''user not found''), db)
          else if uwPasswordHash u = None then (Inl (bad_input ''account uses SSO''), db)
          else case IssueRefreshToken env (uaRandom q) of
            Inl _ \<Rightarrow> (Inl (server_failure ''could not issue reset token''), db)
          | Inr (token, h) \<Rightarrow>
            if uaErr q 1 \<noteq> None then (Inl (server_failure ''could not start transaction''), db)
            else if uaErr q 2 \<noteq> None then (Inl (server_failure ''could not acquire lock''), db)
            else if uaErr q 3 \<noteq> None then (Inl (server_failure ''could not invalidate prior tokens''), db)
            else let rows = set_where (\<lambda>t. lwUserID t = i \<and> lwConsumedAt t = None) (\<lambda>t. t\<lparr>lwConsumedAt := Some (uaDBNow q)\<rparr>) (daResets db);
                expires = uaNow q + resetTokenTTL;
                t = \<lparr>lwID = uaNewID q 0, lwUserID = i, lwTokenHash = h, lwExpiresAt = expires, lwConsumedAt = None\<rparr>
              in if first_error (uaErr q 4) (link_violation env t rows db) \<noteq> None
                 then (Inl (server_failure ''could not persist reset token''), db)
                 else case end_tx q 5 db (db\<lparr>daResets := rows @ [t]\<rparr>) of
                   (Some _, db') \<Rightarrow> (Inl (server_failure ''could not finalize reset token''), db')
                 | (None, db') \<Rightarrow> (Inr (201, ''/reset-password?token='' @ token, expires), db')))"

record ResetPasswordRequest =
  rpToken :: string
  rpNewPassword :: string

definition usable_reset :: "account_env \<Rightarrow> call_env \<Rightarrow> string \<Rightarrow> account_db \<Rightarrow> api_error + link_row" where
  "usable_reset env q raw db =
    (case find_link env (uaErr q 1) raw (daResets db) of
       Inl _ \<Rightarrow> Inl (unauthorized ''invalid reset token'')
     | Inr t \<Rightarrow>
       if lwConsumedAt t \<noteq> None then Inl (unauthorized ''this reset link has already been used'')
       else if lwExpiresAt t < uaNow q then Inl (unauthorized ''this reset link has expired'')
       else case lock_user (uaErr q 2) (lwUserID t) db of
         Inl _ \<Rightarrow> Inl (unauthorized ''invalid reset token'')
       | Inr u \<Rightarrow>
         if uwDeletedAt u \<noteq> None then Inl (unauthorized ''this reset link is no longer valid'') else Inr t)"

definition reset_tx :: "account_env \<Rightarrow> call_env \<Rightarrow> ResetPasswordRequest \<Rightarrow> account_db \<Rightarrow> (api_error + int \<times> string) \<times> account_db" where
  "reset_tx env q req db =
    (if uaErr q 0 \<noteq> None then (Inl (server_failure ''could not start transaction''), db)
     else case usable_reset env q (rpToken req) db of
       Inl e \<Rightarrow> (Inl e, db)
     | Inr t \<Rightarrow>
       (case HashPassword q (rpNewPassword req) of
          Inl _ \<Rightarrow> (Inl (server_failure ''could not hash password''), db)
        | Inr h \<Rightarrow>
          if uaErr q 3 \<noteq> None then (Inl (server_failure ''could not set password''), db)
          else if uaErr q 4 \<noteq> None then (Inl (server_failure ''could not finalize reset''), db)
          else case end_tx q 5 db ((set_password (lwUserID t) h db)\<lparr>daResets := consume_link (lwID t) (uaDBNow q) (daResets db)\<rparr>) of
            (Some _, db') \<Rightarrow> (Inl (server_failure ''could not finalize reset''), db')
          | (None, db') \<Rightarrow> (Inr (200, ''ok''), db')))"

definition ResetPassword ::
  "account_env \<Rightarrow> call_env \<Rightarrow> string \<Rightarrow> ResetPasswordRequest option \<Rightarrow> rateLimiter \<times> account_db
   \<Rightarrow> (limited + api_error + int \<times> string) \<times> rateLimiter \<times> account_db" where
  "ResetPassword env q key body st =
    (case provisioning_throttle (uaNow q) key (fst st) of
       (Some refusal, rl') \<Rightarrow> (Inl refusal, rl', snd st)
     | (None, rl') \<Rightarrow>
       (case body of
          None \<Rightarrow> (Inr (Inl (bad_input ''invalid JSON body'')), rl', snd st)
        | Some req \<Rightarrow>
          if rpToken req = [] then (Inr (Inl (bad_input ''token is required'')), rl', snd st)
          else if length (rpNewPassword req) < minPasswordLen
          then (Inr (Inl (bad_input ''new_password must be at least 8 characters'')), rl', snd st)
          else (case reset_tx env q req (snd st) of (ans, db') \<Rightarrow> (Inr ans, rl', db'))))"

section \<open>First-boot setup (bootstrap.go)\<close>

definition re_space :: "char \<Rightarrow> bool" where
  "re_space c = (c \<in> set [CHR '' '', CHR 0x09, CHR 0x0A, CHR 0x0C, CHR 0x0D])"

definition isValidSetupEmail :: "string \<Rightarrow> bool" where
  "isValidSetupEmail email =
    (case split_on (CHR ''@'') email of
       [a, b] \<Rightarrow> a \<noteq> [] \<and> b \<noteq> [] \<and> \<not> list_ex re_space email
     | _ \<Rightarrow> False)"

definition adminDisplayName :: "string \<Rightarrow> string" where
  "adminDisplayName email =
    (let name = takeWhile (\<lambda>c. c \<noteq> CHR ''@'') email
     in if CHR ''@'' \<in> set email \<and> name \<noteq> [] then name else email)"

definition slug_char :: "char \<Rightarrow> bool" where
  "slug_char c = (CHR ''a'' \<le> c \<and> c \<le> CHR ''z'' \<or> CHR ''0'' \<le> c \<and> c \<le> CHR ''9'')"

text \<open>Every maximal run of other characters becomes one hyphen; \<open>inRun\<close>: the run has its hyphen.\<close>

fun replace_runs :: "bool \<Rightarrow> string \<Rightarrow> string" where
  "replace_runs inRun [] = []"
| "replace_runs inRun (c # cs) =
    (if slug_char c then c # replace_runs False cs
     else if inRun then replace_runs True cs else CHR ''-'' # replace_runs True cs)"

definition slugifyOrgName :: "string \<Rightarrow> uuid \<Rightarrow> string" where
  "slugifyOrgName name fallbackID =
    (let s = trim_byte (CHR ''-'') (replace_runs False (to_lower name))
     in if s = [] then ''org-'' @ take 8 fallbackID else s)"

definition SetupStatus :: "account_env \<Rightarrow> call_env \<Rightarrow> account_db \<Rightarrow> api_error + int \<times> bool" where
  "SetupStatus env q db = (case uaErr q 0 of Some err \<Rightarrow> Inl (db_failure env err) | None \<Rightarrow> Inr (200, daOrgs db \<noteq> []))"

definition setup_throttle :: "time \<Rightarrow> string \<Rightarrow> rateLimiter \<Rightarrow> limited option \<times> rateLimiter" where
  "setup_throttle = throttle ''too many setup attempts -- try again later''"

definition already_configured :: api_error where
  "already_configured = (409, ''already_configured'', ''this appliance is already configured'')"

definition usable_setup :: "account_env \<Rightarrow> go_error option \<Rightarrow> time \<Rightarrow> string \<Rightarrow> account_db \<Rightarrow> api_error + setup_row" where
  "usable_setup env dbErr now raw db =
    (case failing dbErr (find_or_none (\<lambda>t. swTokenHash t = hash_token env raw) (daSetup db)) of
       Inl _ \<Rightarrow> Inl (unauthorized ''invalid setup token'')
     | Inr t \<Rightarrow>
       if swConsumedAt t \<noteq> None then Inl (unauthorized ''setup token has already been used'')
       else if swExpiresAt t < now then Inl (unauthorized ''setup token has expired'')
       else Inr t)"

definition ValidateSetupToken ::
  "account_env \<Rightarrow> call_env \<Rightarrow> string \<Rightarrow> string option \<Rightarrow> account_db \<Rightarrow> account_db \<Rightarrow> rateLimiter
   \<Rightarrow> (limited + api_error + int) \<times> rateLimiter" where
  "ValidateSetupToken env q key body seenOrgs seenToken rl =
    (case setup_throttle (uaNow q) key rl of
       (Some refusal, rl') \<Rightarrow> (Inl refusal, rl')
     | (None, rl') \<Rightarrow>
       (if body = None \<or> body = Some [] then (Inr (Inl (bad_input ''setup_token is required'')), rl')
        else case uaErr q 0 of
          Some err \<Rightarrow> (Inr (Inl (db_failure env err)), rl')
        | None \<Rightarrow>
          if daOrgs seenOrgs \<noteq> [] then (Inr (Inl already_configured), rl')
          else case usable_setup env (uaErr q 1) (uaNow q) (the body) seenToken of
            Inl e \<Rightarrow> (Inr (Inl e), rl')
          | Inr _ \<Rightarrow> (Inr (Inr 204), rl')))"

record BootstrapRequest =
  brSetupToken :: string
  brOrgName :: string
  brAdminEmail :: string
  brAdminPassword :: string

definition bootstrap_invalid :: "BootstrapRequest \<Rightarrow> api_error option" where
  "bootstrap_invalid req =
    (if brSetupToken req = [] then Some (bad_input ''setup_token is required'')
     else if trim_space (brOrgName req) = [] then Some (bad_input ''org_name is required'')
     else if \<not> isValidSetupEmail (trim_space (brAdminEmail req)) then Some (bad_input ''admin_email is not a valid email address'')
     else if length (brAdminPassword req) < 8 then Some (bad_input ''admin_password must be at least 8 characters'')
     else None)"

definition first_admin :: "call_env \<Rightarrow> BootstrapRequest \<Rightarrow> string \<Rightarrow> user_row" where
  "first_admin q req h =
    \<lparr>uwID = uaNewID q 1, uwOrgID = uaNewID q 0, uwEmail = trim_space (brAdminEmail req), uwName = Some (adminDisplayName (trim_space (brAdminEmail req))),
     uwPasswordHash = Some h, uwRole = ''admin'', uwCreatedAt = uaDBNow q, uwLastLogin = None, uwDeletedAt = None, uwInvitedAt = None, uwInvitedBy = None\<rparr>"

text \<open>The transaction under the advisory lock; statement 0 is its begin, 1 the lock.\<close>

definition bootstrap_tx ::
  "account_env \<Rightarrow> call_env \<Rightarrow> BootstrapRequest \<Rightarrow> string \<Rightarrow> account_db \<Rightarrow> (api_error + int \<times> uuid) \<times> account_db" where
  "bootstrap_tx env q req h db =
    (if uaErr q 0 \<noteq> None then (Inl (server_failure ''could not start setup transaction''), db)
     else if uaErr q 1 \<noteq> None then (Inl (server_failure ''could not acquire setup lock''), db)
     else case usable_setup env (uaErr q 2) (uaNow q) (brSetupToken req) db of
       Inl e \<Rightarrow> (Inl e, db)
     | Inr t \<Rightarrow>
       (case uaErr q 3 of
          Some err \<Rightarrow> (Inl (db_failure env err), db)
        | None \<Rightarrow>
          if daOrgs db \<noteq> [] then (Inl already_configured, db)
          else if uaErr q 4 \<noteq> None then (Inl (server_failure ''could not create organization''), db)
          else let name = trim_space (brOrgName req);
              og = \<lparr>oaID = uaNewID q 0, oaName = name, oaSlug = slugifyOrgName name (uaNewID q 0), oaPlan = ''trial''\<rparr>
          in case insert_user env (uaErr q 5) (first_admin q req h) (db\<lparr>daOrgs := daOrgs db @ [og]\<rparr>) of
            (Some _, _) \<Rightarrow> (Inl (server_failure ''could not create admin user''), db)
          | (None, db1) \<Rightarrow>
            if uaErr q 6 \<noteq> None then (Inl (server_failure ''could not finalize setup token''), db)
            else case end_tx q 7 db (db1\<lparr>daSetup := set_where (\<lambda>s. swID s = swID t) (\<lambda>s. s\<lparr>swConsumedAt := Some (uaDBNow q)\<rparr>) (daSetup db1)\<rparr>) of
              (Some _, db') \<Rightarrow> (Inl (server_failure ''could not finalize setup''), db')
            | (None, db') \<Rightarrow> (Inr (201, uaNewID q 0), db')))"

definition Bootstrap ::
  "account_env \<Rightarrow> call_env \<Rightarrow> string \<Rightarrow> BootstrapRequest option \<Rightarrow> rateLimiter \<times> account_db
   \<Rightarrow> (limited + api_error + int \<times> uuid) \<times> rateLimiter \<times> account_db" where
  "Bootstrap env q key body st =
    (case setup_throttle (uaNow q) key (fst st) of
       (Some refusal, rl') \<Rightarrow> (Inl refusal, rl', snd st)
     | (None, rl') \<Rightarrow>
       (case body of
          None \<Rightarrow> (Inr (Inl (bad_input ''invalid JSON body'')), rl', snd st)
        | Some req \<Rightarrow>
          (case bootstrap_invalid req of
             Some e \<Rightarrow> (Inr (Inl e), rl', snd st)
           | None \<Rightarrow>
             (case HashPassword q (brAdminPassword req) of
                Inl _ \<Rightarrow> (Inr (Inl (server_failure ''could not hash admin password'')), rl', snd st)
              | Inr h \<Rightarrow> (case bootstrap_tx env q req h (snd st) of (ans, db') \<Rightarrow> (Inr ans, rl', db'))))))"

end
