(* ===== verification/Account_Runs.thy ===== *)
theory Account_Runs
  imports User_Accounts
begin

text \<open>
  Runs of account requests over the handlers of \<open>User_Accounts\<close>. A run is the history of the
  tables, newest first, with the events of the answered requests; a read of a request may have
  seen any state of the history, so that requests interleave freely. A run that starts at some
  request (\<open>run_from\<close>) also has the requests that were in flight there, whose reads may have seen
  earlier tables. The lemmas give what each request does to the users and to the link tokens; the
  theorems, what no run can do: give a session to a deactivated user by a request that began
  after the deactivation, change that user's password, grant the platform tier, use a link twice
  or after its replacement, or set up twice.
\<close>

section \<open>Requests\<close>

datatype account_request =
    ReqLogin "LoginRequest option"
  | ReqRefresh "string option"
  | ReqInvite userClaims "InviteUserRequest option"
  | ReqRole userClaims string "string option"
  | ReqDelete userClaims string
  | ReqName userClaims "string option option"
  | ReqPassword userClaims "ChangeMyPasswordRequest option"
  | ReqAccept string "AcceptInviteRequest option" rateLimiter
  | ReqResetLink userClaims string
  | ReqReset string "ResetPasswordRequest option" rateLimiter
  | ReqBootstrap string "BootstrapRequest option" rateLimiter

text \<open>What an answered request did: a session for a user, a password set by the token with this id
  for this user, a changed password, or the organisation of the setup.\<close>

datatype account_event =
    Session uuid
  | Accepted uuid uuid
  | PasswordReset uuid uuid
  | PasswordChanged uuid
  | SetUp uuid

definition accepted_of :: "account_env \<Rightarrow> call_env \<Rightarrow> AcceptInviteRequest \<Rightarrow> account_db \<Rightarrow> account_event list" where
  "accepted_of env q req db = (case usable_invite env q (aiToken req) db of Inr (t, u) \<Rightarrow> [Accepted (lwID t) (uwID u)] | Inl _ \<Rightarrow> [])"

definition reset_of :: "account_env \<Rightarrow> call_env \<Rightarrow> ResetPasswordRequest \<Rightarrow> account_db \<Rightarrow> account_event list" where
  "reset_of env q req db = (case usable_reset env q (rpToken req) db of Inr t \<Rightarrow> [PasswordReset (lwID t) (lwUserID t)] | Inl _ \<Rightarrow> [])"

definition answered :: "(api_error + 'a) \<Rightarrow> ('a \<Rightarrow> account_event list) \<Rightarrow> account_event list" where
  "answered ans f = (case ans of Inl _ \<Rightarrow> [] | Inr x \<Rightarrow> f x)"

definition let_through :: "(limited + api_error + 'a) \<Rightarrow> account_event list \<Rightarrow> account_event list" where
  "let_through ans evs = (case ans of Inr (Inr _) \<Rightarrow> evs | _ \<Rightarrow> [])"

definition not_done :: "(limited + api_error + 'a) \<Rightarrow> bool" where
  "not_done ans = (case ans of Inr (Inr _) \<Rightarrow> False | _ \<Rightarrow> True)"

definition handle ::
  "account_env \<Rightarrow> call_env \<Rightarrow> account_db \<Rightarrow> account_db \<Rightarrow> account_request \<Rightarrow> account_db \<Rightarrow> account_event list \<times> account_db" where
  "handle env q seen1 seen2 r db =
    (case r of
       ReqLogin body \<Rightarrow> (let (ans, db') = Login env q body seen1 db in (answered ans (\<lambda>(_, resp). [Session (usrID (lrUser resp))]), db'))
     | ReqRefresh body \<Rightarrow> (let (ans, db') = Refresh env q body seen1 seen2 db in (answered ans (\<lambda>(_, resp). [Session (usrID (lrUser resp))]), db'))
     | ReqInvite uc body \<Rightarrow> ([], snd (InviteUser env q uc body db))
     | ReqRole uc raw body \<Rightarrow> ([], snd (UpdateUserRole env q uc raw body db))
     | ReqDelete uc raw \<Rightarrow> ([], snd (DeleteUser env q uc raw db))
     | ReqName uc body \<Rightarrow> ([], snd (UpdateMe env q uc body db))
     | ReqPassword uc body \<Rightarrow> (let (ans, db') = ChangeMyPassword env q uc body seen1 db in (answered ans (\<lambda>_. [PasswordChanged (ucUserID uc)]), db'))
     | ReqAccept key body rl \<Rightarrow> (let (ans, _, db') = AcceptInvite env q key body (rl, db)
         in (let_through ans (case body of None \<Rightarrow> [] | Some req \<Rightarrow> accepted_of env q req db), db'))
     | ReqResetLink uc raw \<Rightarrow> ([], snd (AdminGenerateResetLink env q uc raw seen1 db))
     | ReqReset key body rl \<Rightarrow> (let (ans, _, db') = ResetPassword env q key body (rl, db)
         in (let_through ans (case body of None \<Rightarrow> [] | Some req \<Rightarrow> reset_of env q req db), db'))
     | ReqBootstrap key body rl \<Rightarrow> (let (ans, _, db') = Bootstrap env q key body (rl, db)
         in ((case ans of Inr (Inr (_, org)) \<Rightarrow> [SetUp org] | _ \<Rightarrow> []), db')))"

inductive account_run :: "account_env \<Rightarrow> account_db \<Rightarrow> account_event list \<Rightarrow> account_db list \<Rightarrow> bool" for env db0 where
  start: "account_run env db0 [] [db0]"
| request: "account_run env db0 evs (db # h) \<Longrightarrow> seen1 \<in> set (db # h) \<Longrightarrow> seen2 \<in> set (db # h)
    \<Longrightarrow> account_run env db0 (evs @ fst (handle env q seen1 seen2 r db)) (snd (handle env q seen1 seen2 r db) # db # h)"

text \<open>A run from the tables \<open>db0\<close> that some request has left. \<open>before\<close> holds tables of the time before;
  a request in flight at the start (the flag of its events) may have read them, every other one
  reads what it reads after the start.\<close>

inductive run_from ::
  "account_env \<Rightarrow> account_db set \<Rightarrow> account_db \<Rightarrow> (bool \<times> account_event) list \<Rightarrow> account_db list \<Rightarrow> bool" for env before db0 where
  begins: "run_from env before db0 [] [db0]"
| goes_on: "run_from env before db0 evs (db # h) \<Longrightarrow> seen1 \<in> set (db # h) \<union> (if inFlight then before else {})
    \<Longrightarrow> seen2 \<in> set (db # h) \<union> (if inFlight then before else {})
    \<Longrightarrow> run_from env before db0 (evs @ map (Pair inFlight) (fst (handle env q seen1 seen2 r db)))
      (snd (handle env q seen1 seen2 r db) # db # h)"

section \<open>What a request does to the users\<close>

lemma set_where_Nil [simp]: "set_where P f [] = []"
  by (simp add: set_where_def)

lemma find_or_none_Inr: "find_or_none P xs = Inr x \<Longrightarrow> x \<in> set xs \<and> P x"
  by (auto simp: find_or_none_def dest: find_Some_set split: option.splits)

lemma failing_Inr: "failing e r = Inr x \<longleftrightarrow> e = None \<and> r = Inr x"
  by (simp add: failing_def split: option.split)

text \<open>How one row may change: never its key, its organisation or its e-mail, never back from
  deactivation, and its role only to one that an administrator may assign.\<close>

definition user_kept :: "user_row \<Rightarrow> user_row \<Rightarrow> bool" where
  "user_kept u v = (uwID v = uwID u \<and> uwOrgID v = uwOrgID u \<and> uwEmail v = uwEmail u \<and> (uwDeletedAt u \<noteq> None \<longrightarrow> uwDeletedAt v \<noteq> None)
     \<and> (uwRole v = uwRole u \<or> uwRole v \<in> set allowedRoles))"

text \<open>A table that keeps its rows, each changed as \<open>keep\<close> allows, and has at most one new one.\<close>

definition kept_rows :: "('a \<Rightarrow> 'a \<Rightarrow> bool) \<Rightarrow> ('a \<Rightarrow> 'k) \<Rightarrow> ('a \<Rightarrow> bool) \<Rightarrow> 'a list \<Rightarrow> 'a list \<Rightarrow> bool" where
  "kept_rows keep key fine xs ys = (\<exists>vs new. ys = vs @ new \<and> list_all2 keep xs vs
     \<and> (\<forall>u\<in>set new. fine u \<and> key u \<notin> key ` set xs) \<and> length new \<le> 1)"

lemma kept_rows_same: "(\<And>u. keep u u) \<Longrightarrow> kept_rows keep key fine xs xs"
  unfolding kept_rows_def by (intro exI [of _ xs] exI [of _ "[]"]) (simp add: list_all2_same)

lemma kept_rows_where: "(\<And>u. keep u u) \<Longrightarrow> (\<And>u. P u \<Longrightarrow> keep u (f u)) \<Longrightarrow> kept_rows keep key fine xs (set_where P f xs)"
  unfolding kept_rows_def
  by (intro exI [of _ "set_where P f xs"] exI [of _ "[]"]) (simp add: set_where_def list_all2_map2 list_all2_same)

lemma kept_rows_new: "(\<And>u. keep u u) \<Longrightarrow> fine u \<Longrightarrow> key u \<notin> key ` set xs \<Longrightarrow> kept_rows keep key fine xs (xs @ [u])"
  unfolding kept_rows_def by (intro exI [of _ xs] exI [of _ "[u]"]) (simp add: list_all2_same)

lemma kept_rows_keys:
  assumes "kept_rows keep key fine xs ys" "\<And>u v. keep u v \<Longrightarrow> key v = key u" "distinct (map key xs)"
  shows "distinct (map key ys)"
proof -
  obtain vs new where d: "ys = vs @ new" "list_all2 keep xs vs" "\<forall>u\<in>set new. key u \<notin> key ` set xs" "length new \<le> 1"
    using assms(1) unfolding kept_rows_def by blast
  have keys: "map key vs = map key xs"
    using d(2) by (induction rule: list_all2_induct) (simp_all add: assms(2))
  then have "key ` set vs = key ` set xs" by (metis list.set_map)
  then show ?thesis using keys d(1,3,4) assms(3) by (cases new) (auto simp: distinct_map)
qed

lemma kept_rows_row:
  assumes "kept_rows keep key fine xs ys" "u \<in> set xs"
  obtains v where "v \<in> set ys" "keep u v"
proof -
  obtain vs new where d: "ys = vs @ new" "list_all2 keep xs vs"
    using assms(1) unfolding kept_rows_def by blast
  from d(2) assms(2) obtain v where "v \<in> set vs" "keep u v"
    by (induction rule: list_all2_induct) auto
  with d(1) show thesis by (intro that) auto
qed

lemma kept_rows_origin:
  assumes "kept_rows keep key fine xs ys" "v \<in> set ys"
  shows "(\<exists>u\<in>set xs. keep u v) \<or> fine v \<and> key v \<notin> key ` set xs"
proof -
  obtain vs new where d: "ys = vs @ new" "list_all2 keep xs vs" "\<forall>u\<in>set new. fine u \<and> key u \<notin> key ` set xs"
    using assms(1) unfolding kept_rows_def by blast
  show ?thesis
  proof (cases "v \<in> set vs")
    case True
    with d(2) have "\<exists>u\<in>set xs. keep u v"
      by (induction rule: list_all2_induct) auto
    then show ?thesis by blast
  next
    case False then show ?thesis using d(1,3) assms(2) by auto
  qed
qed

definition users_kept :: "account_db \<Rightarrow> account_db \<Rightarrow> bool" where
  "users_kept db db' = kept_rows user_kept uwID (\<lambda>u. uwRole u \<in> set allowedRoles) (daUsers db) (daUsers db')"

lemma user_kept_refl [simp]: "user_kept u u"
  by (simp add: user_kept_def)

lemma users_kept_same: "daUsers db' = daUsers db \<Longrightarrow> users_kept db db'"
  by (simp add: users_kept_def kept_rows_same)

lemma users_kept_refl [simp]: "users_kept db db"
  by (simp add: users_kept_same)

lemma users_kept_where:
  "daUsers db' = set_where P f (daUsers db) \<Longrightarrow> (\<And>u. P u \<Longrightarrow> user_kept u (f u)) \<Longrightarrow> users_kept db db'"
  by (simp add: users_kept_def kept_rows_where)

lemma users_kept_new:
  "daUsers db' = daUsers db @ [u] \<Longrightarrow> uwRole u \<in> set allowedRoles \<Longrightarrow> uwID u \<notin> uwID ` set (daUsers db) \<Longrightarrow> users_kept db db'"
  by (simp add: users_kept_def kept_rows_new)

lemma end_tx_cases: "snd (end_tx q i old new) = old \<or> snd (end_tx q i old new) = new"
  by (simp add: end_tx_def split: option.split)

lemma end_tx_eq: "end_tx q i old new = (e, d) \<Longrightarrow> d = old \<and> (\<exists>err. e = Some err) \<or> d = new"
  by (simp add: end_tx_def split: option.splits if_splits) metis

lemma insert_user_None:
  assumes "insert_user env e u db = (None, db')"
  shows "db' = db\<lparr>daUsers := daUsers db @ [u]\<rparr> \<and> uwID u \<notin> uwID ` set (daUsers db) \<and> uwEmail u \<notin> uwEmail ` set (daUsers db)"
  using assms by (auto simp: insert_user_def split: if_splits)

lemma open_session_rest:
  "daUsers (snd (open_session env q i u db)) = daUsers db \<and> daInvites (snd (open_session env q i u db)) = daInvites db
   \<and> daResets (snd (open_session env q i u db)) = daResets db \<and> daOrgs (snd (open_session env q i u db)) = daOrgs db"
  by (auto simp: open_session_def store_CreateRefreshToken_def split: sum.split prod.split option.split)

lemma Login_rest:
  "daUsers (snd (Login env q body seen db)) = daUsers db \<and> daInvites (snd (Login env q body seen db)) = daInvites db
   \<and> daResets (snd (Login env q body seen db)) = daResets db \<and> daOrgs (snd (Login env q body seen db)) = daOrgs db"
  by (simp add: Login_def open_session_rest split: sum.split option.split)

lemma Refresh_rest:
  "daUsers (snd (Refresh env q body s1 s2 db)) = daUsers db \<and> daInvites (snd (Refresh env q body s1 s2 db)) = daInvites db
   \<and> daResets (snd (Refresh env q body s1 s2 db)) = daResets db \<and> daOrgs (snd (Refresh env q body s1 s2 db)) = daOrgs db"
  by (simp add: Refresh_def open_session_rest store_RevokeRefreshToken_def split: sum.split option.split)

lemma update_own_users:
  assumes "\<And>u. user_kept u (f u)" "update_own e i org f db = (r, db')"
  shows "users_kept db db'"
proof -
  have "users_kept db (db\<lparr>daUsers := set_where (own_live i org) f (daUsers db)\<rparr>)"
    by (rule users_kept_where [where P = "own_live i org" and f = f]) (simp_all add: assms(1))
  then show ?thesis using assms(2) by (auto simp: update_own_def split: sum.splits)
qed

lemma UpdateUserRole_users:
  assumes "UpdateUserRole env q uc raw body db = (ans, db')"
  shows "users_kept db db'"
proof -
  have st: "users_kept db db'" if "store_UpdateUserRole env e i org role db = (r, db')" "role \<in> set allowedRoles" for e i org role r db'
  proof -
    have kept: "user_kept u (u\<lparr>uwRole := role\<rparr>)" for u using that(2) by (simp add: user_kept_def)
    show ?thesis using that(1) by (auto simp: store_UpdateUserRole_def dest: update_own_users [OF kept] split: if_splits)
  qed
  show ?thesis
    using assms by (auto simp: UpdateUserRole_def dest: st split: option.splits sum.splits prod.splits if_splits)
qed

lemma DeleteUser_users:
  assumes "DeleteUser env q uc raw db = (ans, db')"
  shows "users_kept db db'"
proof -
  have "users_kept db (db\<lparr>daUsers := set_where (\<lambda>u. uwID u = i \<and> uwOrgID u = org) (\<lambda>u. u\<lparr>uwDeletedAt := Some now\<rparr>) (daUsers db)\<rparr>)" for now i org
    by (rule users_kept_where [where P = "\<lambda>u. uwID u = i \<and> uwOrgID u = org" and f = "\<lambda>u. u\<lparr>uwDeletedAt := Some now\<rparr>"])
      (simp_all add: user_kept_def)
  then show ?thesis
    using assms by (auto simp: DeleteUser_def store_SoftDeleteUser_def split: option.splits prod.splits if_splits)
qed

lemma UpdateMe_users:
  assumes "UpdateMe env q uc body db = (ans, db')"
  shows "users_kept db db'"
proof -
  have kept: "user_kept u (u\<lparr>uwName := Some name\<rparr>)" for u name by (simp add: user_kept_def)
  show ?thesis
    using assms by (auto simp: UpdateMe_def store_UpdateUserName_def dest: update_own_users [OF kept]
        split: option.splits sum.splits prod.splits if_splits)
qed

lemma ChangeMyPassword_users:
  assumes "ChangeMyPassword env q uc body seen db = (ans, db')"
  shows "users_kept db db'"
proof -
  have "users_kept db (db\<lparr>daUsers := set_where (\<lambda>u. uwID u = i \<and> live_user u) (\<lambda>u. u\<lparr>uwPasswordHash := Some h\<rparr>) (daUsers db)\<rparr>)" for i h
    by (rule users_kept_where [where P = "\<lambda>u. uwID u = i \<and> live_user u" and f = "\<lambda>u. u\<lparr>uwPasswordHash := Some h\<rparr>"])
      (simp_all add: user_kept_def)
  then show ?thesis
    using assms by (auto simp: ChangeMyPassword_def store_UpdateUserPasswordHash_def split: option.splits sum.splits prod.splits if_splits)
qed

lemma set_password_users: "daUsers db' = daUsers (set_password i h db) \<Longrightarrow> users_kept db db'"
  by (rule users_kept_where [of _ "\<lambda>u. uwID u = i" "\<lambda>u. u\<lparr>uwPasswordHash := Some h\<rparr>"])
    (simp_all add: set_password_def user_kept_def)

text \<open>What the transactions leave, with the rows they locked.\<close>

lemma accept_tx_outcome:
  assumes "accept_tx env q req db = (ans, db')"
  shows "db' = db \<and> isl ans
    \<or> (\<exists>t u h. usable_invite env q (aiToken req) db = Inr (t, u)
        \<and> db' = (set_password (lwUserID t) h db)\<lparr>daInvites := consume_link (lwID t) (uaDBNow q) (daInvites db)\<rparr>)"
  using assms by (auto simp: accept_tx_def dest!: end_tx_eq split: if_splits sum.splits prod.splits option.splits)

lemma reset_tx_outcome:
  assumes "reset_tx env q req db = (ans, db')"
  shows "db' = db \<and> isl ans
    \<or> (\<exists>t h. usable_reset env q (rpToken req) db = Inr t
        \<and> db' = (set_password (lwUserID t) h db)\<lparr>daResets := consume_link (lwID t) (uaDBNow q) (daResets db)\<rparr>)"
  using assms by (auto simp: reset_tx_def dest!: end_tx_eq split: if_splits sum.splits prod.splits option.splits)

lemma AcceptInvite_outcome:
  assumes "AcceptInvite env q key body st = (ans, rl', db')"
  shows "db' = snd st \<and> not_done ans
    \<or> (\<exists>req a. body = Some req \<and> ans = Inr a \<and> accept_tx env q req (snd st) = (a, db'))"
  using assms by (auto simp: AcceptInvite_def not_done_def split: if_splits prod.splits option.splits)

lemma ResetPassword_outcome:
  assumes "ResetPassword env q key body st = (ans, rl', db')"
  shows "db' = snd st \<and> not_done ans
    \<or> (\<exists>req a. body = Some req \<and> ans = Inr a \<and> reset_tx env q req (snd st) = (a, db'))"
  using assms by (auto simp: ResetPassword_def not_done_def split: if_splits prod.splits option.splits)

lemma bootstrap_tx_outcome:
  assumes "bootstrap_tx env q req h db = (ans, db')"
  shows "db' = db \<and> isl ans
    \<or> (daOrgs db = [] \<and> daUsers db' = daUsers db @ [first_admin q req h] \<and> uaNewID q 1 \<notin> uwID ` set (daUsers db) \<and> length (daOrgs db') = 1
        \<and> daInvites db' = daInvites db \<and> daResets db' = daResets db)"
  using assms
  by (auto simp: bootstrap_tx_def Let_def dest!: end_tx_eq insert_user_None split: if_splits sum.splits prod.splits option.splits)
    (simp_all add: first_admin_def)

lemma Bootstrap_outcome:
  assumes "Bootstrap env q key body st = (ans, rl', db')"
  shows "db' = snd st \<and> not_done ans
    \<or> (\<exists>req h a. body = Some req \<and> bootstrap_invalid req = None \<and> ans = Inr a \<and> bootstrap_tx env q req h (snd st) = (a, db'))"
  using assms by (auto simp: Bootstrap_def not_done_def split: if_splits prod.splits option.splits sum.splits)

lemma AdminGenerateResetLink_outcome:
  assumes "AdminGenerateResetLink env q uc raw seen db = (ans, db')"
  shows "db' = db \<and> isl ans
    \<or> (\<exists>i u token. peParseUUID (unPg env) raw = Some i \<and> store_GetUserByID (uaErr q 0) i seen = Inr u \<and> uwOrgID u = ucOrgID uc
        \<and> uwPasswordHash u \<noteq> None \<and> IssueRefreshToken env (uaRandom q) = Inr (token, hash_token env token)
        \<and> uaNewID q 0 \<notin> lwID ` set (daResets db)
        \<and> db' = db\<lparr>daResets := set_where (\<lambda>t. lwUserID t = i \<and> lwConsumedAt t = None) (\<lambda>t. t\<lparr>lwConsumedAt := Some (uaDBNow q)\<rparr>) (daResets db)
            @ [\<lparr>lwID = uaNewID q 0, lwUserID = i, lwTokenHash = hash_token env token, lwExpiresAt = uaNow q + resetTokenTTL, lwConsumedAt = None\<rparr>]\<rparr>)"
proof -
  have ids: "lwID ` set (set_where P (\<lambda>t. t\<lparr>lwConsumedAt := x\<rparr>) rows) = lwID ` set rows" for P x rows
  proof -
    have "map lwID (set_where P (\<lambda>t. t\<lparr>lwConsumedAt := x\<rparr>) rows) = map lwID rows" by (simp add: set_where_def)
    then show ?thesis by (metis list.set_map)
  qed
  show ?thesis
    using assms
    by (auto simp: AdminGenerateResetLink_def Let_def link_violation_def first_error_def ids IssueRefreshToken_def dest!: end_tx_eq
        split: if_splits sum.splits prod.splits option.splits)
qed

definition invite_row :: "account_env \<Rightarrow> call_env \<Rightarrow> string \<Rightarrow> link_row" where
  "invite_row env q raw = \<lparr>lwID = uaNewID q 1, lwUserID = uaNewID q 0, lwTokenHash = hash_token env raw, lwExpiresAt = uaNow q + inviteTokenTTL,
     lwConsumedAt = None\<rparr>"

lemma InviteUser_outcome:
  assumes "InviteUser env q uc body db = (ans, db')"
  shows "db' = db \<and> isl ans
    \<or> (\<exists>req raw. body = Some req \<and> invite_role req \<in> set allowedRoles \<and> IssueRefreshToken env (uaRandom q) = Inr (raw, hash_token env raw)
        \<and> uaNewID q 0 \<notin> uwID ` set (daUsers db) \<and> ivEmail req \<notin> uwEmail ` set (daUsers db)
        \<and> link_violation env (invite_row env q raw) (daInvites db) (db\<lparr>daUsers := daUsers db @ [invited_user q (ucOrgID uc) (ivEmail req) (invite_role req) (ucUserID uc)]\<rparr>) = None
        \<and> db' = db\<lparr>daUsers := daUsers db @ [invited_user q (ucOrgID uc) (ivEmail req) (invite_role req) (ucUserID uc)],
            daInvites := daInvites db @ [invite_row env q raw]\<rparr>
        \<and> (\<forall>code resp. ans = Inr (code, resp) \<longrightarrow> irInviteLink resp = ''/accept-invite?token='' @ raw \<and> irExpiresAt resp = uaNow q + inviteTokenTTL
              \<and> irUser resp = userRowToResp (invited_user q (ucOrgID uc) (ivEmail req) (invite_role req) (ucUserID uc))))"
proof (cases body)
  case None then show ?thesis using assms by (auto simp: InviteUser_def)
next
  case (Some req)
  let ?u = "invited_user q (ucOrgID uc) (ivEmail req) (invite_role req) (ucUserID uc)"
  have uid: "uwID ?u = uaNewID q 0" by (simp add: invited_user_def)
  show ?thesis
  proof (cases "ivEmail req = [] \<or> invite_role req \<notin> set allowedRoles \<or> uaErr q 0 \<noteq> None")
    case True then show ?thesis
      using assms by (auto simp: Some InviteUser_def Let_def split: if_splits sum.splits prod.splits)
  next
    case ok: False
    show ?thesis
    proof (cases "IssueRefreshToken env (uaRandom q)")
      case (Inl e) then show ?thesis using assms ok by (auto simp: Some InviteUser_def Let_def)
    next
      case (Inr p)
      then obtain raw where raw: "p = (raw, hash_token env raw)"
        by (auto simp: IssueRefreshToken_def Let_def split: sum.splits)
      obtain e db1 where ins: "insert_user env (uaErr q 1) ?u db = (e, db1)" by fastforce
      have ans: "(ans, db') = (case e of Some err \<Rightarrow> (Inl (if isUniqueViolation (unPg env) err then (409, ''conflict'', inviteEmailUnavailable)
            else server_failure ''could not create invite''), db)
         | None \<Rightarrow> if first_error (uaErr q 2) (link_violation env (invite_row env q raw) (daInvites db1) db1) \<noteq> None
               then (Inl (server_failure ''could not persist invite token''), db)
               else case end_tx q 3 db (db1\<lparr>daInvites := daInvites db1 @ [invite_row env q raw]\<rparr>) of
                 (Some _, db') \<Rightarrow> (Inl (server_failure ''could not finalize invite''), db')
               | (None, db') \<Rightarrow>
                 (Inr (201, \<lparr>irUser = userRowToResp ?u, irInviteLink = ''/accept-invite?token='' @ raw, irExpiresAt = uaNow q + inviteTokenTTL\<rparr>), db'))"
        unfolding assms [symmetric] using ok Inr ins raw
        by (cases e) (simp_all add: Some InviteUser_def Let_def invite_row_def uid del: One_nat_def)
      show ?thesis
      proof (cases e)
        case (Some err) then show ?thesis using ans by simp
      next
        case None
        have new: "db1 = db\<lparr>daUsers := daUsers db @ [?u]\<rparr>" "uaNewID q 0 \<notin> uwID ` set (daUsers db)" "ivEmail req \<notin> uwEmail ` set (daUsers db)"
          using insert_user_None [OF ins [unfolded None]] by (simp_all add: invited_user_def)
        obtain e2 d where tx: "end_tx q 3 db (db1\<lparr>daInvites := daInvites db1 @ [invite_row env q raw]\<rparr>) = (e2, d)" by fastforce
        show ?thesis
        proof (cases "first_error (uaErr q 2) (link_violation env (invite_row env q raw) (daInvites db1) db1) = None")
          case False then show ?thesis using ans None by simp
        next
          case True
          then have lv: "link_violation env (invite_row env q raw) (daInvites db1) db1 = None" by (simp add: first_error_def split: option.splits)
          from end_tx_eq [OF tx] show ?thesis
          proof
            assume "d = db \<and> (\<exists>err. e2 = Some err)"
            then show ?thesis using ans None True tx by auto
          next
            assume "d = db1\<lparr>daInvites := daInvites db1 @ [invite_row env q raw]\<rparr>"
            moreover have "db' = d" using ans None True tx by (simp split: option.splits)
            moreover have "\<forall>code resp. ans = Inr (code, resp) \<longrightarrow> irInviteLink resp = ''/accept-invite?token='' @ raw \<and> irExpiresAt resp = uaNow q + inviteTokenTTL
                \<and> irUser resp = userRowToResp ?u"
              using ans None True tx by (auto split: option.splits)
            ultimately show ?thesis using new lv Inr raw ok Some by simp
          qed
        qed
      qed
    qed
  qed
qed

lemma handle_users:
  assumes "handle env q s1 s2 r db = (evs, db')"
  shows "users_kept db db'"
proof (cases r)
  case (ReqLogin body)
  then have "db' = snd (Login env q body s1 db)" using assms by (simp add: handle_def split_def Let_def)
  then show ?thesis by (simp add: users_kept_same Login_rest)
next
  case (ReqRefresh body)
  then have "db' = snd (Refresh env q body s1 s2 db)" using assms by (simp add: handle_def split_def Let_def)
  then show ?thesis by (simp add: users_kept_same Refresh_rest)
next
  case (ReqInvite uc body)
  then have "InviteUser env q uc body db = (fst (InviteUser env q uc body db), db')" using assms by (auto simp: handle_def)
  from InviteUser_outcome [OF this] show ?thesis
    by (auto simp: invited_user_def intro: users_kept_new)
next
  case (ReqRole uc raw body) then show ?thesis
    using assms by (intro UpdateUserRole_users [of env q uc raw body _ "fst (UpdateUserRole env q uc raw body db)"]) (auto simp: handle_def)
next
  case (ReqDelete uc raw) then show ?thesis
    using assms by (intro DeleteUser_users [of env q uc raw _ "fst (DeleteUser env q uc raw db)"]) (auto simp: handle_def)
next
  case (ReqName uc body) then show ?thesis
    using assms by (intro UpdateMe_users [of env q uc body _ "fst (UpdateMe env q uc body db)"]) (auto simp: handle_def)
next
  case (ReqPassword uc body) then show ?thesis
    using assms by (intro ChangeMyPassword_users [of env q uc body s1 _ "fst (ChangeMyPassword env q uc body s1 db)"]) (auto simp: handle_def split_def Let_def)
next
  case (ReqAccept key body rl)
  then obtain ans rl' where "AcceptInvite env q key body (rl, db) = (ans, rl', db')"
    using assms by (auto simp: handle_def split: prod.splits)
  from AcceptInvite_outcome [OF this] show ?thesis
    by (auto dest!: accept_tx_outcome intro: set_password_users)
next
  case (ReqResetLink uc raw)
  then have "AdminGenerateResetLink env q uc raw s1 db = (fst (AdminGenerateResetLink env q uc raw s1 db), db')"
    using assms by (auto simp: handle_def)
  from AdminGenerateResetLink_outcome [OF this] show ?thesis by (auto intro: users_kept_same)
next
  case (ReqReset key body rl)
  then obtain ans rl' where "ResetPassword env q key body (rl, db) = (ans, rl', db')"
    using assms by (auto simp: handle_def split: prod.splits)
  from ResetPassword_outcome [OF this] show ?thesis
    by (auto dest!: reset_tx_outcome intro: set_password_users)
next
  case (ReqBootstrap key body rl)
  then obtain ans rl' where "Bootstrap env q key body (rl, db) = (ans, rl', db')"
    using assms by (auto simp: handle_def split: prod.splits)
  from Bootstrap_outcome [OF this] show ?thesis
    by (auto simp: first_admin_def allowedRoles_def dest!: bootstrap_tx_outcome intro: users_kept_new)
qed

section \<open>Runs\<close>

definition user_ids :: "account_db \<Rightarrow> uuid list" where
  "user_ids db = map uwID (daUsers db)"

lemma users_kept_ids: "users_kept db db' \<Longrightarrow> distinct (user_ids db) \<Longrightarrow> distinct (user_ids db')"
  unfolding users_kept_def user_ids_def by (erule kept_rows_keys) (auto simp: user_kept_def)

lemma account_run_hist: "account_run env db0 evs h \<Longrightarrow> h \<noteq> [] \<and> last h = db0"
  by (induction rule: account_run.induct) auto

lemma account_run_step:
  "account_run env db0 evs (db # h) \<Longrightarrow> seen1 \<in> set (db # h) \<Longrightarrow> seen2 \<in> set (db # h)
   \<Longrightarrow> handle env q seen1 seen2 r db = (new, db') \<Longrightarrow> account_run env db0 (evs @ new) (db' # db # h)"
  using account_run.request [of env db0 evs db h seen1 seen2 q r] by simp

lemma account_run_ids: "account_run env db0 evs h \<Longrightarrow> distinct (user_ids db0) \<Longrightarrow> \<forall>db\<in>set h. distinct (user_ids db)"
proof (induction rule: account_run.induct)
  case (request evs db h seen1 seen2 q r)
  then show ?case using users_kept_ids [OF handle_users [of env q seen1 seen2 r db]] by (metis prod.collapse set_ConsD list.set_intros(1))
qed simp

section \<open>Whom a request serves\<close>

fun event_user :: "account_event \<Rightarrow> uuid option" where
  "event_user (Session i) = Some i"
| "event_user (Accepted t i) = Some i"
| "event_user (PasswordReset t i) = Some i"
| "event_user (PasswordChanged i) = Some i"
| "event_user (SetUp org) = None"

definition live_in :: "account_db \<Rightarrow> uuid \<Rightarrow> bool" where
  "live_in db i = (\<exists>u\<in>set (daUsers db). uwID u = i \<and> live_user u)"

lemma open_session_user:
  "open_session env q n u db = (Inr (code, resp), db') \<Longrightarrow> usrID (lrUser resp) = uwID u"
  by (auto simp: open_session_def session_response_def split: sum.splits prod.splits option.splits)

lemma Login_user:
  assumes "Login env q body seen db = (Inr (code, resp), db')"
  shows "live_in seen (usrID (lrUser resp))"
  using assms
  by (auto simp: Login_def store_GetUserByEmail_def failing_Inr live_in_def dest!: find_or_none_Inr open_session_user
      split: option.splits sum.splits if_splits)

lemma Refresh_user:
  assumes "Refresh env q body s1 s2 db = (Inr (code, resp), db')"
  shows "live_in s2 (usrID (lrUser resp))"
  using assms
  by (auto simp: Refresh_def store_GetUserByID_def failing_Inr live_in_def dest!: find_or_none_Inr open_session_user
      split: option.splits sum.splits if_splits)

lemma ChangeMyPassword_user:
  assumes "ChangeMyPassword env q uc body seen db = (Inr code, db')"
  shows "live_in seen (ucUserID uc)"
  using assms
  by (auto simp: ChangeMyPassword_def store_GetUserByID_def failing_Inr live_in_def dest!: find_or_none_Inr
      split: option.splits sum.splits if_splits)

lemma usable_invite_facts:
  assumes "usable_invite env q raw db = Inr (t, u)"
  shows "t \<in> set (daInvites db)" "lwConsumedAt t = None" "uwID u = lwUserID t" "live_in db (lwUserID t)"
    "uaNow q \<le> lwExpiresAt t" "lwTokenHash t = hash_token env raw" "uwPasswordHash u = None"
  using assms
  by (auto simp: usable_invite_def find_link_def lock_user_def failing_Inr live_in_def live_user_def dest!: find_or_none_Inr
      split: sum.splits if_splits)

lemma usable_reset_facts:
  assumes "usable_reset env q raw db = Inr t"
  shows "t \<in> set (daResets db)" "lwConsumedAt t = None" "live_in db (lwUserID t)" "uaNow q \<le> lwExpiresAt t" "lwTokenHash t = hash_token env raw"
  using assms
  by (auto simp: usable_reset_def find_link_def lock_user_def failing_Inr live_in_def live_user_def dest!: find_or_none_Inr
      split: sum.splits if_splits)

lemma handle_accept:
  assumes "handle env q s1 s2 (ReqAccept key body rl) db = (evs, db')" "evs \<noteq> []"
  obtains req t u h where "body = Some req" "usable_invite env q (aiToken req) db = Inr (t, u)" "evs = [Accepted (lwID t) (uwID u)]"
    "db' = (set_password (lwUserID t) h db)\<lparr>daInvites := consume_link (lwID t) (uaDBNow q) (daInvites db)\<rparr>"
proof -
  obtain ans rl' where a: "AcceptInvite env q key body (rl, db) = (ans, rl', db')"
    "evs = let_through ans (case body of None \<Rightarrow> [] | Some req \<Rightarrow> accepted_of env q req db)"
    using assms(1) by (auto simp: handle_def split: prod.splits)
  obtain x where x: "ans = Inr (Inr x)" using assms(2) a(2) by (auto simp: let_through_def split: sum.splits)
  obtain req where req: "body = Some req" "accept_tx env q req db = (Inr x, db')"
    using AcceptInvite_outcome [OF a(1)] x by (auto simp: not_done_def)
  from accept_tx_outcome [OF req(2)] obtain t u h where d: "usable_invite env q (aiToken req) db = Inr (t, u)"
    "db' = (set_password (lwUserID t) h db)\<lparr>daInvites := consume_link (lwID t) (uaDBNow q) (daInvites db)\<rparr>" by auto
  have "evs = [Accepted (lwID t) (uwID u)]" using a(2) x req(1) d(1) by (simp add: let_through_def accepted_of_def)
  from that [OF req(1) d(1) this d(2)] show thesis .
qed

lemma handle_reset:
  assumes "handle env q s1 s2 (ReqReset key body rl) db = (evs, db')" "evs \<noteq> []"
  obtains req t h where "body = Some req" "usable_reset env q (rpToken req) db = Inr t" "evs = [PasswordReset (lwID t) (lwUserID t)]"
    "db' = (set_password (lwUserID t) h db)\<lparr>daResets := consume_link (lwID t) (uaDBNow q) (daResets db)\<rparr>"
proof -
  obtain ans rl' where a: "ResetPassword env q key body (rl, db) = (ans, rl', db')"
    "evs = let_through ans (case body of None \<Rightarrow> [] | Some req \<Rightarrow> reset_of env q req db)"
    using assms(1) by (auto simp: handle_def split: prod.splits)
  obtain x where x: "ans = Inr (Inr x)" using assms(2) a(2) by (auto simp: let_through_def split: sum.splits)
  obtain req where req: "body = Some req" "reset_tx env q req db = (Inr x, db')"
    using ResetPassword_outcome [OF a(1)] x by (auto simp: not_done_def)
  from reset_tx_outcome [OF req(2)] obtain t h where d: "usable_reset env q (rpToken req) db = Inr t"
    "db' = (set_password (lwUserID t) h db)\<lparr>daResets := consume_link (lwID t) (uaDBNow q) (daResets db)\<rparr>" by auto
  have "evs = [PasswordReset (lwID t) (lwUserID t)]" using a(2) x req(1) d(1) by (simp add: let_through_def reset_of_def)
  from that [OF req(1) d(1) this d(2)] show thesis .
qed

text \<open>The user of an event was active in one of the tables that the request read.\<close>

lemma handle_event_user:
  assumes "handle env q s1 s2 r db = (evs, db')" "e \<in> set evs" "event_user e = Some i"
  shows "live_in s1 i \<or> live_in s2 i \<or> live_in db i"
proof (cases r)
  case (ReqLogin body) then show ?thesis
    using assms Login_user [of env q body s1 db] by (auto simp: handle_def answered_def split: prod.splits sum.splits)
next
  case (ReqRefresh body) then show ?thesis
    using assms Refresh_user [of env q body s1 s2 db] by (auto simp: handle_def answered_def split: prod.splits sum.splits)
next
  case (ReqPassword uc body) then show ?thesis
    using assms ChangeMyPassword_user [of env q uc body s1 db] by (auto simp: handle_def answered_def split: prod.splits sum.splits)
next
  case (ReqAccept key body rl)
  have "evs \<noteq> []" using assms(2) by auto
  then obtain req t u h where "body = Some req" and a: "usable_invite env q (aiToken req) db = Inr (t, u)" "evs = [Accepted (lwID t) (uwID u)]"
    and "db' = (set_password (lwUserID t) h db)\<lparr>daInvites := consume_link (lwID t) (uaDBNow q) (daInvites db)\<rparr>"
    by (rule handle_accept [OF assms(1) [unfolded ReqAccept]])
  then show ?thesis using assms(2,3) usable_invite_facts [OF a(1)] by simp
next
  case (ReqReset key body rl)
  have "evs \<noteq> []" using assms(2) by auto
  then obtain req t h where "body = Some req" and a: "usable_reset env q (rpToken req) db = Inr t" "evs = [PasswordReset (lwID t) (lwUserID t)]"
    and "db' = (set_password (lwUserID t) h db)\<lparr>daResets := consume_link (lwID t) (uaDBNow q) (daResets db)\<rparr>"
    by (rule handle_reset [OF assms(1) [unfolded ReqReset]])
  then show ?thesis using assms(2,3) usable_reset_facts [OF a(1)] by simp
next
  case (ReqBootstrap key body rl) then show ?thesis using assms by (auto simp: handle_def split: prod.splits sum.splits)
qed (use assms in \<open>auto simp: handle_def\<close>)

section \<open>A deactivated user\<close>

text \<open>Every row with the id \<open>i\<close> is deactivated and has the password hash \<open>h\<close>, and there is one.\<close>

definition locked_out :: "uuid \<Rightarrow> string option \<Rightarrow> account_db \<Rightarrow> bool" where
  "locked_out i h db = ((\<exists>u\<in>set (daUsers db). uwID u = i)
     \<and> (\<forall>u\<in>set (daUsers db). uwID u = i \<longrightarrow> uwDeletedAt u \<noteq> None \<and> uwPasswordHash u = h))"

lemma locked_out_not_live: "locked_out i h db \<Longrightarrow> \<not> live_in db i"
  by (auto simp: locked_out_def live_in_def live_user_def)

lemma locked_out_same: "locked_out i h db \<Longrightarrow> daUsers db' = daUsers db \<Longrightarrow> locked_out i h db'"
  by (simp add: locked_out_def)

lemma locked_out_new:
  "locked_out i h db \<Longrightarrow> daUsers db' = daUsers db @ [u] \<Longrightarrow> uwID u \<notin> uwID ` set (daUsers db) \<Longrightarrow> locked_out i h db'"
  by (auto simp: locked_out_def)

lemma locked_out_where:
  assumes "locked_out i h db" "daUsers db' = set_where P f (daUsers db)" "\<And>u. uwID (f u) = uwID u"
    and "\<And>u. u \<in> set (daUsers db) \<Longrightarrow> P u \<Longrightarrow> uwID u = i \<Longrightarrow> uwDeletedAt (f u) \<noteq> None \<and> uwPasswordHash (f u) = h"
  shows "locked_out i h db'"
proof -
  have "map uwID (daUsers db') = map uwID (daUsers db)" by (simp add: assms(2,3) set_where_def)
  then have "set (map uwID (daUsers db')) = set (map uwID (daUsers db))" by (rule arg_cong)
  then have "i \<in> uwID ` set (daUsers db')" using assms(1) by (auto simp: locked_out_def)
  moreover have "\<forall>u\<in>set (daUsers db'). uwID u = i \<longrightarrow> uwDeletedAt u \<noteq> None \<and> uwPasswordHash u = h"
    unfolding assms(2) set_where_def
  proof
    fix v assume "v \<in> set (map (\<lambda>x. if P x then f x else x) (daUsers db))"
    then obtain u where u: "u \<in> set (daUsers db)" "v = (if P u then f u else u)" by auto
    show "uwID v = i \<longrightarrow> uwDeletedAt v \<noteq> None \<and> uwPasswordHash v = h"
      using assms(1,3,4) u by (cases "P u") (auto simp: locked_out_def)
  qed
  ultimately show ?thesis unfolding locked_out_def by (intro conjI) auto
qed

text \<open>A statement on the active rows leaves a deactivated one as it is.\<close>

lemma locked_out_live_only:
  assumes "locked_out i h db" "daUsers db' = set_where P f (daUsers db)" "\<And>u. uwID (f u) = uwID u" "\<And>u. P u \<Longrightarrow> live_user u"
  shows "locked_out i h db'"
proof (rule locked_out_where [OF assms(1-3)])
  fix u assume "u \<in> set (daUsers db)" "P u" "uwID u = i"
  then show "uwDeletedAt (f u) \<noteq> None \<and> uwPasswordHash (f u) = h"
    using assms(1) assms(4) [of u] by (auto simp: locked_out_def live_user_def)
qed

lemma locked_out_set_password:
  assumes "locked_out i h db" "live_in db j" "daUsers db' = daUsers (set_password j h' db)"
  shows "locked_out i h db'"
proof (rule locked_out_where [OF assms(1)])
  show "daUsers db' = set_where (\<lambda>u. uwID u = j) (\<lambda>u. u\<lparr>uwPasswordHash := Some h'\<rparr>) (daUsers db)"
    using assms(3) by (simp add: set_password_def)
  have "j \<noteq> i" using assms(1,2) locked_out_not_live by blast
  then show "uwDeletedAt (u\<lparr>uwPasswordHash := Some h'\<rparr>) \<noteq> None \<and> uwPasswordHash (u\<lparr>uwPasswordHash := Some h'\<rparr>) = h"
    if "uwID u = j" "uwID u = i" for u using that by simp
qed simp

lemma update_own_locked_out:
  assumes "update_own e j org f db = (r, db')" "locked_out i h db" "\<And>u. uwID (f u) = uwID u"
  shows "locked_out i h db'"
proof -
  have "locked_out i h (db\<lparr>daUsers := set_where (own_live j org) f (daUsers db)\<rparr>)"
    by (rule locked_out_live_only [OF assms(2) _ assms(3), where P = "own_live j org"]) (simp_all add: own_live_def)
  then show ?thesis using assms(1,2) by (auto simp: update_own_def split: sum.splits)
qed

lemma own_routes_locked_out:
  assumes "locked_out i h db"
  shows "locked_out i h (snd (UpdateUserRole env q uc raw role db))" "locked_out i h (snd (UpdateMe env q uc name db))"
    "locked_out i h (snd (ChangeMyPassword env q uc pw seen db))" "locked_out i h (snd (DeleteUser env q uc raw db))"
proof -
  have own: "locked_out i h (snd (update_own e j org f db))" if "\<And>u. uwID (f u) = uwID u" for e j org f
    using update_own_locked_out [OF prod.collapse [symmetric] assms that] .
  show "locked_out i h (snd (UpdateUserRole env q uc raw role db))"
    using assms own [of "\<lambda>u. u\<lparr>uwRole := the role\<rparr>" "uaErr q 0" "the (peParseUUID (unPg env) raw)" "ucOrgID uc"]
    by (auto simp: UpdateUserRole_def store_UpdateUserRole_def split: option.split sum.split prod.split)
  show "locked_out i h (snd (UpdateMe env q uc name db))"
    using assms own [of "\<lambda>u. u\<lparr>uwName := Some (the (the name))\<rparr>" "uaErr q 0" "ucUserID uc" "ucOrgID uc"]
    by (auto simp: UpdateMe_def store_UpdateUserName_def split: option.split sum.split prod.split)
  have "locked_out i h (db\<lparr>daUsers := set_where (\<lambda>u. uwID u = j \<and> live_user u) (\<lambda>u. u\<lparr>uwPasswordHash := Some h'\<rparr>) (daUsers db)\<rparr>)" for j h'
    by (rule locked_out_live_only [OF assms, where P = "\<lambda>u. uwID u = j \<and> live_user u" and f = "\<lambda>u. u\<lparr>uwPasswordHash := Some h'\<rparr>"]) simp_all
  then show "locked_out i h (snd (ChangeMyPassword env q uc pw seen db))"
    using assms by (auto simp: ChangeMyPassword_def store_UpdateUserPasswordHash_def split: option.split sum.split prod.split)
  have "locked_out i h (db\<lparr>daUsers := set_where (\<lambda>u. uwID u = j \<and> uwOrgID u = org) (\<lambda>u. u\<lparr>uwDeletedAt := Some now\<rparr>) (daUsers db)\<rparr>)" for j org now
    using assms by (intro locked_out_where [OF assms, where P = "\<lambda>u. uwID u = j \<and> uwOrgID u = org" and f = "\<lambda>u. u\<lparr>uwDeletedAt := Some now\<rparr>"])
      (auto simp: locked_out_def)
  then show "locked_out i h (snd (DeleteUser env q uc raw db))"
    using assms by (auto simp: DeleteUser_def store_SoftDeleteUser_def split: option.split prod.split)
qed

lemma handle_locked_out:
  assumes "handle env q s1 s2 r db = (evs, db')" "locked_out i h db"
  shows "locked_out i h db'"
proof (cases r)
  case (ReqLogin body)
  then have "db' = snd (Login env q body s1 db)" using assms(1) by (simp add: handle_def split_def Let_def)
  then show ?thesis using locked_out_same [OF assms(2)] by (simp add: Login_rest)
next
  case (ReqRefresh body)
  then have "db' = snd (Refresh env q body s1 s2 db)" using assms(1) by (simp add: handle_def split_def Let_def)
  then show ?thesis using locked_out_same [OF assms(2)] by (simp add: Refresh_rest)
next
  case (ReqPassword uc body)
  then have "db' = snd (ChangeMyPassword env q uc body s1 db)" using assms(1) by (simp add: handle_def split_def Let_def)
  then show ?thesis by (simp add: own_routes_locked_out(3) [OF assms(2)])
next
  case (ReqInvite uc body)
  then have "InviteUser env q uc body db = (fst (InviteUser env q uc body db), db')" using assms(1) by (auto simp: handle_def)
  from InviteUser_outcome [OF this] show ?thesis
    using assms(2) by (auto simp: invited_user_def intro: locked_out_new [OF assms(2)])
next
  case (ReqAccept key body rl)
  then obtain ans rl' where "AcceptInvite env q key body (rl, db) = (ans, rl', db')"
    using assms(1) by (auto simp: handle_def split: prod.splits)
  from AcceptInvite_outcome [OF this] show ?thesis
    using assms(2) by (auto dest!: accept_tx_outcome intro: locked_out_set_password [OF assms(2) usable_invite_facts(4)])
next
  case (ReqResetLink uc raw)
  then have "AdminGenerateResetLink env q uc raw s1 db = (fst (AdminGenerateResetLink env q uc raw s1 db), db')"
    using assms(1) by (auto simp: handle_def)
  from AdminGenerateResetLink_outcome [OF this] show ?thesis using assms(2) by (auto intro: locked_out_same [OF assms(2)])
next
  case (ReqReset key body rl)
  then obtain ans rl' where "ResetPassword env q key body (rl, db) = (ans, rl', db')"
    using assms(1) by (auto simp: handle_def split: prod.splits)
  from ResetPassword_outcome [OF this] show ?thesis
    using assms(2) by (auto dest!: reset_tx_outcome intro: locked_out_set_password [OF assms(2) usable_reset_facts(3)])
next
  case (ReqBootstrap key body rl)
  then obtain ans rl' where "Bootstrap env q key body (rl, db) = (ans, rl', db')"
    using assms(1) by (auto simp: handle_def split: prod.splits)
  from Bootstrap_outcome [OF this] show ?thesis
    using assms(2) by (auto simp: first_admin_def dest!: bootstrap_tx_outcome intro: locked_out_new [OF assms(2)])
qed (use assms(1) own_routes_locked_out [OF assms(2)] in \<open>auto simp: handle_def\<close>)

text \<open>What can still be answered for a user who is locked out: the login, the refresh or the password
  change of a request that read the user before.\<close>

definition from_earlier_read :: "uuid \<Rightarrow> account_event \<Rightarrow> bool" where
  "from_earlier_read i e = (e = Session i \<or> e = PasswordChanged i)"

lemma handle_locked_event:
  assumes "handle env q s1 s2 r db = (evs, db')" "e \<in> set evs" "event_user e = Some i" "\<not> live_in db i"
  shows "from_earlier_read i e"
proof (cases r)
  case (ReqAccept key body rl)
  have "evs \<noteq> []" using assms(2) by auto
  then obtain req t u h where "body = Some req" and a: "usable_invite env q (aiToken req) db = Inr (t, u)" "evs = [Accepted (lwID t) (uwID u)]"
    and "db' = (set_password (lwUserID t) h db)\<lparr>daInvites := consume_link (lwID t) (uaDBNow q) (daInvites db)\<rparr>"
    by (rule handle_accept [OF assms(1) [unfolded ReqAccept]])
  then show ?thesis using assms(2-4) usable_invite_facts [OF a(1)] by simp
next
  case (ReqReset key body rl)
  have "evs \<noteq> []" using assms(2) by auto
  then obtain req t h where "body = Some req" and a: "usable_reset env q (rpToken req) db = Inr t" "evs = [PasswordReset (lwID t) (lwUserID t)]"
    and "db' = (set_password (lwUserID t) h db)\<lparr>daResets := consume_link (lwID t) (uaDBNow q) (daResets db)\<rparr>"
    by (rule handle_reset [OF assms(1) [unfolded ReqReset]])
  then show ?thesis using assms(2-4) usable_reset_facts [OF a(1)] by simp
qed (use assms(1-3) in \<open>auto simp: handle_def answered_def from_earlier_read_def split: prod.splits sum.splits\<close>)

lemma run_from_locked_out:
  assumes "run_from env before db0 evs h" "locked_out i pw db0"
  shows "(\<forall>db\<in>set h. locked_out i pw db) \<and> (\<forall>(inFlight, e)\<in>set evs. event_user e = Some i \<longrightarrow> inFlight \<and> from_earlier_read i e)"
  using assms(1)
proof (induction rule: run_from.induct)
  case begins then show ?case using assms(2) by simp
next
  case (goes_on evs db h seen1 inFlight seen2 q r)
  obtain new db' where hd: "handle env q seen1 seen2 r db = (new, db')" by fastforce
  have locked: "\<forall>d\<in>set (db # h). locked_out i pw d" using goes_on.IH by blast
  then have dead: "\<forall>d\<in>set (db # h). \<not> live_in d i" using locked_out_not_live by blast
  have "locked_out i pw db'" using handle_locked_out [OF hd] locked by simp
  moreover have "inFlight \<and> from_earlier_read i e" if e: "e \<in> set new" "event_user e = Some i" for e
  proof
    show "inFlight" using handle_event_user [OF hd e] dead goes_on.hyps(2,3) by (auto split: if_splits)
    show "from_earlier_read i e" using handle_locked_event [OF hd e] dead by simp
  qed
  ultimately have "\<forall>d\<in>set (db' # db # h). locked_out i pw d"
    and "\<forall>(x, e)\<in>set (map (Pair inFlight) new). event_user e = Some i \<longrightarrow> x \<and> from_earlier_read i e"
    using locked by simp_all
  then show ?case using goes_on.IH unfolding hd fst_conv snd_conv set_append by blast
qed

lemma DeleteUser_locks_out:
  assumes "DeleteUser env q uc raw db = (Inr code, db')" "peParseUUID (unPg env) raw = Some i"
    "u \<in> set (daUsers db)" "uwID u = i" "uwOrgID u = ucOrgID uc" "distinct (user_ids db)"
  shows "locked_out i (uwPasswordHash u) db'"
proof -
  have d: "daUsers db' = set_where (\<lambda>u. uwID u = i \<and> uwOrgID u = ucOrgID uc) (\<lambda>u. u\<lparr>uwDeletedAt := Some (uaDBNow q)\<rparr>) (daUsers db)"
    using assms(1,2) by (auto simp: DeleteUser_def store_SoftDeleteUser_def split: if_splits option.splits prod.splits)
  have only: "x = u" if "x \<in> set (daUsers db)" "uwID x = i" for x
    using that assms(3,4,6) by (metis distinct_map inj_onD user_ids_def)
  let ?v = "u\<lparr>uwDeletedAt := Some (uaDBNow q)\<rparr>"
  have "(if uwID u = i \<and> uwOrgID u = ucOrgID uc then ?v else u) \<in> set (daUsers db')"
    unfolding d set_where_def set_map by (rule imageI [OF assms(3)])
  then have v: "?v \<in> set (daUsers db')" by (simp add: assms(4,5))
  have all: "v = ?v" if "v \<in> set (daUsers db')" "uwID v = i" for v
  proof -
    obtain x where x: "x \<in> set (daUsers db)" "v = (if uwID x = i \<and> uwOrgID x = ucOrgID uc then x\<lparr>uwDeletedAt := Some (uaDBNow q)\<rparr> else x)"
      using \<open>v \<in> set (daUsers db')\<close> unfolding d set_where_def by auto
    have "uwID x = i" using x(2) that(2) by (simp split: if_splits)
    then show ?thesis using only [OF x(1)] x(2) assms(4,5) by simp
  qed
  show ?thesis
    unfolding locked_out_def
  proof (intro conjI ballI impI)
    show "\<exists>v\<in>set (daUsers db'). uwID v = i" by (rule bexI [OF _ v]) (simp add: assms(4))
    fix v assume "v \<in> set (daUsers db')" "uwID v = i"
    from all [OF this] show "uwDeletedAt v \<noteq> None" "uwPasswordHash v = uwPasswordHash u" by simp_all
  qed
qed

text \<open>C11: A deactivated user is locked out for good. After a successful delete request for a user of
  the administrator's own organisation, whatever requests follow and however they interleave, no
  invite, no reset link and no change request alters the stored password of the user, and the
  user stays deactivated; every request that reads the tables after the delete answers no session
  and no set or changed password for the user. Only a login, a refresh or a password change that was in flight, having read
  the user before the delete, can still be answered for that user.\<close>

theorem deactivated_user_locked_out:
  assumes "DeleteUser env q uc raw db = (Inr code, db0)" and "peParseUUID (unPg env) raw = Some i"
    and "u \<in> set (daUsers db)" "uwID u = i" "uwOrgID u = ucOrgID uc" and "distinct (user_ids db)"
    and "run_from env before db0 evs h"
  shows "(\<forall>d\<in>set h. locked_out i (uwPasswordHash u) d)
    \<and> (\<forall>(inFlight, e)\<in>set evs. event_user e = Some i \<longrightarrow> inFlight \<and> from_earlier_read i e)"
  by (rule run_from_locked_out [OF assms(7) DeleteUser_locks_out [OF assms(1-6)]])

section \<open>Roles and the first setup\<close>

definition setups :: "account_event list \<Rightarrow> nat" where
  "setups evs = length (filter (\<lambda>e. case e of SetUp _ \<Rightarrow> True | _ \<Rightarrow> False) evs)"

lemma setups_simps [simp]: "setups [] = 0" "setups (evs @ new) = setups evs + setups new"
  by (simp_all add: setups_def)

lemma no_event_orgs:
  "daOrgs (snd (InviteUser env q uc body db)) = daOrgs db" "daOrgs (snd (AdminGenerateResetLink env q uc raw s db)) = daOrgs db"
  "daOrgs (snd (UpdateUserRole env q uc raw role db)) = daOrgs db" "daOrgs (snd (DeleteUser env q uc raw db)) = daOrgs db"
  "daOrgs (snd (UpdateMe env q uc name db)) = daOrgs db" "daOrgs (snd (ChangeMyPassword env q uc pw s db)) = daOrgs db"
proof -
  show "daOrgs (snd (InviteUser env q uc body db)) = daOrgs db"
    using InviteUser_outcome [of env q uc body db "fst (InviteUser env q uc body db)" "snd (InviteUser env q uc body db)"] by auto
  show "daOrgs (snd (AdminGenerateResetLink env q uc raw s db)) = daOrgs db"
    using AdminGenerateResetLink_outcome [of env q uc raw s db "fst (AdminGenerateResetLink env q uc raw s db)" "snd (AdminGenerateResetLink env q uc raw s db)"]
    by auto
  show "daOrgs (snd (UpdateUserRole env q uc raw role db)) = daOrgs db"
    by (auto simp: UpdateUserRole_def store_UpdateUserRole_def update_own_def split: option.split sum.split prod.split)
  show "daOrgs (snd (DeleteUser env q uc raw db)) = daOrgs db"
    by (auto simp: DeleteUser_def store_SoftDeleteUser_def split: option.split prod.split)
  show "daOrgs (snd (UpdateMe env q uc name db)) = daOrgs db"
    by (auto simp: UpdateMe_def store_UpdateUserName_def update_own_def split: option.split sum.split prod.split)
  show "daOrgs (snd (ChangeMyPassword env q uc pw s db)) = daOrgs db"
    by (auto simp: ChangeMyPassword_def store_UpdateUserPasswordHash_def split: option.split sum.split prod.split)
qed

text \<open>A request changes the organisations only by a setup, which needs an empty table.\<close>

lemma handle_orgs:
  assumes "handle env q s1 s2 r db = (evs, db')"
  shows "setups evs = 0 \<and> (daOrgs db \<noteq> [] \<longrightarrow> daOrgs db' \<noteq> []) \<or> setups evs = 1 \<and> daOrgs db = [] \<and> daOrgs db' \<noteq> []"
proof (cases r)
  case (ReqBootstrap key body rl)
  then obtain ans rl' where b: "Bootstrap env q key body (rl, db) = (ans, rl', db')"
    "evs = (case ans of Inr (Inr (_, org)) \<Rightarrow> [SetUp org] | _ \<Rightarrow> [])"
    using assms by (auto simp: handle_def split: prod.splits)
  show ?thesis
  proof (cases "not_done ans")
    case True
    have "daOrgs db \<noteq> [] \<longrightarrow> daOrgs db' \<noteq> []"
      using Bootstrap_outcome [OF b(1)] by (auto dest!: bootstrap_tx_outcome)
    then show ?thesis using True b(2) by (auto simp: not_done_def setups_def split: sum.splits)
  next
    case False
    then obtain x where x: "ans = Inr (Inr x)" by (auto simp: not_done_def split: sum.splits)
    then obtain req h where "bootstrap_tx env q req h db = (Inr x, db')"
      using Bootstrap_outcome [OF b(1)] by (auto simp: not_done_def)
    from bootstrap_tx_outcome [OF this] have "daOrgs db = []" "daOrgs db' \<noteq> []" by auto
    then show ?thesis using b(2) x by (cases x) (simp add: setups_def)
  qed
next
  case (ReqLogin body) then show ?thesis
    using assms Login_rest [of env q body s1 db] by (auto simp: handle_def setups_def answered_def split: prod.splits sum.splits)
next
  case (ReqRefresh body) then show ?thesis
    using assms Refresh_rest [of env q body s1 s2 db] by (auto simp: handle_def setups_def answered_def split: prod.splits sum.splits)
next
  case (ReqPassword uc body) then show ?thesis
    using assms no_event_orgs(6) [of env q uc body s1 db] by (auto simp: handle_def setups_def answered_def split: prod.splits sum.splits)
next
  case (ReqAccept key body rl)
  then obtain ans rl' where a: "AcceptInvite env q key body (rl, db) = (ans, rl', db')"
    "evs = let_through ans (case body of None \<Rightarrow> [] | Some req \<Rightarrow> accepted_of env q req db)"
    using assms by (auto simp: handle_def split: prod.splits)
  have "setups evs = 0" by (simp add: a(2) setups_def let_through_def accepted_of_def split: sum.split option.split prod.split)
  then show ?thesis using AcceptInvite_outcome [OF a(1)] by (auto simp: set_password_def dest!: accept_tx_outcome)
next
  case (ReqReset key body rl)
  then obtain ans rl' where a: "ResetPassword env q key body (rl, db) = (ans, rl', db')"
    "evs = let_through ans (case body of None \<Rightarrow> [] | Some req \<Rightarrow> reset_of env q req db)"
    using assms by (auto simp: handle_def split: prod.splits)
  have "setups evs = 0" by (simp add: a(2) setups_def let_through_def reset_of_def split: sum.split option.split)
  then show ?thesis using ResetPassword_outcome [OF a(1)] by (auto simp: set_password_def dest!: reset_tx_outcome)
qed (use assms no_event_orgs in \<open>auto simp: handle_def\<close>)

lemma account_run_setups:
  "account_run env db0 evs h \<Longrightarrow> (setups evs = 0 \<and> (daOrgs db0 \<noteq> [] \<longrightarrow> daOrgs (hd h) \<noteq> []))
     \<or> (setups evs = 1 \<and> daOrgs db0 = [] \<and> daOrgs (hd h) \<noteq> [])"
proof (induction rule: account_run.induct)
  case (request evs db h seen1 seen2 q r)
  obtain new db' where hd: "handle env q seen1 seen2 r db = (new, db')" by fastforce
  from handle_orgs [OF hd] request.IH show ?case by (auto simp: hd)
qed simp

definition platform_admins :: "account_db \<Rightarrow> uuid set" where
  "platform_admins db = uwID ` {u \<in> set (daUsers db). uwRole u = ''platform_admin''}"

lemma platform_admins_kept: "users_kept db db' \<Longrightarrow> platform_admins db' \<subseteq> platform_admins db"
proof
  fix i assume kept: "users_kept db db'" and "i \<in> platform_admins db'"
  then obtain v where v: "v \<in> set (daUsers db')" "uwID v = i" "uwRole v = ''platform_admin''" by (auto simp: platform_admins_def)
  have no: "uwRole v \<notin> set allowedRoles" using v(3) by (simp add: allowedRoles_def)
  then obtain u where "u \<in> set (daUsers db)" "user_kept u v"
    using kept_rows_origin [OF kept [unfolded users_kept_def] v(1)] by blast
  with no v(2,3) show "i \<in> platform_admins db" by (auto simp: platform_admins_def user_kept_def)
qed

text \<open>C37: No request of the account routes grants the platform tier, and the appliance is set up at
  most once. In every state of every run, with whatever claims the requests carry, the users
  with the role platform\_admin are users that had it at the start; at most one setup request
  succeeds, and none does when an organisation exists.\<close>

theorem no_privilege_from_account_routes:
  assumes "account_run env db0 evs h"
  shows "(\<forall>db\<in>set h. platform_admins db \<subseteq> platform_admins db0) \<and> setups evs \<le> (if daOrgs db0 = [] then 1 else 0)"
proof
  show "\<forall>db\<in>set h. platform_admins db \<subseteq> platform_admins db0"
    using assms
  proof (induction rule: account_run.induct)
    case (request evs db h seen1 seen2 q r)
    obtain new db' where hd: "handle env q seen1 seen2 r db = (new, db')" by fastforce
    from platform_admins_kept [OF handle_users [OF hd]] request.IH show ?case by (auto simp: hd)
  qed simp
  show "setups evs \<le> (if daOrgs db0 = [] then 1 else 0)"
    using account_run_setups [OF assms] by auto
qed

section \<open>Links are used once\<close>

definition link_kept :: "link_row \<Rightarrow> link_row \<Rightarrow> bool" where
  "link_kept t v = (lwID v = lwID t \<and> lwUserID v = lwUserID t \<and> lwTokenHash v = lwTokenHash t \<and> lwExpiresAt v = lwExpiresAt t
     \<and> (lwConsumedAt t \<noteq> None \<longrightarrow> lwConsumedAt v \<noteq> None))"

definition links_kept :: "link_row list \<Rightarrow> link_row list \<Rightarrow> bool" where
  "links_kept = kept_rows link_kept lwID (\<lambda>_. True)"

lemma links_kept_simps [simp]: "links_kept rows rows" "links_kept rows (consume_link i now rows)"
  "lwID t \<notin> lwID ` set rows \<Longrightarrow> links_kept rows (rows @ [t])"
  by (auto simp: links_kept_def consume_link_def link_kept_def intro!: kept_rows_same kept_rows_where kept_rows_new)

lemma links_kept_renewed:
  assumes "lwID t \<notin> lwID ` set rows"
  shows "links_kept rows (set_where P (\<lambda>t. t\<lparr>lwConsumedAt := Some now\<rparr>) rows @ [t])"
  unfolding links_kept_def kept_rows_def using assms
  by (intro exI [of _ "set_where P (\<lambda>t. t\<lparr>lwConsumedAt := Some now\<rparr>) rows"] exI [of _ "[t]"])
    (simp add: set_where_def list_all2_map2 list_all2_same link_kept_def)

lemma unlinked:
  "daInvites (snd (UpdateUserRole env q uc raw role db)) = daInvites db \<and> daResets (snd (UpdateUserRole env q uc raw role db)) = daResets db"
  "daInvites (snd (DeleteUser env q uc raw db)) = daInvites db \<and> daResets (snd (DeleteUser env q uc raw db)) = daResets db"
  "daInvites (snd (UpdateMe env q uc name db)) = daInvites db \<and> daResets (snd (UpdateMe env q uc name db)) = daResets db"
  "daInvites (snd (ChangeMyPassword env q uc pw s db)) = daInvites db \<and> daResets (snd (ChangeMyPassword env q uc pw s db)) = daResets db"
proof -
  show "daInvites (snd (UpdateUserRole env q uc raw role db)) = daInvites db \<and> daResets (snd (UpdateUserRole env q uc raw role db)) = daResets db"
    by (auto simp: UpdateUserRole_def store_UpdateUserRole_def update_own_def split: option.split sum.split prod.split)
  show "daInvites (snd (DeleteUser env q uc raw db)) = daInvites db \<and> daResets (snd (DeleteUser env q uc raw db)) = daResets db"
    by (auto simp: DeleteUser_def store_SoftDeleteUser_def split: option.split prod.split)
  show "daInvites (snd (UpdateMe env q uc name db)) = daInvites db \<and> daResets (snd (UpdateMe env q uc name db)) = daResets db"
    by (auto simp: UpdateMe_def store_UpdateUserName_def update_own_def split: option.split sum.split prod.split)
  show "daInvites (snd (ChangeMyPassword env q uc pw s db)) = daInvites db \<and> daResets (snd (ChangeMyPassword env q uc pw s db)) = daResets db"
    by (auto simp: ChangeMyPassword_def store_UpdateUserPasswordHash_def split: option.split sum.split prod.split)
qed

lemma handle_links:
  assumes "handle env q s1 s2 r db = (evs, db')"
  shows "links_kept (daInvites db) (daInvites db') \<and> links_kept (daResets db) (daResets db')"
proof (cases r)
  case (ReqLogin body) then show ?thesis
    using assms Login_rest [of env q body s1 db] by (auto simp: handle_def split: prod.splits)
next
  case (ReqRefresh body) then show ?thesis
    using assms Refresh_rest [of env q body s1 s2 db] by (auto simp: handle_def split: prod.splits)
next
  case (ReqPassword uc body) then show ?thesis
    using assms unlinked(4) [of env q uc body s1 db] by (auto simp: handle_def split: prod.splits)
next
  case (ReqInvite uc body)
  then have "InviteUser env q uc body db = (fst (InviteUser env q uc body db), db')" using assms by (auto simp: handle_def)
  from InviteUser_outcome [OF this] show ?thesis
    by (auto simp: link_violation_def split: if_splits)
next
  case (ReqResetLink uc raw)
  then have "AdminGenerateResetLink env q uc raw s1 db = (fst (AdminGenerateResetLink env q uc raw s1 db), db')"
    using assms by (auto simp: handle_def)
  from AdminGenerateResetLink_outcome [OF this] show ?thesis by (auto intro!: links_kept_renewed)
next
  case (ReqAccept key body rl)
  then obtain ans rl' where "AcceptInvite env q key body (rl, db) = (ans, rl', db')"
    using assms by (auto simp: handle_def split: prod.splits)
  from AcceptInvite_outcome [OF this] show ?thesis by (auto simp: set_password_def dest!: accept_tx_outcome)
next
  case (ReqReset key body rl)
  then obtain ans rl' where "ResetPassword env q key body (rl, db) = (ans, rl', db')"
    using assms by (auto simp: handle_def split: prod.splits)
  from ResetPassword_outcome [OF this] show ?thesis by (auto simp: set_password_def dest!: reset_tx_outcome)
next
  case (ReqBootstrap key body rl)
  then obtain ans rl' where "Bootstrap env q key body (rl, db) = (ans, rl', db')"
    using assms by (auto simp: handle_def split: prod.splits)
  from Bootstrap_outcome [OF this] show ?thesis by (auto dest!: bootstrap_tx_outcome)
qed (use assms unlinked in \<open>auto simp: handle_def\<close>)

definition spent :: "uuid \<Rightarrow> link_row list \<Rightarrow> bool" where
  "spent i rows = (\<exists>t\<in>set rows. lwID t = i \<and> lwConsumedAt t \<noteq> None)"

lemma spent_kept: "links_kept rows rows' \<Longrightarrow> spent i rows \<Longrightarrow> spent i rows'"
  unfolding links_kept_def spent_def by (metis kept_rows_row link_kept_def)

lemma spent_not_usable:
  assumes "distinct (map lwID rows)" "t \<in> set rows" "lwConsumedAt t = None"
  shows "\<not> spent (lwID t) rows"
proof
  assume "spent (lwID t) rows"
  then obtain v where "v \<in> set rows" "lwID v = lwID t" "lwConsumedAt v \<noteq> None" by (auto simp: spent_def)
  with assms show False by (metis distinct_map inj_onD)
qed

lemma spent_consumed: "t \<in> set rows \<Longrightarrow> spent (lwID t) (consume_link (lwID t) now rows)"
  unfolding spent_def consume_link_def set_where_def by (rule bexI [of _ "t\<lparr>lwConsumedAt := Some now\<rparr>"]) (auto simp: image_iff)

definition accepts :: "uuid \<Rightarrow> account_event list \<Rightarrow> nat" where
  "accepts i evs = length (filter (\<lambda>e. case e of Accepted t _ \<Rightarrow> t = i | _ \<Rightarrow> False) evs)"

definition resets :: "uuid \<Rightarrow> account_event list \<Rightarrow> nat" where
  "resets i evs = length (filter (\<lambda>e. case e of PasswordReset t _ \<Rightarrow> t = i | _ \<Rightarrow> False) evs)"

lemma accepts_simps [simp]: "accepts i [] = 0" "accepts i (evs @ new) = accepts i evs + accepts i new"
  "resets i [] = 0" "resets i (evs @ new) = resets i evs + resets i new"
  by (simp_all add: accepts_def resets_def)

text \<open>One request: a link it uses was open before and is spent after.\<close>

lemma handle_uses:
  assumes "handle env q s1 s2 r db = (evs, db')" "distinct (map lwID (daInvites db))" "distinct (map lwID (daResets db))"
  shows "accepts i evs = 0 \<or> accepts i evs = 1 \<and> \<not> spent i (daInvites db) \<and> spent i (daInvites db')"
    "resets i evs = 0 \<or> resets i evs = 1 \<and> \<not> spent i (daResets db) \<and> spent i (daResets db')"
proof -
  have none: "accepts i evs = 0 \<and> resets i evs = 0" if "\<And>key body rl. r \<noteq> ReqAccept key body rl" "\<And>key body rl. r \<noteq> ReqReset key body rl"
    using that assms(1) by (cases r) (auto simp: handle_def accepts_def resets_def answered_def split: prod.splits sum.splits)
  show "accepts i evs = 0 \<or> accepts i evs = 1 \<and> \<not> spent i (daInvites db) \<and> spent i (daInvites db')"
  proof (cases "\<exists>key body rl. r = ReqAccept key body rl \<and> evs \<noteq> []")
    case True
    then obtain key body rl where r: "r = ReqAccept key body rl" "evs \<noteq> []" by blast
    obtain req t u h where "body = Some req" and t: "usable_invite env q (aiToken req) db = Inr (t, u)" "evs = [Accepted (lwID t) (uwID u)]"
      and d: "db' = (set_password (lwUserID t) h db)\<lparr>daInvites := consume_link (lwID t) (uaDBNow q) (daInvites db)\<rparr>"
      by (rule handle_accept [OF assms(1) [unfolded r(1)] r(2)])
    show ?thesis
      using t(2) spent_not_usable [OF assms(2)] spent_consumed usable_invite_facts(1,2) [OF t(1)] by (auto simp: accepts_def d)
  next
    case False
    show ?thesis
    proof (cases r)
      case (ReqReset key body rl)
      then show ?thesis using assms(1) by (cases "evs = []") (auto simp: accepts_def elim!: handle_reset)
    qed (use False none in \<open>auto simp: accepts_def\<close>)
  qed
  show "resets i evs = 0 \<or> resets i evs = 1 \<and> \<not> spent i (daResets db) \<and> spent i (daResets db')"
  proof (cases "\<exists>key body rl. r = ReqReset key body rl \<and> evs \<noteq> []")
    case True
    then obtain key body rl where r: "r = ReqReset key body rl" "evs \<noteq> []" by blast
    obtain req t h where "body = Some req" and t: "usable_reset env q (rpToken req) db = Inr t" "evs = [PasswordReset (lwID t) (lwUserID t)]"
      and d: "db' = (set_password (lwUserID t) h db)\<lparr>daResets := consume_link (lwID t) (uaDBNow q) (daResets db)\<rparr>"
      by (rule handle_reset [OF assms(1) [unfolded r(1)] r(2)])
    show ?thesis
      using t(2) spent_not_usable [OF assms(3)] spent_consumed usable_reset_facts(1,2) [OF t(1)] by (auto simp: resets_def d)
  next
    case False
    show ?thesis
    proof (cases r)
      case (ReqAccept key body rl)
      then show ?thesis using assms(1) by (cases "evs = []") (auto simp: resets_def elim!: handle_accept)
    qed (use False none in \<open>auto simp: resets_def\<close>)
  qed
qed

lemma links_kept_ids: "links_kept rows rows' \<Longrightarrow> distinct (map lwID rows) \<Longrightarrow> distinct (map lwID rows')"
  unfolding links_kept_def by (erule kept_rows_keys) (auto simp: link_kept_def)

lemma use_count_step:
  assumes "n = 0 \<and> (A0 \<longrightarrow> A) \<or> n = 1 \<and> \<not> A0 \<and> A" "m = 0 \<or> m = 1 \<and> \<not> A \<and> A'" "A \<longrightarrow> A'"
  shows "n + m = (0::nat) \<and> (A0 \<longrightarrow> A') \<or> n + m = 1 \<and> \<not> A0 \<and> A'"
  using assms by auto

lemma run_from_links:
  assumes "run_from env before db0 evs h" "distinct (map lwID (daInvites db0))" "distinct (map lwID (daResets db0))"
  shows "distinct (map lwID (daInvites (hd h))) \<and> distinct (map lwID (daResets (hd h)))
    \<and> (accepts i (map snd evs) = 0 \<and> (spent i (daInvites db0) \<longrightarrow> spent i (daInvites (hd h)))
       \<or> accepts i (map snd evs) = 1 \<and> \<not> spent i (daInvites db0) \<and> spent i (daInvites (hd h)))
    \<and> (resets i (map snd evs) = 0 \<and> (spent i (daResets db0) \<longrightarrow> spent i (daResets (hd h)))
       \<or> resets i (map snd evs) = 1 \<and> \<not> spent i (daResets db0) \<and> spent i (daResets (hd h)))"
  using assms(1)
proof (induction rule: run_from.induct)
  case begins then show ?case using assms(2,3) by simp
next
  case (goes_on evs db h seen1 inFlight seen2 q r)
  obtain new db' where hd: "handle env q seen1 seen2 r db = (new, db')" by fastforce
  note kept = handle_links [OF hd]
  have ids: "distinct (map lwID (daInvites db))" "distinct (map lwID (daResets db))" using goes_on.IH by simp_all
  note new = handle_uses [OF hd ids, of i]
  have evs: "map snd (evs @ map (Pair inFlight) new) = map snd evs @ new" by (simp add: comp_def)
  have "spent i (daInvites db) \<longrightarrow> spent i (daInvites db')" "spent i (daResets db) \<longrightarrow> spent i (daResets db')"
    using kept spent_kept by blast+
  moreover have "distinct (map lwID (daInvites db'))" "distinct (map lwID (daResets db'))"
    using kept ids links_kept_ids by blast+
  moreover have "accepts i (map snd evs) + accepts i new = 0 \<and> (spent i (daInvites db0) \<longrightarrow> spent i (daInvites db'))
      \<or> accepts i (map snd evs) + accepts i new = 1 \<and> \<not> spent i (daInvites db0) \<and> spent i (daInvites db')"
    by (rule use_count_step [OF _ new(1) calculation(1)]) (use goes_on.IH in simp)
  moreover have "resets i (map snd evs) + resets i new = 0 \<and> (spent i (daResets db0) \<longrightarrow> spent i (daResets db'))
      \<or> resets i (map snd evs) + resets i new = 1 \<and> \<not> spent i (daResets db0) \<and> spent i (daResets db')"
    by (rule use_count_step [OF _ new(2) calculation(2)]) (use goes_on.IH in simp)
  ultimately show ?case by (simp only: hd fst_conv snd_conv evs accepts_simps list.sel simp_thms)
qed

text \<open>A new reset link of a user spends every earlier one.\<close>

lemma new_reset_link_replaces:
  assumes "AdminGenerateResetLink env q uc raw seen db = (Inr x, db')" "peParseUUID (unPg env) raw = Some w"
    "t \<in> set (daResets db)" "lwUserID t = w"
  shows "spent (lwID t) (daResets db')"
proof -
  let ?P = "\<lambda>t. lwUserID t = w \<and> lwConsumedAt t = None" and ?f = "\<lambda>t. t\<lparr>lwConsumedAt := Some (uaDBNow q)\<rparr>"
  have "set (set_where ?P ?f (daResets db)) \<subseteq> set (daResets db')"
    using AdminGenerateResetLink_outcome [OF assms(1)] assms(2) by auto
  moreover have "(if ?P t then ?f t else t) \<in> set (set_where ?P ?f (daResets db))"
    using assms(3) by (simp add: set_where_def)
  moreover have "lwID (if ?P t then ?f t else t) = lwID t" "lwConsumedAt (if ?P t then ?f t else t) \<noteq> None"
    using assms(4) by simp_all
  ultimately show ?thesis unfolding spent_def by blast
qed

text \<open>C38: An invite and a reset link work once. In every run, however requests with the same link
  interleave, at most one of them sets a password, and none does when the link had been used
  before the run. When the run follows a request that answered a new reset link for a user, none
  of the reset links that the user had before sets a password.\<close>

theorem links_used_once:
  assumes "run_from env before db0 evs h" and "distinct (map lwID (daInvites db0))" "distinct (map lwID (daResets db0))"
  shows "accepts i (map snd evs) \<le> (if spent i (daInvites db0) then 0 else 1)
    \<and> resets i (map snd evs) \<le> (if spent i (daResets db0) then 0 else 1)
    \<and> (\<forall>q uc raw seen db x. AdminGenerateResetLink env q uc raw seen db = (Inr x, db0)
        \<longrightarrow> (\<forall>t\<in>set (daResets db). peParseUUID (unPg env) raw = Some (lwUserID t) \<longrightarrow> resets (lwID t) (map snd evs) = 0))"
proof (intro conjI ballI allI impI)
  show "accepts i (map snd evs) \<le> (if spent i (daInvites db0) then 0 else 1)" "resets i (map snd evs) \<le> (if spent i (daResets db0) then 0 else 1)"
    using run_from_links [OF assms, of i] by auto
  fix q uc raw seen db x t
  assume "AdminGenerateResetLink env q uc raw seen db = (Inr x, db0)" "t \<in> set (daResets db)" "peParseUUID (unPg env) raw = Some (lwUserID t)"
  then have "spent (lwID t) (daResets db0)" by (intro new_reset_link_replaces) simp_all
  then show "resets (lwID t) (map snd evs) = 0" using run_from_links [OF assms, of "lwID t"] by auto
qed

section \<open>Whose session\<close>

definition account_claims :: "user_row \<Rightarrow> userClaims" where
  "account_claims u = \<lparr>ucUserID = uwID u, ucOrgID = uwOrgID u, ucEmail = uwEmail u, ucRole = uwRole u\<rparr>"

text \<open>The verification of access tokens (\<^verbatim>\<open>jwt.ParseWithClaims\<close> with the key the service signs with):
  at the time \<open>t\<close> it gives the claims of a token that the request signed, and refuses the token
  from its expiry on.\<close>

definition checks_expiry :: "(time \<Rightarrow> string \<Rightarrow> access_claims result) \<Rightarrow> call_env \<Rightarrow> bool" where
  "checks_expiry verify q = (\<forall>c jwt t. uaSign q c = Inr jwt
     \<longrightarrow> (if t < scExpiresAt c then verify t jwt = Inr (access_claims.truncate c) else isl (verify t jwt)))"

lemma whole_seconds:
  assumes "0 \<le> (expires::int)"
  shows "go_div expires second * second \<le> expires" "expires - second < go_div expires second * second"
  using div_mult_mod_eq [of expires second] pos_mod_bound [of second expires] pos_mod_sign [of second expires]
  by (simp_all add: go_div_pos [OF assms] second_def)

lemma open_session_tokens:
  assumes "open_session env q n u db = (Inr (code, resp), db')" and "checks_expiry verify q" "0 \<le> uaNow q + unAccessTTL env"
    and "uuid_parse (uwID u) = Some (uwID u)" "uuid_parse (uwOrgID u) = Some (uwOrgID u)"
  shows "t \<le> uaNow q + unAccessTTL env - second
      \<Longrightarrow> jwtMiddleware (verify t) uuid_parse (''Bearer '' @ lrAccessToken resp) = Inr (account_claims u)"
    and "uaNow q + unAccessTTL env \<le> t \<Longrightarrow> isl (jwtMiddleware (verify t) uuid_parse (''Bearer '' @ lrAccessToken resp))"
    and "t < uaNow q + refreshLifetime \<Longrightarrow> \<exists>row. store_GetRefreshToken env None t (lrRefreshToken resp) db' = Inr row \<and> fwUserID row = uwID u"
proof -
  let ?expires = "uaNow q + unAccessTTL env"
  obtain jwt raw h where i: "IssueAccessToken env q (uwID u) (uwOrgID u) (uwEmail u) (uwRole u) = Inr (jwt, ?expires)"
    "IssueRefreshToken env (uaRandom q) = Inr (raw, h)"
    "store_CreateRefreshToken env (uaErr q n) (uaNewID q 0) (uwID u) h (uaNow q + refreshLifetime) db = (None, db')"
    "resp = session_response q u (jwt, ?expires) raw"
    using assms(1) by (auto simp: open_session_def IssueAccessToken_def Let_def split: sum.splits prod.splits option.splits)
  obtain c where c: "uaSign q c = Inr jwt" "axSubject c = uwID u" "axOrgID c = uwOrgID u" "axEmail c = uwEmail u" "axRole c = uwRole u"
    "scExpiresAt c = go_div ?expires second * second"
    using i(1) by (auto simp: IssueAccessToken_def Let_def split: sum.splits)
  have trim: "trim_prefix (''Bearer '' @ jwt) ''Bearer '' = jwt" "has_prefix (''Bearer '' @ jwt) ''Bearer ''"
    by (simp_all add: trim_prefix_def)
  have check: "if t < scExpiresAt c then verify t jwt = Inr (access_claims.truncate c) else isl (verify t jwt)" for t
    using assms(2) c(1) unfolding checks_expiry_def by blast
  note exp = whole_seconds [OF assms(3)]
  show "jwtMiddleware (verify t) uuid_parse (''Bearer '' @ lrAccessToken resp) = Inr (account_claims u)" if "t \<le> ?expires - second"
  proof -
    have "verify t jwt = Inr (access_claims.truncate c)" using check [of t] that exp(2) by (simp add: c(6))
    then show ?thesis
      unfolding i(4) session_response_def LoginResponse.select_convs fst_conv jwtMiddleware_def trim
      by (simp add: trim(2) c(2-5) assms(4,5) access_claims.truncate_def account_claims_def)
  qed
  show "isl (jwtMiddleware (verify t) uuid_parse (''Bearer '' @ lrAccessToken resp))" if "?expires \<le> t"
  proof -
    have "\<not> t < scExpiresAt c" using that exp(1) by (simp add: c(6))
    then obtain err where "verify t jwt = Inl err" using check [of t] by (auto simp: isl_def)
    then show ?thesis
      unfolding i(4) session_response_def LoginResponse.select_convs fst_conv jwtMiddleware_def trim by simp
  qed
  have h: "h = hash_token env raw" using i(2) by (auto simp: IssueRefreshToken_def Let_def split: sum.splits)
  let ?row = "\<lparr>fwID = uaNewID q 0, fwUserID = uwID u, fwTokenHash = h, fwExpiresAt = uaNow q + refreshLifetime, fwRevoked = False\<rparr>"
  have new: "daRefresh db' = daRefresh db @ [?row]" "h \<notin> fwTokenHash ` set (daRefresh db)"
    using i(3) by (auto simp: store_CreateRefreshToken_def split: if_splits)
  show "\<exists>row. store_GetRefreshToken env None t (lrRefreshToken resp) db' = Inr row \<and> fwUserID row = uwID u" if "t < uaNow q + refreshLifetime"
  proof (intro exI conjI)
    have "List.find (\<lambda>t'. fwTokenHash t' = h \<and> \<not> fwRevoked t' \<and> t < fwExpiresAt t') (daRefresh db') = Some ?row"
      unfolding new(1) by (rule find_append_new) (use that new(2) in auto)
    then show "store_GetRefreshToken env None t (lrRefreshToken resp) db' = Inr ?row"
      by (simp add: store_GetRefreshToken_def failing_def find_or_none_def i(4) session_response_def h)
  qed simp
qed

lemma Login_opens:
  assumes "Login env q body seen db = (Inr (code, resp), db')"
  obtains req u pwHash where "body = Some req" "u \<in> set (daUsers seen)" "uwEmail u = liEmail req" "uwDeletedAt u = None"
    "uwPasswordHash u = Some pwHash" "CheckPassword env (liPassword req) pwHash = None" "open_session env q 1 u db = (Inr (code, resp), db')"
proof -
  obtain req u pwHash where l: "body = Some req" "store_GetUserByEmail (uaErr q 0) (liEmail req) seen = Inr u" "uwPasswordHash u = Some pwHash"
    "CheckPassword env (liPassword req) pwHash = None" "open_session env q 1 u db = (Inr (code, resp), db')"
    using assms by (auto simp: Login_def split: option.splits sum.splits if_splits)
  have "u \<in> set (daUsers seen)" "uwEmail u = liEmail req" "uwDeletedAt u = None"
    using l(2) by (auto simp: store_GetUserByEmail_def failing_Inr live_user_def dest!: find_or_none_Inr)
  with l that show thesis by blast
qed

text \<open>C39: A login answers with the session of the user who proved the password. Until one second
  before its time to live has passed since the login, the access token gives the route's
  middleware exactly the id, organisation, e-mail and role of an active row with the submitted
  e-mail whose hash the submitted password matches; from the end of the time to live on the
  middleware refuses it. For thirty days the refresh token finds a row of that user, until it is
  revoked.\<close>

theorem login_session_identity:
  assumes "Login env q body seen db = (Inr (code, resp), db')"
    and "checks_expiry verify q" "0 \<le> uaNow q + unAccessTTL env"
    and "\<forall>u\<in>set (daUsers seen). uuid_parse (uwID u) = Some (uwID u) \<and> uuid_parse (uwOrgID u) = Some (uwOrgID u)"
  shows "\<exists>req u pwHash. body = Some req \<and> u \<in> set (daUsers seen) \<and> uwEmail u = liEmail req \<and> uwDeletedAt u = None
    \<and> uwPasswordHash u = Some pwHash \<and> CheckPassword env (liPassword req) pwHash = None
    \<and> (\<forall>t \<le> uaNow q + unAccessTTL env - second.
          jwtMiddleware (verify t) uuid_parse (''Bearer '' @ lrAccessToken resp) = Inr (account_claims u))
    \<and> (\<forall>t \<ge> uaNow q + unAccessTTL env. isl (jwtMiddleware (verify t) uuid_parse (''Bearer '' @ lrAccessToken resp)))
    \<and> (\<forall>t < uaNow q + refreshLifetime. \<exists>row. store_GetRefreshToken env None t (lrRefreshToken resp) db' = Inr row \<and> fwUserID row = uwID u)"
proof -
  obtain req u pwHash where l: "body = Some req" "u \<in> set (daUsers seen)" "uwEmail u = liEmail req" "uwDeletedAt u = None"
    "uwPasswordHash u = Some pwHash" "CheckPassword env (liPassword req) pwHash = None" "open_session env q 1 u db = (Inr (code, resp), db')"
    by (rule Login_opens [OF assms(1)])
  have ids: "uuid_parse (uwID u) = Some (uwID u)" "uuid_parse (uwOrgID u) = Some (uwOrgID u)" using assms(4) l(2) by blast+
  note tokens = open_session_tokens [OF l(7) assms(2,3) ids]
  show ?thesis
    by (intro exI [of _ req] exI [of _ u] exI [of _ pwHash] conjI allI impI l(1-6) tokens)
qed

section \<open>From an invite to a login\<close>

lemma fresh_find:
  assumes "\<forall>x\<in>set xs. \<not> P x" "P y"
  shows "find_or_none P (xs @ [y]) = Inr y"
  by (simp add: find_or_none_def find_append_new [OF assms])

lemma accept_tx_faultless:
  assumes "uaErr q = (\<lambda>_. None)" "usable_invite env q (aiToken req) db = Inr (t, u)" "HashPassword q (aiPassword req) = Inr h"
  shows "accept_tx env q req db = (Inr (200, uwEmail u),
    (set_password (lwUserID t) h db)\<lparr>daInvites := consume_link (lwID t) (uaDBNow q) (daInvites db)\<rparr>)"
  using assms by (simp add: accept_tx_def end_tx_def)

lemma open_session_succeeds:
  assumes "IssueAccessToken env q (uwID u) (uwOrgID u) (uwEmail u) (uwRole u) = Inr access" "uaRandom q = Inr b" "uaErr q n = None" "uwID u \<in> uwID ` set (daUsers db)"
    and "uaNewID q 0 \<notin> fwID ` set (daRefresh db)" "hash_token env (hex_encode b) \<notin> fwTokenHash ` set (daRefresh db)"
  obtains resp db' where "open_session env q n u db = (Inr (200, resp), db')"
    "lrUser resp = \<lparr>usrID = uwID u, usrEmail = uwEmail u, usrName = or_empty (uwName u), usrRole = uwRole u, usrOrgID = uwOrgID u\<rparr>"
  using assms(4) by (auto simp: open_session_def IssueRefreshToken_def store_CreateRefreshToken_def session_response_def
      Let_def assms(1-3,5,6))

text \<open>C40: An invite leads to the account it was made for. When an invite request succeeds, then until
  it expires the invitee can accept its link with a password of the required length, and a login
  with that e-mail and password, whose statements, signature and random bytes do not fail, is then
  answered 200 with a session of the new user: the id that the invite answered, the e-mail, the
  role of the invite and the inviter's organisation, both in the answer and, while the access
  token lives, in the claims that the middleware reads from it.\<close>

theorem invite_leads_to_login:
  assumes "InviteUser env q1 uc (Some req) db = (Inr (code, resp), db1)" and "irInviteLink resp = ''/accept-invite?token='' @ raw" and "raw \<noteq> []"
    and "uaErr q2 = (\<lambda>_. None)" "uaNow q2 \<le> irExpiresAt resp" "minPasswordLen \<le> length pw" "uaHash q2 pw = Inr h"
    and "provisioning_throttle (uaNow q2) key rl = (None, rl')"
    and "uaErr q3 = (\<lambda>_. None)" "CheckPassword env pw h = None"
    and "IssueAccessToken env q3 (usID2 (irUser resp)) (ucOrgID uc) (ivEmail req) (invite_role req) = Inr access" "uaRandom q3 = Inr b"
    and "uaNewID q3 0 \<notin> fwID ` set (daRefresh db)" "hash_token env (hex_encode b) \<notin> fwTokenHash ` set (daRefresh db)"
    and "checks_expiry verify q3" "0 \<le> uaNow q3 + unAccessTTL env"
    and "uuid_parse (usID2 (irUser resp)) = Some (usID2 (irUser resp))" "uuid_parse (ucOrgID uc) = Some (ucOrgID uc)"
  shows "\<exists>db2 db3 login. AcceptInvite env q2 key (Some \<lparr>aiToken = raw, aiPassword = pw\<rparr>) (rl, db1) = (Inr (Inr (200, ivEmail req)), rl', db2)
    \<and> Login env q3 (Some \<lparr>liEmail = ivEmail req, liPassword = pw\<rparr>) db2 db2 = (Inr (200, login), db3)
    \<and> lrUser login = \<lparr>usrID = usID2 (irUser resp), usrEmail = ivEmail req, usrName = [], usrRole = invite_role req, usrOrgID = ucOrgID uc\<rparr>
    \<and> (\<forall>t \<le> uaNow q3 + unAccessTTL env - second. jwtMiddleware (verify t) uuid_parse (''Bearer '' @ lrAccessToken login)
          = Inr \<lparr>ucUserID = usID2 (irUser resp), ucOrgID = ucOrgID uc, ucEmail = ivEmail req, ucRole = invite_role req\<rparr>)"
proof -
  let ?u = "invited_user q1 (ucOrgID uc) (ivEmail req) (invite_role req) (ucUserID uc)"
  let ?t = "invite_row env q1 raw"
  have i: "uaNewID q1 0 \<notin> uwID ` set (daUsers db)" "ivEmail req \<notin> uwEmail ` set (daUsers db)"
    "link_violation env ?t (daInvites db) (db\<lparr>daUsers := daUsers db @ [?u]\<rparr>) = None"
    "db1 = db\<lparr>daUsers := daUsers db @ [?u], daInvites := daInvites db @ [?t]\<rparr>" "irExpiresAt resp = uaNow q1 + inviteTokenTTL"
    "irUser resp = userRowToResp ?u"
    using InviteUser_outcome [OF assms(1)] assms(2) by auto
  have u: "uwID ?u = uaNewID q1 0" "uwEmail ?u = ivEmail req" "uwOrgID ?u = ucOrgID uc" "uwRole ?u = invite_role req" "uwDeletedAt ?u = None" "uwPasswordHash ?u = None" "uwName ?u = None"
    and t: "lwUserID ?t = uaNewID q1 0" "lwTokenHash ?t = hash_token env raw" "lwConsumedAt ?t = None" "lwExpiresAt ?t = uaNow q1 + inviteTokenTTL"
    by (simp_all add: invited_user_def invite_row_def)
  have link: "find_link env None raw (daInvites db1) = Inr ?t"
  proof -
    have "hash_token env raw \<notin> lwTokenHash ` set (daInvites db)" using i(3) t(2) by (auto simp: link_violation_def split: if_splits)
    then have "\<forall>x\<in>set (daInvites db). lwTokenHash x \<noteq> hash_token env raw" by force
    then show ?thesis using t(2) unfolding find_link_def failing_def i(4) by simp (rule fresh_find, auto)
  qed
  have user: "lock_user None (uaNewID q1 0) db1 = Inr ?u"
    using i(1) u(1) unfolding lock_user_def failing_def i(4) by (simp add: image_iff) (intro fresh_find; auto)
  have usable: "usable_invite env q2 raw db1 = Inr (?t, ?u)"
    using assms(4,5) by (simp add: usable_invite_def link t user u i(5))
  let ?req = "\<lparr>aiToken = raw, aiPassword = pw\<rparr>"
  let ?db2 = "(set_password (uaNewID q1 0) h db1)\<lparr>daInvites := consume_link (lwID ?t) (uaDBNow q2) (daInvites db1)\<rparr>"
  let ?v = "?u\<lparr>uwPasswordHash := Some h\<rparr>"
  have tx: "accept_tx env q2 ?req db1 = (Inr (200, ivEmail req), ?db2)"
    using accept_tx_faultless [OF assms(4), of env ?req db1 ?t ?u h] usable assms(7) by (simp add: HashPassword_def u(2) t(1))
  have accepted: "AcceptInvite env q2 key (Some ?req) (rl, db1) = (Inr (Inr (200, ivEmail req)), rl', ?db2)"
    using assms(3,6,8) by (simp add: AcceptInvite_def tx)
  have users: "daUsers ?db2 = map (\<lambda>x. if uwID x = uaNewID q1 0 then x\<lparr>uwPasswordHash := Some h\<rparr> else x) (daUsers db) @ [?v]"
    by (simp add: set_password_def set_where_def i(4) u(1))
  have "find_or_none (\<lambda>x. uwEmail x = ivEmail req \<and> live_user x) (daUsers ?db2) = Inr ?v"
    unfolding users using i(2) by (intro fresh_find) (auto simp: live_user_def u image_iff)
  then have found: "store_GetUserByEmail (uaErr q3 0) (ivEmail req) ?db2 = Inr ?v"
    by (simp add: store_GetUserByEmail_def failing_def assms(9))
  have "ivEmail req \<noteq> []" using assms(1) by (auto simp: InviteUser_def split: if_splits)
  moreover have "pw \<noteq> []" using assms(6) by (auto simp: minPasswordLen_def)
  ultimately have login: "Login env q3 (Some \<lparr>liEmail = ivEmail req, liPassword = pw\<rparr>) ?db2 ?db2 = open_session env q3 1 ?v ?db2"
    using found assms(10) by (simp add: Login_def)
  have refresh: "daRefresh ?db2 = daRefresh db" by (simp add: set_password_def i(4))
  have there: "uwID ?v \<in> uwID ` set (daUsers ?db2)" unfolding users by simp
  have stored: "uaErr q3 1 = None" "uaNewID q3 0 \<notin> fwID ` set (daRefresh ?db2)" "hash_token env (hex_encode b) \<notin> fwTokenHash ` set (daRefresh ?db2)"
    using assms(9,13,14) refresh by simp_all
  have v: "uwID ?v = usID2 (irUser resp)" "uwEmail ?v = ivEmail req" "uwName ?v = None" "uwRole ?v = invite_role req" "uwOrgID ?v = ucOrgID uc"
    by (simp_all add: i(6) userRowToResp_def u)
  have issued: "IssueAccessToken env q3 (uwID ?v) (uwOrgID ?v) (uwEmail ?v) (uwRole ?v) = Inr access"
    unfolding v by (rule assms(11))
  obtain r db3 where o: "open_session env q3 1 ?v ?db2 = (Inr (200, r), db3)"
    "lrUser r = \<lparr>usrID = uwID ?v, usrEmail = uwEmail ?v, usrName = or_empty (uwName ?v), usrRole = uwRole ?v, usrOrgID = uwOrgID ?v\<rparr>"
    by (rule open_session_succeeds [OF issued assms(12) stored(1) there stored(2,3)])
  have parsed: "uuid_parse (uwID ?v) = Some (uwID ?v)" "uuid_parse (uwOrgID ?v) = Some (uwOrgID ?v)"
    unfolding v(1,5) by (rule assms(17), rule assms(18))
  note access = open_session_tokens(1) [OF o(1) assms(15,16) parsed]
  show ?thesis
  proof (intro exI conjI allI impI)
    show "AcceptInvite env q2 key (Some ?req) (rl, db1) = (Inr (Inr (200, ivEmail req)), rl', ?db2)" by (rule accepted)
    show "Login env q3 (Some \<lparr>liEmail = ivEmail req, liPassword = pw\<rparr>) ?db2 ?db2 = (Inr (200, r), db3)" unfolding login by (rule o(1))
    show "lrUser r = \<lparr>usrID = usID2 (irUser resp), usrEmail = ivEmail req, usrName = [], usrRole = invite_role req, usrOrgID = ucOrgID uc\<rparr>"
      unfolding o(2) v by (simp add: or_empty_def)
    show "jwtMiddleware (verify t) uuid_parse (''Bearer '' @ lrAccessToken r)
        = Inr \<lparr>ucUserID = usID2 (irUser resp), ucOrgID = ucOrgID uc, ucEmail = ivEmail req, ucRole = invite_role req\<rparr>"
      if "t \<le> uaNow q3 + unAccessTTL env - second" for t
      unfolding access [OF that] account_claims_def v by (rule refl)
  qed
qed

section \<open>What the code does not promise\<close>

lemma find_append_some: "List.find P xs = Some r \<Longrightarrow> List.find P (xs @ ys) = Some r"
  by (induction xs) (auto split: if_splits)

text \<open>A refresh whose revocation failed answers a new session and leaves the old token usable.\<close>

lemma refresh_token_survives_failed_revocation:
  assumes "uaErr q 2 \<noteq> None" "Refresh env q (Some raw) db db db = (Inr (code, resp), db')"
  shows "store_GetRefreshToken env None (uaDBNow q) raw db' = store_GetRefreshToken env None (uaDBNow q) raw db"
proof -
  obtain t u where t: "store_GetRefreshToken env (uaErr q 0) (uaDBNow q) raw db = Inr t"
    and o: "open_session env q 3 u db = (Inr (code, resp), db')"
    using assms by (auto simp: Refresh_def store_RevokeRefreshToken_def split: sum.splits if_splits)
  obtain new where new: "daRefresh db' = daRefresh db @ new"
    using o by (auto simp: open_session_def store_CreateRefreshToken_def split: sum.splits prod.splits option.splits if_splits)
  from t obtain r where "List.find (\<lambda>t. fwTokenHash t = hash_token env raw \<and> \<not> fwRevoked t \<and> uaDBNow q < fwExpiresAt t) (daRefresh db) = Some r"
    by (auto simp: store_GetRefreshToken_def failing_Inr find_or_none_def split: option.splits)
  moreover from this have "List.find (\<lambda>t. fwTokenHash t = hash_token env raw \<and> \<not> fwRevoked t \<and> uaDBNow q < fwExpiresAt t) (daRefresh db') = Some r"
    unfolding new by (rule find_append_some)
  ultimately show ?thesis by (simp add: store_GetRefreshToken_def failing_def find_or_none_def)
qed

text \<open>A changed password leaves every session of the user as it was.\<close>

lemma password_change_keeps_sessions:
  "daRefresh (snd (ChangeMyPassword env q uc body seen db)) = daRefresh db"
  "daRefresh (snd (reset_tx env q req db)) = daRefresh db"
proof -
  show "daRefresh (snd (ChangeMyPassword env q uc body seen db)) = daRefresh db"
    by (auto simp: ChangeMyPassword_def store_UpdateUserPasswordHash_def split: option.split sum.split prod.split)
  show "daRefresh (snd (reset_tx env q req db)) = daRefresh db"
    using reset_tx_outcome [of env q req db "fst (reset_tx env q req db)" "snd (reset_tx env q req db)"] by (auto simp: set_password_def)
qed

text \<open>A login whose lookup came before the delete still answers its session after it.\<close>

lemma login_in_flight_keeps_session:
  assumes "Login env q body db db = (Inr (200, resp), db1)" and "DeleteUser env q' uc raw db = (ans, db0)"
  shows "\<exists>db2. Login env q body db db0 = (Inr (200, resp), db2)"
proof -
  obtain req u pwHash where l: "body = Some req" "store_GetUserByEmail (uaErr q 0) (liEmail req) db = Inr u" "uwPasswordHash u = Some pwHash"
    "CheckPassword env (liPassword req) pwHash = None" "liEmail req \<noteq> []" "liPassword req \<noteq> []"
    "open_session env q 1 u db = (Inr (200, resp), db1)"
    using assms(1) by (auto simp: Login_def split: option.splits sum.splits if_splits)
  have "map uwID (daUsers db0) = map uwID (daUsers db) \<and> daRefresh db0 = daRefresh db"
    using assms(2) by (auto simp: DeleteUser_def store_SoftDeleteUser_def set_where_def split: option.splits prod.splits if_splits)
  then have same: "uwID ` set (daUsers db0) = uwID ` set (daUsers db)" "daRefresh db0 = daRefresh db" by (metis list.set_map, simp)
  have "\<exists>db2. open_session env q 1 u db0 = (Inr (200, resp), db2)"
    using l(7) by (auto simp: open_session_def store_CreateRefreshToken_def same split: sum.splits prod.splits option.splits if_splits)
  then show ?thesis using l(1-6) by (simp add: Login_def)
qed

text \<open>A delete request for a user of another organisation is answered like a successful one.\<close>

lemma delete_elsewhere_answers_success:
  assumes "peParseUUID (unPg env) raw = Some i" "i \<noteq> ucUserID uc" "uaErr q 0 = None"
    and "\<forall>u\<in>set (daUsers db). uwID u = i \<longrightarrow> uwOrgID u \<noteq> ucOrgID uc"
  shows "DeleteUser env q uc raw db = (Inr 204, db)"
proof -
  have "set_where (\<lambda>u. uwID u = i \<and> uwOrgID u = ucOrgID uc) f (daUsers db) = daUsers db" for f
    unfolding set_where_def by (rule map_idI) (use assms(4) in auto)
  then show ?thesis using assms(1-3) by (simp add: DeleteUser_def store_SoftDeleteUser_def)
qed

section \<open>Concrete requests\<close>

definition sample_account_env :: account_env where
  "sample_account_env = \<lparr>unPg = sample_policy_env, unForeignKey = Wrapped ''fk'' (Sentinel ErrNoRows), unSHA = (\<lambda>s. s),
     unCheck = (\<lambda>p h. if p = h then None else Some (ErrText ''mismatch'')), unAccessTTL = 3600 * second, unScan = (\<lambda>rows. rows)\<rparr>"

definition sample_access_claims :: access_claims where
  "sample_access_claims = \<lparr>axSubject = ''u2'', axOrgID = ''o1'', axEmail = ''bo@example.com'', axRole = ''viewer''\<rparr>"

definition sample_sign :: "access_claims \<Rightarrow> session_claims \<Rightarrow> string result" where
  "sample_sign c s = (if access_claims.truncate s = c \<and> scExpiresAt s = 3600 * second then Inr ''jwt'' else Inl (ErrText ''sign''))"

definition sample_verify :: "access_claims \<Rightarrow> time \<Rightarrow> string \<Rightarrow> access_claims result" where
  "sample_verify c t jwt = (if jwt = ''jwt'' \<and> t < 3600 * second then Inr c else Inl (ErrText ''expired''))"

definition sample_outcome :: call_env where
  "sample_outcome = \<lparr>uaNow = 0, uaLater = 0, uaDBNow = 0, uaRandom = Inr ''random'', uaHash = (\<lambda>p. Inr p),
     uaSign = sample_sign sample_access_claims,
     uaTokenID = ''t1'', uaNewID = (\<lambda>n. if n = 0 then ''n0'' else ''n1''), uaErr = (\<lambda>_. None), uaLanded = False\<rparr>"

definition sample_user :: "uuid \<Rightarrow> string \<Rightarrow> string \<Rightarrow> user_row" where
  "sample_user i email role = \<lparr>uwID = i, uwOrgID = ''o1'', uwEmail = email, uwName = None, uwPasswordHash = Some ''password'', uwRole = role,
     uwCreatedAt = 0, uwLastLogin = None, uwDeletedAt = None, uwInvitedAt = None, uwInvitedBy = None\<rparr>"

definition sample_accounts :: account_db where
  "sample_accounts = \<lparr>daUsers = [sample_user ''u1'' ''ana@example.com'' ''admin'', sample_user ''u2'' ''bo@example.com'' ''viewer''],
     daRefresh = [], daInvites = [], daResets = [], daSetup = [], daOrgs = [\<lparr>oaID = ''o1'', oaName = ''Org'', oaSlug = ''org'', oaPlan = ''trial''\<rparr>]\<rparr>"

definition sample_login :: LoginRequest where
  "sample_login = \<lparr>liEmail = ''bo@example.com'', liPassword = ''password''\<rparr>"

lemmas sample_account_defs = sample_account_env_def sample_outcome_def sample_accounts_def sample_user_def sample_login_def

lemma sample_checks_expiry: "uaSign q = sample_sign c \<Longrightarrow> checks_expiry (sample_verify c) q"
  by (auto simp: checks_expiry_def sample_sign_def sample_verify_def split: if_splits)

theorem deactivated_user_locked_out_witness:
  "Session ''u2'' \<notin> set (fst (handle sample_account_env sample_outcome (snd (DeleteUser sample_account_env sample_outcome sample_claims ''u2'' sample_accounts))
      sample_accounts (ReqLogin (Some sample_login)) (snd (DeleteUser sample_account_env sample_outcome sample_claims ''u2'' sample_accounts))))
   \<and> locked_out ''u2'' (Some ''password'') (snd (DeleteUser sample_account_env sample_outcome sample_claims ''u2'' sample_accounts))"
proof -
  let ?db0 = "snd (DeleteUser sample_account_env sample_outcome sample_claims ''u2'' sample_accounts)"
  let ?step = "\<lambda>seen. handle sample_account_env sample_outcome ?db0 seen (ReqLogin (Some sample_login)) ?db0"
  have d: "DeleteUser sample_account_env sample_outcome sample_claims ''u2'' sample_accounts = (Inr 204, ?db0)"
    by (simp add: DeleteUser_def store_SoftDeleteUser_def sample_account_defs sample_policy_env_def sample_claims_def)
  have id: "peParseUUID (unPg sample_account_env) ''u2'' = Some ''u2''" by (simp add: sample_account_env_def sample_policy_env_def)
  have u: "sample_user ''u2'' ''bo@example.com'' ''viewer'' \<in> set (daUsers sample_accounts)" "uwID (sample_user ''u2'' ''bo@example.com'' ''viewer'') = ''u2''"
    "uwOrgID (sample_user ''u2'' ''bo@example.com'' ''viewer'') = ucOrgID sample_claims" "distinct (user_ids sample_accounts)"
    by (simp_all add: sample_accounts_def sample_user_def sample_claims_def user_ids_def)
  have run: "run_from sample_account_env {sample_accounts} ?db0 ([] @ map (Pair False) (fst (?step ?db0))) [snd (?step ?db0), ?db0]"
    by (rule run_from.goes_on [OF run_from.begins]) simp_all
  have same: "?step sample_accounts = ?step ?db0" by (simp add: handle_def)
  have hash: "uwPasswordHash (sample_user ''u2'' ''bo@example.com'' ''viewer'') = Some ''password''" by (simp add: sample_user_def)
  note out = deactivated_user_locked_out [OF d id u run, unfolded hash]
  have "Session ''u2'' \<notin> set (fst (?step ?db0))"
  proof
    assume "Session ''u2'' \<in> set (fst (?step ?db0))"
    then have "(False, Session ''u2'') \<in> set ([] @ map (Pair False) (fst (?step ?db0)))" by simp
    from bspec [OF conjunct2 [OF out] this] show False by simp
  qed
  moreover have "locked_out ''u2'' (Some ''password'') ?db0" using conjunct1 [OF out] by simp
  ultimately show ?thesis unfolding same by blast
qed

definition sample_promotion :: "account_event list \<times> account_db" where
  "sample_promotion = handle sample_account_env sample_outcome sample_accounts sample_accounts
     (ReqRole sample_claims ''u2'' (Some ''platform_admin'')) sample_accounts"

theorem no_privilege_from_account_routes_witness:
  "platform_admins (snd sample_promotion) = {} \<and> setups (fst sample_promotion) = 0"
proof -
  have "account_run sample_account_env sample_accounts ([] @ fst sample_promotion) [snd sample_promotion, sample_accounts]"
    unfolding sample_promotion_def by (rule account_run.request [OF account_run.start]) simp_all
  note run = no_privilege_from_account_routes [OF this]
  have "\<forall>u\<in>set (daUsers sample_accounts). uwRole u \<noteq> ''platform_admin''" by (simp add: sample_accounts_def sample_user_def)
  then have "platform_admins sample_accounts = {}" by (auto simp: platform_admins_def)
  moreover have "daOrgs sample_accounts \<noteq> []" by (simp add: sample_accounts_def)
  ultimately show ?thesis using run by simp
qed

definition sample_link :: "uuid \<Rightarrow> uuid \<Rightarrow> string \<Rightarrow> time option \<Rightarrow> link_row" where
  "sample_link i user token consumed =
    \<lparr>lwID = i, lwUserID = user, lwTokenHash = hash_token sample_account_env token, lwExpiresAt = 9, lwConsumedAt = consumed\<rparr>"

definition sample_invited :: account_db where
  "sample_invited = sample_accounts\<lparr>daUsers := daUsers sample_accounts @ [(sample_user ''u3'' ''cy@example.com'' ''viewer'')\<lparr>uwPasswordHash := None\<rparr>],
     daInvites := [sample_link ''i1'' ''u3'' ''token'' None], daResets := [sample_link ''r1'' ''u2'' ''old'' None]\<rparr>"

text \<open>The tables after a new reset link for \<open>u2\<close>.\<close>

definition sample_replaced :: account_db where
  "sample_replaced = sample_invited\<lparr>daResets := [sample_link ''r1'' ''u2'' ''old'' (Some 0),
     \<lparr>lwID = ''n0'', lwUserID = ''u2'', lwTokenHash = hash_token sample_account_env (hex_encode ''random''), lwExpiresAt = resetTokenTTL, lwConsumedAt = None\<rparr>]\<rparr>"

lemma sample_replacement:
  "\<exists>x. AdminGenerateResetLink sample_account_env sample_outcome sample_claims ''u2'' sample_invited sample_invited = (Inr x, sample_replaced)"
proof -
  have "length (hash_token sample_account_env (hex_encode ''random'')) \<noteq> length (hash_token sample_account_env ''old'')"
    by (simp add: hash_token_def sample_account_env_def)
  then have new: "hash_token sample_account_env (hex_encode ''random'') \<noteq> hash_token sample_account_env ''old''" by metis
  have id: "peParseUUID (unPg sample_account_env) ''u2'' = Some ''u2''" by (simp add: sample_account_env_def sample_policy_env_def)
  show ?thesis
    using new by (simp add: id AdminGenerateResetLink_def store_GetUserByID_def failing_def find_or_none_def live_user_def IssueRefreshToken_def link_violation_def
        first_error_def end_tx_def Let_def set_where_def sample_replaced_def sample_invited_def sample_link_def sample_accounts_def sample_user_def
        sample_claims_def sample_outcome_def)
qed

definition sample_accept :: "account_db \<Rightarrow> account_event list \<times> account_db" where
  "sample_accept db = handle sample_account_env sample_outcome sample_replaced sample_replaced
     (ReqAccept ''10.0.0.1'' (Some \<lparr>aiToken = ''token'', aiPassword = ''password''\<rparr>) (api_newRateLimiter 5 second)) db"

definition sample_reset :: "account_db \<Rightarrow> account_event list \<times> account_db" where
  "sample_reset db = handle sample_account_env sample_outcome sample_replaced sample_replaced
     (ReqReset ''10.0.0.1'' (Some \<lparr>rpToken = ''old'', rpNewPassword = ''password''\<rparr>) (api_newRateLimiter 5 second)) db"

lemma sample_admitted: "\<exists>rl'. provisioning_throttle (uaNow sample_outcome) ''10.0.0.1'' (api_newRateLimiter 5 second) = (None, rl')"
  by (simp add: provisioning_throttle_def throttle_def api_Allow_def api_newRateLimiter_def Let_def keep_after_filter)

lemma sample_accept_first: "fst (sample_accept sample_replaced) = [Accepted ''i1'' ''u3'']"
proof -
  have usable: "usable_invite sample_account_env sample_outcome ''token'' sample_replaced
      = Inr (sample_link ''i1'' ''u3'' ''token'' None, (sample_user ''u3'' ''cy@example.com'' ''viewer'')\<lparr>uwPasswordHash := None\<rparr>)"
    by (simp add: usable_invite_def find_link_def lock_user_def failing_def find_or_none_def sample_replaced_def sample_invited_def sample_link_def
        sample_account_defs)
  obtain rl' where rl': "provisioning_throttle (uaNow sample_outcome) ''10.0.0.1'' (api_newRateLimiter 5 second) = (None, rl')"
    using sample_admitted by blast
  let ?req = "\<lparr>aiToken = ''token'', aiPassword = ''password''\<rparr>"
  have "uaErr sample_outcome = (\<lambda>_. None)" "HashPassword sample_outcome (aiPassword ?req) = Inr ''password''"
    by (simp_all add: sample_outcome_def HashPassword_def)
  from accept_tx_faultless [OF this(1) _ this(2), where env = sample_account_env and db = sample_replaced] usable
  obtain db' where tx: "accept_tx sample_account_env sample_outcome ?req sample_replaced = (Inr (200, ''cy@example.com''), db')"
    by (simp add: sample_user_def)
  show ?thesis
    by (simp add: sample_accept_def handle_def AcceptInvite_def rl' tx let_through_def accepted_of_def usable minPasswordLen_def)
      (simp add: sample_link_def sample_user_def)
qed

theorem links_used_once_witness:
  "\<exists>db1 db2. sample_accept sample_replaced = ([Accepted ''i1'' ''u3''], db1) \<and> db2 = snd (sample_accept db1)
     \<and> accepts ''i1'' (Accepted ''i1'' ''u3'' # fst (sample_accept db1) @ fst (sample_reset db2)) = 1
     \<and> resets ''r1'' (Accepted ''i1'' ''u3'' # fst (sample_accept db1) @ fst (sample_reset db2)) = 0"
proof -
  let ?db1 = "snd (sample_accept sample_replaced)"
  let ?db2 = "snd (sample_accept ?db1)"
  have run1: "run_from sample_account_env {} sample_replaced ([] @ map (Pair False) (fst (sample_accept sample_replaced))) [?db1, sample_replaced]"
    unfolding sample_accept_def by (rule run_from.goes_on [OF run_from.begins]) simp_all
  have run2: "run_from sample_account_env {} sample_replaced
      (([] @ map (Pair False) (fst (sample_accept sample_replaced))) @ map (Pair False) (fst (sample_accept ?db1))) [?db2, ?db1, sample_replaced]"
    unfolding sample_accept_def [of ?db1] by (rule run_from.goes_on [OF run1]) simp_all
  have run3: "run_from sample_account_env {} sample_replaced
      ((([] @ map (Pair False) (fst (sample_accept sample_replaced))) @ map (Pair False) (fst (sample_accept ?db1))) @ map (Pair False) (fst (sample_reset ?db2)))
      [snd (sample_reset ?db2), ?db2, ?db1, sample_replaced]"
    unfolding sample_reset_def [of ?db2] by (rule run_from.goes_on [OF run2]) simp_all
  have ids: "distinct (map lwID (daInvites sample_replaced))" "distinct (map lwID (daResets sample_replaced))" "\<not> spent ''i1'' (daInvites sample_replaced)"
    by (simp_all add: sample_replaced_def sample_invited_def sample_accounts_def sample_link_def spent_def)
  have old: "sample_link ''r1'' ''u2'' ''old'' None \<in> set (daResets sample_invited)" "lwID (sample_link ''r1'' ''u2'' ''old'' None) = ''r1''"
    "peParseUUID (unPg sample_account_env) ''u2'' = Some (lwUserID (sample_link ''r1'' ''u2'' ''old'' None))"
    by (simp_all add: sample_invited_def sample_link_def sample_account_env_def sample_policy_env_def)
  obtain x where x: "AdminGenerateResetLink sample_account_env sample_outcome sample_claims ''u2'' sample_invited sample_invited = (Inr x, sample_replaced)"
    using sample_replacement by blast
  note once = links_used_once [OF run3 ids(1,2), of "''i1''"]
  have evs: "map snd ((([] @ map (Pair False) (fst (sample_accept sample_replaced))) @ map (Pair False) (fst (sample_accept ?db1))) @ map (Pair False) (fst (sample_reset ?db2)))
      = Accepted ''i1'' ''u3'' # fst (sample_accept ?db1) @ fst (sample_reset ?db2)"
    by (simp add: sample_accept_first comp_def)
  have "resets ''r1'' (Accepted ''i1'' ''u3'' # fst (sample_accept ?db1) @ fst (sample_reset ?db2)) = 0"
    using conjunct2 [OF conjunct2 [OF once]] x old unfolding evs by metis
  moreover have "accepts ''i1'' (Accepted ''i1'' ''u3'' # fst (sample_accept ?db1) @ fst (sample_reset ?db2)) \<le> 1"
    using conjunct1 [OF once] ids(3) unfolding evs by simp
  then have "accepts ''i1'' (Accepted ''i1'' ''u3'' # fst (sample_accept ?db1) @ fst (sample_reset ?db2)) = 1" by (simp add: accepts_def)
  moreover have "sample_accept sample_replaced = ([Accepted ''i1'' ''u3''], ?db1)" using sample_accept_first by (metis prod.collapse)
  ultimately show ?thesis by blast
qed

lemma sample_session:
  "\<exists>resp db'. Login sample_account_env sample_outcome (Some sample_login) sample_accounts sample_accounts = (Inr (200, resp), db')"
  by (simp add: Login_def store_GetUserByEmail_def failing_def find_or_none_def live_user_def CheckPassword_def open_session_def IssueAccessToken_def
      IssueRefreshToken_def store_CreateRefreshToken_def access_claims.truncate_def sample_access_claims_def Let_def sample_account_defs sample_sign_def
      go_div_def second_def)

theorem login_session_identity_witness:
  "\<exists>resp db'. Login sample_account_env sample_outcome (Some sample_login) sample_accounts sample_accounts = (Inr (200, resp), db')
     \<and> jwtMiddleware (sample_verify sample_access_claims 0) Some (''Bearer '' @ lrAccessToken resp)
        = Inr \<lparr>ucUserID = ''u2'', ucOrgID = ''o1'', ucEmail = ''bo@example.com'', ucRole = ''viewer''\<rparr>
     \<and> isl (jwtMiddleware (sample_verify sample_access_claims (3600 * second)) Some (''Bearer '' @ lrAccessToken resp))"
proof -
  obtain resp db' where l: "Login sample_account_env sample_outcome (Some sample_login) sample_accounts sample_accounts = (Inr (200, resp), db')"
    using sample_session by blast
  have signed: "checks_expiry (sample_verify sample_access_claims) sample_outcome"
    by (rule sample_checks_expiry) (simp add: sample_outcome_def)
  have ttl: "uaNow sample_outcome + unAccessTTL sample_account_env = 3600 * second" by (simp add: sample_outcome_def sample_account_env_def)
  then have ttl0: "0 \<le> uaNow sample_outcome + unAccessTTL sample_account_env" by (simp add: second_def)
  have ids: "\<forall>u\<in>set (daUsers sample_accounts). Some (uwID u) = Some (uwID u) \<and> Some (uwOrgID u) = Some (uwOrgID u)" by simp
  from login_session_identity [OF l signed ttl0 ids] obtain u where u: "u \<in> set (daUsers sample_accounts)" "uwEmail u = ''bo@example.com''"
    "\<forall>t \<le> uaNow sample_outcome + unAccessTTL sample_account_env - second.
       jwtMiddleware (sample_verify sample_access_claims t) Some (''Bearer '' @ lrAccessToken resp) = Inr (account_claims u)"
    "\<forall>t \<ge> uaNow sample_outcome + unAccessTTL sample_account_env. isl (jwtMiddleware (sample_verify sample_access_claims t) Some (''Bearer '' @ lrAccessToken resp))"
    by (auto simp: sample_login_def)
  have "(0::int) \<le> uaNow sample_outcome + unAccessTTL sample_account_env - second" by (simp add: ttl second_def)
  with u(3) have "jwtMiddleware (sample_verify sample_access_claims 0) Some (''Bearer '' @ lrAccessToken resp) = Inr (account_claims u)" by blast
  moreover have "account_claims u = \<lparr>ucUserID = ''u2'', ucOrgID = ''o1'', ucEmail = ''bo@example.com'', ucRole = ''viewer''\<rparr>"
    using u(1,2) by (auto simp: sample_accounts_def sample_user_def account_claims_def)
  moreover have "isl (jwtMiddleware (sample_verify sample_access_claims (3600 * second)) Some (''Bearer '' @ lrAccessToken resp))"
    using u(4) by (simp add: ttl)
  ultimately show ?thesis using l by simp
qed

definition sample_invitation :: InviteUserRequest where
  "sample_invitation = \<lparr>ivEmail = ''dan@example.com'', ivRole = ''approver''\<rparr>"

lemma sample_invited_user:
  "\<exists>resp db1. InviteUser sample_account_env sample_outcome sample_claims (Some sample_invitation) sample_accounts = (Inr (201, resp), db1)
     \<and> irInviteLink resp = ''/accept-invite?token='' @ hex_encode ''random'' \<and> irExpiresAt resp = inviteTokenTTL \<and> usID2 (irUser resp) = ''n0''"
  by (simp add: InviteUser_def sample_invitation_def invite_role_def allowedRoles_def IssueRefreshToken_def insert_user_def invited_user_def user_roles_def
      link_violation_def first_error_def end_tx_def Let_def sample_account_defs sample_claims_def userRowToResp_def)

definition invited_claims :: access_claims where
  "invited_claims = \<lparr>axSubject = ''n0'', axOrgID = ''o1'', axEmail = ''dan@example.com'', axRole = ''approver''\<rparr>"

definition sample_login_outcome :: call_env where
  "sample_login_outcome = sample_outcome\<lparr>uaSign := sample_sign invited_claims\<rparr>"

lemma sample_access:
  "IssueAccessToken sample_account_env sample_login_outcome ''n0'' ''o1'' ''dan@example.com'' ''approver'' = Inr (''jwt'', 3600 * second)"
  by (simp add: IssueAccessToken_def sample_login_outcome_def sample_sign_def invited_claims_def access_claims.truncate_def sample_account_defs Let_def
      go_div_def second_def)

theorem invite_leads_to_login_witness:
  "\<exists>db2 db3 login. Login sample_account_env sample_login_outcome (Some \<lparr>liEmail = ''dan@example.com'', liPassword = ''password''\<rparr>) db2 db2 = (Inr (200, login), db3)
     \<and> usrID (lrUser login) = ''n0'' \<and> usrRole (lrUser login) = ''approver'' \<and> usrOrgID (lrUser login) = ''o1''
     \<and> jwtMiddleware (sample_verify invited_claims 0) Some (''Bearer '' @ lrAccessToken login)
        = Inr \<lparr>ucUserID = ''n0'', ucOrgID = ''o1'', ucEmail = ''dan@example.com'', ucRole = ''approver''\<rparr>"
proof -
  obtain resp db1 where i: "InviteUser sample_account_env sample_outcome sample_claims (Some sample_invitation) sample_accounts = (Inr (201, resp), db1)"
    "irInviteLink resp = ''/accept-invite?token='' @ hex_encode ''random''" "irExpiresAt resp = inviteTokenTTL" "usID2 (irUser resp) = ''n0''"
    using sample_invited_user by blast
  have raw: "hex_encode ''random'' \<noteq> []" by (simp flip: length_0_conv)
  have faultless: "uaErr sample_outcome = (\<lambda>_. None)" "uaErr sample_login_outcome = (\<lambda>_. None)" by (simp_all add: sample_outcome_def sample_login_outcome_def)
  have now: "uaNow sample_outcome \<le> irExpiresAt resp" by (simp add: sample_outcome_def i(3) inviteTokenTTL_def second_def)
  have pw: "minPasswordLen \<le> length ''password''" "uaHash sample_outcome ''password'' = Inr ''password''" by (simp_all add: minPasswordLen_def sample_outcome_def)
  obtain rl' where rl': "provisioning_throttle (uaNow sample_outcome) ''10.0.0.1'' (api_newRateLimiter 5 second) = (None, rl')"
    using sample_admitted by blast
  have check: "CheckPassword sample_account_env ''password'' ''password'' = None" by (simp add: CheckPassword_def sample_account_env_def)
  have inv: "ivEmail sample_invitation = ''dan@example.com''" "invite_role sample_invitation = ''approver''" "ucOrgID sample_claims = ''o1''"
    by (simp_all add: sample_invitation_def invite_role_def sample_claims_def)
  have access: "IssueAccessToken sample_account_env sample_login_outcome (usID2 (irUser resp)) (ucOrgID sample_claims) (ivEmail sample_invitation)
      (invite_role sample_invitation) = Inr (''jwt'', 3600 * second)" unfolding i(4) inv by (rule sample_access)
  have fresh: "uaRandom sample_login_outcome = Inr ''random''" "uaNewID sample_login_outcome 0 \<notin> fwID ` set (daRefresh sample_accounts)"
    "hash_token sample_account_env (hex_encode ''random'') \<notin> fwTokenHash ` set (daRefresh sample_accounts)"
    by (simp_all add: sample_login_outcome_def sample_outcome_def sample_accounts_def)
  have signed: "checks_expiry (sample_verify invited_claims) sample_login_outcome"
    by (rule sample_checks_expiry) (simp add: sample_login_outcome_def)
  have ttl: "uaNow sample_login_outcome + unAccessTTL sample_account_env = 3600 * second"
    by (simp add: sample_login_outcome_def sample_outcome_def sample_account_env_def)
  then have ttl0: "0 \<le> uaNow sample_login_outcome + unAccessTTL sample_account_env" by (simp add: second_def)
  have ids: "Some (usID2 (irUser resp)) = Some (usID2 (irUser resp))" "Some (ucOrgID sample_claims) = Some (ucOrgID sample_claims)" by simp_all
  note leads = invite_leads_to_login [OF i(1,2) raw faultless(1) now pw rl' faultless(2) check access fresh signed ttl0 ids]
  obtain db2 db3 login where l: "Login sample_account_env sample_login_outcome (Some \<lparr>liEmail = ''dan@example.com'', liPassword = ''password''\<rparr>) db2 db2 = (Inr (200, login), db3)"
    "lrUser login = \<lparr>usrID = ''n0'', usrEmail = ''dan@example.com'', usrName = [], usrRole = ''approver'', usrOrgID = ''o1''\<rparr>"
    "\<forall>t \<le> 3600 * second - second. jwtMiddleware (sample_verify invited_claims t) Some (''Bearer '' @ lrAccessToken login)
       = Inr \<lparr>ucUserID = ''n0'', ucOrgID = ''o1'', ucEmail = ''dan@example.com'', ucRole = ''approver''\<rparr>"
    using leads [unfolded i(4) inv ttl] by blast
  have "(0::int) \<le> 3600 * second - second" by (simp add: second_def)
  with l(3) have "jwtMiddleware (sample_verify invited_claims 0) Some (''Bearer '' @ lrAccessToken login)
       = Inr \<lparr>ucUserID = ''n0'', ucOrgID = ''o1'', ucEmail = ''dan@example.com'', ucRole = ''approver''\<rparr>" by blast
  with l(1,2) show ?thesis by (intro exI [of _ db2] exI [of _ db3] exI [of _ login]) simp
qed

end
