(* ===== verification/Spec2Isabelle.thy ===== *)
theory Spec2Isabelle
  imports Workflow_Exec Mcp_Sessions Tool_Admin Agent_Config Api_Keys Account_Runs
begin

text \<open>
  Verification of the EAMI control plane (Go services under \<^verbatim>\<open>src/\<close>): the gateway that every
  call of a governed agent passes, the policy engine it asks, the admin API that writes what the
  gateway enforces, and the endpoint agents and collectors that report to the API and get their
  configuration from it.

  Parts and their interaction. A bearer token (\<open>Identity_Tokens\<close>) names an agent and its
  organisation. An MCP session (\<open>Mcp_Sessions\<close>) or a workflow run (\<open>Workflow_Exec\<close>) turns a request
  into a call; \<open>Dispatcher\<close> checks the registry (\<open>Registry_Liveness\<close>), license and usage
  (\<open>License_Gate\<close>), resolves the connector (\<open>Tool_Routing\<close>, with \<open>Redaction\<close> of what a provider
  sees and \<open>Path_Match\<close> for the paths of REST connectors), evaluates the policies
  (\<open>Policy_Engine\<close>), holds what must be approved (\<open>Approval_Flow\<close>), calls downstream and writes
  the audit chain (\<open>Audit_Chain\<close>). The admin API (\<open>Admin_Access\<close>, \<open>Tool_Admin\<close>, \<open>Policy_Admin\<close>,
  \<open>Agent_Admin\<close>, \<open>Agent_Config\<close>) changes the tables the gateway reads; its policy notifications
  reach the loader of \<open>Policy_Admin\<close>. Its users log in, are invited and are removed through
  \<open>User_Accounts\<close>, behind the limiters of \<open>Api_Limits\<close>; \<open>Api_Keys\<close> issues and revokes the keys of
  agents, inside the audited transactions of \<open>Admin_Audit\<close>; what it dials passes \<open>Net_Guard\<close>. Endpoint agents (\<open>Remote_Config\<close>, \<open>Scan_Paths\<close>) poll their
  configuration, and send their reports, through \<open>Collector\<close>. \<open>Rate_Limit\<close> holds the limiters in
  front of tokens, workflow runs and unauthenticated requests.

  Theories and sources (all paths under \<^verbatim>\<open>src/\<close>).
  \<^item> \<open>Gateway_Prelude\<close>: Go values (strings as byte lists, decoded JSON, wrapped errors, times as
    nanoseconds, 64-bit arithmetic) and the facts on lists, options and searches that all use;
    \<open>Framing\<close>: a concrete codec, with which witnesses instantiate the codec parameters.
  \<^item> \<open>Policy_Engine\<close>: \<^verbatim>\<open>eami-policy\<close> (rules, conditions, globs, scope drift, first match).
  \<^item> \<open>Audit_Chain\<close>: \<^verbatim>\<open>eami-gateway/internal/audit/writer.go\<close>, \<^verbatim>\<open>eami-api/internal/store/verify.go\<close>.
  \<^item> \<open>Registry_Liveness\<close>, \<open>Identity_Tokens\<close>, \<open>License_Gate\<close>, \<open>Rate_Limit\<close>: \<^verbatim>\<open>registry\<close>, \<^verbatim>\<open>identity\<close>,
    \<^verbatim>\<open>license\<close>, usage limits and rate limiters of \<^verbatim>\<open>eami-gateway/internal\<close>.
  \<^item> \<open>Path_Match\<close>, \<open>Redaction\<close>, \<open>Tool_Routing\<close>, \<open>Approval_Flow\<close>, \<open>Dispatcher\<close>: the router, the
    redaction rules, the approval broker with its listener, and \<^verbatim>\<open>Dispatch\<close>.
  \<^item> \<open>Http_Client\<close>: \<^verbatim>\<open>http.Client.Do\<close> of the Go library with its redirects, used wherever the code
    leaves the client's defaults: the connectors and providers of \<open>Tool_Routing\<close> and the batches of
    \<open>Collector\<close>. The other requests (the configuration proxy and the polls of the endpoints, the
    token usage, the connectivity test) have one outcome each, the answer after any redirects.
  \<^item> \<open>Workflow_Exec\<close>, \<open>Mcp_Sessions\<close>: workflow runs, MCP sessions and the liveness listener.
  \<^item> \<open>Admin_Access\<close>, \<open>Tool_Admin\<close>, \<open>Policy_Admin\<close>, \<open>Agent_Admin\<close>, \<open>Agent_Config\<close>: role checks and
    approval decisions, and the handlers of \<^verbatim>\<open>eami-api/internal/api\<close> with the statements of
    \<^verbatim>\<open>eami-api/internal/store\<close>; \<open>Policy_Admin\<close> also has the policy loader of the gateway.
  \<^item> \<open>Net_Guard\<close>: \<^verbatim>\<open>eami-api/internal/netguard\<close>; \<open>Api_Limits\<close>: \<^verbatim>\<open>api/ratelimit.go\<close> and
    \<^verbatim>\<open>ratelimit_login.go\<close>; \<open>Admin_Audit\<close>: \<^verbatim>\<open>store/admin_audit.go\<close> and \<^verbatim>\<open>api/admin_audit.go\<close>;
    \<open>Api_Keys\<close>: the key handlers of \<^verbatim>\<open>api/auth.go\<close> with \<^verbatim>\<open>store/agent_liveness.go\<close>.
  \<^item> \<open>User_Accounts\<close>: login and refresh (\<^verbatim>\<open>api/auth.go\<close>, \<^verbatim>\<open>auth/auth.go\<close>), \<^verbatim>\<open>api/users.go\<close>,
    \<^verbatim>\<open>api/provisioning.go\<close> and \<^verbatim>\<open>api/bootstrap.go\<close> with their statements; \<open>Account_Runs\<close>: the runs
    of these requests and what no run can do.
  \<^item> \<open>Scan_Paths\<close>, \<open>Remote_Config\<close>: \<^verbatim>\<open>eami-agent/internal/scanpath\<close> and \<^verbatim>\<open>remoteconfig\<close>, with the
    rules of \<^verbatim>\<open>eami-api/internal/store/agent_config_limits.go\<close>.
  \<^item> \<open>Collector\<close>: \<^verbatim>\<open>eami-collector\<close>, keys, ingest, configuration proxy and forwarder.

  How code becomes definitions. A struct is a record, its fields with a prefix; a table is a
  list of rows, and the schema's constraints are conditions of the statements that write it. A
  handler is a function from its request, the outcome of each of its statements (an error option
  per call) and the tables to its answer and the new tables; every return of the code is a branch,
  with its status, code and message. Where a handler reads before it writes, the read may see
  other tables than the write (\<open>seen\<close>), so that every interleaving is covered. Goroutines,
  channels, notifications and restarts are \<open>inductive\<close> step relations whose states carry the
  history the properties need. Go errors are values, \<open>errors.Is\<close> follows their chain.

  What the lemmas show. Each component has its invariant and the lemma that every operation keeps
  it (\<open>..._ok\<close>), case rules for its handlers (\<open>..._cases\<close>), and the facts its clients use; shared
  contracts are locales (the sort a rule list needs, the database of the audit writer, the store
  of revocations, the sliding window of a limiter, the guards of routes, the writers of policies)
  that are interpreted on the definitions of the model. The properties, C1 first, stand after a text
  block with their number. This theory has those that join components: revocation and
  containment reach the gateway's next call, and an organisation's deny is final.

  Bounds. No definition uses fuel. Retries and ranks that occur are those of the code: three
  attempts of the policy reorder, at most six transitions of a hold, eleven attempts per report of
  the collector, the channel of 32 messages per session, two consecutive 404 before an endpoint
  falls back.

  Parameters: SHA-256, HMAC and signatures, the servers behind a request, JSON and YAML codecs, gzip, regular expressions, UUIDs
  and their parsing, the collation and scan order of the database, map iteration order, the
  unstable sort, clocks, file and network outcomes. What is assumed of one is a named hypothesis
  of the property (an injectivity at the values at hand, a decoder that undoes its encoder), and
  the witness instantiates it.

  Not modelled. Input and output without decisions of its own: logging, metrics, wiring in the
  \<^verbatim>\<open>main\<close> packages, configuration files, schema migrations. Endpoint detection
  (\<^verbatim>\<open>eami-agent/internal\<close> scanners, payload, browser messaging, service): it reads operating
  systems. The web interface (TypeScript), the vendored and generated code. The parts of the admin
  API that only report (inventories, summaries, spend, reports), ingest of delivered reports,
  alerting, workflow and workspace editing, and licensing events. The answers
  of the API server without a database, which only its tests use.
\<close>

section \<open>Properties of the composition\<close>

lemma dead_call_goes_nowhere:
  assumes "deLive env = Some (CheckLive uuid_parse dbErr db)"
    and "fst (CheckLive uuid_parse dbErr db (acAgentUUID ac) (acOrgID ac) (acTokenID ac) (acAPIKeyID ac)) \<noteq> Live"
    and "Dispatch env ac = ((result, err), effs)"
  shows "err = Some (Sentinel ErrNotLive) \<and> (\<forall>c evs. Down c \<notin> set effs \<and> HoldResumed evs \<notin> set effs)"
proof -
  have dead: "notLiveReason env ac \<noteq> []"
    using assms(2) by (auto simp: notLiveReason_def assms(1) split: prod.split option.split Liveness.split)
  then have "err = Some (Sentinel ErrNotLive)"
    using assms(3) by (simp add: Dispatch_def rejectOnNotLive_def reject_closed_def Let_def apsnd_def map_prod_def split: prod.splits)
      (metis finish_fst prod.sel(1) prod.sel(2) DispatchOutcome.select_convs(3))
  moreover have "\<not> gates_pass env ac" using dead by (simp add: gates_pass_def)
  ultimately show ?thesis using downstream_gated [OF assms(3)] by blast
qed

text \<open>C6: A revocation stops the next call. If the dispatcher's liveness check is the registry's
  and the governed agent is not active any more, or its token or the key it was issued under
  is revoked, then a dispatch makes no downstream call, executes no held call, and answers
  that the caller is not live.\<close>

theorem revoked_call_goes_nowhere:
  assumes "deLive env = Some (CheckLive uuid_parse dbErr db)"
    and "uuid_parse (acAgentUUID ac) = Some aid"
    and "st \<noteq> ''active'' \<and> db = set_agent_status aid st db0
       \<or> acTokenID ac \<noteq> [] \<and> acTokenID ac \<in> set (revoked_ai_tokens db)
       \<or> acAPIKeyID ac \<noteq> [] \<and> uuid_parse (acAPIKeyID ac) = Some k \<and> (k, True) \<in> set (api_keys_revoked db)"
    and "Dispatch env ac = ((result, err), effs)"
  shows "err = Some (Sentinel ErrNotLive) \<and> (\<forall>c evs. Down c \<notin> set effs \<and> HoldResumed evs \<notin> set effs)"
  by (rule dead_call_goes_nowhere [OF assms(1) revoked_not_live [OF assms(2,3)] assms(4)])

text \<open>C8: Containment through the admin API reaches the gateway. After an update request that left
  an agent with another status than active, or a successful delete request, a call of that
  agent makes no downstream call, executes no held call, and is answered as not live, whatever
  its token says.\<close>

theorem contained_agent_goes_nowhere:
  assumes "distinct (map awID (abAgents db0))"
    and "UpdateAgent aenv loadErr seen updErr evErr uc raw body db0 = (Inr (code, resp), db, notified) \<and> arStatus resp \<noteq> ''active'' \<and> arID resp = i
       \<or> DeleteAgent aenv readErr delErr evErr uc raw db0 = (Inr (code, u), db, notified) \<and> peParseUUID (aePg aenv) raw = Some i"
    and "deLive env = Some (CheckLive uuid_parse dbErr (registry_view db toks keys))" "uuid_parse (acAgentUUID ac) = Some i"
    and "Dispatch env ac = ((result, err), effs)"
  shows "err = Some (Sentinel ErrNotLive) \<and> (\<forall>c evs. Down c \<notin> set effs \<and> HoldResumed evs \<notin> set effs)"
proof (rule dead_call_goes_nowhere [OF assms(3) inactive_not_live [where uuid_parse = uuid_parse and agentID = "acAgentUUID ac", OF _ assms(4)] assms(5)])
  from assms(2) show "\<forall>a\<in>set (abAgents db). awID a = i \<longrightarrow> awStatus a \<noteq> ''active''"
  proof
    assume "UpdateAgent aenv loadErr seen updErr evErr uc raw body db0 = (Inr (code, resp), db, notified) \<and> arStatus resp \<noteq> ''active'' \<and> arID resp = i"
    then have h: "UpdateAgent aenv loadErr seen updErr evErr uc raw body db0 = (Inr (code, resp), db, notified)" "arStatus resp \<noteq> ''active''" "arID resp = i"
      by blast+
    from contained_row [OF h(1) assms(1) h(2)] h(3) show ?thesis by simp
  next
    assume "DeleteAgent aenv readErr delErr evErr uc raw db0 = (Inr (code, u), db, notified) \<and> peParseUUID (aePg aenv) raw = Some i"
    then have h: "DeleteAgent aenv readErr delErr evErr uc raw db0 = (Inr (code, u), db, notified)" "peParseUUID (aePg aenv) raw = Some i" by blast+
    have "i \<notin> awID ` set (abAgents db)" using deleted_row [OF h(1) assms(1) h(2)] by blast
    then show ?thesis by blast
  qed
qed

text \<open>What the gateway's liveness query reads after a key request: the keys, and the revoked tokens
  with their agents.\<close>

definition keys_view :: "agent_row list \<Rightarrow> key_state \<Rightarrow> registry_db" where
  "keys_view agents st = registry_view \<lparr>abAgents = agents, abConfigs = [], abEvents = [], abHistory = []\<rparr>
     (map rkJTI (ksRevoked st)) (map (\<lambda>k. (kyID k, kyRevoked k)) (ksKeys st))"

text \<open>C9: Revoking a key through the admin API reaches the gateway. After a revocation that was
  answered with success, a call under that key, or with a token the key issued in the last four
  hours to an agent that exists, makes no downstream call, executes no held call, and is answered as not live, whatever
  the state of the agents.\<close>

theorem revoked_key_goes_nowhere:
  assumes "RevokeAPIKey H penv aenv cenv now uc raw requestID st = (Inr code, st')" and "peParseUUID penv raw = Some keyID"
    and "uuid_parse (acAgentUUID ac) = Some aid"
    and "acAPIKeyID ac \<noteq> [] \<and> uuid_parse (acAPIKeyID ac) = Some keyID
       \<or> acTokenID ac \<noteq> [] \<and> (\<exists>e\<in>set (ksEvents (fst st)). live_issue (ucOrgID uc) keyID now (fst st) e \<and> tvJTI e = acTokenID ac)"
    and "deLive env = Some (CheckLive uuid_parse dbErr (keys_view agents (fst st')))"
    and "Dispatch env ac = ((result, err), effs)"
  shows "err = Some (Sentinel ErrNotLive) \<and> (\<forall>c evs. Down c \<notin> set effs \<and> HoldResumed evs \<notin> set effs)"
proof -
  let ?db = "keys_view agents (fst st')"
  obtain agentID n where cascade: "RevokeAPIKeyAndTokens cenv now keyID (ucOrgID uc) (fst st) = Inr ((agentID, n), fst st')"
    by (rule RevokeAPIKey_done [OF assms(1)]) (use assms(2) in simp)
  have token: "acTokenID ac \<in> set (revoked_ai_tokens ?db)"
    if "\<exists>e\<in>set (ksEvents (fst st)). live_issue (ucOrgID uc) keyID now (fst st) e \<and> tvJTI e = acTokenID ac"
    using that cascade_complete(3) [OF cascade] by (simp add: keys_view_def registry_view_def) metis
  have key: "(keyID, True) \<in> set (api_keys_revoked ?db)"
    using cascade_complete(1) [OF cascade] by (force simp: keys_view_def registry_view_def)
  have "acTokenID ac \<noteq> [] \<and> acTokenID ac \<in> set (revoked_ai_tokens ?db)
      \<or> acAPIKeyID ac \<noteq> [] \<and> uuid_parse (acAPIKeyID ac) = Some keyID \<and> (keyID, True) \<in> set (api_keys_revoked ?db)"
    using assms(4) token key by argo
  from revoked_not_live [where uuid_parse = uuid_parse and st = "''active''", OF assms(3) disjI2 [OF this]]
  show ?thesis by (rule dead_call_goes_nowhere [OF assms(5) _ assms(6)])
qed

text \<open>C7: An organisation's deny is final. If the dispatcher evaluates the policies of the
  organisation, and a global deny rule applies to the call that no applying global rule with
  another action precedes or ties, then the dispatch makes no downstream call and executes
  no held call, whatever rules the workspaces add.\<close>

theorem organisation_deny_is_final:
  assumes "deEvaluate env = Evaluate io elapsed (NewEvaluator srt rules opts)" and "sort_slice srt rule_less"
    and "g \<in> set rules" "global_rule g" "rAction g = ActionDeny"
    and "\<And>provider tool. resolved env ac provider tool \<Longrightarrow> applies io (call_context_of ac provider tool) g
       \<and> (\<forall>h\<in>set rules. global_rule h \<and> applies io (call_context_of ac provider tool) h \<and> rAction h \<noteq> ActionDeny
            \<longrightarrow> rPriority g < rPriority h)"
    and "Dispatch env ac = (res, effs)"
  shows "\<forall>c evs. Down c \<notin> set effs \<and> HoldResumed evs \<notin> set effs"
proof (rule ccontr)
  assume "\<not> (\<forall>c evs. Down c \<notin> set effs \<and> HoldResumed evs \<notin> set effs)"
  then obtain c evs where made: "Down c \<in> set effs \<or> HoldResumed evs \<in> set effs" by blast
  obtain provider tool where r: "resolved env ac provider tool"
    and d: "Down c \<in> set effs \<longrightarrow> dAction (effective_decision env ac provider tool) \<notin> {ActionDeny, ActionEscalate}"
      "HoldResumed evs \<in> set effs \<longrightarrow> dAction (effective_decision env ac provider tool) = ActionEscalate"
    using downstream_gated [OF assms(7) made] by blast
  let ?pc = "call_context_of ac provider tool"
  obtain m where m: "List.find (applies io ?pc) (srt rules) = Some m" "m \<in> set rules" "global_rule m" "applies io ?pc m"
    "\<And>h. h \<in> set rules \<Longrightarrow> global_rule h \<Longrightarrow> applies io ?pc h \<Longrightarrow> rPriority m \<le> rPriority h"
    by (rule global_match_decides [OF assms(2,3,4)]) (use assms(6) [OF r] in blast)+
  have "rAction m = ActionDeny"
    using assms(6) [OF r] m assms(3,4) by (metis linorder_not_le)
  moreover have "Evaluate io elapsed (NewEvaluator srt rules opts) ?pc = (matched_decision m elapsed, None)"
    using m(1) Evaluate_find [of io elapsed "NewEvaluator srt rules opts" ?pc] by (simp add: Evaluate_def NewEvaluator_def)
  ultimately have "dAction (effective_decision env ac provider tool) = ActionDeny"
    by (simp add: effective_decision_def assms(1) matched_decision_def)
  with d made show False by (auto simp: action_defs)
qed

definition sample_revoked_env :: dispatch_env where
  "sample_revoked_env = (sample_dispatch_env ''allow'')\<lparr>deLive := Some (CheckLive Some None
     \<lparr>gateway_agents = [], revoked_ai_tokens = [''j1''], api_keys_revoked = []\<rparr>)\<rparr>"

theorem revoked_call_goes_nowhere_witness:
  "snd (fst (Dispatch sample_revoked_env sample_call)) = Some (Sentinel ErrNotLive) \<and>
   (\<forall>c evs. Down c \<notin> set (snd (Dispatch sample_revoked_env sample_call))
      \<and> HoldResumed evs \<notin> set (snd (Dispatch sample_revoked_env sample_call)))"
  by (rule revoked_call_goes_nowhere [of sample_revoked_env Some None "\<lparr>gateway_agents = [], revoked_ai_tokens = [''j1''], api_keys_revoked = []\<rparr>"
        sample_call "''a1''" "[]" "\<lparr>gateway_agents = [], revoked_ai_tokens = [], api_keys_revoked = []\<rparr>" "[]"
        "fst (fst (Dispatch sample_revoked_env sample_call))"])
    (simp_all add: sample_revoked_env_def sample_call_def)

definition sample_deny :: Rule where
  "sample_deny = sample_rule ''g'' [] 5 no_conditions ActionDeny"

definition sample_denied_env :: dispatch_env where
  "sample_denied_env = (sample_dispatch_env ''allow'')\<lparr>deEvaluate := Evaluate (toolCategories, toolCategories) 0
     (NewEvaluator sort_rules [sample_rule ''w'' ''ws'' 1 no_conditions ActionAllow, sample_deny] [])\<rparr>"

theorem organisation_deny_is_final_witness:
  "\<forall>c evs. Down c \<notin> set (snd (Dispatch sample_denied_env sample_call))
     \<and> HoldResumed evs \<notin> set (snd (Dispatch sample_denied_env sample_call))"
proof (rule organisation_deny_is_final)
  show "deEvaluate sample_denied_env = Evaluate (toolCategories, toolCategories) 0
      (NewEvaluator sort_rules [sample_rule ''w'' ''ws'' 1 no_conditions ActionAllow, sample_deny] [])"
    by (simp add: sample_denied_env_def)
  show "sort_slice sort_rules rule_less" by (rule rules.sort_slice_axioms)
  show "sample_deny \<in> set [sample_rule ''w'' ''ws'' 1 no_conditions ActionAllow, sample_deny]" by simp
  show "global_rule sample_deny" "rAction sample_deny = ActionDeny"
    by (simp_all add: sample_deny_def sample_rule_def global_rule_def)
  show "Dispatch sample_denied_env sample_call
      = (fst (Dispatch sample_denied_env sample_call), snd (Dispatch sample_denied_env sample_call))" by simp
  fix provider tool
  have "global_rule (sample_rule ''w'' ''ws'' 1 no_conditions ActionAllow) = False"
    by (simp add: global_rule_def sample_rule_def)
  then show "applies (toolCategories, toolCategories) (call_context_of sample_call provider tool) sample_deny
     \<and> (\<forall>h\<in>set [sample_rule ''w'' ''ws'' 1 no_conditions ActionAllow, sample_deny].
          global_rule h \<and> applies (toolCategories, toolCategories) (call_context_of sample_call provider tool) h
          \<and> rAction h \<noteq> ActionDeny \<longrightarrow> rPriority sample_deny < rPriority h)"
    by (simp add: applies_def matchesRule_def call_context_of_def ToPolicyContext_def sample_call_def sample_deny_def
        sample_rule_def no_conditions_def Let_def)
qed

theorem contained_agent_goes_nowhere_witness:
  "\<exists>db. snd (fst (Dispatch ((sample_dispatch_env ''allow'')\<lparr>deLive := Some (CheckLive Some None (registry_view db [] []))\<rparr>) sample_call)) = Some (Sentinel ErrNotLive)"
proof -
  obtain resp db where u: "UpdateAgent sample_agent_env None sample_agents None None sample_operator ''a1'' (Some sample_suspend) sample_agents
      = (Inr (200, resp), db, [''a1''])" "arID resp = ''a1''" "arStatus resp = ''suspended''"
    using sample_suspended by blast
  let ?env = "(sample_dispatch_env ''allow'')\<lparr>deLive := Some (CheckLive Some None (registry_view db [] []))\<rparr>"
  have ids: "distinct (map awID (abAgents sample_agents))" by (simp add: sample_agents_def)
  have updated: "UpdateAgent sample_agent_env None sample_agents None None sample_operator ''a1'' (Some sample_suspend) sample_agents
      = (Inr (200, resp), db, [''a1'']) \<and> arStatus resp \<noteq> ''active'' \<and> arID resp = ''a1''
     \<or> DeleteAgent sample_agent_env None None None sample_operator ''a1'' sample_agents = (Inr (200, ()), db, [''a1'']) \<and> peParseUUID (aePg sample_agent_env) ''a1'' = Some ''a1''"
    using u by simp
  have live: "deLive ?env = Some (CheckLive Some None (registry_view db [] []))" by simp
  have agent: "Some (acAgentUUID sample_call) = Some ''a1''" by (simp add: sample_call_def)
  have d: "Dispatch ?env sample_call = ((fst (fst (Dispatch ?env sample_call)), snd (fst (Dispatch ?env sample_call))), snd (Dispatch ?env sample_call))" by simp
  from contained_agent_goes_nowhere [OF ids updated live agent d] show ?thesis by blast
qed

theorem revoked_key_goes_nowhere_witness:
  "\<exists>st'. RevokeAPIKey zero_digest sample_policy_env sample_audit_env no_faults 10 sample_admin ''k1'' [] (sample_key_state, []) = (Inr 204, st')
     \<and> snd (fst (Dispatch ((sample_dispatch_env ''allow'')\<lparr>deLive := Some (CheckLive Some None (keys_view [] (fst st')))\<rparr>) sample_call))
       = Some (Sentinel ErrNotLive)"
proof -
  obtain st' where r: "RevokeAPIKey zero_digest sample_policy_env sample_audit_env no_faults 10 sample_admin ''k1'' [] (sample_key_state, []) = (Inr 204, st')"
    using sample_revoked by blast
  let ?env = "(sample_dispatch_env ''allow'')\<lparr>deLive := Some (CheckLive Some None (keys_view [] (fst st')))\<rparr>"
  have id: "peParseUUID sample_policy_env ''k1'' = Some ''k1''" by (simp add: sample_policy_env_def)
  have agent: "Some (acAgentUUID sample_call) = Some ''a1''" by (simp add: sample_call_def)
  have "live_issue (ucOrgID sample_admin) ''k1'' 10 sample_key_state sample_issued"
    by (simp add: live_issue_def sample_issued_def sample_key_state_def sample_key_agent_def maxGatewayTokenLifetime_def second_def sample_admin_def)
  then have "\<exists>e\<in>set (ksEvents sample_key_state). live_issue (ucOrgID sample_admin) ''k1'' 10 sample_key_state e \<and> tvJTI e = acTokenID sample_call"
    by (intro bexI [where x = sample_issued]) (simp_all add: sample_call_def sample_issued_def sample_key_state_def)
  then have issued: "acAPIKeyID sample_call \<noteq> [] \<and> Some (acAPIKeyID sample_call) = Some ''k1''
     \<or> acTokenID sample_call \<noteq> [] \<and> (\<exists>e\<in>set (ksEvents (fst (sample_key_state, []))).
          live_issue (ucOrgID sample_admin) ''k1'' 10 (fst (sample_key_state, [])) e \<and> tvJTI e = acTokenID sample_call)"
    by (simp add: sample_call_def)
  have live: "deLive ?env = Some (CheckLive Some None (keys_view [] (fst st')))" by simp
  have d: "Dispatch ?env sample_call = ((fst (fst (Dispatch ?env sample_call)), snd (fst (Dispatch ?env sample_call))), snd (Dispatch ?env sample_call))" by simp
  from revoked_key_goes_nowhere [OF r id agent issued live d] show ?thesis
    using r by (intro exI [where x = st'] conjI) simp_all
qed

end
